(* ===== verification/Prelude.thy ===== *)
theory Prelude
  imports Main "HOL-Library.Word" "HOL-Library.Monad_Syntax"
begin

text \<open>
  What the component theories share: names for the machine integers of the C sources,
  checked access to memory blocks, \<^verbatim>\<open>size_t\<close> arithmetic with its wrap-around written
  out, and the list lemmas on which the buffer proofs rest.

  A call of the program that does not return normally, because an \<^verbatim>\<open>assert\<close> fails (the
  sources are read in their debug configuration, without \<^verbatim>\<open>NDEBUG\<close>), because it would
  touch memory outside a block or divide by zero, or because a loop never ends, is the value
  \<open>None\<close> of an \<open>option\<close>. Error codes the program itself returns are ordinary values.
\<close>

named_theorems fault_simps \<open>equations that evaluate checked memory accesses\<close>
named_theorems size_simps \<open>equations that remove size_t wrap-around where it cannot happen\<close>

type_synonym u8 = "8 word"
type_synonym u16 = "16 word"
type_synonym u32 = "32 word"
type_synonym u64 = "64 word"

text \<open>Recursive calls below a bind of the option monad may use what was bound.\<close>

declare Option.bind_cong [fundef_cong]

lemmas bind_Some = Option.bind_eq_Some_conv

subsection \<open>Assertions\<close>

definition c_assert :: "bool \<Rightarrow> unit option" where
  "c_assert p = (if p then Some () else None)"

lemma c_assert_simps [simp]:
  "c_assert True = Some ()"
  "c_assert False = None"
  by (simp_all add: c_assert_def)

lemma c_assert_eq_Some [simp]: "c_assert p = Some u \<longleftrightarrow> p"
  by (simp add: c_assert_def)

lemma c_assert_bind_eq_Some [simp]:
  "Option.bind (c_assert p) f = Some y \<longleftrightarrow> p \<and> f () = Some y"
  by (simp add: c_assert_def)

lemma c_assert_bind [simp]: "p \<Longrightarrow> Option.bind (c_assert p) f = f ()"
  by (simp add: c_assert_def)

subsection \<open>Reasoning about calls\<close>

text \<open>
  \<open>wlp m Q\<close>: if the call \<open>m\<close> returns, its result satisfies \<open>Q\<close>. \<open>wp m Q\<close>: the call
  returns, and its result satisfies \<open>Q\<close>. The equations \<open>wp_simps\<close> push both through the
  constructs from which the models are built, so that a proof about an operation is one
  simplification down to its elementary steps.
\<close>

named_theorems wp_simps \<open>equations for wlp and wp\<close>

definition wlp :: "'a option \<Rightarrow> ('a \<Rightarrow> bool) \<Rightarrow> bool" where
  "wlp m Q \<longleftrightarrow> (\<forall>x. m = Some x \<longrightarrow> Q x)"

definition wp :: "'a option \<Rightarrow> ('a \<Rightarrow> bool) \<Rightarrow> bool" where
  "wp m Q \<longleftrightarrow> (\<exists>x. m = Some x \<and> Q x)"

lemma wlpD: "wlp m Q \<Longrightarrow> m = Some x \<Longrightarrow> Q x"
  by (simp add: wlp_def)

lemma wlpI: "(\<And>x. m = Some x \<Longrightarrow> Q x) \<Longrightarrow> wlp m Q"
  by (simp add: wlp_def)

lemma wlp_mono: "wlp m P \<Longrightarrow> (\<And>x. P x \<Longrightarrow> Q x) \<Longrightarrow> wlp m Q"
  by (simp add: wlp_def)

lemma wp_mono: "wp m P \<Longrightarrow> (\<And>x. P x \<Longrightarrow> Q x) \<Longrightarrow> wp m Q"
  by (auto simp: wp_def)

lemma wp_wlp: "wp m Q \<Longrightarrow> wlp m Q"
  by (auto simp: wp_def wlp_def)

lemma wpE: "wp m Q \<Longrightarrow> (\<And>x. m = Some x \<Longrightarrow> Q x \<Longrightarrow> thesis) \<Longrightarrow> thesis"
  by (auto simp: wp_def)

lemma wp_conj_wlp: "wp m P \<Longrightarrow> wlp m Q \<Longrightarrow> wp m (\<lambda>x. P x \<and> Q x)"
  by (auto simp: wp_def wlp_def)

lemma wlp_conj: "wlp m (\<lambda>x. P x \<and> Q x) \<longleftrightarrow> wlp m P \<and> wlp m Q"
  by (auto simp: wlp_def)

lemma wlp_bindI: "wlp m P \<Longrightarrow> (\<And>x. P x \<Longrightarrow> wlp (f x) Q) \<Longrightarrow> wlp (Option.bind m f) Q"
  by (auto simp: wlp_def bind_Some)

lemma wlp_bind_prodI:
  "wlp m (\<lambda>(a, b). P a b) \<Longrightarrow> (\<And>a b. P a b \<Longrightarrow> wlp (f a b) Q) \<Longrightarrow> wlp (Option.bind m (\<lambda>(a, b). f a b)) Q"
  by (auto simp: wlp_def bind_Some)

lemma wp_bindI: "wp m P \<Longrightarrow> (\<And>x. P x \<Longrightarrow> wp (f x) Q) \<Longrightarrow> wp (Option.bind m f) Q"
  by (auto simp: wp_def bind_Some)

lemma wp_bind_prodI:
  "wp m (\<lambda>(a, b). P a b) \<Longrightarrow> (\<And>a b. P a b \<Longrightarrow> wp (f a b) Q) \<Longrightarrow> wp (Option.bind m (\<lambda>(a, b). f a b)) Q"
  by (auto simp: wp_def bind_Some)

lemma wlp_ret: "P x \<Longrightarrow> wlp (Some x) P"
  by (simp add: wlp_def)

lemma wp_ret: "P x \<Longrightarrow> wp (Some x) P"
  by (simp add: wp_def)

lemma wlp_ifI: "(b \<Longrightarrow> wlp m Q) \<Longrightarrow> (\<not> b \<Longrightarrow> wlp n Q) \<Longrightarrow> wlp (if b then m else n) Q"
  by simp

lemma wlp_prodI: "(\<And>a b. z = (a, b) \<Longrightarrow> wlp (h a b) Q) \<Longrightarrow> wlp (case z of (a, b) \<Rightarrow> h a b) Q"
  by (simp split: prod.split)

lemma wlp_bind_prod3I:
  "wlp m (\<lambda>(a, b, c). P a b c) \<Longrightarrow> (\<And>a b c. P a b c \<Longrightarrow> wlp (f a b c) Q)
     \<Longrightarrow> wlp (Option.bind m (\<lambda>(a, b, c). f a b c)) Q"
  by (auto simp: wlp_def bind_Some)

lemma wlp_True [wp_simps]: "wlp m (\<lambda>x. True)"
  by (simp add: wlp_def)

lemma wlp_basic [wp_simps]:
  "wlp None Q" "wlp (Some x) Q = Q x" "wlp (Option.bind m f) Q = wlp m (\<lambda>x. wlp (f x) Q)"
  "wlp (c_assert p) R = (p \<longrightarrow> R ())"
  by (auto simp: wlp_def bind_Some)

lemma wp_basic [wp_simps]:
  "\<not> wp None Q" "wp (Some x) Q = Q x" "wp (Option.bind m f) Q = wp m (\<lambda>x. wp (f x) Q)"
  "wp (c_assert p) R = (p \<and> R ())"
  by (auto simp: wp_def bind_Some)

lemma wp_if [wp_simps]:
  "wlp (if b then m else n) Q = (if b then wlp m Q else wlp n Q)"
  "wp (if b then m else n) Q = (if b then wp m Q else wp n Q)"
  by simp_all

lemma wp_prod [wp_simps]:
  "wlp (case z of (a, b) \<Rightarrow> h a b) Q = (case z of (a, b) \<Rightarrow> wlp (h a b) Q)"
  "wp (case z of (a, b) \<Rightarrow> h a b) Q = (case z of (a, b) \<Rightarrow> wp (h a b) Q)"
  by (simp_all split: prod.split)

lemma wp_option [wp_simps]:
  "wlp (case y of None \<Rightarrow> m | Some a \<Rightarrow> h a) Q = (case y of None \<Rightarrow> wlp m Q | Some a \<Rightarrow> wlp (h a) Q)"
  "wp (case y of None \<Rightarrow> m | Some a \<Rightarrow> h a) Q = (case y of None \<Rightarrow> wp m Q | Some a \<Rightarrow> wp (h a) Q)"
  by (simp_all split: option.split)

lemma wp_sum [wp_simps]:
  "wlp (case z of Inl a \<Rightarrow> h a | Inr b \<Rightarrow> k b) Q = (case z of Inl a \<Rightarrow> wlp (h a) Q | Inr b \<Rightarrow> wlp (k b) Q)"
  "wp (case z of Inl a \<Rightarrow> h a | Inr b \<Rightarrow> k b) Q = (case z of Inl a \<Rightarrow> wp (h a) Q | Inr b \<Rightarrow> wp (k b) Q)"
  by (simp_all split: sum.split)

subsection \<open>The type size_t\<close>

text \<open>A \<^verbatim>\<open>size_t\<close> has 64 bits; its values are naturals below \<open>2 ^ 64\<close>.\<close>

definition size_add :: "nat \<Rightarrow> nat \<Rightarrow> nat" where
  "size_add a b = (a + b) mod 2 ^ 64"

definition size_sub :: "nat \<Rightarrow> nat \<Rightarrow> nat" where
  "size_sub a b = (a + 2 ^ 64 - b) mod 2 ^ 64"

lemma size_add_small [size_simps]: "a + b < 2 ^ 64 \<Longrightarrow> size_add a b = a + b"
  by (simp add: size_add_def)

lemma size_sub_small [size_simps]: "b \<le> a \<Longrightarrow> a < 2 ^ 64 \<Longrightarrow> size_sub a b = a - b"
proof -
  assume a: "b \<le> a" "a < 2 ^ 64"
  then have "a + 2 ^ 64 - b = (a - b) + 2 ^ 64" by simp
  then have "size_sub a b = (a - b) mod 2 ^ 64"
    unfolding size_sub_def by (simp only: mod_add_self2)
  with a show ?thesis by simp
qed

lemma size_sub_wrap: "a < b \<Longrightarrow> b < 2 ^ 64 \<Longrightarrow> size_sub a b = a + 2 ^ 64 - b"
  by (simp add: size_sub_def)

subsection \<open>Memory blocks\<close>

text \<open>
  A block of memory is a list; \<open>mem_read\<close> and \<open>mem_write\<close> are \<^verbatim>\<open>memcpy\<close> out of and
  into it, undefined outside its bounds.
\<close>

definition blit :: "'a list \<Rightarrow> nat \<Rightarrow> 'a list \<Rightarrow> 'a list" where
  "blit xs i ys = take i xs @ ys @ drop (i + length ys) xs"

definition mem_read :: "'a list \<Rightarrow> nat \<Rightarrow> nat \<Rightarrow> 'a list option" where
  "mem_read xs pos n = (if pos + n \<le> length xs then Some (take n (drop pos xs)) else None)"

definition mem_write :: "'a list \<Rightarrow> nat \<Rightarrow> 'a list \<Rightarrow> 'a list option" where
  "mem_write xs pos ys = (if pos + length ys \<le> length xs then Some (blit xs pos ys) else None)"

definition mem_at :: "'a list \<Rightarrow> nat \<Rightarrow> 'a option" where
  "mem_at xs i = (if i < length xs then Some (xs ! i) else None)"

definition mem_set :: "'a list \<Rightarrow> nat \<Rightarrow> 'a \<Rightarrow> 'a list option" where
  "mem_set xs i v = (if i < length xs then Some (xs[i := v]) else None)"

lemma mem_read_Some [fault_simps]: "pos + n \<le> length xs \<Longrightarrow> mem_read xs pos n = Some (take n (drop pos xs))"
  by (simp add: mem_read_def)

lemma mem_write_Some [fault_simps]: "pos + length ys \<le> length xs \<Longrightarrow> mem_write xs pos ys = Some (blit xs pos ys)"
  by (simp add: mem_write_def)

lemma mem_at_Some [fault_simps]: "i < length xs \<Longrightarrow> mem_at xs i = Some (xs ! i)"
  by (simp add: mem_at_def)

lemma mem_set_Some [fault_simps]: "i < length xs \<Longrightarrow> mem_set xs i v = Some (xs[i := v])"
  by (simp add: mem_set_def)

lemma mem_at_eq_Some: "mem_at xs i = Some x \<longleftrightarrow> i < length xs \<and> xs ! i = x"
  by (auto simp: mem_at_def)

lemma mem_set_eq_Some: "mem_set xs i v = Some ys \<longleftrightarrow> i < length xs \<and> ys = xs[i := v]"
  by (auto simp: mem_set_def)

lemma length_blit [simp]: "i + length ys \<le> length xs \<Longrightarrow> length (blit xs i ys) = length xs"
  by (simp add: blit_def)

lemma blit_Nil [simp]: "blit xs i [] = xs"
  by (simp add: blit_def)

lemma nth_blit:
  assumes "i + length ys \<le> length xs" and "j < length xs"
  shows "blit xs i ys ! j = (if i \<le> j \<and> j < i + length ys then ys ! (j - i) else xs ! j)"
  using assms by (auto simp: blit_def nth_append min_def)

lemma take_blit: "n \<le> i \<Longrightarrow> i \<le> length xs \<Longrightarrow> take n (blit xs i ys) = take n xs"
  by (simp add: blit_def min_def)

lemma take_blit_at:
  "i + length ys \<le> length xs \<Longrightarrow> take (i + length ys) (blit xs i ys) = take i xs @ ys"
  by (simp add: blit_def)

text \<open>Two adjacent copies are one copy of the concatenation.\<close>

lemma blit_blit_adjacent:
  assumes "i + length ys + length zs \<le> length xs"
  shows "blit (blit xs i ys) (i + length ys) zs = blit xs i (ys @ zs)"
  using assms by (simp add: blit_def ac_simps)

subsection \<open>Rotated lists\<close>

text \<open>
  A ring buffer read from position \<open>r\<close> is the list \<open>rotate r buf\<close>. The two lemmas below
  translate between the two-part copies of the C code, split where the block ends, and one
  copy on the rotated view.
\<close>

lemma rotate_read_chunks:
  assumes "off + c \<le> length buf" and "p = (r + off) mod length buf"
    and "t = min c (length buf - p)"
  shows "take t (drop p buf) @ take (c - t) buf = take c (drop off (rotate r buf))"
proof (cases "buf = []")
  case True
  with assms show ?thesis by simp
next
  case False
  let ?n = "length buf"
  have p: "p < ?n" using False assms(2) by simp
  have t: "t \<le> c" "t \<le> ?n - p" using assms(3) by auto
  show ?thesis
  proof (rule nth_equalityI)
    show len: "length (take t (drop p buf) @ take (c - t) buf) = length (take c (drop off (rotate r buf)))"
      using assms t p by auto
    fix i assume "i < length (take t (drop p buf) @ take (c - t) buf)"
    then have i: "i < c" using len assms(1) by simp
    have rhs: "take c (drop off (rotate r buf)) ! i = buf ! ((r + (off + i)) mod ?n)"
      using i assms(1) by (simp add: nth_rotate)
    have idx: "(r + (off + i)) mod ?n = (p + i) mod ?n"
      using assms(2) by (simp add: mod_simps add.assoc)
    show "(take t (drop p buf) @ take (c - t) buf) ! i = take c (drop off (rotate r buf)) ! i"
    proof (cases "i < t")
      case True
      then have "(p + i) mod ?n = p + i" using t p by simp
      with True show ?thesis using rhs idx t p by (simp add: nth_append)
    next
      case f: False
      then have tt: "t = ?n - p" using i assms(3) by (simp add: min_def split: if_splits)
      then have "p + i = (i - t) + ?n" using f p by simp
      moreover have "i - t < ?n" using i f assms(1) by simp
      ultimately have "(p + i) mod ?n = i - t" by simp
      with f show ?thesis using rhs idx t p i tt by (simp add: nth_append)
    qed
  qed
qed

lemma mod_add_right_cancel_nat: "(a + c) mod n = (b + c) mod n \<longleftrightarrow> a mod n = b mod (n::nat)"
  by (simp add: nat_mod_eq_iff ac_simps)

lemma rotate_update:
  assumes "off < length buf"
  shows "rotate r (buf[(r + off) mod length buf := y]) = (rotate r buf)[off := y]"
proof (rule nth_equalityI)
  fix j assume "j < length (rotate r (buf[(r + off) mod length buf := y]))"
  then have j: "j < length buf" by simp
  have "(r + off) mod length buf = (r + j) mod length buf \<longleftrightarrow> off = j"
    using assms j by (metis add.commute mod_add_right_cancel_nat mod_less)
  moreover have "(r + j) mod length buf < length buf" using j by (intro mod_less_divisor) auto
  ultimately show "rotate r (buf[(r + off) mod length buf := y]) ! j = (rotate r buf)[off := y] ! j"
    using assms j by (auto simp: nth_rotate nth_list_update)
qed simp

lemma blit_Cons: "i < length xs \<Longrightarrow> blit xs i (y # ys) = blit (xs[i := y]) (Suc i) ys"
  by (simp add: blit_def take_Suc_conv_app_nth)

lemma rotate_write_chunks:
  assumes "off + length ys \<le> length buf" and "p = (r + off) mod length buf" and "buf \<noteq> []"
    and "t = min (length ys) (length buf - p)"
  shows "rotate r (blit (blit buf p (take t ys)) 0 (drop t ys)) = blit (rotate r buf) off ys"
  using assms
proof (induction ys arbitrary: buf p off t)
  case Nil
  then show ?case by simp
next
  case (Cons y ys)
  let ?n = "length buf" and ?b = "buf[p := y]"
  have p: "p < ?n" using Cons.prems by simp
  have off: "off < ?n" using Cons.prems by simp
  define p' where "p' = (r + Suc off) mod ?n"
  define t' where "t' = min (length ys) (?n - p')"
  have p': "p' = (if Suc p = ?n then 0 else Suc p)"
    using Cons.prems(2) p unfolding p'_def by (simp add: mod_Suc)
  have "blit (blit buf p (take t (y # ys))) 0 (drop t (y # ys))
      = blit (blit ?b p' (take t' ys)) 0 (drop t' ys)"
  proof (cases "Suc p = ?n")
    case True
    then have "t = 1" "t' = length ys" using Cons.prems p p' by (auto simp: t'_def)
    with True p p' show ?thesis by (simp add: blit_Cons blit_def[of _ "Suc p"])
  next
    case False
    then have "p' = Suc p" using p' by simp
    then have "t = Suc t'" using Cons.prems(4) p unfolding t'_def by simp
    with False p p' show ?thesis by (simp add: blit_Cons)
  qed
  also have "rotate r \<dots> = blit (rotate r ?b) (Suc off) ys"
    using Cons.prems p by (intro Cons.IH) (simp_all add: p'_def t'_def)
  also have "\<dots> = blit (rotate r buf) off (y # ys)"
    using Cons.prems off by (simp add: blit_Cons rotate_update)
  finally show ?case .
qed

end
