(* ===== verification/Fifo.thy ===== *)
theory Fifo
  imports Prelude
begin

text \<open>
  The ring buffer \<^verbatim>\<open>PseudoTcpFifo\<close> of \<^verbatim>\<open>src/session/pseudotcp/pseudotcp.c\<close>. The
  operations copy in two parts where the block ends; the abstraction is the list of buffered
  bytes (\<open>fifo_data\<close>) together with the free space behind it (\<open>fifo_view\<close> is the whole
  block read from the read position). Each operation is refined to a list operation, and the
  locale \<open>byte_fifo\<close> is the contract on which the socket relies.
\<close>

subsection \<open>The code\<close>

record PseudoTcpFifo =
  buffer :: "u8 list"
  buffer_length :: nat
  data_length :: nat
  read_position :: nat

text \<open>
  \<^verbatim>\<open>g_slice_alloc\<close> is \<^verbatim>\<open>malloc\<close>: the block has arbitrary contents, given here by the
  argument \<open>junk\<close>. The remaining two fields keep the zero of the enclosing
  \<^verbatim>\<open>rc_zalloc\<close>.
\<close>

definition g_slice_alloc :: "(nat \<Rightarrow> u8) \<Rightarrow> nat \<Rightarrow> u8 list" where
  "g_slice_alloc junk sz = map junk [0..<sz]"

definition pseudo_tcp_fifo_init :: "(nat \<Rightarrow> u8) \<Rightarrow> nat \<Rightarrow> PseudoTcpFifo" where
  "pseudo_tcp_fifo_init junk sz =
     \<lparr>buffer = g_slice_alloc junk sz, buffer_length = sz, data_length = 0, read_position = 0\<rparr>"

definition pseudo_tcp_fifo_clear :: "PseudoTcpFifo \<Rightarrow> PseudoTcpFifo" where
  "pseudo_tcp_fifo_clear b = b\<lparr>buffer := [], buffer_length := 0\<rparr>"

definition pseudo_tcp_fifo_get_buffered :: "PseudoTcpFifo \<Rightarrow> nat" where
  "pseudo_tcp_fifo_get_buffered b = data_length b"

definition pseudo_tcp_fifo_set_capacity ::
    "(nat \<Rightarrow> u8) \<Rightarrow> PseudoTcpFifo \<Rightarrow> nat \<Rightarrow> (bool \<times> PseudoTcpFifo) option" where
  "pseudo_tcp_fifo_set_capacity junk b sz =
     (if data_length b > sz then Some (False, b)
      else if sz \<noteq> data_length b then
        (let copy = data_length b;
             tail_copy = min copy (size_sub (buffer_length b) (read_position b))
         in do {
           part1 \<leftarrow> mem_read (buffer b) (read_position b) tail_copy;
           new1 \<leftarrow> mem_write (g_slice_alloc junk sz) 0 part1;
           part2 \<leftarrow> mem_read (buffer b) 0 (copy - tail_copy);
           new2 \<leftarrow> mem_write new1 tail_copy part2;
           Some (True, b\<lparr>buffer := new2, buffer_length := sz, read_position := 0\<rparr>)
         })
      else Some (True, b))"

definition pseudo_tcp_fifo_consume_read_data :: "PseudoTcpFifo \<Rightarrow> nat \<Rightarrow> PseudoTcpFifo option" where
  "pseudo_tcp_fifo_consume_read_data b sz =
     do {
       c_assert (sz \<le> data_length b);
       c_assert (buffer_length b \<noteq> 0);
       Some (b\<lparr>read_position := size_add (read_position b) sz mod buffer_length b,
               data_length := data_length b - sz\<rparr>)
     }"

definition pseudo_tcp_fifo_consume_write_buffer :: "PseudoTcpFifo \<Rightarrow> nat \<Rightarrow> PseudoTcpFifo option" where
  "pseudo_tcp_fifo_consume_write_buffer b sz =
     do {
       c_assert (sz \<le> size_sub (buffer_length b) (data_length b));
       Some (b\<lparr>data_length := size_add (data_length b) sz\<rparr>)
     }"

definition pseudo_tcp_fifo_get_write_remaining :: "PseudoTcpFifo \<Rightarrow> nat" where
  "pseudo_tcp_fifo_get_write_remaining b = size_sub (buffer_length b) (data_length b)"

text \<open>
  \<^verbatim>\<open>pseudo_tcp_fifo_read_offset\<close> fills the caller's buffer and returns the number of
  bytes; the model returns the bytes. The divisions by \<^verbatim>\<open>buffer_length\<close> come before the
  end-of-stream test, so an empty block is a division by zero.
\<close>

definition pseudo_tcp_fifo_read_offset :: "PseudoTcpFifo \<Rightarrow> nat \<Rightarrow> nat \<Rightarrow> u8 list option" where
  "pseudo_tcp_fifo_read_offset b bytes offset =
     do {
       c_assert (buffer_length b \<noteq> 0);
       let available = size_sub (data_length b) offset;
       let rpos = size_add (read_position b) offset mod buffer_length b;
       let copy = min bytes available;
       let tail_copy = min copy (size_sub (buffer_length b) rpos);
       if offset \<ge> data_length b then Some []
       else do {
         part1 \<leftarrow> mem_read (buffer b) rpos tail_copy;
         part2 \<leftarrow> mem_read (buffer b) 0 (copy - tail_copy);
         Some (part1 @ part2)
       }
     }"

definition pseudo_tcp_fifo_write_offset ::
    "PseudoTcpFifo \<Rightarrow> u8 list \<Rightarrow> nat \<Rightarrow> nat \<Rightarrow> (nat \<times> PseudoTcpFifo) option" where
  "pseudo_tcp_fifo_write_offset b data bytes offset =
     do {
       c_assert (buffer_length b \<noteq> 0);
       let available = size_sub (size_sub (buffer_length b) (data_length b)) offset;
       let wpos = size_add (size_add (read_position b) (data_length b)) offset mod buffer_length b;
       let copy = min bytes available;
       let tail_copy = min copy (size_sub (buffer_length b) wpos);
       if size_add (data_length b) offset \<ge> buffer_length b then Some (0, b)
       else do {
         part1 \<leftarrow> mem_read data 0 tail_copy;
         buf1 \<leftarrow> mem_write (buffer b) wpos part1;
         part2 \<leftarrow> mem_read data tail_copy (copy - tail_copy);
         buf2 \<leftarrow> mem_write buf1 0 part2;
         Some (copy, b\<lparr>buffer := buf2\<rparr>)
       }
     }"

definition pseudo_tcp_fifo_read :: "PseudoTcpFifo \<Rightarrow> nat \<Rightarrow> (u8 list \<times> PseudoTcpFifo) option" where
  "pseudo_tcp_fifo_read b bytes =
     do {
       out \<leftarrow> pseudo_tcp_fifo_read_offset b bytes 0;
       let copy = length out;
       Some (out, b\<lparr>read_position := size_add (read_position b) copy mod buffer_length b,
                    data_length := size_sub (data_length b) copy\<rparr>)
     }"

definition pseudo_tcp_fifo_write :: "PseudoTcpFifo \<Rightarrow> u8 list \<Rightarrow> nat \<Rightarrow> (nat \<times> PseudoTcpFifo) option" where
  "pseudo_tcp_fifo_write b data bytes =
     do {
       (copy, b1) \<leftarrow> pseudo_tcp_fifo_write_offset b data bytes 0;
       Some (copy, b1\<lparr>data_length := size_add (data_length b1) copy\<rparr>)
     }"

subsection \<open>Invariant and abstraction\<close>

text \<open>
  Capacities come from \<^verbatim>\<open>guint32\<close> values, hence the bound \<open>2 ^ 32\<close>; it also keeps every
  \<^verbatim>\<open>size_t\<close> sum of the operations below \<open>2 ^ 64\<close>.
\<close>

definition fifo_ok :: "PseudoTcpFifo \<Rightarrow> bool" where
  "fifo_ok b \<longleftrightarrow> buffer_length b = length (buffer b) \<and> 0 < buffer_length b
     \<and> buffer_length b < 2 ^ 32 \<and> data_length b \<le> buffer_length b
     \<and> read_position b < buffer_length b"

definition fifo_view :: "PseudoTcpFifo \<Rightarrow> u8 list" where
  "fifo_view b = rotate (read_position b) (buffer b)"

definition fifo_data :: "PseudoTcpFifo \<Rightarrow> u8 list" where
  "fifo_data b = take (data_length b) (fifo_view b)"

lemma fifo_okD:
  assumes "fifo_ok b"
  shows "buffer_length b = length (buffer b)" "0 < length (buffer b)" "length (buffer b) < 2 ^ 32"
    "data_length b \<le> length (buffer b)" "read_position b < length (buffer b)" "buffer b \<noteq> []"
  using assms by (auto simp: fifo_ok_def)

lemma length_fifo_view [simp]: "length (fifo_view b) = length (buffer b)"
  by (simp add: fifo_view_def)

lemma length_fifo_data: "fifo_ok b \<Longrightarrow> length (fifo_data b) = data_length b"
  by (simp add: fifo_data_def fifo_ok_def)

lemma fifo_capacity: "fifo_ok b \<Longrightarrow> length (fifo_data b) \<le> buffer_length b"
  by (metis length_fifo_data fifo_ok_def)

lemma length_g_slice_alloc [simp]: "length (g_slice_alloc junk n) = n"
  by (simp add: g_slice_alloc_def)

subsection \<open>What each operation does to the buffered bytes\<close>

lemma fifo_init_ok: "0 < sz \<Longrightarrow> sz < 2 ^ 32 \<Longrightarrow> fifo_ok (pseudo_tcp_fifo_init junk sz)"
  by (simp add: fifo_ok_def pseudo_tcp_fifo_init_def)

lemma fifo_init_data: "fifo_data (pseudo_tcp_fifo_init junk sz) = []"
  by (simp add: fifo_data_def pseudo_tcp_fifo_init_def)

lemma fifo_write_remaining:
  "fifo_ok b \<Longrightarrow> pseudo_tcp_fifo_get_write_remaining b = buffer_length b - length (fifo_data b)"
  by (auto simp: pseudo_tcp_fifo_get_write_remaining_def length_fifo_data fifo_ok_def size_simps)

lemma fifo_read_offset:
  assumes ok: "fifo_ok b" and off: "offset < 2 ^ 32"
  shows "pseudo_tcp_fifo_read_offset b bytes offset = Some (take bytes (drop offset (fifo_data b)))"
proof (cases "offset \<ge> data_length b")
  case True
  with fifo_okD(1,2) [OF ok] show ?thesis
    by (simp add: pseudo_tcp_fifo_read_offset_def fifo_data_def)
next
  case False
  note okD = fifo_okD [OF ok]
  let ?n = "length (buffer b)"
  define c where "c = min bytes (data_length b - offset)"
  define p where "p = (read_position b + offset) mod ?n"
  define t where "t = min c (?n - p)"
  have p: "p < ?n" using okD(6) by (simp add: p_def)
  have rpos: "size_add (read_position b) offset mod buffer_length b = p"
    using okD off by (simp add: size_simps p_def)
  have avail: "min bytes (size_sub (data_length b) offset) = c"
    using okD False by (simp add: size_simps c_def)
  have tail: "min c (size_sub (buffer_length b) p) = t"
    using okD p by (simp add: size_simps t_def)
  have c: "offset + c \<le> ?n" using okD False by (simp add: c_def)
  have "take t (drop p (buffer b)) @ take (c - t) (buffer b) = take c (drop offset (fifo_view b))"
    unfolding fifo_view_def using rotate_read_chunks [OF c p_def t_def] .
  also have "\<dots> = take bytes (drop offset (fifo_data b))"
    by (simp add: fifo_data_def drop_take c_def)
  finally have out: "take t (drop p (buffer b)) @ take (c - t) (buffer b) = take bytes (drop offset (fifo_data b))" .
  have mem: "p + t \<le> ?n" "c - t \<le> ?n"
    using p c by (auto simp: t_def)
  have "buffer_length b \<noteq> 0" "\<not> data_length b \<le> offset" using okD(1,6) False by auto
  then show ?thesis
    unfolding pseudo_tcp_fifo_read_offset_def rpos avail tail Let_def
    using mem out by (simp add: fault_simps)
qed

lemma fifo_write_offset:
  assumes ok: "fifo_ok b" and off: "offset < 2 ^ 32" and len: "bytes \<le> length data"
    and n_def: "n = min bytes (buffer_length b - data_length b - offset)"
  shows "\<exists>b'. pseudo_tcp_fifo_write_offset b data bytes offset = Some (n, b') \<and> fifo_ok b'
    \<and> buffer_length b' = buffer_length b \<and> data_length b' = data_length b
    \<and> read_position b' = read_position b
    \<and> fifo_view b' = blit (fifo_view b) (data_length b + offset) (take n data)"
proof (cases "data_length b + offset \<ge> buffer_length b")
  case True
  then have "n = 0" by (simp add: n_def)
  with True ok off show ?thesis
    by (auto simp: pseudo_tcp_fifo_write_offset_def fifo_ok_def size_simps)
next
  case False
  note okD = fifo_okD [OF ok]
  let ?n = "length (buffer b)" and ?d = "take n data"
  define u where "u = data_length b + offset"
  define p where "p = (read_position b + u) mod ?n"
  have ld: "length ?d = n" using len by (simp add: n_def)
  define t where "t = min (length ?d) (?n - p)"
  have p: "p < ?n" using okD(6) by (simp add: p_def)
  have wpos: "size_add (size_add (read_position b) (data_length b)) offset mod buffer_length b = p"
    using okD off by (simp add: size_simps add.assoc p_def u_def)
  have avail: "min bytes (size_sub (size_sub (buffer_length b) (data_length b)) offset) = n"
    using okD False by (simp add: size_simps n_def)
  have tail: "min n (size_sub (buffer_length b) p) = t"
    using okD p ld by (simp add: size_simps t_def)
  have sum: "size_add (data_length b) offset = u"
    using okD off by (simp add: size_simps u_def)
  have fits: "u + length ?d \<le> ?n" using False okD ld by (simp add: n_def u_def)
  have tn: "t \<le> n" "p + t \<le> ?n" using p ld by (auto simp: t_def)
  define B where "B = blit (blit (buffer b) p (take t data)) 0 (take (n - t) (drop t data))"
  have parts: "take t ?d = take t data" "drop t ?d = take (n - t) (drop t data)"
    using tn by (simp_all add: drop_take min_def)
  have rot: "rotate (read_position b) B = blit (fifo_view b) u ?d"
    using rotate_write_chunks [OF fits p_def okD(6) t_def] unfolding B_def fifo_view_def parts .
  have nl: "n \<le> length data" "n \<le> ?n" using ld fits by auto
  have lB: "length B = ?n" using tn nl by (simp add: B_def)
  have "buffer_length b \<noteq> 0" "\<not> buffer_length b \<le> u" using okD(1,6) False by (auto simp: u_def)
  then have "pseudo_tcp_fifo_write_offset b data bytes offset = Some (n, b\<lparr>buffer := B\<rparr>)"
    unfolding pseudo_tcp_fifo_write_offset_def wpos avail tail sum Let_def B_def
    using tn nl by (simp add: fault_simps)
  then show ?thesis
    using ok rot lB by (auto simp: fifo_ok_def fifo_view_def u_def)
qed

lemma fifo_consume_read:
  assumes ok: "fifo_ok b" and n: "n \<le> length (fifo_data b)"
  shows "\<exists>b'. pseudo_tcp_fifo_consume_read_data b n = Some b' \<and> fifo_ok b'
    \<and> buffer_length b' = buffer_length b \<and> data_length b' = data_length b - n
    \<and> fifo_view b' = rotate n (fifo_view b) \<and> fifo_data b' = drop n (fifo_data b)"
proof -
  note okD = fifo_okD [OF ok]
  have nd: "n \<le> data_length b" using n ok by (simp add: length_fifo_data)
  let ?b = "b\<lparr>read_position := (read_position b + n) mod buffer_length b,
               data_length := data_length b - n\<rparr>"
  have ev: "pseudo_tcp_fifo_consume_read_data b n = Some ?b"
    using okD nd by (simp add: pseudo_tcp_fifo_consume_read_data_def size_simps)
  have view: "fifo_view ?b = rotate n (fifo_view b)"
    using okD by (simp add: fifo_view_def rotate_rotate add.commute rotate_conv_mod [symmetric])
  have "rotate n (fifo_view b) = drop n (fifo_view b) @ take n (fifo_view b)"
    using nd okD by (cases "n = length (buffer b)") (simp_all add: rotate_drop_take)
  then have "fifo_data ?b = drop n (fifo_data b)"
    unfolding fifo_data_def view using nd okD by (simp add: drop_take)
  moreover have "fifo_ok ?b" using ok okD by (auto simp: fifo_ok_def)
  ultimately show ?thesis using ev view by auto
qed

lemma fifo_consume_write:
  assumes ok: "fifo_ok b" and n: "n \<le> buffer_length b - data_length b"
  shows "\<exists>b'. pseudo_tcp_fifo_consume_write_buffer b n = Some b' \<and> fifo_ok b'
    \<and> buffer_length b' = buffer_length b \<and> data_length b' = data_length b + n
    \<and> fifo_view b' = fifo_view b
    \<and> fifo_data b' = fifo_data b @ take n (drop (data_length b) (fifo_view b))"
proof -
  note okD = fifo_okD [OF ok]
  have "pseudo_tcp_fifo_consume_write_buffer b n = Some (b\<lparr>data_length := data_length b + n\<rparr>)"
    using okD n by (simp add: pseudo_tcp_fifo_consume_write_buffer_def size_simps)
  then show ?thesis
    using ok n by (auto simp: fifo_ok_def fifo_data_def fifo_view_def take_add)
qed

lemma fifo_read:
  assumes ok: "fifo_ok b"
  shows "\<exists>b'. pseudo_tcp_fifo_read b n = Some (take n (fifo_data b), b') \<and> fifo_ok b'
    \<and> buffer_length b' = buffer_length b
    \<and> fifo_view b' = rotate (min n (data_length b)) (fifo_view b)
    \<and> fifo_data b' = drop n (fifo_data b)"
proof -
  note okD = fifo_okD [OF ok]
  let ?m = "min n (data_length b)"
  obtain b' where b': "pseudo_tcp_fifo_consume_read_data b ?m = Some b'" "fifo_ok b'"
    "buffer_length b' = buffer_length b" "fifo_view b' = rotate ?m (fifo_view b)"
    "fifo_data b' = drop ?m (fifo_data b)"
    using fifo_consume_read [OF ok, of ?m] ok by (auto simp: length_fifo_data)
  have "b' = b\<lparr>read_position := size_add (read_position b) ?m mod buffer_length b,
               data_length := data_length b - ?m\<rparr>"
    using b'(1) by (simp add: pseudo_tcp_fifo_consume_read_data_def)
  moreover have "size_sub (data_length b) ?m = data_length b - ?m"
    using okD by (simp add: size_simps)
  ultimately have "pseudo_tcp_fifo_read b n = Some (take n (fifo_data b), b')"
    using ok by (simp add: pseudo_tcp_fifo_read_def fifo_read_offset length_fifo_data min.commute Let_def)
  moreover have "drop ?m (fifo_data b) = drop n (fifo_data b)"
    using ok by (simp add: min_def length_fifo_data)
  ultimately show ?thesis using b' by auto
qed

lemma fifo_write:
  assumes ok: "fifo_ok b" and len: "bytes \<le> length data"
  defines "n \<equiv> min bytes (buffer_length b - data_length b)"
  shows "\<exists>b'. pseudo_tcp_fifo_write b data bytes = Some (n, b') \<and> fifo_ok b'
    \<and> buffer_length b' = buffer_length b \<and> fifo_data b' = fifo_data b @ take n data"
proof -
  note okD = fifo_okD [OF ok]
  obtain b1 where b1: "pseudo_tcp_fifo_write_offset b data bytes 0 = Some (n, b1)" "fifo_ok b1"
    "buffer_length b1 = buffer_length b" "data_length b1 = data_length b"
    "fifo_view b1 = blit (fifo_view b) (data_length b) (take n data)"
    using fifo_write_offset [OF ok _ len, of 0 n] by (auto simp: n_def)
  have sum: "size_add (data_length b1) n = data_length b1 + n"
    using b1(4) okD by (simp add: size_simps n_def)
  let ?b = "b1\<lparr>data_length := data_length b1 + n\<rparr>"
  have ln: "length (take n data) = n" using len by (simp add: n_def)
  have fits: "data_length b + length (take n data) \<le> length (fifo_view b)"
    using okD ln by (simp add: n_def)
  have "fifo_data ?b = take (data_length b + length (take n data))
      (blit (fifo_view b) (data_length b) (take n data))"
    using b1(4,5) ln by (simp add: fifo_data_def fifo_view_def)
  also have "\<dots> = fifo_data b @ take n data"
    using fits by (simp only: take_blit_at fifo_data_def)
  finally have "fifo_data ?b = fifo_data b @ take n data" .
  moreover have "fifo_ok ?b" using b1 okD by (auto simp: fifo_ok_def n_def)
  ultimately show ?thesis using b1 sum by (auto simp: pseudo_tcp_fifo_write_def)
qed

lemma fifo_set_capacity:
  assumes ok: "fifo_ok b" and sz: "sz < 2 ^ 32"
  shows "\<exists>r b'. pseudo_tcp_fifo_set_capacity junk b sz = Some (r, b')
    \<and> r = (length (fifo_data b) \<le> sz) \<and> fifo_data b' = fifo_data b
    \<and> (0 < sz \<longrightarrow> fifo_ok b')
    \<and> buffer_length b' = (if length (fifo_data b) < sz then sz else buffer_length b)"
proof (cases "data_length b < sz")
  case False
  then show ?thesis
    using ok by (auto simp: pseudo_tcp_fifo_set_capacity_def length_fifo_data)
next
  case True
  note okD = fifo_okD [OF ok]
  let ?n = "length (buffer b)" and ?c = "data_length b" and ?p = "read_position b"
  let ?t = "min ?c (?n - ?p)"
  have tail: "size_sub (buffer_length b) ?p = ?n - ?p" using okD by (simp add: size_simps)
  let ?x = "take ?t (drop ?p (buffer b))" and ?y = "take (?c - ?t) (buffer b)"
  have xy: "?x @ ?y = fifo_data b"
    unfolding fifo_data_def fifo_view_def
    using rotate_read_chunks [of 0 ?c "buffer b" ?p ?p ?t] okD by simp
  have lx: "length ?x = ?t" using okD by simp
  have ly: "length ?y = ?c - ?t" using okD by simp
  let ?new = "blit (g_slice_alloc junk sz) 0 (fifo_data b)"
  have new: "blit (blit (g_slice_alloc junk sz) 0 ?x) ?t ?y = ?new"
    using blit_blit_adjacent [of 0 ?x ?y "g_slice_alloc junk sz"] lx ly True xy by simp
  let ?b = "b\<lparr>buffer := ?new, buffer_length := sz, read_position := 0\<rparr>"
  have ev: "pseudo_tcp_fifo_set_capacity junk b sz = Some (True, ?b)"
    using True okD tail lx ly new
    by (simp add: pseudo_tcp_fifo_set_capacity_def fault_simps Let_def)
  have ld: "length (fifo_data b) = ?c" using ok by (rule length_fifo_data)
  have "fifo_data ?b = fifo_data b"
    using ld by (subst fifo_data_def) (simp add: fifo_view_def blit_def)
  moreover have "fifo_ok ?b" using True sz ld by (simp add: fifo_ok_def)
  ultimately show ?thesis using ev True ld by auto
qed

subsection \<open>The contract of a byte queue\<close>

text \<open>
  A client that only appends and removes bytes sees a bounded queue. \<open>run_ops\<close> executes a
  sequence of such calls and collects the bytes that were accepted and the bytes that came out.
\<close>

datatype 'a fifo_op = Put "'a list" | Get nat

fun run_ops :: "('b \<Rightarrow> 'a list \<Rightarrow> (nat \<times> 'b) option) \<Rightarrow> ('b \<Rightarrow> nat \<Rightarrow> ('a list \<times> 'b) option)
    \<Rightarrow> 'b \<Rightarrow> 'a fifo_op list \<Rightarrow> ('a list \<times> 'a list \<times> 'b) option" where
  "run_ops put get b [] = Some ([], [], b)"
| "run_ops put get b (Put xs # ops) =
     do {
       (n, b1) \<leftarrow> put b xs;
       (acc, out, b2) \<leftarrow> run_ops put get b1 ops;
       Some (take n xs @ acc, out, b2)
     }"
| "run_ops put get b (Get n # ops) =
     do {
       (xs, b1) \<leftarrow> get b n;
       (acc, out, b2) \<leftarrow> run_ops put get b1 ops;
       Some (acc, xs @ out, b2)
     }"

locale byte_fifo =
  fixes put :: "'b \<Rightarrow> 'a list \<Rightarrow> (nat \<times> 'b) option"
    and get :: "'b \<Rightarrow> nat \<Rightarrow> ('a list \<times> 'b) option"
    and contents :: "'b \<Rightarrow> 'a list"
    and cap :: "'b \<Rightarrow> nat"
    and ok :: "'b \<Rightarrow> bool"
  assumes bounded: "ok b \<Longrightarrow> length (contents b) \<le> cap b"
    and put_spec: "ok b \<Longrightarrow> n = min (length xs) (cap b - length (contents b)) \<Longrightarrow>
      \<exists>b'. put b xs = Some (n, b') \<and> ok b' \<and> cap b' = cap b \<and> contents b' = contents b @ take n xs"
    and get_spec: "ok b \<Longrightarrow>
      \<exists>b'. get b n = Some (take n (contents b), b') \<and> ok b' \<and> cap b' = cap b
         \<and> contents b' = drop n (contents b)"
begin

text \<open>No byte is lost, duplicated or reordered, whatever the interleaving of the calls.\<close>

lemma stream_conserved:
  "ok b \<Longrightarrow> \<exists>acc out b'. run_ops put get b ops = Some (acc, out, b') \<and> ok b' \<and> cap b' = cap b
     \<and> contents b @ acc = out @ contents b'"
proof (induction ops arbitrary: b)
  case Nil
  then show ?case by simp
next
  case (Cons x ops)
  show ?case
  proof (cases x)
    case (Put xs)
    obtain n b1 where b1: "put b xs = Some (n, b1)" "ok b1" "cap b1 = cap b"
      "contents b1 = contents b @ take n xs"
      using put_spec [OF Cons.prems refl, of xs] by auto
    from Cons.IH [OF b1(2)] b1 Put show ?thesis by auto
  next
    case (Get n)
    obtain b1 where b1: "get b n = Some (take n (contents b), b1)" "ok b1" "cap b1 = cap b"
      "contents b1 = drop n (contents b)"
      using get_spec [OF Cons.prems, of n] by auto
    from Cons.IH [OF b1(2)] obtain acc out b2 where
      b2: "run_ops put get b1 ops = Some (acc, out, b2)" "ok b2" "cap b2 = cap b1"
        "contents b1 @ acc = out @ contents b2"
      by blast
    have "contents b @ acc = take n (contents b) @ out @ contents b2"
      using b1(4) b2(4) by (metis append.assoc append_take_drop_id)
    with b1 b2 Get show ?thesis by simp
  qed
qed

lemma put_then_get:
  assumes "ok b" and "contents b = []" and "length xs \<le> cap b"
  shows "\<exists>b1 b2. put b xs = Some (length xs, b1) \<and> get b1 (length xs) = Some (xs, b2) \<and> contents b2 = []"
proof -
  obtain b1 where b1: "put b xs = Some (length xs, b1)" "ok b1" "contents b1 = xs"
    using put_spec [OF assms(1) refl, of xs] assms by auto
  with get_spec [OF b1(2), of "length xs"] show ?thesis by auto
qed

end

interpretation ring: byte_fifo "\<lambda>b xs. pseudo_tcp_fifo_write b xs (length xs)"
  pseudo_tcp_fifo_read fifo_data buffer_length fifo_ok
proof unfold_locales
  show "length (fifo_data b) \<le> buffer_length b" if "fifo_ok b" for b
    using that by (rule fifo_capacity)
  show "\<exists>b'. pseudo_tcp_fifo_write b xs (length xs) = Some (n, b') \<and> fifo_ok b'
      \<and> buffer_length b' = buffer_length b \<and> fifo_data b' = fifo_data b @ take n xs"
    if "fifo_ok b" "n = min (length xs) (buffer_length b - length (fifo_data b))" for b n xs
    using fifo_write [OF that(1) le_refl, of xs] that(2) by (simp add: length_fifo_data [OF that(1)])
  show "\<exists>b'. pseudo_tcp_fifo_read b n = Some (take n (fifo_data b), b') \<and> fifo_ok b'
      \<and> buffer_length b' = buffer_length b \<and> fifo_data b' = drop n (fifo_data b)"
    if "fifo_ok b" for b n
    using fifo_read [OF that, of n] by auto
qed

subsection \<open>Properties of the ring buffer\<close>

text \<open>
  C16. The ring buffer is a bounded FIFO byte queue: from any valid buffer, every sequence of
  writes and reads runs to its end without a fault, and the bytes that were buffered before
  followed by the bytes accepted are exactly the bytes read followed by the bytes still
  buffered.
\<close>

theorem fifo_stream_conserved:
  assumes "fifo_ok b"
  shows "\<exists>acc out b'. run_ops (\<lambda>b xs. pseudo_tcp_fifo_write b xs (length xs)) pseudo_tcp_fifo_read b ops
      = Some (acc, out, b') \<and> fifo_ok b' \<and> buffer_length b' = buffer_length b
      \<and> fifo_data b @ acc = out @ fifo_data b'"
  using assms by (rule ring.stream_conserved)

theorem fifo_stream_conserved_witness:
  "\<exists>acc out b'. run_ops (\<lambda>b xs. pseudo_tcp_fifo_write b xs (length xs)) pseudo_tcp_fifo_read
      (pseudo_tcp_fifo_init (\<lambda>_. 0) 3) [Put [1, 2], Get 1, Put [3, 4, 5], Get 3]
      = Some (acc, out, b') \<and> fifo_ok b' \<and> buffer_length b' = 3 \<and> acc = out @ fifo_data b'"
proof -
  have "fifo_ok (pseudo_tcp_fifo_init (\<lambda>_. 0) 3)" by (simp add: fifo_init_ok)
  from fifo_stream_conserved [OF this, of "[Put [1, 2], Get 1, Put [3, 4, 5], Get 3]"] show ?thesis
    by (simp only: fifo_init_data append_Nil) (simp add: pseudo_tcp_fifo_init_def)
qed

text \<open>
  A write at an offset behind the buffered data (how a segment that arrives out of order is
  stored) changes neither the buffered bytes nor the free space around it, and once the gap is
  filled, making the space readable appends exactly the bytes stored.
\<close>

theorem fifo_out_of_order_write:
  assumes ok: "fifo_ok b" and fits: "data_length b + offset + length xs \<le> buffer_length b"
  shows "\<exists>b1 b2. pseudo_tcp_fifo_write_offset b xs (length xs) offset = Some (length xs, b1)
    \<and> fifo_data b1 = fifo_data b
    \<and> pseudo_tcp_fifo_consume_write_buffer b1 (offset + length xs) = Some b2
    \<and> fifo_data b2 = fifo_data b @ take offset (drop (data_length b) (fifo_view b)) @ xs"
proof -
  note okD = fifo_okD [OF ok]
  let ?v = "fifo_view b" and ?d = "data_length b"
  obtain b1 where b1: "pseudo_tcp_fifo_write_offset b xs (length xs) offset = Some (length xs, b1)"
    "fifo_ok b1" "buffer_length b1 = buffer_length b" "data_length b1 = ?d"
    "fifo_view b1 = blit ?v (?d + offset) xs"
    using fifo_write_offset [OF ok _ le_refl, of offset "length xs" xs] fits okD(1,3) by auto
  have fits1: "offset + length xs \<le> buffer_length b1 - data_length b1" using b1(3,4) fits by simp
  obtain b2 where b2: "pseudo_tcp_fifo_consume_write_buffer b1 (offset + length xs) = Some b2"
    "fifo_data b2 = fifo_data b1 @ take (offset + length xs) (drop ?d (fifo_view b1))"
    using fifo_consume_write [OF b1(2) fits1] b1(4) by auto
  have same: "fifo_data b1 = fifo_data b"
    using b1(4,5) fits okD(1) by (simp add: fifo_data_def take_blit)
  have "drop ?d (blit ?v (?d + offset) xs) = blit (drop ?d ?v) offset xs"
    using fits okD(1) by (simp add: blit_def drop_take ac_simps)
  then have "take (offset + length xs) (drop ?d (fifo_view b1)) = take offset (drop ?d ?v) @ xs"
    using b1(5) take_blit_at [of offset xs "drop ?d ?v"] fits okD(1) by simp
  with b1(1) b2 same show ?thesis by simp
qed

theorem fifo_out_of_order_write_witness:
  "\<exists>b1 b2. pseudo_tcp_fifo_write_offset (pseudo_tcp_fifo_init (\<lambda>_. 7) 4) [1, 2] (length [1, 2 :: u8]) 1
      = Some (length [1, 2 :: u8], b1)
    \<and> fifo_data b1 = []
    \<and> pseudo_tcp_fifo_consume_write_buffer b1 (1 + length [1, 2 :: u8]) = Some b2
    \<and> fifo_data b2 = [7, 1, 2]"
proof -
  let ?b = "pseudo_tcp_fifo_init (\<lambda>_. 7) 4"
  have ok: "fifo_ok ?b" by (simp add: fifo_init_ok)
  have "data_length ?b + 1 + length [1, 2 :: u8] \<le> buffer_length ?b"
    by (simp add: pseudo_tcp_fifo_init_def)
  moreover have "take 1 (drop (data_length ?b) (fifo_view ?b)) = [7]"
    by (simp add: pseudo_tcp_fifo_init_def fifo_view_def g_slice_alloc_def upt_conv_Cons)
  ultimately show ?thesis
    using fifo_out_of_order_write [OF ok, of 1 "[1, 2]"] by (simp add: fifo_init_data)
qed

text \<open>
  Changing the capacity keeps the buffered bytes and answers whether they fit. It changes
  the capacity only when the new one is strictly larger than the number of buffered bytes: asked
  for exactly that number, the code reports success and leaves the block as it is.
\<close>

theorem fifo_set_capacity_keeps_data:
  assumes "fifo_ok b" and "0 < sz" and "sz < 2 ^ 32"
  shows "\<exists>b'. pseudo_tcp_fifo_set_capacity junk b sz = Some (length (fifo_data b) \<le> sz, b')
    \<and> fifo_ok b' \<and> fifo_data b' = fifo_data b
    \<and> buffer_length b' = (if length (fifo_data b) < sz then sz else buffer_length b)"
  using fifo_set_capacity [OF assms(1,3), of junk] assms(2) by auto

theorem fifo_set_capacity_keeps_data_witness:
  "\<exists>b'. pseudo_tcp_fifo_set_capacity (\<lambda>_. 0) (pseudo_tcp_fifo_init (\<lambda>_. 0) 3) 5 = Some (True, b')
    \<and> fifo_ok b' \<and> fifo_data b' = [] \<and> buffer_length b' = 5"
  using fifo_set_capacity_keeps_data [of "pseudo_tcp_fifo_init (\<lambda>_. 0) 3" 5 "\<lambda>_. 0"]
  by (simp add: fifo_init_ok fifo_init_data)

end
