(* ===== verification/SeqTime.thy ===== *)
theory SeqTime
  imports Prelude
begin

text \<open>
  Modular comparison of clock values and sequence numbers in
  \<^verbatim>\<open>src/session/pseudotcp/pseudotcp.c\<close>: \<^verbatim>\<open>bound\<close>, \<^verbatim>\<open>time_is_between\<close>,
  \<^verbatim>\<open>time_diff\<close> and the macros \<^verbatim>\<open>LARGER\<close>, \<^verbatim>\<open>LARGER_OR_EQUAL\<close>,
  \<^verbatim>\<open>SMALLER\<close>, \<^verbatim>\<open>SMALLER_OR_EQUAL\<close>. All of them are characterised by the signed
  distance of the two 32-bit values.
\<close>

subsection \<open>The code\<close>

definition bound :: "u32 \<Rightarrow> u32 \<Rightarrow> u32 \<Rightarrow> u32" where
  "bound lower middle upper = min (max lower middle) upper"

definition time_is_between :: "u32 \<Rightarrow> u32 \<Rightarrow> u32 \<Rightarrow> bool" where
  "time_is_between later middle earlier =
     (if earlier \<le> later then earlier \<le> middle \<and> middle \<le> later
      else \<not> (later < middle \<and> middle < earlier))"

text \<open>
  The results are computed as \<^verbatim>\<open>guint32\<close>, widened to \<^verbatim>\<open>long\<close>, negated there where the
  code negates, and returned as \<^verbatim>\<open>gint32\<close>; \<open>to_gint32\<close> is the last conversion.
\<close>

definition to_gint32 :: "int \<Rightarrow> int" where
  "to_gint32 x = sint (word_of_int x :: u32)"

definition time_diff :: "u32 \<Rightarrow> u32 \<Rightarrow> int" where
  "time_diff later earlier =
     (let LAST = 0xFFFFFFFF; HALF = 0x80000000 in
      if time_is_between (earlier + HALF) later earlier then
        (if earlier \<le> later then to_gint32 (uint (later - earlier))
         else to_gint32 (uint (later + (LAST - earlier) + 1)))
      else
        (if later \<le> earlier then to_gint32 (- uint (earlier - later))
         else to_gint32 (- uint (earlier + (LAST - later) + 1))))"

definition LARGER :: "u32 \<Rightarrow> u32 \<Rightarrow> bool" where
  "LARGER a b \<longleftrightarrow> a - b - 1 < drop_bit 1 0xFFFFFFFF"

definition LARGER_OR_EQUAL :: "u32 \<Rightarrow> u32 \<Rightarrow> bool" where
  "LARGER_OR_EQUAL a b \<longleftrightarrow> a - b < drop_bit 1 0xFFFFFFFF"

definition SMALLER :: "u32 \<Rightarrow> u32 \<Rightarrow> bool" where
  "SMALLER a b = LARGER b a"

definition SMALLER_OR_EQUAL :: "u32 \<Rightarrow> u32 \<Rightarrow> bool" where
  "SMALLER_OR_EQUAL a b = LARGER_OR_EQUAL b a"

subsection \<open>Distances\<close>

text \<open>\<open>seq_dist a b\<close> is how far \<open>a\<close> is ahead of \<open>b\<close> on the circle of 32-bit values.\<close>

definition seq_dist :: "u32 \<Rightarrow> u32 \<Rightarrow> nat" where
  "seq_dist a b = unat (a - b)"

lemma seq_dist_less [simp]: "seq_dist a b < 4294967296"
proof -
  have "unat (a - b) < 2 ^ LENGTH(32)" by (rule unsigned_less)
  then show ?thesis by (simp add: seq_dist_def)
qed

lemma half_max: "(drop_bit 1 0xFFFFFFFF :: u32) = 0x7FFFFFFF"
  by simp

lemma LARGER_iff: "LARGER a b \<longleftrightarrow> 0 < seq_dist a b \<and> seq_dist a b \<le> 0x7FFFFFFF"
proof -
  have "LARGER a b \<longleftrightarrow> unat (a - b - 1) < 0x7FFFFFFF"
    by (simp add: LARGER_def word_less_nat_alt)
  also have "\<dots> \<longleftrightarrow> 0 < seq_dist a b \<and> seq_dist a b \<le> 0x7FFFFFFF"
  proof (cases "a - b = 0")
    case True
    then have "unat (a - b - 1) = 4294967295" by (simp add: unsigned_minus_1_eq_mask mask_eq_exp_minus_1)
    with True show ?thesis by (simp add: seq_dist_def)
  next
    case False
    then have "unat (a - b - 1) = unat (a - b) - 1" by (rule unat_minus_one)
    moreover have "0 < unat (a - b)" using False by (simp add: unat_gt_0)
    ultimately show ?thesis by (auto simp: seq_dist_def)
  qed
  finally show ?thesis .
qed

lemma LARGER_OR_EQUAL_iff: "LARGER_OR_EQUAL a b \<longleftrightarrow> seq_dist a b < 0x7FFFFFFF"
  by (simp add: LARGER_OR_EQUAL_def word_less_nat_alt seq_dist_def)

lemma SMALLER_iff: "SMALLER a b \<longleftrightarrow> 0 < seq_dist b a \<and> seq_dist b a \<le> 0x7FFFFFFF"
  by (simp add: SMALLER_def LARGER_iff)

lemma SMALLER_OR_EQUAL_iff: "SMALLER_OR_EQUAL a b \<longleftrightarrow> seq_dist b a < 0x7FFFFFFF"
  by (simp add: SMALLER_OR_EQUAL_def LARGER_OR_EQUAL_iff)

lemmas seq_order_iff = LARGER_iff LARGER_OR_EQUAL_iff SMALLER_iff SMALLER_OR_EQUAL_iff

lemma to_gint32_uint [simp]: "to_gint32 (uint (w :: u32)) = sint w"
  by (simp add: to_gint32_def)

lemma to_gint32_neg_uint [simp]: "to_gint32 (- uint (w :: u32)) = sint (- w)"
  by (simp add: to_gint32_def)

text \<open>All four branches compute the difference of the two values, reduced to a signed word.\<close>

lemma time_diff_eq: "time_diff later earlier = sint (later - earlier)"
proof -
  have wrap: "x + (0xFFFFFFFF - y) + 1 = x - y" for x y :: u32
  proof -
    have "x + (0xFFFFFFFF - y) + 1 = (x - y) + (0xFFFFFFFF + 1)" by (simp only: algebra_simps)
    also have "(0xFFFFFFFF + 1 :: u32) = 0" by simp
    finally show ?thesis by simp
  qed
  have "time_diff later earlier = (if time_is_between (earlier + 0x80000000) later earlier
      then sint (later - earlier) else sint (- (earlier - later)))"
    unfolding time_diff_def Let_def wrap to_gint32_uint to_gint32_neg_uint by simp
  then show ?thesis by simp
qed

subsection \<open>Properties of the modular order\<close>

text \<open>
  \<^verbatim>\<open>time_diff\<close> returns the signed distance between two clock values on the circle of
  32-bit values, across the wrap of the clock: when the later clock is \<open>d\<close> ticks ahead, with
  \<open>d\<close> of at most \<open>2 ^ 31 - 1\<close> ticks in either direction, the result is \<open>d\<close>.
\<close>

theorem time_diff_signed_distance:
  assumes "- (2 ^ 31) \<le> d" and "d < 2 ^ 31"
  shows "time_diff (earlier + word_of_int d) earlier = d"
proof -
  have "sint (word_of_int d :: u32) = d"
    using assms by (simp add: sint_sbintrunc' signed_take_bit_int_eq_self)
  then show ?thesis by (simp add: time_diff_eq)
qed

theorem time_diff_signed_distance_witness:
  "time_diff (0xFFFFFFFE + word_of_int 5) 0xFFFFFFFE = 5"
  by (rule time_diff_signed_distance) simp_all

text \<open>
  \<^verbatim>\<open>LARGER\<close> is a strict modular order on sequence numbers: irreflexive, asymmetric, and
  for numbers at most \<open>2 ^ 31 - 1\<close> apart it decides which one is ahead; a number and its
  successors within that window compare as their distances do.
\<close>

theorem LARGER_window:
  "LARGER (b + of_nat m) (b + of_nat n) \<longleftrightarrow> n < m"
  if "m < 0x80000000" and "n < 0x80000000"
proof -
  have dist: "seq_dist (b + of_nat m) (b + of_nat n) = (if n \<le> m then m - n else 2 ^ 32 - (n - m))"
  proof (cases "n \<le> m")
    case True
    then have "(b + of_nat m) - (b + of_nat n) = (of_nat (m - n) :: u32)" by (simp add: of_nat_diff)
    moreover have "unat (of_nat (m - n) :: u32) = m - n"
      using that by (simp add: unat_of_nat take_bit_nat_eq_self_iff)
    ultimately show ?thesis using True by (simp add: seq_dist_def)
  next
    case False
    then have "(b + of_nat m) - (b + of_nat n) = - (of_nat (n - m) :: u32)" by (simp add: of_nat_diff)
    moreover have "unat (of_nat (n - m) :: u32) = n - m"
      using that by (simp add: unat_of_nat take_bit_nat_eq_self_iff)
    ultimately show ?thesis using False unat_sub_if' [of 0 "of_nat (n - m) :: u32"] by (simp add: seq_dist_def)
  qed
  show ?thesis using that by (auto simp: LARGER_iff dist)
qed

theorem LARGER_window_witness: "LARGER (0xFFFFFFFF + of_nat 3) (0xFFFFFFFF + of_nat 1) \<longleftrightarrow> (1::nat) < 3"
  by (rule LARGER_window) simp_all

text \<open>
  \<^verbatim>\<open>LARGER_OR_EQUAL\<close> agrees with "larger or equal" except at the single distance
  \<open>2 ^ 31 - 1\<close>, where \<^verbatim>\<open>LARGER\<close> holds and \<^verbatim>\<open>LARGER_OR_EQUAL\<close> does not.
\<close>

theorem LARGER_OR_EQUAL_boundary:
  "LARGER_OR_EQUAL a b \<longleftrightarrow> (LARGER a b \<or> a = b) \<and> a \<noteq> b + 0x7FFFFFFF"
proof -
  have "a = b \<longleftrightarrow> seq_dist a b = 0" by (simp add: seq_dist_def unat_eq_0)
  moreover have "a = b + 0x7FFFFFFF \<longleftrightarrow> seq_dist a b = 0x7FFFFFFF"
  proof
    assume "seq_dist a b = 0x7FFFFFFF"
    then have "unat (a - b) = unat (0x7FFFFFFF :: u32)" by (simp add: seq_dist_def)
    then have "a - b = 0x7FFFFFFF" by (simp only: word_unat_eq_iff)
    then show "a = b + 0x7FFFFFFF" by (simp add: algebra_simps)
  qed (simp add: seq_dist_def)
  ultimately show ?thesis by (auto simp: LARGER_iff LARGER_OR_EQUAL_iff)
qed

end
