(* ===== verification/GQueue.thy ===== *)
theory GQueue
  imports Prelude
begin

text \<open>
  The queue and list operations of \<^verbatim>\<open>src/session/pseudotcp/gqueue.c\<close> and
  \<^verbatim>\<open>glist.c\<close> that the pseudo-TCP socket uses. A queue is the list of the data pointers in
  its links; a link is named by the data it carries, which is unique in the queues of the socket.
\<close>

subsection \<open>The code\<close>

definition g_queue_get_length :: "'a list \<Rightarrow> nat" where
  "g_queue_get_length q = length q"

definition g_queue_push_head :: "'a list \<Rightarrow> 'a \<Rightarrow> 'a list" where
  "g_queue_push_head q x = x # q"

definition g_queue_push_tail :: "'a list \<Rightarrow> 'a \<Rightarrow> 'a list" where
  "g_queue_push_tail q x = q @ [x]"

text \<open>The peek and pop operations return \<^verbatim>\<open>NULL\<close> on an empty queue.\<close>

definition g_queue_peek_head :: "'a list \<Rightarrow> 'a option" where
  "g_queue_peek_head q = (case q of [] \<Rightarrow> None | x # _ \<Rightarrow> Some x)"

definition g_queue_peek_tail :: "'a list \<Rightarrow> 'a option" where
  "g_queue_peek_tail q = (if q = [] then None else Some (last q))"

definition g_queue_pop_head :: "'a list \<Rightarrow> 'a option \<times> 'a list" where
  "g_queue_pop_head q = (case q of [] \<Rightarrow> (None, []) | x # xs \<Rightarrow> (Some x, xs))"

text \<open>\<^verbatim>\<open>g_list_insert_before\<close> with a sibling link, named by its data.\<close>

fun g_list_insert_before :: "'a list \<Rightarrow> 'a option \<Rightarrow> 'a \<Rightarrow> 'a list" where
  "g_list_insert_before q None x = q @ [x]"
| "g_list_insert_before [] (Some s) x = [x]"
| "g_list_insert_before (y # q) (Some s) x = (if y = s then x # y # q else y # g_list_insert_before q (Some s) x)"

definition g_queue_insert_before :: "'a list \<Rightarrow> 'a option \<Rightarrow> 'a \<Rightarrow> 'a list" where
  "g_queue_insert_before q sibling x =
     (case sibling of None \<Rightarrow> g_queue_push_tail q x | Some s \<Rightarrow> g_list_insert_before q (Some s) x)"

text \<open>The successor of a link; \<^verbatim>\<open>NULL\<close> for the last one.\<close>

fun link_next :: "'a list \<Rightarrow> 'a \<Rightarrow> 'a option" where
  "link_next [] s = None"
| "link_next (y # q) s = (if y = s then g_queue_peek_head q else link_next q s)"

definition g_queue_find :: "'a list \<Rightarrow> 'a \<Rightarrow> 'a option" where
  "g_queue_find q x = (if x \<in> set q then Some x else None)"

definition g_queue_insert_after :: "'a list \<Rightarrow> 'a option \<Rightarrow> 'a \<Rightarrow> 'a list" where
  "g_queue_insert_after q sibling x =
     (case sibling of None \<Rightarrow> g_queue_push_head q x
      | Some s \<Rightarrow> g_queue_insert_before q (link_next q s) x)"

subsection \<open>Insertion after a link\<close>

text \<open>On a queue without repeated data, the new link stands right behind its sibling.\<close>

lemma g_list_insert_before_append:
  "z \<notin> set ps \<Longrightarrow> g_list_insert_before (ps @ z # qs) (Some z) x = ps @ x # z # qs"
  by (induction ps) auto

lemma link_next_append: "s \<notin> set ps \<Longrightarrow> link_next (ps @ s # qs) s = g_queue_peek_head qs"
  by (induction ps) auto

lemma g_queue_insert_after_split:
  assumes "distinct (ps @ s # qs)"
  shows "g_queue_insert_after (ps @ s # qs) (g_queue_find (ps @ s # qs) s) x = ps @ s # x # qs"
proof -
  have next_s: "link_next (ps @ s # qs) s = g_queue_peek_head qs"
    using assms by (intro link_next_append) simp
  show ?thesis
  proof (cases qs)
    case Nil
    then show ?thesis using next_s
      by (simp add: g_queue_insert_after_def g_queue_find_def g_queue_insert_before_def
          g_queue_push_tail_def g_queue_peek_head_def)
  next
    case (Cons z zs)
    have "z \<notin> set (ps @ [s])" using assms Cons by auto
    then have "g_list_insert_before ((ps @ [s]) @ z # zs) (Some z) x = (ps @ [s]) @ x # z # zs"
      by (rule g_list_insert_before_append)
    then show ?thesis using next_s Cons
      by (simp add: g_queue_insert_after_def g_queue_find_def g_queue_insert_before_def
          g_queue_peek_head_def)
  qed
qed

end
