(* ===== verification/Bytes.thy ===== *)
theory Bytes
  imports Prelude
begin

text \<open>
  Network byte order: what \<^verbatim>\<open>htonl\<close>, \<^verbatim>\<open>htons\<close> and their inverses put into and read
  from a packet, used by the pseudo-TCP header and the multiplexer's packet header.
\<close>

unbundle bit_operations_syntax

definition be16 :: "u16 \<Rightarrow> u8 list" where
  "be16 w = [ucast (drop_bit 8 w), ucast w]"

definition be32 :: "u32 \<Rightarrow> u8 list" where
  "be32 w = [ucast (drop_bit 24 w), ucast (drop_bit 16 w), ucast (drop_bit 8 w), ucast w]"

definition get16 :: "u8 list \<Rightarrow> nat \<Rightarrow> u16" where
  "get16 bs i = push_bit 8 (ucast (bs ! i)) OR ucast (bs ! (i + 1))"

definition get32 :: "u8 list \<Rightarrow> nat \<Rightarrow> u32" where
  "get32 bs i = push_bit 24 (ucast (bs ! i)) OR push_bit 16 (ucast (bs ! (i + 1)))
     OR push_bit 8 (ucast (bs ! (i + 2))) OR ucast (bs ! (i + 3))"

lemma length_be16 [simp]: "length (be16 w) = 2"
  by (simp add: be16_def)

lemma length_be32 [simp]: "length (be32 w) = 4"
  by (simp add: be32_def)

lemma get16_be16: "get16 (be16 w) 0 = w"
proof (rule bit_word_eqI)
  fix n assume "n < LENGTH(16)"
  then have n: "n < 16" by simp
  show "bit (get16 (be16 w) 0) n = bit w n"
    using n by (cases "n < 8") (auto simp: get16_def be16_def bit_simps)
qed

lemma get32_be32: "get32 (be32 w) 0 = w"
proof (rule bit_word_eqI)
  fix n assume "n < LENGTH(32)"
  then have n: "n < 32" by simp
  consider "n < 8" | "8 \<le> n" "n < 16" | "16 \<le> n" "n < 24" | "24 \<le> n" by linarith
  then show "bit (get32 (be32 w) 0) n = bit w n"
    using n by cases (auto simp: get32_def be32_def bit_simps)
qed

text \<open>A field can be read back wherever it stands in the packet.\<close>

lemma get16_shift: "get16 (pre @ bs) (length pre + i) = get16 bs i"
  by (simp add: get16_def nth_append)

lemma get32_shift: "get32 (pre @ bs) (length pre + i) = get32 bs i"
  by (simp add: get32_def nth_append)

lemma get16_prefix: "i + 2 \<le> length bs \<Longrightarrow> get16 (bs @ post) i = get16 bs i"
  by (simp add: get16_def nth_append)

lemma get32_prefix: "i + 4 \<le> length bs \<Longrightarrow> get32 (bs @ post) i = get32 bs i"
  by (simp add: get32_def nth_append)

lemma get32_field: "k = length pre \<Longrightarrow> get32 (pre @ be32 w @ post) k = w"
  using get32_shift [of pre "be32 w @ post" 0] get32_prefix [of 0 "be32 w" post] by (simp add: get32_be32)

lemma get16_field: "k = length pre \<Longrightarrow> get16 (pre @ be16 w @ post) k = w"
  using get16_shift [of pre "be16 w @ post" 0] get16_prefix [of 0 "be16 w" post] by (simp add: get16_be16)

end
