(* ===== verification/PseudoTcp.thy ===== *)
theory PseudoTcp
  imports Fifo SeqTime GQueue Bytes
begin

text \<open>
  The pseudo-TCP socket of \<^verbatim>\<open>src/session/pseudotcp/pseudotcp.c\<close>: its state, the state
  machine, buffer sizes, and the sending half (\<^verbatim>\<open>queue\<close>, \<^verbatim>\<open>packet\<close>,
  \<^verbatim>\<open>transmit\<close>, \<^verbatim>\<open>attempt_send\<close>, \<^verbatim>\<open>closedown\<close>). The receiving half is in
  \<open>PseudoTcpRecv\<close>.

  Send segments are shared between the two queues \<^verbatim>\<open>slist\<close> and \<^verbatim>\<open>unsent_slist\<close>
  and are changed through either of them, so they live in a store \<open>ssegs\<close> and the queues hold
  their addresses. The callbacks are recorded in \<open>events\<close> in the order in which they are made;
  \<^verbatim>\<open>WritePacket\<close> is a function of the packets handed over before (\<open>packets\<close>) and of
  the packet itself. The clock \<open>mono_clock\<close> does not advance within one call.
\<close>

unbundle bit_operations_syntax

subsection \<open>Constants and data\<close>

datatype errno = E_OK | EINVAL | EMSGSIZE | EWOULDBLOCK | ENOTCONN | EPIPE
  | ECONNABORTED | ECONNRESET | ETIMEDOUT

datatype PseudoTcpState = TCP_LISTEN | TCP_SYN_SENT | TCP_SYN_RECEIVED | TCP_ESTABLISHED
  | TCP_CLOSED | TCP_FIN_WAIT_1 | TCP_FIN_WAIT_2 | TCP_CLOSING | TCP_TIME_WAIT
  | TCP_CLOSE_WAIT | TCP_LAST_ACK

primrec state_code :: "PseudoTcpState \<Rightarrow> nat" where
  "state_code TCP_LISTEN = 0"
| "state_code TCP_SYN_SENT = 1"
| "state_code TCP_SYN_RECEIVED = 2"
| "state_code TCP_ESTABLISHED = 3"
| "state_code TCP_CLOSED = 4"
| "state_code TCP_FIN_WAIT_1 = 5"
| "state_code TCP_FIN_WAIT_2 = 6"
| "state_code TCP_CLOSING = 7"
| "state_code TCP_TIME_WAIT = 8"
| "state_code TCP_CLOSE_WAIT = 9"
| "state_code TCP_LAST_ACK = 10"

instantiation PseudoTcpState :: linorder
begin

definition less_eq_PseudoTcpState :: "PseudoTcpState \<Rightarrow> PseudoTcpState \<Rightarrow> bool" where
  "less_eq_PseudoTcpState a b \<longleftrightarrow> state_code a \<le> state_code b"

definition less_PseudoTcpState :: "PseudoTcpState \<Rightarrow> PseudoTcpState \<Rightarrow> bool" where
  "less_PseudoTcpState a b \<longleftrightarrow> state_code a < state_code b"

instance
proof
  fix x y :: PseudoTcpState
  assume "x \<le> y" "y \<le> x"
  then show "x = y" by (cases x; cases y) (simp_all add: less_eq_PseudoTcpState_def)
qed (auto simp: less_eq_PseudoTcpState_def less_PseudoTcpState_def)

end

datatype PseudoTcpWriteResult = WR_SUCCESS | WR_TOO_LARGE | WR_FAIL

datatype PseudoTcpShutdown = PSEUDO_TCP_SHUTDOWN_RD | PSEUDO_TCP_SHUTDOWN_WR | PSEUDO_TCP_SHUTDOWN_RDWR

datatype Shutdown = SD_NONE | SD_GRACEFUL | SD_FORCEFUL

datatype SendFlags = sfNone | sfDelayedAck | sfImmediateAck | sfFin | sfRst | sfDuplicateAck

datatype ClosedownSource = CLOSEDOWN_LOCAL | CLOSEDOWN_REMOTE

text \<open>\<^verbatim>\<open>TcpFlags\<close> is a bit set in one byte of the header.\<close>

definition FLAG_NONE :: u8 where "FLAG_NONE = 0"
definition FLAG_FIN :: u8 where "FLAG_FIN = 1"
definition FLAG_CTL :: u8 where "FLAG_CTL = 2"
definition FLAG_RST :: u8 where "FLAG_RST = 4"

lemmas flag_defs = FLAG_NONE_def FLAG_FIN_def FLAG_CTL_def FLAG_RST_def

definition CTL_CONNECT :: u8 where "CTL_CONNECT = 0"

definition TCP_OPT_EOL :: u8 where "TCP_OPT_EOL = 0"
definition TCP_OPT_NOOP :: u8 where "TCP_OPT_NOOP = 1"
definition TCP_OPT_MSS :: u8 where "TCP_OPT_MSS = 2"
definition TCP_OPT_WND_SCALE :: u8 where "TCP_OPT_WND_SCALE = 3"
definition TCP_OPT_FIN_ACK :: u8 where "TCP_OPT_FIN_ACK = 254"

lemmas opt_defs = TCP_OPT_EOL_def TCP_OPT_NOOP_def TCP_OPT_MSS_def TCP_OPT_WND_SCALE_def TCP_OPT_FIN_ACK_def

definition PACKET_MAXIMUMS :: "u32 list" where
  "PACKET_MAXIMUMS = [65535, 32000, 17914, 8166, 4352, 2002, 1492, 1006, 508, 296, 0]"

definition MAX_PACKET :: u32 where "MAX_PACKET = 65532"
definition MIN_PACKET :: u32 where "MIN_PACKET = 296"
definition HEADER_SIZE :: u32 where "HEADER_SIZE = 24"
definition PACKET_OVERHEAD :: u32 where "PACKET_OVERHEAD = HEADER_SIZE + 8 + 20 + 64"
definition DEF_MTU :: u32 where "DEF_MTU = 1400"
definition MIN_RTO :: u32 where "MIN_RTO = 1000"
definition DEF_RTO :: u32 where "DEF_RTO = 1000"
definition MAX_RTO :: u32 where "MAX_RTO = 60000"
definition DEFAULT_ACK_DELAY :: u32 where "DEFAULT_ACK_DELAY = 100"
definition DEFAULT_RCV_BUF_SIZE :: u32 where "DEFAULT_RCV_BUF_SIZE = 60 * 1024"
definition DEFAULT_SND_BUF_SIZE :: u32 where "DEFAULT_SND_BUF_SIZE = 90 * 1024"
definition DEFAULT_TIMEOUT :: u32 where "DEFAULT_TIMEOUT = 4000"
definition CLOSED_TIMEOUT :: u32 where "CLOSED_TIMEOUT = 60 * 1000"
definition TIME_WAIT_TIMEOUT :: u32 where "TIME_WAIT_TIMEOUT = 1"

record Segment =
  seg_conv :: u32
  seg_seq :: u32
  seg_ack :: u32
  seg_flags :: u8
  seg_wnd :: u16
  seg_data :: "u8 list"
  seg_len :: u32
  seg_tsval :: u32
  seg_tsecr :: u32

record SSegment =
  sseg_seq :: u32
  sseg_len :: u32
  xmit :: u8
  sseg_flags :: u8

record RSegment =
  rseg_seq :: u32
  rseg_len :: u32

datatype tcp_event = Opened | Readable | Writable | Closed errno

record PseudoTcpCallbacks =
  cb_Opened :: bool
  cb_Readable :: bool
  cb_Writable :: bool
  cb_Closed :: bool
  cb_WritePacket :: "u8 list list \<Rightarrow> u8 list \<Rightarrow> PseudoTcpWriteResult"

record PseudoTcpSocket =
  callbacks :: PseudoTcpCallbacks
  shutdown :: Shutdown
  shutdown_reads :: bool
  sock_error :: errno
  state :: PseudoTcpState
  conv :: u32
  bReadEnable :: bool
  bWriteEnable :: bool
  bOutgoing :: bool
  last_traffic :: u32
  rlist :: "RSegment list"
  rbuf_len :: u32
  rcv_nxt :: u32
  rcv_wnd :: u32
  lastrecv :: u32
  rwnd_scale :: u8
  rbuf :: PseudoTcpFifo
  rcv_fin :: u32
  slist :: "nat list"
  unsent_slist :: "nat list"
  ssegs :: "nat \<Rightarrow> SSegment option"
  next_sseg :: nat
  sbuf_len :: u32
  snd_nxt :: u32
  snd_wnd :: u32
  lastsend :: u32
  snd_una :: u32
  swnd_scale :: u8
  sbuf :: PseudoTcpFifo
  mss :: u32
  msslevel :: nat
  largest :: u32
  mtu_advise :: u32
  rto_base :: u32
  ts_recent :: u32
  ts_lastack :: u32
  rx_rttvar :: u32
  rx_srtt :: u32
  rx_rto :: u32
  ssthresh :: u32
  cwnd :: u32
  dup_acks :: u8
  recover :: u32
  fast_recovery :: bool
  t_ack :: u32
  last_acked_ts :: u32
  use_nagling :: bool
  ack_delay :: u32
  support_wnd_scale :: bool
  current_time :: u32
  support_fin_ack :: bool
  mono_clock :: u32
  heap_junk :: "nat \<Rightarrow> u8"
  packets :: "u8 list list"
  events :: "tcp_event list"

subsection \<open>Clock, events, properties\<close>

definition get_current_time :: "PseudoTcpSocket \<Rightarrow> u32" where
  "get_current_time s = (if current_time s \<noteq> 0 then current_time s else mono_clock s)"

definition pseudo_tcp_socket_set_time :: "PseudoTcpSocket \<Rightarrow> u32 \<Rightarrow> PseudoTcpSocket" where
  "pseudo_tcp_socket_set_time s t = s\<lparr>current_time := t\<rparr>"

definition emit :: "tcp_event \<Rightarrow> PseudoTcpSocket \<Rightarrow> PseudoTcpSocket" where
  "emit e s = s\<lparr>events := events s @ [e]\<rparr>"

definition pseudo_tcp_socket_get_error :: "PseudoTcpSocket \<Rightarrow> errno" where
  "pseudo_tcp_socket_get_error s = sock_error s"

subsection \<open>The state machine\<close>

fun pseudo_tcp_state_has_sent_fin :: "PseudoTcpState \<Rightarrow> bool" where
  "pseudo_tcp_state_has_sent_fin TCP_LISTEN = False"
| "pseudo_tcp_state_has_sent_fin TCP_SYN_SENT = False"
| "pseudo_tcp_state_has_sent_fin TCP_SYN_RECEIVED = False"
| "pseudo_tcp_state_has_sent_fin TCP_ESTABLISHED = False"
| "pseudo_tcp_state_has_sent_fin TCP_CLOSE_WAIT = False"
| "pseudo_tcp_state_has_sent_fin _ = True"

fun pseudo_tcp_state_has_received_fin :: "PseudoTcpState \<Rightarrow> bool" where
  "pseudo_tcp_state_has_received_fin TCP_LISTEN = False"
| "pseudo_tcp_state_has_received_fin TCP_SYN_SENT = False"
| "pseudo_tcp_state_has_received_fin TCP_SYN_RECEIVED = False"
| "pseudo_tcp_state_has_received_fin TCP_ESTABLISHED = False"
| "pseudo_tcp_state_has_received_fin TCP_FIN_WAIT_1 = False"
| "pseudo_tcp_state_has_received_fin TCP_FIN_WAIT_2 = False"
| "pseudo_tcp_state_has_received_fin _ = True"

fun pseudo_tcp_state_has_received_fin_ack :: "PseudoTcpState \<Rightarrow> bool" where
  "pseudo_tcp_state_has_received_fin_ack TCP_CLOSED = True"
| "pseudo_tcp_state_has_received_fin_ack TCP_TIME_WAIT = True"
| "pseudo_tcp_state_has_received_fin_ack _ = False"

text \<open>The assertion of \<^verbatim>\<open>set_state\<close>.\<close>

definition valid_transition :: "PseudoTcpState \<Rightarrow> PseudoTcpState \<Rightarrow> bool" where
  "valid_transition old_state new_state \<longleftrightarrow> (old_state, new_state) \<in> set
     [(TCP_CLOSED, TCP_SYN_SENT), (TCP_SYN_SENT, TCP_CLOSED), (TCP_CLOSED, TCP_LISTEN),
      (TCP_LISTEN, TCP_CLOSED), (TCP_LISTEN, TCP_SYN_SENT), (TCP_LISTEN, TCP_SYN_RECEIVED),
      (TCP_SYN_SENT, TCP_SYN_RECEIVED), (TCP_SYN_RECEIVED, TCP_ESTABLISHED),
      (TCP_SYN_SENT, TCP_ESTABLISHED), (TCP_SYN_RECEIVED, TCP_FIN_WAIT_1),
      (TCP_ESTABLISHED, TCP_FIN_WAIT_1), (TCP_ESTABLISHED, TCP_CLOSE_WAIT),
      (TCP_FIN_WAIT_1, TCP_FIN_WAIT_2), (TCP_FIN_WAIT_1, TCP_CLOSING),
      (TCP_CLOSE_WAIT, TCP_LAST_ACK), (TCP_FIN_WAIT_2, TCP_TIME_WAIT),
      (TCP_CLOSING, TCP_TIME_WAIT), (TCP_LAST_ACK, TCP_CLOSED), (TCP_TIME_WAIT, TCP_CLOSED),
      (TCP_SYN_RECEIVED, TCP_LISTEN), (TCP_FIN_WAIT_1, TCP_TIME_WAIT)]"

definition set_state :: "PseudoTcpState \<Rightarrow> PseudoTcpSocket \<Rightarrow> PseudoTcpSocket option" where
  "set_state new_state s =
     (if new_state = state s then Some s
      else do {
        c_assert (valid_transition (state s) new_state);
        Some (s\<lparr>state := new_state\<rparr>)
      })"

text \<open>
  The loop of \<^verbatim>\<open>adjustMTU\<close> that finds the level of the advised MTU. The table ends in a
  zero, so the index stays inside it.
\<close>

function mss_level_from :: "u32 \<Rightarrow> nat \<Rightarrow> nat" where
  "mss_level_from mtu i =
     (if i + 1 < length PACKET_MAXIMUMS \<and> PACKET_MAXIMUMS ! (i + 1) > 0
      then (if PACKET_MAXIMUMS ! i \<le> mtu then i else mss_level_from mtu (i + 1))
      else i)"
  by pat_completeness auto
termination
  by (relation "measure (\<lambda>(mtu, i). length PACKET_MAXIMUMS - i)") auto

declare mss_level_from.simps [simp del]

definition adjustMTU :: "PseudoTcpSocket \<Rightarrow> PseudoTcpSocket" where
  "adjustMTU s =
     (let m = mtu_advise s - PACKET_OVERHEAD in
      s\<lparr>msslevel := mss_level_from (mtu_advise s) 0, mss := m,
        ssthresh := max (ssthresh s) (2 * m), cwnd := max (cwnd s) m\<rparr>)"

definition set_state_established :: "PseudoTcpSocket \<Rightarrow> PseudoTcpSocket option" where
  "set_state_established s =
     do {
       s1 \<leftarrow> set_state TCP_ESTABLISHED s;
       let s2 = adjustMTU s1;
       Some (if cb_Opened (callbacks s2) then emit Opened s2 else s2)
     }"

definition set_state_closed :: "errno \<Rightarrow> PseudoTcpSocket \<Rightarrow> PseudoTcpSocket option" where
  "set_state_closed err s =
     do {
       s1 \<leftarrow> set_state TCP_CLOSED s;
       Some (if cb_Closed (callbacks s1) \<and> err \<noteq> E_OK then emit (Closed err) s1 else s1)
     }"

definition pseudo_tcp_socket_is_closed :: "PseudoTcpSocket \<Rightarrow> bool" where
  "pseudo_tcp_socket_is_closed s \<longleftrightarrow> state s = TCP_CLOSED"

definition pseudo_tcp_socket_is_closed_remotely :: "PseudoTcpSocket \<Rightarrow> bool" where
  "pseudo_tcp_socket_is_closed_remotely s = pseudo_tcp_state_has_received_fin (state s)"

subsection \<open>Buffer sizes\<close>

definition resize_send_buffer :: "u32 \<Rightarrow> PseudoTcpSocket \<Rightarrow> PseudoTcpSocket option" where
  "resize_send_buffer new_size s =
     do {
       (_, b) \<leftarrow> pseudo_tcp_fifo_set_capacity (heap_junk s) (sbuf s) (unat new_size);
       Some (s\<lparr>sbuf_len := new_size, sbuf := b\<rparr>)
     }"

text \<open>The loop that halves the size until it fits 16 bits, counting the halvings.\<close>

function scale_loop :: "u8 \<Rightarrow> u32 \<Rightarrow> u8 \<times> u32" where
  "scale_loop scale_factor new_size =
     (if new_size > 0xFFFF then scale_loop (scale_factor + 1) (drop_bit 1 new_size)
      else (scale_factor, new_size))"
  by pat_completeness auto
termination
proof (relation "measure (\<lambda>(k, n). unat n)")
  fix k :: u8 and n :: u32
  assume "0xFFFF < n"
  then have "0 < unat n" by (simp add: word_less_nat_alt)
  then show "((k + 1, drop_bit 1 n), k, n) \<in> measure (\<lambda>(k, n). unat n)"
    by (simp add: drop_bit_eq_div unat_div)
qed simp

declare scale_loop.simps [simp del]

definition resize_receive_buffer :: "u32 \<Rightarrow> PseudoTcpSocket \<Rightarrow> PseudoTcpSocket option" where
  "resize_receive_buffer new_size0 s =
     (if rbuf_len s = new_size0 then Some s
      else do {
        let (scale_factor, n) = scale_loop 0 new_size0;
        let new_size = push_bit (unat scale_factor) n;
        (result, b) \<leftarrow> pseudo_tcp_fifo_set_capacity (heap_junk s) (rbuf s) (unat new_size);
        c_assert result;
        Some (s\<lparr>rbuf := b, rbuf_len := new_size, rwnd_scale := scale_factor, ssthresh := new_size,
                rcv_wnd := word_of_nat (pseudo_tcp_fifo_get_write_remaining b)\<rparr>)
      })"

definition pseudo_tcp_socket_get_available_bytes :: "PseudoTcpSocket \<Rightarrow> nat" where
  "pseudo_tcp_socket_get_available_bytes s = pseudo_tcp_fifo_get_buffered (rbuf s)"

definition pseudo_tcp_socket_get_available_send_space ::
    "PseudoTcpSocket \<Rightarrow> nat \<times> PseudoTcpSocket" where
  "pseudo_tcp_socket_get_available_send_space s =
     (let ret = (if \<not> pseudo_tcp_state_has_sent_fin (state s)
                 then pseudo_tcp_fifo_get_write_remaining (sbuf s) else 0)
      in (ret, if ret = 0 then s\<lparr>bWriteEnable := True\<rparr> else s))"

definition pseudo_tcp_socket_can_send :: "PseudoTcpSocket \<Rightarrow> bool \<times> PseudoTcpSocket" where
  "pseudo_tcp_socket_can_send s =
     (let (n, s1) = pseudo_tcp_socket_get_available_send_space s in (n > 0, s1))"

subsection \<open>Creation\<close>

definition pseudo_tcp_socket_init :: "u32 \<Rightarrow> (nat \<Rightarrow> u8) \<Rightarrow> PseudoTcpCallbacks \<Rightarrow> u32 \<Rightarrow> PseudoTcpSocket" where
  "pseudo_tcp_socket_init cnv junk cbs clock =
     (let m = MIN_PACKET - PACKET_OVERHEAD in
      \<lparr>callbacks = cbs, shutdown = SD_NONE, shutdown_reads = False, sock_error = E_OK,
       state = TCP_LISTEN, conv = cnv, bReadEnable = True, bWriteEnable = False,
       bOutgoing = False, last_traffic = 0,
       rlist = [], rbuf_len = DEFAULT_RCV_BUF_SIZE, rcv_nxt = 0, rcv_wnd = DEFAULT_RCV_BUF_SIZE,
       lastrecv = 0, rwnd_scale = 0,
       rbuf = pseudo_tcp_fifo_init junk (unat DEFAULT_RCV_BUF_SIZE), rcv_fin = 0,
       slist = [], unsent_slist = [], ssegs = (\<lambda>_. None), next_sseg = 0,
       sbuf_len = DEFAULT_SND_BUF_SIZE, snd_nxt = 0, snd_wnd = 1, lastsend = 0, snd_una = 0,
       swnd_scale = 0, sbuf = pseudo_tcp_fifo_init junk (unat DEFAULT_SND_BUF_SIZE),
       mss = m, msslevel = 0, largest = 0, mtu_advise = DEF_MTU, rto_base = 0,
       ts_recent = 0, ts_lastack = 0, rx_rttvar = 0, rx_srtt = 0, rx_rto = DEF_RTO,
       ssthresh = DEFAULT_RCV_BUF_SIZE, cwnd = 2 * m, dup_acks = 0, recover = 0,
       fast_recovery = False, t_ack = 0, last_acked_ts = 0, use_nagling = True,
       ack_delay = DEFAULT_ACK_DELAY, support_wnd_scale = True, current_time = 0,
       support_fin_ack = True, mono_clock = clock, heap_junk = junk, packets = [], events = []\<rparr>)"

text \<open>
  \<^verbatim>\<open>pseudo_tcp_socket_new\<close>: \<open>None\<close> is the NULL it returns without callbacks.
\<close>

definition pseudo_tcp_socket_new ::
    "u32 \<Rightarrow> PseudoTcpCallbacks option \<Rightarrow> (nat \<Rightarrow> u8) \<Rightarrow> u32 \<Rightarrow> PseudoTcpSocket option" where
  "pseudo_tcp_socket_new conversation cbs junk clock =
     (case cbs of None \<Rightarrow> None
      | Some c \<Rightarrow> Some (pseudo_tcp_socket_init conversation junk c clock))"

end
