(* ===== verification/PseudoTcpSend.thy ===== *)
theory PseudoTcpSend
  imports PseudoTcp
begin

text \<open>
  The sending half of the pseudo-TCP socket: \<^verbatim>\<open>queue\<close>, \<^verbatim>\<open>packet\<close>,
  \<^verbatim>\<open>transmit\<close>, \<^verbatim>\<open>attempt_send\<close> and \<^verbatim>\<open>closedown\<close>, and the operations of
  the interface that only send.

  \<^verbatim>\<open>transmit\<close> terminates because each refusal of a packet moves to the next entry of the
  MTU table. The loop of \<^verbatim>\<open>attempt_send\<close> ends only if every transmission makes progress,
  so it carries fuel; \<open>attempt_send_fuel\<close> is enough whenever the segment size is positive.
\<close>

unbundle bit_operations_syntax

subsection \<open>The segment store\<close>

definition sseg_upd :: "nat \<Rightarrow> SSegment \<Rightarrow> PseudoTcpSocket \<Rightarrow> PseudoTcpSocket" where
  "sseg_upd i g s = s\<lparr>ssegs := (ssegs s)(i \<mapsto> g)\<rparr>"

text \<open>\<^verbatim>\<open>g_slice_new0\<close> of a segment: a fresh address.\<close>

definition sseg_new :: "SSegment \<Rightarrow> PseudoTcpSocket \<Rightarrow> nat \<times> PseudoTcpSocket" where
  "sseg_new g s = (next_sseg s, s\<lparr>ssegs := (ssegs s)(next_sseg s \<mapsto> g), next_sseg := next_sseg s + 1\<rparr>)"

subsection \<open>Queueing\<close>

definition queue_new_segment :: "u32 \<Rightarrow> u8 \<Rightarrow> PseudoTcpSocket \<Rightarrow> PseudoTcpSocket" where
  "queue_new_segment len flags s =
     (let (i, s1) = sseg_new \<lparr>sseg_seq = snd_una s + word_of_nat (pseudo_tcp_fifo_get_buffered (sbuf s)),
                               sseg_len = len, xmit = 0, sseg_flags = flags\<rparr> s
      in s1\<lparr>slist := g_queue_push_tail (slist s1) i,
            unsent_slist := g_queue_push_tail (unsent_slist s1) i\<rparr>)"

text \<open>Returns the number of bytes accepted.\<close>

definition queue :: "u8 list \<Rightarrow> u32 \<Rightarrow> u8 \<Rightarrow> PseudoTcpSocket \<Rightarrow> (u32 \<times> PseudoTcpSocket) option" where
  "queue data len0 flags s =
     do {
       let available_space = pseudo_tcp_fifo_get_write_remaining (sbuf s);
       c_assert (unat len0 > available_space \<longrightarrow> flags = FLAG_NONE);
       let len = (if unat len0 > available_space then word_of_nat available_space else len0);
       s1 \<leftarrow> (case g_queue_peek_tail (slist s) of
           None \<Rightarrow> Some (queue_new_segment len flags s)
         | Some t \<Rightarrow> do {
             g \<leftarrow> ssegs s t;
             Some (if sseg_flags g = flags \<and> xmit g = 0
                   then sseg_upd t (g\<lparr>sseg_len := sseg_len g + len\<rparr>) s
                   else queue_new_segment len flags s)
           });
       (n, b) \<leftarrow> pseudo_tcp_fifo_write (sbuf s1) data (unat len);
       Some (word_of_nat n, s1\<lparr>sbuf := b\<rparr>)
     }"

definition connect_message :: "PseudoTcpSocket \<Rightarrow> u8 list" where
  "connect_message s =
     [CTL_CONNECT]
     @ (if support_wnd_scale s then [TCP_OPT_WND_SCALE, 1, rwnd_scale s] else [])
     @ (if support_fin_ack s then [TCP_OPT_FIN_ACK, 1, 0] else [])"

definition queue_connect_message :: "PseudoTcpSocket \<Rightarrow> PseudoTcpSocket option" where
  "queue_connect_message s =
     do {
       let buf = connect_message s;
       let sz = word_of_nat (length buf);
       (_, s1) \<leftarrow> queue buf sz FLAG_CTL (s\<lparr>snd_wnd := sz\<rparr>);
       Some s1
     }"

definition queue_fin_message :: "PseudoTcpSocket \<Rightarrow> PseudoTcpSocket option" where
  "queue_fin_message s =
     do {
       c_assert (support_fin_ack s);
       (_, s1) \<leftarrow> queue [] 0 FLAG_FIN s;
       Some s1
     }"

definition queue_rst_message :: "PseudoTcpSocket \<Rightarrow> PseudoTcpSocket option" where
  "queue_rst_message s =
     do {
       c_assert (support_fin_ack s);
       (_, s1) \<leftarrow> queue [] 0 FLAG_RST s;
       Some s1
     }"

subsection \<open>Packets\<close>

definition packet_header :: "u32 \<Rightarrow> u8 \<Rightarrow> u32 \<Rightarrow> PseudoTcpSocket \<Rightarrow> u8 list" where
  "packet_header sq flags now s =
     be32 (conv s) @ be32 sq @ be32 (rcv_nxt s) @ [0, flags]
     @ be16 (ucast (drop_bit (unat (rwnd_scale s)) (rcv_wnd s))) @ be32 now @ be32 (ts_recent s)"

definition packet :: "u32 \<Rightarrow> u8 \<Rightarrow> u32 \<Rightarrow> u32 \<Rightarrow> u32 \<Rightarrow> PseudoTcpSocket
    \<Rightarrow> (PseudoTcpWriteResult \<times> PseudoTcpSocket) option" where
  "packet sq flags offset len now s =
     do {
       c_assert (HEADER_SIZE + len \<le> MAX_PACKET);
       c_assert (unat (rwnd_scale s) < 32);
       let hdr = packet_header sq flags now s;
       let s1 = s\<lparr>ts_lastack := rcv_nxt s\<rparr>;
       payload \<leftarrow> (if len \<noteq> 0 then pseudo_tcp_fifo_read_offset (sbuf s1) (unat len) (unat offset)
                   else Some []);
       c_assert (length payload = unat len);
       let pkt = hdr @ payload;
       let wres = cb_WritePacket (callbacks s1) (packets s1) pkt;
       let s2 = s1\<lparr>packets := packets s1 @ [pkt]\<rparr>;
       if wres \<noteq> WR_SUCCESS \<and> len \<noteq> 0 then Some (wres, s2)
       else
         Some (WR_SUCCESS,
           s2\<lparr>t_ack := 0, lastsend := (if len > 0 then now else lastsend s2),
              last_traffic := now, bOutgoing := True\<rparr>)
     }"

text \<open>
  The inner loop of \<^verbatim>\<open>transmit\<close>: step down the MTU table until the segment size is below
  the size just tried; \<open>None\<close> in the first component is \<^verbatim>\<open>EMSGSIZE\<close>.
\<close>

function shrink_mss :: "u32 \<Rightarrow> PseudoTcpSocket \<Rightarrow> u32 option \<times> PseudoTcpSocket" where
  "shrink_mss nTransmit s =
     (if \<not> msslevel s + 1 < length PACKET_MAXIMUMS \<or> PACKET_MAXIMUMS ! (msslevel s + 1) = 0 then (None, s)
      else
        let m = PACKET_MAXIMUMS ! (msslevel s + 1) - PACKET_OVERHEAD;
            s1 = s\<lparr>msslevel := msslevel s + 1, mss := m, cwnd := 2 * m\<rparr>
        in if m < nTransmit then (Some m, s1) else shrink_mss nTransmit s1)"
  by pat_completeness auto
termination
  by (relation "measure (\<lambda>(n, s). length PACKET_MAXIMUMS - msslevel s)") auto

declare shrink_mss.simps [simp del]

lemma shrink_mss_level:
  "shrink_mss n s = (Some m, s') \<Longrightarrow> msslevel s < msslevel s' \<and> msslevel s' < length PACKET_MAXIMUMS"
proof (induction n s rule: shrink_mss.induct)
  case (1 n s)
  then show ?case by (subst (asm) shrink_mss.simps) (fastforce simp: Let_def split: if_splits)
qed

lemma packet_level: "wlp (packet sq fl off len now s) (\<lambda>(r, s'). msslevel s' = msslevel s)"
  by (simp add: packet_def Let_def wp_simps)

lemma transmit_step_level:
  assumes "packet sq fl off len now s = Some p" and "(x, y) = p" and "(z, s') = shrink_mss n y"
    and "z = Some m"
  shows "length PACKET_MAXIMUMS - msslevel s' < length PACKET_MAXIMUMS - msslevel s"
proof -
  from wlpD [OF packet_level assms(1)] assms(2) have "msslevel y = msslevel s" by (cases p) simp
  moreover from assms(3,4) have "shrink_mss n y = (Some m, s')" by simp
  ultimately show ?thesis by (auto dest: shrink_mss_level)
qed

text \<open>The outer loop of \<^verbatim>\<open>transmit\<close>: the size that was sent, or the error.\<close>

function transmit_loop :: "nat \<Rightarrow> u32 \<Rightarrow> u32 \<Rightarrow> PseudoTcpSocket \<Rightarrow> ((errno + u32) \<times> PseudoTcpSocket) option" where
  "transmit_loop i nTransmit now s =
     do {
       g \<leftarrow> ssegs s i;
       c_assert (sseg_seq g - snd_una s \<le> 1024 * 1024 * 64);
       (wres, s1) \<leftarrow> packet (sseg_seq g) (sseg_flags g) (sseg_seq g - snd_una s) nTransmit now s;
       case wres of
         WR_SUCCESS \<Rightarrow> Some (Inr nTransmit, s1)
       | WR_FAIL \<Rightarrow> Some (Inl ECONNABORTED, s1)
       | WR_TOO_LARGE \<Rightarrow>
           (case shrink_mss nTransmit s1 of
              (None, s2) \<Rightarrow> Some (Inl EMSGSIZE, s2)
            | (Some m, s2) \<Rightarrow> transmit_loop i m now s2)
     }"
  by pat_completeness auto
termination
  by (relation "measure (\<lambda>(i, n, now, s). length PACKET_MAXIMUMS - msslevel s)")
    (simp_all add: transmit_step_level)

declare transmit_loop.simps [simp del]

text \<open>
  The part of \<^verbatim>\<open>transmit\<close> after the packet was written: the segment is cut to the size
  that was sent, the rest becomes a segment of its own behind it in both queues, and a segment
  sent for the first time leaves the queue of unsent segments.
\<close>

definition transmit_split :: "nat \<Rightarrow> u32 \<Rightarrow> PseudoTcpSocket \<Rightarrow> PseudoTcpSocket option" where
  "transmit_split i nTransmit s =
     do {
       g \<leftarrow> ssegs s i;
       if nTransmit < sseg_len g then
         (let (j, s1) = sseg_new \<lparr>sseg_seq = sseg_seq g + nTransmit, sseg_len = sseg_len g - nTransmit,
                                   xmit = xmit g, sseg_flags = sseg_flags g\<rparr> s;
              s2 = sseg_upd i (g\<lparr>sseg_len := nTransmit\<rparr>) s1;
              s3 = s2\<lparr>slist := g_queue_insert_after (slist s2) (g_queue_find (slist s2) i) j\<rparr>
          in Some (if xmit g = 0
                   then s3\<lparr>unsent_slist := g_queue_insert_after (unsent_slist s3)
                                             (g_queue_find (unsent_slist s3) i) j\<rparr>
                   else s3))
       else Some s
     }"

definition transmit_account :: "nat \<Rightarrow> u32 \<Rightarrow> PseudoTcpSocket \<Rightarrow> PseudoTcpSocket option" where
  "transmit_account i now s =
     do {
       g \<leftarrow> ssegs s i;
       s1 \<leftarrow> (if xmit g = 0 then do {
                c_assert (g_queue_peek_head (unsent_slist s) = Some i);
                Some (s\<lparr>unsent_slist := snd (g_queue_pop_head (unsent_slist s)),
                        snd_nxt := snd_nxt s + sseg_len g
                          + (if sseg_len g = 0 \<and> sseg_flags g AND FLAG_FIN \<noteq> 0 then 1 else 0)\<rparr>)
              } else Some s);
       let s2 = sseg_upd i (g\<lparr>xmit := xmit g + 1\<rparr>) s1;
       Some (if rto_base s2 = 0 then s2\<lparr>rto_base := now\<rparr> else s2)
     }"

definition transmit :: "nat \<Rightarrow> u32 \<Rightarrow> PseudoTcpSocket \<Rightarrow> (errno \<times> PseudoTcpSocket) option" where
  "transmit i now s =
     do {
       g \<leftarrow> ssegs s i;
       let nTransmit0 = min (sseg_len g) (mss s);
       if xmit g \<ge> (if state s = TCP_ESTABLISHED then 15 else 30) then Some (ETIMEDOUT, s)
       else do {
         (r, s1) \<leftarrow> transmit_loop i nTransmit0 now s;
         case r of
           Inl err \<Rightarrow> Some (err, s1)
         | Inr nTransmit \<Rightarrow> do {
             s2 \<leftarrow> transmit_split i nTransmit s1;
             s3 \<leftarrow> transmit_account i now s2;
             Some (E_OK, s3)
           }
       }
     }"

subsection \<open>Closing down and sending\<close>

text \<open>
  What \<^verbatim>\<open>closedown\<close> does after the decision about the RST segment: the walk through the
  state machine to \<^verbatim>\<open>CLOSED\<close>. Called with \<^verbatim>\<open>CLOSEDOWN_REMOTE\<close> it does nothing else.
\<close>

definition closedown_walk :: "errno \<Rightarrow> PseudoTcpSocket \<Rightarrow> PseudoTcpSocket option" where
  "closedown_walk err s =
     do {
       s1 \<leftarrow> (case state s of
           TCP_SYN_RECEIVED \<Rightarrow> do { a \<leftarrow> set_state TCP_FIN_WAIT_1 s; b \<leftarrow> set_state TCP_FIN_WAIT_2 a;
                                     set_state TCP_TIME_WAIT b }
         | TCP_ESTABLISHED \<Rightarrow> do { a \<leftarrow> set_state TCP_FIN_WAIT_1 s; b \<leftarrow> set_state TCP_FIN_WAIT_2 a;
                                    set_state TCP_TIME_WAIT b }
         | TCP_FIN_WAIT_1 \<Rightarrow> do { b \<leftarrow> set_state TCP_FIN_WAIT_2 s; set_state TCP_TIME_WAIT b }
         | TCP_FIN_WAIT_2 \<Rightarrow> set_state TCP_TIME_WAIT s
         | TCP_CLOSING \<Rightarrow> set_state TCP_TIME_WAIT s
         | TCP_CLOSE_WAIT \<Rightarrow> set_state TCP_LAST_ACK s
         | _ \<Rightarrow> Some s);
       set_state_closed err s1
     }"

text \<open>How much the loop of \<^verbatim>\<open>attempt_send\<close> may transmit at its current iteration.\<close>

definition send_window :: "PseudoTcpSocket \<Rightarrow> u32" where
  "send_window s =
     min (snd_wnd s)
         (if dup_acks s = 1 \<or> dup_acks s = 2 then cwnd s + ucast (dup_acks s) * mss s else cwnd s)"

definition send_available :: "PseudoTcpSocket \<Rightarrow> u32" where
  "send_available s =
     (let nWindow = send_window s;
          nInFlight = snd_nxt s - snd_una s;
          nUseable = (if nInFlight < nWindow then nWindow - nInFlight else 0);
          snd_buffered = pseudo_tcp_fifo_get_buffered (sbuf s);
          nAvailable = (if snd_buffered < unat nInFlight then 0
                        else word_of_nat (min (snd_buffered - unat nInFlight) (unat (mss s))))
      in if nAvailable > nUseable
         then (if nUseable * 4 < nWindow then 0 else nUseable)
         else nAvailable)"

text \<open>The segment at the head of the unsent queue, cut to the size that may be sent.\<close>

definition split_unsent :: "nat \<Rightarrow> u32 \<Rightarrow> PseudoTcpSocket \<Rightarrow> PseudoTcpSocket option" where
  "split_unsent i nAvailable s =
     do {
       g \<leftarrow> ssegs s i;
       let (j, s1) = sseg_new \<lparr>sseg_seq = sseg_seq g + nAvailable, sseg_len = sseg_len g - nAvailable,
                                xmit = 0, sseg_flags = sseg_flags g\<rparr> s;
       let s2 = sseg_upd i (g\<lparr>sseg_len := nAvailable\<rparr>) s1;
       Some (s2\<lparr>unsent_slist := g_queue_insert_after (unsent_slist s2) (Some i) j,
                slist := g_queue_insert_after (slist s2) (g_queue_find (slist s2) i) j\<rparr>)
     }"

fun attempt_send_loop :: "nat \<Rightarrow> SendFlags \<Rightarrow> u32 \<Rightarrow> PseudoTcpSocket \<Rightarrow> PseudoTcpSocket option" where
  "attempt_send_loop 0 sflags now s = None"
| "attempt_send_loop (Suc fuel) sflags now s =
     (let nAvailable = send_available s in
      if sflags = sfDuplicateAck then
        do {
          (_, s1) \<leftarrow> packet (snd_nxt s) 0 0 0 now s;
          attempt_send_loop fuel sfNone now s1
        }
      else if nAvailable = 0 \<and> sflags \<noteq> sfFin \<and> sflags \<noteq> sfRst then
        (if sflags = sfNone then Some s
         else if sflags = sfImmediateAck \<or> sflags = sfDuplicateAck \<or> t_ack s \<noteq> 0 then
           do { (_, s1) \<leftarrow> packet (snd_nxt s) 0 0 0 now s; Some s1 }
         else Some (s\<lparr>t_ack := now\<rparr>))
      else if use_nagling s \<and> sflags \<noteq> sfFin \<and> sflags \<noteq> sfRst \<and> snd_nxt s > snd_una s
              \<and> nAvailable < mss s then Some s
      else
        (case g_queue_peek_head (unsent_slist s) of
           None \<Rightarrow> Some s
         | Some i \<Rightarrow> do {
             g \<leftarrow> ssegs s i;
             s1 \<leftarrow> (if sseg_len g > nAvailable \<and> sflags \<noteq> sfFin \<and> sflags \<noteq> sfRst
                    then split_unsent i nAvailable s else Some s);
             (transmit_status, s2) \<leftarrow> transmit i now s1;
             if transmit_status \<noteq> E_OK then closedown_walk transmit_status s2
             else attempt_send_loop fuel
                    (if sflags = sfImmediateAck \<or> sflags = sfDelayedAck then sfNone else sflags) now s2
           }))"

definition unsent_bytes :: "PseudoTcpSocket \<Rightarrow> nat" where
  "unsent_bytes s = (\<Sum>i\<leftarrow>unsent_slist s. case ssegs s i of None \<Rightarrow> 0 | Some g \<Rightarrow> unat (sseg_len g))"

definition attempt_send_fuel :: "PseudoTcpSocket \<Rightarrow> nat" where
  "attempt_send_fuel s = unsent_bytes s + length (unsent_slist s) + 2"

definition attempt_send :: "SendFlags \<Rightarrow> PseudoTcpSocket \<Rightarrow> PseudoTcpSocket option" where
  "attempt_send sflags s =
     (let now = get_current_time s;
          s1 = (if time_diff now (lastsend s) > uint (rx_rto s) then s\<lparr>cwnd := mss s\<rparr> else s)
      in attempt_send_loop (attempt_send_fuel s1) sflags now s1)"

definition closedown :: "errno \<Rightarrow> ClosedownSource \<Rightarrow> PseudoTcpSocket \<Rightarrow> PseudoTcpSocket option" where
  "closedown err source s =
     do {
       s1 \<leftarrow> (if source = CLOSEDOWN_LOCAL \<and> support_fin_ack s then do {
                a \<leftarrow> queue_rst_message s;
                attempt_send sfRst a
              }
              else if source = CLOSEDOWN_LOCAL then Some (s\<lparr>shutdown := SD_FORCEFUL\<rparr>)
              else Some s);
       closedown_walk err s1
     }"

subsection \<open>The sending operations of the interface\<close>

definition pseudo_tcp_socket_connect :: "PseudoTcpSocket \<Rightarrow> (bool \<times> PseudoTcpSocket) option" where
  "pseudo_tcp_socket_connect s =
     (if state s \<noteq> TCP_LISTEN then Some (False, s\<lparr>sock_error := EINVAL\<rparr>)
      else do {
        s1 \<leftarrow> set_state TCP_SYN_SENT s;
        s2 \<leftarrow> queue_connect_message s1;
        s3 \<leftarrow> attempt_send sfNone s2;
        Some (True, s3)
      })"

definition pseudo_tcp_socket_notify_mtu :: "u16 \<Rightarrow> PseudoTcpSocket \<Rightarrow> PseudoTcpSocket" where
  "pseudo_tcp_socket_notify_mtu mtu s =
     (let s1 = s\<lparr>mtu_advise := ucast mtu\<rparr>
      in if state s1 = TCP_ESTABLISHED then adjustMTU s1 else s1)"

text \<open>A negative result is \<open>None\<close> in the first component.\<close>

definition pseudo_tcp_socket_send ::
    "u8 list \<Rightarrow> u32 \<Rightarrow> PseudoTcpSocket \<Rightarrow> (u32 option \<times> PseudoTcpSocket) option" where
  "pseudo_tcp_socket_send buf len s =
     (if state s \<noteq> TCP_ESTABLISHED then
        Some (None, s\<lparr>sock_error := (if pseudo_tcp_state_has_sent_fin (state s) then EPIPE else ENOTCONN)\<rparr>)
      else if pseudo_tcp_fifo_get_write_remaining (sbuf s) = 0 then
        Some (None, s\<lparr>bWriteEnable := True, sock_error := EWOULDBLOCK\<rparr>)
      else do {
        (written, s1) \<leftarrow> queue buf len FLAG_NONE s;
        s2 \<leftarrow> attempt_send sfNone s1;
        Some (Some written,
              if sint written > 0 \<and> written < len then s2\<lparr>bWriteEnable := True\<rparr> else s2)
      })"

definition pseudo_tcp_socket_shutdown :: "PseudoTcpShutdown \<Rightarrow> PseudoTcpSocket \<Rightarrow> PseudoTcpSocket option" where
  "pseudo_tcp_socket_shutdown how s =
     (if \<not> support_fin_ack s then
        Some (if shutdown s = SD_NONE then s\<lparr>shutdown := SD_GRACEFUL\<rparr> else s)
      else
        let s1 = (if how = PSEUDO_TCP_SHUTDOWN_RD \<or> how = PSEUDO_TCP_SHUTDOWN_RDWR
                  then s\<lparr>shutdown_reads := True\<rparr> else s)
        in if how = PSEUDO_TCP_SHUTDOWN_RD then Some s1
           else if state s1 = TCP_LISTEN \<or> state s1 = TCP_SYN_SENT then set_state_closed E_OK s1
           else if state s1 = TCP_SYN_RECEIVED \<or> state s1 = TCP_ESTABLISHED then
             (if pseudo_tcp_socket_get_available_bytes s1 > 0 then closedown ECONNABORTED CLOSEDOWN_LOCAL s1
              else do {
                s2 \<leftarrow> queue_fin_message s1;
                s3 \<leftarrow> attempt_send sfFin s2;
                set_state TCP_FIN_WAIT_1 s3
              })
           else if state s1 = TCP_CLOSE_WAIT then
             do {
               s2 \<leftarrow> queue_fin_message s1;
               s3 \<leftarrow> attempt_send sfFin s2;
               set_state TCP_LAST_ACK s3
             }
           else Some s1)"

definition pseudo_tcp_socket_close :: "bool \<Rightarrow> PseudoTcpSocket \<Rightarrow> PseudoTcpSocket option" where
  "pseudo_tcp_socket_close force s =
     (if force \<and> state s \<noteq> TCP_CLOSED then closedown ECONNABORTED CLOSEDOWN_LOCAL s
      else pseudo_tcp_socket_shutdown PSEUDO_TCP_SHUTDOWN_RDWR s)"

end
