(* ===== verification/PseudoTcpRecv.thy ===== *)
theory PseudoTcpRecv
  imports PseudoTcpSend
begin

text \<open>
  The receiving half of the pseudo-TCP socket: \<^verbatim>\<open>parse\<close>, \<^verbatim>\<open>parse_options\<close> and
  \<^verbatim>\<open>process\<close>, which is split here into its successive parts, and the operations of the
  interface that receive or react to the clock. The boolean that the parts of \<^verbatim>\<open>process\<close>
  return first is false where the code returns \<^verbatim>\<open>FALSE\<close> at once.
\<close>

unbundle bit_operations_syntax

subsection \<open>Options of the connect message\<close>

definition apply_window_scale_option :: "u8 \<Rightarrow> PseudoTcpSocket \<Rightarrow> PseudoTcpSocket" where
  "apply_window_scale_option scale_factor s = s\<lparr>swnd_scale := scale_factor\<rparr>"

definition apply_fin_ack_option :: "PseudoTcpSocket \<Rightarrow> PseudoTcpSocket" where
  "apply_fin_ack_option s = s\<lparr>support_fin_ack := True\<rparr>"

definition apply_option :: "u8 \<Rightarrow> u8 list \<Rightarrow> PseudoTcpSocket \<Rightarrow> PseudoTcpSocket" where
  "apply_option kind data s =
     (if kind = TCP_OPT_WND_SCALE then
        (case data of [x] \<Rightarrow> apply_window_scale_option x s | _ \<Rightarrow> s)
      else if kind = TCP_OPT_FIN_ACK then apply_fin_ack_option s
      else s)"

text \<open>
  The loop of \<^verbatim>\<open>parse_options\<close>. The first component is false when the code returns from
  inside the loop, without the checks that follow it.
\<close>

function parse_options_loop ::
    "u8 list \<Rightarrow> nat \<Rightarrow> bool \<Rightarrow> bool \<Rightarrow> PseudoTcpSocket \<Rightarrow> bool \<times> bool \<times> bool \<times> PseudoTcpSocket" where
  "parse_options_loop data pos ws fa s =
     (if pos < length data then
        (let kind = data ! pos; pos1 = pos + 1 in
         if kind = TCP_OPT_EOL then (True, ws, fa, s)
         else if kind = TCP_OPT_NOOP then parse_options_loop data pos1 ws fa s
         else if length data < pos1 + 1 then (False, ws, fa, s)
         else
           (let opt_len = unat (data ! pos1); pos2 = pos1 + 1 in
            if length data < pos2 + opt_len then (False, ws, fa, s)
            else if opt_len \<le> length data - pos2 then
              parse_options_loop data (pos2 + opt_len)
                (ws \<or> kind = TCP_OPT_WND_SCALE) (fa \<or> kind = TCP_OPT_FIN_ACK)
                (apply_option kind (take opt_len (drop pos2 data)) s)
            else (False, ws, fa, s)))
      else (True, ws, fa, s))"
  by pat_completeness auto
termination
  by (relation "measure (\<lambda>(data, pos, ws, fa, s). length data - pos)") simp_all

declare parse_options_loop.simps [simp del]

definition parse_options :: "u8 list \<Rightarrow> PseudoTcpSocket \<Rightarrow> PseudoTcpSocket option" where
  "parse_options data s =
     (let (completed, has_window_scaling_option, has_fin_ack_option, s1) =
            parse_options_loop data 0 False False s
      in if \<not> completed then Some s1
         else do {
           s2 \<leftarrow> (if \<not> has_window_scaling_option \<and> rwnd_scale s1 > 0 then do {
                    a \<leftarrow> resize_receive_buffer DEFAULT_RCV_BUF_SIZE s1;
                    Some (a\<lparr>swnd_scale := 0\<rparr>)
                  } else Some s1);
           Some (if \<not> has_fin_ack_option then s2\<lparr>support_fin_ack := False\<rparr> else s2)
         })"

subsection \<open>The parts of process\<close>

definition process_ctl :: "Segment \<Rightarrow> PseudoTcpSocket \<Rightarrow> (bool \<times> bool \<times> PseudoTcpSocket) option" where
  "process_ctl seg s =
     (if seg_flags seg AND FLAG_CTL \<noteq> 0 then
        (if seg_len seg = 0 then Some (False, False, s)
         else do {
           c0 \<leftarrow> mem_at (seg_data seg) 0;
           if c0 = CTL_CONNECT then do {
             s1 \<leftarrow> parse_options (take (unat (seg_len seg - 1)) (drop 1 (seg_data seg))) s;
             s2 \<leftarrow> (if state s1 = TCP_LISTEN then do {
                      a \<leftarrow> set_state TCP_SYN_RECEIVED s1;
                      queue_connect_message a
                    }
                    else if state s1 = TCP_SYN_SENT then set_state_established s1
                    else Some s1);
             Some (True, True, s2)
           }
           else Some (False, False, s)
         })
      else Some (True, False, s))"

definition process_ts :: "Segment \<Rightarrow> PseudoTcpSocket \<Rightarrow> PseudoTcpSocket" where
  "process_ts seg s =
     (if SMALLER_OR_EQUAL (seg_seq seg) (ts_lastack s) \<and> SMALLER (ts_lastack s) (seg_seq seg + seg_len seg)
      then s\<lparr>ts_recent := seg_tsval seg\<rparr> else s)"

text \<open>The round-trip estimate; false for a time stamp from the future.\<close>

definition process_rtt :: "Segment \<Rightarrow> u32 \<Rightarrow> PseudoTcpSocket \<Rightarrow> bool \<times> PseudoTcpSocket" where
  "process_rtt seg now s =
     (if seg_tsecr seg \<noteq> 0 then
        (let rtt = time_diff now (seg_tsecr seg) in
         if rtt \<ge> 0 then
           (let rttvar = (if rx_srtt s = 0 then word_of_int (rtt div 2)
                          else word_of_int ((uint (3 * rx_rttvar s) + \<bar>rtt - uint (rx_srtt s)\<bar>) div 4));
                srtt = (if rx_srtt s = 0 then word_of_int rtt
                        else word_of_int ((uint (7 * rx_srtt s) + rtt) div 8))
            in (True, s\<lparr>rx_rttvar := rttvar, rx_srtt := srtt,
                        rx_rto := bound MIN_RTO (srtt + max 1 (4 * rttvar)) MAX_RTO,
                        last_acked_ts := seg_tsecr seg\<rparr>))
         else (False, s))
      else (True, s))"

text \<open>Releases acknowledged segments from the head of the queue.\<close>

function free_acked :: "u32 \<Rightarrow> PseudoTcpSocket \<Rightarrow> PseudoTcpSocket option" where
  "free_acked nFree s =
     (if nFree > 0 then
        (case slist s of
           [] \<Rightarrow> None
         | i # rest \<Rightarrow> do {
             g \<leftarrow> ssegs s i;
             if nFree < sseg_len g then
               Some (sseg_upd i (g\<lparr>sseg_len := sseg_len g - nFree, sseg_seq := sseg_seq g + nFree\<rparr>) s)
             else
               free_acked (nFree - sseg_len g)
                 (s\<lparr>largest := (if sseg_len g > largest s then sseg_len g else largest s),
                    ssegs := (ssegs s)(i := None), slist := rest\<rparr>)
           })
      else Some s)"
  by pat_completeness auto
termination
  by (relation "measure (\<lambda>(n, s). length (slist s))") simp_all

declare free_acked.simps [simp del]

text \<open>Window, sequence number and buffers of a valuable acknowledgement; returns whether the FIN was
  acknowledged and how many bytes were.\<close>

definition ack_advance :: "Segment \<Rightarrow> u32 \<Rightarrow> PseudoTcpSocket \<Rightarrow> (bool \<times> u32 \<times> PseudoTcpSocket) option" where
  "ack_advance seg now s =
     do {
       c_assert (unat (swnd_scale s) < 32);
       let nAcked0 = seg_ack seg - snd_una s;
       let s1 = s\<lparr>snd_wnd := push_bit (unat (swnd_scale s)) (ucast (seg_wnd seg)), snd_una := seg_ack seg,
                  rto_base := (if seg_ack seg = snd_nxt s then 0 else now)\<rparr>;
       let is_fin_ack = (unat nAcked0 = data_length (sbuf s1) + 1 \<and> pseudo_tcp_state_has_sent_fin (state s1));
       let nAcked = (if is_fin_ack then nAcked0 - 1 else nAcked0);
       b \<leftarrow> pseudo_tcp_fifo_consume_read_data (sbuf s1) (unat nAcked);
       s2 \<leftarrow> free_acked nAcked (s1\<lparr>sbuf := b\<rparr>);
       Some (is_fin_ack, nAcked, s2)
     }"

text \<open>Congestion control after a valuable acknowledgement.\<close>

definition ack_congestion :: "u32 \<Rightarrow> u32 \<Rightarrow> PseudoTcpSocket \<Rightarrow> (bool \<times> PseudoTcpSocket) option" where
  "ack_congestion nAcked now s =
     (if dup_acks s \<ge> 3 then
        (if LARGER_OR_EQUAL (snd_una s) (recover s) then
           Some (True, s\<lparr>cwnd := min (ssthresh s) (max (snd_nxt s - snd_una s) (mss s) + mss s),
                         fast_recovery := False, dup_acks := 0\<rparr>)
         else do {
           i \<leftarrow> g_queue_peek_head (slist s);
           (transmit_status, s1) \<leftarrow> transmit i now s;
           if transmit_status \<noteq> E_OK then do {
             s2 \<leftarrow> closedown transmit_status CLOSEDOWN_LOCAL s1;
             Some (False, s2)
           }
           else Some (True, s1\<lparr>cwnd := cwnd s1 + ((if nAcked > mss s1 then mss s1 else 0) - min nAcked (cwnd s1))\<rparr>)
         })
      else if cwnd s < ssthresh s then Some (True, s\<lparr>dup_acks := 0, cwnd := cwnd s + mss s\<rparr>)
      else do {
        c_assert (cwnd s \<noteq> 0);
        Some (True, s\<lparr>dup_acks := 0, cwnd := cwnd s + max 1 (mss s * mss s div cwnd s)\<rparr>)
      })"

definition process_valuable_ack ::
    "Segment \<Rightarrow> u32 \<Rightarrow> PseudoTcpSocket \<Rightarrow> (bool \<times> bool \<times> PseudoTcpSocket) option" where
  "process_valuable_ack seg now s =
     (let (ok, s1) = process_rtt seg now s in
      if \<not> ok then Some (False, False, s1)
      else do {
        (is_fin_ack, nAcked, s2) \<leftarrow> ack_advance seg now s1;
        (ok2, s3) \<leftarrow> ack_congestion nAcked now s2;
        Some (ok2, is_fin_ack, s3)
      })"

definition process_duplicate_ack :: "Segment \<Rightarrow> u32 \<Rightarrow> PseudoTcpSocket \<Rightarrow> (bool \<times> PseudoTcpSocket) option" where
  "process_duplicate_ack seg now s =
     do {
       c_assert (unat (swnd_scale s) < 32);
       let s1 = s\<lparr>snd_wnd := push_bit (unat (swnd_scale s)) (ucast (seg_wnd seg))\<rparr>;
       if seg_len seg > 0 then Some (True, s1)
       else if snd_una s1 \<noteq> snd_nxt s1 then
         (let s2 = s1\<lparr>dup_acks := dup_acks s1 + 1\<rparr> in
          if dup_acks s2 = 3 then
            (if LARGER_OR_EQUAL (snd_una s2) (recover s2) \<or> seg_tsecr seg = last_acked_ts s2 then do {
               i \<leftarrow> g_queue_peek_head (slist s2);
               (transmit_status, s3) \<leftarrow> transmit i now s2;
               if transmit_status \<noteq> E_OK then do {
                 s4 \<leftarrow> closedown transmit_status CLOSEDOWN_LOCAL s3;
                 Some (False, s4)
               }
               else
                 (let nInFlight = snd_nxt s3 - snd_una s3;
                      thresh = max (nInFlight div 2) (2 * mss s3)
                  in Some (True, s3\<lparr>recover := snd_nxt s3, ssthresh := thresh,
                                    cwnd := thresh + 3 * mss s3, fast_recovery := True\<rparr>))
             }
             else Some (True, s2))
          else if dup_acks s2 > 3 \<and> fast_recovery s2 then Some (True, s2\<lparr>cwnd := cwnd s2 + mss s2\<rparr>)
          else Some (True, s2))
       else Some (True, s1\<lparr>dup_acks := 0\<rparr>)
     }"

definition process_ack :: "Segment \<Rightarrow> u32 \<Rightarrow> PseudoTcpSocket \<Rightarrow> (bool \<times> bool \<times> PseudoTcpSocket) option" where
  "process_ack seg now s =
     (if LARGER (seg_ack seg) (snd_una s) \<and> SMALLER_OR_EQUAL (seg_ack seg) (snd_nxt s) then
        process_valuable_ack seg now s
      else if seg_ack seg = snd_una s then do {
        (ok, s1) \<leftarrow> process_duplicate_ack seg now s;
        Some (ok, False, s1)
      }
      else Some (True, False, s))"

text \<open>Connection closure: the transitions on a received FIN or on the acknowledgement of one's own.\<close>

definition fin_transition :: "bool \<Rightarrow> bool \<Rightarrow> PseudoTcpSocket \<Rightarrow> PseudoTcpSocket option" where
  "fin_transition received_fin is_fin_ack s =
     (if state s = TCP_ESTABLISHED \<and> received_fin then set_state TCP_CLOSE_WAIT s
      else if state s = TCP_CLOSING \<and> is_fin_ack then set_state TCP_TIME_WAIT s
      else if state s = TCP_LAST_ACK \<and> is_fin_ack then set_state_closed E_OK s
      else if state s = TCP_FIN_WAIT_1 \<and> is_fin_ack \<and> received_fin then set_state TCP_TIME_WAIT s
      else if state s = TCP_FIN_WAIT_1 \<and> is_fin_ack then set_state TCP_FIN_WAIT_2 s
      else if state s = TCP_FIN_WAIT_1 \<and> received_fin then set_state TCP_CLOSING s
      else if state s = TCP_FIN_WAIT_2 \<and> received_fin then set_state TCP_TIME_WAIT s
      else Some s)"

definition process_fin :: "Segment \<Rightarrow> bool \<Rightarrow> PseudoTcpSocket \<Rightarrow> (bool \<times> bool \<times> PseudoTcpSocket) option" where
  "process_fin seg is_fin_ack s =
     (if support_fin_ack s then
        (let s1 = (if seg_flags seg AND FLAG_FIN \<noteq> 0 then s\<lparr>rcv_fin := seg_seq seg\<rparr> else s) in
         if seg_flags seg AND FLAG_FIN \<noteq> 0 \<and> seg_len seg \<noteq> 0 then Some (False, False, s1)
         else
           (let received_fin = (rcv_nxt s1 \<noteq> 0 \<and> rcv_nxt s1 + seg_len seg = rcv_fin s1)
            in do {
              s2 \<leftarrow> fin_transition received_fin is_fin_ack s1;
              Some (True, received_fin, s2)
            }))
      else Some (True, False, s))"

text \<open>Notification of a writer when there is room again.\<close>

definition process_writable :: "PseudoTcpSocket \<Rightarrow> PseudoTcpSocket" where
  "process_writable s =
     (let kIdealRefillSize = (sbuf_len s + rbuf_len s) div 2;
          snd_buffered = pseudo_tcp_fifo_get_buffered (sbuf s)
      in if bWriteEnable s \<and> snd_buffered < unat kIdealRefillSize then
           (let s1 = s\<lparr>bWriteEnable := False\<rparr>
            in if cb_Writable (callbacks s1) then emit Writable s1 else s1)
         else s)"

definition ack_kind :: "Segment \<Rightarrow> bool \<Rightarrow> PseudoTcpSocket \<Rightarrow> SendFlags" where
  "ack_kind seg received_fin s =
     (if seg_seq seg \<noteq> rcv_nxt s then sfDuplicateAck
      else if seg_len seg \<noteq> 0 then (if ack_delay s = 0 then sfImmediateAck else sfDelayedAck)
      else if received_fin then sfImmediateAck
      else sfNone)"

text \<open>The segment cut to what is new and fits the receive buffer.\<close>

definition trim_front :: "PseudoTcpSocket \<Rightarrow> Segment \<Rightarrow> Segment" where
  "trim_front s seg =
     (if SMALLER (seg_seq seg) (rcv_nxt s) then
        (let nAdjust = rcv_nxt s - seg_seq seg in
         if nAdjust < seg_len seg
         then seg\<lparr>seg_seq := seg_seq seg + nAdjust, seg_data := drop (unat nAdjust) (seg_data seg),
                  seg_len := seg_len seg - nAdjust\<rparr>
         else seg\<lparr>seg_len := 0\<rparr>)
      else seg)"

definition trim_back :: "PseudoTcpSocket \<Rightarrow> Segment \<Rightarrow> Segment" where
  "trim_back s seg =
     (let available_space = pseudo_tcp_fifo_get_write_remaining (rbuf s);
          ahead = seg_seq seg + seg_len seg - rcv_nxt s
      in if unat ahead > available_space then
           (let nAdjust = ahead - word_of_nat available_space in
            if nAdjust < seg_len seg then seg\<lparr>seg_len := seg_len seg - nAdjust\<rparr>
            else seg\<lparr>seg_len := 0\<rparr>)
         else seg)"

text \<open>Stored segments that have become contiguous move into the readable part of the buffer.\<close>

fun absorb_rlist :: "RSegment list \<Rightarrow> SendFlags \<Rightarrow> PseudoTcpSocket \<Rightarrow> (SendFlags \<times> PseudoTcpSocket) option" where
  "absorb_rlist [] sflags s = Some (sflags, s\<lparr>rlist := []\<rparr>)"
| "absorb_rlist (r # rs) sflags s =
     (if SMALLER_OR_EQUAL (rseg_seq r) (rcv_nxt s) then
        (if LARGER (rseg_seq r + rseg_len r) (rcv_nxt s) then
           (let nAdjust = (rseg_seq r + rseg_len r) - rcv_nxt s in do {
              b \<leftarrow> pseudo_tcp_fifo_consume_write_buffer (rbuf s) (unat nAdjust);
              absorb_rlist rs sfImmediateAck
                (s\<lparr>rbuf := b, rcv_nxt := rcv_nxt s + nAdjust, rcv_wnd := rcv_wnd s - nAdjust\<rparr>)
            })
         else absorb_rlist rs sflags s)
      else Some (sflags, s\<lparr>rlist := r # rs\<rparr>))"

fun rlist_insert :: "RSegment \<Rightarrow> RSegment list \<Rightarrow> RSegment list" where
  "rlist_insert x [] = [x]"
| "rlist_insert x (r # rs) = (if SMALLER (rseg_seq r) (rseg_seq x) then r # rlist_insert x rs else x # r # rs)"

text \<open>The data of a trimmed segment; returns the acknowledgement to send and whether data became
  readable.\<close>

definition store_data :: "Segment \<Rightarrow> SendFlags \<Rightarrow> PseudoTcpSocket \<Rightarrow> (SendFlags \<times> bool \<times> PseudoTcpSocket) option" where
  "store_data seg sflags s =
     (let bIgnoreData = (seg_flags seg AND FLAG_CTL \<noteq> 0 \<or> (\<not> support_fin_ack s \<and> shutdown s \<noteq> SD_NONE)) in
      if seg_len seg > 0 then
        (if bIgnoreData then
           Some (sflags, False,
                 if seg_seq seg = rcv_nxt s then s\<lparr>rcv_nxt := rcv_nxt s + seg_len seg\<rparr> else s)
         else do {
           let nOffset = seg_seq seg - rcv_nxt s;
           (res, b) \<leftarrow> pseudo_tcp_fifo_write_offset (rbuf s) (seg_data seg) (unat (seg_len seg)) (unat nOffset);
           c_assert (res = unat (seg_len seg));
           let s1 = s\<lparr>rbuf := b\<rparr>;
           if seg_seq seg = rcv_nxt s1 then do {
             b2 \<leftarrow> pseudo_tcp_fifo_consume_write_buffer (rbuf s1) (unat (seg_len seg));
             let s2 = s1\<lparr>rbuf := b2, rcv_nxt := rcv_nxt s1 + seg_len seg, rcv_wnd := rcv_wnd s1 - seg_len seg\<rparr>;
             (sflags', s3) \<leftarrow> absorb_rlist (rlist s2) sflags s2;
             Some (sflags', True, s3)
           }
           else Some (sflags, False,
                      s1\<lparr>rlist := rlist_insert \<lparr>rseg_seq = seg_seq seg, rseg_len = seg_len seg\<rparr> (rlist s1)\<rparr>)
         })
      else Some (sflags, False, s))"

definition process_data :: "Segment \<Rightarrow> bool \<Rightarrow> PseudoTcpSocket \<Rightarrow> PseudoTcpSocket option" where
  "process_data seg received_fin s =
     do {
       let s1 = process_writable s;
       let sflags = ack_kind seg received_fin s1;
       let seg1 = trim_back s1 (trim_front s1 seg);
       (sflags2, bNewData, s2) \<leftarrow> store_data seg1 sflags s1;
       let s3 = (if received_fin then s2\<lparr>rcv_nxt := rcv_nxt s2 + 1\<rparr> else s2);
       s4 \<leftarrow> attempt_send sflags2 s3;
       Some (if bNewData \<and> bReadEnable s4 \<and> cb_Readable (callbacks s4) then emit Readable s4 else s4)
     }"

definition process :: "Segment \<Rightarrow> PseudoTcpSocket \<Rightarrow> (bool \<times> PseudoTcpSocket) option" where
  "process seg s =
     (if seg_conv seg \<noteq> conv s then Some (False, s)
      else
        let now = get_current_time s;
            s1 = s\<lparr>last_traffic := now, lastrecv := now, bOutgoing := False\<rparr>
        in if state s1 = TCP_CLOSED
              \<or> (pseudo_tcp_state_has_received_fin_ack (state s1) \<and> seg_len seg > 0) then
             (if seg_flags seg AND FLAG_RST = 0
              then do { a \<leftarrow> closedown E_OK CLOSEDOWN_LOCAL s1; Some (False, a) }
              else Some (False, s1))
           else if seg_flags seg AND FLAG_RST \<noteq> 0 then
             do { a \<leftarrow> closedown ECONNRESET CLOSEDOWN_REMOTE s1; Some (False, a) }
           else do {
             (ok, bConnect, s2) \<leftarrow> process_ctl seg s1;
             if \<not> ok then Some (False, s2)
             else do {
               let s3 = process_ts seg s2;
               (ok2, is_fin_ack, s4) \<leftarrow> process_ack seg now s3;
               if \<not> ok2 then Some (False, s4)
               else do {
                 s5 \<leftarrow> (if state s4 = TCP_SYN_RECEIVED \<and> \<not> bConnect then set_state_established s4 else Some s4);
                 (ok3, received_fin, s6) \<leftarrow> process_fin seg is_fin_ack s5;
                 if \<not> ok3 then Some (False, s6)
                 else do {
                   s7 \<leftarrow> process_data seg received_fin s6;
                   Some (True, s7)
                 }
               }
             }
           })"

subsection \<open>Packets from the network\<close>

definition parse_segment :: "u8 list \<Rightarrow> u8 list \<Rightarrow> Segment" where
  "parse_segment hdr data =
     \<lparr>seg_conv = get32 hdr 0, seg_seq = get32 hdr 4, seg_ack = get32 hdr 8, seg_flags = hdr ! 13,
      seg_wnd = get16 hdr 14, seg_data = data, seg_len = word_of_nat (length data),
      seg_tsval = get32 hdr 16, seg_tsecr = get32 hdr 20\<rparr>"

definition parse :: "u8 list \<Rightarrow> u8 list \<Rightarrow> PseudoTcpSocket \<Rightarrow> (bool \<times> PseudoTcpSocket) option" where
  "parse hdr data s = (if length hdr \<noteq> 24 then Some (False, s) else process (parse_segment hdr data) s)"

definition pseudo_tcp_socket_notify_packet ::
    "u8 list \<Rightarrow> PseudoTcpSocket \<Rightarrow> (bool \<times> PseudoTcpSocket) option" where
  "pseudo_tcp_socket_notify_packet buf s =
     (if length buf > unat MAX_PACKET then Some (False, s\<lparr>sock_error := EMSGSIZE\<rparr>)
      else if length buf < unat HEADER_SIZE then Some (False, s\<lparr>sock_error := EINVAL\<rparr>)
      else parse (take (unat HEADER_SIZE) buf) (drop (unat HEADER_SIZE) buf) s)"

subsection \<open>The clock\<close>

text \<open>Retransmission after a timeout; the first component is false after closing down.\<close>

definition clock_retransmit :: "u32 \<Rightarrow> PseudoTcpSocket \<Rightarrow> (bool \<times> PseudoTcpSocket) option" where
  "clock_retransmit now s =
     (if rto_base s \<noteq> 0 \<and> time_diff (rto_base s + rx_rto s) now \<le> 0 then do {
        i \<leftarrow> g_queue_peek_head (slist s);
        (transmit_status, s1) \<leftarrow> transmit i now s;
        if transmit_status \<noteq> E_OK then do {
          s2 \<leftarrow> closedown transmit_status CLOSEDOWN_LOCAL s1;
          Some (False, s2)
        }
        else
          (let nInFlight = snd_nxt s1 - snd_una s1;
               rto_limit = (if state s1 < TCP_ESTABLISHED then DEF_RTO else MAX_RTO)
           in Some (True, s1\<lparr>ssthresh := max (nInFlight div 2) (2 * mss s1), cwnd := mss s1,
                             rx_rto := min rto_limit (rx_rto s1 * 2), rto_base := now,
                             recover := snd_nxt s1,
                             fast_recovery := (if dup_acks s1 \<ge> 3 then False else fast_recovery s1),
                             dup_acks := (if dup_acks s1 \<ge> 3 then 0 else dup_acks s1)\<rparr>))
      }
      else Some (True, s))"

text \<open>Probing a closed window.\<close>

definition clock_probe :: "u32 \<Rightarrow> PseudoTcpSocket \<Rightarrow> (bool \<times> PseudoTcpSocket) option" where
  "clock_probe now s =
     (if snd_wnd s = 0 \<and> time_diff (lastsend s + rx_rto s) now \<le> 0 then
        (if time_diff now (lastrecv s) \<ge> 15000 then do {
           s1 \<leftarrow> closedown ECONNABORTED CLOSEDOWN_LOCAL s;
           Some (False, s1)
         }
         else do {
           (_, s1) \<leftarrow> packet (snd_nxt s - 1) 0 0 0 now s;
           Some (True, s1\<lparr>lastsend := now, rx_rto := min MAX_RTO (rx_rto s1 * 2)\<rparr>)
         })
      else Some (True, s))"

definition pseudo_tcp_socket_notify_clock :: "PseudoTcpSocket \<Rightarrow> PseudoTcpSocket option" where
  "pseudo_tcp_socket_notify_clock s =
     (let now = get_current_time s in
      if state s = TCP_CLOSED then Some s
      else do {
        s1 \<leftarrow> (if support_fin_ack s \<and> state s = TCP_TIME_WAIT then set_state_closed E_OK s else Some s);
        s2 \<leftarrow> (if support_fin_ack s1 \<and> state s1 = TCP_LAST_ACK then do {
                 a \<leftarrow> queue_fin_message s1;
                 attempt_send sfFin a
               } else Some s1);
        (ok, s3) \<leftarrow> clock_retransmit now s2;
        if \<not> ok then Some s3
        else do {
          (ok2, s4) \<leftarrow> clock_probe now s3;
          if \<not> ok2 then Some s4
          else if t_ack s4 \<noteq> 0 \<and> time_diff (t_ack s4 + ack_delay s4) now \<le> 0 then do {
            (_, s5) \<leftarrow> packet (snd_nxt s4) 0 0 0 now s4;
            Some s5
          }
          else Some s4
        }
      })"

text \<open>Returns the boolean and the new time of the next call.\<close>

definition pseudo_tcp_socket_get_next_clock ::
    "u64 \<Rightarrow> PseudoTcpSocket \<Rightarrow> (bool \<times> u64 \<times> PseudoTcpSocket) option" where
  "pseudo_tcp_socket_get_next_clock timeout s =
     (let now = get_current_time s in
      if shutdown s = SD_FORCEFUL
         \<or> (shutdown s = SD_GRACEFUL
            \<and> (state s \<noteq> TCP_ESTABLISHED \<or> (pseudo_tcp_fifo_get_buffered (sbuf s) = 0 \<and> t_ack s = 0)))
      then do { s1 \<leftarrow> closedown E_OK CLOSEDOWN_REMOTE s; Some (False, timeout, s1) }
      else
        let closed_timeout = (if support_fin_ack s \<and> state s = TCP_TIME_WAIT then TIME_WAIT_TIMEOUT else CLOSED_TIMEOUT)
        in if support_fin_ack s \<and> state s = TCP_CLOSED then Some (False, timeout, s)
           else
             let t1 = (if timeout = 0 \<or> timeout < ucast now then ucast (now + closed_timeout) else timeout)
             in if support_fin_ack s \<and> state s = TCP_TIME_WAIT
                then Some (True, min t1 (ucast (now + TIME_WAIT_TIMEOUT)), s)
                else if state s = TCP_CLOSED \<and> \<not> support_fin_ack s
                then Some (True, min t1 (ucast (now + CLOSED_TIMEOUT)), s)
                else
                  let t2 = min t1 (ucast (now + DEFAULT_TIMEOUT));
                      t3 = (if t_ack s \<noteq> 0 then min t2 (ucast (t_ack s + ack_delay s)) else t2);
                      t4 = (if rto_base s \<noteq> 0 then min t3 (ucast (rto_base s + rx_rto s)) else t3);
                      t5 = (if snd_wnd s = 0 then min t4 (ucast (lastsend s + rx_rto s)) else t4)
                  in Some (True, t5, s))"

subsection \<open>Reading\<close>

datatype recv_result = Recv_error | Recv_bytes "u8 list"

definition pseudo_tcp_socket_recv :: "nat \<Rightarrow> PseudoTcpSocket \<Rightarrow> (recv_result \<times> PseudoTcpSocket) option" where
  "pseudo_tcp_socket_recv len s =
     (if support_fin_ack s \<and> shutdown_reads s then Some (Recv_bytes [], s)
      else if \<not> support_fin_ack s \<and> pseudo_tcp_socket_is_closed s then Some (Recv_bytes [], s)
      else if \<not> support_fin_ack s \<and> state s \<noteq> TCP_ESTABLISHED
      then Some (Recv_error, s\<lparr>sock_error := ENOTCONN\<rparr>)
      else if len = 0 then Some (Recv_bytes [], s)
      else do {
        (bytes, b) \<leftarrow> pseudo_tcp_fifo_read (rbuf s) len;
        let s1 = s\<lparr>rbuf := b\<rparr>;
        if bytes = [] \<and> \<not> (pseudo_tcp_state_has_received_fin (state s1)
                          \<or> pseudo_tcp_state_has_received_fin_ack (state s1))
        then Some (Recv_error, s1\<lparr>bReadEnable := True, sock_error := EWOULDBLOCK\<rparr>)
        else
          let available_space = pseudo_tcp_fifo_get_write_remaining (rbuf s1)
          in if size_sub available_space (unat (rcv_wnd s1)) \<ge> unat (min (rbuf_len s1 div 2) (mss s1)) then
               (let s2 = s1\<lparr>rcv_wnd := word_of_nat available_space\<rparr>
                in if rcv_wnd s1 = 0
                   then do { s3 \<leftarrow> attempt_send sfImmediateAck s2; Some (Recv_bytes bytes, s3) }
                   else Some (Recv_bytes bytes, s2))
             else Some (Recv_bytes bytes, s1)
      })"

subsection \<open>Properties of the socket and its end\<close>

datatype tcp_property = PROP_CONVERSATION u32 | PROP_CALLBACKS PseudoTcpCallbacks
  | PROP_STATE PseudoTcpState | PROP_ACK_DELAY u32 | PROP_NO_DELAY bool | PROP_RCV_BUF u32
  | PROP_SND_BUF u32 | PROP_SUPPORT_FIN_ACK bool

text \<open>Reading a property; the argument only selects the property.\<close>

fun pseudo_tcp_socket_get_property :: "tcp_property \<Rightarrow> PseudoTcpSocket \<Rightarrow> tcp_property" where
  "pseudo_tcp_socket_get_property (PROP_CONVERSATION _) s = PROP_CONVERSATION (conv s)"
| "pseudo_tcp_socket_get_property (PROP_CALLBACKS _) s = PROP_CALLBACKS (callbacks s)"
| "pseudo_tcp_socket_get_property (PROP_STATE _) s = PROP_STATE (state s)"
| "pseudo_tcp_socket_get_property (PROP_ACK_DELAY _) s = PROP_ACK_DELAY (ack_delay s)"
| "pseudo_tcp_socket_get_property (PROP_NO_DELAY _) s = PROP_NO_DELAY (use_nagling s)"
| "pseudo_tcp_socket_get_property (PROP_RCV_BUF _) s = PROP_RCV_BUF (rbuf_len s)"
| "pseudo_tcp_socket_get_property (PROP_SND_BUF _) s = PROP_SND_BUF (sbuf_len s)"
| "pseudo_tcp_socket_get_property (PROP_SUPPORT_FIN_ACK _) s = PROP_SUPPORT_FIN_ACK (support_fin_ack s)"

fun pseudo_tcp_socket_set_property :: "tcp_property \<Rightarrow> PseudoTcpSocket \<Rightarrow> PseudoTcpSocket option" where
  "pseudo_tcp_socket_set_property (PROP_CONVERSATION v) s = Some (s\<lparr>conv := v\<rparr>)"
| "pseudo_tcp_socket_set_property (PROP_CALLBACKS v) s = Some (s\<lparr>callbacks := v\<rparr>)"
| "pseudo_tcp_socket_set_property (PROP_STATE v) s = Some s"
| "pseudo_tcp_socket_set_property (PROP_ACK_DELAY v) s = Some (s\<lparr>ack_delay := v\<rparr>)"
| "pseudo_tcp_socket_set_property (PROP_NO_DELAY v) s = Some (s\<lparr>use_nagling := \<not> v\<rparr>)"
| "pseudo_tcp_socket_set_property (PROP_RCV_BUF v) s =
     (if state s \<noteq> TCP_LISTEN then Some s else resize_receive_buffer v s)"
| "pseudo_tcp_socket_set_property (PROP_SND_BUF v) s =
     (if state s \<noteq> TCP_LISTEN then Some s else resize_send_buffer v s)"
| "pseudo_tcp_socket_set_property (PROP_SUPPORT_FIN_ACK v) s = Some (s\<lparr>support_fin_ack := v\<rparr>)"

definition pseudo_tcp_socket_finalize :: "PseudoTcpSocket \<Rightarrow> PseudoTcpSocket" where
  "pseudo_tcp_socket_finalize s =
     s\<lparr>ssegs := (\<lambda>i. if i \<in> set (slist s) then None else ssegs s i), slist := [], unsent_slist := [],
       rlist := [], rbuf := pseudo_tcp_fifo_clear (rbuf s), sbuf := pseudo_tcp_fifo_clear (sbuf s)\<rparr>"

end
