(* ===== verification/PseudoTcpState.thy ===== *)
theory PseudoTcpState
  imports PseudoTcpRecv
begin

text \<open>
  The connection state machine of the pseudo-TCP socket, the wire format of its packets and the
  negotiation of options. The lemmas on single functions say which part of the state they leave
  alone; they are stated with \<open>wlp\<close> so that they compose along the code.
\<close>

unbundle bit_operations_syntax

subsection \<open>Paths through the state machine\<close>

text \<open>
  The assertion of \<^verbatim>\<open>set_state\<close> admits the whole diagram of RFC 793, in which every state can
  be reached from every other. The operations use only its \<open>forward_transition\<close>s: those that
  neither leave \<^verbatim>\<open>CLOSED\<close> nor go back to \<^verbatim>\<open>LISTEN\<close>, and without the simultaneous open.
  \<open>tcp_path a b\<close>: the state \<open>b\<close> is reached from \<open>a\<close> by such transitions.
\<close>

definition forward_transition :: "PseudoTcpState \<Rightarrow> PseudoTcpState \<Rightarrow> bool" where
  "forward_transition a b \<longleftrightarrow>
     valid_transition a b \<and> a \<noteq> TCP_CLOSED \<and> b \<noteq> TCP_LISTEN \<and> (b = TCP_SYN_RECEIVED \<longrightarrow> a = TCP_LISTEN)"

inductive tcp_path :: "PseudoTcpState \<Rightarrow> PseudoTcpState \<Rightarrow> bool" where
  path_refl: "tcp_path a a"
| path_step: "tcp_path a b \<Longrightarrow> forward_transition b c \<Longrightarrow> tcp_path a c"

lemma tcp_path_trans: "tcp_path b c \<Longrightarrow> tcp_path a b \<Longrightarrow> tcp_path a c"
  by (induction rule: tcp_path.induct) (auto intro: tcp_path.intros)

lemma tcp_path_one: "forward_transition a b \<Longrightarrow> tcp_path a b"
  by (rule path_step [OF path_refl])

lemma state_update_id: "state s = n \<Longrightarrow> s\<lparr>state := n\<rparr> = s"
  by (cases s) simp

lemma set_state_eq_Some: "valid_transition (state s) n \<Longrightarrow> set_state n s = Some (s\<lparr>state := n\<rparr>)"
  by (simp add: set_state_def)

lemma set_state_same: "n = state s \<Longrightarrow> set_state n s = Some s"
  by (simp add: set_state_def)

lemma valid_transition_iff:
  "valid_transition a b \<longleftrightarrow> (case a of
      TCP_LISTEN \<Rightarrow> b = TCP_CLOSED \<or> b = TCP_SYN_SENT \<or> b = TCP_SYN_RECEIVED
    | TCP_SYN_SENT \<Rightarrow> b = TCP_CLOSED \<or> b = TCP_SYN_RECEIVED \<or> b = TCP_ESTABLISHED
    | TCP_SYN_RECEIVED \<Rightarrow> b = TCP_ESTABLISHED \<or> b = TCP_FIN_WAIT_1 \<or> b = TCP_LISTEN
    | TCP_ESTABLISHED \<Rightarrow> b = TCP_FIN_WAIT_1 \<or> b = TCP_CLOSE_WAIT
    | TCP_CLOSED \<Rightarrow> b = TCP_SYN_SENT \<or> b = TCP_LISTEN
    | TCP_FIN_WAIT_1 \<Rightarrow> b = TCP_FIN_WAIT_2 \<or> b = TCP_CLOSING \<or> b = TCP_TIME_WAIT
    | TCP_FIN_WAIT_2 \<Rightarrow> b = TCP_TIME_WAIT
    | TCP_CLOSING \<Rightarrow> b = TCP_TIME_WAIT
    | TCP_TIME_WAIT \<Rightarrow> b = TCP_CLOSED
    | TCP_CLOSE_WAIT \<Rightarrow> b = TCP_LAST_ACK
    | TCP_LAST_ACK \<Rightarrow> b = TCP_CLOSED)"
  by (cases a; cases b) (simp_all add: valid_transition_def)

lemma forward_transition_iff:
  "forward_transition a b \<longleftrightarrow> (case a of
      TCP_LISTEN \<Rightarrow> b = TCP_CLOSED \<or> b = TCP_SYN_SENT \<or> b = TCP_SYN_RECEIVED
    | TCP_SYN_SENT \<Rightarrow> b = TCP_CLOSED \<or> b = TCP_ESTABLISHED
    | TCP_SYN_RECEIVED \<Rightarrow> b = TCP_ESTABLISHED \<or> b = TCP_FIN_WAIT_1
    | TCP_ESTABLISHED \<Rightarrow> b = TCP_FIN_WAIT_1 \<or> b = TCP_CLOSE_WAIT
    | TCP_CLOSED \<Rightarrow> False
    | TCP_FIN_WAIT_1 \<Rightarrow> b = TCP_FIN_WAIT_2 \<or> b = TCP_CLOSING \<or> b = TCP_TIME_WAIT
    | TCP_FIN_WAIT_2 \<Rightarrow> b = TCP_TIME_WAIT
    | TCP_CLOSING \<Rightarrow> b = TCP_TIME_WAIT
    | TCP_TIME_WAIT \<Rightarrow> b = TCP_CLOSED
    | TCP_CLOSE_WAIT \<Rightarrow> b = TCP_LAST_ACK
    | TCP_LAST_ACK \<Rightarrow> b = TCP_CLOSED)"
  by (cases a; cases b) (simp_all add: forward_transition_def valid_transition_def)

text \<open>The walk of \<^verbatim>\<open>closedown\<close> never trips the assertion of \<^verbatim>\<open>set_state\<close>.\<close>

definition closed_socket :: "errno \<Rightarrow> PseudoTcpSocket \<Rightarrow> PseudoTcpSocket" where
  "closed_socket err s =
     (let s1 = s\<lparr>state := TCP_CLOSED\<rparr>
      in if cb_Closed (callbacks s) \<and> err \<noteq> E_OK then emit (Closed err) s1 else s1)"

lemma closedown_walk_eq: "closedown_walk err s = Some (closed_socket err s)"
  by (cases "state s")
    (simp_all add: closedown_walk_def set_state_closed_def set_state_def valid_transition_iff
      closed_socket_def Let_def state_update_id)

lemma closed_socket_state [simp]: "state (closed_socket err s) = TCP_CLOSED"
  by (simp add: closed_socket_def Let_def emit_def)

lemma tcp_path_CLOSED: "tcp_path a TCP_CLOSED"
proof -
  have tw: "tcp_path TCP_TIME_WAIT TCP_CLOSED" "tcp_path TCP_LAST_ACK TCP_CLOSED"
    by (rule tcp_path_one, simp add: forward_transition_iff)+
  have fw: "tcp_path TCP_FIN_WAIT_2 TCP_CLOSED" "tcp_path TCP_CLOSING TCP_CLOSED"
    "tcp_path TCP_FIN_WAIT_1 TCP_CLOSED" "tcp_path TCP_CLOSE_WAIT TCP_CLOSED"
    by (rule tcp_path_trans [OF tw(1)] tcp_path_trans [OF tw(2)], rule tcp_path_one,
        simp add: forward_transition_iff)+
  have es: "tcp_path TCP_ESTABLISHED TCP_CLOSED" "tcp_path TCP_SYN_RECEIVED TCP_CLOSED"
    by (rule tcp_path_trans [OF fw(3)], rule tcp_path_one, simp add: forward_transition_iff)+
  have "tcp_path TCP_LISTEN TCP_CLOSED" "tcp_path TCP_SYN_SENT TCP_CLOSED"
    by (rule tcp_path_one, simp add: forward_transition_iff)+
  then show ?thesis using tw fw es path_refl by (cases a) simp_all
qed

text \<open>The target states other than those of the opening handshake have no backward transition.\<close>

lemma set_state_wlp:
  assumes "n = TCP_SYN_SENT \<or> n = TCP_SYN_RECEIVED \<Longrightarrow> state s = TCP_LISTEN" and "n \<noteq> TCP_LISTEN"
  shows "wlp (set_state n s) (\<lambda>s'. s' = s\<lparr>state := n\<rparr> \<and> tcp_path (state s) n)"
proof (cases "n = state s")
  case True
  then show ?thesis by (simp add: set_state_def wp_simps path_refl state_update_id)
next
  case False
  have "valid_transition (state s) n \<Longrightarrow> forward_transition (state s) n"
    using assms by (auto simp: forward_transition_def valid_transition_iff)
  with False show ?thesis by (simp add: set_state_def wp_simps tcp_path_one)
qed

lemma tcp_path_from_CLOSED: "tcp_path a b \<Longrightarrow> a = TCP_CLOSED \<Longrightarrow> b = TCP_CLOSED"
  by (induction rule: tcp_path.induct) (simp_all add: forward_transition_def)

subsection \<open>What sending may change\<close>

text \<open>
  \<open>send_frame s s'\<close>: the socket \<open>s'\<close> differs from \<open>s\<close> only in the fields that the
  transmission of segments writes.
\<close>

definition send_frame :: "PseudoTcpSocket \<Rightarrow> PseudoTcpSocket \<Rightarrow> bool" where
  "send_frame s s' \<longleftrightarrow> (\<exists>tl p ta ls lt bo ml m c sl ul sg ns sn rb.
     s' = s\<lparr>ts_lastack := tl, packets := p, t_ack := ta, lastsend := ls, last_traffic := lt,
            bOutgoing := bo, msslevel := ml, mss := m, cwnd := c, slist := sl, unsent_slist := ul,
            ssegs := sg, next_sseg := ns, snd_nxt := sn, rto_base := rb\<rparr>)"

lemma send_frameI:
  assumes "s' = s\<lparr>ts_lastack := ts_lastack s', packets := packets s', t_ack := t_ack s',
     lastsend := lastsend s', last_traffic := last_traffic s', bOutgoing := bOutgoing s',
     msslevel := msslevel s', mss := mss s', cwnd := cwnd s', slist := slist s',
     unsent_slist := unsent_slist s', ssegs := ssegs s', next_sseg := next_sseg s',
     snd_nxt := snd_nxt s', rto_base := rto_base s'\<rparr>"
  shows "send_frame s s'"
  unfolding send_frame_def using assms by (intro exI)

lemma send_frame_refl [simp]: "send_frame s s"
  by (rule send_frameI) simp

lemma send_frame_trans: "send_frame s s' \<Longrightarrow> send_frame s' s'' \<Longrightarrow> send_frame s s''"
  unfolding send_frame_def by (elim exE, hypsubst, intro exI) simp

lemma send_frameD:
  assumes "send_frame s s'"
  shows "state s' = state s" "events s' = events s" "callbacks s' = callbacks s"
    "sbuf s' = sbuf s" "rbuf s' = rbuf s" "rlist s' = rlist s" "rcv_nxt s' = rcv_nxt s"
    "rcv_wnd s' = rcv_wnd s" "snd_una s' = snd_una s" "support_fin_ack s' = support_fin_ack s"
    "rwnd_scale s' = rwnd_scale s" "swnd_scale s' = swnd_scale s" "shutdown s' = shutdown s"
    "conv s' = conv s" "mono_clock s' = mono_clock s" "current_time s' = current_time s"
    "dup_acks s' = dup_acks s" "heap_junk s' = heap_junk s" "rx_rto s' = rx_rto s"
    "rcv_fin s' = rcv_fin s" "snd_wnd s' = snd_wnd s" "rbuf_len s' = rbuf_len s"
    "ts_recent s' = ts_recent s" "bReadEnable s' = bReadEnable s"
  using assms unfolding send_frame_def by (elim exE, simp)+

lemma packet_frame:
  "wlp (packet sq fl off len now s) (\<lambda>(r, s'). send_frame s s' \<and> slist s' = slist s
     \<and> unsent_slist s' = unsent_slist s \<and> ssegs s' = ssegs s \<and> mss s' = mss s)"
  by (simp add: packet_def Let_def wp_simps send_frameI)

lemma shrink_mss_frame:
  "shrink_mss n s = (r, s') \<Longrightarrow> send_frame s s' \<and> slist s' = slist s
     \<and> unsent_slist s' = unsent_slist s \<and> ssegs s' = ssegs s"
proof (induction n s rule: shrink_mss.induct)
  case (1 n s)
  let ?m = "PACKET_MAXIMUMS ! (msslevel s + 1) - PACKET_OVERHEAD"
  let ?s = "s\<lparr>msslevel := msslevel s + 1, mss := ?m, cwnd := 2 * ?m\<rparr>"
  have f: "send_frame s ?s" by (rule send_frameI) simp
  show ?case
  proof (cases "\<not> msslevel s + 1 < length PACKET_MAXIMUMS \<or> PACKET_MAXIMUMS ! (msslevel s + 1) = 0")
    case True
    with 1(2) show ?thesis by (simp add: shrink_mss.simps [of n s])
  next
    case a: False
    show ?thesis
    proof (cases "?m < n")
      case True
      with a 1(2) f show ?thesis by (auto simp: shrink_mss.simps [of n s] Let_def)
    next
      case False
      with a 1(2) have "shrink_mss n ?s = (r, s')" by (simp add: shrink_mss.simps [of n s] Let_def)
      from 1(1) [OF a refl refl False this] send_frame_trans [OF f] show ?thesis by simp
    qed
  qed
qed

lemma transmit_loop_frame:
  "wlp (transmit_loop i n now s) (\<lambda>(r, s'). send_frame s s' \<and> slist s' = slist s
     \<and> unsent_slist s' = unsent_slist s \<and> ssegs s' = ssegs s)"
proof (induction i n now s rule: transmit_loop.induct)
  case (1 i n now s)
  show ?case
  proof (rule wlpI)
    fix x assume x: "transmit_loop i n now s = Some x"
    then obtain g wres s1 where g: "ssegs s i = Some g" "sseg_seq g - snd_una s \<le> 1024 * 1024 * 64"
      and p: "packet (sseg_seq g) (sseg_flags g) (sseg_seq g - snd_una s) n now s = Some (wres, s1)"
      by (subst (asm) transmit_loop.simps) (auto simp only: bind_Some c_assert_eq_Some)
    from wlpD [OF packet_frame p]
    have f: "send_frame s s1 \<and> slist s1 = slist s \<and> unsent_slist s1 = unsent_slist s \<and> ssegs s1 = ssegs s"
      by simp
    show "case x of (r, s') \<Rightarrow> send_frame s s' \<and> slist s' = slist s
       \<and> unsent_slist s' = unsent_slist s \<and> ssegs s' = ssegs s"
    proof (cases wres)
      case WR_TOO_LARGE
      obtain m s2 where m: "shrink_mss n s1 = (m, s2)" by fastforce
      from shrink_mss_frame [OF m] f
      have f2: "send_frame s s2 \<and> slist s2 = slist s \<and> unsent_slist s2 = unsent_slist s \<and> ssegs s2 = ssegs s"
        using send_frame_trans by metis
      show ?thesis
      proof (cases m)
        case None
        with x g p m WR_TOO_LARGE f2 show ?thesis by (subst (asm) transmit_loop.simps) auto
      next
        case (Some k)
        with x g p m WR_TOO_LARGE have "transmit_loop i k now s2 = Some x"
          by (subst (asm) transmit_loop.simps) simp
        moreover have "wlp (transmit_loop i k now s2) (\<lambda>(r, s'). send_frame s2 s' \<and> slist s' = slist s2
            \<and> unsent_slist s' = unsent_slist s2 \<and> ssegs s' = ssegs s2)"
          using "1.IH" [OF g(1) _ p refl WR_TOO_LARGE m [symmetric] Some, of "()"] g(2) by simp
        ultimately show ?thesis using f2 send_frame_trans by (auto simp: wlp_def)
      qed
    next
      case WR_SUCCESS
      with x g p f show ?thesis by (subst (asm) transmit_loop.simps) auto
    next
      case WR_FAIL
      with x g p f show ?thesis by (subst (asm) transmit_loop.simps) auto
    qed
  qed
qed

lemma transmit_split_frame: "wlp (transmit_split i n s) (\<lambda>s'. send_frame s s')"
  by (simp add: transmit_split_def Let_def wp_simps sseg_new_def sseg_upd_def send_frameI wlpI)

lemma transmit_account_frame: "wlp (transmit_account i now s) (\<lambda>s'. send_frame s s')"
  by (simp add: transmit_account_def Let_def wp_simps sseg_upd_def send_frameI wlpI)

lemma transmit_frame: "wlp (transmit i now s) (\<lambda>(r, s'). send_frame s s')"
proof -
  have fin: "wlp (do { s2 \<leftarrow> transmit_split i n s1; s3 \<leftarrow> transmit_account i now s2; Some (E_OK, s3) })
      (\<lambda>(r, s'). send_frame s s')" if "send_frame s s1" for n s1
    using that by (intro wlp_bindI [OF transmit_split_frame] wlp_bindI [OF transmit_account_frame] wlp_ret)
      (simp, blast intro: send_frame_trans)
  have "wlp (transmit_loop i n now s) (\<lambda>(r, s'). send_frame s s')" for n
    by (rule wlp_mono [OF transmit_loop_frame]) (simp add: case_prod_beta)
  then have loop: "wlp (transmit_loop i n now s \<bind> (\<lambda>(r, s1). case r of Inl err \<Rightarrow> Some (err, s1)
         | Inr n \<Rightarrow> do { s2 \<leftarrow> transmit_split i n s1; s3 \<leftarrow> transmit_account i now s2; Some (E_OK, s3) }))
      (\<lambda>(r, s'). send_frame s s')" for n
    by (rule wlp_bind_prodI) (simp only: wp_sum wlp_basic(2) case_prod_conv fin simp_thms split: sum.split)
  show ?thesis
    unfolding transmit_def Let_def
    by (intro wlp_bindI [OF wlp_True]) (simp add: wp_simps(7,8) wlp_basic(2) loop)
qed

lemma split_unsent_frame: "wlp (split_unsent i n s) (\<lambda>s'. send_frame s s')"
  by (simp add: split_unsent_def Let_def wp_simps sseg_new_def sseg_upd_def send_frameI wlpI)

text \<open>\<open>sent_or_closed s s'\<close>: the socket sent segments, and may then have been closed by an error.\<close>

definition sent_or_closed :: "PseudoTcpSocket \<Rightarrow> PseudoTcpSocket \<Rightarrow> bool" where
  "sent_or_closed s s' \<longleftrightarrow> (\<exists>s1. send_frame s s1 \<and> (s' = s1 \<or> (\<exists>err. s' = closed_socket err s1)))"

lemma sent_or_closed_frame: "send_frame s s' \<Longrightarrow> sent_or_closed s s'"
  by (auto simp: sent_or_closed_def)

lemma sent_or_closed_trans: "send_frame s s1 \<Longrightarrow> sent_or_closed s1 s' \<Longrightarrow> sent_or_closed s s'"
  unfolding sent_or_closed_def by (blast intro: send_frame_trans)

lemma sent_or_closed_walk:
  "send_frame s s1 \<Longrightarrow> wlp (closedown_walk err s1) (sent_or_closed s)"
  unfolding closedown_walk_eq by (rule wlp_ret) (auto simp: sent_or_closed_def)

lemma packet_send_frame: "wlp (packet sq fl off len now s) (\<lambda>(r, s'). send_frame s s')"
  by (rule wlp_mono [OF packet_frame]) (simp add: case_prod_beta)

lemma attempt_send_loop_frame: "wlp (attempt_send_loop fuel sflags now s) (sent_or_closed s)"
proof (induction fuel arbitrary: sflags s)
  case 0
  show ?case by (simp add: wp_simps)
next
  case (Suc fuel)
  have IH: "wlp (attempt_send_loop fuel f now s1) (sent_or_closed s)" if "send_frame s s1" for f s1
    by (rule wlp_mono [OF Suc]) (rule sent_or_closed_trans [OF that])
  have pk: "wlp (packet (snd_nxt s) 0 0 0 now s \<bind> (\<lambda>(_, s1). k s1)) (sent_or_closed s)"
    if "\<And>s1. send_frame s s1 \<Longrightarrow> wlp (k s1) (sent_or_closed s)" for k
    by (rule wlp_bind_prodI [OF packet_send_frame]) (rule that)
  have tr: "wlp (transmit i now s1 \<bind> (\<lambda>(r, s2). if r \<noteq> E_OK then closedown_walk r s2
             else attempt_send_loop fuel f now s2)) (sent_or_closed s)" if "send_frame s s1" for i s1 f
    using that
    by (intro wlp_bind_prodI [OF transmit_frame]) (simp add: wp_if sent_or_closed_walk IH send_frame_trans)
  have sp: "wlp (if c then split_unsent i n s else Some s) (send_frame s)" for c i n
    using split_unsent_frame [of i n s] by (simp add: wp_simps)
  have one: "wlp (do { g \<leftarrow> ssegs s i;
             s1 \<leftarrow> (if c g then split_unsent i n s else Some s);
             (r, s2) \<leftarrow> transmit i now s1;
             if r \<noteq> E_OK then closedown_walk r s2 else attempt_send_loop fuel f now s2
           }) (sent_or_closed s)" for i n c f
    by (intro wlp_bindI [OF wlp_True] wlp_bindI [OF sp] tr)
  have t: "sent_or_closed s (s\<lparr>t_ack := now\<rparr>)"
    by (intro sent_or_closed_frame send_frameI) simp
  show ?case
    unfolding attempt_send_loop.simps Let_def
    by (simp only: wp_if wp_option wlp_basic(2) split: if_split option.split)
      (intro conjI impI allI pk one IH t wlp_ret sent_or_closed_frame send_frame_refl; assumption)
qed

lemma attempt_send_frame: "wlp (attempt_send sflags s) (sent_or_closed s)"
proof -
  have "send_frame s (s\<lparr>cwnd := c\<rparr>)" for c by (rule send_frameI) simp
  then have f: "send_frame s (if b then s\<lparr>cwnd := c\<rparr> else s)" for b c by simp
  show ?thesis
    unfolding attempt_send_def Let_def
    by (rule wlp_mono [OF attempt_send_loop_frame]) (rule sent_or_closed_trans [OF f])
qed

subsection \<open>The state along every operation\<close>

text \<open>
  Each lemma says that an operation continues a path that has led to the socket's state; the
  collection \<open>path_rules\<close> lets the proofs of the callers follow their code.
\<close>

named_theorems path_rules \<open>operations continue a path of the state machine\<close>

lemma tcp_path_to_CLOSED: "tcp_path a b \<Longrightarrow> tcp_path a TCP_CLOSED"
  by (rule tcp_path_trans [OF tcp_path_CLOSED])

lemma sent_or_closed_path: "sent_or_closed s s' \<Longrightarrow> tcp_path a (state s) \<Longrightarrow> tcp_path a (state s')"
  unfolding sent_or_closed_def by (auto dest: send_frameD(1) intro: tcp_path_to_CLOSED)

lemma attempt_send_path [path_rules]:
  "tcp_path a (state s) \<Longrightarrow> wlp (attempt_send f s) (\<lambda>s'. tcp_path a (state s'))"
  by (rule wlp_mono [OF attempt_send_frame]) (rule sent_or_closed_path)

lemma transmit_path [path_rules]:
  "tcp_path a (state s) \<Longrightarrow> wlp (transmit i now s) (\<lambda>(r, s'). tcp_path a (state s'))"
  by (rule wlp_mono [OF transmit_frame]) (auto dest: send_frameD(1))

lemma packet_path [path_rules]:
  "tcp_path a (state s) \<Longrightarrow> wlp (packet sq fl off len now s) (\<lambda>(r, s'). tcp_path a (state s'))"
  by (rule wlp_mono [OF packet_send_frame]) (auto dest: send_frameD(1))

lemma closedown_walk_path [path_rules]:
  "tcp_path a (state s) \<Longrightarrow> wlp (closedown_walk err s) (\<lambda>s'. tcp_path a (state s'))"
  by (simp add: closedown_walk_eq wp_simps tcp_path_to_CLOSED)

lemma set_state_path:
  assumes "n = TCP_SYN_SENT \<or> n = TCP_SYN_RECEIVED \<Longrightarrow> state s = TCP_LISTEN" and "n \<noteq> TCP_LISTEN"
    and "tcp_path a (state s)"
  shows "wlp (set_state n s) (\<lambda>s'. tcp_path a (state s'))"
  by (rule wlp_mono [OF set_state_wlp]) (use assms in \<open>auto intro: tcp_path_trans\<close>)

lemma state_if [simp]: "state (if b then s else s') = (if b then state s else state s')"
  by simp

lemma emit_state [simp]: "state (emit e s) = state s"
  by (simp add: emit_def)

lemma adjustMTU_state [simp]: "state (adjustMTU s) = state s"
  by (simp add: adjustMTU_def Let_def)

lemma set_state_closed_path [path_rules]:
  "tcp_path a (state s) \<Longrightarrow> wlp (set_state_closed err s) (\<lambda>s'. tcp_path a (state s'))"
  unfolding set_state_closed_def by (rule wlp_bindI [OF set_state_path]) (simp_all add: wp_simps cong: if_cong)

lemma set_state_established_path [path_rules]:
  "tcp_path a (state s) \<Longrightarrow> wlp (set_state_established s) (\<lambda>s'. tcp_path a (state s'))"
  unfolding set_state_established_def by (rule wlp_bindI [OF set_state_path]) (simp_all add: wp_simps Let_def)

lemma queue_state: "wlp (queue data len flags s) (\<lambda>(n, s'). state s' = state s)"
  by (simp add: queue_def Let_def wp_simps queue_new_segment_def sseg_new_def sseg_upd_def wlpI
      split: option.split)

lemma queue_path [path_rules]:
  "tcp_path a (state s) \<Longrightarrow> wlp (queue data len flags s) (\<lambda>(n, s'). tcp_path a (state s'))"
  by (rule wlp_mono [OF queue_state]) auto

lemma queue_message_path [path_rules]:
  assumes "tcp_path a (state s)"
  shows "wlp (queue_connect_message s) (\<lambda>s'. tcp_path a (state s'))"
    "wlp (queue_fin_message s) (\<lambda>s'. tcp_path a (state s'))"
    "wlp (queue_rst_message s) (\<lambda>s'. tcp_path a (state s'))"
proof -
  have q: "wlp (queue d n f s1 \<bind> (\<lambda>(_, s2). Some s2)) (\<lambda>s'. tcp_path a (state s'))"
    if "state s1 = state s" for d n f s1
    by (rule wlp_bind_prodI [OF queue_path [of a]]) (simp_all add: wp_simps assms that)
  show "wlp (queue_connect_message s) (\<lambda>s'. tcp_path a (state s'))"
    "wlp (queue_fin_message s) (\<lambda>s'. tcp_path a (state s'))"
    "wlp (queue_rst_message s) (\<lambda>s'. tcp_path a (state s'))"
    unfolding queue_connect_message_def queue_fin_message_def queue_rst_message_def Let_def
    by (rule q wlp_bindI [OF wlp_True, OF q], simp)+
qed

lemmas path_bind = wlp_bindI [where P = "\<lambda>s. tcp_path a (state s)"] for a
lemmas path_bind2 = wlp_bind_prodI [where P = "\<lambda>r s. tcp_path a (state s)"] for a
lemmas path_bind3 = wlp_bind_prod3I [where P = "\<lambda>r q s. tcp_path a (state s)"] for a

lemma wlp_read: "(\<And>x. wlp (f x) Q) \<Longrightarrow> wlp (Option.bind m f) Q"
  by (rule wlp_bindI [OF wlp_True])

lemma wlp_read2: "(\<And>x y. wlp (f x y) Q) \<Longrightarrow> wlp (Option.bind m (\<lambda>(x, y). f x y)) Q"
  by (rule wlp_read) (simp split: prod.split)

lemmas wlp_code = wlp_ret wlp_ifI path_bind3 path_bind2 path_bind wlp_read2 wlp_read

lemma closedown_path [path_rules]:
  "tcp_path a (state s) \<Longrightarrow> wlp (closedown err src s) (\<lambda>s'. tcp_path a (state s'))"
  unfolding closedown_def Let_def
  by (rule path_rules wlp_code | assumption | simp)+

lemma connect_path [path_rules]:
  "tcp_path a (state s) \<Longrightarrow> wlp (pseudo_tcp_socket_connect s) (\<lambda>(r, s'). tcp_path a (state s'))"
  unfolding pseudo_tcp_socket_connect_def Let_def
  by (rule path_rules set_state_path wlp_code | assumption | simp)+

lemma send_path [path_rules]:
  "tcp_path a (state s) \<Longrightarrow> wlp (pseudo_tcp_socket_send buf len s) (\<lambda>(r, s'). tcp_path a (state s'))"
  unfolding pseudo_tcp_socket_send_def Let_def
  by (rule path_rules wlp_code | assumption | simp)+

lemma shutdown_path [path_rules]:
  assumes "tcp_path a (state s)"
  shows "wlp (pseudo_tcp_socket_shutdown how s) (\<lambda>s'. tcp_path a (state s'))"
proof -
  define s1 where "s1 = (if how = PSEUDO_TCP_SHUTDOWN_RD \<or> how = PSEUDO_TCP_SHUTDOWN_RDWR
                  then s\<lparr>shutdown_reads := True\<rparr> else s)"
  have s1: "tcp_path a (state s1)" using assms by (simp add: s1_def)
  show ?thesis
    unfolding pseudo_tcp_socket_shutdown_def Let_def s1_def [symmetric]
    by (rule s1 path_rules set_state_path wlp_code | assumption | simp add: assms)+
qed

lemma close_path [path_rules]:
  "tcp_path a (state s) \<Longrightarrow> wlp (pseudo_tcp_socket_close force s) (\<lambda>s'. tcp_path a (state s'))"
  unfolding pseudo_tcp_socket_close_def by (rule path_rules wlp_code | assumption)+

lemma resize_buffer_path [path_rules]:
  assumes "tcp_path a (state s)"
  shows "wlp (resize_receive_buffer n s) (\<lambda>s'. tcp_path a (state s'))"
    "wlp (resize_send_buffer n s) (\<lambda>s'. tcp_path a (state s'))"
  using assms
  by (simp_all add: resize_receive_buffer_def resize_send_buffer_def wp_simps Let_def case_prod_beta)

lemma apply_option_state [simp]: "state (apply_option k d s) = state s"
  by (simp add: apply_option_def apply_window_scale_option_def apply_fin_ack_option_def split: list.split)

lemma parse_options_loop_state:
  "parse_options_loop d pos ws fa s = (c, ws', fa', s') \<Longrightarrow> state s' = state s"
proof (induction d pos ws fa s rule: parse_options_loop.induct)
  case (1 d pos ws fa s)
  then show ?case
    by (subst (asm) (2) parse_options_loop.simps) (auto simp: Let_def split: if_splits)
qed

lemma parse_options_path [path_rules]:
  assumes "tcp_path a (state s)"
  shows "wlp (parse_options d s) (\<lambda>s'. tcp_path a (state s'))"
proof -
  obtain c ws fa s1 where l: "parse_options_loop d 0 False False s = (c, ws, fa, s1)"
    by (cases "parse_options_loop d 0 False False s") auto
  with assms have p: "tcp_path a (state s1)" by (simp add: parse_options_loop_state [OF l])
  show ?thesis
    unfolding parse_options_def l Let_def case_prod_conv
    by (rule p path_rules wlp_code | assumption | simp add: p)+
qed

lemma process_ctl_path [path_rules]:
  "tcp_path a (state s) \<Longrightarrow> wlp (process_ctl seg s) (\<lambda>(ok, c, s'). tcp_path a (state s'))"
  unfolding process_ctl_def Let_def
  by (rule path_rules set_state_path wlp_code | assumption | simp)+

lemma process_ts_state [simp]: "state (process_ts seg s) = state s"
  by (simp add: process_ts_def)

lemma process_writable_state [simp]: "state (process_writable s) = state s"
  by (simp add: process_writable_def Let_def)

lemma process_rtt_state [simp]: "state (snd (process_rtt seg now s)) = state s"
  by (simp add: process_rtt_def Let_def)

lemma free_acked_state: "wlp (free_acked n s) (\<lambda>s'. state s' = state s)"
proof (induction n s rule: free_acked.induct)
  case (1 n s)
  show ?case
  proof (cases "slist s")
    case Nil
    then show ?thesis by (subst free_acked.simps) (simp add: wp_simps)
  next
    case (Cons i rest)
    have IH: "wlp (free_acked (n - sseg_len g) (s\<lparr>largest := l, ssegs := m, slist := rest\<rparr>))
        (\<lambda>s'. state s' = state s)"
      if "n > 0" "ssegs s i = Some g" "\<not> n < sseg_len g"
        "l = (if sseg_len g > largest s then sseg_len g else largest s)" "m = (ssegs s)(i := None)" for g l m
      using "1" [OF that(1) Cons that(2,3)] that(4,5) by simp
    show ?thesis
    proof (cases "ssegs s i")
      case None
      with Cons show ?thesis by (subst free_acked.simps) (simp add: wp_simps)
    next
      case (Some g)
      with Cons IH [OF _ Some _ refl refl] show ?thesis
        by (subst free_acked.simps) (simp add: wp_simps sseg_upd_def)
    qed
  qed
qed

lemma free_acked_path [path_rules]:
  "tcp_path a (state s) \<Longrightarrow> wlp (free_acked n s) (\<lambda>s'. tcp_path a (state s'))"
  by (rule wlp_mono [OF free_acked_state]) simp

lemma ack_advance_path [path_rules]:
  "tcp_path a (state s) \<Longrightarrow> wlp (ack_advance seg now s) (\<lambda>(f, n, s'). tcp_path a (state s'))"
  unfolding ack_advance_def Let_def
  by (rule path_rules wlp_code | assumption | simp)+

lemma ack_congestion_path [path_rules]:
  "tcp_path a (state s) \<Longrightarrow> wlp (ack_congestion n now s) (\<lambda>(ok, s'). tcp_path a (state s'))"
  unfolding ack_congestion_def Let_def
  by (rule path_rules wlp_code | assumption | simp)+

lemma process_valuable_ack_path [path_rules]:
  assumes "tcp_path a (state s)"
  shows "wlp (process_valuable_ack seg now s) (\<lambda>(ok, f, s'). tcp_path a (state s'))"
proof -
  obtain ok s1 where r: "process_rtt seg now s = (ok, s1)" by fastforce
  then have p: "tcp_path a (state s1)" using process_rtt_state [of seg now s] assms by simp
  show ?thesis
    unfolding process_valuable_ack_def r Let_def case_prod_conv
    by (rule p path_rules wlp_code | assumption | simp add: p)+
qed

lemma process_duplicate_ack_path [path_rules]:
  "tcp_path a (state s) \<Longrightarrow> wlp (process_duplicate_ack seg now s) (\<lambda>(ok, s'). tcp_path a (state s'))"
  unfolding process_duplicate_ack_def Let_def
  by (rule path_rules wlp_code | assumption | simp)+

lemma process_ack_path [path_rules]:
  "tcp_path a (state s) \<Longrightarrow> wlp (process_ack seg now s) (\<lambda>(ok, f, s'). tcp_path a (state s'))"
  unfolding process_ack_def
  by (rule path_rules wlp_code | assumption | simp)+

lemma fin_transition_path [path_rules]:
  "tcp_path a (state s) \<Longrightarrow> wlp (fin_transition rf fa s) (\<lambda>s'. tcp_path a (state s'))"
  unfolding fin_transition_def
  by (rule path_rules set_state_path wlp_code | assumption | simp)+

lemma process_fin_path [path_rules]:
  "tcp_path a (state s) \<Longrightarrow> wlp (process_fin seg fa s) (\<lambda>(ok, rf, s'). tcp_path a (state s'))"
  unfolding process_fin_def Let_def
  by (rule path_rules wlp_code | assumption | simp cong: if_cong)+

lemma absorb_rlist_state: "wlp (absorb_rlist rs f s) (\<lambda>(f', s'). state s' = state s)"
proof (induction rs arbitrary: f s)
  case (Cons r rs)
  have "wlp (absorb_rlist rs f1 s1) (\<lambda>(f', s'). state s' = state s)" if "state s1 = state s" for f1 s1
    using Cons [of f1 s1] that by simp
  then show ?case by (simp add: wp_simps Let_def wlpI)
qed (simp add: wp_simps)

lemma store_data_path [path_rules]:
  assumes "tcp_path a (state s)"
  shows "wlp (store_data seg f s) (\<lambda>(f', d, s'). tcp_path a (state s'))"
proof -
  have absorb: "tcp_path a (state s1) \<Longrightarrow> wlp (absorb_rlist rs f s1) (\<lambda>(f', s'). tcp_path a (state s'))" for rs s1
    by (rule wlp_mono [OF absorb_rlist_state]) auto
  show ?thesis
    unfolding store_data_def Let_def
    by (rule absorb wlp_code | assumption | simp add: assms)+
qed

lemma process_data_path [path_rules]:
  "tcp_path a (state s) \<Longrightarrow> wlp (process_data seg rf s) (\<lambda>s'. tcp_path a (state s'))"
  unfolding process_data_def Let_def
  by (rule path_rules wlp_code | assumption | simp)+

lemma process_path [path_rules]:
  "tcp_path a (state s) \<Longrightarrow> wlp (process seg s) (\<lambda>(r, s'). tcp_path a (state s'))"
  unfolding process_def Let_def
  by (rule path_rules wlp_code | assumption | simp)+

lemma notify_packet_path [path_rules]:
  "tcp_path a (state s) \<Longrightarrow> wlp (pseudo_tcp_socket_notify_packet buf s) (\<lambda>(r, s'). tcp_path a (state s'))"
  unfolding pseudo_tcp_socket_notify_packet_def parse_def
  by (rule path_rules wlp_code | assumption | simp)+

lemma clock_path [path_rules]:
  assumes "tcp_path a (state s)"
  shows "wlp (clock_retransmit now s) (\<lambda>(r, s'). tcp_path a (state s'))"
    and "wlp (clock_probe now s) (\<lambda>(r, s'). tcp_path a (state s'))"
  unfolding clock_retransmit_def clock_probe_def Let_def
  by (rule assms path_rules wlp_code | assumption | simp add: assms)+

lemma notify_clock_path [path_rules]:
  "tcp_path a (state s) \<Longrightarrow> wlp (pseudo_tcp_socket_notify_clock s) (\<lambda>s'. tcp_path a (state s'))"
  unfolding pseudo_tcp_socket_notify_clock_def Let_def
  by (rule path_rules wlp_code | assumption | simp)+

lemma get_next_clock_path [path_rules]:
  "tcp_path a (state s) \<Longrightarrow> wlp (pseudo_tcp_socket_get_next_clock t s) (\<lambda>(r, t', s'). tcp_path a (state s'))"
  unfolding pseudo_tcp_socket_get_next_clock_def Let_def
  by (rule path_rules wlp_code | assumption | simp)+

lemma recv_path [path_rules]:
  "tcp_path a (state s) \<Longrightarrow> wlp (pseudo_tcp_socket_recv n s) (\<lambda>(r, s'). tcp_path a (state s'))"
  unfolding pseudo_tcp_socket_recv_def Let_def
  by (rule path_rules wlp_code | assumption | simp)+

lemma set_property_path [path_rules]:
  "tcp_path a (state s) \<Longrightarrow> wlp (pseudo_tcp_socket_set_property p s) (\<lambda>s'. tcp_path a (state s'))"
  by (cases p; simp only: pseudo_tcp_socket_set_property.simps)
    (rule path_rules wlp_code | assumption | simp)+

subsection \<open>Sequences of calls\<close>

text \<open>The calls a client can make on a socket, and a client that makes them one after the other.\<close>

datatype tcp_call = Connect | Send "u8 list" u32 | Recv nat | Notify_packet "u8 list" | Notify_clock
  | Get_next_clock u64 | Shutdown PseudoTcpShutdown | Close bool | Notify_mtu u16 | Set_time u32
  | Set_property tcp_property

fun tcp_do :: "tcp_call \<Rightarrow> PseudoTcpSocket \<Rightarrow> PseudoTcpSocket option" where
  "tcp_do Connect s = map_option snd (pseudo_tcp_socket_connect s)"
| "tcp_do (Send buf len) s = map_option snd (pseudo_tcp_socket_send buf len s)"
| "tcp_do (Recv n) s = map_option snd (pseudo_tcp_socket_recv n s)"
| "tcp_do (Notify_packet buf) s = map_option snd (pseudo_tcp_socket_notify_packet buf s)"
| "tcp_do Notify_clock s = pseudo_tcp_socket_notify_clock s"
| "tcp_do (Get_next_clock t) s = map_option (snd \<circ> snd) (pseudo_tcp_socket_get_next_clock t s)"
| "tcp_do (Shutdown how) s = pseudo_tcp_socket_shutdown how s"
| "tcp_do (Close force) s = pseudo_tcp_socket_close force s"
| "tcp_do (Notify_mtu m) s = Some (pseudo_tcp_socket_notify_mtu m s)"
| "tcp_do (Set_time t) s = Some (pseudo_tcp_socket_set_time s t)"
| "tcp_do (Set_property p) s = pseudo_tcp_socket_set_property p s"

primrec tcp_run :: "tcp_call list \<Rightarrow> PseudoTcpSocket \<Rightarrow> PseudoTcpSocket option" where
  "tcp_run [] s = Some s"
| "tcp_run (c # cs) s = do { s1 \<leftarrow> tcp_do c s; tcp_run cs s1 }"

lemma wlp_map_option: "wlp (map_option f m) Q = wlp m (\<lambda>x. Q (f x))"
  by (auto simp: wlp_def)

lemma tcp_do_path:
  assumes "tcp_path a (state s)"
  shows "wlp (tcp_do c s) (\<lambda>s'. tcp_path a (state s'))"
proof (cases c)
  case (Notify_mtu m)
  with assms show ?thesis by (auto simp: pseudo_tcp_socket_notify_mtu_def Let_def wp_simps)
next
  case (Set_time t)
  with assms show ?thesis by (simp add: pseudo_tcp_socket_set_time_def wp_simps)
qed (use connect_path [OF assms] send_path [OF assms] recv_path [OF assms] notify_packet_path [OF assms]
      notify_clock_path [OF assms] get_next_clock_path [OF assms] shutdown_path [OF assms]
      close_path [OF assms] set_property_path [OF assms]
    in \<open>simp_all add: wlp_map_option case_prod_unfold comp_def\<close>)

lemma tcp_run_path: "tcp_path a (state s) \<Longrightarrow> wlp (tcp_run cs s) (\<lambda>s'. tcp_path a (state s'))"
proof (induction cs arbitrary: s)
  case (Cons c cs)
  then show ?case by (simp only: tcp_run.simps) (rule wlp_bindI [OF tcp_do_path])
qed (simp add: wp_simps)

text \<open>How far a connection has come; every forward transition increases it.\<close>

fun state_rank :: "PseudoTcpState \<Rightarrow> nat" where
  "state_rank TCP_LISTEN = 0"
| "state_rank TCP_SYN_SENT = 1"
| "state_rank TCP_SYN_RECEIVED = 1"
| "state_rank TCP_ESTABLISHED = 2"
| "state_rank TCP_FIN_WAIT_1 = 3"
| "state_rank TCP_CLOSE_WAIT = 3"
| "state_rank TCP_FIN_WAIT_2 = 4"
| "state_rank TCP_CLOSING = 4"
| "state_rank TCP_TIME_WAIT = 5"
| "state_rank TCP_LAST_ACK = 5"
| "state_rank TCP_CLOSED = 6"

lemma forward_rank: "forward_transition a b \<Longrightarrow> state_rank a < state_rank b"
  by (cases a) (auto simp: forward_transition_iff)

lemma tcp_path_rank: "tcp_path a b \<Longrightarrow> a = b \<or> state_rank a < state_rank b"
  by (induction rule: tcp_path.induct) (auto dest: forward_rank)


definition demo_callbacks :: PseudoTcpCallbacks where
  "demo_callbacks = \<lparr>cb_Opened = True, cb_Readable = True, cb_Writable = True, cb_Closed = True,
     cb_WritePacket = (\<lambda>_ _. WR_SUCCESS)\<rparr>"

definition demo_socket :: PseudoTcpSocket where
  "demo_socket = pseudo_tcp_socket_init 7 (\<lambda>_. 0) demo_callbacks 1000"

lemma demo_socket_simps:
  "state demo_socket = TCP_LISTEN" "support_fin_ack demo_socket = True"
  "callbacks demo_socket = demo_callbacks" "conv demo_socket = 7"
  by (simp_all add: demo_socket_def pseudo_tcp_socket_init_def Let_def)

lemma demo_run:
  "tcp_run [Set_time 5, Close False, Connect] demo_socket
     = Some (demo_socket\<lparr>current_time := 5, shutdown_reads := True, state := TCP_CLOSED, sock_error := EINVAL\<rparr>)"
  by (simp add: pseudo_tcp_socket_set_time_def pseudo_tcp_socket_close_def pseudo_tcp_socket_shutdown_def
      set_state_closed_def set_state_def valid_transition_iff pseudo_tcp_socket_connect_def demo_socket_simps Let_def)



lemma demo_run_split:
  "tcp_run [Set_time 5, Close False] demo_socket
     = Some (demo_socket\<lparr>current_time := 5, shutdown_reads := True, state := TCP_CLOSED\<rparr>)"
  "tcp_run [Connect] (demo_socket\<lparr>current_time := 5, shutdown_reads := True, state := TCP_CLOSED\<rparr>)
     = Some (demo_socket\<lparr>current_time := 5, shutdown_reads := True, state := TCP_CLOSED, sock_error := EINVAL\<rparr>)"
  by (simp_all add: pseudo_tcp_socket_set_time_def pseudo_tcp_socket_close_def pseudo_tcp_socket_shutdown_def
      set_state_closed_def set_state_def valid_transition_iff pseudo_tcp_socket_connect_def demo_socket_simps Let_def)


text \<open>
  Closing down never trips the assertion of the state machine and always ends in
  \<^verbatim>\<open>CLOSED\<close>. On behalf of the peer it sends nothing, changes nothing else and reports the error
  through the callback \<^verbatim>\<open>PseudoTcpClosed\<close>, provided there is an error and a callback.
\<close>

theorem closedown_closes:
  "closedown err CLOSEDOWN_REMOTE s
     = Some (s\<lparr>state := TCP_CLOSED,
               events := events s @ (if cb_Closed (callbacks s) \<and> err \<noteq> E_OK then [Closed err] else [])\<rparr>)
   \<and> wlp (closedown err source s) (\<lambda>s'. state s' = TCP_CLOSED)"
  by (simp add: closedown_def closedown_walk_eq wp_simps wlpI closed_socket_def emit_def Let_def)

text \<open>
  A reset: a segment of the connection with the RST flag closes a socket that is neither
  closed nor waiting in \<^verbatim>\<open>TIME_WAIT\<close>, reports \<^verbatim>\<open>ECONNRESET\<close>, sends no packet and leaves
  both buffers alone. A segment of another conversation changes nothing.
\<close>

theorem reset_closes:
  assumes "state s \<noteq> TCP_CLOSED" and "state s \<noteq> TCP_TIME_WAIT \<or> seg_len seg = 0"
    and "seg_flags seg AND FLAG_RST \<noteq> 0"
  shows "if seg_conv seg = conv s
     then \<exists>s'. process seg s = Some (False, s') \<and> state s' = TCP_CLOSED \<and> packets s' = packets s
            \<and> rbuf s' = rbuf s \<and> sbuf s' = sbuf s
            \<and> events s' = events s @ (if cb_Closed (callbacks s) then [Closed ECONNRESET] else [])
     else process seg s = Some (False, s)"
proof -
  have "\<not> (pseudo_tcp_state_has_received_fin_ack (state s) \<and> seg_len seg > 0)"
    using assms(1,2) by (cases "state s") auto
  with assms show ?thesis
    by (simp add: process_def Let_def closedown_def closedown_walk_eq closed_socket_def emit_def, blast)
qed

definition demo_reset :: Segment where
  "demo_reset = \<lparr>seg_conv = 7, seg_seq = 0, seg_ack = 0, seg_flags = FLAG_RST, seg_wnd = 0, seg_data = [],
     seg_len = 0, seg_tsval = 0, seg_tsecr = 0\<rparr>"

theorem reset_closes_witness:
  "\<exists>s'. process demo_reset demo_socket = Some (False, s') \<and> state s' = TCP_CLOSED
      \<and> events s' = events demo_socket @ [Closed ECONNRESET]"
  using reset_closes [of demo_socket demo_reset]
  by (auto simp: demo_socket_simps demo_reset_def FLAG_RST_def demo_callbacks_def)

end
