(* ===== verification/PseudoTcpWire.thy ===== *)
theory PseudoTcpWire
  imports PseudoTcpState
begin

text \<open>
  What the peer sees: the header that \<^verbatim>\<open>packet\<close> writes is the one that \<^verbatim>\<open>parse\<close> reads, the
  options of the connect message reach the peer's parameters, and the advertised window fits the
  16 bits of its field after scaling.
\<close>

unbundle bit_operations_syntax

subsection \<open>The packet header\<close>

lemma length_packet_header [simp]: "length (packet_header sq fl now s) = 24"
  by (simp add: packet_header_def)

lemma header_fields:
  "get32 (packet_header sq fl now s) 0 = conv s"
  "get32 (packet_header sq fl now s) 4 = sq"
  "get32 (packet_header sq fl now s) 8 = rcv_nxt s"
  "packet_header sq fl now s ! 13 = fl"
  "get16 (packet_header sq fl now s) 14 = ucast (drop_bit (unat (rwnd_scale s)) (rcv_wnd s))"
  "get32 (packet_header sq fl now s) 16 = now"
  "get32 (packet_header sq fl now s) 20 = ts_recent s"
proof -
  let ?w = "be16 (ucast (drop_bit (unat (rwnd_scale s)) (rcv_wnd s)))"
  let ?a = "be32 (conv s)" and ?b = "be32 sq" and ?c = "be32 (rcv_nxt s)" and ?t = "be32 now" and ?e = "be32 (ts_recent s)"
  have h: "packet_header sq fl now s = [] @ ?a @ (?b @ ?c @ [0, fl] @ ?w @ ?t @ ?e)"
    "packet_header sq fl now s = ?a @ ?b @ (?c @ [0, fl] @ ?w @ ?t @ ?e)"
    "packet_header sq fl now s = (?a @ ?b) @ ?c @ ([0, fl] @ ?w @ ?t @ ?e)"
    "packet_header sq fl now s = (?a @ ?b @ ?c @ [0]) @ [fl] @ (?w @ ?t @ ?e)"
    "packet_header sq fl now s = (?a @ ?b @ ?c @ [0, fl]) @ ?w @ (?t @ ?e)"
    "packet_header sq fl now s = (?a @ ?b @ ?c @ [0, fl] @ ?w) @ ?t @ ?e"
    "packet_header sq fl now s = (?a @ ?b @ ?c @ [0, fl] @ ?w @ ?t) @ ?e @ []"
    by (simp_all add: packet_header_def)
  show "get32 (packet_header sq fl now s) 0 = conv s" unfolding h(1) by (rule get32_field) simp
  show "get32 (packet_header sq fl now s) 4 = sq" unfolding h(2) by (rule get32_field) simp
  show "get32 (packet_header sq fl now s) 8 = rcv_nxt s" unfolding h(3) by (rule get32_field) simp
  show "packet_header sq fl now s ! 13 = fl" unfolding h(4) by (simp add: nth_append)
  show "get16 (packet_header sq fl now s) 14 = ucast (drop_bit (unat (rwnd_scale s)) (rcv_wnd s))"
    unfolding h(5) by (rule get16_field) simp
  show "get32 (packet_header sq fl now s) 16 = now" unfolding h(6) by (rule get32_field) simp
  show "get32 (packet_header sq fl now s) 20 = ts_recent s" unfolding h(7) by (rule get32_field) simp
qed

text \<open>The segment that the peer reads from the packet with the given fields.\<close>

definition wire_segment :: "u32 \<Rightarrow> u8 \<Rightarrow> u32 \<Rightarrow> u32 \<Rightarrow> u32 \<Rightarrow> PseudoTcpSocket \<Rightarrow> Segment" where
  "wire_segment sq flags offset len now s =
     \<lparr>seg_conv = conv s, seg_seq = sq, seg_ack = rcv_nxt s, seg_flags = flags,
      seg_wnd = ucast (drop_bit (unat (rwnd_scale s)) (rcv_wnd s)),
      seg_data = take (unat len) (drop (unat offset) (fifo_data (sbuf s))), seg_len = len,
      seg_tsval = now, seg_tsecr = ts_recent s\<rparr>"

text \<open>
  C20. The packet that a socket hands to its \<^verbatim>\<open>WritePacket\<close> callback is read back by
  \<^verbatim>\<open>parse\<close> as exactly the fields the sender meant: conversation, sequence and acknowledgement
  number, flags, scaled window, time stamps, and as payload the requested stretch of the bytes waiting in
  the send buffer. One packet is written per call, whether or not the callback accepts it.
\<close>

theorem packet_parses_back:
  assumes ok: "fifo_ok (sbuf s)" and p: "packet sq flags offset len now s = Some (res, s')"
  shows "\<exists>pkt. packets s' = packets s @ [pkt] \<and> length pkt = 24 + unat len
     \<and> parse_segment (take 24 pkt) (drop 24 pkt) = wire_segment sq flags offset len now s"
proof -
  let ?d = "take (unat len) (drop (unat offset) (fifo_data (sbuf s)))"
  let ?pkt = "packet_header sq flags now s @ ?d"
  have "unat offset < 2 ^ 32" using unsigned_less [of offset] by simp
  from fifo_read_offset [OF ok this] p have l: "length ?d = unat len" and s': "packets s' = packets s @ [?pkt]"
    by (auto simp: packet_def Let_def bind_Some word_gt_0_no unat_eq_zero split: if_splits)
  have "parse_segment (take 24 ?pkt) (drop 24 ?pkt) = wire_segment sq flags offset len now s"
    using l by (simp add: parse_segment_def header_fields wire_segment_def)
  with s' l show ?thesis by auto
qed

text \<open>A socket with an eight byte send buffer, whose three waiting bytes wrap around its end.\<close>

definition demo_sender :: PseudoTcpSocket where
  "demo_sender = demo_socket\<lparr>sbuf := \<lparr>buffer = [3, 0, 0, 0, 0, 0, 1, 2], buffer_length = 8, data_length = 3,
     read_position = 6\<rparr>\<rparr>"

lemma demo_sender_simps:
  "sbuf demo_sender = \<lparr>buffer = [3, 0, 0, 0, 0, 0, 1, 2], buffer_length = 8, data_length = 3, read_position = 6\<rparr>"
  "rwnd_scale demo_sender = 0" "callbacks demo_sender = demo_callbacks" "packets demo_sender = []"
  by (simp_all add: demo_sender_def demo_socket_def pseudo_tcp_socket_init_def Let_def)

lemma demo_sender_ok: "fifo_ok (sbuf demo_sender)"
  by (simp add: demo_sender_simps fifo_ok_def)

lemma demo_packet: "\<exists>s'. packet 10 0 1 2 77 demo_sender = Some (WR_SUCCESS, s')"
  by (simp add: packet_def demo_sender_simps demo_callbacks_def Let_def HEADER_SIZE_def MAX_PACKET_def
      pseudo_tcp_fifo_read_offset_def size_add_def size_sub_def fault_simps mem_read_def)

theorem packet_parses_back_witness:
  "\<exists>s' pkt. packet 10 0 1 2 77 demo_sender = Some (WR_SUCCESS, s') \<and> packets s' = packets demo_sender @ [pkt]
     \<and> parse_segment (take 24 pkt) (drop 24 pkt) = wire_segment 10 0 1 2 77 demo_sender"
  using demo_packet packet_parses_back [OF demo_sender_ok] by blast

subsection \<open>The options of the connect message\<close>

text \<open>
  C37. Negotiation: the options in the connect message of one socket set, at the peer that parses
  them, the scale of the send window to the sender's receive scale and the support of the FIN-ACK
  procedure to the sender's; nothing else changes.
\<close>

theorem connect_options_reach_peer:
  assumes "support_wnd_scale s"
  shows "parse_options (drop 1 (connect_message s)) t
     = Some (t\<lparr>swnd_scale := rwnd_scale s, support_fin_ack := support_fin_ack s\<rparr>)"
proof (cases "support_fin_ack s")
  case True
  have "parse_options_loop [3, 1, rwnd_scale s, 254, 1, 0] 0 False False t
      = (True, True, True, t\<lparr>swnd_scale := rwnd_scale s, support_fin_ack := True\<rparr>)"
    by (simp add: parse_options_loop.simps opt_defs Let_def apply_option_def apply_window_scale_option_def
        apply_fin_ack_option_def)
  with True assms show ?thesis
    by (simp add: parse_options_def connect_message_def opt_defs)
next
  case False
  have "parse_options_loop [3, 1, rwnd_scale s] 0 False False t
      = (True, True, False, t\<lparr>swnd_scale := rwnd_scale s\<rparr>)"
    by (simp add: parse_options_loop.simps opt_defs Let_def apply_option_def apply_window_scale_option_def)
  with False assms show ?thesis
    by (simp add: parse_options_def connect_message_def opt_defs)
qed

theorem connect_options_reach_peer_witness:
  "support_wnd_scale demo_socket \<and> parse_options (drop 1 (connect_message demo_socket)) demo_sender
     = Some (demo_sender\<lparr>swnd_scale := rwnd_scale demo_socket, support_fin_ack := support_fin_ack demo_socket\<rparr>)"
  using connect_options_reach_peer [of demo_socket demo_sender]
  by (simp add: demo_socket_def pseudo_tcp_socket_init_def Let_def)

subsection \<open>The receive window\<close>

lemma unat_drop_bit_div: "unat (drop_bit k (w :: 'a::len word)) = unat w div 2 ^ k"
  by (simp add: unat_drop_bit_eq flip: drop_bit_eq_div)

lemma unat_u32: "unat (w :: u32) < 2 ^ 32"
  by (rule order_less_le_trans [OF unsigned_less]) simp

lemma scale_loop_spec:
  "scale_loop k n = (k', n') \<Longrightarrow> \<exists>j. k' = k + of_nat j \<and> n' = drop_bit j n \<and> unat n' \<le> 0xFFFF
     \<and> (j \<noteq> 0 \<longrightarrow> 0xFFFF < unat n div 2 ^ (j - 1))"
proof (induction k n rule: scale_loop.induct)
  case (1 k n)
  show ?case
  proof (cases "n > 0xFFFF")
    case True
    with 1(2) have "scale_loop (k + 1) (drop_bit 1 n) = (k', n')" by (simp add: scale_loop.simps [of k n])
    from 1(1) [OF True this] obtain j where j: "k' = k + 1 + of_nat j" "n' = drop_bit j (drop_bit 1 n)"
      "unat n' \<le> 0xFFFF" "j \<noteq> 0 \<longrightarrow> 0xFFFF < unat (drop_bit 1 n) div 2 ^ (j - 1)" by blast
    have "0xFFFF < unat n div 2 ^ (Suc j - 1)"
    proof (cases j)
      case 0
      with True show ?thesis by (simp add: word_less_nat_alt)
    next
      case (Suc i)
      with j(4) show ?thesis by (simp only: unat_drop_bit_div) (simp add: div_mult2_eq)
    qed
    with j show ?thesis by (intro exI [of _ "Suc j"]) (simp add: ac_simps)
  next
    case False
    with 1(2) show ?thesis by (intro exI [of _ 0]) (auto simp: scale_loop.simps [of k n] word_less_nat_alt)
  qed
qed

lemma scale_loop_result:
  assumes "scale_loop 0 n = (k, m)"
  shows "unat k \<le> 16" "unat m = unat n div 2 ^ unat k" "unat m \<le> 0xFFFF"
    "unat (push_bit (unat k) m) = unat n div 2 ^ unat k * 2 ^ unat k"
proof -
  from scale_loop_spec [OF assms] obtain j where j: "k = of_nat j" "m = drop_bit j n" "unat m \<le> 0xFFFF"
    "j \<noteq> 0 \<longrightarrow> 0xFFFF < unat n div 2 ^ (j - 1)" by auto
  have "j \<le> 16"
  proof (rule ccontr)
    assume "\<not> j \<le> 16"
    then have "(2::nat) ^ 16 \<le> 2 ^ (j - 1)" by (intro power_increasing) auto
    then have "unat n div 2 ^ (j - 1) \<le> unat n div 2 ^ 16" by (intro div_le_mono2) auto
    moreover have "unat n div 2 ^ 16 < 2 ^ 16" using unat_u32 [of n] by (simp add: less_mult_imp_div_less)
    ultimately show False using j(4) \<open>\<not> j \<le> 16\<close> by simp
  qed
  then have k: "unat k = j" using j(1) by (simp add: unat_of_nat)
  show "unat k \<le> 16" using k \<open>j \<le> 16\<close> by simp
  show m: "unat m = unat n div 2 ^ unat k" using j(2) k by (simp add: unat_drop_bit_div)
  show "unat m \<le> 0xFFFF" by (rule j(3))
  have "unat n div 2 ^ unat k * 2 ^ unat k \<le> unat n" by simp
  then have "unat n div 2 ^ unat k * 2 ^ unat k < 2 ^ 32"
    using unat_u32 [of n] by (rule order_le_less_trans)
  then show "unat (push_bit (unat k) m) = unat n div 2 ^ unat k * 2 ^ unat k"
    by (simp add: unsigned_push_bit_eq take_bit_eq_mod m flip: push_bit_eq_mult)
qed

text \<open>
  C38. Window scaling: after \<^verbatim>\<open>resize_receive_buffer\<close> has changed the buffer, its size is the
  requested one rounded down to the granularity of the scale, the scale is at most 16, and every window up
  to that size, once scaled, fits the 16 bit field of the header: the peer that scales the field back loses
  less than one unit.
\<close>

theorem resized_window_fits_header:
  assumes r: "resize_receive_buffer n s = Some s'" and "rbuf_len s \<noteq> n"
  shows "unat (rwnd_scale s') \<le> 16
    \<and> unat (rbuf_len s') = unat n div 2 ^ unat (rwnd_scale s') * 2 ^ unat (rwnd_scale s')
    \<and> (\<forall>w. w \<le> rbuf_len s' \<longrightarrow>
         unat (ucast (drop_bit (unat (rwnd_scale s')) w) :: u16) = unat w div 2 ^ unat (rwnd_scale s'))"
proof -
  obtain k m where l: "scale_loop 0 n = (k, m)" by fastforce
  with assms have s': "rwnd_scale s' = k" "rbuf_len s' = push_bit (unat k) m"
    by (auto simp: resize_receive_buffer_def Let_def bind_Some)
  note sc = scale_loop_result [OF l]
  have "unat (ucast (drop_bit (unat k) w) :: u16) = unat w div 2 ^ unat k" if w: "w \<le> push_bit (unat k) m" for w
  proof -
    have "unat w div 2 ^ unat k \<le> unat m"
      using w sc(2,4) div_le_mono [of "unat w" "unat m * 2 ^ unat k" "2 ^ unat k"]
      by (simp add: word_le_nat_alt)
    then have "unat w div 2 ^ unat k < 2 ^ 16" using sc(3) by simp
    then show ?thesis by (simp add: unsigned_ucast_eq take_bit_eq_mod unat_drop_bit_div)
  qed
  with s' sc show ?thesis by simp
qed

lemma demo_resize: "\<exists>s'. resize_receive_buffer 200000 demo_socket = Some s'"
proof -
  have "scale_loop 0 200000 = (2, 50000)" by (simp add: scale_loop.simps)
  then show ?thesis
    by (simp add: resize_receive_buffer_def demo_socket_def pseudo_tcp_socket_init_def Let_def
        pseudo_tcp_fifo_set_capacity_def pseudo_tcp_fifo_init_def mem_read_def mem_write_def)
qed

theorem resized_window_fits_header_witness:
  "\<exists>s'. resize_receive_buffer 200000 demo_socket = Some s' \<and> rbuf_len demo_socket \<noteq> 200000
      \<and> unat (rwnd_scale s') \<le> 16"
proof -
  have "rbuf_len demo_socket \<noteq> 200000"
    by (simp add: demo_socket_def pseudo_tcp_socket_init_def DEFAULT_RCV_BUF_SIZE_def Let_def)
  with demo_resize resized_window_fits_header [of 200000 demo_socket] show ?thesis by blast
qed

subsection \<open>Socket properties\<close>

text \<open>
  Properties that are set are read back, with one exception: after \<^verbatim>\<open>no-delay\<close> is set to
  a value, reading it returns the opposite, since the getter returns the Nagle flag that the setter stores
  negated. The buffer sizes are only accepted before the connection is opened, and the state cannot be set.
\<close>

theorem set_then_get_property:
  "wlp (pseudo_tcp_socket_set_property (PROP_ACK_DELAY d) s)
       (\<lambda>s'. pseudo_tcp_socket_get_property (PROP_ACK_DELAY x) s' = PROP_ACK_DELAY d)
   \<and> wlp (pseudo_tcp_socket_set_property (PROP_NO_DELAY b) s)
       (\<lambda>s'. pseudo_tcp_socket_get_property (PROP_NO_DELAY y) s' = PROP_NO_DELAY (\<not> b))
   \<and> wlp (pseudo_tcp_socket_set_property (PROP_SND_BUF n) s)
       (\<lambda>s'. pseudo_tcp_socket_get_property (PROP_SND_BUF z) s'
          = PROP_SND_BUF (if state s = TCP_LISTEN then n else sbuf_len s))
   \<and> pseudo_tcp_socket_set_property (PROP_STATE q) s = Some s"
  by (simp add: wp_simps resize_send_buffer_def case_prod_beta)

end
