(* ===== verification/PseudoTcpStream.thy ===== *)
theory PseudoTcpStream
  imports PseudoTcpWire
begin

text \<open>
  Reassembly: the bytes an application reads from a pseudo-TCP socket are the peer's byte stream,
  in order, without gaps or repetitions, whatever order the segments arrive in and however often.

  The peer's stream is a function \<open>str\<close> from positions to bytes; position \<open>p\<close> has the sequence
  number \<open>of_nat p\<close>. The socket has received the stream up to the position \<open>R\<close>: \<open>rcv_nxt\<close> is its
  sequence number, and the receive buffer holds the bytes just before it.
\<close>

unbundle bit_operations_syntax

subsection \<open>Positions and sequence numbers\<close>

lemma unat_of_nat_u32: "n < 4294967296 \<Longrightarrow> unat (of_nat n :: u32) = n"
  by (simp add: unat_of_nat take_bit_nat_eq_self_iff)

lemma seq_dist_of_nat:
  assumes "A < B + 4294967296" and "B < A + 4294967296"
  shows "seq_dist (of_nat B) (of_nat A) = (if A \<le> B then B - A else 4294967296 - (A - B))"
proof (cases "A \<le> B")
  case True
  then have e: "(of_nat B :: u32) - of_nat A = of_nat (B - A)" by (simp add: of_nat_diff)
  have "unat (of_nat (B - A) :: u32) = B - A" using assms by (intro unat_of_nat_u32) simp
  with True show ?thesis unfolding seq_dist_def e by simp
next
  case False
  then have e: "(of_nat B :: u32) - of_nat A = - of_nat (A - B)" by (simp add: of_nat_diff)
  have "unat (of_nat (A - B) :: u32) = A - B" using assms by (intro unat_of_nat_u32) simp
  with e False unat_sub_if' [of 0 "of_nat (A - B) :: u32"] show ?thesis by (simp add: seq_dist_def)
qed

lemma seq_compare:
  assumes "A < B + 0x7FFFFFFF" and "B < A + 0x7FFFFFFF"
  shows "SMALLER (of_nat A) (of_nat B) \<longleftrightarrow> A < B"
    "LARGER (of_nat A) (of_nat B) \<longleftrightarrow> B < A"
    "SMALLER_OR_EQUAL (of_nat A) (of_nat B) \<longleftrightarrow> A \<le> B"
  using assms seq_dist_of_nat [of A B] seq_dist_of_nat [of B A]
  by (auto simp: seq_order_iff split: if_splits)

lemma seq_ahead: "A \<le> B \<Longrightarrow> B < A + 4294967296 \<Longrightarrow> unat (of_nat B - of_nat A :: u32) = B - A"
  using seq_dist_of_nat [of A B] by (simp add: seq_dist_def)

subsection \<open>The buffer against the stream\<close>

definition held :: "(nat \<Rightarrow> u8) \<Rightarrow> nat \<Rightarrow> PseudoTcpFifo \<Rightarrow> bool" where
  "held str R b \<longleftrightarrow> fifo_ok b \<and> buffer_length b < 0x7FFFFFFF \<and> data_length b \<le> R
     \<and> fifo_data b = map str [R - data_length b..<R]"

text \<open>The byte that the free part of the buffer holds for the position \<open>i \<ge> R\<close>.\<close>

definition ahead_byte :: "nat \<Rightarrow> PseudoTcpFifo \<Rightarrow> nat \<Rightarrow> u8" where
  "ahead_byte R b i = fifo_view b ! (data_length b + (i - R))"

text \<open>The end of the receive window, as a position.\<close>

definition window_end :: "nat \<Rightarrow> PseudoTcpFifo \<Rightarrow> nat" where
  "window_end R b = R + (buffer_length b - data_length b)"

lemma held_consume:
  assumes h: "held str R b" and n: "R + n \<le> window_end R b"
    and bytes: "\<And>i. R \<le> i \<Longrightarrow> i < R + n \<Longrightarrow> ahead_byte R b i = str i"
  shows "\<exists>b'. pseudo_tcp_fifo_consume_write_buffer b n = Some b' \<and> held str (R + n) b'
    \<and> window_end (R + n) b' = window_end R b \<and> buffer_length b' = buffer_length b
    \<and> (\<forall>i \<ge> R + n. ahead_byte (R + n) b' i = ahead_byte R b i)"
proof -
  from h have ok: "fifo_ok b" and dl: "data_length b \<le> R" and c: "buffer_length b < 0x7FFFFFFF"
    and d: "fifo_data b = map str [R - data_length b..<R]" by (simp_all add: held_def)
  have n': "n \<le> buffer_length b - data_length b" using n by (simp add: window_end_def)
  obtain b' where b': "pseudo_tcp_fifo_consume_write_buffer b n = Some b'" "fifo_ok b'"
    "buffer_length b' = buffer_length b" "data_length b' = data_length b + n" "fifo_view b' = fifo_view b"
    "fifo_data b' = fifo_data b @ take n (drop (data_length b) (fifo_view b))"
    using fifo_consume_write [OF ok n'] by blast
  have len: "data_length b + n \<le> length (fifo_view b)" using n' fifo_okD(1,4) [OF ok] by simp
  have "take n (drop (data_length b) (fifo_view b)) = map str [R..<R + n]"
    using len bytes [of "R + i" for i] by (intro nth_equalityI) (auto simp: ahead_byte_def)
  then have "fifo_data b' = map str ([R - data_length b..<R] @ [R..<R + n])" using b'(6) d by simp
  also have "[R - data_length b..<R] @ [R..<R + n] = [R - data_length b..<R + n]"
    by (subst upt_add_eq_append) auto
  finally have "held str (R + n) b'" using b' dl c by (simp add: held_def)
  moreover have "ahead_byte (R + n) b' i = ahead_byte R b i" if "i \<ge> R + n" for i
    using that b'(4,5) by (simp add: ahead_byte_def)
  moreover have "window_end (R + n) b' = window_end R b" using b'(3,4) n' by (simp add: window_end_def)
  ultimately show ?thesis using b' by blast
qed

lemma held_write:
  assumes h: "held str R b" and P: "R \<le> P" and fits: "P + n \<le> window_end R b"
    and n: "n \<le> length data" and d: "take n data = map str [P..<P + n]"
  shows "\<exists>b'. pseudo_tcp_fifo_write_offset b data n (P - R) = Some (n, b') \<and> held str R b'
    \<and> window_end R b' = window_end R b \<and> buffer_length b' = buffer_length b
    \<and> (\<forall>i. R \<le> i \<longrightarrow> i < window_end R b \<longrightarrow>
         ahead_byte R b' i = (if P \<le> i \<and> i < P + n then str i else ahead_byte R b i))"
proof -
  from h have ok: "fifo_ok b" and c: "buffer_length b < 0x7FFFFFFF" by (simp_all add: held_def)
  have f: "data_length b + (P - R) + n \<le> buffer_length b"
    using P fits fifo_okD(1,4) [OF ok] by (simp add: window_end_def)
  have m: "n = min n (buffer_length b - data_length b - (P - R))" using f by simp
  have "P - R < 2 ^ 32" using f c by simp
  from fifo_write_offset [OF ok this n m] obtain b' where
    b': "pseudo_tcp_fifo_write_offset b data n (P - R) = Some (n, b')" "fifo_ok b'"
      "buffer_length b' = buffer_length b" "data_length b' = data_length b"
      "fifo_view b' = blit (fifo_view b) (data_length b + (P - R)) (take n data)" by blast
  have lt: "length (take n data) = n" using n by simp
  have fl: "data_length b + (P - R) + length (take n data) \<le> length (fifo_view b)"
    using f lt fifo_okD(1) [OF ok] by simp
  have "fifo_data b' = fifo_data b"
    unfolding fifo_data_def b'(4,5) using fl by (intro take_blit) auto
  then have "held str R b'" using h b' by (simp add: held_def)
  moreover have "ahead_byte R b' i = (if P \<le> i \<and> i < P + n then str i else ahead_byte R b i)"
    if i: "R \<le> i" "i < window_end R b" for i
  proof -
    have "data_length b + (i - R) < length (fifo_view b)"
      using i fifo_okD(1) [OF ok] by (simp add: window_end_def)
    from nth_blit [OF fl this] have "ahead_byte R b' i
        = (if P \<le> i \<and> i < P + n then take n data ! (i - P) else ahead_byte R b i)"
      using i P lt b'(4,5) by (auto simp: ahead_byte_def)
    then show ?thesis using d by auto
  qed
  moreover have "window_end R b' = window_end R b" using b'(3,4) by (simp add: window_end_def)
  ultimately show ?thesis using b' by blast
qed

lemma held_read:
  assumes h: "held str R b"
  shows "\<exists>b'. pseudo_tcp_fifo_read b n
       = Some (map str [R - data_length b..<R - data_length b + min n (data_length b)], b')
    \<and> held str R b' \<and> data_length b' = data_length b - min n (data_length b)
    \<and> window_end R b \<le> window_end R b' \<and> buffer_length b' = buffer_length b
    \<and> (\<forall>i. R \<le> i \<longrightarrow> i < window_end R b \<longrightarrow> ahead_byte R b' i = ahead_byte R b i)"
proof -
  from h have ok: "fifo_ok b" and dl: "data_length b \<le> R" and d: "fifo_data b = map str [R - data_length b..<R]"
    and c: "buffer_length b < 0x7FFFFFFF" by (simp_all add: held_def)
  let ?m = "min n (data_length b)"
  from fifo_read [OF ok, of n] obtain b' where
    b': "pseudo_tcp_fifo_read b n = Some (take n (fifo_data b), b')" "fifo_ok b'"
      "buffer_length b' = buffer_length b" "fifo_view b' = rotate ?m (fifo_view b)"
      "fifo_data b' = drop n (fifo_data b)" by blast
  have d': "data_length b' = data_length b - ?m"
    using length_fifo_data [OF b'(2)] length_fifo_data [OF ok] b'(5) by auto
  have "take n (fifo_data b) = map str [R - data_length b..<R - data_length b + ?m]"
    unfolding d take_map using dl by (cases "n \<le> data_length b") (simp_all add: min_def)
  moreover have "fifo_data b' = map str [R - data_length b'..<R]"
    unfolding b'(5) d drop_map d' using dl by (cases "n \<le> data_length b") (simp_all add: min_def)
  moreover have "ahead_byte R b' i = ahead_byte R b i" if i: "R \<le> i" "i < window_end R b" for i
  proof -
    have "data_length b + (i - R) < length (fifo_view b)"
      using i fifo_okD(1) [OF ok] by (simp add: window_end_def)
    then show ?thesis unfolding ahead_byte_def b'(4) d' by (simp add: nth_rotate)
  qed
  moreover have "window_end R b \<le> window_end R b'" using b'(3) d' by (simp add: window_end_def)
  ultimately show ?thesis using b' d' dl c by (auto simp: held_def)
qed

subsection \<open>Segments stored out of order\<close>

text \<open>
  A stored segment at the position \<open>P\<close> whose bytes are in the free part of the buffer; the stream
  has \<open>N\<close> bytes.
\<close>

definition rseg_ok :: "(nat \<Rightarrow> u8) \<Rightarrow> nat \<Rightarrow> nat \<Rightarrow> PseudoTcpFifo \<Rightarrow> nat \<Rightarrow> RSegment \<Rightarrow> bool" where
  "rseg_ok str N R b P r \<longleftrightarrow> rseg_seq r = of_nat P \<and> R < P + 0x7FFFFFFF \<and> unat (rseg_len r) < 0x7FFFFFFF
     \<and> P + unat (rseg_len r) \<le> N \<and> P + unat (rseg_len r) \<le> window_end R b
     \<and> (\<forall>i. max R P \<le> i \<longrightarrow> i < P + unat (rseg_len r) \<longrightarrow> ahead_byte R b i = str i)"

definition stored :: "(nat \<Rightarrow> u8) \<Rightarrow> nat \<Rightarrow> nat \<Rightarrow> PseudoTcpFifo \<Rightarrow> nat list \<Rightarrow> RSegment list \<Rightarrow> bool" where
  "stored str N R b Ps rs \<longleftrightarrow> list_all2 (rseg_ok str N R b) Ps rs \<and> sorted Ps"

lemma rseg_ok_mono:
  assumes "rseg_ok str N R b P r" and "R \<le> R'" and "R' < P + 0x7FFFFFFF"
    and "window_end R b \<le> window_end R' b'"
    and "\<And>i. R' \<le> i \<Longrightarrow> i < window_end R b \<Longrightarrow> ahead_byte R b i = str i \<Longrightarrow> ahead_byte R' b' i = str i"
  shows "rseg_ok str N R' b' P r"
  using assms unfolding rseg_ok_def by auto

lemma stored_mono:
  assumes "stored str N R b Ps rs" and "R \<le> R'" and "\<And>P. P \<in> set Ps \<Longrightarrow> R' < P + 0x7FFFFFFF"
    and "window_end R b \<le> window_end R' b'"
    and "\<And>i. R' \<le> i \<Longrightarrow> i < window_end R b \<Longrightarrow> ahead_byte R b i = str i \<Longrightarrow> ahead_byte R' b' i = str i"
  shows "stored str N R' b' Ps rs"
proof -
  have "rseg_ok str N R' b' P r" if "rseg_ok str N R b P r" "P \<in> set Ps" for P r
    by (rule rseg_ok_mono [OF that(1) assms(2) assms(3) [OF that(2)] assms(4)]) (rule assms(5))
  with assms(1) show ?thesis unfolding stored_def list_all2_conv_all_nth by auto
qed

text \<open>The fields of the receiving side.\<close>

definition rx_upd :: "PseudoTcpFifo \<Rightarrow> u32 \<Rightarrow> u32 \<Rightarrow> RSegment list \<Rightarrow> PseudoTcpSocket \<Rightarrow> PseudoTcpSocket" where
  "rx_upd b n w l s = s\<lparr>rbuf := b, rcv_nxt := n, rcv_wnd := w, rlist := l\<rparr>"

lemma absorb_rlist_ok:
  assumes "held str R (rbuf s)" and "rcv_nxt s = of_nat R" and "stored str N R (rbuf s) Ps rs" and "R \<le> N"
  shows "\<exists>f' R' b w l Qs. absorb_rlist rs f s = Some (f', rx_upd b (of_nat R') w l s)
    \<and> R \<le> R' \<and> R' \<le> N \<and> R' \<le> window_end R (rbuf s) \<and> held str R' b \<and> buffer_length b = buffer_length (rbuf s)
    \<and> window_end R' b = window_end R (rbuf s) \<and> stored str N R' b Qs l \<and> (\<forall>P \<in> set Qs. R' < P)"
  using assms
proof (induction rs arbitrary: Ps R s f)
  case Nil
  then have "s\<lparr>rlist := []\<rparr> = rx_upd (rbuf s) (of_nat R) (rcv_wnd s) [] s" by (simp add: rx_upd_def)
  with Nil show ?case
    by (intro exI [of _ f] exI [of _ R] exI [of _ "rbuf s"] exI [of _ "rcv_wnd s"] exI [of _ "[]"])
      (simp add: stored_def window_end_def)
next
  case (Cons r rs)
  then obtain P Qs where Ps: "Ps = P # Qs" and r: "rseg_ok str N R (rbuf s) P r"
    and rs: "stored str N R (rbuf s) Qs rs" and le: "\<forall>Q \<in> set Qs. P \<le> Q"
    by (auto simp: stored_def list_all2_Cons2)
  let ?n = "unat (rseg_len r)"
  have seq: "rseg_seq r = of_nat P" and PR: "R < P + 0x7FFFFFFF" and n: "?n < 0x7FFFFFFF"
    and e: "P + ?n \<le> window_end R (rbuf s)" and N: "P + ?n \<le> N"
    and bytes: "\<And>i. max R P \<le> i \<Longrightarrow> i < P + ?n \<Longrightarrow> ahead_byte R (rbuf s) i = str i"
    using r by (auto simp: rseg_ok_def)
  have cap: "window_end R (rbuf s) < R + 0x7FFFFFFF"
    using Cons.prems(1) by (auto simp: held_def window_end_def)
  have Pe: "rseg_seq r + rseg_len r = of_nat (P + ?n)" using seq by simp
  have cmp: "SMALLER_OR_EQUAL (rseg_seq r) (rcv_nxt s) \<longleftrightarrow> P \<le> R"
    unfolding seq Cons.prems(2) using PR e cap by (intro seq_compare) auto
  consider "R < P" | "P \<le> R" "P + ?n \<le> R" | "P \<le> R" "R < P + ?n" by linarith
  then show ?case
  proof cases
    case 1
    then have "absorb_rlist (r # rs) f s = Some (f, rx_upd (rbuf s) (of_nat R) (rcv_wnd s) (r # rs) s)"
      by (simp add: cmp rx_upd_def flip: Cons.prems(2))
    moreover have "\<forall>Q \<in> set (P # Qs). R < Q" using 1 le by auto
    ultimately show ?thesis using Cons.prems Ps by (fastforce simp: window_end_def)
  next
    case 2
    have "\<not> LARGER (rseg_seq r + rseg_len r) (rcv_nxt s)"
      unfolding Pe Cons.prems(2) using 2 PR by (subst seq_compare(2)) auto
    with 2 have "absorb_rlist (r # rs) f s = absorb_rlist rs f s" by (simp add: cmp)
    with Cons.IH [OF Cons.prems(1,2) rs Cons.prems(4)] show ?thesis by simp
  next
    case 3
    let ?k = "P + ?n - R"
    have k: "R + ?k = P + ?n" using 3 by simp
    have L: "LARGER (rseg_seq r + rseg_len r) (rcv_nxt s)"
      unfolding Pe Cons.prems(2) using 3 n PR by (subst seq_compare(2)) auto
    have adj: "unat (rseg_seq r + rseg_len r - rcv_nxt s) = ?k"
      unfolding Pe Cons.prems(2) using 3 n by (intro seq_ahead) auto
    from held_consume [OF Cons.prems(1), of ?k] e bytes 3 k obtain b where
      b: "pseudo_tcp_fifo_consume_write_buffer (rbuf s) ?k = Some b" "held str (R + ?k) b"
        "window_end (R + ?k) b = window_end R (rbuf s)" "buffer_length b = buffer_length (rbuf s)"
        "\<And>i. i \<ge> R + ?k \<Longrightarrow> ahead_byte (R + ?k) b i = ahead_byte R (rbuf s) i" by fastforce
    let ?a = "rseg_seq r + rseg_len r - rcv_nxt s"
    let ?s = "s\<lparr>rbuf := b, rcv_nxt := rcv_nxt s + ?a, rcv_wnd := rcv_wnd s - ?a\<rparr>"
    have st: "stored str N (R + ?k) b Qs rs"
      by (rule stored_mono [OF rs]) (use le n b(3,5) k in \<open>auto\<close>)
    have nx: "rcv_nxt s + ?a = of_nat (R + ?k)" using Pe k by simp
    have ab: "absorb_rlist (r # rs) f s = absorb_rlist rs sfImmediateAck ?s"
      using 3 L by (simp add: cmp adj b(1) Let_def)
    from Cons.IH [of "R + ?k" ?s Qs sfImmediateAck] st b(2) nx N k obtain f' R' b2 w l Qs2 where
      "absorb_rlist rs sfImmediateAck ?s = Some (f', rx_upd b2 (of_nat R') w l ?s)"
      "R + ?k \<le> R'" "R' \<le> N" "R' \<le> window_end (R + ?k) b" "held str R' b2" "buffer_length b2 = buffer_length b"
      "window_end R' b2 = window_end (R + ?k) b" "stored str N R' b2 Qs2 l" "\<forall>P \<in> set Qs2. R' < P" by auto
    moreover have "rx_upd b2 (of_nat R') w l ?s = rx_upd b2 (of_nat R') w l s" by (simp add: rx_upd_def)
    ultimately show ?thesis unfolding ab using b(3,4) k 3 by fastforce
  qed
qed

lemma rlist_insert_stored:
  assumes "stored str N R b Ps rs" and "rseg_ok str N R b P r" and "R < P" and "\<forall>Q \<in> set Ps. R < Q"
    and w: "window_end R b < R + 0x7FFFFFFF"
  shows "\<exists>Qs. stored str N R b Qs (rlist_insert r rs) \<and> set Qs = insert P (set Ps)"
  using assms(1,4)
proof (induction rs arbitrary: Ps)
  case Nil
  then show ?case using assms(2) by (intro exI [of _ "[P]"]) (simp add: stored_def)
next
  case (Cons q rs)
  then obtain Q Qs where Ps: "Ps = Q # Qs" and q: "rseg_ok str N R b Q q" and rs: "stored str N R b Qs rs"
    and le: "\<forall>x \<in> set Qs. Q \<le> x" by (auto simp: stored_def list_all2_Cons2)
  have cmp: "SMALLER (rseg_seq q) (rseg_seq r) \<longleftrightarrow> Q < P"
  proof -
    have "rseg_seq q = of_nat Q" "rseg_seq r = of_nat P" "Q \<le> window_end R b" "P \<le> window_end R b"
      using q assms(2) by (auto simp: rseg_ok_def)
    then show ?thesis using w assms(3) Cons.prems(2) Ps by (simp only:) (rule seq_compare; simp)
  qed
  show ?case
  proof (cases "Q < P")
    case True
    from Cons.IH [OF rs] Cons.prems(2) Ps obtain Xs where
      "stored str N R b Xs (rlist_insert r rs)" "set Xs = insert P (set Qs)" by auto
    with True q cmp le Ps show ?thesis
      by (intro exI [of _ "Q # Xs"]) (auto simp: stored_def)
  next
    case False
    with q cmp Cons.prems(1) Ps le assms(2) show ?thesis
      by (intro exI [of _ "P # Q # Qs"]) (auto simp: stored_def)
  qed
qed

definition rcv_stream :: "(nat \<Rightarrow> u8) \<Rightarrow> nat \<Rightarrow> nat \<Rightarrow> PseudoTcpSocket \<Rightarrow> bool" where
  "rcv_stream str N R s \<longleftrightarrow> held str R (rbuf s) \<and> R \<le> N \<and> rcv_nxt s = of_nat R
     \<and> (\<exists>Ps. stored str N R (rbuf s) Ps (rlist s) \<and> (\<forall>P \<in> set Ps. R < P))"

lemma held_window: "held str R b \<Longrightarrow> window_end R b < R + 0x7FFFFFFF"
  by (auto simp: held_def window_end_def)

subsection \<open>An arriving segment\<close>

text \<open>A segment at the position \<open>P\<close> that carries bytes of the stream.\<close>

definition carries :: "(nat \<Rightarrow> u8) \<Rightarrow> nat \<Rightarrow> Segment \<Rightarrow> bool" where
  "carries str P seg \<longleftrightarrow> seg_seq seg = of_nat P \<and> unat (seg_len seg) \<le> length (seg_data seg)
     \<and> take (unat (seg_len seg)) (seg_data seg) = map str [P..<P + unat (seg_len seg)]"

lemma carries_shorten:
  assumes c: "carries str P seg" and "unat x \<le> unat (seg_len seg)"
  shows "carries str P (seg\<lparr>seg_len := x\<rparr>)"
proof -
  have "take (unat x) (seg_data seg) = take (unat x) (take (unat (seg_len seg)) (seg_data seg))"
    using assms(2) by simp
  also have "\<dots> = map str [P..<P + unat x]" using assms by (simp add: carries_def take_map)
  finally show ?thesis using assms by (simp add: carries_def)
qed

lemma trim_front_carries:
  assumes c: "carries str P seg" and "P < R + 0x7FFFFFFF" and "R < P + 0x7FFFFFFF" and "rcv_nxt s = of_nat R"
  shows "seg_len (trim_front s seg) = 0
    \<or> carries str (max P R) (trim_front s seg)
      \<and> max P R + unat (seg_len (trim_front s seg)) = P + unat (seg_len seg)"
proof (cases "P < R")
  case False
  then have "\<not> SMALLER (seg_seq seg) (rcv_nxt s)"
    using assms by (simp add: carries_def seq_compare)
  with False c show ?thesis by (simp add: trim_front_def max_def)
next
  case True
  let ?n = "rcv_nxt s - seg_seq seg"
  have S: "SMALLER (seg_seq seg) (rcv_nxt s)" using True assms by (simp add: carries_def seq_compare)
  have n: "unat ?n = R - P" using True assms by (simp add: carries_def seq_ahead)
  show ?thesis
  proof (cases "?n < seg_len seg")
    case lt: True
    then have len: "unat (seg_len seg - ?n) = unat (seg_len seg) - (R - P)"
      using n by (simp add: unat_sub word_less_nat_alt word_le_nat_alt)
    have l: "R - P < unat (seg_len seg)" using lt n by (simp add: word_less_nat_alt)
    have "take (unat (seg_len seg) - (R - P)) (drop (R - P) (seg_data seg))
        = drop (R - P) (map str [P..<P + unat (seg_len seg)])"
      using c by (simp add: carries_def drop_take [symmetric] flip: take_map)
    also have "\<dots> = map str [R..<R + (unat (seg_len seg) - (R - P))]"
      using l True by (simp add: drop_map add.commute)
    finally have "carries str R (trim_front s seg)"
      using S lt n len c l assms(4) by (auto simp: trim_front_def carries_def Let_def)
    moreover have "R + unat (seg_len (trim_front s seg)) = P + unat (seg_len seg)"
      using S lt l len True by (simp add: trim_front_def Let_def)
    ultimately show ?thesis using True by (simp add: max_def)
  next
    case False
    then show ?thesis using S by (simp add: trim_front_def Let_def)
  qed
qed

lemma trim_back_carries:
  assumes c: "carries str P seg" and "R \<le> P" and "P + unat (seg_len seg) < R + 0xFFFFFFFF"
    and r: "rcv_nxt s = of_nat R" and h: "held str R (rbuf s)"
  shows "seg_len (trim_back s seg) = 0
    \<or> carries str P (trim_back s seg) \<and> P + unat (seg_len (trim_back s seg)) \<le> window_end R (rbuf s)"
proof -
  let ?a = "buffer_length (rbuf s) - data_length (rbuf s)" and ?e = "P + unat (seg_len seg)"
  have ok: "fifo_ok (rbuf s)" and cap: "?a < 0x7FFFFFFF" using h by (auto simp: held_def)
  have avail: "pseudo_tcp_fifo_get_write_remaining (rbuf s) = ?a"
    using fifo_write_remaining [OF ok] length_fifo_data [OF ok] by simp
  have "seg_seq seg + seg_len seg = of_nat ?e" using c by (simp add: carries_def)
  then have ahead: "unat (seg_seq seg + seg_len seg - rcv_nxt s) = ?e - R"
    unfolding r using assms(2,3) by (simp only:) (rule seq_ahead; simp)
  show ?thesis
  proof (cases "?e - R > ?a")
    case False
    then have "?e \<le> R + ?a" by simp
    with False show ?thesis using c ahead avail by (simp add: trim_back_def Let_def window_end_def)
  next
    case True
    let ?n = "seg_seq seg + seg_len seg - rcv_nxt s - word_of_nat ?a"
    have ua: "unat (word_of_nat ?a :: u32) = ?a" using cap by (intro unat_of_nat_u32) simp
    then have n: "unat ?n = ?e - R - ?a"
      using True ahead by (subst unat_sub) (simp_all add: word_le_nat_alt)
    show ?thesis
    proof (cases "?n < seg_len seg")
      case lt: True
      have len: "unat (seg_len seg - ?n) = unat (seg_len seg) - (?e - R - ?a)"
        using lt n by (subst unat_sub) (simp_all add: word_less_nat_alt word_le_nat_alt)
      have tb: "trim_back s seg = seg\<lparr>seg_len := seg_len seg - ?n\<rparr>"
        using lt True ahead avail by (simp add: trim_back_def Let_def)
      have "carries str P (trim_back s seg)" unfolding tb by (rule carries_shorten [OF c]) (simp only: len)
      moreover have "P + (unat (seg_len seg) - (?e - R - ?a)) \<le> R + ?a"
        using lt n True by (auto simp: word_less_nat_alt)
      ultimately show ?thesis unfolding window_end_def using len by (simp add: tb)
    next
      case False
      then show ?thesis using True ahead avail by (simp add: trim_back_def Let_def)
    qed
  qed
qed

text \<open>What storing a trimmed segment does: the stream is received up to a position \<open>R'\<close>.\<close>

lemma store_data_ok:
  assumes st: "rcv_stream str N R s" and fa: "support_fin_ack s" and ctl: "seg_flags seg AND FLAG_CTL = 0"
    and seg: "seg_len seg = 0 \<or> carries str P seg \<and> R \<le> P \<and> P + unat (seg_len seg) \<le> N
      \<and> P + unat (seg_len seg) \<le> window_end R (rbuf s)"
  shows "\<exists>f' d R' b w l. store_data seg f s = Some (f', d, rx_upd b (of_nat R') w l s) \<and> R \<le> R'
    \<and> R' \<le> window_end R (rbuf s)
    \<and> rcv_stream str N R' (rx_upd b (of_nat R') w l s) \<and> window_end R' b = window_end R (rbuf s)
    \<and> buffer_length b = buffer_length (rbuf s)"
proof (cases "seg_len seg = 0")
  case True
  have "s = rx_upd (rbuf s) (of_nat R) (rcv_wnd s) (rlist s) s" using st by (simp add: rx_upd_def rcv_stream_def)
  with True st show ?thesis
    unfolding store_data_def Let_def
    by (intro exI [of _ f] exI [of _ False] exI [of _ R] exI [of _ "rbuf s"] exI [of _ "rcv_wnd s"] exI [of _ "rlist s"])
      (simp add: window_end_def)
next
  case False
  let ?n = "unat (seg_len seg)"
  from seg False have c: "carries str P seg" and P: "R \<le> P" "P + ?n \<le> window_end R (rbuf s)"
    and N: "P + ?n \<le> N" by auto
  from st obtain Ps where h: "held str R (rbuf s)" and RN: "R \<le> N" and r: "rcv_nxt s = of_nat R"
    and sto: "stored str N R (rbuf s) Ps (rlist s)" and gt: "\<forall>Q \<in> set Ps. R < Q" by (auto simp: rcv_stream_def)
  note w = held_window [OF h]
  from c have sq: "seg_seq seg = of_nat P" and len: "?n \<le> length (seg_data seg)"
    and d: "take ?n (seg_data seg) = map str [P..<P + ?n]" by (auto simp: carries_def)
  have off: "unat (seg_seq seg - rcv_nxt s) = P - R" unfolding sq r using P w by (intro seq_ahead) auto
  from held_write [OF h P len d] obtain b where
    b: "pseudo_tcp_fifo_write_offset (rbuf s) (seg_data seg) ?n (P - R) = Some (?n, b)" "held str R b"
      "window_end R b = window_end R (rbuf s)" "buffer_length b = buffer_length (rbuf s)"
      "\<And>i. R \<le> i \<Longrightarrow> i < window_end R (rbuf s) \<Longrightarrow>
         ahead_byte R b i = (if P \<le> i \<and> i < P + ?n then str i else ahead_byte R (rbuf s) i)" by blast
  have sto1: "stored str N R b Ps (rlist s)"
    by (rule stored_mono [OF sto]) (use gt b(3,5) in \<open>auto simp: less_trans [OF _ trans_less_add1]\<close>)
  have eq: "seg_seq seg = rcv_nxt s \<longleftrightarrow> P = R"
  proof
    assume "seg_seq seg = rcv_nxt s"
    then show "P = R" using off P(1) by simp
  qed (simp add: sq r)
  show ?thesis
  proof (cases "P = R")
    case True
    from held_consume [OF b(2), of ?n] P(2) b(3,5) True obtain b2 where
      b2: "pseudo_tcp_fifo_consume_write_buffer b ?n = Some b2" "held str (R + ?n) b2"
        "window_end (R + ?n) b2 = window_end R b" "buffer_length b2 = buffer_length b"
        "\<And>i. i \<ge> R + ?n \<Longrightarrow> ahead_byte (R + ?n) b2 i = ahead_byte R b i" by fastforce
    let ?s = "s\<lparr>rbuf := b2, rcv_nxt := rcv_nxt s + seg_len seg, rcv_wnd := rcv_wnd s - seg_len seg\<rparr>"
    have sto2: "stored str N (R + ?n) b2 Ps (rlist s)"
      by (rule stored_mono [OF sto1]) (use P True w gt b(3) b2(3,5) in \<open>fastforce+\<close>)
    have nx: "rcv_nxt s + seg_len seg = of_nat (R + ?n)" using r by simp
    from absorb_rlist_ok [of str "R + ?n" ?s N Ps "rlist s" f] b2(2) nx sto2 N True obtain f' R' b3 w3 l3 Qs where
      a: "absorb_rlist (rlist s) f ?s = Some (f', rx_upd b3 (of_nat R') w3 l3 ?s)"
        "R + ?n \<le> R'" "R' \<le> window_end (R + ?n) b2" "held str R' b3" "buffer_length b3 = buffer_length b2"
        "window_end R' b3 = window_end (R + ?n) b2" "stored str N R' b3 Qs l3" "\<forall>P \<in> set Qs. R' < P" "R' \<le> N"
      by auto
    have u: "rx_upd b3 (of_nat R') w3 l3 ?s = rx_upd b3 (of_nat R') w3 l3 s" by (simp add: rx_upd_def)
    have "store_data seg f s = Some (f', True, rx_upd b3 (of_nat R') w3 l3 s)"
      using False fa ctl eq True off b(1) b2(1) a(1) u by (simp add: store_data_def Let_def word_neq_0_conv)
    moreover have "rcv_stream str N R' (rx_upd b3 (of_nat R') w3 l3 s)"
      using a(4,7,8,9) by (auto simp: rcv_stream_def rx_upd_def)
    moreover have "R \<le> R'" "R' \<le> window_end R (rbuf s)" "window_end R' b3 = window_end R (rbuf s)"
      "buffer_length b3 = buffer_length (rbuf s)" using a b b2 by auto
    ultimately show ?thesis by blast
  next
    case ne: False
    let ?r = "\<lparr>rseg_seq = seg_seq seg, rseg_len = seg_len seg\<rparr>"
    let ?s = "rx_upd b (of_nat R) (rcv_wnd s) (rlist_insert ?r (rlist s)) s"
    have "rseg_ok str N R b P ?r" using P N w b(3,5) sq by (auto simp: rseg_ok_def)
    from rlist_insert_stored [OF sto1 this _ gt] ne P(1) w b(3) obtain Qs where
      q: "stored str N R b Qs (rlist_insert ?r (rlist s))" "set Qs = insert P (set Ps)" by auto
    have "store_data seg f s = Some (f, False, ?s)"
      using False fa ctl eq ne off b(1) r by (simp add: store_data_def Let_def rx_upd_def word_neq_0_conv)
    moreover have "\<forall>Q \<in> set Qs. R < Q" using q(2) gt ne P(1) by auto
    then have "rcv_stream str N R ?s" using q(1) b(2) RN unfolding rcv_stream_def rx_upd_def by (simp, blast)
    moreover have "R \<le> window_end R (rbuf s)" by (simp add: window_end_def)
    ultimately show ?thesis using b by blast
  qed
qed

end
