(* ===== verification/PseudoTcpDelivery.thy ===== *)
theory PseudoTcpDelivery
  imports PseudoTcpStream
begin

text \<open>
  From arriving packets to the application: the parts of \<^verbatim>\<open>process\<close> that belong to the sending
  side leave the receiving side alone, so \<^verbatim>\<open>process\<close> as a whole keeps the invariant of
  \<open>PseudoTcpStream\<close>, and \<^verbatim>\<open>pseudo_tcp_socket_recv\<close> hands out the stream.
\<close>

unbundle bit_operations_syntax

subsection \<open>The receiving side is left alone by the sending side\<close>

definition rx :: "PseudoTcpSocket \<Rightarrow> PseudoTcpFifo \<times> RSegment list \<times> u32 \<times> u32 \<times> bool" where
  "rx s = (rbuf s, rlist s, rcv_nxt s, rcv_fin s, support_fin_ack s)"

lemma rx_update [simp]:
  "rx (s\<lparr>callbacks := v0\<rparr>) = rx s"
  "rx (s\<lparr>shutdown := v1\<rparr>) = rx s"
  "rx (s\<lparr>shutdown_reads := v2\<rparr>) = rx s"
  "rx (s\<lparr>sock_error := v3\<rparr>) = rx s"
  "rx (s\<lparr>state := v4\<rparr>) = rx s"
  "rx (s\<lparr>conv := v5\<rparr>) = rx s"
  "rx (s\<lparr>bReadEnable := v6\<rparr>) = rx s"
  "rx (s\<lparr>bWriteEnable := v7\<rparr>) = rx s"
  "rx (s\<lparr>bOutgoing := v8\<rparr>) = rx s"
  "rx (s\<lparr>last_traffic := v9\<rparr>) = rx s"
  "rx (s\<lparr>rbuf_len := v10\<rparr>) = rx s"
  "rx (s\<lparr>rcv_wnd := v11\<rparr>) = rx s"
  "rx (s\<lparr>lastrecv := v12\<rparr>) = rx s"
  "rx (s\<lparr>rwnd_scale := v13\<rparr>) = rx s"
  "rx (s\<lparr>slist := v14\<rparr>) = rx s"
  "rx (s\<lparr>unsent_slist := v15\<rparr>) = rx s"
  "rx (s\<lparr>ssegs := v16\<rparr>) = rx s"
  "rx (s\<lparr>next_sseg := v17\<rparr>) = rx s"
  "rx (s\<lparr>sbuf_len := v18\<rparr>) = rx s"
  "rx (s\<lparr>snd_nxt := v19\<rparr>) = rx s"
  "rx (s\<lparr>snd_wnd := v20\<rparr>) = rx s"
  "rx (s\<lparr>lastsend := v21\<rparr>) = rx s"
  "rx (s\<lparr>snd_una := v22\<rparr>) = rx s"
  "rx (s\<lparr>swnd_scale := v23\<rparr>) = rx s"
  "rx (s\<lparr>sbuf := v24\<rparr>) = rx s"
  "rx (s\<lparr>mss := v25\<rparr>) = rx s"
  "rx (s\<lparr>msslevel := v26\<rparr>) = rx s"
  "rx (s\<lparr>largest := v27\<rparr>) = rx s"
  "rx (s\<lparr>mtu_advise := v28\<rparr>) = rx s"
  "rx (s\<lparr>rto_base := v29\<rparr>) = rx s"
  "rx (s\<lparr>ts_recent := v30\<rparr>) = rx s"
  "rx (s\<lparr>ts_lastack := v31\<rparr>) = rx s"
  "rx (s\<lparr>rx_rttvar := v32\<rparr>) = rx s"
  "rx (s\<lparr>rx_srtt := v33\<rparr>) = rx s"
  "rx (s\<lparr>rx_rto := v34\<rparr>) = rx s"
  "rx (s\<lparr>ssthresh := v35\<rparr>) = rx s"
  "rx (s\<lparr>cwnd := v36\<rparr>) = rx s"
  "rx (s\<lparr>dup_acks := v37\<rparr>) = rx s"
  "rx (s\<lparr>recover := v38\<rparr>) = rx s"
  "rx (s\<lparr>fast_recovery := v39\<rparr>) = rx s"
  "rx (s\<lparr>t_ack := v40\<rparr>) = rx s"
  "rx (s\<lparr>last_acked_ts := v41\<rparr>) = rx s"
  "rx (s\<lparr>use_nagling := v42\<rparr>) = rx s"
  "rx (s\<lparr>ack_delay := v43\<rparr>) = rx s"
  "rx (s\<lparr>support_wnd_scale := v44\<rparr>) = rx s"
  "rx (s\<lparr>current_time := v45\<rparr>) = rx s"
  "rx (s\<lparr>mono_clock := v46\<rparr>) = rx s"
  "rx (s\<lparr>heap_junk := v47\<rparr>) = rx s"
  "rx (s\<lparr>packets := v48\<rparr>) = rx s"
  "rx (s\<lparr>events := v49\<rparr>) = rx s"
  by (simp_all add: rx_def)

lemma rx_if [simp]: "rx (if b then s else s') = (if b then rx s else rx s')"
  by simp

named_theorems rx_rules \<open>operations that keep the receiving side\<close>

lemma emit_rx [simp]: "rx (emit e s) = rx s"
  by (simp add: emit_def)

lemma adjustMTU_rx [simp]: "rx (adjustMTU s) = rx s"
  by (simp add: adjustMTU_def Let_def)

lemma closed_socket_rx [simp]: "rx (closed_socket err s) = rx s"
  by (simp add: closed_socket_def Let_def cong: if_cong)

lemma send_frame_rx: "send_frame s s' \<Longrightarrow> rx s' = rx s"
  by (simp add: rx_def send_frameD)

lemma sent_or_closed_rx: "sent_or_closed s s' \<Longrightarrow> rx s' = rx s"
  unfolding sent_or_closed_def by (auto dest: send_frame_rx)

lemma attempt_send_rx [rx_rules]: "rx s = r \<Longrightarrow> wlp (attempt_send f s) (\<lambda>s'. rx s' = r)"
  by (rule wlp_mono [OF attempt_send_frame]) (simp add: sent_or_closed_rx)

lemma transmit_rx [rx_rules]: "rx s = r \<Longrightarrow> wlp (transmit i now s) (\<lambda>(e, s'). rx s' = r)"
  by (rule wlp_mono [OF transmit_frame]) (auto dest: send_frame_rx)

lemma packet_rx [rx_rules]: "rx s = r \<Longrightarrow> wlp (packet sq fl off len now s) (\<lambda>(e, s'). rx s' = r)"
  by (rule wlp_mono [OF packet_send_frame]) (auto dest: send_frame_rx)

lemma closedown_walk_rx [rx_rules]: "rx s = r \<Longrightarrow> wlp (closedown_walk err s) (\<lambda>s'. rx s' = r)"
  by (simp add: closedown_walk_eq wp_simps)

lemma set_state_rx [rx_rules]: "rx s = r \<Longrightarrow> wlp (set_state n s) (\<lambda>s'. rx s' = r)"
  by (simp add: set_state_def wp_simps)

lemma queue_rx [rx_rules]: "rx s = r \<Longrightarrow> wlp (queue data len flags s) (\<lambda>(n, s'). rx s' = r)"
  by (simp add: queue_def Let_def wp_simps queue_new_segment_def sseg_new_def sseg_upd_def wlpI
      split: option.split)

lemmas rx_bind = wlp_bindI [where P = "\<lambda>s. rx s = r"] for r
lemmas rx_bind2 = wlp_bind_prodI [where P = "\<lambda>q s. rx s = r"] for r
lemmas rx_bind3 = wlp_bind_prod3I [where P = "\<lambda>q p s. rx s = r"] for r
lemmas rx_code = wlp_ret wlp_ifI rx_bind3 rx_bind2 rx_bind wlp_read2 wlp_read

lemma set_state_closed_rx [rx_rules]: "rx s = r \<Longrightarrow> wlp (set_state_closed err s) (\<lambda>s'. rx s' = r)"
  unfolding set_state_closed_def by (rule rx_rules rx_code | assumption | simp cong: if_cong)+

lemma set_state_established_rx [rx_rules]: "rx s = r \<Longrightarrow> wlp (set_state_established s) (\<lambda>s'. rx s' = r)"
  unfolding set_state_established_def Let_def by (rule rx_rules rx_code | assumption | simp cong: if_cong)+

lemma queue_rst_message_rx [rx_rules]: "rx s = r \<Longrightarrow> wlp (queue_rst_message s) (\<lambda>s'. rx s' = r)"
  unfolding queue_rst_message_def by (rule rx_rules rx_code | assumption | simp)+

lemma closedown_rx [rx_rules]: "rx s = r \<Longrightarrow> wlp (closedown err src s) (\<lambda>s'. rx s' = r)"
  unfolding closedown_def by (rule rx_rules rx_code | assumption | simp)+

lemma process_ts_rx [simp]: "rx (process_ts seg s) = rx s"
  by (simp add: process_ts_def)

lemma process_writable_rx [simp]: "rx (process_writable s) = rx s"
  by (simp add: process_writable_def Let_def cong: if_cong)

lemma process_rtt_rx [simp]: "rx (snd (process_rtt seg now s)) = rx s"
  by (simp add: process_rtt_def Let_def)

lemma free_acked_rx [rx_rules]: "rx s = r \<Longrightarrow> wlp (free_acked n s) (\<lambda>s'. rx s' = r)"
proof (induction n s rule: free_acked.induct)
  case (1 n s)
  show ?case
  proof (cases "slist s")
    case Nil
    with 1 show ?thesis by (subst free_acked.simps) (simp add: wp_simps)
  next
    case (Cons i rest)
    show ?thesis
    proof (cases "ssegs s i")
      case None
      with 1 Cons show ?thesis by (subst free_acked.simps) (simp add: wp_simps)
    next
      case (Some g)
      from "1.prems" "1.IH" [OF _ Cons Some] show ?thesis
        by (subst free_acked.simps) (simp add: wp_simps Cons Some sseg_upd_def)
    qed
  qed
qed

lemma ack_advance_rx [rx_rules]: "rx s = r \<Longrightarrow> wlp (ack_advance seg now s) (\<lambda>(f, n, s'). rx s' = r)"
  unfolding ack_advance_def Let_def by (rule rx_rules rx_code | assumption | simp)+

lemma ack_congestion_rx [rx_rules]: "rx s = r \<Longrightarrow> wlp (ack_congestion n now s) (\<lambda>(ok, s'). rx s' = r)"
  unfolding ack_congestion_def Let_def by (rule rx_rules rx_code | assumption | simp)+

lemma process_valuable_ack_rx [rx_rules]:
  assumes "rx s = r" shows "wlp (process_valuable_ack seg now s) (\<lambda>(ok, f, s'). rx s' = r)"
proof -
  obtain ok s1 where p: "process_rtt seg now s = (ok, s1)" by fastforce
  then have "rx s1 = r" using process_rtt_rx [of seg now s] assms by simp
  note rule = this
  show ?thesis unfolding process_valuable_ack_def p Let_def case_prod_conv
    by (rule rule rx_rules rx_code | assumption | simp add: rule)+
qed

lemma process_duplicate_ack_rx [rx_rules]:
  "rx s = r \<Longrightarrow> wlp (process_duplicate_ack seg now s) (\<lambda>(ok, s'). rx s' = r)"
  unfolding process_duplicate_ack_def Let_def by (rule rx_rules rx_code | assumption | simp)+

lemma process_ack_rx [rx_rules]: "rx s = r \<Longrightarrow> wlp (process_ack seg now s) (\<lambda>(ok, f, s'). rx s' = r)"
  unfolding process_ack_def by (rule rx_rules rx_code | assumption | simp)+

lemma fin_transition_rx [rx_rules]: "rx s = r \<Longrightarrow> wlp (fin_transition rf fa s) (\<lambda>s'. rx s' = r)"
  unfolding fin_transition_def by (rule rx_rules rx_code | assumption | simp)+

subsection \<open>What has been delivered\<close>

text \<open>
  \<open>delivered str N D s\<close>: the application has read the first \<open>D\<close> bytes of the stream, and the
  bytes that wait in the receive buffer are those from \<open>D\<close> on; the peer has not closed.
\<close>

definition delivered :: "(nat \<Rightarrow> u8) \<Rightarrow> nat \<Rightarrow> nat \<Rightarrow> PseudoTcpSocket \<Rightarrow> bool" where
  "delivered str N D s \<longleftrightarrow> rcv_stream str N (D + data_length (rbuf s)) s \<and> support_fin_ack s \<and> rcv_fin s = 0"

lemma delivered_rx: "rx s = rx s' \<Longrightarrow> delivered str N D s \<longleftrightarrow> delivered str N D s'"
  by (auto simp: rx_def delivered_def rcv_stream_def)

text \<open>A data segment of a stream of \<open>N\<close> bytes.\<close>

definition data_segment :: "(nat \<Rightarrow> u8) \<Rightarrow> nat \<Rightarrow> Segment \<Rightarrow> bool" where
  "data_segment str N seg \<longleftrightarrow> seg_flags seg AND FLAG_CTL = 0 \<and> seg_flags seg AND FLAG_FIN = 0
     \<and> (\<exists>P. carries str P seg \<and> P + unat (seg_len seg) \<le> N)"

lemma trim_back_len: "unat (seg_len (trim_back s x)) \<le> unat (seg_len x)"
proof -
  have "unat (seg_len (if c then if n < seg_len x then x\<lparr>seg_len := seg_len x - n\<rparr> else x\<lparr>seg_len := 0\<rparr> else x))
      \<le> unat (seg_len x)" for c n
    by (simp add: unat_sub word_less_nat_alt word_le_nat_alt)
  then show ?thesis unfolding trim_back_def Let_def .
qed

lemma store_data_delivered:
  assumes d: "delivered str N D s" and seg: "data_segment str N seg" and N: "N < 0x7FFFFFFF"
    and s1: "rx s1 = rx s"
  shows "wp (store_data (trim_back s1 (trim_front s1 seg)) f s1) (\<lambda>(f', b, s'). delivered str N D s')"
proof -
  let ?R = "D + data_length (rbuf s1)" and ?t = "trim_front s1 seg" and ?u = "trim_back s1 (trim_front s1 seg)"
  from d s1 have "delivered str N D s1" by (simp add: delivered_rx [of s1 s])
  then have st: "rcv_stream str N ?R s1" and fa: "support_fin_ack s1" and rf: "rcv_fin s1 = 0"
    by (simp_all add: delivered_def)
  then have h: "held str ?R (rbuf s1)" and nx: "rcv_nxt s1 = of_nat ?R" and RN: "?R \<le> N"
    by (simp_all add: rcv_stream_def)
  from seg obtain P where c: "carries str P seg" and PN: "P + unat (seg_len seg) \<le> N"
    and ctl: "seg_flags seg AND FLAG_CTL = 0" by (auto simp: data_segment_def)
  have fl: "seg_flags ?u = seg_flags seg" by (simp add: trim_back_def trim_front_def Let_def)
  have u: "\<exists>Q. seg_len ?u = 0 \<or> carries str Q ?u \<and> ?R \<le> Q \<and> Q + unat (seg_len ?u) \<le> N
      \<and> Q + unat (seg_len ?u) \<le> window_end ?R (rbuf s1)"
  proof (cases "seg_len ?t = 0")
    case True
    with trim_back_len [of s1 ?t] show ?thesis by (auto simp: unat_eq_0)
  next
    case False
    from trim_front_carries [OF c _ _ nx] PN RN N False
    have t: "carries str (max P ?R) ?t" "max P ?R + unat (seg_len ?t) = P + unat (seg_len seg)" by auto
    note le = trim_back_len [of s1 ?t]
    from trim_back_carries [OF t(1) _ _ nx h] t(2) PN N
    have "seg_len ?u = 0 \<or> carries str (max P ?R) ?u
        \<and> max P ?R + unat (seg_len ?u) \<le> window_end ?R (rbuf s1)" by auto
    with le t(2) PN show ?thesis by (intro exI [of _ "max P ?R"]) auto
  qed
  then obtain Q where Q: "seg_len ?u = 0 \<or> carries str Q ?u \<and> ?R \<le> Q \<and> Q + unat (seg_len ?u) \<le> N
      \<and> Q + unat (seg_len ?u) \<le> window_end ?R (rbuf s1)" by blast
  have ctl': "seg_flags ?u AND FLAG_CTL = 0" using ctl fl by simp
  from store_data_ok [OF st fa ctl' Q, of f] obtain f' b R' bf w l where
    sd: "store_data ?u f s1 = Some (f', b, rx_upd bf (of_nat R') w l s1)" "?R \<le> R'"
      "R' \<le> window_end ?R (rbuf s1)" "rcv_stream str N R' (rx_upd bf (of_nat R') w l s1)"
      "window_end R' bf = window_end ?R (rbuf s1)" "buffer_length bf = buffer_length (rbuf s1)" by blast
  have "data_length bf \<le> buffer_length bf" "data_length (rbuf s1) \<le> buffer_length (rbuf s1)"
    using sd(4) h by (auto simp: rcv_stream_def held_def fifo_ok_def rx_upd_def)
  then have "R' = D + data_length bf" using sd(2,3,5,6) by (simp add: window_end_def)
  with sd(4) fa rf have "delivered str N D (rx_upd bf (of_nat R') w l s1)"
    by (simp add: delivered_def rx_upd_def)
  with sd(1) show ?thesis by (simp add: wp_def)
qed

lemma process_data_delivered:
  assumes "delivered str N D s" and "data_segment str N seg" and "N < 0x7FFFFFFF"
  shows "wlp (process_data seg False s) (delivered str N D)"
proof -
  have keep: "wlp (attempt_send f s2) (delivered str N D)" if "delivered str N D s2" for f s2
    by (rule wlp_mono [OF attempt_send_rx [OF refl]]) (use that delivered_rx in blast)
  have e: "delivered str N D (emit Readable s2)" if "delivered str N D s2" for s2
    using that delivered_rx [of "emit Readable s2" s2] by simp
  show ?thesis
    unfolding process_data_def Let_def
    by (rule wlp_bind_prod3I [OF wp_wlp [OF store_data_delivered [OF assms process_writable_rx]]]
          wlp_bindI [OF keep] wlp_ret | simp add: e)+
qed

lemma process_fin_rx:
  assumes "rx s = r" and "seg_flags seg AND FLAG_FIN = 0"
    and "rcv_nxt s \<noteq> 0 \<Longrightarrow> rcv_nxt s + seg_len seg \<noteq> rcv_fin s"
  shows "wlp (process_fin seg fa s) (\<lambda>(ok, rf, s'). rx s' = r \<and> \<not> rf)"
proof -
  have nf: "\<not> (rcv_nxt s \<noteq> 0 \<and> rcv_nxt s + seg_len seg = rcv_fin s)" using assms(3) by blast
  with assms(1,2) show ?thesis
    unfolding process_fin_def Let_def by (simp add: wp_simps fin_transition_rx [OF assms(1)])
qed

lemma process_delivered:
  assumes d: "delivered str N D s" and seg: "data_segment str N seg" and N: "N < 0x7FFFFFFF"
  shows "wlp (process seg s) (\<lambda>(ok, s'). delivered str N D s')"
proof -
  let ?s = "s\<lparr>last_traffic := get_current_time s, lastrecv := get_current_time s, bOutgoing := False\<rparr>"
  have keep: "delivered str N D s'" if "rx s' = rx s" for s' using that d delivered_rx by blast
  have ctl: "process_ctl seg ?s = Some (True, False, ?s)"
    using seg by (simp add: process_ctl_def data_segment_def)
  have nofin: "rcv_nxt s' + seg_len seg \<noteq> rcv_fin s'" if "rcv_nxt s' \<noteq> 0" "rx s' = rx s" for s'
  proof
    assume a: "rcv_nxt s' + seg_len seg = rcv_fin s'"
    from that(2) d have r: "rcv_nxt s' = of_nat (D + data_length (rbuf s))" "rcv_fin s' = 0"
      "D + data_length (rbuf s) \<le> N" by (auto simp: rx_def delivered_def rcv_stream_def)
    from seg have "unat (seg_len seg) \<le> N" by (auto simp: data_segment_def)
    then have "unat (rcv_nxt s' + seg_len seg) = D + data_length (rbuf s) + unat (seg_len seg)"
      using r N unat_of_nat_u32 [of "D + data_length (rbuf s) + unat (seg_len seg)"] by simp
    with a r that(1) show False by simp
  qed
  have pd: "wlp (process_fin seg fa s5 \<bind> (\<lambda>(ok3, rf, s6). if \<not> ok3 then Some (False, s6)
        else process_data seg rf s6 \<bind> (\<lambda>s7. Some (True, s7)))) (\<lambda>(ok, s'). delivered str N D s')"
    if "rx s5 = rx s" for fa s5
    using that seg nofin [OF _ that]
    by (intro wlp_bind_prod3I [OF process_fin_rx] wlp_ifI wlp_ret)
      (auto simp: data_segment_def keep intro!: wlp_bindI [OF process_data_delivered [OF keep seg N]] wlp_ret)
  show ?thesis
    unfolding process_def Let_def ctl
    by (rule pd rx_rules rx_code | assumption | simp add: d keep)+
qed

lemma recv_delivered:
  assumes d: "delivered str N D s"
  shows "wlp (pseudo_tcp_socket_recv n s) (\<lambda>(r, s').
     case r of Recv_error \<Rightarrow> delivered str N D s'
     | Recv_bytes bs \<Rightarrow> bs = map str [D..<D + length bs] \<and> delivered str N (D + length bs) s')"
proof -
  let ?R = "D + data_length (rbuf s)" and ?m = "min n (data_length (rbuf s))"
  from d have st: "rcv_stream str N ?R s" and fa: "support_fin_ack s" and rf: "rcv_fin s = 0"
    by (simp_all add: delivered_def)
  from st obtain Ps where h: "held str ?R (rbuf s)" and RN: "?R \<le> N" and nx: "rcv_nxt s = of_nat ?R"
    and sto: "stored str N ?R (rbuf s) Ps (rlist s)" and gt: "\<forall>P \<in> set Ps. ?R < P"
    by (auto simp: rcv_stream_def)
  from held_read [OF h, of n] obtain b where b: "pseudo_tcp_fifo_read (rbuf s) n = Some (map str [D..<D + ?m], b)"
    "held str ?R b" "data_length b = data_length (rbuf s) - ?m" "window_end ?R (rbuf s) \<le> window_end ?R b"
    "\<forall>i. ?R \<le> i \<longrightarrow> i < window_end ?R (rbuf s) \<longrightarrow> ahead_byte ?R b i = ahead_byte ?R (rbuf s) i" by auto
  let ?s = "s\<lparr>rbuf := b\<rparr>"
  have "stored str N ?R b Ps (rlist s)"
    by (rule stored_mono [OF sto]) (use gt b(4,5) in \<open>auto simp: less_trans [OF _ trans_less_add1]\<close>)
  then have rs: "rcv_stream str N ?R ?s" using b(2) RN nx gt by (auto simp: rcv_stream_def)
  have e: "D + ?m + data_length (rbuf ?s) = ?R" using b(3) by simp
  have d1: "delivered str N (D + ?m) ?s"
    unfolding delivered_def e using rs fa rf by simp
  have keep: "delivered str N (D + ?m) s'" if "rx s' = rx ?s" for s' using that d1 delivered_rx by blast
  have send: "wlp (attempt_send f s2 \<bind> (\<lambda>s3. Some (Recv_bytes (map str [D..<D + ?m]), s3)))
      (\<lambda>(r, s'). case r of Recv_error \<Rightarrow> delivered str N D s'
        | Recv_bytes bs \<Rightarrow> bs = map str [D..<D + length bs] \<and> delivered str N (D + length bs) s')"
    if "rx s2 = rx ?s" for f s2
    by (rule wlp_bindI [OF attempt_send_rx [OF that]]) (simp add: wp_simps keep)
  have err: "rx (s\<lparr>rbuf := b, bReadEnable := True, sock_error := EWOULDBLOCK\<rparr>) = rx ?s" by (simp add: rx_def)
  show ?thesis
    unfolding pseudo_tcp_socket_recv_def Let_def b(1) Option.bind.simps case_prod_conv
    by (rule send wlp_ret wlp_ifI | (use d d1 fa keep keep [OF err] in \<open>auto simp: rx_def\<close>; fail))+
qed

subsection \<open>A receiving application\<close>

text \<open>Segments arrive and the application reads, in any order; the result is all it has read.\<close>

datatype rx_step = Arrives Segment | Reads nat

fun rx_run :: "rx_step list \<Rightarrow> PseudoTcpSocket \<Rightarrow> (u8 list \<times> PseudoTcpSocket) option" where
  "rx_run [] s = Some ([], s)"
| "rx_run (Arrives seg # st) s = do { (_, s1) \<leftarrow> process seg s; rx_run st s1 }"
| "rx_run (Reads n # st) s =
     do {
       (r, s1) \<leftarrow> pseudo_tcp_socket_recv n s;
       (bs, s2) \<leftarrow> rx_run st s1;
       Some ((case r of Recv_error \<Rightarrow> [] | Recv_bytes xs \<Rightarrow> xs) @ bs, s2)
     }"

lemma rx_run_delivered:
  assumes "delivered str N D s" and "\<And>seg. Arrives seg \<in> set st \<Longrightarrow> data_segment str N seg" and "N < 0x7FFFFFFF"
  shows "wlp (rx_run st s) (\<lambda>(bs, s'). bs = map str [D..<D + length bs] \<and> delivered str N (D + length bs) s')"
  using assms(1,2)
proof (induction st s arbitrary: D rule: rx_run.induct)
  case (1 s)
  then show ?case by (simp add: wp_simps)
next
  case (2 seg st s)
  then have seg: "data_segment str N seg" by simp
  show ?case
    unfolding rx_run.simps
  proof (rule wlpI)
    fix x assume "process seg s \<bind> (\<lambda>(_, s1). rx_run st s1) = Some x"
    then obtain ok s1 where p: "process seg s = Some (ok, s1)" and r: "rx_run st s1 = Some x"
      by (auto simp: bind_Some)
    from wlpD [OF process_delivered [OF "2.prems"(1) seg assms(3)] p] have "delivered str N D s1" by simp
    from wlpD [OF "2.IH" [OF p refl this] r] "2.prems"(2)
    show "case x of (bs, s') \<Rightarrow> bs = map str [D..<D + length bs] \<and> delivered str N (D + length bs) s'" by simp
  qed
next
  case (3 n st s)
  show ?case
    unfolding rx_run.simps
  proof (rule wlpI)
    fix x assume "pseudo_tcp_socket_recv n s \<bind> (\<lambda>(r, s1). rx_run st s1 \<bind> (\<lambda>(bs, s2).
        Some ((case r of Recv_error \<Rightarrow> [] | Recv_bytes xs \<Rightarrow> xs) @ bs, s2))) = Some x"
    then obtain r s1 bs s2 where p: "pseudo_tcp_socket_recv n s = Some (r, s1)" and q: "rx_run st s1 = Some (bs, s2)"
      and x: "x = ((case r of Recv_error \<Rightarrow> [] | Recv_bytes xs \<Rightarrow> xs) @ bs, s2)"
      by (auto simp: bind_Some)
    define xs where "xs = (case r of Recv_error \<Rightarrow> [] | Recv_bytes xs \<Rightarrow> xs)"
    from wlpD [OF recv_delivered [OF "3.prems"(1)] p]
    have xs: "xs = map str [D..<D + length xs]" "delivered str N (D + length xs) s1"
      by (auto simp: xs_def split: recv_result.splits)
    from wlpD [OF "3.IH" [OF p refl xs(2)] q] "3.prems"(2)
    have bs: "bs = map str [D + length xs..<D + length xs + length bs]"
      and d: "delivered str N (D + length xs + length bs) s2" by auto
    have "xs @ bs = map str ([D..<D + length xs] @ [D + length xs..<D + length xs + length bs])"
      using xs(1) bs by (metis map_append)
    also have "\<dots> = map str [D..<D + length (xs @ bs)]"
      using upt_add_eq_append [of D "D + length xs" "length bs"] by (simp add: add.assoc)
    finally show "case x of (bs, s') \<Rightarrow> bs = map str [D..<D + length bs] \<and> delivered str N (D + length bs) s'"
      unfolding x xs_def [symmetric] using d by (simp add: add.assoc)
  qed
qed


text \<open>A socket that has just been established, with an eight byte receive buffer.\<close>

definition demo_receiver :: PseudoTcpSocket where
  "demo_receiver = demo_socket\<lparr>state := TCP_ESTABLISHED, ack_delay := 0, rcv_nxt := 7,
     rbuf := pseudo_tcp_fifo_init (\<lambda>_. 0) 8, rbuf_len := 8, rcv_wnd := 8,
     sbuf := pseudo_tcp_fifo_init (\<lambda>_. 0) 8, sbuf_len := 8\<rparr>"

definition demo_segment :: "u32 \<Rightarrow> u8 list \<Rightarrow> Segment" where
  "demo_segment sq d = \<lparr>seg_conv = 7, seg_seq = sq, seg_ack = 0, seg_flags = 0, seg_wnd = 100, seg_data = d,
     seg_len = of_nat (length d), seg_tsval = 0, seg_tsecr = 0\<rparr>"

lemma demo_receiver_eq:
  "demo_receiver = \<lparr>callbacks = demo_callbacks, shutdown = SD_NONE, shutdown_reads = False, sock_error = E_OK,
     state = TCP_ESTABLISHED, conv = 7, bReadEnable = True, bWriteEnable = False, bOutgoing = False,
     last_traffic = 0, rlist = [], rbuf_len = 8, rcv_nxt = 7, rcv_wnd = 8, lastrecv = 0, rwnd_scale = 0,
     rbuf = pseudo_tcp_fifo_init (\<lambda>_. 0) 8, rcv_fin = 0, slist = [], unsent_slist = [], ssegs = (\<lambda>_. None),
     next_sseg = 0, sbuf_len = 8, snd_nxt = 0, snd_wnd = 1, lastsend = 0, snd_una = 0, swnd_scale = 0,
     sbuf = pseudo_tcp_fifo_init (\<lambda>_. 0) 8, mss = 180, msslevel = 0, largest = 0, mtu_advise = 1400,
     rto_base = 0, ts_recent = 0, ts_lastack = 0, rx_rttvar = 0, rx_srtt = 0, rx_rto = 1000, ssthresh = 61440,
     cwnd = 360, dup_acks = 0, recover = 0, fast_recovery = False, t_ack = 0, last_acked_ts = 0,
     use_nagling = True, ack_delay = 0, support_wnd_scale = True, current_time = 0, support_fin_ack = True,
     mono_clock = 1000, heap_junk = (\<lambda>_. 0), packets = [], events = []\<rparr>"
  by (simp add: demo_receiver_def demo_socket_def pseudo_tcp_socket_init_def Let_def MIN_PACKET_def
      PACKET_OVERHEAD_def HEADER_SIZE_def DEF_RTO_def DEF_MTU_def DEFAULT_RCV_BUF_SIZE_def)

lemmas demo_eval = demo_receiver_eq demo_segment_def demo_callbacks_def process_def process_ctl_def process_ts_def
  process_ack_def process_duplicate_ack_def process_fin_def fin_transition_def process_data_def process_writable_def
  ack_kind_def trim_front_def trim_back_def store_data_def attempt_send_def send_available_def send_window_def
  packet_def packet_header_def get_current_time_def pseudo_tcp_fifo_init_def pseudo_tcp_fifo_get_buffered_def
  pseudo_tcp_fifo_get_write_remaining_def pseudo_tcp_fifo_write_offset_def pseudo_tcp_fifo_consume_write_buffer_def
  pseudo_tcp_fifo_read_def pseudo_tcp_fifo_read_offset_def size_add_def size_sub_def mem_read_def mem_write_def
  blit_def g_slice_alloc_def seq_order_iff seq_dist_def flag_defs HEADER_SIZE_def MAX_PACKET_def emit_def
  attempt_send_fuel_def unsent_bytes_def time_diff_eq Let_def upt_conv_Cons g_queue_peek_head_def
  pseudo_tcp_socket_recv_def set_state_def

lemma demo_rx_run:
  "\<exists>s'. rx_run [Arrives (demo_segment 9 [12, 13]), Arrives (demo_segment 7 [10, 11, 12]), Reads 8] demo_receiver
     = Some ([10, 11, 12, 13], s')"
  by (simp add: demo_eval)

definition demo_stream :: "nat \<Rightarrow> u8" where
  "demo_stream i = of_nat (i + 3)"

lemma demo_receiver_delivered: "delivered demo_stream 100 7 demo_receiver"
proof -
  have "fifo_ok (pseudo_tcp_fifo_init (\<lambda>_. 0) 8)" by (rule fifo_init_ok) simp_all
  then show ?thesis
    by (simp add: delivered_def rcv_stream_def held_def demo_receiver_eq stored_def fifo_init_data)
      (simp add: pseudo_tcp_fifo_init_def)
qed

lemma demo_segments:
  "data_segment demo_stream 100 (demo_segment 9 [12, 13])"
  "data_segment demo_stream 100 (demo_segment 7 [10, 11, 12])"
  unfolding data_segment_def
  by (simp add: flag_defs demo_segment_def, rule exI [of _ 9],
      simp add: carries_def demo_segment_def demo_stream_def upt_conv_Cons,
      simp add: flag_defs demo_segment_def, rule exI [of _ 7],
      simp add: carries_def demo_segment_def demo_stream_def upt_conv_Cons)


text \<open>
  The data of such a segment, trimmed to the receive window, is stored without tripping an
  assertion: neither the length check of \<^verbatim>\<open>process\<close> nor those of the ring buffer can fail, and what
  has been delivered stays what it was.
\<close>

theorem arriving_data_is_stored:
  assumes "delivered str N D s" and "data_segment str N seg" and "N < 0x7FFFFFFF"
  shows "\<exists>f' fresh s'. store_data (trim_back s (trim_front s seg)) f s = Some (f', fresh, s')
     \<and> delivered str N D s'"
  using store_data_delivered [OF assms refl] by (auto simp: wp_def)

theorem arriving_data_is_stored_witness:
  "\<exists>f' fresh s'. store_data (trim_back demo_receiver (trim_front demo_receiver (demo_segment 9 [12, 13]))) sfNone
     demo_receiver = Some (f', fresh, s') \<and> delivered demo_stream 100 7 s'"
  by (rule arriving_data_is_stored [OF demo_receiver_delivered demo_segments(1)]) simp

end
