(* ===== verification/Bitset.thy ===== *)
theory Bitset
  imports Prelude
begin

text \<open>
  The fixed-size bit sets of \<^verbatim>\<open>src/common/bitset.h\<close> and \<^verbatim>\<open>bitset.c\<close>: 64-bit words, with
  searches for the next or previous set or clear bit. The searches use
  \<^verbatim>\<open>__builtin_ctzll\<close> and \<^verbatim>\<open>__builtin_clzll\<close>; shifts by 64 or more, which C leaves
  undefined, are \<open>None\<close>.

  \<^verbatim>\<open>bitset_isset\<close> shifts the \<^verbatim>\<open>int\<close> constant 1 by up to 63 places. C defines the result
  only below 31 places; the value that the compiler gives to \<^verbatim>\<open>(uint64_t)(1 << k)\<close> is the
  parameter \<open>shl1\<close>, of which only \<open>shl1_ok\<close> is known.
\<close>

unbundle bit_operations_syntax

subsection \<open>Data and operations\<close>

record bitset =
  bs_size :: nat
  bs_bits :: "u64 list"

definition shl1_ok :: "(nat \<Rightarrow> u64) \<Rightarrow> bool" where
  "shl1_ok shl1 \<longleftrightarrow> (\<forall>k < 31. shl1 k = push_bit k 1)"

text \<open>The number of words, \<^verbatim>\<open>(size + 63) >> 6\<close>.\<close>

definition word_count :: "nat \<Rightarrow> nat" where
  "word_count n = (n + 63) div 64"

definition bitset_reset :: "bitset \<Rightarrow> bitset option" where
  "bitset_reset st =
     do {
       bs \<leftarrow> mem_write (bs_bits st) 0 (replicate (word_count (bs_size st)) 0);
       Some (st\<lparr>bs_bits := bs\<rparr>)
     }"

definition bitset_init :: "bitset \<Rightarrow> nat \<Rightarrow> bitset option" where
  "bitset_init st n = bitset_reset (st\<lparr>bs_size := n\<rparr>)"

definition bitset_size :: "bitset \<Rightarrow> nat" where
  "bitset_size st = bs_size st"

definition bitset_set :: "bitset \<Rightarrow> int \<Rightarrow> (int \<times> bitset) option" where
  "bitset_set st bt =
     (if bt < 0 \<or> bt \<ge> int (bs_size st) then Some (-1, st)
      else do {
        let index = nat bt div 64;
        let offset = nat bt mod 64;
        w \<leftarrow> mem_at (bs_bits st) index;
        bs \<leftarrow> mem_set (bs_bits st) index (w OR push_bit offset 1);
        Some (0, st\<lparr>bs_bits := bs\<rparr>)
      })"

definition bitset_clear :: "bitset \<Rightarrow> int \<Rightarrow> (int \<times> bitset) option" where
  "bitset_clear st bt =
     (if bt < 0 \<or> bt \<ge> int (bs_size st) then Some (-1, st)
      else do {
        let index = nat bt div 64;
        let offset = nat bt mod 64;
        w \<leftarrow> mem_at (bs_bits st) index;
        bs \<leftarrow> mem_set (bs_bits st) index (w AND NOT (push_bit offset 1));
        Some (0, st\<lparr>bs_bits := bs\<rparr>)
      })"

definition bitset_isset :: "(nat \<Rightarrow> u64) \<Rightarrow> bitset \<Rightarrow> int \<Rightarrow> int option" where
  "bitset_isset shl1 st bt =
     (if bt < 0 \<or> bt \<ge> int (bs_size st) then Some (-1)
      else do {
        let index = nat bt div 64;
        let offset = nat bt mod 64;
        w \<leftarrow> mem_at (bs_bits st) index;
        Some (if w AND shl1 offset \<noteq> 0 then 1 else 0)
      })"

definition bitset_isset2 :: "(nat \<Rightarrow> u64) \<Rightarrow> u64 list \<Rightarrow> int \<Rightarrow> int option" where
  "bitset_isset2 shl1 bs bt =
     (if bt < 0 then Some (-1)
      else do {
        let index = nat bt div 64;
        let offset = nat bt mod 64;
        w \<leftarrow> mem_at bs index;
        Some (if w AND shl1 offset \<noteq> 0 then 1 else 0)
      })"

text \<open>\<^verbatim>\<open>memcmp\<close> of the words as little-endian bytes; the sign of the result.\<close>

definition word_bytes :: "u64 \<Rightarrow> u8 list" where
  "word_bytes w = map (\<lambda>i. ucast (drop_bit (8 * i) w)) [0..<8]"

fun memcmp :: "u8 list \<Rightarrow> u8 list \<Rightarrow> nat \<Rightarrow> int option" where
  "memcmp xs ys 0 = Some 0"
| "memcmp (x # xs) (y # ys) (Suc n) = (if x < y then Some (-1) else if y < x then Some 1 else memcmp xs ys n)"
| "memcmp _ _ (Suc n) = None"

definition bitset_compare :: "bitset \<Rightarrow> bitset \<Rightarrow> nat \<Rightarrow> int option" where
  "bitset_compare set1 set2 len =
     do {
       c_assert (len \<le> bs_size set1 \<and> len \<le> bs_size set2);
       memcmp (concat (map word_bytes (bs_bits set1))) (concat (map word_bytes (bs_bits set2))) (word_count len)
     }"

definition bitset_compare2 :: "bitset \<Rightarrow> u64 list \<Rightarrow> nat \<Rightarrow> int option" where
  "bitset_compare2 st bs len =
     do {
       c_assert (len \<le> bs_size st);
       memcmp (concat (map word_bytes (bs_bits st))) (concat (map word_bytes bs))
         (word_count (if len = 0 then bs_size st else len))
     }"

subsection \<open>Searching\<close>

definition ctz :: "u64 \<Rightarrow> nat" where
  "ctz w = length (takeWhile (\<lambda>i. \<not> bit w i) [0..<64])"

definition clz :: "u64 \<Rightarrow> nat" where
  "clz w = length (takeWhile (\<lambda>i. \<not> bit w (63 - i)) [0..<64])"

text \<open>
  The loops, upwards and downwards, over the words \<open>ws\<close> (the words of the set, or their
  complements). The result is the position found, \<open>None\<close> where the loop runs off the end.
\<close>

function scan_up :: "u64 list \<Rightarrow> nat \<Rightarrow> nat \<Rightarrow> u64 \<Rightarrow> nat option option" where
  "scan_up ws n index w =
     (if w \<noteq> 0 then Some (Some (index * 64 + ctz w))
      else if index + 1 = n then Some None
      else if index + 1 < length ws then scan_up ws n (index + 1) (ws ! (index + 1))
      else None)"
  by pat_completeness auto
termination
  by (relation "measure (\<lambda>(ws, n, index, w). length ws - index)") auto

fun scan_down :: "u64 list \<Rightarrow> nat \<Rightarrow> u64 \<Rightarrow> nat option" where
  "scan_down ws 0 w = (if w \<noteq> 0 then Some (64 - 1 - clz w) else None)"
| "scan_down ws (Suc i) w = (if w \<noteq> 0 then Some ((Suc i + 1) * 64 - 1 - clz w) else scan_down ws i (ws ! i))"

declare scan_up.simps [simp del]

definition word_mask :: u64 where "word_mask = 0xffffffffffffffff"

definition bitset_next_clear_bit :: "bitset \<Rightarrow> int \<Rightarrow> int option" where
  "bitset_next_clear_bit st from =
     do {
       c_assert (from \<ge> 0 \<and> from < int (bs_size st));
       let index = nat from div 64;
       let ws = map NOT (bs_bits st);
       w \<leftarrow> mem_at ws index;
       r \<leftarrow> scan_up ws (word_count (bs_size st)) index (w AND push_bit (nat from mod 64) word_mask);
       let pos = (case r of Some p \<Rightarrow> p | None \<Rightarrow> word_count (bs_size st) * 64);
       Some (if pos = bs_size st then -1 else int pos)
     }"

definition bitset_next_set_bit :: "bitset \<Rightarrow> int \<Rightarrow> int option" where
  "bitset_next_set_bit st from =
     do {
       c_assert (from \<ge> 0 \<and> from < int (bs_size st));
       let index = nat from div 64;
       c_assert (nat from < 64);
       w \<leftarrow> mem_at (bs_bits st) index;
       r \<leftarrow> scan_up (bs_bits st) (word_count (bs_size st)) index (w AND push_bit (nat from) word_mask);
       Some (case r of Some p \<Rightarrow> int p | None \<Rightarrow> -1)
     }"

text \<open>
  The shift count \<^verbatim>\<open>-(from + 1) % 64 + 64\<close> is between 1 and 64 in C, whose remainder takes the
  sign of the dividend.
\<close>

definition prev_shift :: "nat \<Rightarrow> nat" where
  "prev_shift from = 64 - (from + 1) mod 64"

definition bitset_prev_set_bit :: "bitset \<Rightarrow> int \<Rightarrow> int option" where
  "bitset_prev_set_bit st from =
     do {
       c_assert (from \<ge> 0 \<and> from < int (bs_size st));
       let index = nat from div 64;
       c_assert (prev_shift (nat from) < 64);
       w \<leftarrow> mem_at (bs_bits st) index;
       Some (case scan_down (bs_bits st) index (w AND drop_bit (prev_shift (nat from)) word_mask) of
               Some p \<Rightarrow> int p | None \<Rightarrow> -1)
     }"

definition bitset_prev_clear_bit :: "bitset \<Rightarrow> int \<Rightarrow> int option" where
  "bitset_prev_clear_bit st from =
     do {
       c_assert (from \<ge> 0 \<and> from < int (bs_size st));
       let index = nat from div 64;
       c_assert (prev_shift (nat from) < 64);
       let ws = map NOT (bs_bits st);
       w \<leftarrow> mem_at ws index;
       Some (case scan_down ws index (w AND drop_bit (prev_shift (nat from)) word_mask) of
               Some p \<Rightarrow> int p | None \<Rightarrow> -1)
     }"

subsection \<open>The set behind the words\<close>

definition word_bit :: "u64 list \<Rightarrow> nat \<Rightarrow> bool" where
  "word_bit ws i \<longleftrightarrow> bit (ws ! (i div 64)) (i mod 64)"

text \<open>The words are all there, and the bits behind the last element are clear.\<close>

definition bitset_ok :: "bitset \<Rightarrow> bool" where
  "bitset_ok st \<longleftrightarrow> length (bs_bits st) = word_count (bs_size st)
     \<and> (\<forall>i < 64 * length (bs_bits st). bs_size st \<le> i \<longrightarrow> \<not> word_bit (bs_bits st) i)"

definition members :: "bitset \<Rightarrow> nat set" where
  "members st = {i. i < bs_size st \<and> word_bit (bs_bits st) i}"

lemma word_count_bound: "n \<le> 64 * word_count n" "i < n \<Longrightarrow> i div 64 < word_count n"
  by (auto simp: word_count_def)

lemma first_index:
  fixes n :: nat
  assumes "k < n" and "q k"
  defines "l \<equiv> length (takeWhile (\<lambda>i. \<not> q i) [0..<n])"
  shows "l < n" "q l" "j < l \<Longrightarrow> \<not> q j"
proof -
  have lt: "length (takeWhile (\<lambda>i. \<not> q i) [0..<n]) < length [0..<n]"
  proof (rule ccontr)
    assume "\<not> ?thesis"
    then have "takeWhile (\<lambda>i. \<not> q i) [0..<n] = [0..<n]"
      by (metis linorder_not_less takeWhile_eq_take take_all)
    with assms(1,2) show False by (auto simp: takeWhile_eq_all_conv)
  qed
  then show "l < n" by (simp add: l_def)
  show "q l" using nth_length_takeWhile [OF lt] lt by (simp add: l_def)
  show "\<not> q j" if "j < l"
    using that lt takeWhile_nth [of j "\<lambda>i. \<not> q i" "[0..<n]"] nth_mem [of j "takeWhile (\<lambda>i. \<not> q i) [0..<n]"]
    by (auto simp: l_def dest: set_takeWhileD)
qed

lemma word_nonzero_bit: "(w :: u64) \<noteq> 0 \<Longrightarrow> \<exists>k < 64. bit w k"
proof -
  assume "w \<noteq> 0"
  then obtain k where "bit w k" using bit_eq_iff [of w 0] by auto
  with bit_imp_le_length [OF this] show ?thesis by auto
qed

lemma ctz_spec: "w \<noteq> 0 \<Longrightarrow> ctz w < 64 \<and> bit w (ctz w) \<and> (\<forall>k < ctz w. \<not> bit w k)"
  using word_nonzero_bit [of w] first_index [of _ 64 "bit w"] unfolding ctz_def by blast

lemma clz_spec: "w \<noteq> 0 \<Longrightarrow> clz w < 64 \<and> bit w (63 - clz w) \<and> (\<forall>k. 63 - clz w < k \<longrightarrow> k < 64 \<longrightarrow> \<not> bit w k)"
proof -
  assume "w \<noteq> 0"
  then obtain k where k: "k < 64" "bit w k" using word_nonzero_bit by blast
  then have k': "63 - k < 64" "bit w (63 - (63 - k))" by auto
  note f = first_index [where q = "\<lambda>i. bit w (63 - i)", OF k', folded clz_def]
  have "\<not> bit w j" if "63 - clz w < j" "j < 64" for j
    using f(3) [of "63 - j"] that f(1) by auto
  with f(1,2) show ?thesis by blast
qed

text \<open>The position that a search upwards or downwards should find.\<close>

definition first_from :: "(nat \<Rightarrow> bool) \<Rightarrow> nat \<Rightarrow> nat \<Rightarrow> nat option \<Rightarrow> bool" where
  "first_from q lo hi r \<longleftrightarrow> (case r of
      None \<Rightarrow> \<forall>i. lo \<le> i \<longrightarrow> i < hi \<longrightarrow> \<not> q i
    | Some p \<Rightarrow> lo \<le> p \<and> p < hi \<and> q p \<and> (\<forall>i. lo \<le> i \<longrightarrow> i < p \<longrightarrow> \<not> q i))"

definition last_upto :: "(nat \<Rightarrow> bool) \<Rightarrow> nat \<Rightarrow> nat option \<Rightarrow> bool" where
  "last_upto q hi r \<longleftrightarrow> (case r of
      None \<Rightarrow> \<forall>i \<le> hi. \<not> q i
    | Some p \<Rightarrow> p \<le> hi \<and> q p \<and> (\<forall>i. p < i \<longrightarrow> i \<le> hi \<longrightarrow> \<not> q i))"

lemma word_bit_at: "k < 64 \<Longrightarrow> word_bit ws (index * 64 + k) = bit (ws ! index) k"
  by (simp add: word_bit_def)

lemma scan_up_spec:
  assumes "index < length ws" and "k0 < 64" and "\<And>k. k < 64 \<Longrightarrow> bit w k \<longleftrightarrow> bit (ws ! index) k \<and> k0 \<le> k"
  shows "\<exists>r. scan_up ws (length ws) index w = Some r
    \<and> first_from (word_bit ws) (index * 64 + k0) (64 * length ws) r"
  using assms
proof (induction "length ws - index" arbitrary: index w k0)
  case (Suc d)
  have cell: "\<not> word_bit ws i" if "index * 64 + k0 \<le> i" "i < index * 64 + 64" "\<not> bit w (i - index * 64)" for i
  proof -
    have "i - index * 64 < 64" "k0 \<le> i - index * 64" using that(1,2) by auto
    with that Suc.prems(3) [of "i - index * 64"] word_bit_at [of "i - index * 64" ws index] show ?thesis by simp
  qed
  show ?case
  proof (cases "w = 0")
    case False
    from ctz_spec [OF this] have c: "ctz w < 64" "bit w (ctz w)" "\<forall>k < ctz w. \<not> bit w k" by auto
    have "first_from (word_bit ws) (index * 64 + k0) (64 * length ws) (Some (index * 64 + ctz w))"
      using c Suc.prems(1) Suc.prems(3) [of "ctz w"] cell by (auto simp: first_from_def word_bit_at)
    with False show ?thesis by (subst scan_up.simps) simp
  next
    case True
    then have none: "\<not> word_bit ws i" if "index * 64 + k0 \<le> i" "i < index * 64 + 64" for i
      using cell that by simp
    show ?thesis
    proof (cases "index + 1 = length ws")
      case last: True
      then have "first_from (word_bit ws) (index * 64 + k0) (64 * length ws) None"
        using none by (auto simp: first_from_def)
      with True last show ?thesis by (subst scan_up.simps) simp
    next
      case False
      then have "index + 1 < length ws" using Suc.prems(1) by simp
      moreover have "d = length ws - (index + 1)" using Suc.hyps(2) by simp
      ultimately obtain r where
        r: "scan_up ws (length ws) (index + 1) (ws ! (index + 1)) = Some r"
          "first_from (word_bit ws) ((index + 1) * 64 + 0) (64 * length ws) r"
        using Suc.hyps(1) [of "index + 1" 0 "ws ! (index + 1)"] by auto
      have "first_from (word_bit ws) (index * 64 + k0) (64 * length ws) r"
      proof (cases r)
        case None
        with r(2) none show ?thesis unfolding first_from_def by (auto simp: not_less [symmetric])
          (metis add.commute mult_Suc not_le)
      next
        case (Some q)
        with r(2) none Suc.prems(2) show ?thesis unfolding first_from_def
          by (auto) (metis add.commute mult_Suc not_le)
      qed
      with r(1) True False \<open>index + 1 < length ws\<close> show ?thesis by (subst scan_up.simps) simp
    qed
  qed
qed simp

lemma scan_down_spec:
  assumes "k0 < 64" and "\<And>k. k < 64 \<Longrightarrow> bit w k \<longleftrightarrow> bit (ws ! index) k \<and> k \<le> k0"
  shows "last_upto (word_bit ws) (index * 64 + k0) (scan_down ws index w)"
  using assms
proof (induction index arbitrary: w k0)
  case 0
  show ?case
  proof (cases "w = 0")
    case True
    then have "\<not> bit (ws ! 0) k" if "k \<le> k0" for k using that 0(1) 0(2) [of k] by simp
    then show ?thesis using True 0(1) by (auto simp: last_upto_def word_bit_def)
  next
    case False
    from clz_spec [OF this] have c: "clz w < 64" "bit w (63 - clz w)"
      "\<forall>k. 63 - clz w < k \<longrightarrow> k < 64 \<longrightarrow> \<not> bit w k" by auto
    show ?thesis using False c 0(1) 0(2) by (auto simp: last_upto_def word_bit_def)
  qed
next
  case (Suc index)
  have cell: "word_bit ws i = bit (ws ! Suc index) (i - Suc index * 64)"
    if "Suc index * 64 \<le> i" "i < Suc index * 64 + 64" for i
    using word_bit_at [of "i - Suc index * 64" ws "Suc index"] that by simp
  show ?case
  proof (cases "w = 0")
    case False
    from clz_spec [OF this] have c: "clz w < 64" "bit w (63 - clz w)"
      "\<forall>k. 63 - clz w < k \<longrightarrow> k < 64 \<longrightarrow> \<not> bit w k" by auto
    have b: "bit (ws ! Suc index) (63 - clz w)" "63 - clz w \<le> k0" using c(2) Suc.prems(2) by auto
    have pos: "(Suc index + 1) * 64 - 1 - clz w = Suc index * 64 + (63 - clz w)" using c(1) by simp
    have above: "\<not> word_bit ws i" if "Suc index * 64 + (63 - clz w) < i" "i \<le> Suc index * 64 + k0" for i
    proof -
      have "63 - clz w < i - Suc index * 64" "i - Suc index * 64 < 64" "i - Suc index * 64 \<le> k0"
        using that Suc.prems(1) by auto
      with c(3) Suc.prems(2) [of "i - Suc index * 64"] cell [of i] that Suc.prems(1) show ?thesis by auto
    qed
    have "word_bit ws (Suc index * 64 + (63 - clz w))" using b(1) by (simp only: word_bit_at)
    with above b(2) have "last_upto (word_bit ws) (Suc index * 64 + k0) (Some (Suc index * 64 + (63 - clz w)))"
      by (simp add: last_upto_def)
    then show ?thesis using False by (simp only: scan_down.simps pos if_True simp_thms)
  next
    case True
    have none: "\<not> word_bit ws i" if "Suc index * 64 \<le> i" "i \<le> Suc index * 64 + k0" for i
    proof -
      have "i - Suc index * 64 < 64" "i - Suc index * 64 \<le> k0" using that Suc.prems(1) by auto
      with Suc.prems(2) [of "i - Suc index * 64"] True cell [of i] that Suc.prems(1) show ?thesis by auto
    qed
    have IH: "last_upto (word_bit ws) (index * 64 + 63) (scan_down ws index (ws ! index))"
      by (rule Suc.IH) auto
    have "last_upto (word_bit ws) (Suc index * 64 + k0) r" if "last_upto (word_bit ws) (index * 64 + 63) r" for r
    proof -
      have split: "i \<le> index * 64 + 63 \<or> Suc index * 64 \<le> i" for i by auto
      show ?thesis
        using that none split unfolding last_upto_def
        by (cases r) (simp_all, blast, (meson le_trans le_add1 le_refl add_le_mono less_imp_le order.trans
          | fastforce)+)
    qed
    with IH True show ?thesis by simp
  qed
qed

subsection \<open>What the operations do\<close>

lemma word_bit_update:
  assumes "p div 64 < length ws" and "i div 64 < length ws"
    and "\<And>k. bit w' k = (if k = p mod 64 then v else bit (ws ! (p div 64)) k)"
  shows "word_bit (ws[p div 64 := w']) i = (if i = p then v else word_bit ws i)"
proof -
  have "i = p \<longleftrightarrow> i div 64 = p div 64 \<and> i mod 64 = p mod 64" by (metis div_mult_mod_eq)
  then show ?thesis using assms by (auto simp: word_bit_def nth_list_update)
qed

lemma bit_or_single: "n < 64 \<Longrightarrow> bit ((w :: u64) OR push_bit n 1) k = (if k = n then True else bit w k)"
  by (auto simp: bit_simps)

lemma bit_and_not_single:
  "n < 64 \<Longrightarrow> bit ((w :: u64) AND NOT (push_bit n 1)) k = (if k = n then False else bit w k)"
  by (auto simp: bit_simps dest: bit_imp_le_length)

lemma bitset_set_spec:
  assumes ok: "bitset_ok st" and p: "0 \<le> p" "p < int (bs_size st)"
  shows "\<exists>st'. bitset_set st p = Some (0, st') \<and> bitset_ok st' \<and> bs_size st' = bs_size st
    \<and> members st' = insert (nat p) (members st)"
proof -
  let ?i = "nat p div 64" and ?ws = "bs_bits st"
  have n: "nat p < bs_size st" using p by simp
  have i: "?i < length ?ws" using ok word_count_bound(2) [OF n] by (simp add: bitset_ok_def)
  let ?st = "st\<lparr>bs_bits := ?ws[?i := ?ws ! ?i OR push_bit (nat p mod 64) 1]\<rparr>"
  have wb: "word_bit (?ws[?i := ?ws ! ?i OR push_bit (nat p mod 64) 1]) j = (if j = nat p then True else word_bit ?ws j)" if "j < 64 * length ?ws" for j
    by (rule word_bit_update [OF i _ bit_or_single]) (use that in auto)
  have "bitset_set st p = Some (0, ?st)" using p i by (simp add: bitset_set_def fault_simps Let_def)
  moreover have "bitset_ok ?st" using ok wb n by (auto simp: bitset_ok_def)
  moreover have "j < 64 * length ?ws" if "j < bs_size st" for j
    using that ok word_count_bound(1) [of "bs_size st"] by (simp add: bitset_ok_def)
  then have "members ?st = insert (nat p) (members st)" using wb n by (auto simp: members_def)
  ultimately show ?thesis by auto
qed

lemma bitset_clear_spec:
  assumes ok: "bitset_ok st" and p: "0 \<le> p" "p < int (bs_size st)"
  shows "\<exists>st'. bitset_clear st p = Some (0, st') \<and> bitset_ok st' \<and> bs_size st' = bs_size st
    \<and> members st' = members st - {nat p}"
proof -
  let ?i = "nat p div 64" and ?ws = "bs_bits st"
  have n: "nat p < bs_size st" using p by simp
  have i: "?i < length ?ws" using ok word_count_bound(2) [OF n] by (simp add: bitset_ok_def)
  let ?st = "st\<lparr>bs_bits := ?ws[?i := ?ws ! ?i AND NOT (push_bit (nat p mod 64) 1)]\<rparr>"
  have wb: "word_bit (?ws[?i := ?ws ! ?i AND NOT (push_bit (nat p mod 64) 1)]) j = (if j = nat p then False else word_bit ?ws j)" if "j < 64 * length ?ws" for j
    by (rule word_bit_update [OF i _ bit_and_not_single]) (use that in auto)
  have "bitset_clear st p = Some (0, ?st)" using p i by (simp add: bitset_clear_def fault_simps Let_def)
  moreover have "bitset_ok ?st" using ok wb n by (auto simp: bitset_ok_def)
  moreover have "j < 64 * length ?ws" if "j < bs_size st" for j
    using that ok word_count_bound(1) [of "bs_size st"] by (simp add: bitset_ok_def)
  then have "members ?st = members st - {nat p}" using wb n by (auto simp: members_def split: if_splits)
  ultimately show ?thesis by auto
qed

lemma bitset_init_spec:
  assumes "length (bs_bits st) = word_count n"
  shows "\<exists>st'. bitset_init st n = Some st' \<and> bitset_ok st' \<and> bs_size st' = n \<and> members st' = {}"
proof -
  have "\<not> word_bit (replicate (word_count n) 0) i" if "i < 64 * word_count n" for i
    using that by (simp add: word_bit_def)
  moreover have "i < 64 * word_count n" if "i < n" for i using that word_count_bound(1) [of n] by simp
  ultimately show ?thesis
    using assms by (auto simp: bitset_init_def bitset_reset_def mem_write_def blit_def bitset_ok_def members_def)
qed

lemma word_bit_NOT: "i < 64 * length ws \<Longrightarrow> word_bit (map NOT ws) i = (\<not> word_bit ws i)"
  by (simp add: word_bit_def bit_not_iff)

lemma bit_word_mask [simp]: "bit word_mask k \<longleftrightarrow> k < 64"
proof -
  have m: "word_mask = NOT 0" by (simp add: word_mask_def)
  show ?thesis unfolding m bit_not_iff by simp
qed

lemma bit_mask_up: "k < 64 \<Longrightarrow> n < 64 \<Longrightarrow> bit (w AND push_bit n word_mask) k \<longleftrightarrow> bit w k \<and> n \<le> k"
  by (auto simp: bit_simps)

lemma bit_mask_down:
  assumes "k < 64" and "(from + 1) mod 64 \<noteq> 0"
  shows "bit (w AND drop_bit (prev_shift from) word_mask) k \<longleftrightarrow> bit w k \<and> k \<le> from mod 64"
proof -
  have s: "prev_shift from = 63 - from mod 64" using assms(2) by (simp add: prev_shift_def mod_Suc split: if_splits)
  have "from mod 64 < 64" by simp
  then show ?thesis using assms(1) unfolding s by (auto simp: bit_simps)
qed

lemma bitset_next_clear_bit_spec:
  assumes ok: "bitset_ok st" and f: "0 \<le> from" "from < int (bs_size st)"
  shows "\<exists>r. bitset_next_clear_bit st from = Some (case r of None \<Rightarrow> -1 | Some p \<Rightarrow> int p)
    \<and> first_from (\<lambda>i. i \<notin> members st) (nat from) (bs_size st) r"
proof -
  let ?ws = "map NOT (bs_bits st)" and ?n = "bs_size st" and ?f = "nat from"
  have len: "length ?ws = word_count ?n" using ok by (simp add: bitset_ok_def)
  have fn: "?f < ?n" using f by simp
  have i: "?f div 64 < length ?ws" using word_count_bound(2) [OF fn] len by simp
  have sz: "?n \<le> 64 * length ?ws" using word_count_bound(1) [of ?n] len by simp
  have dm: "?f div 64 * 64 + ?f mod 64 = ?f" by simp
  from scan_up_spec [OF i, of "?f mod 64" "?ws ! (?f div 64) AND push_bit (?f mod 64) word_mask",
      OF _ bit_mask_up, unfolded dm len]
  obtain r where r: "scan_up ?ws (word_count ?n) (?f div 64) (?ws ! (?f div 64) AND push_bit (?f mod 64) word_mask) = Some r"
    "first_from (word_bit ?ws) ?f (64 * length ?ws) r"
    using len by auto
  have clear: "word_bit ?ws j \<longleftrightarrow> j \<notin> members st" if "j < 64 * length ?ws" for j
    using that ok word_bit_NOT [of j "bs_bits st"] by (auto simp: members_def bitset_ok_def)
  let ?pos = "case r of Some p \<Rightarrow> p | None \<Rightarrow> word_count ?n * 64"
  have ev: "bitset_next_clear_bit st from = Some (if ?pos = ?n then -1 else int ?pos)"
    using f i r(1) by (simp add: bitset_next_clear_bit_def mem_at_Some Let_def)
  show ?thesis
  proof (cases "\<exists>j. ?f \<le> j \<and> j < ?n \<and> j \<notin> members st")
    case True
    then obtain j where j: "?f \<le> j" "j < ?n" "j \<notin> members st" by blast
    with r(2) sz clear [of j] obtain p where p: "r = Some p" by (cases r) (auto simp: first_from_def)
    with r(2) clear [of p] have p2: "?f \<le> p" "p \<notin> members st" "p < 64 * length ?ws"
      "\<forall>i. ?f \<le> i \<longrightarrow> i < p \<longrightarrow> i \<in> members st" using clear by (auto simp: first_from_def)
    have "p \<le> j" using p2(4) j by (meson not_le)
    then have "p < ?n" using j(2) by simp
    then show ?thesis using ev p p2 by (intro exI [of _ "Some p"]) (auto simp: first_from_def)
  next
    case False
    have "?pos = ?n"
    proof (cases r)
      case None
      have "\<not> ?n < 64 * length ?ws"
      proof
        assume "?n < 64 * length ?ws"
        moreover have "?n \<notin> members st" by (simp add: members_def)
        ultimately show False using None r(2) clear [of ?n] fn by (auto simp: first_from_def)
      qed
      with sz None len show ?thesis by simp
    next
      case (Some p)
      with r(2) clear have p: "?f \<le> p" "p \<notin> members st" "p < 64 * length ?ws"
        "\<forall>i. ?f \<le> i \<longrightarrow> i < p \<longrightarrow> i \<in> members st" by (auto simp: first_from_def)
      have "?n \<le> p" using False p(1,2) by (meson not_le)
      moreover have "\<not> ?n < p" using p(4) [rule_format, of ?n] fn by (auto simp: members_def)
      ultimately show ?thesis using Some by simp
    qed
    with ev False show ?thesis by (intro exI [of _ None]) (auto simp: first_from_def)
  qed
qed

text \<open>
  \<^verbatim>\<open>bitset_next_clear_bit\<close> finds the first element at or after \<^verbatim>\<open>from\<close> that is not in
  the set, and returns -1 exactly when there is none below the size of the set, also when the size is no
  multiple of 64.
\<close>

theorem bitset_next_clear_bit_finds:
  assumes ok: "bitset_ok st" and f: "0 \<le> from" "from < int (bs_size st)"
  shows "\<exists>r. bitset_next_clear_bit st from = Some (case r of None \<Rightarrow> -1 | Some p \<Rightarrow> int p)
    \<and> first_from (\<lambda>i. i \<notin> members st) (nat from) (bs_size st) r"
  by (rule bitset_next_clear_bit_spec [OF assms])

definition demo_bitset :: bitset where
  "demo_bitset = \<lparr>bs_size = 70, bs_bits = [0xFFFFFFFFFFFFFFF7, 0x3F]\<rparr>"

lemma demo_bitset_ok: "bitset_ok demo_bitset"
proof -
  have "\<not> bit (0x3F :: u64) k" if "6 \<le> k" for k
  proof -
    have "(0x3F :: u64) = mask 6" by (simp add: mask_eq_exp_minus_1)
    then show ?thesis using that by (simp only: bit_mask_iff) simp
  qed
  moreover have "i div 64 = 1" "6 \<le> i mod 64" if "i < 128" "70 \<le> i" for i :: nat
    using that by (auto simp: mod_if)
  ultimately show ?thesis
    unfolding bitset_ok_def demo_bitset_def by (auto simp: word_count_def word_bit_def)
qed

theorem bitset_next_clear_bit_finds_witness:
  "\<exists>r. bitset_next_clear_bit demo_bitset 1 = Some (case r of None \<Rightarrow> -1 | Some p \<Rightarrow> int p)
    \<and> first_from (\<lambda>i. i \<notin> members demo_bitset) (nat 1) (bs_size demo_bitset) r"
  by (rule bitset_next_clear_bit_finds [OF demo_bitset_ok]) (simp_all add: demo_bitset_def)

text \<open>
  The searches backwards find the last element at or before \<^verbatim>\<open>from\<close> that is in the set, or
  that is not, and return -1 when there is none, for every \<^verbatim>\<open>from\<close> that is not the last bit of a
  word; for those the code shifts by 64 places, which C does not define.
\<close>

theorem bitset_prev_bit_finds:
  assumes ok: "bitset_ok st" and f: "0 \<le> from" "from < int (bs_size st)"
  shows "if (nat from + 1) mod 64 \<noteq> 0
    then (\<exists>r. bitset_prev_set_bit st from = Some (case r of None \<Rightarrow> -1 | Some p \<Rightarrow> int p)
            \<and> last_upto (\<lambda>i. i \<in> members st) (nat from) r)
       \<and> (\<exists>r. bitset_prev_clear_bit st from = Some (case r of None \<Rightarrow> -1 | Some p \<Rightarrow> int p)
            \<and> last_upto (\<lambda>i. i \<notin> members st) (nat from) r)
    else bitset_prev_set_bit st from = None \<and> bitset_prev_clear_bit st from = None"
proof (cases "(nat from + 1) mod 64 = 0")
  case True
  with f show ?thesis by (simp add: bitset_prev_set_bit_def bitset_prev_clear_bit_def prev_shift_def Let_def)
next
  case False
  let ?f = "nat from" and ?ws = "bs_bits st"
  have fn: "?f < bs_size st" using f by simp
  have i: "?f div 64 < length ?ws" using ok word_count_bound(2) [OF fn] by (simp add: bitset_ok_def)
  have sh: "prev_shift ?f < 64" using False by (simp add: prev_shift_def)
  have dm: "?f div 64 * 64 + ?f mod 64 = ?f" by simp
  have down: "last_upto (word_bit vs) ?f
      (scan_down vs (?f div 64) (vs ! (?f div 64) AND drop_bit (prev_shift ?f) word_mask))" for vs
    using scan_down_spec [of "?f mod 64", OF _ bit_mask_down [OF _ False], of vs "?f div 64"] dm by simp
  have eq: "last_upto q ?f r = last_upto q' ?f r" if "\<And>j. j \<le> ?f \<Longrightarrow> q j = q' j" for q q' r
    using that by (auto simp: last_upto_def split: option.split)
  have "j < 64 * length ?ws" if "j \<le> ?f" for j
    using that fn ok word_count_bound(1) [of "bs_size st"] by (simp add: bitset_ok_def)
  then have set: "word_bit ?ws j = (j \<in> members st)" "word_bit (map NOT ?ws) j = (j \<notin> members st)" if "j \<le> ?f" for j
    using that fn word_bit_NOT [of j ?ws] by (auto simp: members_def)
  have 1: "bitset_prev_set_bit st from = Some (case scan_down ?ws (?f div 64)
      (?ws ! (?f div 64) AND drop_bit (prev_shift ?f) word_mask) of None \<Rightarrow> -1 | Some p \<Rightarrow> int p)"
    using f i sh by (simp add: bitset_prev_set_bit_def mem_at_Some Let_def option.case_eq_if)
  have 2: "bitset_prev_clear_bit st from = Some (case scan_down (map NOT ?ws) (?f div 64)
      (map NOT ?ws ! (?f div 64) AND drop_bit (prev_shift ?f) word_mask) of None \<Rightarrow> -1 | Some p \<Rightarrow> int p)"
    using f i sh by (simp add: bitset_prev_clear_bit_def mem_at_Some Let_def option.case_eq_if)
  have d1: "last_upto (\<lambda>i. i \<in> members st) ?f
      (scan_down ?ws (?f div 64) (?ws ! (?f div 64) AND drop_bit (prev_shift ?f) word_mask))"
    using down [of ?ws] eq [of "word_bit ?ws" "\<lambda>i. i \<in> members st"] set(1) by simp
  have d2: "last_upto (\<lambda>i. i \<notin> members st) ?f
      (scan_down (map NOT ?ws) (?f div 64) (map NOT ?ws ! (?f div 64) AND drop_bit (prev_shift ?f) word_mask))"
    using down [of "map NOT ?ws"] eq [of "word_bit (map NOT ?ws)" "\<lambda>i. i \<notin> members st"] set(2) by simp
  show ?thesis unfolding if_P [OF False] using 1 2 d1 d2 by blast
qed

theorem bitset_prev_bit_finds_witness:
  "(\<exists>r. bitset_prev_set_bit demo_bitset 65 = Some (case r of None \<Rightarrow> -1 | Some p \<Rightarrow> int p)
      \<and> last_upto (\<lambda>i. i \<in> members demo_bitset) (nat 65) r)"
  using bitset_prev_bit_finds [OF demo_bitset_ok, of 65] by (simp add: demo_bitset_def)

subsection \<open>Membership and comparison\<close>

lemma bitset_isset_spec:
  assumes ok: "bitset_ok st" and "shl1_ok shl1" and "nat b mod 64 < 31"
  shows "bitset_isset shl1 st b
    = Some (if b < 0 \<or> b \<ge> int (bs_size st) then -1 else if nat b \<in> members st then 1 else 0)"
proof (cases "b < 0 \<or> b \<ge> int (bs_size st)")
  case False
  then have "nat b < bs_size st" by auto
  moreover from word_count_bound(2) [OF this] ok have "nat b div 64 < length (bs_bits st)" by (simp add: bitset_ok_def)
  moreover have "(w AND push_bit k 1 \<noteq> 0) = bit (w :: u64) k" for w k by (simp add: bit_iff_and_push_bit_not_eq_0)
  moreover have "shl1 (nat b mod 64) = push_bit (nat b mod 64) 1" using assms(2,3) by (simp add: shl1_ok_def)
  ultimately show ?thesis
    using False by (simp add: bitset_isset_def mem_at_Some members_def word_bit_def Let_def)
qed (simp add: bitset_isset_def)

text \<open>
  \<^verbatim>\<open>bitset_isset\<close> answers membership, and -1 outside the set, for the first 31 bits of each
  word, whatever the compiler makes of the wider shifts.
\<close>

theorem bitset_isset_low_bits:
  assumes ok: "bitset_ok st" and "shl1_ok shl1" and "nat b mod 64 < 31"
  shows "bitset_isset shl1 st b
    = Some (if b < 0 \<or> b \<ge> int (bs_size st) then -1 else if nat b \<in> members st then 1 else 0)"
  by (rule bitset_isset_spec [OF assms])

text \<open>How the compilers for x86 shift: the count modulo 32, and the result sign-extended.\<close>

definition shl1_x86 :: "nat \<Rightarrow> u64" where
  "shl1_x86 k = scast (push_bit (k mod 32) (1 :: u32))"

lemma shl1_x86_ok: "shl1_ok shl1_x86"
proof -
  have "(scast (push_bit k (1 :: u32)) :: u64) = push_bit k 1" if "k < 31" for k
    using that by (intro bit_word_eqI) (auto simp: bit_simps)
  then show ?thesis by (simp add: shl1_ok_def shl1_x86_def)
qed

theorem bitset_isset_low_bits_witness:
  "bitset_isset shl1_x86 demo_bitset 67 = Some (if nat 67 \<in> members demo_bitset then 1 else 0)"
  using bitset_isset_low_bits [OF demo_bitset_ok shl1_x86_ok, of 67] by (simp add: demo_bitset_def)

text \<open>
  Beyond those bits \<^verbatim>\<open>bitset_isset\<close> reads the wrong bit on x86: in a set that holds only 0 it
  reports 32 as a member, and in a set that holds only 32 it reports 32 as absent.
\<close>

theorem bitset_isset_wrong_bit:
  "bitset_isset shl1_x86 \<lparr>bs_size = 64, bs_bits = [push_bit 0 1]\<rparr> 32 = Some 1
   \<and> bitset_isset shl1_x86 \<lparr>bs_size = 64, bs_bits = [push_bit 32 1]\<rparr> 32 = Some 0"
  by (simp add: bitset_isset_def shl1_x86_def mem_at_def Let_def)

text \<open>
  \<^verbatim>\<open>bitset_compare\<close> passes the number of words to \<^verbatim>\<open>memcmp\<close>, which counts bytes: sets
  of up to 64 elements that differ only above the first eight compare as equal.
\<close>

theorem bitset_compare_first_bytes:
  "bitset_compare \<lparr>bs_size = 64, bs_bits = [x]\<rparr> \<lparr>bs_size = 64, bs_bits = [x XOR push_bit 8 y]\<rparr> 64 = Some 0"
proof -
  have "(ucast (x XOR push_bit 8 y) :: u8) = ucast x"
    by (intro bit_word_eqI) (simp add: bit_simps)
  then show ?thesis
    by (simp add: bitset_compare_def word_count_def word_bytes_def upt_conv_Cons)
qed

end
