(* ===== verification/IdsHeap.thy ===== *)
theory IdsHeap
  imports Bitset
begin

text \<open>
  The allocator of small identifiers of \<^verbatim>\<open>src/common/ids_heap.c\<close>, which numbers streams, channels
  and port forwardings. Its contract is the locale \<open>id_allocator\<close>; the clients rely on it only.
  The result of the mutex operation is an argument of the operations: 0, or an error.
\<close>

unbundle bit_operations_syntax

subsection \<open>The contract of an identifier allocator\<close>

datatype id_request = Get | Put int

locale id_allocator =
  fixes alloc :: "'s \<Rightarrow> (int \<times> 's) option"
    and free :: "'s \<Rightarrow> int \<Rightarrow> (int \<times> 's) option"
    and inv :: "'s \<Rightarrow> bool"
    and live :: "'s \<Rightarrow> int set"
    and limit :: "'s \<Rightarrow> int"
  assumes alloc_law: "inv s \<Longrightarrow> \<exists>r s'. alloc s = Some (r, s') \<and> inv s' \<and> limit s' = limit s
      \<and> (if live s = {1..limit s} then r = -1 \<and> live s' = live s
         else r \<in> {1..limit s} - live s \<and> live s' = insert r (live s))"
    and free_law: "inv s \<Longrightarrow> i \<in> {1..limit s} \<Longrightarrow> \<exists>s'. free s i = Some (0, s') \<and> inv s' \<and> limit s' = limit s
      \<and> live s - {i} \<subseteq> live s' \<and> live s' \<subseteq> live s"
    and live_law: "inv s \<Longrightarrow> live s \<subseteq> {1..limit s}"
begin

text \<open>A client that obtains identifiers and gives back those that it holds.\<close>

fun serve :: "id_request list \<Rightarrow> int list \<Rightarrow> 's \<Rightarrow> (int list \<times> 's) option" where
  "serve [] held s = Some (held, s)"
| "serve (Get # qs) held s = do { (r, s1) \<leftarrow> alloc s; serve qs (if r = -1 then held else r # held) s1 }"
| "serve (Put i # qs) held s =
     (if i \<in> set held then do { (_, s1) \<leftarrow> free s i; serve qs (removeAll i held) s1 }
      else serve qs held s)"

lemma serve_distinct:
  assumes "inv s" and "distinct held" and "set held \<subseteq> live s"
  shows "\<exists>held' s'. serve qs held s = Some (held', s') \<and> distinct held' \<and> set held' \<subseteq> live s' \<and> inv s'
    \<and> set held' \<subseteq> {1..limit s}"
  using assms
proof (induction qs held s rule: serve.induct)
  case (1 held s)
  then show ?case using live_law [of s] by auto
next
  case (2 qs held s)
  obtain r s1 where a: "alloc s = Some (r, s1)" "inv s1" "limit s1 = limit s"
    "if live s = {1..limit s} then r = -1 \<and> live s1 = live s
     else r \<in> {1..limit s} - live s \<and> live s1 = insert r (live s)"
    using alloc_law [OF "2.prems"(1)] by blast
  have "distinct (if r = -1 then held else r # held)" "set (if r = -1 then held else r # held) \<subseteq> live s1"
    using a(4) "2.prems"(2,3) by (auto split: if_splits)
  from "2.IH" [OF a(1) refl a(2) this] a(1,3) show ?case by simp
next
  case (3 i qs held s)
  show ?case
  proof (cases "i \<in> set held")
    case True
    then have "i \<in> {1..limit s}" using "3.prems"(1,3) live_law by blast
    from free_law [OF "3.prems"(1) this] obtain s1 where f: "free s i = Some (0, s1)" "inv s1"
      "limit s1 = limit s" "live s - {i} \<subseteq> live s1" by blast
    have "distinct (removeAll i held)" "set (removeAll i held) \<subseteq> live s1"
      using "3.prems"(2,3) f(4) by (auto simp: distinct_removeAll)
    from "3.IH"(1) [OF True f(1) refl f(2) this] f(1,3) True show ?thesis by simp
  next
    case False
    from "3.IH"(2) [OF this "3.prems"] False show ?thesis by simp
  qed
qed

end

subsection \<open>The allocator of the sources\<close>

record IdsHeap =
  latest_index :: int
  max_index :: int
  bitset_ids :: bitset

definition ENOMEM :: int where "ENOMEM = 12"
definition EDEADLK :: int where "EDEADLK = 35"

text \<open>A negative limit would be a huge \<^verbatim>\<open>size_t\<close>, for which no block is large enough.\<close>

definition ids_heap_init :: "int \<Rightarrow> IdsHeap \<Rightarrow> int \<Rightarrow> (int \<times> IdsHeap) option" where
  "ids_heap_init rc idsheap limit =
     (if rc \<noteq> 0 then Some (- ENOMEM, idsheap)
      else do {
        let h = idsheap\<lparr>latest_index := -1, max_index := limit\<rparr>;
        b \<leftarrow> bitset_init (bitset_ids h) (if limit < 0 then 2 ^ 64 - nat (- limit) else nat limit);
        Some (0, h\<lparr>bitset_ids := b\<rparr>)
      })"

definition ids_heap_alloc :: "int \<Rightarrow> IdsHeap \<Rightarrow> (int \<times> IdsHeap) option" where
  "ids_heap_alloc rc idsheap =
     (if rc \<noteq> 0 then Some (- EDEADLK, idsheap)
      else do {
        c_assert (max_index idsheap \<noteq> 0);
        let from = (latest_index idsheap + 1) mod max_index idsheap;
        pos1 \<leftarrow> bitset_next_clear_bit (bitset_ids idsheap) from;
        pos \<leftarrow> (if pos1 = -1 \<and> from \<noteq> 0 then bitset_next_clear_bit (bitset_ids idsheap) 0 else Some pos1);
        if pos \<noteq> -1 then do {
          (_, b) \<leftarrow> bitset_set (bitset_ids idsheap) pos;
          Some (pos + 1, idsheap\<lparr>bitset_ids := b, latest_index := pos\<rparr>)
        }
        else Some (pos, idsheap)
      })"

definition ids_heap_free :: "(nat \<Rightarrow> u64) \<Rightarrow> int \<Rightarrow> IdsHeap \<Rightarrow> int \<Rightarrow> (int \<times> IdsHeap) option" where
  "ids_heap_free shl1 rc idsheap id0 =
     do {
       c_assert (id0 > 0);
       c_assert (id0 \<le> max_index idsheap);
       let i = id0 - 1;
       if rc \<noteq> 0 then Some (- EDEADLK, idsheap)
       else do {
         q \<leftarrow> bitset_isset shl1 (bitset_ids idsheap) i;
         if q \<noteq> 0 then do {
           (_, b) \<leftarrow> bitset_clear (bitset_ids idsheap) i;
           Some (0, idsheap\<lparr>bitset_ids := b\<rparr>)
         }
         else Some (0, idsheap)
       }
     }"

definition ids_ok :: "IdsHeap \<Rightarrow> bool" where
  "ids_ok h \<longleftrightarrow> bitset_ok (bitset_ids h) \<and> int (bs_size (bitset_ids h)) = max_index h \<and> 0 < max_index h
     \<and> -1 \<le> latest_index h \<and> latest_index h < max_index h"

definition live_ids :: "IdsHeap \<Rightarrow> int set" where
  "live_ids h = (\<lambda>i. int i + 1) ` members (bitset_ids h)"

lemma live_ids_iff: "i \<in> live_ids h \<longleftrightarrow> 1 \<le> i \<and> nat (i - 1) \<in> members (bitset_ids h)"
  by (auto simp: live_ids_def image_iff) (rule bexI [of _ "nat (i - 1)"]; simp)

lemma live_ids_bound: "ids_ok h \<Longrightarrow> live_ids h \<subseteq> {1..max_index h}"
  by (auto simp: live_ids_iff ids_ok_def members_def)

lemma ids_heap_init_spec:
  assumes "0 < n" and "length (bs_bits (bitset_ids h)) = word_count (nat n)"
  shows "\<exists>h'. ids_heap_init 0 h n = Some (0, h') \<and> ids_ok h' \<and> live_ids h' = {} \<and> max_index h' = n"
  using bitset_init_spec [OF assms(2)] assms(1)
  by (auto simp: ids_heap_init_def ids_ok_def live_ids_def Let_def)

text \<open>The two searches of the allocation together find an element outside the set, if there is one.\<close>

lemma ids_heap_alloc_spec:
  assumes ok: "ids_ok h"
  shows "\<exists>r h'. ids_heap_alloc 0 h = Some (r, h') \<and> ids_ok h' \<and> max_index h' = max_index h
    \<and> (if live_ids h = {1..max_index h} then r = -1 \<and> live_ids h' = live_ids h
       else r \<in> {1..max_index h} - live_ids h \<and> live_ids h' = insert r (live_ids h))"
proof -
  let ?b = "bitset_ids h" and ?m = "max_index h" and ?f = "(latest_index h + 1) mod max_index h"
  have b: "bitset_ok ?b" "int (bs_size ?b) = ?m" "0 < ?m" using ok by (auto simp: ids_ok_def)
  have f: "0 \<le> ?f" "?f < int (bs_size ?b)" using b by simp_all
  from bitset_next_clear_bit_spec [OF b(1) f] obtain r1 where
    r1: "bitset_next_clear_bit ?b ?f = Some (case r1 of None \<Rightarrow> -1 | Some p \<Rightarrow> int p)"
      "first_from (\<lambda>i. i \<notin> members ?b) (nat ?f) (bs_size ?b) r1" by blast
  have z: "(0::int) \<le> 0" "0 < int (bs_size ?b)" using b by simp_all
  from bitset_next_clear_bit_spec [OF b(1) z] obtain r2 where
    r2: "bitset_next_clear_bit ?b 0 = Some (case r2 of None \<Rightarrow> -1 | Some p \<Rightarrow> int p)"
      "first_from (\<lambda>i. i \<notin> members ?b) 0 (bs_size ?b) r2" by auto
  define r where "r = (if r1 = None \<and> ?f \<noteq> 0 then r2 else r1)"
  let ?pos = "case r of None \<Rightarrow> -1 | Some p \<Rightarrow> int p"
  have ev: "ids_heap_alloc 0 h = (if ?pos \<noteq> -1 then do {
          (_, b) \<leftarrow> bitset_set ?b ?pos;
          Some (?pos + 1, h\<lparr>bitset_ids := b, latest_index := ?pos\<rparr>)
        } else Some (?pos, h))"
    using b(3) r1(1) r2(1) by (simp add: ids_heap_alloc_def r_def Let_def split: option.split)
  have full: "live_ids h = {1..?m} \<longleftrightarrow> (\<forall>i < bs_size ?b. i \<in> members ?b)"
  proof
    assume "live_ids h = {1..?m}"
    then have "int i + 1 \<in> live_ids h" if "i < bs_size ?b" for i using that b(2) by auto
    then show "\<forall>i < bs_size ?b. i \<in> members ?b" by (auto simp: live_ids_iff)
  next
    assume "\<forall>i < bs_size ?b. i \<in> members ?b"
    then have "{1..?m} \<subseteq> live_ids h" using b(2) by (auto simp: live_ids_iff)
    then show "live_ids h = {1..?m}" using live_ids_bound [OF ok] by blast
  qed
  show ?thesis
  proof (cases r)
    case None
    then have "\<forall>i < bs_size ?b. i \<in> members ?b"
      using r1(2) r2(2) by (auto simp: r_def first_from_def split: if_splits option.splits)
    then have "live_ids h = {1..?m}" using full by blast
    with ev None ok show ?thesis by auto
  next
    case (Some p)
    then have p: "p < bs_size ?b" "p \<notin> members ?b"
      using r1(2) r2(2) by (auto simp: r_def first_from_def split: if_splits option.splits)
    from bitset_set_spec [OF b(1), of "int p"] p(1) obtain b' where
      b': "bitset_set ?b (int p) = Some (0, b')" "bitset_ok b'" "bs_size b' = bs_size ?b"
        "members b' = insert p (members ?b)" by auto
    let ?h = "h\<lparr>bitset_ids := b', latest_index := int p\<rparr>"
    have "ids_heap_alloc 0 h = Some (int p + 1, ?h)" using ev Some b'(1) by simp
    moreover have "ids_ok ?h" using ok b' p(1) b(2) by (auto simp: ids_ok_def)
    moreover have "live_ids ?h = insert (int p + 1) (live_ids h)" using b'(4) by (simp add: live_ids_def)
    moreover have "int p + 1 \<in> {1..?m} - live_ids h" using p b(2) by (auto simp: live_ids_iff)
    moreover have "live_ids h \<noteq> {1..?m}" using full p by blast
    ultimately show ?thesis by auto
  qed
qed

lemma ids_heap_free_spec:
  assumes ok: "ids_ok h" and i: "i \<in> {1..max_index h}"
  shows "\<exists>h'. ids_heap_free shl1 0 h i = Some (0, h') \<and> ids_ok h' \<and> max_index h' = max_index h
    \<and> live_ids h - {i} \<subseteq> live_ids h' \<and> live_ids h' \<subseteq> live_ids h
    \<and> (shl1_ok shl1 \<and> nat (i - 1) mod 64 < 31 \<longrightarrow> live_ids h' = live_ids h - {i})"
proof -
  let ?b = "bitset_ids h" and ?p = "i - 1"
  have b: "bitset_ok ?b" "int (bs_size ?b) = max_index h" using ok by (auto simp: ids_ok_def)
  have p: "0 \<le> ?p" "?p < int (bs_size ?b)" using i b by auto
  then have "nat ?p < bs_size ?b" by simp
  from word_count_bound(2) [OF this] b(1) have "nat ?p div 64 < length (bs_bits ?b)" by (simp add: bitset_ok_def)
  then obtain q where q: "bitset_isset shl1 ?b ?p = Some q"
    using p by (cases "bitset_isset shl1 ?b ?p") (simp_all add: bitset_isset_def mem_at_def Let_def)
  from bitset_clear_spec [OF b(1) p] obtain b' where
    b': "bitset_clear ?b ?p = Some (0, b')" "bitset_ok b'" "bs_size b' = bs_size ?b"
      "members b' = members ?b - {nat ?p}" by auto
  let ?h = "h\<lparr>bitset_ids := b'\<rparr>"
  have ev: "ids_heap_free shl1 0 h i = Some (0, if q \<noteq> 0 then ?h else h)"
    using i q b'(1) by (simp add: ids_heap_free_def)
  have live: "live_ids ?h = live_ids h - {i}"
  proof (rule set_eqI)
    fix x
    have "nat (x - 1) = nat ?p \<longleftrightarrow> x = i" if "1 \<le> x" using that i by auto
    then show "x \<in> live_ids ?h \<longleftrightarrow> x \<in> live_ids h - {i}"
      unfolding live_ids_iff b'(4) using b'(4) by (cases "1 \<le> x") (simp_all add: live_ids_iff)
  qed
  have keep: "i \<notin> live_ids h" if "q = 0" "shl1_ok shl1" "nat ?p mod 64 < 31"
    using bitset_isset_spec [OF b(1) that(2,3)] q that(1) p
    by (auto simp: live_ids_iff split: if_splits)
  have okh: "ids_ok ?h" using ok b' by (simp add: ids_ok_def)
  show ?thesis
  proof (cases "q = 0")
    case True
    with ev ok keep show ?thesis by (intro exI [of _ h]) auto
  next
    case False
    with ev okh live show ?thesis by (intro exI [of _ ?h]) auto
  qed
qed

interpretation ids: id_allocator "ids_heap_alloc 0" "ids_heap_free shl1 0" ids_ok live_ids max_index
  for shl1 :: "nat \<Rightarrow> u64"
proof unfold_locales
  fix s assume "ids_ok s"
  then show "\<exists>r s'. ids_heap_alloc 0 s = Some (r, s') \<and> ids_ok s' \<and> max_index s' = max_index s
      \<and> (if live_ids s = {1..max_index s} then r = -1 \<and> live_ids s' = live_ids s
         else r \<in> {1..max_index s} - live_ids s \<and> live_ids s' = insert r (live_ids s))"
    by (rule ids_heap_alloc_spec)
  show "live_ids s \<subseteq> {1..max_index s}" using \<open>ids_ok s\<close> by (rule live_ids_bound)
  fix i assume "i \<in> {1..max_index s}"
  from ids_heap_free_spec [OF \<open>ids_ok s\<close> this, of shl1]
  show "\<exists>s'. ids_heap_free shl1 0 s i = Some (0, s') \<and> ids_ok s' \<and> max_index s' = max_index s
      \<and> live_ids s - {i} \<subseteq> live_ids s' \<and> live_ids s' \<subseteq> live_ids s" by blast
qed

subsection \<open>Properties\<close>

text \<open>
  Allocation returns an identifier between 1 and the limit that is not in use and marks exactly it
  as used; it returns -1, changing nothing, exactly when all identifiers are in use.
\<close>

theorem ids_heap_alloc_fresh:
  assumes "ids_ok h"
  shows "\<exists>r h'. ids_heap_alloc 0 h = Some (r, h') \<and> ids_ok h'
    \<and> (if live_ids h = {1..max_index h} then r = -1 \<and> live_ids h' = live_ids h
       else r \<in> {1..max_index h} - live_ids h \<and> live_ids h' = insert r (live_ids h))"
  using ids_heap_alloc_spec [OF assms] by blast

definition demo_ids :: IdsHeap where
  "demo_ids = \<lparr>latest_index = 0, max_index = 3, bitset_ids = \<lparr>bs_size = 3, bs_bits = [1]\<rparr>\<rparr>"

lemma demo_ids_ok: "ids_ok demo_ids"
  by (auto simp: ids_ok_def demo_ids_def bitset_ok_def word_count_def word_bit_def bit_1_iff)

lemma demo_ids_live: "live_ids demo_ids = {1}"
  by (auto simp: live_ids_def demo_ids_def members_def word_bit_def bit_1_iff image_iff)

theorem ids_heap_alloc_fresh_witness:
  "\<exists>r h'. ids_heap_alloc 0 demo_ids = Some (r, h') \<and> r \<in> {1..3} - {1} \<and> live_ids h' = {1, r}"
proof -
  have "{1::int} \<noteq> {1..3}" by (metis atLeastAtMost_singleton_iff atLeastAtMost_iff numeral_le_one_iff
        one_le_numeral order_refl semiring_norm(70) singletonD)
  moreover have "max_index demo_ids = 3" by (simp add: demo_ids_def)
  ultimately show ?thesis using ids_heap_alloc_fresh [OF demo_ids_ok] by (auto simp: demo_ids_live insert_commute)
qed

text \<open>
  C28. However its clients obtain and give back identifiers, the allocator never aborts, never hands out
  an identifier that is still held, and all held identifiers are within the limit; and it does so even
  where \<^verbatim>\<open>bitset_isset\<close> reads the wrong bit.
\<close>

theorem ids_heap_never_shared:
  assumes "ids_ok h"
  shows "\<exists>held h'. ids.serve shl1 qs [] h = Some (held, h') \<and> distinct held \<and> set held \<subseteq> live_ids h'
    \<and> set held \<subseteq> {1..max_index h}"
  using ids.serve_distinct [OF assms, of "[]" shl1 qs] by auto

theorem ids_heap_never_shared_witness:
  "\<exists>held h'. ids.serve shl1_x86 [Get, Get, Put 2, Get] [] demo_ids = Some (held, h') \<and> distinct held
     \<and> set held \<subseteq> live_ids h' \<and> set held \<subseteq> {1..max_index demo_ids}"
  by (rule ids_heap_never_shared [OF demo_ids_ok])



end
