(* ===== verification/LinkedList.thy ===== *)
theory LinkedList
  imports Prelude
begin

text \<open>
  The doubly linked lists of \<^verbatim>\<open>src/common/linkedlist.c\<close>. The entries are embedded in the
  caller's objects and linked through pointers, with the list's own \<^verbatim>\<open>head\<close> closing the circle;
  so the model keeps them in a heap from addresses to entries and updates the links one assignment at a
  time. Following a NULL or dangling pointer is \<open>None\<close>. The data pointers are addresses whose
  reference counts (\<^verbatim>\<open>ref\<close>, \<^verbatim>\<open>deref\<close>) are kept in \<open>refs\<close>. Taking the lock of a
  synchronised list is assumed to succeed.
\<close>

subsection \<open>Data\<close>

record ListEntry_i =
  le_data :: "nat option"
  le_next :: "nat option"
  le_prev :: "nat option"

record List =
  lst_size :: nat
  mod_count :: int
  compare :: "(nat \<Rightarrow> nat \<Rightarrow> int) option"
  entries :: "nat \<Rightarrow> ListEntry_i option"
  refs :: "nat \<Rightarrow> int"

text \<open>The address of \<^verbatim>\<open>lst->head\<close>.\<close>

definition head :: nat where "head = 0"

definition nxt :: "List \<Rightarrow> nat \<Rightarrow> nat option" where
  "nxt l p = do { e \<leftarrow> entries l p; le_next e }"

definition prv :: "List \<Rightarrow> nat \<Rightarrow> nat option" where
  "prv l p = do { e \<leftarrow> entries l p; le_prev e }"

definition dat :: "List \<Rightarrow> nat \<Rightarrow> nat option" where
  "dat l p = do { e \<leftarrow> entries l p; le_data e }"

definition set_next :: "nat \<Rightarrow> nat option \<Rightarrow> List \<Rightarrow> List option" where
  "set_next p v l = do { e \<leftarrow> entries l p; Some (l\<lparr>entries := (entries l)(p \<mapsto> e\<lparr>le_next := v\<rparr>)\<rparr>) }"

definition set_prev :: "nat \<Rightarrow> nat option \<Rightarrow> List \<Rightarrow> List option" where
  "set_prev p v l = do { e \<leftarrow> entries l p; Some (l\<lparr>entries := (entries l)(p \<mapsto> e\<lparr>le_prev := v\<rparr>)\<rparr>) }"

definition ref_data :: "nat \<Rightarrow> List \<Rightarrow> List" where
  "ref_data d l = l\<lparr>refs := (refs l)(d := refs l d + 1)\<rparr>"

definition deref_data :: "nat \<Rightarrow> List \<Rightarrow> List" where
  "deref_data d l = l\<lparr>refs := (refs l)(d := refs l d - 1)\<rparr>"

subsection \<open>Operations\<close>

text \<open>
  \<^verbatim>\<open>list_create\<close>: the object comes zeroed from \<^verbatim>\<open>rc_zalloc\<close>, and the code does not store
  its argument \<^verbatim>\<open>compare\<close>. The entries of the callers are in \<open>h\<close>.
\<close>

definition list_create ::
    "(nat \<Rightarrow> nat \<Rightarrow> int) option \<Rightarrow> (nat \<Rightarrow> ListEntry_i option) \<Rightarrow> (nat \<Rightarrow> int) \<Rightarrow> List" where
  "list_create cmp h rc =
     \<lparr>lst_size = 0, mod_count = 0, compare = None,
      entries = h(head \<mapsto> \<lparr>le_data = None, le_next = Some head, le_prev = Some head\<rparr>), refs = rc\<rparr>"

text \<open>The loops that walk \<open>n\<close> entries on.\<close>

primrec walk_next :: "List \<Rightarrow> nat \<Rightarrow> nat \<Rightarrow> nat option" where
  "walk_next l 0 p = Some p"
| "walk_next l (Suc n) p = do { q \<leftarrow> nxt l p; walk_next l n q }"

primrec walk_prev :: "List \<Rightarrow> nat \<Rightarrow> nat \<Rightarrow> nat option" where
  "walk_prev l 0 p = Some p"
| "walk_prev l (Suc n) p = do { q \<leftarrow> prv l p; walk_prev l n q }"

definition list_insert :: "List \<Rightarrow> int \<Rightarrow> nat \<Rightarrow> (int \<times> List) option" where
  "list_insert l index ent =
     do {
       d \<leftarrow> dat l ent;
       c_assert (index \<ge> - (int (lst_size l) + 1) \<and> index \<le> int (lst_size l));
       let l1 = ref_data d l;
       cur \<leftarrow> (if index \<ge> 0 then walk_next l1 (nat index) head else walk_prev l1 (nat (- index)) head);
       l2 \<leftarrow> set_prev ent (Some cur) l1;
       cn \<leftarrow> nxt l2 cur;
       l3 \<leftarrow> set_next ent (Some cn) l2;
       cn3 \<leftarrow> nxt l3 cur;
       l4 \<leftarrow> set_prev cn3 (Some ent) l3;
       l5 \<leftarrow> set_next cur (Some ent) l4;
       Some (1, l5\<lparr>lst_size := size_add (lst_size l5) 1, mod_count := mod_count l5 + 1\<rparr>)
     }"

definition list_push_head :: "List \<Rightarrow> nat \<Rightarrow> (int \<times> List) option" where
  "list_push_head l ent = list_insert l 0 ent"

definition list_push_tail :: "List \<Rightarrow> nat \<Rightarrow> (int \<times> List) option" where
  "list_push_tail l ent = list_insert l (-1) ent"

text \<open>Taking an entry out, as \<^verbatim>\<open>list_remove\<close> and \<^verbatim>\<open>list_remove_entry\<close> both write it.\<close>

definition unlink :: "List \<Rightarrow> nat \<Rightarrow> List option" where
  "unlink l ent =
     do {
       n \<leftarrow> nxt l ent;
       p \<leftarrow> prv l ent;
       l1 \<leftarrow> set_prev n (Some p) l;
       p1 \<leftarrow> prv l1 ent;
       n1 \<leftarrow> nxt l1 ent;
       l2 \<leftarrow> set_next p1 (Some n1) l1;
       l3 \<leftarrow> set_prev ent None l2;
       l4 \<leftarrow> set_next ent None l3;
       Some (l4\<lparr>lst_size := size_sub (lst_size l4) 1, mod_count := mod_count l4 + 1\<rparr>)
     }"

text \<open>The result \<open>None\<close> in the first component is the NULL returned for an entry that is in no list.\<close>

definition list_remove_entry :: "List \<Rightarrow> nat \<Rightarrow> (nat option \<times> List) option" where
  "list_remove_entry l ent =
     do {
       e \<leftarrow> entries l ent;
       if le_data e = None \<or> le_next e = None \<or> le_prev e = None then Some (None, l)
       else do {
         l1 \<leftarrow> unlink l ent;
         Some (le_data e, l1)
       }
     }"

definition entry_at :: "List \<Rightarrow> int \<Rightarrow> nat option" where
  "entry_at l index =
     (if index \<ge> 0 then do { f \<leftarrow> nxt l head; walk_next l (nat index) f }
      else walk_prev l (nat (- index)) head)"

definition list_remove :: "List \<Rightarrow> int \<Rightarrow> (nat option \<times> List) option" where
  "list_remove l index =
     do {
       c_assert (index \<ge> - int (lst_size l) \<and> index < int (lst_size l));
       ent \<leftarrow> entry_at l index;
       e \<leftarrow> entries l ent;
       l1 \<leftarrow> unlink l ent;
       Some (le_data e, l1)
     }"

definition list_pop_head :: "List \<Rightarrow> (nat option \<times> List) option" where
  "list_pop_head l = list_remove l 0"

definition list_pop_tail :: "List \<Rightarrow> (nat option \<times> List) option" where
  "list_pop_tail l = list_remove l (-1)"

definition list_get :: "List \<Rightarrow> int \<Rightarrow> (nat option \<times> List) option" where
  "list_get l index =
     do {
       c_assert (index \<ge> - int (lst_size l) \<and> index < int (lst_size l));
       ent \<leftarrow> entry_at l index;
       e \<leftarrow> entries l ent;
       Some (le_data e, case le_data e of Some d \<Rightarrow> ref_data d l | None \<Rightarrow> l)
     }"

definition list_size :: "List \<Rightarrow> nat" where
  "list_size l = lst_size l"

definition list_is_empty :: "List \<Rightarrow> bool" where
  "list_is_empty l \<longleftrightarrow> list_size l = 0"

text \<open>The loop of \<^verbatim>\<open>list_clear_i\<close>; it need not end on a list whose links are broken.\<close>

partial_function (option) clear_loop :: "nat \<Rightarrow> List \<Rightarrow> List option" where
  "clear_loop ent l =
     (if ent = head then Some l
      else do {
        n \<leftarrow> nxt l ent;
        d \<leftarrow> dat l ent;
        clear_loop n (deref_data d l)
      })"

definition list_clear :: "List \<Rightarrow> List option" where
  "list_clear l =
     do {
       ent \<leftarrow> nxt l head;
       l1 \<leftarrow> clear_loop ent l;
       l2 \<leftarrow> set_next head (Some head) l1;
       l3 \<leftarrow> set_prev head (Some head) l2;
       Some (l3\<lparr>lst_size := 0, mod_count := mod_count l3 + 1\<rparr>)
     }"

fun find_loop :: "List \<Rightarrow> nat \<Rightarrow> nat \<Rightarrow> nat \<Rightarrow> nat \<Rightarrow> nat option" where
  "find_loop l entry 0 ent index = Some index"
| "find_loop l entry (Suc n) ent index =
     do {
       e \<leftarrow> entries l ent;
       if (case compare l of Some c \<Rightarrow> c ent entry = 0 | None \<Rightarrow> le_data e = dat l entry) then Some index
       else do { ent' \<leftarrow> le_next e; find_loop l entry n ent' (index + 1) }
     }"

definition list_find :: "List \<Rightarrow> nat \<Rightarrow> int option" where
  "list_find l entry =
     do {
       d \<leftarrow> dat l entry;
       first \<leftarrow> nxt l head;
       index \<leftarrow> find_loop l entry (lst_size l) first 0;
       Some (if index \<ge> lst_size l then -1 else int index)
     }"

definition list_contains :: "List \<Rightarrow> nat \<Rightarrow> bool option" where
  "list_contains l entry = do { i \<leftarrow> list_find l entry; Some (i \<ge> 0) }"

subsection \<open>Iterators\<close>

record ListIterator_i =
  current :: "nat option"
  it_next :: nat
  expected_mod_count :: int

definition list_iterate :: "List \<Rightarrow> ListIterator_i option" where
  "list_iterate l =
     do {
       n \<leftarrow> nxt l head;
       Some \<lparr>current = None, it_next = n, expected_mod_count = mod_count l\<rparr>
     }"

text \<open>The results are 1 with the data, 0 at the end and -1 after a modification.\<close>

definition list_iterator_next ::
    "ListIterator_i \<Rightarrow> List \<Rightarrow> (int \<times> nat option \<times> ListIterator_i \<times> List) option" where
  "list_iterator_next it l =
     (if expected_mod_count it \<noteq> mod_count l then Some (-1, None, it, l)
      else if it_next it = head then Some (0, None, it, l)
      else do {
        n \<leftarrow> nxt l (it_next it);
        e \<leftarrow> entries l (it_next it);
        Some (1, le_data e, it\<lparr>current := Some (it_next it), it_next := n\<rparr>,
              case le_data e of Some d \<Rightarrow> ref_data d l | None \<Rightarrow> l)
      })"

definition list_iterator_has_next :: "ListIterator_i \<Rightarrow> bool" where
  "list_iterator_has_next it \<longleftrightarrow> it_next it \<noteq> head"

definition list_iterator_remove :: "ListIterator_i \<Rightarrow> List \<Rightarrow> (int \<times> ListIterator_i \<times> List) option" where
  "list_iterator_remove it l =
     do {
       cur \<leftarrow> current it;
       if expected_mod_count it \<noteq> mod_count l then Some (-1, it, l)
       else do {
         (ptr, l1) \<leftarrow> list_remove_entry l cur;
         case ptr of
           Some d \<Rightarrow> Some (1, it\<lparr>current := None, expected_mod_count := expected_mod_count it + 1\<rparr>,
                          deref_data d l1)
         | None \<Rightarrow> Some (0, it, l1)
       }
     }"

subsection \<open>The list behind the links\<close>

definition alive :: "List \<Rightarrow> nat \<Rightarrow> bool" where
  "alive l p \<longleftrightarrow> entries l p \<noteq> None"

definition link :: "List \<Rightarrow> nat \<Rightarrow> nat \<Rightarrow> bool" where
  "link l p q \<longleftrightarrow> nxt l p = Some q \<and> prv l q = Some p"

text \<open>The list of entries \<open>xs\<close>: the circle of links from the head through them, fewer than \<open>2 ^ 31\<close>.\<close>

definition list_rep :: "List \<Rightarrow> nat list \<Rightarrow> bool" where
  "list_rep l xs \<longleftrightarrow> distinct (head # xs) \<and> successively (link l) (head # xs @ [head])
     \<and> lst_size l = length xs \<and> length xs < 2 ^ 31 \<and> (\<forall>x \<in> set xs. dat l x \<noteq> None)"

definition upd_next :: "nat \<Rightarrow> nat option \<Rightarrow> List \<Rightarrow> List" where
  "upd_next p v l = l\<lparr>entries := (entries l)(p := map_option (le_next_update (\<lambda>_. v)) (entries l p))\<rparr>"

definition upd_prev :: "nat \<Rightarrow> nat option \<Rightarrow> List \<Rightarrow> List" where
  "upd_prev p v l = l\<lparr>entries := (entries l)(p := map_option (le_prev_update (\<lambda>_. v)) (entries l p))\<rparr>"

lemma set_links:
  "alive l p \<Longrightarrow> set_next p v l = Some (upd_next p v l)"
  "alive l p \<Longrightarrow> set_prev p v l = Some (upd_prev p v l)"
  by (auto simp: alive_def set_next_def set_prev_def upd_next_def upd_prev_def)

lemma upd_simps [simp]:
  "alive l p \<Longrightarrow> nxt (upd_next p v l) q = (if q = p then v else nxt l q)"
  "prv (upd_next p v l) q = prv l q"
  "nxt (upd_prev p v l) q = nxt l q"
  "alive l p \<Longrightarrow> prv (upd_prev p v l) q = (if q = p then v else prv l q)"
  "dat (upd_next p v l) q = dat l q" "dat (upd_prev p v l) q = dat l q"
  "alive (upd_next p v l) q = alive l q" "alive (upd_prev p v l) q = alive l q"
  "lst_size (upd_next p v l) = lst_size l" "lst_size (upd_prev p v l) = lst_size l"
  "mod_count (upd_next p v l) = mod_count l" "mod_count (upd_prev p v l) = mod_count l"
  "refs (upd_next p v l) = refs l" "refs (upd_prev p v l) = refs l"
  "compare (upd_next p v l) = compare l" "compare (upd_prev p v l) = compare l"
  by (cases "entries l p"; auto simp: nxt_def prv_def dat_def alive_def upd_next_def upd_prev_def)+

lemma other_simps [simp]:
  "nxt (ref_data d l) p = nxt l p" "prv (ref_data d l) p = prv l p" "dat (ref_data d l) p = dat l p"
  "alive (ref_data d l) p = alive l p" "lst_size (ref_data d l) = lst_size l" "mod_count (ref_data d l) = mod_count l"
  "nxt (deref_data d l) p = nxt l p" "prv (deref_data d l) p = prv l p" "dat (deref_data d l) p = dat l p"
  "alive (deref_data d l) p = alive l p" "lst_size (deref_data d l) = lst_size l" "mod_count (deref_data d l) = mod_count l"
  "refs (deref_data d l) = (refs l)(d := refs l d - 1)" "refs (ref_data d l) = (refs l)(d := refs l d + 1)"
  "nxt (l\<lparr>lst_size := n, mod_count := m\<rparr>) p = nxt l p" "prv (l\<lparr>lst_size := n, mod_count := m\<rparr>) p = prv l p"
  "dat (l\<lparr>lst_size := n, mod_count := m\<rparr>) p = dat l p" "alive (l\<lparr>lst_size := n, mod_count := m\<rparr>) p = alive l p"
  by (simp_all add: nxt_def prv_def dat_def alive_def ref_data_def deref_data_def)

lemma link_alive: "link l p q \<Longrightarrow> alive l p \<and> alive l q"
  by (auto simp: link_def nxt_def prv_def alive_def bind_Some)

lemma dat_alive: "dat l p \<noteq> None \<Longrightarrow> alive l p"
  by (auto simp: dat_def alive_def bind_Some)

text \<open>Only the outgoing links of all but the last and the incoming links of all but the first matter.\<close>

lemma successively_link_cong:
  assumes "successively (link l) ys" and "\<And>p. p \<in> set (butlast ys) \<Longrightarrow> nxt l' p = nxt l p"
    and "\<And>q. q \<in> set (tl ys) \<Longrightarrow> prv l' q = prv l q"
  shows "successively (link l') ys"
  using assms
proof (induction ys rule: induct_list012)
  case (3 x y zs)
  have "successively (link l') (y # zs)"
  proof (rule "3.IH"(2))
    show "successively (link l) (y # zs)" using "3.prems"(1) by simp
    show "nxt l' p = nxt l p" if "p \<in> set (butlast (y # zs))" for p
      using that "3.prems"(2) by simp
    show "prv l' q = prv l q" if "q \<in> set (tl (y # zs))" for q
      using that "3.prems"(3) by simp
  qed
  moreover have "nxt l' x = nxt l x" "prv l' y = prv l y" using "3.prems"(2,3) by simp_all
  ultimately show ?case using "3.prems"(1) by (simp add: link_def)
qed simp_all

lemma rep_split:
  assumes "list_rep l (as @ bs)"
  shows "successively (link l) (head # as)" "successively (link l) (bs @ [head])"
    "link l (last (head # as)) (hd (bs @ [head]))"
proof -
  have "successively (link l) ((head # as) @ (bs @ [head]))" using assms by (simp add: list_rep_def)
  then show "successively (link l) (head # as)" "successively (link l) (bs @ [head])"
    "link l (last (head # as)) (hd (bs @ [head]))"
    unfolding successively_append_iff by auto
qed

text \<open>Joining two chains.\<close>

lemma successively_join:
  assumes "successively (link l) (head # as)" and "successively (link l) (bs @ [head])"
    and "link l (last (head # as)) (hd (bs @ [head]))"
  shows "successively (link l) (head # (as @ bs) @ [head])"
proof -
  have "successively (link l) ((head # as) @ (bs @ [head]))"
    using assms by (simp only: successively_append_iff) simp
  then show ?thesis by simp
qed

lemma last_not_butlast: "distinct xs \<Longrightarrow> xs \<noteq> [] \<Longrightarrow> last xs \<notin> set (butlast xs)"
  by (metis append_butlast_last_id distinct_butlast not_distinct_conv_prefix)

lemma hd_not_tl: "distinct xs \<Longrightarrow> xs \<noteq> [] \<Longrightarrow> hd xs \<notin> set (tl xs)"
  by (cases xs) auto

subsection \<open>Walking\<close>

definition circle :: "nat list \<Rightarrow> nat list" where
  "circle xs = head # xs @ [head]"

lemma circle_nth:
  "circle xs ! 0 = head" "i < length xs \<Longrightarrow> circle xs ! Suc i = xs ! i" "circle xs ! Suc (length xs) = head"
  by (simp_all add: circle_def nth_append)

lemma circle_link: "list_rep l xs \<Longrightarrow> k \<le> length xs \<Longrightarrow> link l (circle xs ! k) (circle xs ! Suc k)"
  unfolding list_rep_def successively_conv_nth circle_def by simp

lemma walk_next_circle:
  assumes "list_rep l xs"
  shows "k + m \<le> Suc (length xs) \<Longrightarrow> walk_next l m (circle xs ! k) = Some (circle xs ! (k + m))"
  using circle_link [OF assms] by (induction m arbitrary: k) (auto simp: link_def)

lemma walk_prev_circle:
  assumes "list_rep l xs"
  shows "m \<le> k \<Longrightarrow> k \<le> Suc (length xs) \<Longrightarrow> walk_prev l m (circle xs ! k) = Some (circle xs ! (k - m))"
proof (induction m arbitrary: k)
  case (Suc m)
  then obtain j where k: "k = Suc j" by (cases k) auto
  with Suc circle_link [OF assms, of j] show ?case by (simp add: link_def)
qed simp

text \<open>A position counted from the head, or backwards from the end.\<close>

definition position :: "nat \<Rightarrow> int \<Rightarrow> nat" where
  "position n index = (if index \<ge> 0 then nat index else nat (int n + 1 + index))"

lemma walk_position:
  assumes rep: "list_rep l xs" and "index \<ge> - (int (length xs) + 1)" and "index \<le> int (length xs)"
  shows "(if index \<ge> 0 then walk_next l (nat index) head else walk_prev l (nat (- index)) head)
     = Some (last (head # take (position (length xs) index) xs))"
proof -
  let ?k = "position (length xs) index"
  have k: "?k \<le> length xs" using assms by (auto simp: position_def)
  have c: "circle xs ! ?k = last (head # take ?k xs)"
    using k by (cases ?k) (auto simp: circle_nth take_Suc_conv_app_nth)
  show ?thesis
  proof (cases "index \<ge> 0")
    case True
    with walk_next_circle [OF rep, of 0 "nat index"] assms(3) c show ?thesis
      by (simp add: circle_nth position_def)
  next
    case False
    then have "Suc (length xs) - nat (- index) = ?k" using assms(2) by (simp add: position_def)
    with walk_prev_circle [OF rep, of "nat (- index)" "Suc (length xs)"] False assms(2) c show ?thesis
      by (simp add: circle_nth)
  qed
qed

lemma entry_at_rep:
  assumes rep: "list_rep l xs" and "index \<ge> - int (length xs)" and "index < int (length xs)"
  shows "entry_at l index = Some (xs ! nat (if index \<ge> 0 then index else int (length xs) + index))"
proof (cases "index \<ge> 0")
  case True
  have "nxt l head = Some (circle xs ! 1)" using circle_link [OF rep, of 0] by (simp add: link_def circle_nth)
  with walk_next_circle [OF rep, of 1 "nat index"] assms True show ?thesis
    by (simp add: entry_at_def circle_nth(2))
next
  case False
  have "Suc (length xs) - nat (- index) = Suc (nat (int (length xs) + index))" using False assms(2) by simp
  with walk_prev_circle [OF rep, of "nat (- index)" "Suc (length xs)"] False assms(2) show ?thesis
    by (simp add: entry_at_def circle_nth)
qed

subsection \<open>Inserting and removing\<close>

lemma list_insert_rep:
  assumes rep: "list_rep l xs" and d: "dat l ent = Some d" and ent: "ent \<notin> set (head # xs)"
    and i: "index \<ge> - (int (length xs) + 1)" "index \<le> int (length xs)" and len: "length xs + 1 < 2 ^ 31"
    and k: "k = position (length xs) index"
  shows "\<exists>l'. list_insert l index ent = Some (1, l') \<and> list_rep l' (take k xs @ ent # drop k xs)
    \<and> refs l' = (refs l)(d := refs l d + 1) \<and> mod_count l' = mod_count l + 1 \<and> dat l' = dat l"
proof -
  define as where "as = take k xs"
  define bs where "bs = drop k xs"
  have xs: "xs = as @ bs" by (simp add: as_def bs_def)
  let ?cur = "last (head # as)" and ?nx = "hd (bs @ [head])"
  note sp = rep_split [OF rep [unfolded xs]]
  have dist: "distinct (head # as @ bs)" using rep xs by (simp add: list_rep_def)
  have ne: "ent \<noteq> ?cur" "ent \<noteq> ?nx" using ent xs by (auto simp: hd_append split: if_splits)
  have al: "alive l ent" "alive l ?cur" "alive l ?nx"
    using dat_alive d link_alive [OF sp(3)] by auto
  have nx: "nxt l ?cur = Some ?nx" using sp(3) by (simp add: link_def)
  define l' where "l' = (upd_next ?cur (Some ent) (upd_prev ?nx (Some ent) (upd_next ent (Some ?nx)
      (upd_prev ent (Some ?cur) (ref_data d l)))))"
  have ls: "lst_size l = length xs" using rep by (simp add: list_rep_def)
  have walk: "(if index \<ge> 0 then walk_next (ref_data d l) (nat index) head
      else walk_prev (ref_data d l) (nat (- index)) head) = Some ?cur"
  proof -
    have "list_rep (ref_data d l) xs" using rep by (simp add: list_rep_def link_def)
    from walk_position [OF this i] show ?thesis unfolding as_def k .
  qed
  have ev: "list_insert l index ent = Some (1, l'\<lparr>lst_size := size_add (lst_size l') 1, mod_count := mod_count l' + 1\<rparr>)"
    using d i ls walk nx al ne by (simp add: list_insert_def set_links l'_def Let_def)
  have n: "nxt l' p = (if p = ?cur then Some ent else if p = ent then Some ?nx else nxt l p)" for p
    using al ne by (simp add: l'_def)
  have pr: "prv l' q = (if q = ?nx then Some ent else if q = ent then Some ?cur else prv l q)" for q
    using al ne by (simp add: l'_def)
  have 1: "successively (link l') (head # as)"
  proof (rule successively_link_cong [OF sp(1)])
    show "nxt l' p = nxt l p" if "p \<in> set (butlast (head # as))" for p
      using that last_not_butlast [of "head # as"] dist ent xs in_set_butlastD [OF that] by (auto simp: n)
    have "?nx \<notin> set as" using dist by (cases bs) auto
    then show "prv l' q = prv l q" if "q \<in> set (tl (head # as))" for q
      using that ent xs by (auto simp: pr)
  qed
  have 2: "successively (link l') (bs @ [head])"
  proof (rule successively_link_cong [OF sp(2)])
    have "?cur \<notin> set bs" using dist last_in_set [of "head # as"] by auto
    then show "nxt l' p = nxt l p" if "p \<in> set (butlast (bs @ [head]))" for p
      using that ent xs by (auto simp: n)
    have "?nx \<notin> set (tl (bs @ [head]))" using dist by (intro hd_not_tl) auto
    then show "prv l' q = prv l q" if "q \<in> set (tl (bs @ [head]))" for q
      using that ent xs by (cases bs) (auto simp: pr)
  qed
  have 3: "successively (link l') (ent # bs @ [head])"
    using 2 ne by (cases "bs @ [head]") (auto simp: link_def n pr)
  have "successively (link l') (head # (as @ ent # bs) @ [head])"
    using successively_join [OF 1, of "ent # bs"] 3 ne by (simp add: link_def n pr)
  then have "list_rep (l'\<lparr>lst_size := size_add (lst_size l') 1, mod_count := mod_count l' + 1\<rparr>) (as @ ent # bs)"
    using rep ent d len dist xs by (auto simp: list_rep_def link_def [abs_def] l'_def size_simps)
  then show ?thesis using ev as_def bs_def by (auto simp: l'_def)
qed

lemma unlink_rep:
  assumes rep: "list_rep l xs" and xs: "xs = as @ ent # bs"
  shows "\<exists>l'. unlink l ent = Some l' \<and> list_rep l' (as @ bs) \<and> mod_count l' = mod_count l + 1 \<and> refs l' = refs l
    \<and> dat l' = dat l \<and> nxt l' ent = None \<and> prv l' ent = None \<and> compare l' = compare l"
proof -
  let ?cur = "last (head # as)" and ?nx = "hd (bs @ [head])"
  have dist: "distinct (head # as @ ent # bs)" using rep xs by (simp add: list_rep_def)
  note sp = rep_split [OF rep [unfolded xs]]
  have e: "link l ent ?nx" "successively (link l) (bs @ [head])"
    using sp(2) by (cases "bs @ [head]"; auto)+
  have c: "link l ?cur ent" using sp(3) by simp
  have ne: "ent \<noteq> ?cur" "ent \<noteq> ?nx" using dist by (auto simp: hd_append split: if_splits)
  have al: "alive l ent" "alive l ?cur" "alive l ?nx" using link_alive [OF e(1)] link_alive [OF c] by auto
  have lk: "nxt l ent = Some ?nx" "prv l ent = Some ?cur" using e(1) c by (simp_all add: link_def)
  define l' where "l' = upd_next ent None (upd_prev ent None (upd_next ?cur (Some ?nx) (upd_prev ?nx (Some ?cur) l)))"
  have ev: "unlink l ent = Some (l'\<lparr>lst_size := size_sub (lst_size l') 1, mod_count := mod_count l' + 1\<rparr>)"
    using al ne lk by (simp add: unlink_def set_links l'_def)
  have n: "nxt l' p = (if p = ent then None else if p = ?cur then Some ?nx else nxt l p)" for p
    using al by (simp add: l'_def)
  have pr: "prv l' q = (if q = ent then None else if q = ?nx then Some ?cur else prv l q)" for q
    using al by (simp add: l'_def)
  have 1: "successively (link l') (head # as)"
  proof (rule successively_link_cong [OF sp(1)])
    show "nxt l' p = nxt l p" if "p \<in> set (butlast (head # as))" for p
      using that last_not_butlast [of "head # as"] dist in_set_butlastD [OF that] by (auto simp: n)
    have "?nx \<notin> set as" using dist by (cases bs) auto
    then show "prv l' q = prv l q" if "q \<in> set (tl (head # as))" for q
      using that dist by (auto simp: pr)
  qed
  have 2: "successively (link l') (bs @ [head])"
  proof (rule successively_link_cong [OF e(2)])
    have "?cur \<notin> set bs" using dist last_in_set [of "head # as"] by auto
    then show "nxt l' p = nxt l p" if "p \<in> set (butlast (bs @ [head]))" for p
      using that dist by (auto simp: n)
    have "?nx \<notin> set (tl (bs @ [head]))" using dist by (intro hd_not_tl) auto
    then show "prv l' q = prv l q" if "q \<in> set (tl (bs @ [head]))" for q
      using that dist by (cases bs) (auto simp: pr)
  qed
  have "link l' ?cur ?nx" using ne by (auto simp: link_def n pr)
  from successively_join [OF 1 2 this]
  have "list_rep (l'\<lparr>lst_size := size_sub (lst_size l') 1, mod_count := mod_count l' + 1\<rparr>) (as @ bs)"
    using rep dist xs by (auto simp: list_rep_def link_def [abs_def] l'_def size_simps)
  then show ?thesis using ev n [of ent] pr [of ent] by (auto simp: l'_def)
qed

lemma rep_links:
  assumes "list_rep l xs" and "x \<in> set xs"
  shows "\<exists>e d. entries l x = Some e \<and> le_data e = Some d \<and> le_next e \<noteq> None \<and> le_prev e \<noteq> None \<and> dat l x = Some d"
proof -
  from assms(2) obtain as bs where xs: "xs = as @ x # bs" by (auto simp: in_set_conv_decomp)
  note sp = rep_split [OF assms(1) [unfolded xs]]
  have "link l x (hd (bs @ [head]))" using sp(2) by (cases "bs @ [head]"; auto)
  moreover have "link l (last (head # as)) x" using sp(3) by simp
  moreover obtain d where "dat l x = Some d" using assms by (auto simp: list_rep_def)
  ultimately show ?thesis by (auto simp: link_def nxt_def prv_def dat_def bind_Some)
qed

lemma list_remove_entry_rep:
  assumes rep: "list_rep l xs" and xs: "xs = as @ ent # bs"
  shows "\<exists>l' d. list_remove_entry l ent = Some (Some d, l') \<and> dat l ent = Some d \<and> list_rep l' (as @ bs)
    \<and> mod_count l' = mod_count l + 1 \<and> refs l' = refs l \<and> dat l' = dat l \<and> compare l' = compare l
    \<and> list_remove_entry l' ent = Some (None, l')"
proof -
  from rep_links [OF rep, of ent] xs obtain e d where
    e: "entries l ent = Some e" "le_data e = Some d" "le_next e \<noteq> None" "le_prev e \<noteq> None" "dat l ent = Some d" by auto
  from unlink_rep [OF assms] obtain l' where
    u: "unlink l ent = Some l'" "list_rep l' (as @ bs)" "mod_count l' = mod_count l + 1" "refs l' = refs l"
      "dat l' = dat l" "nxt l' ent = None" "compare l' = compare l" by blast
  have "dat l' ent = Some d" using u(5) e(5) by simp
  then obtain e' where "entries l' ent = Some e'" by (auto simp: dat_def bind_Some)
  then have "list_remove_entry l' ent = Some (None, l')" using u(6) by (auto simp: list_remove_entry_def nxt_def)
  with e u show ?thesis by (auto simp: list_remove_entry_def)
qed

lemma list_remove_rep:
  assumes rep: "list_rep l xs" and i: "index \<ge> - int (length xs)" "index < int (length xs)"
    and k: "k = nat (if index \<ge> 0 then index else int (length xs) + index)"
  shows "\<exists>l'. list_remove l index = Some (dat l (xs ! k), l') \<and> list_rep l' (take k xs @ drop (Suc k) xs)
    \<and> mod_count l' = mod_count l + 1 \<and> refs l' = refs l \<and> dat l' = dat l"
proof -
  have kl: "k < length xs" using i k by (auto split: if_splits)
  from entry_at_rep [OF rep i] k have ea: "entry_at l index = Some (xs ! k)" by simp
  from rep_links [OF rep, of "xs ! k"] kl obtain e where
    e: "entries l (xs ! k) = Some e" "dat l (xs ! k) = le_data e" by auto
  from unlink_rep [OF rep id_take_nth_drop [OF kl]] obtain l' where
    "unlink l (xs ! k) = Some l'" "list_rep l' (take k xs @ drop (Suc k) xs)" "mod_count l' = mod_count l + 1"
    "refs l' = refs l" "dat l' = dat l" by blast
  moreover have "lst_size l = length xs" using rep by (simp add: list_rep_def)
  ultimately show ?thesis using ea e i by (auto simp: list_remove_def)
qed

subsection \<open>Clearing and searching\<close>

lemma clear_loop_rep:
  assumes rep: "list_rep l (as @ bs)"
  shows "\<exists>l'. clear_loop (hd (bs @ [head])) l = Some l' \<and> list_rep l' (as @ bs) \<and> mod_count l' = mod_count l
    \<and> dat l' = dat l \<and> (\<forall>d. refs l' d = refs l d - int (length (filter (\<lambda>x. dat l x = Some d) bs)))"
  using rep
proof (induction bs arbitrary: as l)
  case Nil
  then show ?case by (subst clear_loop.simps) simp
next
  case (Cons b bs)
  have "b \<noteq> head" using Cons.prems by (auto simp: list_rep_def)
  from rep_links [OF Cons.prems, of b] obtain d where d: "dat l b = Some d" by auto
  have "link l b (hd (bs @ [head]))" using rep_split(2) [OF Cons.prems] by (cases "bs @ [head]"; auto)
  then have n: "nxt l b = Some (hd (bs @ [head]))" by (simp add: link_def)
  have rep': "list_rep (deref_data d l) ((as @ [b]) @ bs)"
    using Cons.prems by (simp add: list_rep_def link_def [abs_def])
  have dd: "dat (deref_data d l) = dat l" by (rule ext) simp
  from Cons.IH [OF rep', unfolded dd] obtain l' where
    l': "clear_loop (hd (bs @ [head])) (deref_data d l) = Some l'" "list_rep l' ((as @ [b]) @ bs)"
      "mod_count l' = mod_count (deref_data d l)" "dat l' = dat l"
      "\<forall>x. refs l' x = refs (deref_data d l) x - int (length (filter (\<lambda>y. dat l y = Some x) bs))" by blast
  have "clear_loop (hd ((b # bs) @ [head])) l = Some l'"
    using \<open>b \<noteq> head\<close> n d l'(1) by (subst clear_loop.simps) simp
  moreover have "refs l' x = refs l x - int (length (filter (\<lambda>y. dat l y = Some x) (b # bs)))" for x
    using l'(5) d by simp
  ultimately show ?case using l'(2,3,4) by auto
qed

lemma list_clear_rep:
  assumes rep: "list_rep l xs"
  shows "\<exists>l'. list_clear l = Some l' \<and> list_rep l' [] \<and> mod_count l' = mod_count l + 1
    \<and> (\<forall>d. refs l' d = refs l d - int (length (filter (\<lambda>x. dat l x = Some d) xs)))"
proof -
  have n: "nxt l head = Some (hd (xs @ [head]))"
    using rep_split(3) [of l "[]" xs] rep by (simp add: link_def)
  from clear_loop_rep [of l "[]" xs] rep obtain l1 where
    l1: "clear_loop (hd (xs @ [head])) l = Some l1" "list_rep l1 xs" "mod_count l1 = mod_count l"
      "\<forall>d. refs l1 d = refs l d - int (length (filter (\<lambda>x. dat l x = Some d) xs))" by auto
  have al: "alive l1 head" using link_alive [OF circle_link [OF l1(2), of 0]] by (simp add: circle_nth)
  let ?l = "upd_prev head (Some head) (upd_next head (Some head) l1)"
  have "list_clear l = Some (?l\<lparr>lst_size := 0, mod_count := mod_count ?l + 1\<rparr>)"
    using n l1(1) al by (simp add: list_clear_def set_links)
  moreover have "list_rep (?l\<lparr>lst_size := 0, mod_count := mod_count ?l + 1\<rparr>) []"
    using al by (simp add: list_rep_def link_def)
  ultimately show ?thesis using l1 by auto
qed

text \<open>The first entry with the given data, by address since no list has a comparison function.\<close>

lemma find_loop_rep:
  assumes "list_rep l (as @ bs)" and "compare l = None" and "dat l entry = Some d"
  shows "find_loop l entry (length bs) (hd (bs @ [head])) (length as)
    = Some (length as + length (takeWhile (\<lambda>x. dat l x \<noteq> Some d) bs))"
  using assms(1)
proof (induction bs arbitrary: as)
  case (Cons b bs)
  from rep_links [OF Cons.prems, of b] obtain e c where
    e: "entries l b = Some e" "le_data e = Some c" "dat l b = Some c" by auto
  have "link l b (hd (bs @ [head]))" using rep_split(2) [OF Cons.prems] by (cases "bs @ [head]"; auto)
  then have n: "le_next e = Some (hd (bs @ [head]))" using e(1) by (simp add: link_def nxt_def)
  from Cons.IH [of "as @ [b]"] Cons.prems e n assms(2,3) show ?case by simp
qed simp

lemma list_find_rep:
  assumes rep: "list_rep l xs" and c: "compare l = None" and d: "dat l entry = Some d"
  shows "list_find l entry = Some (if \<exists>x \<in> set xs. dat l x = Some d
      then int (length (takeWhile (\<lambda>x. dat l x \<noteq> Some d) xs)) else -1)"
proof -
  have n: "nxt l head = Some (hd (xs @ [head]))"
    using rep_split(3) [of l "[]" xs] rep by (simp add: link_def)
  have "length (takeWhile (\<lambda>x. dat l x \<noteq> Some d) ys) \<ge> length ys \<longleftrightarrow> \<not> (\<exists>x \<in> set ys. dat l x = Some d)" for ys
    by (induction ys) auto
  then show ?thesis
    using find_loop_rep [of l "[]" xs entry d] rep c d n by (auto simp: list_find_def list_rep_def)
qed

subsection \<open>Iterating\<close>

text \<open>
  A client that removes, while it iterates, the entries whose data satisfies \<open>P\<close>, and drops the
  reference that the iterator gives it.
\<close>

partial_function (option) remove_if :: "(nat \<Rightarrow> bool) \<Rightarrow> ListIterator_i \<Rightarrow> List \<Rightarrow> (int \<times> List) option" where
  "remove_if P it l =
     do {
       (rc, d, it1, l1) \<leftarrow> list_iterator_next it l;
       if rc \<noteq> 1 then Some (rc, l1)
       else do {
         x \<leftarrow> d;
         let l2 = deref_data x l1;
         if P x then do {
           (_, it2, l3) \<leftarrow> list_iterator_remove it1 l2;
           remove_if P it2 l3
         }
         else remove_if P it1 l2
       }
     }"

lemma rep_same_links:
  "list_rep l xs \<Longrightarrow> nxt l' = nxt l \<Longrightarrow> prv l' = prv l \<Longrightarrow> dat l' = dat l \<Longrightarrow> lst_size l' = lst_size l \<Longrightarrow> list_rep l' xs"
  by (simp add: list_rep_def link_def [abs_def])

lemma deref_ref [simp]: "deref_data d (ref_data d l) = l"
  by (simp add: deref_data_def ref_data_def)

lemma remove_if_rep:
  assumes "list_rep l (as @ bs)" and "it_next it = hd (bs @ [head])" and "expected_mod_count it = mod_count l"
  shows "\<exists>l'. remove_if P it l = Some (0, l')
    \<and> list_rep l' (as @ filter (\<lambda>x. \<not> P (the (dat l x))) bs)
    \<and> (\<forall>d. refs l' d = refs l d - int (length (filter (\<lambda>x. dat l x = Some d \<and> P d) bs)))"
  using assms
proof (induction bs arbitrary: as l it)
  case Nil
  then show ?case by (subst remove_if.simps) (simp add: list_iterator_next_def)
next
  case (Cons b bs)
  have bh: "b \<noteq> head" using Cons.prems(1) by (auto simp: list_rep_def)
  from rep_links [OF Cons.prems(1), of b] obtain e d where
    e: "entries l b = Some e" "le_data e = Some d" "dat l b = Some d" by auto
  have "link l b (hd (bs @ [head]))" using rep_split(2) [OF Cons.prems(1)] by (cases "bs @ [head]"; auto)
  then have n: "nxt l b = Some (hd (bs @ [head]))" by (simp add: link_def)
  let ?it = "it\<lparr>current := Some b, it_next := hd (bs @ [head])\<rparr>"
  have nx: "list_iterator_next it l = Some (1, Some d, ?it, ref_data d l)"
    using Cons.prems(2,3) bh n e by (simp add: list_iterator_next_def)
  show ?case
  proof (cases "P d")
    case False
    from Cons.IH [of l "as @ [b]" ?it] Cons.prems obtain l' where
      "remove_if P ?it l = Some (0, l')" "list_rep l' (as @ b # filter (\<lambda>x. \<not> P (the (dat l x))) bs)"
      "\<forall>d. refs l' d = refs l d - int (length (filter (\<lambda>x. dat l x = Some d \<and> P d) bs))" by auto
    with False e(3) show ?thesis by (subst remove_if.simps) (auto simp: nx)
  next
    case True
    from list_remove_entry_rep [OF Cons.prems(1) refl] obtain l1 where
      r: "list_remove_entry l b = Some (Some d, l1)" "list_rep l1 (as @ bs)" "mod_count l1 = mod_count l + 1"
        "refs l1 = refs l" "dat l1 = dat l" using e(3) by auto
    let ?it2 = "?it\<lparr>current := None, expected_mod_count := expected_mod_count it + 1\<rparr>"
    have rm: "list_iterator_remove ?it l = Some (1, ?it2, deref_data d l1)"
      using Cons.prems(3) r(1) by (simp add: list_iterator_remove_def)
    have "list_rep (deref_data d l1) (as @ bs)"
      by (rule rep_same_links [OF r(2)]) (simp_all add: fun_eq_iff)
    from Cons.IH [OF this, of ?it2] Cons.prems(3) r(3) obtain l' where
      "remove_if P ?it2 (deref_data d l1) = Some (0, l')"
      "list_rep l' (as @ filter (\<lambda>x. \<not> P (the (dat l x))) bs)"
      "\<forall>x. refs l' x = refs (deref_data d l1) x - int (length (filter (\<lambda>y. dat l y = Some x \<and> P x) bs))"
      using r(5) by auto
    with True e(3) r(4) show ?thesis by (subst remove_if.simps) (auto simp: nx rm)
  qed
qed

subsection \<open>A queue of entries\<close>

text \<open>What a user of \<^verbatim>\<open>list_push_tail\<close> and \<^verbatim>\<open>list_pop_head\<close> relies on.\<close>

locale entry_queue =
  fixes rep :: "'s \<Rightarrow> 'e list \<Rightarrow> bool"
    and push :: "'s \<Rightarrow> 'e \<Rightarrow> ('r \<times> 's) option"
    and pop :: "'s \<Rightarrow> ('d option \<times> 's) option"
    and val :: "'s \<Rightarrow> 'e \<Rightarrow> 'd option"
    and usable :: "'e \<Rightarrow> bool"
    and room :: nat
  assumes push_law: "rep s xs \<Longrightarrow> usable e \<Longrightarrow> val s e \<noteq> None \<Longrightarrow> e \<notin> set xs \<Longrightarrow> length xs < room \<Longrightarrow>
      \<exists>r s'. push s e = Some (r, s') \<and> rep s' (xs @ [e]) \<and> val s' = val s"
    and pop_law: "rep s (x # xs) \<Longrightarrow> \<exists>s'. pop s = Some (val s x, s') \<and> rep s' xs \<and> val s' = val s"
begin

fun push_all :: "'e list \<Rightarrow> 's \<Rightarrow> 's option" where
  "push_all [] s = Some s"
| "push_all (e # es) s = do { (_, s1) \<leftarrow> push s e; push_all es s1 }"

fun pop_n :: "nat \<Rightarrow> 's \<Rightarrow> ('d option list \<times> 's) option" where
  "pop_n 0 s = Some ([], s)"
| "pop_n (Suc n) s = do { (d, s1) \<leftarrow> pop s; (ds, s2) \<leftarrow> pop_n n s1; Some (d # ds, s2) }"

lemma push_all_rep:
  assumes "rep s xs" and "distinct (xs @ es)" and "\<forall>e \<in> set es. usable e \<and> val s e \<noteq> None"
    and "length xs + length es \<le> room"
  shows "\<exists>s'. push_all es s = Some s' \<and> rep s' (xs @ es) \<and> val s' = val s"
  using assms
proof (induction es arbitrary: xs s)
  case (Cons e es)
  from push_law [of s xs e] Cons.prems obtain r s1 where
    p: "push s e = Some (r, s1)" "rep s1 (xs @ [e])" "val s1 = val s" by auto
  from Cons.IH [OF p(2)] Cons.prems p(3) obtain s' where
    "push_all es s1 = Some s'" "rep s' ((xs @ [e]) @ es)" "val s' = val s1" by auto
  with p show ?case by auto
qed auto

lemma pop_n_rep:
  assumes "rep s (xs @ ys)"
  shows "\<exists>s'. pop_n (length xs) s = Some (map (val s) xs, s') \<and> rep s' ys \<and> val s' = val s"
  using assms
proof (induction xs arbitrary: s)
  case (Cons x xs)
  from pop_law [of s x "xs @ ys"] Cons.prems obtain s1 where
    p: "pop s = Some (val s x, s1)" "rep s1 (xs @ ys)" "val s1 = val s" by auto
  from Cons.IH [OF p(2)] p show ?case by auto
qed auto

lemma fifo_order:
  assumes "rep s xs" and "distinct (xs @ es)" and "\<forall>e \<in> set es. usable e \<and> val s e \<noteq> None"
    and "length xs + length es \<le> room"
  shows "\<exists>s1 s2. push_all es s = Some s1
    \<and> pop_n (length (xs @ es)) s1 = Some (map (val s) (xs @ es), s2) \<and> rep s2 []"
  using push_all_rep [OF assms] pop_n_rep [of _ "xs @ es" "[]"] by fastforce

end

interpretation lq: entry_queue list_rep list_push_tail list_pop_head dat "\<lambda>e. e \<noteq> head" "2 ^ 31 - 1"
proof unfold_locales
  fix s xs e
  assume a: "list_rep s xs" "e \<noteq> head" "dat s e \<noteq> None" "e \<notin> set xs" "length xs < 2 ^ 31 - 1"
  then obtain d where d: "dat s e = Some d" by auto
  have k: "length xs = position (length xs) (-1)" by (simp add: position_def)
  show "\<exists>r s'. list_push_tail s e = Some (r, s') \<and> list_rep s' (xs @ [e]) \<and> dat s' = dat s"
    using list_insert_rep [OF a(1) d _ _ _ _ k] a by (auto simp: list_push_tail_def)
next
  fix s x xs
  assume a: "list_rep s (x # xs)"
  have k: "0 = nat (if (0::int) \<ge> 0 then 0 else int (length (x # xs)) + 0)" by simp
  show "\<exists>s'. list_pop_head s = Some (dat s x, s') \<and> list_rep s' xs \<and> dat s' = dat s"
    using list_remove_rep [OF a _ _ k] by (auto simp: list_pop_head_def)
qed

subsection \<open>Properties\<close>

definition demo_entries :: "nat \<Rightarrow> ListEntry_i option" where
  "demo_entries p = (if p \<in> {1, 2, 3} then Some \<lparr>le_data = Some (10 + p), le_next = None, le_prev = None\<rparr> else None)"

definition demo_list :: List where
  "demo_list = list_create None demo_entries (\<lambda>_. 1)"

lemma demo_list_rep: "list_rep demo_list []"
  by (simp add: demo_list_def list_create_def list_rep_def link_def nxt_def prv_def head_def)

lemma demo_list_dat: "dat demo_list 1 = Some 11" "dat demo_list 2 = Some 12" "dat demo_list 3 = Some 13"
  by (simp_all add: dat_def demo_list_def list_create_def demo_entries_def head_def)

text \<open>
  C18. Insertion at every valid index, counted from the front or backwards from the end, splices the entry
  in at that place: the pointer updates yield again a well-linked circle, whose sequence of entries is the
  old one with the entry added there. The entry's data gains one reference, the count of modifications
  grows by one, and no data pointer changes.
\<close>

theorem list_insert_splices:
  assumes "list_rep l xs" and "dat l ent = Some d" and "ent \<notin> set (head # xs)"
    and "- (int (length xs) + 1) \<le> index" and "index \<le> int (length xs)" and "length xs + 1 < 2 ^ 31"
  shows "\<exists>l'. list_insert l index ent = Some (1, l')
    \<and> list_rep l' (take (position (length xs) index) xs @ ent # drop (position (length xs) index) xs)
    \<and> refs l' = (refs l)(d := refs l d + 1) \<and> mod_count l' = mod_count l + 1 \<and> dat l' = dat l"
  by (rule list_insert_rep [OF assms refl])

theorem list_insert_splices_witness:
  "\<exists>l'. list_insert demo_list (-1) 2 = Some (1, l') \<and> list_rep l' [2]"
  using list_insert_splices [OF demo_list_rep demo_list_dat(2), of "-1"] by (auto simp: head_def)

text \<open>
  Removal by index takes out exactly the entry at that index and hands its data, with the list's
  reference to it, to the caller; removal of an entry does the same, and removing it again is refused
  without touching the list.
\<close>

theorem list_remove_takes_out:
  assumes "list_rep l (as @ ent # bs)"
  shows "\<exists>l' l'' d. list_remove l (int (length as)) = Some (Some d, l') \<and> list_rep l' (as @ bs) \<and> refs l' = refs l
    \<and> dat l ent = Some d \<and> list_remove_entry l ent = Some (Some d, l'') \<and> list_rep l'' (as @ bs)
    \<and> refs l'' = refs l \<and> list_remove_entry l'' ent = Some (None, l'')"
proof -
  have k: "length as = nat (if int (length as) \<ge> 0 then int (length as) else int (length (as @ ent # bs)) + int (length as))"
    by simp
  show ?thesis
    using list_remove_rep [OF assms _ _ k] list_remove_entry_rep [OF assms refl] by auto
qed

lemma demo_one_entry: "\<exists>l. list_rep l ([] @ 2 # [])"
  using list_insert_rep [OF demo_list_rep demo_list_dat(2), of 0 0] by (auto simp: head_def position_def)

theorem list_remove_takes_out_witness:
  "\<exists>l l' d. list_rep l ([] @ 2 # []) \<and> list_remove l (int (length ([] :: nat list))) = Some (Some d, l') \<and> list_rep l' []"
  using demo_one_entry list_remove_takes_out [of _ "[]" 2 "[]"] by fastforce

text \<open>
  First in, first out: entries pushed at the tail come out at the head in the order in which they
  were pushed, after those that were in the list before, and leave the list empty.
\<close>

theorem list_fifo_order:
  assumes "list_rep l xs" and "distinct (xs @ es)" and "\<forall>e \<in> set es. e \<noteq> head \<and> dat l e \<noteq> None"
    and "length xs + length es < 2 ^ 31"
  shows "\<exists>l1 l2. lq.push_all es l = Some l1
    \<and> lq.pop_n (length (xs @ es)) l1 = Some (map (dat l) (xs @ es), l2) \<and> list_rep l2 []"
  using lq.fifo_order [OF assms(1,2,3)] assms(4) by simp

theorem list_fifo_order_witness:
  "\<exists>l1 l2. lq.push_all [3, 1, 2] demo_list = Some l1 \<and> lq.pop_n 3 l1 = Some ([Some 13, Some 11, Some 12], l2)
     \<and> list_rep l2 []"
proof -
  have "\<exists>l1 l2. lq.push_all [3, 1, 2] demo_list = Some l1
      \<and> lq.pop_n (length ([] @ [3, 1, 2 :: nat])) l1 = Some (map (dat demo_list) ([] @ [3, 1, 2]), l2) \<and> list_rep l2 []"
    by (rule list_fifo_order [OF demo_list_rep])
      (auto simp: head_def demo_list_dat demo_list_dat(1) [unfolded One_nat_def])
  moreover have "map (dat demo_list) ([] @ [3, 1, 2]) = [Some 13, Some 11, Some 12]"
    by (simp only: list.map append_Nil demo_list_dat)
  moreover have "length ([] @ [3, 1, 2 :: nat]) = 3" by simp
  ultimately show ?thesis by (simp only:)
qed

text \<open>
  Removing while iterating is safe: a client that iterates over a list and removes, through the
  iterator, the entries whose data satisfies a predicate reaches the end without a conflict; the list then
  holds exactly the others, in order, and each removed entry's data has lost the list's reference and no
  other count has changed.
\<close>

theorem list_iterator_filters:
  assumes "list_rep l xs"
  shows "\<exists>it l'. list_iterate l = Some it \<and> remove_if P it l = Some (0, l')
    \<and> list_rep l' (filter (\<lambda>x. \<not> P (the (dat l x))) xs)
    \<and> (\<forall>d. refs l' d = refs l d - int (length (filter (\<lambda>x. dat l x = Some d \<and> P d) xs)))"
proof -
  have n: "nxt l head = Some (hd (xs @ [head]))"
    using rep_split(3) [of l "[]" xs] assms by (simp add: link_def)
  then show ?thesis
    using remove_if_rep [of l "[]" xs "\<lparr>current = None, it_next = hd (xs @ [head]), expected_mod_count = mod_count l\<rparr>" P]
      assms by (auto simp: list_iterate_def)
qed

theorem list_iterator_filters_witness:
  "\<exists>it l'. list_iterate demo_list = Some it \<and> remove_if (\<lambda>d. d > 11) it demo_list = Some (0, l') \<and> list_rep l' []"
  using list_iterator_filters [OF demo_list_rep, of "\<lambda>d. d > 11"] by auto

text \<open>
  Clearing visits every entry once, drops the list's reference to its data and leaves an empty list;
  searching returns the first index whose data pointer is the given one, or -1.
\<close>

theorem list_clear_and_find:
  assumes "list_rep l xs" and "compare l = None" and "dat l entry = Some d"
  shows "(\<exists>l'. list_clear l = Some l' \<and> list_rep l' []
      \<and> (\<forall>c. refs l' c = refs l c - int (length (filter (\<lambda>x. dat l x = Some c) xs))))
    \<and> list_find l entry = Some (if \<exists>x \<in> set xs. dat l x = Some d
        then int (length (takeWhile (\<lambda>x. dat l x \<noteq> Some d) xs)) else -1)"
  using list_clear_rep [OF assms(1)] list_find_rep [OF assms] by blast

theorem list_clear_and_find_witness:
  "\<exists>l'. list_clear demo_list = Some l' \<and> list_rep l' [] \<and> list_find demo_list 1 = Some (-1)"
  using list_clear_and_find [OF demo_list_rep _ demo_list_dat(1)]
  by (auto simp: demo_list_def list_create_def)

end
