(* ===== verification/HashTable.thy ===== *)
theory HashTable
  imports Prelude "HOL-Library.AList"
begin

text \<open>
  The linked hash table of \<^verbatim>\<open>src/common/linkedhashtable.c\<close>: chains of entries in buckets, and all
  entries in a list in the order of insertion, which the iterators follow. The entries are embedded in the
  caller's objects; they are kept in a store from addresses to entries, the chain of a bucket (the links
  \<^verbatim>\<open>next\<close>) and the list (the links \<^verbatim>\<open>lst_next\<close> and \<^verbatim>\<open>lst_prev\<close>) are lists of
  addresses. A key is the byte list that \<^verbatim>\<open>key\<close> and \<^verbatim>\<open>keylen\<close> give. Data pointers are
  addresses with their reference counts in \<open>ht_refs\<close>. Locking is assumed to succeed.
\<close>

subsection \<open>Data\<close>

record HashEntry_i =
  he_key :: "u8 list"
  he_data :: nat
  he_hash_code :: u32

record Hashtable =
  ht_capacity :: nat
  ht_count :: nat
  ht_mod_count :: int
  ht_hash :: "u8 list \<Rightarrow> u32"
  ht_key_compare :: "u8 list \<Rightarrow> u8 list \<Rightarrow> int"
  ht_lst :: "nat list"
  ht_buckets :: "nat list list"
  ht_ents :: "nat \<Rightarrow> HashEntry_i option"
  ht_refs :: "nat \<Rightarrow> int"

text \<open>\<^verbatim>\<open>char\<close> is signed, as on x86.\<close>

definition default_hash_code :: "u8 list \<Rightarrow> u32" where
  "default_hash_code key = foldl (\<lambda>h c. 31 * h + scast c) 0 key"

fun memcmp_sign :: "u8 list \<Rightarrow> u8 list \<Rightarrow> int" where
  "memcmp_sign (x # xs) (y # ys) = (if x < y then -1 else if y < x then 1 else memcmp_sign xs ys)"
| "memcmp_sign _ _ = 0"

definition default_key_compare :: "u8 list \<Rightarrow> u8 list \<Rightarrow> int" where
  "default_key_compare key1 key2 =
     (if length key1 \<noteq> length key2 then (if length key1 < length key2 then -1 else 1)
      else memcmp_sign key1 key2)"

definition hashtable_create :: "nat \<Rightarrow> (u8 list \<Rightarrow> u32) option \<Rightarrow> (u8 list \<Rightarrow> u8 list \<Rightarrow> int) option
    \<Rightarrow> (nat \<Rightarrow> HashEntry_i option) \<Rightarrow> (nat \<Rightarrow> int) \<Rightarrow> Hashtable" where
  "hashtable_create cap hc kc ents rc =
     (let capacity = (if cap = 0 then 128 else cap) in
      \<lparr>ht_capacity = capacity, ht_count = 0, ht_mod_count = 0,
       ht_hash = (case hc of Some f \<Rightarrow> f | None \<Rightarrow> default_hash_code),
       ht_key_compare = (case kc of Some f \<Rightarrow> f | None \<Rightarrow> default_key_compare),
       ht_lst = [], ht_buckets = replicate capacity [], ht_ents = ents, ht_refs = rc\<rparr>)"

definition ht_ref :: "nat \<Rightarrow> Hashtable \<Rightarrow> Hashtable" where
  "ht_ref d h = h\<lparr>ht_refs := (ht_refs h)(d := ht_refs h d + 1)\<rparr>"

definition ht_deref :: "nat \<Rightarrow> Hashtable \<Rightarrow> Hashtable" where
  "ht_deref d h = h\<lparr>ht_refs := (ht_refs h)(d := ht_refs h d - 1)\<rparr>"

lemma ht_ref_simps [simp]:
  "ht_capacity (ht_ref d h) = ht_capacity h" "ht_count (ht_ref d h) = ht_count h"
  "ht_mod_count (ht_ref d h) = ht_mod_count h" "ht_hash (ht_ref d h) = ht_hash h"
  "ht_key_compare (ht_ref d h) = ht_key_compare h" "ht_lst (ht_ref d h) = ht_lst h"
  "ht_buckets (ht_ref d h) = ht_buckets h" "ht_ents (ht_ref d h) = ht_ents h"
  "ht_refs (ht_ref d h) = (ht_refs h)(d := ht_refs h d + 1)"
  "ht_capacity (ht_deref d h) = ht_capacity h" "ht_count (ht_deref d h) = ht_count h"
  "ht_mod_count (ht_deref d h) = ht_mod_count h" "ht_hash (ht_deref d h) = ht_hash h"
  "ht_key_compare (ht_deref d h) = ht_key_compare h" "ht_lst (ht_deref d h) = ht_lst h"
  "ht_buckets (ht_deref d h) = ht_buckets h" "ht_ents (ht_deref d h) = ht_ents h"
  "ht_refs (ht_deref d h) = (ht_refs h)(d := ht_refs h d - 1)"
  by (simp_all add: ht_ref_def ht_deref_def)

subsection \<open>Operations\<close>

fun deref_all :: "nat list \<Rightarrow> Hashtable \<Rightarrow> Hashtable option" where
  "deref_all [] h = Some h"
| "deref_all (e # es) h = do { x \<leftarrow> ht_ents h e; deref_all es (ht_deref (he_data x) h) }"

definition hashtable_clear :: "Hashtable \<Rightarrow> Hashtable option" where
  "hashtable_clear h =
     (if ht_count h = 0 then Some h
      else do {
        h1 \<leftarrow> deref_all (ht_lst h) h;
        Some (h1\<lparr>ht_buckets := replicate (ht_capacity h1) [], ht_lst := [], ht_count := 0,
                 ht_mod_count := ht_mod_count h1 + 1\<rparr>)
      })"

definition bucket_index :: "Hashtable \<Rightarrow> u8 list \<Rightarrow> nat" where
  "bucket_index h key = unat (ht_hash h key) mod ht_capacity h"

definition hashtable_add :: "Hashtable \<Rightarrow> nat \<Rightarrow> Hashtable option" where
  "hashtable_add h ent =
     do {
       x \<leftarrow> ht_ents h ent;
       let idx = bucket_index h (he_key x);
       chain \<leftarrow> mem_at (ht_buckets h) idx;
       bs \<leftarrow> mem_set (ht_buckets h) idx (ent # chain);
       Some (h\<lparr>ht_ents := (ht_ents h)(ent \<mapsto> x\<lparr>he_hash_code := ht_hash h (he_key x)\<rparr>),
               ht_lst := ht_lst h @ [ent], ht_buckets := bs, ht_count := size_add (ht_count h) 1\<rparr>)
     }"

text \<open>The place of the entry with the key in its chain: its position, \<open>None\<close> when there is none.\<close>

fun chain_find :: "Hashtable \<Rightarrow> u8 list \<Rightarrow> nat list \<Rightarrow> nat \<Rightarrow> nat option option" where
  "chain_find h key [] pos = Some None"
| "chain_find h key (e # es) pos =
     do {
       x \<leftarrow> ht_ents h e;
       if he_hash_code x = ht_hash h key \<and> ht_key_compare h (he_key x) key = 0 then Some (Some pos)
       else chain_find h key es (pos + 1)
     }"

definition hashtable_get_entry :: "Hashtable \<Rightarrow> u8 list \<Rightarrow> nat option option" where
  "hashtable_get_entry h key =
     do {
       chain \<leftarrow> mem_at (ht_buckets h) (bucket_index h key);
       chain_find h key chain 0
     }"

definition hashtable_put :: "Hashtable \<Rightarrow> nat \<Rightarrow> (nat \<times> Hashtable) option" where
  "hashtable_put h ent =
     do {
       x \<leftarrow> ht_ents h ent;
       c_assert (he_key x \<noteq> []);
       let h1 = ht_ref (he_data x) h;
       let idx = bucket_index h1 (he_key x);
       r \<leftarrow> hashtable_get_entry h1 (he_key x);
       h2 \<leftarrow> (case r of
           Some pos \<Rightarrow> do {
             chain \<leftarrow> mem_at (ht_buckets h1) idx;
             old \<leftarrow> mem_at chain pos;
             y \<leftarrow> ht_ents h1 old;
             bs \<leftarrow> mem_set (ht_buckets h1) idx (chain[pos := ent]);
             Some (ht_deref (he_data y)
               (h1\<lparr>ht_ents := (ht_ents h1)(ent \<mapsto> x\<lparr>he_hash_code := he_hash_code y\<rparr>),
                   ht_lst := map (\<lambda>e. if e = old then ent else e) (ht_lst h1), ht_buckets := bs\<rparr>))
           }
         | None \<Rightarrow> hashtable_add h1 ent);
       Some (he_data x, h2\<lparr>ht_mod_count := ht_mod_count h2 + 1\<rparr>)
     }"

text \<open>The data found, or NULL.\<close>

definition hashtable_get :: "Hashtable \<Rightarrow> u8 list \<Rightarrow> (nat option \<times> Hashtable) option" where
  "hashtable_get h key =
     do {
       c_assert (key \<noteq> []);
       r \<leftarrow> hashtable_get_entry h key;
       case r of
         None \<Rightarrow> Some (None, h)
       | Some pos \<Rightarrow> do {
           chain \<leftarrow> mem_at (ht_buckets h) (bucket_index h key);
           e \<leftarrow> mem_at chain pos;
           x \<leftarrow> ht_ents h e;
           Some (Some (he_data x), ht_ref (he_data x) h)
         }
     }"

definition hashtable_exist :: "Hashtable \<Rightarrow> u8 list \<Rightarrow> bool option" where
  "hashtable_exist h key =
     do {
       c_assert (key \<noteq> []);
       r \<leftarrow> hashtable_get_entry h key;
       Some (r \<noteq> None)
     }"

definition hashtable_is_empty :: "Hashtable \<Rightarrow> bool" where
  "hashtable_is_empty h \<longleftrightarrow> ht_count h = 0"

definition hashtable_remove :: "Hashtable \<Rightarrow> u8 list \<Rightarrow> (nat option \<times> Hashtable) option" where
  "hashtable_remove h key =
     do {
       c_assert (key \<noteq> []);
       r \<leftarrow> hashtable_get_entry h key;
       case r of
         None \<Rightarrow> Some (None, h)
       | Some pos \<Rightarrow> do {
           let idx = bucket_index h key;
           chain \<leftarrow> mem_at (ht_buckets h) idx;
           to_remove \<leftarrow> mem_at chain pos;
           x \<leftarrow> ht_ents h to_remove;
           bs \<leftarrow> mem_set (ht_buckets h) idx (take pos chain @ drop (Suc pos) chain);
           Some (Some (he_data x),
                 h\<lparr>ht_buckets := bs, ht_lst := remove1 to_remove (ht_lst h),
                   ht_count := size_sub (ht_count h) 1, ht_mod_count := ht_mod_count h + 1\<rparr>)
         }
     }"

subsection \<open>Iterators\<close>

text \<open>An iterator holds the address of the next entry, \<open>None\<close> at the head of the list.\<close>

record HashtableIterator_i =
  hit_current :: "nat option"
  hit_next :: "nat option"
  hit_expected_mod_count :: int

definition lst_first :: "nat list \<Rightarrow> nat option" where
  "lst_first es = (case es of [] \<Rightarrow> None | e # _ \<Rightarrow> Some e)"

definition lst_succ :: "nat list \<Rightarrow> nat \<Rightarrow> nat option" where
  "lst_succ es e = lst_first (drop 1 (dropWhile (\<lambda>x. x \<noteq> e) es))"

definition hashtable_iterate :: "Hashtable \<Rightarrow> HashtableIterator_i" where
  "hashtable_iterate h =
     \<lparr>hit_current = None, hit_next = lst_first (ht_lst h), hit_expected_mod_count = ht_mod_count h\<rparr>"

definition hashtable_iterator_next :: "HashtableIterator_i \<Rightarrow> Hashtable
    \<Rightarrow> (int \<times> (u8 list \<times> nat) option \<times> HashtableIterator_i \<times> Hashtable) option" where
  "hashtable_iterator_next it h =
     (if hit_expected_mod_count it \<noteq> ht_mod_count h then Some (-1, None, it, h)
      else case hit_next it of
        None \<Rightarrow> Some (0, None, it, h)
      | Some e \<Rightarrow> do {
          x \<leftarrow> ht_ents h e;
          Some (1, Some (he_key x, he_data x),
                it\<lparr>hit_current := Some e, hit_next := lst_succ (ht_lst h) e\<rparr>, ht_ref (he_data x) h)
        })"

definition hashtable_iterator_has_next :: "HashtableIterator_i \<Rightarrow> bool" where
  "hashtable_iterator_has_next it \<longleftrightarrow> hit_next it \<noteq> None"

definition hashtable_iterator_remove :: "HashtableIterator_i \<Rightarrow> Hashtable
    \<Rightarrow> (int \<times> HashtableIterator_i \<times> Hashtable) option" where
  "hashtable_iterator_remove it h =
     do {
       cur \<leftarrow> hit_current it;
       if hit_expected_mod_count it \<noteq> ht_mod_count h then Some (-1, it, h)
       else do {
         x \<leftarrow> ht_ents h cur;
         (ptr, h1) \<leftarrow> hashtable_remove h (he_key x);
         case ptr of
           Some d \<Rightarrow> Some (1, it\<lparr>hit_current := None, hit_expected_mod_count := hit_expected_mod_count it + 1\<rparr>,
                          ht_deref d h1)
         | None \<Rightarrow> Some (0, it, h1)
       }
     }"

subsection \<open>The map behind the buckets\<close>

definition key_of :: "Hashtable \<Rightarrow> nat \<Rightarrow> u8 list" where
  "key_of h e = (case ht_ents h e of Some x \<Rightarrow> he_key x | None \<Rightarrow> [])"

definition data_of :: "Hashtable \<Rightarrow> nat \<Rightarrow> nat" where
  "data_of h e = (case ht_ents h e of Some x \<Rightarrow> he_data x | None \<Rightarrow> 0)"

text \<open>What a comparison function has to decide.\<close>

definition key_compare_ok :: "(u8 list \<Rightarrow> u8 list \<Rightarrow> int) \<Rightarrow> bool" where
  "key_compare_ok cmp \<longleftrightarrow> (\<forall>a b. cmp a b = 0 \<longleftrightarrow> a = b)"

definition ht_ok :: "Hashtable \<Rightarrow> bool" where
  "ht_ok h \<longleftrightarrow> 0 < ht_capacity h \<and> length (ht_buckets h) = ht_capacity h \<and> key_compare_ok (ht_key_compare h)
     \<and> distinct (ht_lst h) \<and> distinct (map (key_of h) (ht_lst h)) \<and> ht_count h = length (ht_lst h)
     \<and> length (ht_lst h) < 2 ^ 63
     \<and> (\<forall>e \<in> set (ht_lst h). \<exists>x. ht_ents h e = Some x \<and> he_hash_code x = ht_hash h (he_key x) \<and> he_key x \<noteq> [])
     \<and> (\<forall>i < ht_capacity h. distinct (ht_buckets h ! i)
          \<and> (\<forall>e. e \<in> set (ht_buckets h ! i) \<longleftrightarrow> e \<in> set (ht_lst h) \<and> bucket_index h (key_of h e) = i))"

text \<open>The contents, in the order of the list.\<close>

definition contents :: "Hashtable \<Rightarrow> (u8 list \<times> nat) list" where
  "contents h = map (\<lambda>e. (key_of h e, data_of h e)) (ht_lst h)"

lemma ht_okD:
  assumes "ht_ok h"
  shows "0 < ht_capacity h" "length (ht_buckets h) = ht_capacity h" "key_compare_ok (ht_key_compare h)"
    "distinct (ht_lst h)" "distinct (map (key_of h) (ht_lst h))" "ht_count h = length (ht_lst h)"
    "length (ht_lst h) < 2 ^ 63"
    "e \<in> set (ht_lst h) \<Longrightarrow> \<exists>x. ht_ents h e = Some x \<and> he_hash_code x = ht_hash h (he_key x) \<and> he_key x \<noteq> []"
    "i < ht_capacity h \<Longrightarrow> distinct (ht_buckets h ! i)"
    "i < ht_capacity h \<Longrightarrow> e \<in> set (ht_buckets h ! i) \<longleftrightarrow> e \<in> set (ht_lst h) \<and> bucket_index h (key_of h e) = i"
  using assms unfolding ht_ok_def by blast+

lemma memcmp_sign_0: "length xs = length ys \<Longrightarrow> memcmp_sign xs ys = 0 \<longleftrightarrow> xs = ys"
  by (induction xs ys rule: memcmp_sign.induct) auto

lemma default_key_compare_ok: "key_compare_ok default_key_compare"
  by (auto simp: key_compare_ok_def default_key_compare_def memcmp_sign_0)

lemma key_of_inj: "ht_ok h \<Longrightarrow> e \<in> set (ht_lst h) \<Longrightarrow> e' \<in> set (ht_lst h) \<Longrightarrow> key_of h e = key_of h e' \<Longrightarrow> e = e'"
  by (metis distinct_map ht_okD(5) inj_onD)

lemma bucket_index_less: "ht_ok h \<Longrightarrow> bucket_index h k < ht_capacity h"
  by (simp add: bucket_index_def ht_okD(1))

lemma chain_find_spec:
  assumes "key_compare_ok (ht_key_compare h)"
    and "\<And>e. e \<in> set es \<Longrightarrow> \<exists>x. ht_ents h e = Some x \<and> he_hash_code x = ht_hash h (he_key x)"
  shows "chain_find h k es pos = Some (if \<exists>e \<in> set es. key_of h e = k
      then Some (pos + length (takeWhile (\<lambda>e. key_of h e \<noteq> k) es)) else None)"
  using assms(2)
proof (induction es arbitrary: pos)
  case (Cons e es)
  then obtain x where "ht_ents h e = Some x" "he_hash_code x = ht_hash h (he_key x)" by auto
  moreover have "ht_key_compare h (he_key x) k = 0 \<longleftrightarrow> he_key x = k" using assms(1) by (simp add: key_compare_ok_def)
  moreover have "chain_find h k es (pos + 1) = Some (if \<exists>e \<in> set es. key_of h e = k
      then Some (pos + 1 + length (takeWhile (\<lambda>e. key_of h e \<noteq> k) es)) else None)"
    using Cons by auto
  ultimately show ?case by (auto simp: key_of_def)
qed simp

lemma takeWhile_less_iff: "length (takeWhile q xs) < length xs \<longleftrightarrow> (\<exists>x \<in> set xs. \<not> q x)"
  by (induction xs) auto

lemma get_entry_spec [consumes 1, case_names absent present]:
  assumes ok: "ht_ok h"
  obtains (absent) "hashtable_get_entry h k = Some None" "\<forall>e \<in> set (ht_lst h). key_of h e \<noteq> k"
  | (present) pos e x where "hashtable_get_entry h k = Some (Some pos)"
      "pos < length (ht_buckets h ! bucket_index h k)" "e = ht_buckets h ! bucket_index h k ! pos"
      "e \<in> set (ht_lst h)" "key_of h e = k" "ht_ents h e = Some x"
proof -
  let ?i = "bucket_index h k" and ?c = "ht_buckets h ! bucket_index h k"
  have i: "?i < ht_capacity h" by (rule bucket_index_less [OF ok])
  have mem: "e \<in> set ?c \<longleftrightarrow> e \<in> set (ht_lst h) \<and> bucket_index h (key_of h e) = ?i" for e
    by (rule ht_okD(10) [OF ok i])
  have "chain_find h k ?c 0 = Some (if \<exists>e \<in> set ?c. key_of h e = k
      then Some (0 + length (takeWhile (\<lambda>e. key_of h e \<noteq> k) ?c)) else None)"
    by (rule chain_find_spec [OF ht_okD(3) [OF ok]]) (use mem ht_okD(8) [OF ok] in blast)
  then have ge: "hashtable_get_entry h k = Some (if \<exists>e \<in> set ?c. key_of h e = k
      then Some (length (takeWhile (\<lambda>e. key_of h e \<noteq> k) ?c)) else None)"
    using i ht_okD(2) [OF ok] by (simp add: hashtable_get_entry_def mem_at_Some)
  show thesis
  proof (cases "\<exists>e \<in> set ?c. key_of h e = k")
    case False
    then have "\<forall>e \<in> set (ht_lst h). key_of h e \<noteq> k" using mem by blast
    with False ge show thesis by (intro absent) auto
  next
    case True
    let ?p = "length (takeWhile (\<lambda>e. key_of h e \<noteq> k) ?c)"
    have "?p < length ?c" using True by (simp add: takeWhile_less_iff)
    then have "key_of h (?c ! ?p) = k" "?c ! ?p \<in> set ?c" using nth_length_takeWhile by (blast, simp)
    with mem ht_okD(8) [OF ok] obtain x where "?c ! ?p \<in> set (ht_lst h)" "ht_ents h (?c ! ?p) = Some x" by blast
    with True ge \<open>?p < length ?c\<close> \<open>key_of h (?c ! ?p) = k\<close> show thesis by (intro present) auto
  qed
qed

lemma map_of_contents:
  assumes "ht_ok h" and "e \<in> set (ht_lst h)"
  shows "map_of (contents h) (key_of h e) = Some (data_of h e)"
proof -
  have "map fst (contents h) = map (key_of h) (ht_lst h)" by (simp add: contents_def)
  then show ?thesis using ht_okD(5) [OF assms(1)] assms(2) by (intro map_of_is_SomeI) (auto simp: contents_def comp_def)
qed

lemma map_of_contents_None: "\<forall>e \<in> set (ht_lst h). key_of h e \<noteq> k \<Longrightarrow> map_of (contents h) k = None"
  by (auto simp: map_of_eq_None_iff contents_def)

lemma hashtable_get_spec:
  assumes ok: "ht_ok h" and "k \<noteq> []"
  shows "hashtable_get h k = Some (map_of (contents h) k,
      case map_of (contents h) k of Some d \<Rightarrow> ht_ref d h | None \<Rightarrow> h)"
  using ok
proof (cases rule: get_entry_spec [of h k])
  case absent
  then show ?thesis using assms by (simp add: hashtable_get_def map_of_contents_None)
next
  case (present pos e x)
  then have "map_of (contents h) k = Some (he_data x)" using map_of_contents [OF ok present(4)] by (simp add: data_of_def)
  then show ?thesis
    using present assms(2) bucket_index_less [OF ok, of k] ht_okD(2) [OF ok] by (simp add: hashtable_get_def mem_at_Some)
qed

lemma contents_entries:
  "contents h = [] \<longleftrightarrow> ht_lst h = []" "map fst (contents h) = map (key_of h) (ht_lst h)"
  by (simp_all add: contents_def)

lemma remove_nth:
  assumes "distinct c" and "p < length c"
  shows "set (take p c @ drop (Suc p) c) = set c - {c ! p}" "distinct (take p c @ drop (Suc p) c)"
proof -
  obtain as bs where c: "c = as @ c ! p # bs" and p: "as = take p c" "bs = drop (Suc p) c"
    using id_take_nth_drop [OF assms(2)] by blast
  from assms(1) have "distinct (as @ c ! p # bs)" using c by simp
  moreover have "set c = insert (c ! p) (set as \<union> set bs)" using c by (metis set_append Un_insert_right list.simps(15))
  ultimately show "set (take p c @ drop (Suc p) c) = set c - {c ! p}" "distinct (take p c @ drop (Suc p) c)"
    unfolding p [symmetric] by auto
qed

text \<open>Removal of the entry with the key.\<close>

lemma hashtable_remove_spec:
  assumes ok: "ht_ok h" and k: "k \<noteq> []"
  shows "\<exists>h'. hashtable_remove h k = Some (map_of (contents h) k, h') \<and> ht_ok h'
    \<and> contents h' = AList.delete k (contents h) \<and> ht_refs h' = ht_refs h \<and> ht_ents h' = ht_ents h
    \<and> ht_mod_count h' = (if map_of (contents h) k = None then ht_mod_count h else ht_mod_count h + 1)
    \<and> ht_lst h' = filter (\<lambda>e. key_of h e \<noteq> k) (ht_lst h)"
  using ok
proof (cases rule: get_entry_spec [of h k])
  case absent
  then have "filter (\<lambda>e. key_of h e \<noteq> k) (ht_lst h) = ht_lst h" by (simp add: filter_id_conv)
  moreover have "AList.delete k (contents h) = contents h"
    using absent(2) by (auto simp: AList.delete_eq filter_id_conv contents_def)
  ultimately show ?thesis using absent ok k by (simp add: hashtable_remove_def map_of_contents_None)
next
  case (present pos e x)
  let ?i = "bucket_index h k" and ?c = "ht_buckets h ! bucket_index h k"
  let ?c' = "take pos ?c @ drop (Suc pos) ?c"
  let ?h = "h\<lparr>ht_buckets := (ht_buckets h)[?i := ?c'], ht_lst := remove1 e (ht_lst h),
              ht_count := size_sub (ht_count h) 1, ht_mod_count := ht_mod_count h + 1\<rparr>"
  have i: "?i < ht_capacity h" "?i < length (ht_buckets h)"
    using bucket_index_less [OF ok] ht_okD(2) [OF ok] by auto
  have val: "map_of (contents h) k = Some (he_data x)"
    using map_of_contents [OF ok present(4)] present(5,6) by (simp add: data_of_def)
  have ev: "hashtable_remove h k = Some (map_of (contents h) k, ?h)"
    using present i k val by (simp add: hashtable_remove_def mem_at_Some mem_set_Some Let_def)
  have only: "key_of h e' = k \<longleftrightarrow> e' = e" if "e' \<in> set (ht_lst h)" for e'
    using key_of_inj [OF ok that present(4)] present(5) by auto
  have fil: "remove1 e (ht_lst h) = filter (\<lambda>e. key_of h e \<noteq> k) (ht_lst h)"
    unfolding distinct_remove1_removeAll [OF ht_okD(4) [OF ok]] removeAll_filter_not_eq
    using only by (intro filter_cong) auto
  have dc: "distinct ?c" by (rule ht_okD(9) [OF ok i(1)])
  have set': "set ?c' = set ?c - {e}" "distinct ?c'" using remove_nth [OF dc present(2)] present(3) by auto
  have keys: "key_of ?h = key_of h" "bucket_index ?h = bucket_index h" "data_of ?h = data_of h"
    by (simp_all add: key_of_def [abs_def] bucket_index_def [abs_def] data_of_def [abs_def])
  have lst: "ht_lst ?h = filter (\<lambda>e. key_of h e \<noteq> k) (ht_lst h)" using fil by simp
  have inl: "e' \<in> set (ht_lst ?h) \<longleftrightarrow> e' \<in> set (ht_lst h) \<and> e' \<noteq> e" for e' using lst only by auto
  have bk: "distinct (ht_buckets ?h ! j) \<and> (\<forall>e'. e' \<in> set (ht_buckets ?h ! j) \<longleftrightarrow> e' \<in> set (ht_lst ?h) \<and> bucket_index ?h (key_of ?h e') = j)"
    if j: "j < ht_capacity h" for j
  proof (cases "j = ?i")
    case True
    then show ?thesis using set' inl ht_okD(10) [OF ok i(1)] i(2) unfolding keys by auto
  next
    case False
    then show ?thesis using inl ht_okD(9,10) [OF ok j] present(5) unfolding keys by auto
  qed
  have "length (ht_lst ?h) = length (ht_lst h) - 1" using present(4) by (simp add: length_remove1)
  moreover have "1 \<le> length (ht_lst h)" using present(4) by (cases "ht_lst h") auto
  moreover note size_sub_small [of 1 "length (ht_lst h)"]
  ultimately have cnt: "ht_count ?h = length (ht_lst ?h)" using ht_okD(6,7) [OF ok] by simp
  have "ht_ok ?h"
    unfolding ht_ok_def
  proof (intro conjI allI impI ballI)
    show "distinct (map (key_of ?h) (ht_lst ?h))" unfolding keys lst using ht_okD(5) [OF ok] by (rule distinct_map_filter)
    show "\<exists>x. ht_ents ?h e' = Some x \<and> he_hash_code x = ht_hash ?h (he_key x) \<and> he_key x \<noteq> []"
      if "e' \<in> set (ht_lst ?h)" for e' using that inl ht_okD(8) [OF ok] by simp
    show "length (ht_lst ?h) < 2 ^ 63" using ht_okD(7) [OF ok] by (auto simp: length_remove1)
  qed (use ok bk cnt inl in \<open>auto simp: ht_okD keys lst\<close>)
  moreover have "contents ?h = AList.delete k (contents h)"
    unfolding contents_def keys lst AList.delete_eq by (simp add: filter_map comp_def eq_commute [of k])
  ultimately show ?thesis using ev val lst by auto
qed

subsection \<open>Insertion\<close>

lemma update_present:
  assumes "distinct (map fst ps)" and "i < length ps" and "fst (ps ! i) = k"
  shows "AList.update k v ps = ps[i := (k, v)]"
  using assms
proof (induction ps arbitrary: i)
  case (Cons p ps)
  show ?case
  proof (cases i)
    case 0
    with Cons.prems show ?thesis by (cases p) simp
  next
    case (Suc j)
    with Cons.prems have "fst p \<noteq> k" by (auto simp: image_iff)
    with Suc Cons show ?thesis by (cases p) simp
  qed
qed simp

lemma update_absent: "k \<notin> fst ` set ps \<Longrightarrow> AList.update k v ps = ps @ [(k, v)]"
  by (induction ps) auto

lemma get_entry_ref [simp]: "hashtable_get_entry (ht_ref d h) k = hashtable_get_entry h k"
  and bucket_index_ref [simp]: "bucket_index (ht_ref d h) k = bucket_index h k"
proof -
  have "chain_find (ht_ref d h) k es pos = chain_find h k es pos" for es pos
    by (induction es arbitrary: pos) (simp_all cong: if_cong)
  then show "hashtable_get_entry (ht_ref d h) k = hashtable_get_entry h k" "bucket_index (ht_ref d h) k = bucket_index h k"
    by (simp_all add: hashtable_get_entry_def bucket_index_def)
qed

lemma hashtable_put_absent:
  assumes ok: "ht_ok h" and x: "ht_ents h ent = Some x" "he_key x \<noteq> []" and new: "ent \<notin> set (ht_lst h)"
    and abs: "\<forall>e \<in> set (ht_lst h). key_of h e \<noteq> he_key x" and len: "length (ht_lst h) + 1 < 2 ^ 63"
    and ge: "hashtable_get_entry h (he_key x) = Some None"
  shows "\<exists>h'. hashtable_put h ent = Some (he_data x, h') \<and> ht_ok h'
    \<and> contents h' = contents h @ [(he_key x, he_data x)]
    \<and> ht_refs h' = (ht_refs h)(he_data x := ht_refs h (he_data x) + 1) \<and> ht_lst h' = ht_lst h @ [ent]"
proof -
  let ?k = "he_key x" and ?i = "bucket_index h (he_key x)"
  let ?x = "x\<lparr>he_hash_code := ht_hash h ?k\<rparr>"
  let ?h = "(ht_ref (he_data x) h)\<lparr>ht_ents := (ht_ents h)(ent \<mapsto> ?x), ht_lst := ht_lst h @ [ent],
      ht_buckets := (ht_buckets h)[?i := ent # ht_buckets h ! ?i], ht_count := size_add (ht_count h) 1,
      ht_mod_count := ht_mod_count h + 1\<rparr>"
  have i: "?i < ht_capacity h" "?i < length (ht_buckets h)"
    using bucket_index_less [OF ok] ht_okD(2) [OF ok] by auto
  have ev: "hashtable_put h ent = Some (he_data x, ?h)"
    using x ge i by (simp add: hashtable_put_def hashtable_add_def mem_at_Some mem_set_Some Let_def)
  have keys: "key_of ?h = key_of h" "data_of ?h = data_of h" "bucket_index ?h = bucket_index h"
    using x(1) by (auto simp: key_of_def data_of_def bucket_index_def fun_eq_iff)
  have kent: "key_of h ent = ?k" "data_of h ent = he_data x" using x(1) by (simp_all add: key_of_def data_of_def)
  have bk: "distinct (ht_buckets ?h ! j) \<and> (\<forall>e. e \<in> set (ht_buckets ?h ! j) \<longleftrightarrow> e \<in> set (ht_lst ?h) \<and> bucket_index ?h (key_of ?h e) = j)"
    if j: "j < ht_capacity h" for j
  proof -
    have mem: "e \<in> set (ht_buckets h ! j) \<longleftrightarrow> e \<in> set (ht_lst h) \<and> bucket_index h (key_of h e) = j" for e
      by (rule ht_okD(10) [OF ok j])
    have bb: "ht_buckets ?h ! j = (if j = ?i then ent # ht_buckets h ! j else ht_buckets h ! j)" using i(2) by simp
    have inl: "e \<in> set (ht_lst ?h) \<longleftrightarrow> e \<in> set (ht_lst h) \<or> e = ent" for e by auto
    have d: "distinct (ht_buckets h ! j)" by (rule ht_okD(9) [OF ok j])
    have ent: "ent \<notin> set (ht_buckets h ! j)" "bucket_index h (key_of h ent) = ?i" using mem new kent(1) by simp_all
    show ?thesis
    proof (cases "j = ?i")
      case True
      have "distinct (ent # ht_buckets h ! j)" using d ent(1) by simp
      moreover have "e \<in> set (ent # ht_buckets h ! j) \<longleftrightarrow> (e \<in> set (ht_lst h) \<or> e = ent) \<and> bucket_index h (key_of h e) = j" for e
        using mem [of e] ent(2) True by (cases "e = ent") simp_all
      ultimately show ?thesis unfolding bb inl keys using True by (simp only: if_True simp_thms)
    next
      case False
      have "e \<in> set (ht_buckets h ! j) \<longleftrightarrow> (e \<in> set (ht_lst h) \<or> e = ent) \<and> bucket_index h (key_of h e) = j" for e
        using mem [of e] ent(2) False by (cases "e = ent") simp_all
      then show ?thesis unfolding bb inl keys using False d by (simp only: if_False simp_thms)
    qed
  qed
  have cnt: "ht_count ?h = length (ht_lst ?h)" using ht_okD(6) [OF ok] len by (simp add: size_simps)
  have "ht_ok ?h"
    unfolding ht_ok_def
  proof (intro conjI allI impI ballI)
    show "distinct (map (key_of ?h) (ht_lst ?h))"
      unfolding keys using ht_okD(5) [OF ok] abs kent(1) by auto
    show "\<exists>y. ht_ents ?h e = Some y \<and> he_hash_code y = ht_hash ?h (he_key y) \<and> he_key y \<noteq> []"
      if "e \<in> set (ht_lst ?h)" for e using that ht_okD(8) [OF ok] x(2) by auto
    show "distinct (ht_buckets ?h ! j)" if "j < ht_capacity ?h" for j using bk [of j] that by simp
    show "e \<in> set (ht_buckets ?h ! j) \<longleftrightarrow> e \<in> set (ht_lst ?h) \<and> bucket_index ?h (key_of ?h e) = j"
      if "j < ht_capacity ?h" for j e using bk [of j] that by simp
  qed (use ok new len cnt in \<open>auto simp: ht_okD\<close>)
  moreover have "contents ?h = contents h @ [(?k, he_data x)]"
    unfolding contents_def keys using kent by simp
  ultimately show ?thesis using ev by auto
qed

lemma hashtable_put_present:
  assumes ok: "ht_ok h" and x: "ht_ents h ent = Some x" "he_key x \<noteq> []" and new: "ent \<notin> set (ht_lst h)"
    and ge: "hashtable_get_entry h (he_key x) = Some (Some pos)"
    and pos: "pos < length (ht_buckets h ! bucket_index h (he_key x))"
    and old: "old = ht_buckets h ! bucket_index h (he_key x) ! pos" "old \<in> set (ht_lst h)" "key_of h old = he_key x"
    and y: "ht_ents h old = Some y"
  shows "\<exists>h'. hashtable_put h ent = Some (he_data x, h') \<and> ht_ok h'
    \<and> contents h' = AList.update (he_key x) (he_data x) (contents h)
    \<and> ht_refs h' = ((ht_refs h)(he_data x := ht_refs h (he_data x) + 1))
        (he_data y := ((ht_refs h)(he_data x := ht_refs h (he_data x) + 1)) (he_data y) - 1)
    \<and> length (ht_lst h') = length (ht_lst h)"
proof -
  let ?k = "he_key x" and ?i = "bucket_index h (he_key x)"
  let ?c = "ht_buckets h ! ?i" and ?sub = "\<lambda>e. if e = old then ent else e"
  let ?x = "x\<lparr>he_hash_code := he_hash_code y\<rparr>"
  let ?h = "(ht_deref (he_data y) ((ht_ref (he_data x) h)\<lparr>ht_ents := (ht_ents h)(ent \<mapsto> ?x),
      ht_lst := map ?sub (ht_lst h), ht_buckets := (ht_buckets h)[?i := ?c[pos := ent]]\<rparr>))
      \<lparr>ht_mod_count := ht_mod_count h + 1\<rparr>"
  have i: "?i < ht_capacity h" "?i < length (ht_buckets h)"
    using bucket_index_less [OF ok] ht_okD(2) [OF ok] by auto
  have ev: "hashtable_put h ent = Some (he_data x, ?h)"
    using x ge i y pos old(1) by (simp add: hashtable_put_def mem_at_Some mem_set_Some Let_def)
  have keys: "key_of ?h = key_of h" "data_of ?h = data_of h" "bucket_index ?h = bucket_index h"
    using x(1) by (auto simp: key_of_def data_of_def bucket_index_def fun_eq_iff)
  have kent: "key_of h ent = ?k" "data_of h ent = he_data x" using x(1) by (simp_all add: key_of_def data_of_def)
  have hk: "he_hash_code y = ht_hash h ?k" using ht_okD(8) [OF ok old(2)] y old(3) by (auto simp: key_of_def)
  have ksub: "key_of h (?sub e) = key_of h e" for e using old(3) kent(1) by simp
  have lst: "ht_lst ?h = map ?sub (ht_lst h)" by simp
  have inl: "e \<in> set (map ?sub (ht_lst h)) \<longleftrightarrow> (e \<in> set (ht_lst h) \<and> e \<noteq> old) \<or> e = ent" for e
    using old(2) new by (auto simp: image_iff)
  have inj: "inj_on ?sub (set (ht_lst h))" using new by (auto simp: inj_on_def)
  have bk: "distinct (ht_buckets ?h ! j) \<and> (\<forall>e. e \<in> set (ht_buckets ?h ! j) \<longleftrightarrow> e \<in> set (ht_lst ?h) \<and> bucket_index ?h (key_of ?h e) = j)"
    if j: "j < ht_capacity h" for j
  proof -
    have mem: "e \<in> set (ht_buckets h ! j) \<longleftrightarrow> e \<in> set (ht_lst h) \<and> bucket_index h (key_of h e) = j" for e
      by (rule ht_okD(10) [OF ok j])
    have d: "distinct (ht_buckets h ! j)" by (rule ht_okD(9) [OF ok j])
    have ent: "ent \<notin> set (ht_buckets h ! j)" "bucket_index h (key_of h ent) = ?i" using mem new kent(1) by simp_all
    have bb: "ht_buckets ?h ! j = (if j = ?i then (ht_buckets h ! j)[pos := ent] else ht_buckets h ! j)" using i(2) by simp
    show ?thesis
    proof (cases "j = ?i")
      case True
      have "distinct ((ht_buckets h ! j)[pos := ent])" using d ent(1) by (intro distinct_list_update) auto
      moreover have st: "set ((ht_buckets h ! j)[pos := ent]) = insert ent (set (ht_buckets h ! j) - {old})"
        using set_update_distinct [OF d] pos True old(1) by simp
      have "e \<in> set ((ht_buckets h ! j)[pos := ent]) \<longleftrightarrow>
          ((e \<in> set (ht_lst h) \<and> e \<noteq> old) \<or> e = ent) \<and> bucket_index h (key_of h e) = j" for e
        unfolding st using mem [of e] ent(2) True by (cases "e = ent") auto
      ultimately show ?thesis unfolding bb lst inl keys using True by (simp only: if_True simp_thms)
    next
      case False
      have "bucket_index h (key_of h old) = ?i" using old(3) by simp
      then have "e \<in> set (ht_buckets h ! j) \<longleftrightarrow>
          ((e \<in> set (ht_lst h) \<and> e \<noteq> old) \<or> e = ent) \<and> bucket_index h (key_of h e) = j" for e
        using mem [of e] ent(2) False by (cases "e = ent"; cases "e = old") simp_all
      then show ?thesis unfolding bb lst inl keys using False d by (simp only: if_False simp_thms)
    qed
  qed
  have "ht_ok ?h"
    unfolding ht_ok_def
  proof (intro conjI allI impI ballI)
    show "distinct (ht_lst ?h)" unfolding lst using inj ht_okD(4) [OF ok] by (simp add: distinct_map)
    show "distinct (map (key_of ?h) (ht_lst ?h))"
      unfolding keys lst using ht_okD(5) [OF ok] ksub by (simp add: comp_def)
    show "\<exists>z. ht_ents ?h e = Some z \<and> he_hash_code z = ht_hash ?h (he_key z) \<and> he_key z \<noteq> []"
      if "e \<in> set (ht_lst ?h)" for e
      using that ht_okD(8) [OF ok, of e] x(2) hk unfolding lst inl by (cases "e = ent") auto
    show "distinct (ht_buckets ?h ! j)" if "j < ht_capacity ?h" for j using bk [of j] that by simp
    show "e \<in> set (ht_buckets ?h ! j) \<longleftrightarrow> e \<in> set (ht_lst ?h) \<and> bucket_index ?h (key_of ?h e) = j"
      if "j < ht_capacity ?h" for j e
    proof -
      have "j < ht_capacity h" using that by simp
      from bk [OF this] show ?thesis by blast
    qed
    show "length (ht_lst ?h) < 2 ^ 63" using ht_okD(7) [OF ok] by simp
  qed (use ok in \<open>auto simp: ht_okD\<close>)
  moreover have "contents ?h = AList.update ?k (he_data x) (contents h)"
  proof -
    obtain n where n: "n < length (ht_lst h)" "ht_lst h ! n = old" using old(2) by (auto simp: in_set_conv_nth)
    have "AList.update ?k (he_data x) (contents h) = (contents h)[n := (?k, he_data x)]"
      using ht_okD(5) [OF ok] n old(3) by (intro update_present) (auto simp: contents_def comp_def)
    moreover have "map ?sub (ht_lst h) = (ht_lst h)[n := ent]"
      using n ht_okD(4) [OF ok] by (intro nth_equalityI) (auto simp: nth_list_update nth_eq_iff_index_eq)
    ultimately show ?thesis unfolding contents_def keys lst using kent by (simp add: map_update)
  qed
  ultimately show ?thesis using ev by auto
qed

definition put_refs :: "Hashtable \<Rightarrow> u8 list \<Rightarrow> nat \<Rightarrow> nat \<Rightarrow> int" where
  "put_refs h k d =
     (let r = (ht_refs h)(d := ht_refs h d + 1)
      in case map_of (contents h) k of None \<Rightarrow> r | Some old \<Rightarrow> r(old := r old - 1))"

lemma hashtable_put_spec:
  assumes ok: "ht_ok h" and x: "ht_ents h ent = Some x" "he_key x \<noteq> []" and new: "ent \<notin> set (ht_lst h)"
    and len: "length (ht_lst h) + 1 < 2 ^ 63"
  shows "\<exists>h'. hashtable_put h ent = Some (he_data x, h') \<and> ht_ok h'
    \<and> contents h' = AList.update (he_key x) (he_data x) (contents h)
    \<and> ht_refs h' = put_refs h (he_key x) (he_data x)"
  using ok
proof (cases rule: get_entry_spec [of h "he_key x"])
  case absent
  have "AList.update (he_key x) (he_data x) (contents h) = contents h @ [(he_key x, he_data x)]"
    using absent(2) by (intro update_absent) (auto simp: contents_def)
  with hashtable_put_absent [OF ok x new absent(2) len absent(1)] map_of_contents_None [OF absent(2)]
  show ?thesis by (auto simp: put_refs_def Let_def)
next
  case (present pos e y)
  have "map_of (contents h) (he_key x) = Some (he_data y)"
    using map_of_contents [OF ok present(4)] present(5,6) by (simp add: data_of_def)
  with hashtable_put_present [OF ok x new present] show ?thesis by (auto simp: put_refs_def Let_def)
qed

lemma deref_all_spec:
  assumes "\<forall>e \<in> set es. ht_ents h e \<noteq> None"
  shows "\<exists>r. deref_all es h = Some (h\<lparr>ht_refs := r\<rparr>)
    \<and> (\<forall>d. r d = ht_refs h d - int (length (filter (\<lambda>e. data_of h e = d) es)))"
  using assms
proof (induction es arbitrary: h)
  case Nil
  have "h = h\<lparr>ht_refs := ht_refs h\<rparr>" by simp
  then show ?case by (intro exI [of _ "ht_refs h"]) simp
next
  case (Cons e es)
  then obtain x where x: "ht_ents h e = Some x" by auto
  let ?h = "ht_deref (he_data x) h"
  from Cons.IH [of ?h] Cons.prems obtain r where r: "deref_all es ?h = Some (?h\<lparr>ht_refs := r\<rparr>)"
    "\<forall>d. r d = ht_refs ?h d - int (length (filter (\<lambda>e. data_of ?h e = d) es))" by auto
  have "data_of ?h = data_of h" by (simp add: data_of_def [abs_def])
  moreover have "?h\<lparr>ht_refs := r\<rparr> = h\<lparr>ht_refs := r\<rparr>" by (simp add: ht_deref_def)
  ultimately have "deref_all (e # es) h = Some (h\<lparr>ht_refs := r\<rparr>)" using r(1) x by simp
  moreover have "r d = ht_refs h d - int (length (filter (\<lambda>e. data_of h e = d) (e # es)))" for d
    using r(2) x \<open>data_of ?h = data_of h\<close> by (simp add: data_of_def [of h e])
  ultimately show ?case by blast
qed

subsection \<open>The contract of a table\<close>

text \<open>What the clients of the hash table (friends, channels, services, transactions) rely on.\<close>

locale keyed_table =
  fixes put :: "'s \<Rightarrow> 'e \<Rightarrow> ('d \<times> 's) option"
    and get :: "'s \<Rightarrow> 'k \<Rightarrow> ('d option \<times> 's) option"
    and remove :: "'s \<Rightarrow> 'k \<Rightarrow> ('d option \<times> 's) option"
    and inv :: "'s \<Rightarrow> bool"
    and cont :: "'s \<Rightarrow> ('k \<times> 'd) list"
    and offers :: "'s \<Rightarrow> 'e \<Rightarrow> 'k \<Rightarrow> 'd \<Rightarrow> bool"
    and valid :: "'k \<Rightarrow> bool"
  assumes put_law: "inv s \<Longrightarrow> offers s e k d \<Longrightarrow>
      \<exists>s'. put s e = Some (d, s') \<and> inv s' \<and> cont s' = AList.update k d (cont s)"
    and get_law: "inv s \<Longrightarrow> valid k \<Longrightarrow> \<exists>s'. get s k = Some (map_of (cont s) k, s') \<and> inv s' \<and> cont s' = cont s"
    and remove_law: "inv s \<Longrightarrow> valid k \<Longrightarrow>
      \<exists>s'. remove s k = Some (map_of (cont s) k, s') \<and> inv s' \<and> cont s' = AList.delete k (cont s)"
begin

lemma put_get:
  assumes "inv s" and "offers s e k d" and "valid k'"
  shows "\<exists>s1 s2. put s e = Some (d, s1) \<and> get s1 k' = Some (if k' = k then Some d else map_of (cont s) k', s2)"
proof -
  from put_law [OF assms(1,2)] obtain s1 where
    p: "put s e = Some (d, s1)" "inv s1" "cont s1 = AList.update k d (cont s)" by blast
  from get_law [OF p(2) assms(3)] obtain s2 where "get s1 k' = Some (map_of (cont s1) k', s2)" by blast
  with p show ?thesis by (simp add: AList.update_conv')
qed

lemma remove_get:
  assumes "inv s" and "valid k" and "valid k'"
  shows "\<exists>s1 s2. remove s k = Some (map_of (cont s) k, s1)
    \<and> get s1 k' = Some (if k' = k then None else map_of (cont s) k', s2)"
proof -
  from remove_law [OF assms(1,2)] obtain s1 where
    p: "remove s k = Some (map_of (cont s) k, s1)" "inv s1" "cont s1 = AList.delete k (cont s)" by blast
  from get_law [OF p(2) assms(3)] obtain s2 where "get s1 k' = Some (map_of (cont s1) k', s2)" by blast
  with p show ?thesis by (simp add: AList.delete_conv')
qed

end

text \<open>An entry that is not in the table and its key and data.\<close>

definition offers :: "Hashtable \<Rightarrow> nat \<Rightarrow> u8 list \<Rightarrow> nat \<Rightarrow> bool" where
  "offers h e k d \<longleftrightarrow> e \<notin> set (ht_lst h) \<and> k \<noteq> [] \<and> length (ht_lst h) + 1 < 2 ^ 63
     \<and> (\<exists>x. ht_ents h e = Some x \<and> he_key x = k \<and> he_data x = d)"

lemma ht_ok_ref: "ht_ok (ht_ref d h) = ht_ok h" "contents (ht_ref d h) = contents h"
proof -
  have "key_of (ht_ref d h) = key_of h" "data_of (ht_ref d h) = data_of h"
    by (simp_all add: key_of_def [abs_def] data_of_def [abs_def])
  then show "ht_ok (ht_ref d h) = ht_ok h" "contents (ht_ref d h) = contents h"
    by (simp_all add: ht_ok_def contents_def)
qed

interpretation ht: keyed_table hashtable_put hashtable_get hashtable_remove ht_ok contents offers "\<lambda>k. k \<noteq> []"
proof unfold_locales
  fix s e k d assume "ht_ok s" "offers s e k d"
  then show "\<exists>s'. hashtable_put s e = Some (d, s') \<and> ht_ok s' \<and> contents s' = AList.update k d (contents s)"
    using hashtable_put_spec [of s e] by (auto simp: offers_def)
next
  fix s :: Hashtable and k :: "u8 list" assume s: "ht_ok s" "k \<noteq> []"
  show "\<exists>s'. hashtable_get s k = Some (map_of (contents s) k, s') \<and> ht_ok s' \<and> contents s' = contents s"
    using hashtable_get_spec [OF s] s(1) ht_ok_ref by (cases "map_of (contents s) k") auto
  show "\<exists>s'. hashtable_remove s k = Some (map_of (contents s) k, s') \<and> ht_ok s' \<and> contents s' = AList.delete k (contents s)"
    using hashtable_remove_spec [OF s] by blast
qed

lemma ht_ok_new_entry:
  assumes ok: "ht_ok t" and new: "a \<notin> set (ht_lst t)"
  shows "ht_ok (t\<lparr>ht_refs := r, ht_ents := (ht_ents t)(a \<mapsto> x)\<rparr>)"
    "contents (t\<lparr>ht_refs := r, ht_ents := (ht_ents t)(a \<mapsto> x)\<rparr>) = contents t"
    "e \<in> set (ht_lst t) \<Longrightarrow> key_of (t\<lparr>ht_refs := r, ht_ents := (ht_ents t)(a \<mapsto> x)\<rparr>) e = key_of t e"
proof -
  let ?t = "t\<lparr>ht_refs := r, ht_ents := (ht_ents t)(a \<mapsto> x)\<rparr>"
  have k: "key_of ?t e = key_of t e" "data_of ?t e = data_of t e" if "e \<in> set (ht_lst t)" for e
    using that new by (auto simp: key_of_def data_of_def)
  then show "e \<in> set (ht_lst t) \<Longrightarrow> key_of ?t e = key_of t e" by simp
  have b: "bucket_index ?t = bucket_index t" by (simp add: bucket_index_def fun_eq_iff)
  show "contents ?t = contents t" using k by (simp add: contents_def cong: map_cong)
  have "map (key_of ?t) (ht_lst t) = map (key_of t) (ht_lst t)" using k by simp
  then have "distinct (map (key_of ?t) (ht_lst t))" using ht_okD(5) [OF ok] by metis
  then show "ht_ok ?t" using ok k new unfolding ht_ok_def b by auto
qed

subsection \<open>Iterating\<close>

text \<open>A client that collects what an iterator returns, dropping the references again.\<close>

partial_function (option) collect :: "HashtableIterator_i \<Rightarrow> Hashtable \<Rightarrow> ((u8 list \<times> nat) list \<times> Hashtable) option" where
  "collect it h =
     do {
       (rc, kd, it1, h1) \<leftarrow> hashtable_iterator_next it h;
       case kd of
         None \<Rightarrow> Some ([], h1)
       | Some (k, d) \<Rightarrow> do { (xs, h2) \<leftarrow> collect it1 (ht_deref d h1); Some ((k, d) # xs, h2) }
     }"

lemma lst_succ_append: "distinct (as @ e # bs) \<Longrightarrow> lst_succ (as @ e # bs) e = lst_first bs"
proof -
  assume "distinct (as @ e # bs)"
  then have "dropWhile (\<lambda>x. x \<noteq> e) (as @ e # bs) = e # bs" by (subst dropWhile_append2) auto
  then show ?thesis by (simp add: lst_succ_def)
qed

lemma ht_deref_ref [simp]: "ht_deref d (ht_ref d h) = h"
  by (simp add: ht_deref_def ht_ref_def)

lemma collect_spec:
  assumes ok: "ht_ok h" and "ht_lst h = as @ bs" and "hit_next it = lst_first bs"
    and "hit_expected_mod_count it = ht_mod_count h"
  shows "collect it h = Some (map (\<lambda>e. (key_of h e, data_of h e)) bs, h)"
  using assms(2-)
proof (induction bs arbitrary: as it)
  case Nil
  then show ?case by (subst collect.simps) (simp add: hashtable_iterator_next_def lst_first_def)
next
  case (Cons e bs)
  then obtain x where x: "ht_ents h e = Some x" using ht_okD(8) [OF ok, of e] by auto
  let ?it = "it\<lparr>hit_current := Some e, hit_next := lst_first bs\<rparr>"
  have "lst_succ (ht_lst h) e = lst_first bs" using Cons.prems(1) ht_okD(4) [OF ok] by (simp add: lst_succ_append)
  then have "hashtable_iterator_next it h = Some (1, Some (he_key x, he_data x), ?it, ht_ref (he_data x) h)"
    using Cons.prems(2,3) x by (simp add: hashtable_iterator_next_def lst_first_def)
  moreover have "collect ?it h = Some (map (\<lambda>e. (key_of h e, data_of h e)) bs, h)"
    using Cons.IH [of "as @ [e]" ?it] Cons.prems by simp
  ultimately show ?case using x by (subst collect.simps) (simp add: key_of_def data_of_def)
qed

subsection \<open>Properties\<close>

text \<open>
  C19. Refinement to an association list in the order of insertion: putting an entry replaces the data of
  its key where it stands, or appends it at the end; the new data gains a reference and the replaced data
  loses the table's; buckets, list and count stay consistent.
\<close>

theorem hashtable_put_refines:
  assumes "ht_ok h" and "ht_ents h ent = Some x" and "he_key x \<noteq> []" and "ent \<notin> set (ht_lst h)"
    and "length (ht_lst h) + 1 < 2 ^ 63"
  shows "\<exists>h'. hashtable_put h ent = Some (he_data x, h') \<and> ht_ok h'
    \<and> contents h' = AList.update (he_key x) (he_data x) (contents h)
    \<and> ht_refs h' = put_refs h (he_key x) (he_data x)"
  by (rule hashtable_put_spec [OF assms])

definition demo_ents :: "nat \<Rightarrow> HashEntry_i option" where
  "demo_ents e = (if e < 3 then Some \<lparr>he_key = [of_nat e, 7], he_data = 100 + e, he_hash_code = 0\<rparr> else None)"

definition demo_table :: Hashtable where
  "demo_table = hashtable_create 8 None None demo_ents (\<lambda>_. 1)"

lemma demo_table_ok: "ht_ok demo_table"
  by (simp add: ht_ok_def demo_table_def hashtable_create_def default_key_compare_ok)

theorem hashtable_put_refines_witness:
  "\<exists>h'. hashtable_put demo_table 1 = Some (101, h') \<and> ht_ok h' \<and> contents h' = [([1, 7], 101)]"
proof -
  have e: "ht_ents demo_table 1 = Some \<lparr>he_key = [1, 7], he_data = 101, he_hash_code = 0\<rparr>"
    and l: "ht_lst demo_table = []" and c: "contents demo_table = []"
    by (simp_all add: demo_table_def hashtable_create_def demo_ents_def contents_def)
  from hashtable_put_refines [OF demo_table_ok e] l c show ?thesis by auto
qed

text \<open>
  Round trips: after a put, looking up its key returns its data and every other key what it returned
  before; after a removal, the key is gone, the removed data is returned, and every other key is as before.
\<close>

theorem hashtable_lookup:
  assumes "ht_ok h" and "offers h e k d" and "k' \<noteq> []"
  shows "(\<exists>h1 h2. hashtable_put h e = Some (d, h1)
      \<and> hashtable_get h1 k' = Some (if k' = k then Some d else map_of (contents h) k', h2))
    \<and> (\<exists>h1 h2. hashtable_remove h k = Some (map_of (contents h) k, h1)
      \<and> hashtable_get h1 k' = Some (if k' = k then None else map_of (contents h) k', h2))"
proof -
  have "k \<noteq> []" using assms(2) by (simp add: offers_def)
  with ht.put_get [OF assms] ht.remove_get [OF assms(1) _ assms(3)] show ?thesis by blast
qed

theorem hashtable_lookup_witness:
  "\<exists>h1 h2. hashtable_put demo_table 1 = Some (101, h1) \<and> hashtable_get h1 [1, 7] = Some (Some 101, h2)"
proof -
  have "offers demo_table 1 [1, 7] 101"
    by (simp add: offers_def demo_table_def hashtable_create_def demo_ents_def)
  from hashtable_lookup [OF demo_table_ok this, of "[1, 7]"] show ?thesis by simp
qed

text \<open>
  Iteration visits every entry exactly once, in the order of insertion, ends at the end of the list,
  and leaves table and reference counts as they were.
\<close>

theorem hashtable_iterates_in_order:
  assumes "ht_ok h"
  shows "collect (hashtable_iterate h) h = Some (contents h, h)"
  using collect_spec [OF assms, of "[]" "ht_lst h" "hashtable_iterate h"]
  by (simp add: hashtable_iterate_def contents_def)

theorem hashtable_iterates_in_order_witness: "collect (hashtable_iterate demo_table) demo_table = Some ([], demo_table)"
  using hashtable_iterates_in_order [OF demo_table_ok]
  by (simp add: contents_def demo_table_def hashtable_create_def)

text \<open>
  Clearing leaves an empty table and drops exactly one reference per entry.
\<close>

theorem hashtable_clear_empties:
  assumes "ht_ok h"
  shows "\<exists>h'. hashtable_clear h = Some h' \<and> ht_ok h' \<and> contents h' = []
    \<and> (\<forall>d. ht_refs h' d = ht_refs h d - int (length (filter (\<lambda>e. data_of h e = d) (ht_lst h))))"
proof (cases "ht_count h = 0")
  case True
  then have "ht_lst h = []" using ht_okD(6) [OF assms] by simp
  with True assms show ?thesis by (simp add: hashtable_clear_def contents_def)
next
  case False
  have "\<forall>e \<in> set (ht_lst h). ht_ents h e \<noteq> None" using ht_okD(8) [OF assms] by auto
  from deref_all_spec [OF this] obtain r where r: "deref_all (ht_lst h) h = Some (h\<lparr>ht_refs := r\<rparr>)"
    "\<forall>d. r d = ht_refs h d - int (length (filter (\<lambda>e. data_of h e = d) (ht_lst h)))" by blast
  with False assms show ?thesis
    by (auto simp: hashtable_clear_def contents_def ht_ok_def)
qed

theorem hashtable_clear_empties_witness:
  "\<exists>h'. hashtable_clear demo_table = Some h' \<and> ht_ok h' \<and> contents h' = []"
  using hashtable_clear_empties [OF demo_table_ok] by blast

end
