(* ===== verification/TimerHeap.thy ===== *)
theory TimerHeap
  imports Prelude "HOL-Library.Multiset"
begin

text \<open>
  The timer heap of \<^verbatim>\<open>src/common/timerheap.c\<close>: a binary heap of timer entries in an array, a
  parallel array \<^verbatim>\<open>timer_ids\<close> that maps the identifier of a scheduled timer to its slot and, through
  negative values, links the free identifiers into a list. The entries belong to the callers and are kept in
  a store from addresses to entries. The current time is an argument; taking the lock is assumed to succeed,
  and \<^verbatim>\<open>malloc\<close> and \<^verbatim>\<open>realloc\<close> too (their results are not checked in \<^verbatim>\<open>grow_heap\<close>).
  Seconds and milliseconds are unbounded integers.
\<close>

subsection \<open>Time values\<close>

record time_val_t =
  sec :: int
  msec :: int

definition TIME_VAL_MSEC :: "time_val_t \<Rightarrow> int" where
  "TIME_VAL_MSEC t = sec t * 1000 + msec t"

definition TIME_VAL_GT :: "time_val_t \<Rightarrow> time_val_t \<Rightarrow> bool" where
  "TIME_VAL_GT t1 t2 \<longleftrightarrow> sec t1 > sec t2 \<or> (sec t1 = sec t2 \<and> msec t1 > msec t2)"

definition TIME_VAL_GTE :: "time_val_t \<Rightarrow> time_val_t \<Rightarrow> bool" where
  "TIME_VAL_GTE t1 t2 \<longleftrightarrow> TIME_VAL_GT t1 t2 \<or> (sec t1 = sec t2 \<and> msec t1 = msec t2)"

definition TIME_VAL_LT :: "time_val_t \<Rightarrow> time_val_t \<Rightarrow> bool" where
  "TIME_VAL_LT t1 t2 \<longleftrightarrow> \<not> TIME_VAL_GTE t1 t2"

definition TIME_VAL_LTE :: "time_val_t \<Rightarrow> time_val_t \<Rightarrow> bool" where
  "TIME_VAL_LTE t1 t2 \<longleftrightarrow> \<not> TIME_VAL_GT t1 t2"

function borrow_loop :: "time_val_t \<Rightarrow> time_val_t" where
  "borrow_loop t =
     (let t1 = \<lparr>sec = sec t - 1, msec = msec t + 1000\<rparr>
      in if msec t1 \<le> -1000 then borrow_loop t1 else t1)"
  by pat_completeness auto
termination
  by (relation "measure (\<lambda>t. nat (- msec t))") auto

declare borrow_loop.simps [simp del]

definition time_val_normalize :: "time_val_t \<Rightarrow> time_val_t" where
  "time_val_normalize t =
     (let t1 = (if msec t \<ge> 1000 then \<lparr>sec = sec t + msec t div 1000, msec = msec t mod 1000\<rparr>
                else if msec t \<le> -1000 then borrow_loop t else t)
      in if sec t1 \<ge> 1 \<and> msec t1 < 0 then \<lparr>sec = sec t1 - 1, msec = msec t1 + 1000\<rparr>
         else if sec t1 < 0 \<and> msec t1 > 0 then \<lparr>sec = sec t1 + 1, msec = msec t1 - 1000\<rparr>
         else t1)"

definition TIME_VAL_ADD :: "time_val_t \<Rightarrow> time_val_t \<Rightarrow> time_val_t" where
  "TIME_VAL_ADD t1 t2 = time_val_normalize \<lparr>sec = sec t1 + sec t2, msec = msec t1 + msec t2\<rparr>"

definition TIME_VAL_SUB :: "time_val_t \<Rightarrow> time_val_t \<Rightarrow> time_val_t" where
  "TIME_VAL_SUB t1 t2 = time_val_normalize \<lparr>sec = sec t1 - sec t2, msec = msec t1 - msec t2\<rparr>"

subsection \<open>Data\<close>

record timer_entry_t =
  te_id :: int
  te_cb :: bool
  te_timer_id :: int
  te_timer_value :: time_val_t

record timer_heap_t =
  max_size :: nat
  cur_size :: nat
  max_entries_per_poll :: nat
  heap :: "nat list"
  timer_ids :: "int list"
  timer_ids_freelist :: int
  tents :: "nat \<Rightarrow> timer_entry_t option"

definition HEAP_PARENT :: "nat \<Rightarrow> nat" where
  "HEAP_PARENT x = (if x = 0 then 0 else (x - 1) div 2)"

definition HEAP_LEFT :: "nat \<Rightarrow> nat" where
  "HEAP_LEFT x = x + x + 1"

text \<open>An array access with a signed index.\<close>

definition at_id :: "int list \<Rightarrow> int \<Rightarrow> int option" where
  "at_id xs i = (if i < 0 then None else mem_at xs (nat i))"

definition put_id :: "int list \<Rightarrow> int \<Rightarrow> int \<Rightarrow> int list option" where
  "put_id xs i v = (if i < 0 then None else mem_set xs (nat i) v)"

subsection \<open>The heap\<close>

definition copy_node :: "timer_heap_t \<Rightarrow> nat \<Rightarrow> nat \<Rightarrow> timer_heap_t option" where
  "copy_node ht slot moved_node =
     do {
       h \<leftarrow> mem_set (heap ht) slot moved_node;
       e \<leftarrow> tents ht moved_node;
       ids \<leftarrow> put_id (timer_ids ht) (te_timer_id e) (int slot);
       Some (ht\<lparr>heap := h, timer_ids := ids\<rparr>)
     }"

definition pop_freelist :: "timer_heap_t \<Rightarrow> (int \<times> timer_heap_t) option" where
  "pop_freelist ht =
     do {
       v \<leftarrow> at_id (timer_ids ht) (timer_ids_freelist ht);
       Some (timer_ids_freelist ht, ht\<lparr>timer_ids_freelist := - v\<rparr>)
     }"

definition push_freelist :: "timer_heap_t \<Rightarrow> int \<Rightarrow> timer_heap_t option" where
  "push_freelist ht old_id =
     do {
       ids \<leftarrow> put_id (timer_ids ht) old_id (- timer_ids_freelist ht);
       Some (ht\<lparr>timer_ids := ids, timer_ids_freelist := old_id\<rparr>)
     }"

definition node_time :: "timer_heap_t \<Rightarrow> nat \<Rightarrow> time_val_t option" where
  "node_time ht slot = do { n \<leftarrow> mem_at (heap ht) slot; e \<leftarrow> tents ht n; Some (te_timer_value e) }"

text \<open>
  The loops get \<^verbatim>\<open>child\<close> and \<^verbatim>\<open>parent\<close> from the slot, as every caller computes them.
\<close>

function reheap_down :: "timer_heap_t \<Rightarrow> nat \<Rightarrow> nat \<Rightarrow> timer_heap_t option" where
  "reheap_down ht moved_node slot =
     (let child0 = HEAP_LEFT slot in
      if child0 < cur_size ht then
        do {
          child \<leftarrow> (if child0 + 1 < cur_size ht then do {
                     tr \<leftarrow> node_time ht (child0 + 1);
                     tl \<leftarrow> node_time ht child0;
                     Some (if TIME_VAL_LT tr tl then child0 + 1 else child0)
                   } else Some child0);
          tc \<leftarrow> node_time ht child;
          m \<leftarrow> tents ht moved_node;
          if TIME_VAL_LT tc (te_timer_value m) then do {
            n \<leftarrow> mem_at (heap ht) child;
            ht1 \<leftarrow> copy_node ht slot n;
            if slot < child \<and> cur_size ht1 = cur_size ht then reheap_down ht1 moved_node child else None
          }
          else copy_node ht slot moved_node
        }
      else copy_node ht slot moved_node)"
  by pat_completeness auto
termination
  by (relation "measure (\<lambda>(ht, m, slot). cur_size ht - slot)") (auto simp: HEAP_LEFT_def)

function reheap_up :: "timer_heap_t \<Rightarrow> nat \<Rightarrow> nat \<Rightarrow> timer_heap_t option" where
  "reheap_up ht moved_node slot =
     (if slot > 0 then
        do {
          m \<leftarrow> tents ht moved_node;
          tp \<leftarrow> node_time ht (HEAP_PARENT slot);
          if TIME_VAL_LT (te_timer_value m) tp then do {
            n \<leftarrow> mem_at (heap ht) (HEAP_PARENT slot);
            ht1 \<leftarrow> copy_node ht slot n;
            reheap_up ht1 moved_node (HEAP_PARENT slot)
          }
          else copy_node ht slot moved_node
        }
      else copy_node ht slot moved_node)"
  by pat_completeness auto
termination
  by (relation "measure (\<lambda>(ht, m, slot). slot)") (auto simp: HEAP_PARENT_def)

declare reheap_down.simps [simp del] reheap_up.simps [simp del]

definition set_timer_id :: "nat \<Rightarrow> int \<Rightarrow> timer_heap_t \<Rightarrow> timer_heap_t option" where
  "set_timer_id n i ht = do { e \<leftarrow> tents ht n; Some (ht\<lparr>tents := (tents ht)(n \<mapsto> e\<lparr>te_timer_id := i\<rparr>)\<rparr>) }"

text \<open>Decrement of a \<^verbatim>\<open>size_t\<close>.\<close>

definition size_dec :: "nat \<Rightarrow> nat" where
  "size_dec n = (if n = 0 then 2 ^ 64 - 1 else n - 1)"

definition remove_node :: "timer_heap_t \<Rightarrow> nat \<Rightarrow> (nat \<times> timer_heap_t) option" where
  "remove_node ht slot =
     do {
       removed_node \<leftarrow> mem_at (heap ht) slot;
       e \<leftarrow> tents ht removed_node;
       ht1 \<leftarrow> push_freelist ht (te_timer_id e);
       let ht2 = ht1\<lparr>cur_size := size_dec (cur_size ht1)\<rparr>;
       ht3 \<leftarrow> set_timer_id removed_node (-1) ht2;
       ht4 \<leftarrow> (if slot < cur_size ht3 then do {
                moved_node \<leftarrow> mem_at (heap ht3) (cur_size ht3);
                a \<leftarrow> copy_node ht3 slot moved_node;
                m \<leftarrow> tents a moved_node;
                tp \<leftarrow> node_time a (HEAP_PARENT slot);
                if TIME_VAL_GTE (te_timer_value m) tp then reheap_down a moved_node slot
                else reheap_up a moved_node slot
              } else Some ht3);
       Some (removed_node, ht4)
     }"

text \<open>The new part of the reallocated \<^verbatim>\<open>heap\<close> has arbitrary contents, here zeros.\<close>

definition grow_heap :: "timer_heap_t \<Rightarrow> timer_heap_t" where
  "grow_heap ht =
     (let new_size = max_size ht * 2 in
      ht\<lparr>heap := heap ht @ replicate (new_size - max_size ht) 0,
         timer_ids := timer_ids ht @ map (\<lambda>i. - (int i + 1)) [max_size ht..<new_size],
         max_size := new_size\<rparr>)"

definition insert_node :: "timer_heap_t \<Rightarrow> nat \<Rightarrow> timer_heap_t option" where
  "insert_node ht new_node =
     do {
       let ht1 = (if cur_size ht + 2 \<ge> max_size ht then grow_heap ht else ht);
       ht2 \<leftarrow> reheap_up ht1 new_node (cur_size ht1);
       Some (ht2\<lparr>cur_size := cur_size ht2 + 1\<rparr>)
     }"

definition schedule_entry :: "timer_heap_t \<Rightarrow> nat \<Rightarrow> time_val_t \<Rightarrow> (int \<times> timer_heap_t) option" where
  "schedule_entry ht entry future_time =
     (if cur_size ht < max_size ht then
        do {
          (i, ht1) \<leftarrow> pop_freelist ht;
          e \<leftarrow> tents ht1 entry;
          let ht2 = ht1\<lparr>tents := (tents ht1)(entry \<mapsto> e\<lparr>te_timer_id := i, te_timer_value := future_time\<rparr>)\<rparr>;
          ht3 \<leftarrow> insert_node ht2 entry;
          Some (0, ht3)
        }
      else Some (-1, ht))"

text \<open>
  \<^verbatim>\<open>cancel\<close> is only called with \<^verbatim>\<open>F_DONT_CALL\<close>; the callback of the heap itself is never set.
\<close>

definition cancel :: "timer_heap_t \<Rightarrow> nat \<Rightarrow> bool \<Rightarrow> (int \<times> timer_heap_t) option" where
  "cancel ht entry dont_assert =
     do {
       e \<leftarrow> tents ht entry;
       if te_timer_id e < 0 \<or> te_timer_id e > int (max_size ht) then
         do { ht1 \<leftarrow> set_timer_id entry (-1) ht; Some (0, ht1) }
       else do {
         timer_node_slot \<leftarrow> at_id (timer_ids ht) (te_timer_id e);
         if timer_node_slot < 0 then do { ht1 \<leftarrow> set_timer_id entry (-1) ht; Some (0, ht1) }
         else do {
           n \<leftarrow> mem_at (heap ht) (nat timer_node_slot);
           if entry \<noteq> n then do {
             c_assert dont_assert;
             ht1 \<leftarrow> set_timer_id entry (-1) ht;
             Some (0, ht1)
           }
           else do {
             (_, ht1) \<leftarrow> remove_node ht (nat timer_node_slot);
             Some (1, ht1)
           }
         }
       }
     }"

subsection \<open>The interface\<close>

definition timer_heap_create :: "nat \<Rightarrow> (nat \<Rightarrow> timer_entry_t option) \<Rightarrow> timer_heap_t" where
  "timer_heap_create sz0 ents =
     (let sz = sz0 + 2 in
      \<lparr>max_size = sz, cur_size = 0, max_entries_per_poll = 64, heap = replicate sz 0,
       timer_ids = map (\<lambda>i. - (int i + 1)) [0..<sz], timer_ids_freelist = 1, tents = ents\<rparr>)"

definition timer_heap_set_max_timed_out_per_poll :: "timer_heap_t \<Rightarrow> nat \<Rightarrow> nat \<times> timer_heap_t" where
  "timer_heap_set_max_timed_out_per_poll ht cnt = (max_entries_per_poll ht, ht\<lparr>max_entries_per_poll := cnt\<rparr>)"

definition timer_entry_init :: "timer_entry_t \<Rightarrow> int \<Rightarrow> timer_entry_t" where
  "timer_entry_init entry i = entry\<lparr>te_timer_id := -1, te_id := i, te_cb := True\<rparr>"

definition timer_entry_running :: "timer_entry_t \<Rightarrow> bool" where
  "timer_entry_running entry \<longleftrightarrow> te_timer_id entry \<ge> 1"

definition EINVAL_rc :: int where "EINVAL_rc = 22"

definition schedule :: "time_val_t \<Rightarrow> timer_heap_t \<Rightarrow> nat \<Rightarrow> time_val_t \<Rightarrow> bool \<Rightarrow> int
    \<Rightarrow> (int \<times> timer_heap_t) option" where
  "schedule now ht entry delay set_id id_val =
     do {
       e \<leftarrow> tents ht entry;
       if \<not> te_cb e then Some (EINVAL_rc, ht)
       else if te_timer_id e \<ge> 1 then Some (EINVAL_rc, ht)
       else do {
         (status, ht1) \<leftarrow> schedule_entry ht entry (TIME_VAL_ADD now delay);
         e1 \<leftarrow> tents ht1 entry;
         Some (status, if status = 0 \<and> set_id then ht1\<lparr>tents := (tents ht1)(entry \<mapsto> e1\<lparr>te_id := id_val\<rparr>)\<rparr> else ht1)
       }
     }"

definition timer_heap_schedule :: "time_val_t \<Rightarrow> timer_heap_t \<Rightarrow> nat \<Rightarrow> time_val_t \<Rightarrow> (int \<times> timer_heap_t) option" where
  "timer_heap_schedule now ht entry delay = schedule now ht entry delay False 1"

definition cancel_timer :: "timer_heap_t \<Rightarrow> nat \<Rightarrow> bool \<Rightarrow> bool \<Rightarrow> int \<Rightarrow> (int \<times> timer_heap_t) option" where
  "cancel_timer ht entry set_id dont_assert id_val =
     do {
       (cnt, ht1) \<leftarrow> cancel ht entry dont_assert;
       e \<leftarrow> tents ht1 entry;
       Some (cnt, if set_id then ht1\<lparr>tents := (tents ht1)(entry \<mapsto> e\<lparr>te_id := id_val\<rparr>)\<rparr> else ht1)
     }"

definition timer_heap_cancel :: "timer_heap_t \<Rightarrow> nat \<Rightarrow> (int \<times> timer_heap_t) option" where
  "timer_heap_cancel ht entry = cancel_timer ht entry False False 0"

definition timer_heap_cancel_if_active :: "timer_heap_t \<Rightarrow> nat \<Rightarrow> int \<Rightarrow> (int \<times> timer_heap_t) option" where
  "timer_heap_cancel_if_active ht entry id_val = cancel_timer ht entry True True id_val"

text \<open>
  The loop of \<^verbatim>\<open>timer_heap_poll\<close> with its counter; it returns the entries in the order in which they
  are taken out. The callbacks are a parameter: they may schedule and cancel timers on the heap, and change
  its limit, so that the loop need not end.
\<close>

partial_function (option) poll_loop :: "(nat \<Rightarrow> timer_heap_t \<Rightarrow> timer_heap_t option) \<Rightarrow> time_val_t \<Rightarrow> nat
    \<Rightarrow> timer_heap_t \<Rightarrow> (nat list \<times> timer_heap_t) option" where
  "poll_loop cb now cnt ht =
     (if cur_size ht = 0 then Some ([], ht)
      else do {
        t \<leftarrow> node_time ht 0;
        if TIME_VAL_LTE t now \<and> cnt < max_entries_per_poll ht then do {
          (n, ht1) \<leftarrow> remove_node ht 0;
          e \<leftarrow> tents ht1 n;
          ht2 \<leftarrow> (if te_cb e then cb n ht1 else Some ht1);
          (ns, ht3) \<leftarrow> poll_loop cb now (cnt + 1) ht2;
          Some (n # ns, ht3)
        }
        else Some ([], ht)
      })"

definition INT32_MAX :: int where "INT32_MAX = 2147483647"

text \<open>
  Returns the entries taken out (their number is the result in the code), the time until the next one if
  \<^verbatim>\<open>next_delay\<close> is given, and the heap.
\<close>

definition timer_heap_poll :: "(nat \<Rightarrow> timer_heap_t \<Rightarrow> timer_heap_t option) \<Rightarrow> time_val_t \<Rightarrow> bool \<Rightarrow> timer_heap_t
    \<Rightarrow> (nat list \<times> time_val_t option \<times> timer_heap_t) option" where
  "timer_heap_poll cb now next_delay ht =
     (if cur_size ht = 0 \<and> next_delay then Some ([], Some \<lparr>sec = INT32_MAX, msec = INT32_MAX\<rparr>, ht)
      else do {
        (ns, ht1) \<leftarrow> poll_loop cb now 0 ht;
        if cur_size ht1 \<noteq> 0 \<and> next_delay then do {
          t \<leftarrow> node_time ht1 0;
          let d = TIME_VAL_SUB t now;
          Some (ns, Some (if sec d < 0 \<or> msec d < 0 then \<lparr>sec = 0, msec = 0\<rparr> else d), ht1)
        }
        else if next_delay then Some (ns, Some \<lparr>sec = INT32_MAX, msec = INT32_MAX\<rparr>, ht1)
        else Some (ns, None, ht1)
      })"

definition timer_heap_count :: "timer_heap_t \<Rightarrow> nat" where
  "timer_heap_count ht = cur_size ht"

definition timer_heap_earlist_time :: "timer_heap_t \<Rightarrow> time_val_t option" where
  "timer_heap_earlist_time ht = do { c_assert (cur_size ht \<noteq> 0); node_time ht 0 }"

subsection \<open>Time values are ordered lexicographically\<close>

instantiation time_val_t_ext :: (linorder) linorder
begin

definition less_eq_time_val_t_ext :: "'a time_val_t_scheme \<Rightarrow> 'a time_val_t_scheme \<Rightarrow> bool" where
  "less_eq_time_val_t_ext a b \<longleftrightarrow>
     sec a < sec b \<or> (sec a = sec b \<and> (msec a < msec b \<or> (msec a = msec b \<and> time_val_t.more a \<le> time_val_t.more b)))"

definition less_time_val_t_ext :: "'a time_val_t_scheme \<Rightarrow> 'a time_val_t_scheme \<Rightarrow> bool" where
  "less_time_val_t_ext a b \<longleftrightarrow> a \<le> b \<and> \<not> b \<le> a"

instance
  by standard (auto simp: less_eq_time_val_t_ext_def less_time_val_t_ext_def)

end

lemma time_val_less_eq: "a \<le> b \<longleftrightarrow> sec a < sec b \<or> (sec a = sec b \<and> msec a \<le> msec b)" for a b :: time_val_t
  by (auto simp: less_eq_time_val_t_ext_def)

lemma TIME_VAL_orders [simp]:
  "TIME_VAL_GT a b \<longleftrightarrow> b < a" "TIME_VAL_GTE a b \<longleftrightarrow> b \<le> a"
  "TIME_VAL_LT a b \<longleftrightarrow> a < b" "TIME_VAL_LTE a b \<longleftrightarrow> a \<le> b"
proof -
  show gt: "TIME_VAL_GT a b \<longleftrightarrow> b < a"
    by (auto simp: TIME_VAL_GT_def less_le_not_le time_val_less_eq)
  show gte: "TIME_VAL_GTE a b \<longleftrightarrow> b \<le> a"
    by (auto simp: TIME_VAL_GTE_def TIME_VAL_GT_def time_val_less_eq)
  show "TIME_VAL_LT a b \<longleftrightarrow> a < b" "TIME_VAL_LTE a b \<longleftrightarrow> a \<le> b"
    using gt gte by (auto simp: TIME_VAL_LT_def TIME_VAL_LTE_def)
qed

lemma borrow_loop_ok:
  "msec t \<le> -1000 \<Longrightarrow> TIME_VAL_MSEC (borrow_loop t) = TIME_VAL_MSEC t
     \<and> -1000 < msec (borrow_loop t) \<and> msec (borrow_loop t) \<le> 0"
proof (induction t rule: borrow_loop.induct)
  case (1 t)
  then show ?case
    by (subst (1 2 3) borrow_loop.simps) (auto simp: Let_def TIME_VAL_MSEC_def)
qed

lemma normalize_cases:
  "TIME_VAL_MSEC (time_val_normalize t) = TIME_VAL_MSEC t" (is ?keep)
  "\<bar>msec (time_val_normalize t)\<bar> < 1000" (is ?small)
  "sec (time_val_normalize t) * msec (time_val_normalize t) \<ge> 0" (is ?signs)
proof -
  define t1 where "t1 = (if msec t \<ge> 1000 then \<lparr>sec = sec t + msec t div 1000, msec = msec t mod 1000\<rparr>
                else if msec t \<le> -1000 then borrow_loop t else t)"
  have t1: "TIME_VAL_MSEC t1 = TIME_VAL_MSEC t" "-1000 < msec t1" "msec t1 < 1000"
    using borrow_loop_ok [of t] by (auto simp: t1_def TIME_VAL_MSEC_def algebra_simps)
  have eq: "time_val_normalize t =
     (if sec t1 \<ge> 1 \<and> msec t1 < 0 then \<lparr>sec = sec t1 - 1, msec = msec t1 + 1000\<rparr>
         else if sec t1 < 0 \<and> msec t1 > 0 then \<lparr>sec = sec t1 + 1, msec = msec t1 - 1000\<rparr>
         else t1)"
    by (simp add: time_val_normalize_def t1_def Let_def)
  show ?keep ?small
    using t1 by (auto simp: eq TIME_VAL_MSEC_def)
  show ?signs
    using t1 by (auto simp: eq zero_le_mult_iff)
qed

subsection \<open>Heap order with one cell out of place\<close>

text \<open>
  \<open>f\<close> gives the keys of the \<open>n\<close> cells. \<open>up_ok\<close> allows the cell \<open>s\<close> to be smaller than its parent, \<open>down_ok\<close>
  to be greater than its children.
\<close>

definition heap_order :: "(nat \<Rightarrow> 'a::linorder) \<Rightarrow> nat \<Rightarrow> bool" where
  "heap_order f n \<longleftrightarrow> (\<forall>i<n. 0 < i \<longrightarrow> f (HEAP_PARENT i) \<le> f i)"

definition up_ok :: "(nat \<Rightarrow> 'a::linorder) \<Rightarrow> nat \<Rightarrow> nat \<Rightarrow> bool" where
  "up_ok f n s \<longleftrightarrow> (\<forall>i<n. 0 < i \<and> i \<noteq> s \<longrightarrow> f (HEAP_PARENT i) \<le> f i)
     \<and> (\<forall>i<n. 0 < i \<and> 0 < s \<and> HEAP_PARENT i = s \<longrightarrow> f (HEAP_PARENT s) \<le> f i)"

definition down_ok :: "(nat \<Rightarrow> 'a::linorder) \<Rightarrow> nat \<Rightarrow> nat \<Rightarrow> bool" where
  "down_ok f n s \<longleftrightarrow> (\<forall>i<n. 0 < i \<and> HEAP_PARENT i \<noteq> s \<longrightarrow> f (HEAP_PARENT i) \<le> f i)
     \<and> (\<forall>i<n. 0 < i \<and> 0 < s \<and> HEAP_PARENT i = s \<longrightarrow> f (HEAP_PARENT s) \<le> f i)"

lemma parent_less: "0 < i \<Longrightarrow> HEAP_PARENT i < i"
  by (simp add: HEAP_PARENT_def)

lemma parent_children: "0 < i \<Longrightarrow> HEAP_PARENT i = s \<longleftrightarrow> i = HEAP_LEFT s \<or> i = HEAP_LEFT s + 1"
  unfolding HEAP_PARENT_def HEAP_LEFT_def by presburger

lemma parent_left [simp]: "HEAP_PARENT (HEAP_LEFT s) = s" "HEAP_PARENT (Suc (HEAP_LEFT s)) = s"
  by (auto simp: HEAP_PARENT_def HEAP_LEFT_def)

lemma left_greater [simp]: "s < HEAP_LEFT s"
  by (simp add: HEAP_LEFT_def)

lemma heap_order_cong: "heap_order f n \<Longrightarrow> (\<And>i. i < n \<Longrightarrow> g i = f i) \<Longrightarrow> heap_order g n"
  by (simp add: heap_order_def) (metis parent_less less_trans)

lemma up_ok_cong: "up_ok f n s \<Longrightarrow> s < n \<Longrightarrow> (\<And>i. i < n \<Longrightarrow> g i = f i) \<Longrightarrow> up_ok g n s"
  by (simp add: up_ok_def) (metis parent_less less_trans)

lemma down_ok_cong: "down_ok f n s \<Longrightarrow> s < n \<Longrightarrow> (\<And>i. i < n \<Longrightarrow> g i = f i) \<Longrightarrow> down_ok g n s"
  by (simp add: down_ok_def) (metis parent_less less_trans)

lemma up_ok_step:
  assumes ok: "up_ok f n s" and s: "0 < s" "s < n" and lt: "f s < f (HEAP_PARENT s)"
  shows "up_ok (f(s := f (HEAP_PARENT s), HEAP_PARENT s := f s)) n (HEAP_PARENT s)"
proof -
  define p where "p = HEAP_PARENT s"
  have p: "p < s" "p < n" using s parent_less [of s] by (auto simp: p_def)
  have 1: "i < n \<Longrightarrow> 0 < i \<Longrightarrow> i \<noteq> s \<Longrightarrow> f (HEAP_PARENT i) \<le> f i" for i
    using ok by (simp add: up_ok_def)
  have 2: "i < n \<Longrightarrow> 0 < i \<Longrightarrow> HEAP_PARENT i = s \<Longrightarrow> f p \<le> f i" for i
    using ok s by (simp add: up_ok_def p_def)
  have pp: "0 < p \<Longrightarrow> HEAP_PARENT p \<noteq> p \<and> HEAP_PARENT p \<noteq> s"
    using p parent_less [of p] by auto
  have lt': "f s < f p" using lt by (simp add: p_def)
  have "(f(s := f p, p := f s)) (HEAP_PARENT i) \<le> (f(s := f p, p := f s)) i"
    if "i < n" "0 < i" "i \<noteq> p" for i
  proof -
    consider "i = s" | "i \<noteq> s" "HEAP_PARENT i = s" | "i \<noteq> s" "HEAP_PARENT i = p"
      | "i \<noteq> s" "HEAP_PARENT i \<noteq> s" "HEAP_PARENT i \<noteq> p" by blast
    then show ?thesis
    proof cases
      case 1
      then show ?thesis using lt' p by (simp add: p_def [symmetric])
    next
      case 3
      then have "f p \<le> f i" using 1 [of i] that by simp
      then show ?thesis using 3 that lt' by simp
    qed (use 1 [of i] 2 [of i] that p in simp_all)
  qed
  moreover have "(f(s := f p, p := f s)) (HEAP_PARENT p) \<le> (f(s := f p, p := f s)) i"
    if "i < n" "0 < i" "0 < p" "HEAP_PARENT i = p" for i
    using 1 [of i] 1 [of p] that lt' p pp parent_less [of i] by (auto intro: order_trans)
  ultimately show ?thesis
    by (simp add: up_ok_def p_def)
qed

lemma up_ok_done: "up_ok f n s \<Longrightarrow> s = 0 \<or> f (HEAP_PARENT s) \<le> f s \<Longrightarrow> heap_order f n"
  by (auto simp: up_ok_def heap_order_def)

lemma down_ok_step:
  assumes ok: "down_ok f n s" and c: "HEAP_PARENT c = s" "0 < c" "c < n" and lt: "f c < f s"
    and small: "\<And>i. i < n \<Longrightarrow> 0 < i \<Longrightarrow> HEAP_PARENT i = s \<Longrightarrow> f c \<le> f i"
  shows "down_ok (f(s := f c, c := f s)) n c"
proof -
  have sc: "s < c" using c parent_less [of c] by simp
  have 1: "i < n \<Longrightarrow> 0 < i \<Longrightarrow> HEAP_PARENT i \<noteq> s \<Longrightarrow> f (HEAP_PARENT i) \<le> f i" for i
    using ok by (simp add: down_ok_def)
  have 2: "0 < s \<Longrightarrow> f (HEAP_PARENT s) \<le> f c"
    using ok c by (auto simp: down_ok_def)
  have "(f(s := f c, c := f s)) (HEAP_PARENT i) \<le> (f(s := f c, c := f s)) i"
    if "i < n" "0 < i" "HEAP_PARENT i \<noteq> c" for i
    using 1 [of i] 2 small [of i] that lt c sc parent_less [of i] by auto
  moreover have "(f(s := f c, c := f s)) (HEAP_PARENT c) \<le> (f(s := f c, c := f s)) i"
    if "i < n" "0 < i" "HEAP_PARENT i = c" for i
    using 1 [of i] that c sc parent_less [of i] by auto
  ultimately show ?thesis
    by (simp add: down_ok_def)
qed

lemma down_ok_done:
  "down_ok f n s \<Longrightarrow> (\<And>i. i < n \<Longrightarrow> 0 < i \<Longrightarrow> HEAP_PARENT i = s \<Longrightarrow> f s \<le> f i) \<Longrightarrow> heap_order f n"
  by (auto simp: down_ok_def heap_order_def)

lemma heap_order_root: "heap_order f n \<Longrightarrow> i < n \<Longrightarrow> f 0 \<le> f i"
proof (induction i rule: less_induct)
  case (less i)
  show ?case
  proof (cases "i = 0")
    case False
    with less.prems have "f (HEAP_PARENT i) \<le> f i" by (simp add: heap_order_def)
    moreover have "f 0 \<le> f (HEAP_PARENT i)"
      using less False parent_less [of i] by auto
    ultimately show ?thesis by simp
  qed simp
qed

text \<open>Replacing one cell of a heap by another key.\<close>

lemma heap_order_replace:
  assumes ord: "heap_order f n" and s: "s < n"
  shows "s = 0 \<or> f (HEAP_PARENT s) \<le> x \<Longrightarrow> down_ok (f(s := x)) n s"
    and "0 < s \<Longrightarrow> x < f (HEAP_PARENT s) \<Longrightarrow> up_ok (f(s := x)) n s"
proof -
  have 1: "i < n \<Longrightarrow> 0 < i \<Longrightarrow> f (HEAP_PARENT i) \<le> f i" for i
    using ord by (simp add: heap_order_def)
  have 2: "f (HEAP_PARENT s) \<le> f i" if "i < n" "0 < i" "0 < s" "HEAP_PARENT i = s" for i
    using 1 [of i] 1 [of s] that s by (auto intro: order_trans)
  have ne: "0 < i \<Longrightarrow> HEAP_PARENT i \<noteq> i" for i
    using parent_less [of i] by simp
  show "down_ok (f(s := x)) n s" if x: "s = 0 \<or> f (HEAP_PARENT s) \<le> x"
    unfolding down_ok_def using 1 2 ne x by (metis fun_upd_apply less_numeral_extra(3))
  show "up_ok (f(s := x)) n s" if x: "0 < s" "x < f (HEAP_PARENT s)"
    unfolding up_ok_def
  proof (intro conjI allI impI; elim conjE)
    fix i assume i: "i < n" "0 < i" "i \<noteq> s"
    show "(f(s := x)) (HEAP_PARENT i) \<le> (f(s := x)) i"
      using 1 [of i] 2 [of i] i x by (cases "HEAP_PARENT i = s") auto
  next
    fix i assume i: "i < n" "0 < i" "HEAP_PARENT i = s"
    show "(f(s := x)) (HEAP_PARENT s) \<le> (f(s := x)) i"
      using 2 [of i] i x ne [of i] ne [of s] by auto
  qed
qed

end
