(* ===== verification/TimerHeapInv.thy ===== *)
theory TimerHeapInv
  imports TimerHeap
begin

text \<open>
  The invariant of the timer heap and the proof that every operation keeps it: the cells below
  \<^verbatim>\<open>cur_size\<close> are in heap order, \<^verbatim>\<open>timer_ids\<close> maps the identifier of each scheduled entry to its slot,
  and the free identifiers form the chain that starts at \<^verbatim>\<open>timer_ids_freelist\<close>. The two loops that restore
  the heap order move one node through the array; they are verified on the array in which that node already
  stands in the slot that the loop has reached.
\<close>

named_theorems timer_defs

subsection \<open>Moving a node through the array\<close>

definition idn :: "timer_heap_t \<Rightarrow> nat \<Rightarrow> nat" where
  "idn ht n = nat (te_timer_id (the (tents ht n)))"

definition tmn :: "timer_heap_t \<Rightarrow> nat \<Rightarrow> time_val_t" where
  "tmn ht n = te_timer_value (the (tents ht n))"

definition nodes_ok :: "timer_heap_t \<Rightarrow> nat list \<Rightarrow> bool" where
  "nodes_ok ht xs \<longleftrightarrow>
     (\<forall>n\<in>set xs. \<exists>e. tents ht n = Some e \<and> 1 \<le> te_timer_id e \<and> nat (te_timer_id e) < length (timer_ids ht))
     \<and> distinct (map (idn ht) xs)"

definition virt :: "nat \<Rightarrow> timer_heap_t \<Rightarrow> nat \<Rightarrow> nat \<Rightarrow> nat list" where
  "virt N ht m s = (take N (heap ht))[s := m]"

definition hole :: "nat \<Rightarrow> timer_heap_t \<Rightarrow> nat \<Rightarrow> nat \<Rightarrow> bool" where
  "hole N ht m s \<longleftrightarrow> s < N \<and> N \<le> length (heap ht) \<and> nodes_ok ht (virt N ht m s)
     \<and> (\<forall>i<N. i \<noteq> s \<longrightarrow> timer_ids ht ! idn ht (heap ht ! i) = int i)"

definition placed :: "nat \<Rightarrow> timer_heap_t \<Rightarrow> bool" where
  "placed N ht \<longleftrightarrow> N \<le> length (heap ht) \<and> nodes_ok ht (take N (heap ht))
     \<and> (\<forall>i<N. timer_ids ht ! idn ht (heap ht ! i) = int i)"

text \<open>What a move changes: the heap array, and \<^verbatim>\<open>timer_ids\<close> at the identifiers in use only.\<close>

definition moved :: "nat set \<Rightarrow> timer_heap_t \<Rightarrow> timer_heap_t \<Rightarrow> bool" where
  "moved U ht ht' \<longleftrightarrow> ht' = ht\<lparr>heap := heap ht', timer_ids := timer_ids ht'\<rparr> \<and> length (heap ht') = length (heap ht)
     \<and> length (timer_ids ht') = length (timer_ids ht) \<and> (\<forall>j. j \<notin> U \<longrightarrow> timer_ids ht' ! j = timer_ids ht ! j)"

lemma moved_trans: "moved U a b \<Longrightarrow> moved U b c \<Longrightarrow> moved U a c"
  by (cases a; cases b; cases c) (simp add: moved_def)

lemma moved_copy:
  "j \<in> U \<Longrightarrow> moved U ht (ht\<lparr>heap := (heap ht)[s := n], timer_ids := (timer_ids ht)[j := v]\<rparr>)"
  unfolding moved_def by simp (metis nth_list_update_neq)

lemma moved_sel:
  assumes "moved U ht ht'"
  shows "tents ht' = tents ht" "cur_size ht' = cur_size ht" "max_size ht' = max_size ht"
    "max_entries_per_poll ht' = max_entries_per_poll ht" "timer_ids_freelist ht' = timer_ids_freelist ht"
    "length (heap ht') = length (heap ht)" "length (timer_ids ht') = length (timer_ids ht)"
    "idn ht' = idn ht" "tmn ht' = tmn ht"
    "j \<notin> U \<Longrightarrow> timer_ids ht' ! j = timer_ids ht ! j"
  using assms by (cases ht; cases ht'; simp add: moved_def idn_def tmn_def fun_eq_iff)+

lemma nodes_ok_cong:
  "tents ht' = tents ht \<Longrightarrow> length (timer_ids ht') = length (timer_ids ht) \<Longrightarrow> nodes_ok ht' xs = nodes_ok ht xs"
  by (simp add: nodes_ok_def idn_def [abs_def])

lemma nodes_ok_mset: "mset xs = mset ys \<Longrightarrow> nodes_ok ht xs = nodes_ok ht ys"
  unfolding nodes_ok_def by (metis mset_eq_imp_distinct_iff mset_eq_setD mset_map)

lemma nodes_ok_inj:
  "nodes_ok ht xs \<Longrightarrow> i < length xs \<Longrightarrow> j < length xs \<Longrightarrow> idn ht (xs ! i) = idn ht (xs ! j) \<longleftrightarrow> i = j"
  by (simp add: nodes_ok_def distinct_conv_nth) metis

lemma length_virt [simp]: "N \<le> length (heap ht) \<Longrightarrow> length (virt N ht m s) = N"
  by (simp add: virt_def)

lemma nth_virt: "N \<le> length (heap ht) \<Longrightarrow> i < N \<Longrightarrow> virt N ht m s ! i = (if i = s then m else heap ht ! i)"
  by (simp add: virt_def nth_list_update)

lemma copy_node_runs:
  assumes "nodes_ok ht xs" "n \<in> set xs" "s < length (heap ht)"
  shows "copy_node ht s n = Some (ht\<lparr>heap := (heap ht)[s := n], timer_ids := (timer_ids ht)[idn ht n := int s]\<rparr>)"
  using assms by (auto simp: nodes_ok_def copy_node_def put_id_def mem_set_def idn_def)

lemma copy_step:
  assumes h: "hole N ht m s" and p: "p < N" "p \<noteq> s"
  obtains ht1 where "copy_node ht s (heap ht ! p) = Some ht1" "hole N ht1 m p"
    "virt N ht1 m p = (virt N ht m s)[s := virt N ht m s ! p, p := virt N ht m s ! s]"
    "moved (idn ht ` set (virt N ht m s)) ht ht1"
proof -
  define xs where "xs = virt N ht m s"
  define ht1 where "ht1 = ht\<lparr>heap := (heap ht)[s := heap ht ! p], timer_ids := (timer_ids ht)[idn ht (heap ht ! p) := int s]\<rparr>"
  have s: "s < N" "N \<le> length (heap ht)" and ok: "nodes_ok ht xs"
    and at: "\<And>i. i < N \<Longrightarrow> i \<noteq> s \<Longrightarrow> timer_ids ht ! idn ht (heap ht ! i) = int i"
    using h by (auto simp: hole_def xs_def)
  have xp: "heap ht ! p = xs ! p" and xs_s: "xs ! s = m" and len: "length xs = N"
    using s p by (auto simp: xs_def nth_virt)
  have pin: "xs ! p \<in> set xs" using p len by simp
  have run: "copy_node ht s (heap ht ! p) = Some ht1"
    using copy_node_runs [OF ok pin, of s] s xp by (simp add: ht1_def)
  have vx: "virt N ht1 m p = xs[s := xs ! p, p := xs ! s]"
    using s p xs_s xp by (auto simp: virt_def ht1_def xs_def intro!: nth_equalityI simp: nth_list_update)
  have mv: "moved (idn ht ` set xs) ht ht1"
    unfolding ht1_def by (rule moved_copy) (use pin xp in simp)
  have ms: "mset (virt N ht1 m p) = mset xs"
    unfolding vx using p s len by (subst mset_swap) auto
  have "nodes_ok ht1 (virt N ht1 m p)"
    using ok nodes_ok_mset [OF ms] nodes_ok_cong [of ht1 ht] moved_sel [OF mv] by simp
  moreover have "timer_ids ht1 ! idn ht1 (heap ht1 ! i) = int i" if i: "i < N" "i \<noteq> p" for i
  proof (cases "i = s")
    case True
    moreover have "idn ht (heap ht ! p) < length (timer_ids ht)"
      using ok pin xp by (auto simp: nodes_ok_def idn_def)
    ultimately show ?thesis
      using s by (simp add: ht1_def idn_def)
  next
    case False
    then have "idn ht (heap ht ! i) \<noteq> idn ht (heap ht ! p)"
      using nodes_ok_inj [OF ok, of i p] i p s len by (simp add: xs_def nth_virt)
    then show ?thesis
      using at [OF i(1) False] False by (simp add: ht1_def idn_def)
  qed
  ultimately have "hole N ht1 m p"
    using s p by (simp add: hole_def moved_sel [OF mv])
  then show thesis using that run vx mv xs_def by blast
qed

lemma copy_last:
  assumes h: "hole N ht m s"
  obtains ht1 where "copy_node ht s m = Some ht1" "placed N ht1" "take N (heap ht1) = virt N ht m s"
    "moved (idn ht ` set (virt N ht m s)) ht ht1"
proof -
  define xs where "xs = virt N ht m s"
  define ht1 where "ht1 = ht\<lparr>heap := (heap ht)[s := m], timer_ids := (timer_ids ht)[idn ht m := int s]\<rparr>"
  have s: "s < N" "N \<le> length (heap ht)" and ok: "nodes_ok ht xs"
    and at: "\<And>i. i < N \<Longrightarrow> i \<noteq> s \<Longrightarrow> timer_ids ht ! idn ht (heap ht ! i) = int i"
    using h by (auto simp: hole_def xs_def)
  have xs_s: "xs ! s = m" and len: "length xs = N" using s by (auto simp: xs_def nth_virt)
  have min: "m \<in> set xs" using xs_s s len nth_mem by metis
  have run: "copy_node ht s m = Some ht1"
    using copy_node_runs [OF ok min, of s] s by (simp add: ht1_def)
  have tk: "take N (heap ht1) = xs"
    using s by (simp add: ht1_def xs_def virt_def take_update_swap)
  have mv: "moved (idn ht ` set xs) ht ht1"
    unfolding ht1_def by (rule moved_copy) (use min in simp)
  have "timer_ids ht1 ! idn ht1 (heap ht1 ! i) = int i" if i: "i < N" for i
  proof (cases "i = s")
    case True
    moreover have "idn ht m < length (timer_ids ht)" using ok min by (auto simp: nodes_ok_def idn_def)
    ultimately show ?thesis using s by (simp add: ht1_def idn_def)
  next
    case False
    then have "idn ht (heap ht ! i) \<noteq> idn ht m"
      using nodes_ok_inj [OF ok, of i s] i s len xs_s by (simp add: xs_def nth_virt)
    then show ?thesis using at [OF i False] False by (simp add: ht1_def idn_def)
  qed
  then have pl: "placed N ht1"
    using s ok tk nodes_ok_cong [of ht1 ht] moved_sel [OF mv] by (simp add: placed_def)
  show thesis
    by (rule that [OF run pl tk [unfolded xs_def] mv [unfolded xs_def]])
qed

text \<open>What the two loops achieve.\<close>

definition settled :: "nat \<Rightarrow> timer_heap_t \<Rightarrow> nat list \<Rightarrow> timer_heap_t \<Rightarrow> bool" where
  "settled N ht xs ht1 \<longleftrightarrow> placed N ht1 \<and> mset (take N (heap ht1)) = mset xs
     \<and> heap_order (\<lambda>i. tmn ht1 (heap ht1 ! i)) N \<and> moved (idn ht ` set xs) ht ht1"

lemma settled_last:
  assumes h: "hole N ht m s" and ord: "heap_order (\<lambda>i. tmn ht (virt N ht m s ! i)) N"
  shows "\<exists>ht1. copy_node ht s m = Some ht1 \<and> settled N ht (virt N ht m s) ht1"
proof -
  obtain ht1 where 1: "copy_node ht s m = Some ht1" "placed N ht1" "take N (heap ht1) = virt N ht m s"
    "moved (idn ht ` set (virt N ht m s)) ht ht1"
    using copy_last [OF h] .
  have "heap_order (\<lambda>i. tmn ht1 (heap ht1 ! i)) N"
    using ord by (rule heap_order_cong) (metis 1(3,4) moved_sel(9) nth_take)
  then show ?thesis using 1 by (simp add: settled_def)
qed

lemma settled_step:
  assumes mv: "moved (idn ht ` set xs) ht ht1" and st: "settled N ht1 ys ht2" and ms: "mset ys = mset xs"
  shows "settled N ht xs ht2"
proof -
  have "idn ht1 ` set ys = idn ht ` set xs"
    using moved_sel(8) [OF mv] mset_eq_setD [OF ms] by simp
  then show ?thesis
    using st ms moved_trans [OF mv, of ht2] by (simp add: settled_def)
qed

lemma swap_key:
  "s < length xs \<Longrightarrow> p < length xs \<Longrightarrow> i < length xs
    \<Longrightarrow> f (xs[s := xs ! p, p := xs ! s] ! i) = ((\<lambda>i. f (xs ! i))(s := f (xs ! p), p := f (xs ! s))) i"
  by (auto simp: nth_list_update)

lemma node_time_hole:
  assumes h: "hole N ht m s" and i: "i < N" "i \<noteq> s"
  shows "node_time ht i = Some (tmn ht (virt N ht m s ! i))" "mem_at (heap ht) i = Some (heap ht ! i)"
proof -
  have len: "N \<le> length (heap ht)" using h by (simp add: hole_def)
  then have "virt N ht m s ! i \<in> set (virt N ht m s)" using i by simp
  then obtain e where "tents ht (virt N ht m s ! i) = Some e"
    using h by (auto simp: hole_def nodes_ok_def)
  then show "node_time ht i = Some (tmn ht (virt N ht m s ! i))" "mem_at (heap ht) i = Some (heap ht ! i)"
    using i len by (simp_all add: node_time_def mem_at_def nth_virt tmn_def)
qed

lemma hole_moved_node:
  assumes h: "hole N ht m s"
  obtains e where "tents ht m = Some e" "te_timer_value e = tmn ht (virt N ht m s ! s)"
proof -
  have len: "s < N" "N \<le> length (heap ht)" using h by (simp_all add: hole_def)
  then have "m \<in> set (virt N ht m s)"
    by (metis length_virt nth_mem nth_virt)
  then obtain e where "tents ht m = Some e" using h by (auto simp: hole_def nodes_ok_def)
  then show thesis using that len by (simp add: tmn_def nth_virt)
qed

lemma hole_step_up:
  assumes h: "hole N ht m s" and up: "up_ok (\<lambda>i. tmn ht (virt N ht m s ! i)) N s" and s: "0 < s"
    and lt: "tmn ht (virt N ht m s ! s) < tmn ht (virt N ht m s ! HEAP_PARENT s)"
  obtains ht1 where "copy_node ht s (heap ht ! HEAP_PARENT s) = Some ht1" "hole N ht1 m (HEAP_PARENT s)"
    "up_ok (\<lambda>i. tmn ht1 (virt N ht1 m (HEAP_PARENT s) ! i)) N (HEAP_PARENT s)"
    "mset (virt N ht1 m (HEAP_PARENT s)) = mset (virt N ht m s)"
    "moved (idn ht ` set (virt N ht m s)) ht ht1"
proof -
  define p where "p = HEAP_PARENT s"
  have sN: "s < N" "N \<le> length (heap ht)" using h by (simp_all add: hole_def)
  have p: "p < s" "p < N" using parent_less [OF s] sN by (simp_all add: p_def)
  obtain ht1 where 1: "copy_node ht s (heap ht ! p) = Some ht1" "hole N ht1 m p"
    "virt N ht1 m p = (virt N ht m s)[s := virt N ht m s ! p, p := virt N ht m s ! s]"
    "moved (idn ht ` set (virt N ht m s)) ht ht1"
    using copy_step [OF h p(2)] p by auto
  have "up_ok ((\<lambda>i. tmn ht (virt N ht m s ! i))(s := tmn ht (virt N ht m s ! p), p := tmn ht (virt N ht m s ! s))) N p"
    using up_ok_step [OF up s sN(1)] lt by (simp add: p_def)
  then have "up_ok (\<lambda>i. tmn ht1 (virt N ht1 m p ! i)) N p"
    by (rule up_ok_cong) (use p sN 1(3) moved_sel(9) [OF 1(4)] swap_key [of s "virt N ht m s" p _ "tmn ht"] in simp_all)
  moreover have "mset (virt N ht1 m p) = mset (virt N ht m s)"
    unfolding 1(3) using p sN by (subst mset_swap) auto
  ultimately show thesis using that 1 unfolding p_def by blast
qed

theorem reheap_up_ok:
  assumes "hole N ht m s" "up_ok (\<lambda>i. tmn ht (virt N ht m s ! i)) N s"
  shows "\<exists>ht1. reheap_up ht m s = Some ht1 \<and> settled N ht (virt N ht m s) ht1"
  using assms
proof (induction s arbitrary: ht rule: less_induct)
  case (less s)
  obtain e where e: "tents ht m = Some e" "te_timer_value e = tmn ht (virt N ht m s ! s)"
    using hole_moved_node [OF less.prems(1)] .
  show ?case
  proof (cases "s = 0 \<or> tmn ht (virt N ht m s ! HEAP_PARENT s) \<le> tmn ht (virt N ht m s ! s)")
    case True
    note settled_last [OF less.prems(1) up_ok_done [OF less.prems(2) True]]
    moreover have "reheap_up ht m s = copy_node ht s m"
      using True e node_time_hole [OF less.prems(1), of "HEAP_PARENT s"] less.prems(1) parent_less [of s]
      by (subst reheap_up.simps) (auto simp: hole_def)
    ultimately show ?thesis by simp
  next
    case False
    then have s: "0 < s" and lt: "tmn ht (virt N ht m s ! s) < tmn ht (virt N ht m s ! HEAP_PARENT s)" by auto
    obtain ht1 where 1: "copy_node ht s (heap ht ! HEAP_PARENT s) = Some ht1" "hole N ht1 m (HEAP_PARENT s)"
      "up_ok (\<lambda>i. tmn ht1 (virt N ht1 m (HEAP_PARENT s) ! i)) N (HEAP_PARENT s)"
      "mset (virt N ht1 m (HEAP_PARENT s)) = mset (virt N ht m s)"
      "moved (idn ht ` set (virt N ht m s)) ht ht1"
      using hole_step_up [OF less.prems s lt] .
    obtain ht2 where 2: "reheap_up ht1 m (HEAP_PARENT s) = Some ht2"
      "settled N ht1 (virt N ht1 m (HEAP_PARENT s)) ht2"
      using less.IH [OF parent_less [OF s] 1(2,3)] by blast
    have "reheap_up ht m s = Some ht2"
      using s lt e 1(1) 2(1) node_time_hole [OF less.prems(1), of "HEAP_PARENT s"] less.prems(1) parent_less [of s]
      by (subst reheap_up.simps) (simp add: hole_def)
    then show ?thesis using settled_step [OF 1(5) 2(2) 1(4)] by blast
  qed
qed

lemma hole_step_down:
  assumes h: "hole N ht m s" and dn: "down_ok (\<lambda>i. tmn ht (virt N ht m s ! i)) N s"
    and c: "HEAP_PARENT c = s" "s < c" "c < N" and lt: "tmn ht (virt N ht m s ! c) < tmn ht (virt N ht m s ! s)"
    and small: "\<And>i. i < N \<Longrightarrow> 0 < i \<Longrightarrow> HEAP_PARENT i = s \<Longrightarrow> tmn ht (virt N ht m s ! c) \<le> tmn ht (virt N ht m s ! i)"
  obtains ht1 where "copy_node ht s (heap ht ! c) = Some ht1" "hole N ht1 m c"
    "down_ok (\<lambda>i. tmn ht1 (virt N ht1 m c ! i)) N c"
    "mset (virt N ht1 m c) = mset (virt N ht m s)" "moved (idn ht ` set (virt N ht m s)) ht ht1"
proof -
  have sN: "s < N" "N \<le> length (heap ht)" using h by (simp_all add: hole_def)
  obtain ht1 where 1: "copy_node ht s (heap ht ! c) = Some ht1" "hole N ht1 m c"
    "virt N ht1 m c = (virt N ht m s)[s := virt N ht m s ! c, c := virt N ht m s ! s]"
    "moved (idn ht ` set (virt N ht m s)) ht ht1"
    using copy_step [OF h c(3)] c by auto
  have "down_ok ((\<lambda>i. tmn ht (virt N ht m s ! i))(s := tmn ht (virt N ht m s ! c), c := tmn ht (virt N ht m s ! s))) N c"
    by (rule down_ok_step [OF dn c(1)]) (use c lt small in auto)
  then have "down_ok (\<lambda>i. tmn ht1 (virt N ht1 m c ! i)) N c"
    by (rule down_ok_cong) (use c sN 1(3) moved_sel(9) [OF 1(4)] swap_key [of s "virt N ht m s" c _ "tmn ht"] in simp_all)
  moreover have "mset (virt N ht1 m c) = mset (virt N ht m s)"
    unfolding 1(3) using c sN by (subst mset_swap) auto
  ultimately show thesis using that 1 by blast
qed

text \<open>The child that the loop goes to: the earlier of the two.\<close>

definition down_child :: "nat \<Rightarrow> (nat \<Rightarrow> time_val_t) \<Rightarrow> nat \<Rightarrow> nat" where
  "down_child N f s = (if HEAP_LEFT s + 1 < N \<and> f (HEAP_LEFT s + 1) < f (HEAP_LEFT s) then HEAP_LEFT s + 1 else HEAP_LEFT s)"

lemma down_child_ok:
  assumes "HEAP_LEFT s < N"
  shows "HEAP_PARENT (down_child N f s) = s" "s < down_child N f s" "down_child N f s < N"
    "i < N \<Longrightarrow> 0 < i \<Longrightarrow> HEAP_PARENT i = s \<Longrightarrow> f (down_child N f s) \<le> f i"
  using assms left_greater [of s] by (auto simp: down_child_def parent_children less_SucI)

lemma reheap_down_unfold:
  assumes h: "hole (cur_size ht) ht m s" and l: "HEAP_LEFT s < cur_size ht"
    and c: "c = down_child (cur_size ht) (\<lambda>i. tmn ht (virt (cur_size ht) ht m s ! i)) s"
  shows "reheap_down ht m s =
    (if tmn ht (virt (cur_size ht) ht m s ! c) < tmn ht (virt (cur_size ht) ht m s ! s)
     then do {
       ht1 \<leftarrow> copy_node ht s (heap ht ! c);
       if s < c \<and> cur_size ht1 = cur_size ht then reheap_down ht1 m c else None
     }
     else copy_node ht s m)"
proof -
  obtain e where e: "tents ht m = Some e" "te_timer_value e = tmn ht (virt (cur_size ht) ht m s ! s)"
    using hole_moved_node [OF h] .
  have cN: "c < cur_size ht" "c \<noteq> s" using down_child_ok [OF l] c by (metis less_irrefl)+
  have l2: "HEAP_LEFT s \<noteq> s" "HEAP_LEFT s + 1 \<noteq> s" using left_greater [of s] by linarith+
  have child: "(if HEAP_LEFT s + 1 < cur_size ht then do {
                     tr \<leftarrow> node_time ht (HEAP_LEFT s + 1);
                     tl \<leftarrow> node_time ht (HEAP_LEFT s);
                     Some (if TIME_VAL_LT tr tl then HEAP_LEFT s + 1 else HEAP_LEFT s)
                   } else Some (HEAP_LEFT s)) = Some c"
    using node_time_hole(1) [OF h, of "HEAP_LEFT s"] node_time_hole(1) [OF h, of "HEAP_LEFT s + 1"] l l2
    by (auto simp: c down_child_def)
  show ?thesis
    unfolding reheap_down.simps [of ht m s] Let_def child
    using l e node_time_hole [OF h cN] by simp
qed

theorem reheap_down_ok:
  assumes "hole (cur_size ht) ht m s" "down_ok (\<lambda>i. tmn ht (virt (cur_size ht) ht m s ! i)) (cur_size ht) s"
  shows "\<exists>ht1. reheap_down ht m s = Some ht1 \<and> settled (cur_size ht) ht (virt (cur_size ht) ht m s) ht1"
  using assms
proof (induction "cur_size ht - s" arbitrary: ht s rule: less_induct)
  case less
  define N where "N = cur_size ht"
  define f where "f = (\<lambda>i. tmn ht (virt N ht m s ! i))"
  define c where "c = down_child N f s"
  have h: "hole N ht m s" and dn: "down_ok f N s" using less.prems by (simp_all add: N_def f_def)
  note unfold = reheap_down_unfold [OF less.prems(1), folded N_def, OF _ c_def [unfolded f_def]]
  show ?case
  proof (cases "HEAP_LEFT s < N \<and> f c < f s")
    case True
    then have l: "HEAP_LEFT s < N" and lt: "f c < f s" by simp_all
    note cc = down_child_ok [OF l, where f = f, folded c_def]
    obtain ht1 where 1: "copy_node ht s (heap ht ! c) = Some ht1" "hole N ht1 m c"
      "down_ok (\<lambda>i. tmn ht1 (virt N ht1 m c ! i)) N c"
      "mset (virt N ht1 m c) = mset (virt N ht m s)" "moved (idn ht ` set (virt N ht m s)) ht ht1"
      using hole_step_down [OF h dn [unfolded f_def] cc(1-3) lt [unfolded f_def] cc(4) [unfolded f_def]] .
    have sz: "cur_size ht1 = N" using moved_sel(2) [OF 1(5)] by (simp add: N_def)
    have "cur_size ht1 - c < cur_size ht - s"
      using cc(2,3) sz by (simp add: N_def)
    from less.hyps [OF this] obtain ht2 where 2: "reheap_down ht1 m c = Some ht2" "settled N ht1 (virt N ht1 m c) ht2"
      using 1(2,3) sz by auto
    have "reheap_down ht m s = Some ht2"
      using unfold [OF l] lt 1(1) 2(1) sz cc(2) by (simp add: f_def N_def)
    then show ?thesis using settled_step [OF 1(5) 2(2) 1(4)] N_def by blast
  next
    case False
    have "heap_order f N"
    proof (rule down_ok_done [OF dn])
      fix i assume i: "i < N" "0 < i" "HEAP_PARENT i = s"
      then have "HEAP_LEFT s < N" by (auto simp: parent_children)
      then show "f s \<le> f i" using down_child_ok(4) [of s N i f] i False by (auto simp: c_def)
    qed
    then have "\<exists>ht1. copy_node ht s m = Some ht1 \<and> settled N ht (virt N ht m s) ht1"
      using settled_last [OF h] by (simp add: f_def)
    moreover have "reheap_down ht m s = copy_node ht s m"
    proof (cases "HEAP_LEFT s < N")
      case True
      then show ?thesis using unfold [OF True] False by (simp add: f_def)
    next
      case False
      then show ?thesis by (subst reheap_down.simps) (simp add: N_def)
    qed
    ultimately show ?thesis by (simp add: N_def)
  qed
qed

subsection \<open>The invariant\<close>

primrec free_chain :: "int list \<Rightarrow> int \<Rightarrow> nat list \<Rightarrow> int \<Rightarrow> bool" where
  "free_chain ids a [] b \<longleftrightarrow> a = b"
| "free_chain ids a (x # xs) b \<longleftrightarrow> a = int x \<and> x < length ids \<and> free_chain ids (- (ids ! x)) xs b"

definition heap_nodes :: "timer_heap_t \<Rightarrow> nat list" where
  "heap_nodes ht = take (cur_size ht) (heap ht)"

definition free_ok :: "timer_heap_t \<Rightarrow> nat set \<Rightarrow> nat list \<Rightarrow> bool" where
  "free_ok ht U fs \<longleftrightarrow> free_chain (timer_ids ht) (timer_ids_freelist ht) fs (int (max_size ht)) \<and> distinct fs
     \<and> set fs = {1..<max_size ht} - U"

definition timer_inv :: "timer_heap_t \<Rightarrow> bool" where
  "timer_inv ht \<longleftrightarrow> length (heap ht) = max_size ht \<and> length (timer_ids ht) = max_size ht
     \<and> cur_size ht + 2 \<le> max_size ht \<and> placed (cur_size ht) ht
     \<and> heap_order (\<lambda>i. tmn ht (heap ht ! i)) (cur_size ht)
     \<and> (\<exists>fs. free_ok ht (idn ht ` set (heap_nodes ht)) fs)"

lemma free_chain_cong:
  "free_chain ids a xs b \<Longrightarrow> (\<And>x. x \<in> set xs \<Longrightarrow> ids' ! x = ids ! x) \<Longrightarrow> length ids \<le> length ids'
    \<Longrightarrow> free_chain ids' a xs b"
  by (induction xs arbitrary: a) auto

lemma free_chain_append: "free_chain ids a (xs @ ys) c \<longleftrightarrow> (\<exists>b. free_chain ids a xs b \<and> free_chain ids b ys c)"
  by (induction xs arbitrary: a) auto

lemma free_chain_upt:
  "(\<And>i. lo \<le> i \<Longrightarrow> i < hi \<Longrightarrow> ids ! i = - (int i + 1)) \<Longrightarrow> lo \<le> hi \<Longrightarrow> hi \<le> length ids
    \<Longrightarrow> free_chain ids (int lo) [lo..<hi] (int hi)"
proof (induction "hi - lo" arbitrary: lo)
  case (Suc d)
  then have "[lo..<hi] = lo # [Suc lo..<hi]" by (simp add: upt_conv_Cons)
  moreover have "free_chain ids (int (Suc lo)) [Suc lo..<hi] (int hi)"
    using Suc by (intro Suc.hyps) auto
  ultimately show ?case using Suc by (simp add: add.commute)
qed simp

lemma cur_size_update [simp]:
  "idn (ht\<lparr>cur_size := n\<rparr>) = idn ht" "tmn (ht\<lparr>cur_size := n\<rparr>) = tmn ht"
  "nodes_ok (ht\<lparr>cur_size := n\<rparr>) xs = nodes_ok ht xs" "placed N (ht\<lparr>cur_size := n\<rparr>) = placed N ht"
proof -
  show 1: "idn (ht\<lparr>cur_size := n\<rparr>) = idn ht" "tmn (ht\<lparr>cur_size := n\<rparr>) = tmn ht"
    by (simp_all add: idn_def tmn_def fun_eq_iff)
  show 2: "nodes_ok (ht\<lparr>cur_size := n\<rparr>) xs = nodes_ok ht xs" for xs
    by (simp add: nodes_ok_def 1)
  show "placed N (ht\<lparr>cur_size := n\<rparr>) = placed N ht"
    by (simp add: placed_def 1 2)
qed

text \<open>Every operation ends with an array that the loops have settled.\<close>

lemma timer_inv_settled:
  assumes st: "settled N ht ys ht1" and fr: "free_ok ht (idn ht ` set ys) fs"
    and len: "length (heap ht) = max_size ht" "length (timer_ids ht) = max_size ht" "N + 2 \<le> max_size ht"
  shows "timer_inv (ht1\<lparr>cur_size := N\<rparr>)" "mset (heap_nodes (ht1\<lparr>cur_size := N\<rparr>)) = mset ys"
proof -
  have pl: "placed N ht1" and ms: "mset (take N (heap ht1)) = mset ys"
    and ord: "heap_order (\<lambda>i. tmn ht1 (heap ht1 ! i)) N" and mv: "moved (idn ht ` set ys) ht ht1"
    using st by (simp_all add: settled_def)
  show ms': "mset (heap_nodes (ht1\<lparr>cur_size := N\<rparr>)) = mset ys"
    using ms by (simp add: heap_nodes_def)
  have "free_chain (timer_ids ht1) (timer_ids_freelist ht) fs (int (max_size ht))"
    by (rule free_chain_cong [of "timer_ids ht"]) (use fr moved_sel(7,10) [OF mv] in \<open>auto simp: free_ok_def\<close>)
  then have "free_ok (ht1\<lparr>cur_size := N\<rparr>) (idn ht1 ` set (heap_nodes (ht1\<lparr>cur_size := N\<rparr>))) fs"
    using fr mset_eq_setD [OF ms'] moved_sel [OF mv] by (simp add: free_ok_def)
  then show "timer_inv (ht1\<lparr>cur_size := N\<rparr>)"
    using pl ord len moved_sel [OF mv] by (auto simp: timer_inv_def)
qed

lemma timer_inv_create: "timer_inv (timer_heap_create sz ents)" "heap_nodes (timer_heap_create sz ents) = []"
proof -
  let ?ht = "timer_heap_create sz ents"
  show "heap_nodes ?ht = []" by (simp add: heap_nodes_def timer_heap_create_def Let_def)
  have "free_chain (map (\<lambda>i. - (int i + 1)) [0..<sz + 2]) (int 1) [1..<sz + 2] (int (sz + 2))"
    by (rule free_chain_upt) (simp_all add: nth_append del: upt_Suc)
  then have "free_ok ?ht (idn ?ht ` set (heap_nodes ?ht)) [1..<sz + 2]"
    by (auto simp: free_ok_def timer_heap_create_def Let_def heap_nodes_def simp del: upt_Suc)
  then show "timer_inv ?ht"
    by (auto simp: timer_inv_def timer_heap_create_def Let_def placed_def nodes_ok_def heap_order_def simp del: upt_Suc)
qed

lemma timer_inv_node:
  assumes inv: "timer_inv ht" and s: "s < cur_size ht"
  obtains e where "heap ht ! s \<in> set (heap_nodes ht)" "mem_at (heap ht) s = Some (heap ht ! s)"
    "tents ht (heap ht ! s) = Some e" "1 \<le> te_timer_id e" "nat (te_timer_id e) < max_size ht"
    "te_timer_id e = int (idn ht (heap ht ! s))" "node_time ht s = Some (tmn ht (heap ht ! s))"
proof -
  have len: "cur_size ht < length (heap ht)" using inv by (simp add: timer_inv_def)
  have "heap_nodes ht ! s \<in> set (heap_nodes ht)" by (rule nth_mem) (use s len in \<open>simp add: heap_nodes_def\<close>)
  then have mem: "heap ht ! s \<in> set (heap_nodes ht)" using s by (simp add: heap_nodes_def)
  then obtain e where e: "tents ht (heap ht ! s) = Some e" "1 \<le> te_timer_id e" "nat (te_timer_id e) < max_size ht"
    using inv by (auto simp: timer_inv_def placed_def nodes_ok_def heap_nodes_def)
  show thesis
    by (rule that [OF mem _ e]) (use e s len in \<open>simp_all add: mem_at_def idn_def node_time_def tmn_def\<close>)
qed

subsection \<open>Removing a node\<close>

lemma node_of_upd: "n \<noteq> r \<Longrightarrow> idn (ht\<lparr>tents := (tents ht)(r \<mapsto> e)\<rparr>) n = idn ht n"
  "n \<noteq> r \<Longrightarrow> tmn (ht\<lparr>tents := (tents ht)(r \<mapsto> e)\<rparr>) n = tmn ht n"
  by (simp_all add: idn_def tmn_def)

text \<open>The state after the first part of \<^verbatim>\<open>remove_node\<close>: the identifier is free and the size is decremented.\<close>

definition detached :: "timer_heap_t \<Rightarrow> nat \<Rightarrow> timer_entry_t \<Rightarrow> timer_heap_t" where
  "detached ht r e = ht\<lparr>timer_ids := (timer_ids ht)[nat (te_timer_id e) := - timer_ids_freelist ht],
     timer_ids_freelist := te_timer_id e, cur_size := cur_size ht - 1, tents := (tents ht)(r \<mapsto> e\<lparr>te_timer_id := -1\<rparr>)\<rparr>"

lemma detached_sel [simp]:
  "cur_size (detached ht r e) = cur_size ht - 1" "heap (detached ht r e) = heap ht"
  "max_size (detached ht r e) = max_size ht" "max_entries_per_poll (detached ht r e) = max_entries_per_poll ht"
  "length (timer_ids (detached ht r e)) = length (timer_ids ht)"
  "tents (detached ht r e) = (tents ht)(r \<mapsto> e\<lparr>te_timer_id := -1\<rparr>)"
  "n \<noteq> r \<Longrightarrow> idn (detached ht r e) n = idn ht n" "tmn (detached ht r e) n = (if n = r then te_timer_value e else tmn ht n)"
  by (simp_all add: detached_def idn_def tmn_def)

lemma remove_node_detach:
  assumes inv: "timer_inv ht" and s: "s < cur_size ht" and e: "tents ht (heap ht ! s) = Some e"
  shows "remove_node ht s = (let r = heap ht ! s; ht3 = detached ht r e in do {
       ht4 \<leftarrow> (if s < cur_size ht - 1 then do {
                let moved_node = heap ht ! (cur_size ht - 1);
                a \<leftarrow> copy_node ht3 s moved_node;
                m \<leftarrow> tents a moved_node;
                tp \<leftarrow> node_time a (HEAP_PARENT s);
                if tp \<le> te_timer_value m then reheap_down a moved_node s
                else reheap_up a moved_node s
              } else Some ht3);
       Some (r, ht4) })"
proof -
  obtain e' where e': "tents ht (heap ht ! s) = Some e'" "1 \<le> te_timer_id e'" "nat (te_timer_id e') < max_size ht"
    using timer_inv_node [OF inv s] by blast
  have "mem_at (heap ht) (cur_size ht - 1) = Some (heap ht ! (cur_size ht - 1))" "mem_at (heap ht) s = Some (heap ht ! s)"
    "0 \<le> te_timer_id e" "nat (te_timer_id e) < length (timer_ids ht)"
    using inv e' e s by (auto simp: mem_at_def timer_inv_def)
  then show ?thesis
    using s e by (simp add: remove_node_def push_freelist_def put_id_def mem_set_def size_dec_def set_timer_id_def Let_def
      detached_def)
qed

lemma detached_nodes:
  assumes inv: "timer_inv ht" and s: "s < cur_size ht" and e: "tents ht (heap ht ! s) = Some e"
    and ys: "add_mset (heap ht ! s) (mset ys) = mset (heap_nodes ht)"
  shows "nodes_ok (detached ht (heap ht ! s) e) ys" "heap ht ! s \<notin> set ys"
    "\<exists>fs. free_ok (detached ht (heap ht ! s) e) (idn (detached ht (heap ht ! s) e) ` set ys) fs"
proof -
  define r where "r = heap ht ! s"
  have ok: "nodes_ok ht (r # ys)"
    using inv nodes_ok_mset [of "r # ys" "heap_nodes ht"] ys by (simp add: r_def timer_inv_def placed_def heap_nodes_def)
  then have r: "r \<notin> set ys" and id: "idn ht r \<notin> idn ht ` set ys" by (auto simp: nodes_ok_def)
  then show "heap ht ! s \<notin> set ys" by (simp add: r_def)
  have cg: "map (idn (detached ht r e)) ys = map (idn ht) ys" "idn (detached ht r e) ` set ys = idn ht ` set ys"
    using r by (metis (no_types, lifting) detached_sel(7) map_eq_conv, metis (no_types, lifting) detached_sel(7) image_cong)
  have "\<exists>d. tents (detached ht r e) n = Some d \<and> 1 \<le> te_timer_id d \<and> nat (te_timer_id d) < length (timer_ids (detached ht r e))"
    if "n \<in> set ys" for n
    using ok r that by (cases "n = r") (auto simp: nodes_ok_def)
  then show "nodes_ok (detached ht (heap ht ! s) e) ys"
    using ok unfolding nodes_ok_def r_def [symmetric] cg by simp
  obtain fs where fs: "free_ok ht (idn ht ` set (heap_nodes ht)) fs" using inv by (auto simp: timer_inv_def)
  have set: "set (heap_nodes ht) = insert r (set ys)"
    using mset_eq_setD [of "r # ys" "heap_nodes ht"] ys by (simp add: r_def)
  have i: "te_timer_id e = int (idn ht r)" "1 \<le> idn ht r" "idn ht r < max_size ht"
    by (rule timer_inv_node [OF inv s]; use e in \<open>simp add: r_def\<close>)+
  have out: "idn ht r \<notin> set fs" using fs set by (simp add: free_ok_def)
  have "timer_ids (detached ht r e) ! x = timer_ids ht ! x" if "x \<in> set fs" for x
    using that out i(1) by (cases "x = idn ht r") (simp_all add: detached_def)
  moreover have "free_chain (timer_ids ht) (timer_ids_freelist ht) fs (int (max_size ht))"
    using fs by (simp add: free_ok_def)
  ultimately have "free_chain (timer_ids (detached ht r e)) (timer_ids_freelist ht) fs (int (max_size ht))"
    using free_chain_cong [of "timer_ids ht" _ fs _ "timer_ids (detached ht r e)"] by simp
  then have "free_ok (detached ht r e) (idn (detached ht r e) ` set ys) (idn ht r # fs)"
    using fs out i id set inv unfolding cg by (auto simp: free_ok_def detached_def timer_inv_def)
  then show "\<exists>fs. free_ok (detached ht (heap ht ! s) e) (idn (detached ht (heap ht ! s) e) ` set ys) fs"
    by (auto simp: r_def)
qed

lemma placed_hole: "placed N ht \<Longrightarrow> s < N \<Longrightarrow> heap ht ! s = m \<Longrightarrow> hole N ht m s \<and> virt N ht m s = take N (heap ht)"
  using list_update_id [of "take N (heap ht)" s] by (simp add: placed_def hole_def virt_def)

lemma detached_at:
  assumes inv: "timer_inv ht" and s: "s < cur_size ht" and e: "tents ht (heap ht ! s) = Some e"
    and i: "i < cur_size ht" "i \<noteq> s"
  shows "heap ht ! i \<noteq> heap ht ! s"
    "timer_ids (detached ht (heap ht ! s) e) ! idn (detached ht (heap ht ! s) e) (heap ht ! i) = int i"
proof -
  have pl: "placed (cur_size ht) ht" using inv by (simp add: timer_inv_def)
  have ne: "idn ht (heap ht ! i) \<noteq> idn ht (heap ht ! s)"
    using pl s i nodes_ok_inj [of ht "take (cur_size ht) (heap ht)" i s] by (simp add: placed_def)
  then show n: "heap ht ! i \<noteq> heap ht ! s" by auto
  have "nat (te_timer_id e) = idn ht (heap ht ! s)" using e by (simp add: idn_def)
  then show "timer_ids (detached ht (heap ht ! s) e) ! idn (detached ht (heap ht ! s) e) (heap ht ! i) = int i"
    using ne pl i(1) n by (simp add: detached_sel(7) [OF n]) (simp add: detached_def placed_def)
qed

lemma heap_nodes_split:
  assumes "s < n" "n < length h"
  shows "add_mset (h ! s) (mset ((take n h)[s := h ! n])) = mset (take (Suc n) h)"
proof -
  have "h ! s \<in> set (take n h)"
    using assms nth_mem [of s "take n h"] by simp
  then show ?thesis
    using assms by (simp add: mset_update take_Suc_conv_app_nth)
qed

lemma remove_node_moves:
  assumes inv: "timer_inv ht" and s: "s < cur_size ht - 1" and e: "tents ht (heap ht ! s) = Some e"
  shows "\<exists>ht4. remove_node ht s = Some (heap ht ! s, ht4)
    \<and> settled (cur_size ht - 1) (detached ht (heap ht ! s) e) ((take (cur_size ht - 1) (heap ht))[s := heap ht ! (cur_size ht - 1)]) ht4"
proof -
  define N where "N = cur_size ht - 1"
  define r where "r = heap ht ! s"
  define m where "m = heap ht ! N"
  define ht3 where "ht3 = detached ht r e"
  define xs where "xs = (take N (heap ht))[s := m]"
  have sc: "s < cur_size ht" and sN: "s < N" and SN: "Suc N = cur_size ht" and len: "N < length (heap ht)"
    using s inv by (auto simp: N_def timer_inv_def)
  have xsv: "xs = virt N ht3 m s" by (simp add: xs_def virt_def ht3_def)
  have ms: "add_mset (heap ht ! s) (mset xs) = mset (heap_nodes ht)"
    using heap_nodes_split [OF sN len] SN by (simp add: xs_def m_def heap_nodes_def)
  have h: "hole N ht3 m s"
    using detached_nodes(1) [OF inv sc e ms] detached_at(2) [OF inv sc e] sN len SN xsv
    by (simp add: hole_def ht3_def r_def)
  obtain a where a: "copy_node ht3 s m = Some a" "placed N a" "take N (heap a) = virt N ht3 m s"
    "moved (idn ht3 ` set (virt N ht3 m s)) ht3 a"
    using copy_last [OF h] .
  have am: "heap a ! s = m"
    using arg_cong [OF a(3), of "\<lambda>l. l ! s"] sN len by (simp add: virt_def ht3_def)
  note ha = placed_hole [OF a(2) sN am]
  define f where "f = (\<lambda>i. tmn ht (heap ht ! i))"
  have key: "tmn a (virt N a m s ! i) = (f(s := f N)) i" if "i < N" for i
  proof -
    have "tmn a (virt N a m s ! i) = tmn ht3 (if i = s then m else heap ht ! i)"
      using ha a(3) that sN len moved_sel(9) [OF a(4)] by (simp add: virt_def ht3_def)
    moreover have "(if i = s then m else heap ht ! i) \<noteq> r"
      using detached_at(1) [OF inv sc e, of N] detached_at(1) [OF inv sc e, of i] that sN SN by (auto simp: r_def m_def)
    ultimately show ?thesis by (simp add: ht3_def f_def m_def)
  qed
  have ord: "heap_order f N"
    using inv SN by (auto simp: timer_inv_def heap_order_def f_def)
  obtain em where em: "tents a m = Some em" "te_timer_value em = tmn a (virt N a m s ! s)"
    using hole_moved_node ha by blast
  have pN: "HEAP_PARENT s < N" using sN parent_less [of s] by (cases "s = 0") (auto simp: HEAP_PARENT_def)
  have tp: "node_time a (HEAP_PARENT s) = Some (tmn a (virt N a m s ! HEAP_PARENT s))"
  proof (cases "HEAP_PARENT s = s")
    case True
    then show ?thesis using em ha am sN len moved_sel(6) [OF a(4)]
      by (simp add: node_time_def mem_at_def ht3_def)
  qed (use node_time_hole(1) [of N a m s] ha pN in auto)
  have szN: "cur_size a = N" using moved_sel(2) [OF a(4)] by (simp add: ht3_def N_def)
  have "\<exists>ht4. (if tmn a (virt N a m s ! HEAP_PARENT s) \<le> te_timer_value em then reheap_down a m s else reheap_up a m s) = Some ht4
      \<and> settled N a (virt N a m s) ht4"
  proof (cases "tmn a (virt N a m s ! HEAP_PARENT s) \<le> te_timer_value em")
    case True
    then have "s = 0 \<or> f (HEAP_PARENT s) \<le> f N"
      using key [OF pN] key [OF sN] em parent_less [of s] by (cases "s = 0") auto
    then have "down_ok (\<lambda>i. tmn a (virt N a m s ! i)) N s"
      by (rule down_ok_cong [OF heap_order_replace(1) [OF ord sN] sN key])
    then show ?thesis using reheap_down_ok [of a m s] ha szN True by simp
  next
    case False
    then have "0 < s" "f N < f (HEAP_PARENT s)"
      using key [OF pN] key [OF sN] em parent_less [of s] by (cases "s = 0"; auto simp: HEAP_PARENT_def)+
    then have "up_ok (\<lambda>i. tmn a (virt N a m s ! i)) N s"
      by (rule up_ok_cong [OF heap_order_replace(2) [OF ord sN] sN key])
    then show ?thesis using reheap_up_ok [of N a m s] ha False by simp
  qed
  then obtain ht4 where 4: "(if tmn a (virt N a m s ! HEAP_PARENT s) \<le> te_timer_value em then reheap_down a m s else reheap_up a m s) = Some ht4"
      "settled N a (virt N a m s) ht4" by blast
  have "remove_node ht s = Some (r, ht4)"
    using a(1) em(1) tp 4(1) sN
    by (simp only: remove_node_detach [OF inv sc e, folded r_def N_def] Let_def ht3_def [symmetric] m_def [symmetric]
      if_True Option.bind.bind_lunit)
  moreover have "settled N ht3 xs ht4"
    using settled_step [OF a(4) 4(2)] ha a(3) xsv by simp
  ultimately show ?thesis by (auto simp: xs_def m_def N_def ht3_def r_def)
qed

lemma settled_id: "placed N ht \<Longrightarrow> heap_order (\<lambda>i. tmn ht (heap ht ! i)) N \<Longrightarrow> settled N ht (take N (heap ht)) ht"
  by (simp add: settled_def moved_def)

lemma remove_node_ok:
  assumes inv: "timer_inv ht" and s: "s < cur_size ht" and e: "tents ht (heap ht ! s) = Some e"
  obtains ht' where "remove_node ht s = Some (heap ht ! s, ht')" "timer_inv ht'"
    "mset (heap_nodes ht) = add_mset (heap ht ! s) (mset (heap_nodes ht'))" "cur_size ht' = cur_size ht - 1"
    "tents ht' = (tents ht)(heap ht ! s \<mapsto> e\<lparr>te_timer_id := -1\<rparr>)" "max_entries_per_poll ht' = max_entries_per_poll ht"
proof -
  define N where "N = cur_size ht - 1"
  define ht3 where "ht3 = detached ht (heap ht ! s) e"
  have SN: "Suc N = cur_size ht" and len: "N < length (heap ht)" "length (heap ht) = max_size ht"
    "length (timer_ids ht) = max_size ht" "N + 2 \<le> max_size ht"
    using s inv by (auto simp: N_def timer_inv_def)
  have "\<exists>ht4 ys. remove_node ht s = Some (heap ht ! s, ht4) \<and> settled N ht3 ys ht4
      \<and> add_mset (heap ht ! s) (mset ys) = mset (heap_nodes ht)"
  proof (cases "s < N")
    case True
    then show ?thesis
      using remove_node_moves [OF inv _ e] heap_nodes_split [OF True len(1)] SN
      by (auto simp: N_def ht3_def heap_nodes_def)
  next
    case False
    then have sN: "s = N" using s SN by simp
    have ms: "add_mset (heap ht ! s) (mset (take N (heap ht))) = mset (heap_nodes ht)"
      unfolding heap_nodes_def SN [symmetric] take_Suc_conv_app_nth [OF len(1)] sN by simp
    have "placed N ht3"
      using detached_nodes(1) [OF inv s e ms] detached_at(2) [OF inv s e] len SN sN by (simp add: placed_def ht3_def)
    moreover have "heap_order (\<lambda>i. tmn ht (heap ht ! i)) N"
      using inv SN by (auto simp: timer_inv_def heap_order_def)
    then have "heap_order (\<lambda>i. tmn ht3 (heap ht3 ! i)) N"
      by (rule heap_order_cong) (use detached_at(1) [OF inv s e] sN SN in \<open>simp add: ht3_def\<close>)
    ultimately have "settled N ht3 (take N (heap ht3)) ht3" by (rule settled_id)
    moreover have "remove_node ht s = Some (heap ht ! s, ht3)"
      unfolding remove_node_detach [OF inv s e] Let_def ht3_def
      using False by (simp add: N_def)
    ultimately show ?thesis
      using ms by (intro exI [of _ ht3] exI [of _ "take N (heap ht)"]) (simp add: ht3_def)
  qed
  then obtain ht4 ys where 4: "remove_node ht s = Some (heap ht ! s, ht4)" "settled N ht3 ys ht4"
    "add_mset (heap ht ! s) (mset ys) = mset (heap_nodes ht)" by blast
  obtain fs where fs: "free_ok ht3 (idn ht3 ` set ys) fs"
    using detached_nodes(3) [OF inv s e 4(3)] by (auto simp: ht3_def)
  have mv: "moved (idn ht3 ` set ys) ht3 ht4" using 4(2) by (simp add: settled_def)
  have sz: "cur_size ht4 = N" using moved_sel(2) [OF mv] by (simp add: ht3_def N_def)
  then have same: "ht4\<lparr>cur_size := N\<rparr> = ht4" by (cases ht4) simp
  have "timer_inv ht4" "mset (heap_nodes ht4) = mset ys"
    using timer_inv_settled [OF 4(2) fs] len by (simp_all add: same ht3_def)
  then show thesis
    using that [OF 4(1)] 4(3) sz moved_sel [OF mv] by (simp add: ht3_def N_def)
qed

subsection \<open>Scheduling a node\<close>

lemma free_head:
  assumes inv: "timer_inv ht" and fs: "free_ok ht (idn ht ` set (heap_nodes ht)) fs"
  obtains i fs' where "fs = i # fs'"
proof -
  have "card (idn ht ` set (heap_nodes ht)) \<le> cur_size ht"
    using card_image_le [of "set (heap_nodes ht)" "idn ht"] card_length [of "heap_nodes ht"]
    by (simp add: heap_nodes_def)
  moreover have "cur_size ht + 2 \<le> max_size ht"
    using inv by (simp add: timer_inv_def)
  ultimately have "card {1..<max_size ht} > card (idn ht ` set (heap_nodes ht))"
    unfolding card_atLeastLessThan by linarith
  then have "set fs \<noteq> {}"
    using fs card_mono [of "idn ht ` set (heap_nodes ht)" "{1..<max_size ht}"] by (auto simp: free_ok_def)
  then show thesis using that by (cases fs) auto
qed

text \<open>The state in which \<^verbatim>\<open>insert_node\<close> starts to move the new entry up.\<close>

definition with_entry :: "timer_heap_t \<Rightarrow> nat \<Rightarrow> nat \<Rightarrow> timer_entry_t \<Rightarrow> time_val_t \<Rightarrow> timer_heap_t" where
  "with_entry ht i n e t =
     (let ht2 = ht\<lparr>timer_ids_freelist := - (timer_ids ht ! i),
                   tents := (tents ht)(n \<mapsto> e\<lparr>te_timer_id := int i, te_timer_value := t\<rparr>)\<rparr>
      in if cur_size ht + 2 \<ge> max_size ht then grow_heap ht2 else ht2)"

lemma with_entry_sel [simp]:
  "cur_size (with_entry ht i n e t) = cur_size ht"
  "max_entries_per_poll (with_entry ht i n e t) = max_entries_per_poll ht"
  "tents (with_entry ht i n e t) = (tents ht)(n \<mapsto> e\<lparr>te_timer_id := int i, te_timer_value := t\<rparr>)"
  "idn (with_entry ht i n e t) = (idn ht)(n := i)" "tmn (with_entry ht i n e t) = (tmn ht)(n := t)"
  "timer_ids_freelist (with_entry ht i n e t) = - (timer_ids ht ! i)"
  by (auto simp: with_entry_def grow_heap_def Let_def idn_def tmn_def fun_eq_iff)

lemma with_entry_arrays:
  assumes inv: "timer_inv ht" and i: "i < max_size ht" and w_def: "w = with_entry ht i n e t"
  shows "length (heap w) = max_size w" "length (timer_ids w) = max_size w" "cur_size ht + 1 + 2 \<le> max_size w"
    "j < max_size ht \<Longrightarrow> heap w ! j = heap ht ! j" "j < max_size ht \<Longrightarrow> timer_ids w ! j = timer_ids ht ! j"
    "max_size ht \<le> max_size w" "max_size ht \<le> j \<Longrightarrow> j < max_size w \<Longrightarrow> timer_ids w ! j = - (int j + 1)"
proof -
  have "length (heap ht) = max_size ht" "length (timer_ids ht) = max_size ht" "cur_size ht + 2 \<le> max_size ht"
    using inv by (simp_all add: timer_inv_def)
  then show "length (heap w) = max_size w" "length (timer_ids w) = max_size w" "cur_size ht + 1 + 2 \<le> max_size w"
    "j < max_size ht \<Longrightarrow> heap w ! j = heap ht ! j" "j < max_size ht \<Longrightarrow> timer_ids w ! j = timer_ids ht ! j"
    "max_size ht \<le> max_size w" "max_size ht \<le> j \<Longrightarrow> j < max_size w \<Longrightarrow> timer_ids w ! j = - (int j + 1)"
    by (auto simp: w_def with_entry_def grow_heap_def Let_def nth_append simp del: upt_Suc)
qed

lemma with_entry_free:
  assumes inv: "timer_inv ht" and fs: "free_ok ht (idn ht ` set (heap_nodes ht)) (i # fs)"
  shows "\<exists>gs. free_ok (with_entry ht i n e t) (insert i (idn ht ` set (heap_nodes ht))) gs"
proof -
  define w where "w = with_entry ht i n e t"
  have i: "i < max_size ht" and i1: "1 \<le> i" using fs by (auto simp: free_ok_def)
  note w = with_entry_arrays [OF inv i w_def]
  have len: "length (timer_ids ht) = max_size ht" using inv by (simp add: timer_inv_def)
  have inb: "set fs \<subseteq> {1..<max_size ht}" using fs by (auto simp: free_ok_def)
  have "free_chain (timer_ids ht) (- (timer_ids ht ! i)) fs (int (max_size ht))"
    using fs by (simp add: free_ok_def)
  then have "free_chain (timer_ids w) (- (timer_ids ht ! i)) fs (int (max_size ht))"
    by (rule free_chain_cong) (use w len inb in auto)
  moreover have "free_chain (timer_ids w) (int (max_size ht)) [max_size ht..<max_size w] (int (max_size w))"
    by (rule free_chain_upt) (use w in auto)
  ultimately have "free_chain (timer_ids w) (timer_ids_freelist w) (fs @ [max_size ht..<max_size w]) (int (max_size w))"
    by (auto simp: free_chain_append w_def)
  moreover have "idn ht ` set (heap_nodes ht) \<subseteq> {..<max_size ht}"
    using inv by (auto simp: timer_inv_def placed_def nodes_ok_def heap_nodes_def idn_def)
  then have "set (fs @ [max_size ht..<max_size w]) = {1..<max_size w} - insert i (idn ht ` set (heap_nodes ht))"
    using fs i i1 w(6) by (auto simp: free_ok_def)
  moreover have "distinct (fs @ [max_size ht..<max_size w])"
    using fs inb by (auto simp: free_ok_def)
  ultimately show ?thesis unfolding w_def free_ok_def by blast
qed

lemma with_entry_hole:
  assumes inv: "timer_inv ht" and i: "1 \<le> i" "i < max_size ht" "i \<notin> idn ht ` set (heap_nodes ht)"
    and n: "n \<notin> set (heap_nodes ht)" and w_def: "w = with_entry ht i n e t"
  shows "virt (cur_size ht + 1) w n (cur_size ht) = heap_nodes ht @ [n]"
    "hole (cur_size ht + 1) w n (cur_size ht)"
    "up_ok (\<lambda>j. tmn w (virt (cur_size ht + 1) w n (cur_size ht) ! j)) (cur_size ht + 1) (cur_size ht)"
proof -
  define N where "N = cur_size ht"
  note w = with_entry_arrays [OF inv i(2) w_def]
  have len: "N + 2 \<le> max_size ht" "length (heap ht) = max_size ht" "length (timer_ids ht) = max_size ht"
    and pl: "placed N ht" and ord: "heap_order (\<lambda>i. tmn ht (heap ht ! i)) N"
    using inv by (simp_all add: timer_inv_def N_def)
  have Nw: "N + 1 \<le> length (heap w)" using w len by simp
  have nth: "j < N \<Longrightarrow> heap_nodes ht ! j = heap ht ! j" "length (heap_nodes ht) = N" for j
    using len by (simp_all add: heap_nodes_def N_def)
  have in_nodes: "j < N \<Longrightarrow> heap ht ! j \<in> set (heap_nodes ht)" for j
    using nth nth_mem [of j "heap_nodes ht"] by simp
  show v: "virt (cur_size ht + 1) w n (cur_size ht) = heap_nodes ht @ [n]"
    unfolding N_def [symmetric]
    by (rule nth_equalityI) (use Nw nth w(4) len in \<open>auto simp: nth_virt nth_append\<close>)
  have idw: "m \<in> set (heap_nodes ht) \<Longrightarrow> idn w m = idn ht m" "m \<in> set (heap_nodes ht) \<Longrightarrow> tmn w m = tmn ht m" for m
    using n by (auto simp: w_def)
  have "nodes_ok ht (heap_nodes ht)" using pl by (simp add: placed_def heap_nodes_def N_def)
  moreover have "map (idn w) (heap_nodes ht) = map (idn ht) (heap_nodes ht)" using idw by simp
  ultimately have ok: "nodes_ok w (heap_nodes ht @ [n])"
    using n i w(2,6) len idw(1) unfolding nodes_ok_def
    by (auto simp: w_def image_iff)
  have "timer_ids w ! idn w (heap w ! j) = int j" if "j < N" for j
  proof -
    have "timer_ids ht ! idn ht (heap ht ! j) = int j" "idn ht (heap ht ! j) < max_size ht"
      using pl that in_nodes [OF that] len by (auto simp: placed_def nodes_ok_def heap_nodes_def N_def idn_def)
    then show ?thesis using w(4,5) idw(1) in_nodes [OF that] that len by simp
  qed
  then show "hole (cur_size ht + 1) w n (cur_size ht)"
    using ok v Nw by (simp add: hole_def N_def less_Suc_eq)
  have "up_ok (\<lambda>j. tmn w (virt (N + 1) w n N ! j)) (N + 1) N"
    unfolding up_ok_def v [folded N_def]
  proof (intro conjI allI impI; elim conjE)
    fix j assume j: "j < N + 1" "0 < j" "j \<noteq> N"
    then have "j < N" "HEAP_PARENT j < N" using parent_less [of j] by auto
    then show "tmn w ((heap_nodes ht @ [n]) ! HEAP_PARENT j) \<le> tmn w ((heap_nodes ht @ [n]) ! j)"
      using ord j nth idw(2) in_nodes by (simp add: nth_append heap_order_def)
  next
    fix j assume "j < N + 1" "0 < j" "HEAP_PARENT j = N"
    then show "tmn w ((heap_nodes ht @ [n]) ! HEAP_PARENT N) \<le> tmn w ((heap_nodes ht @ [n]) ! j)"
      using parent_less [of j] by simp
  qed
  then show "up_ok (\<lambda>j. tmn w (virt (cur_size ht + 1) w n (cur_size ht) ! j)) (cur_size ht + 1) (cur_size ht)"
    by (simp add: N_def)
qed

end
