(* ===== verification/TimerHeapSpec.thy ===== *)
theory TimerHeapSpec
  imports TimerHeapInv
begin

text \<open>
  The timer heap against its contract: a multiset of scheduled entries from which the earliest is taken
  first. Scheduling adds the entry and nothing else, cancelling takes out exactly the entry, the root is the
  earliest one, and polling takes out the entries that have expired, earliest first.
\<close>

subsection \<open>Scheduling\<close>

lemma schedule_entry_ok:
  assumes inv: "timer_inv ht" and e: "tents ht n = Some e" and id: "te_timer_id e < 1"
  obtains ht' i where "schedule_entry ht n t = Some (0, ht')" "timer_inv ht'"
    "mset (heap_nodes ht') = add_mset n (mset (heap_nodes ht))" "cur_size ht' = cur_size ht + 1"
    "tents ht' = (tents ht)(n \<mapsto> e\<lparr>te_timer_id := int i, te_timer_value := t\<rparr>)" "1 \<le> i"
    "max_entries_per_poll ht' = max_entries_per_poll ht"
proof -
  obtain fs where fs: "free_ok ht (idn ht ` set (heap_nodes ht)) fs" using inv by (auto simp: timer_inv_def)
  obtain i fs' where i_fs: "fs = i # fs'" using free_head [OF inv fs] .
  have i: "1 \<le> i" "i < max_size ht" "i \<notin> idn ht ` set (heap_nodes ht)" "timer_ids_freelist ht = int i"
    "length (timer_ids ht) = max_size ht" "cur_size ht < max_size ht"
    using fs inv by (auto simp: i_fs free_ok_def timer_inv_def)
  have n: "n \<notin> set (heap_nodes ht)"
    using inv e id by (auto simp: timer_inv_def placed_def nodes_ok_def heap_nodes_def)
  define w where "w = with_entry ht i n e t"
  note hw = with_entry_hole [OF inv i(1-3) n w_def] and aw = with_entry_arrays [OF inv i(2) w_def]
  obtain gs where gs: "free_ok w (insert i (idn ht ` set (heap_nodes ht))) gs"
    using with_entry_free [OF inv fs [unfolded i_fs]] unfolding w_def by blast
  obtain ht2 where 2: "reheap_up w n (cur_size ht) = Some ht2" "settled (cur_size ht + 1) w (heap_nodes ht @ [n]) ht2"
    using reheap_up_ok [OF hw(2,3)] hw(1) by auto
  have "idn w ` set (heap_nodes ht @ [n]) = insert i (idn ht ` set (heap_nodes ht))"
    using n by (auto simp: w_def)
  then have fr: "free_ok w (idn w ` set (heap_nodes ht @ [n])) gs" using gs by simp
  note fin = timer_inv_settled [OF 2(2) fr aw(1-3)]
  have mv: "moved (idn w ` set (heap_nodes ht @ [n])) w ht2" using 2(2) by (simp add: settled_def)
  have sz: "cur_size ht2 = cur_size ht" using moved_sel(2) [OF mv] by (simp add: w_def)
  have "schedule_entry ht n t = Some (0, ht2\<lparr>cur_size := cur_size ht + 1\<rparr>)"
    using i e 2(1) sz
    by (simp add: schedule_entry_def pop_freelist_def at_id_def mem_at_def insert_node_def w_def with_entry_def Let_def
        grow_heap_def split: if_splits)
  then show thesis
    by (rule that [OF _ fin(1) _ _ _ i(1)]) (use fin(2) moved_sel [OF mv] in \<open>simp_all add: w_def\<close>)
qed

subsection \<open>The contract of a collection from which the earliest element is taken first\<close>

locale earliest_first =
  fixes inv :: "'h \<Rightarrow> bool"
    and elems :: "'h \<Rightarrow> 'n multiset"
    and key :: "'h \<Rightarrow> 'n \<Rightarrow> 't::linorder"
    and take_first :: "'h \<Rightarrow> ('n \<times> 'h) option"
    and add :: "'n \<Rightarrow> 't \<Rightarrow> 'h \<Rightarrow> 'h option"
    and fresh :: "'n \<Rightarrow> 'h \<Rightarrow> bool"
  assumes take_first_ok: "inv h \<Longrightarrow> elems h \<noteq> {#} \<Longrightarrow> \<exists>n h'. take_first h = Some (n, h') \<and> inv h'
      \<and> elems h = add_mset n (elems h') \<and> (\<forall>m \<in># elems h. key h n \<le> key h m) \<and> key h' = key h"
    and add_ok: "inv h \<Longrightarrow> fresh n h \<Longrightarrow> \<exists>h'. add n t h = Some h' \<and> inv h'
      \<and> elems h' = add_mset n (elems h) \<and> key h' = (key h)(n := t)"
begin

text \<open>Take out up to \<open>k\<close> elements whose key is at most \<open>now\<close>.\<close>

fun take_due :: "'t \<Rightarrow> nat \<Rightarrow> 'h \<Rightarrow> ('n list \<times> 'h) option" where
  "take_due now 0 h = Some ([], h)"
| "take_due now (Suc k) h =
     (if elems h = {#} then Some ([], h)
      else case take_first h of
        None \<Rightarrow> None
      | Some (n, h1) \<Rightarrow>
          if key h n \<le> now then map_option (\<lambda>(ns, h2). (n # ns, h2)) (take_due now k h1) else Some ([], h))"

lemma take_due_ok:
  assumes "inv h"
  shows "\<exists>ns h'. take_due now k h = Some (ns, h') \<and> inv h' \<and> elems h = mset ns + elems h' \<and> key h' = key h
    \<and> sorted (map (key h) ns) \<and> (\<forall>n \<in> set ns. key h n \<le> now \<and> (\<forall>m \<in># elems h'. key h n \<le> key h m))
    \<and> length ns \<le> k \<and> (length ns = k \<or> (\<forall>m \<in># elems h'. now < key h m))"
  using assms
proof (induction k arbitrary: h)
  case (Suc k)
  show ?case
  proof (cases "elems h = {#}")
    case False
    obtain n h1 where 1: "take_first h = Some (n, h1)" "inv h1" "elems h = add_mset n (elems h1)"
      "\<forall>m \<in># elems h. key h n \<le> key h m" "key h1 = key h"
      using take_first_ok [OF Suc.prems False] by blast
    show ?thesis
    proof (cases "key h n \<le> now")
      case True
      obtain ns h2 where 2: "take_due now k h1 = Some (ns, h2)" "inv h2" "elems h1 = mset ns + elems h2" "key h2 = key h"
        "sorted (map (key h) ns)" "\<forall>n \<in> set ns. key h n \<le> now \<and> (\<forall>m \<in># elems h2. key h n \<le> key h m)"
        "length ns \<le> k" "length ns = k \<or> (\<forall>m \<in># elems h2. now < key h m)"
        using Suc.IH [OF 1(2)] 1(5) by auto
      then show ?thesis using 1 True False by auto
    next
      case False
      then show ?thesis using 1 Suc.prems \<open>elems h \<noteq> {#}\<close> by (auto simp: not_le dest: less_le_trans)
    qed
  qed (use Suc in simp)
qed simp

text \<open>An element that is added and due is among those taken out, if enough may be taken.\<close>

lemma added_is_taken:
  assumes h: "inv h" "fresh n h" and t: "t \<le> now" and k: "size (elems h) < k"
  shows "\<exists>h1 ns h2. add n t h = Some h1 \<and> take_due now k h1 = Some (ns, h2) \<and> n \<in> set ns"
proof -
  obtain h1 where 1: "add n t h = Some h1" "inv h1" "elems h1 = add_mset n (elems h)" "key h1 = (key h)(n := t)"
    using add_ok [OF h] by blast
  obtain ns h2 where 2: "take_due now k h1 = Some (ns, h2)" "elems h1 = mset ns + elems h2"
    "length ns = k \<or> (\<forall>m \<in># elems h2. now < key h1 m)"
    using take_due_ok [OF 1(2), of now k] by blast
  have "n \<notin># elems h2"
  proof
    assume n: "n \<in># elems h2"
    then have "length ns = k" using 2(3) 1(4) t by auto
    moreover have "size (elems h2) > 0" using n by (auto simp: nonempty_has_size [symmetric])
    ultimately show False using arg_cong [OF 2(2), of size] 1(3) k by simp
  qed
  moreover have "n \<in># mset ns + elems h2" using 1(3) 2(2) by (metis union_single_eq_member)
  ultimately show ?thesis using 1(1) 2(1) by auto
qed

end

lemma heap_root_earliest:
  assumes inv: "timer_inv ht" and m: "m \<in> set (heap_nodes ht)"
  shows "tmn ht (heap ht ! 0) \<le> tmn ht m"
proof -
  obtain i where "i < cur_size ht" "m = heap ht ! i"
    using m by (auto simp: heap_nodes_def in_set_conv_nth)
  then show ?thesis
    using heap_order_root [of "\<lambda>i. tmn ht (heap ht ! i)" "cur_size ht" i] inv by (simp add: timer_inv_def)
qed

lemma heap_nodes_empty: "timer_inv ht \<Longrightarrow> heap_nodes ht = [] \<longleftrightarrow> cur_size ht = 0"
  by (auto simp: heap_nodes_def timer_inv_def)

lemma remove_root_ok:
  assumes inv: "timer_inv ht" and ne: "cur_size ht \<noteq> 0"
  obtains ht' e where "remove_node ht 0 = Some (heap ht ! 0, ht')" "timer_inv ht'"
    "mset (heap_nodes ht) = add_mset (heap ht ! 0) (mset (heap_nodes ht'))" "tmn ht' = tmn ht"
    "tents ht (heap ht ! 0) = Some e" "tents ht' = (tents ht)(heap ht ! 0 \<mapsto> e\<lparr>te_timer_id := -1\<rparr>)"
    "max_entries_per_poll ht' = max_entries_per_poll ht"
proof -
  have s: "0 < cur_size ht" using ne by simp
  obtain e where e: "tents ht (heap ht ! 0) = Some e" using timer_inv_node [OF inv s] by blast
  obtain ht' where 1: "remove_node ht 0 = Some (heap ht ! 0, ht')" "timer_inv ht'"
    "mset (heap_nodes ht) = add_mset (heap ht ! 0) (mset (heap_nodes ht'))"
    "tents ht' = (tents ht)(heap ht ! 0 \<mapsto> e\<lparr>te_timer_id := -1\<rparr>)" "max_entries_per_poll ht' = max_entries_per_poll ht"
    using remove_node_ok [OF inv s e] by blast
  have "tmn ht' = tmn ht" using 1(4) e by (auto simp: tmn_def fun_eq_iff)
  then show thesis using that 1 e by blast
qed

interpretation th: earliest_first timer_inv "\<lambda>ht. mset (heap_nodes ht)" tmn "\<lambda>ht. remove_node ht 0"
  "\<lambda>n t ht. map_option snd (schedule_entry ht n t)" "\<lambda>n ht. \<exists>e. tents ht n = Some e \<and> te_timer_id e < 1"
proof unfold_locales
  fix h assume h: "timer_inv h" "mset (heap_nodes h) \<noteq> {#}"
  then have "cur_size h \<noteq> 0" using heap_nodes_empty by simp
  from remove_root_ok [OF h(1) this] heap_root_earliest [OF h(1)]
  show "\<exists>n h'. remove_node h 0 = Some (n, h') \<and> timer_inv h' \<and> mset (heap_nodes h) = add_mset n (mset (heap_nodes h'))
      \<and> (\<forall>m \<in># mset (heap_nodes h). tmn h n \<le> tmn h m) \<and> tmn h' = tmn h"
    by (metis set_mset_mset)
next
  fix h n t assume h: "timer_inv h" "\<exists>e. tents h n = Some e \<and> te_timer_id e < 1"
  then obtain e where e: "tents h n = Some e" "te_timer_id e < 1" by blast
  obtain h' i where 1: "schedule_entry h n t = Some (0, h')" "timer_inv h'"
    "mset (heap_nodes h') = add_mset n (mset (heap_nodes h))"
    "tents h' = (tents h)(n \<mapsto> e\<lparr>te_timer_id := int i, te_timer_value := t\<rparr>)"
    using schedule_entry_ok [OF h(1) e] by metis
  moreover have "tmn h' = (tmn h)(n := t)" using 1(4) by (auto simp: tmn_def fun_eq_iff)
  ultimately show "\<exists>h'. map_option snd (schedule_entry h n t) = Some h' \<and> timer_inv h'
      \<and> mset (heap_nodes h') = add_mset n (mset (heap_nodes h)) \<and> tmn h' = (tmn h)(n := t)"
    by simp
qed

subsection \<open>Polling\<close>

text \<open>With callbacks that leave the heap alone the loop takes out the entries that are due.\<close>

lemma root_time: "timer_inv ht \<Longrightarrow> cur_size ht \<noteq> 0 \<Longrightarrow> node_time ht 0 = Some (tmn ht (heap ht ! 0))"
  by (rule timer_inv_node [of ht 0]) simp_all

lemma bind_pair_Some: "Option.bind m (\<lambda>(a, b). Some (f a b)) = map_option (\<lambda>(a, b). f a b) m"
  by (cases m) auto

lemma poll_loop_due:
  assumes "timer_inv ht" "max_entries_per_poll ht - cnt = k"
  shows "poll_loop (\<lambda>n. Some) now cnt ht = th.take_due now k ht"
  using assms
proof (induction k arbitrary: cnt ht)
  case 0
  then show ?case
    by (subst poll_loop.simps) (simp add: root_time)
next
  case (Suc k)
  show ?case
  proof (cases "cur_size ht = 0")
    case True
    then show ?thesis using Suc.prems heap_nodes_empty by (subst poll_loop.simps) simp
  next
    case False
    obtain ht' e where 1: "remove_node ht 0 = Some (heap ht ! 0, ht')" "timer_inv ht'"
      "tents ht' = (tents ht)(heap ht ! 0 \<mapsto> e\<lparr>te_timer_id := -1\<rparr>)" "max_entries_per_poll ht' = max_entries_per_poll ht"
      using remove_root_ok [OF Suc.prems(1) False] by metis
    have ih: "poll_loop (\<lambda>n. Some) now (cnt + 1) ht' = th.take_due now k ht'"
      by (rule Suc.IH) (use 1 Suc.prems in simp_all)
    have "cnt < max_entries_per_poll ht" using Suc.prems(2) by simp
    then show ?thesis
      using 1 ih False Suc.prems(1) heap_nodes_empty root_time
      by (subst poll_loop.simps) (simp add: bind_pair_Some)
  qed
qed

text \<open>
  Callbacks that may change the heap: called with an entry that is not scheduled, they return and keep the
  invariant and the limit.
\<close>

definition callback_ok :: "nat \<Rightarrow> (nat \<Rightarrow> timer_heap_t \<Rightarrow> timer_heap_t option) \<Rightarrow> bool" where
  "callback_ok M cb \<longleftrightarrow> (\<forall>n ht e. timer_inv ht \<and> max_entries_per_poll ht = M \<and> tents ht n = Some e \<and> te_timer_id e = -1
     \<longrightarrow> (\<exists>ht'. cb n ht = Some ht' \<and> timer_inv ht' \<and> max_entries_per_poll ht' = M))"

lemma poll_loop_returns:
  assumes cb: "callback_ok M cb" and "timer_inv ht" "max_entries_per_poll ht = M" "M - cnt = k"
  shows "\<exists>ns ht'. poll_loop cb now cnt ht = Some (ns, ht') \<and> timer_inv ht' \<and> length ns \<le> k
    \<and> (length ns = k \<or> (\<forall>m \<in> set (heap_nodes ht'). now < tmn ht' m))"
  using assms(2-)
proof (induction k arbitrary: cnt ht)
  case 0
  then show ?case
    by (subst poll_loop.simps) (auto simp: root_time)
next
  case (Suc k)
  show ?case
  proof (cases "cur_size ht = 0")
    case True
    then show ?thesis using Suc.prems heap_nodes_empty [of ht] by (subst poll_loop.simps) simp
  next
    case False
    obtain ht1 e where 1: "remove_node ht 0 = Some (heap ht ! 0, ht1)" "timer_inv ht1"
      "tents ht1 = (tents ht)(heap ht ! 0 \<mapsto> e\<lparr>te_timer_id := -1\<rparr>)" "max_entries_per_poll ht1 = max_entries_per_poll ht"
      using remove_root_ok [OF Suc.prems(1) False] by metis
    obtain ht2 where 2: "(if te_cb e then cb (heap ht ! 0) ht1 else Some ht1) = Some ht2" "timer_inv ht2"
      "max_entries_per_poll ht2 = M"
      using cb [unfolded callback_ok_def, rule_format, of ht1 "heap ht ! 0" "e\<lparr>te_timer_id := -1\<rparr>"] 1 Suc.prems(2)
      by (cases "te_cb e") auto
    have "M - (cnt + 1) = k" using Suc.prems(3) by simp
    from Suc.IH [OF 2(2,3) this] obtain ns ht3 where 3: "poll_loop cb now (cnt + 1) ht2 = Some (ns, ht3)" "timer_inv ht3" "length ns \<le> k"
      "length ns = k \<or> (\<forall>m \<in> set (heap_nodes ht3). now < tmn ht3 m)"
      by blast
    have cnt: "cnt < max_entries_per_poll ht" using Suc.prems by simp
    show ?thesis
    proof (cases "tmn ht (heap ht ! 0) \<le> now")
      case True
      then have "poll_loop cb now cnt ht = Some (heap ht ! 0 # ns, ht3)"
        using False cnt 1 2(1) 3(1) root_time [OF Suc.prems(1)] by (subst poll_loop.simps) (simp cong: if_cong)
      then show ?thesis using 3 by auto
    next
      case notdue: False
      then have "poll_loop cb now cnt ht = Some ([], ht)"
        using False root_time [OF Suc.prems(1)] by (subst poll_loop.simps) simp
      moreover have "now < tmn ht m" if "m \<in> set (heap_nodes ht)" for m
        using heap_root_earliest [OF Suc.prems(1) that] notdue by simp
      ultimately show ?thesis using Suc.prems(1) by simp
    qed
  qed
qed

text \<open>The delay that \<^verbatim>\<open>timer_heap_poll\<close> reports.\<close>

lemma TIME_VAL_SUB_delay:
  assumes d_def: "d = TIME_VAL_SUB t now"
  shows "TIME_VAL_MSEC (if sec d < 0 \<or> msec d < 0 then \<lparr>sec = 0, msec = 0\<rparr> else d)
    = max 0 (TIME_VAL_MSEC t - TIME_VAL_MSEC now)"
proof -
  have d: "TIME_VAL_MSEC d = TIME_VAL_MSEC t - TIME_VAL_MSEC now" "\<bar>msec d\<bar> < 1000" "sec d * msec d \<ge> 0"
    using normalize_cases [of "\<lparr>sec = sec t - sec now, msec = msec t - msec now\<rparr>"]
    by (simp_all add: d_def TIME_VAL_SUB_def TIME_VAL_MSEC_def algebra_simps)
  then have "sec d < 0 \<or> msec d < 0 \<longleftrightarrow> TIME_VAL_MSEC d < 0"
    by (auto simp: TIME_VAL_MSEC_def zero_le_mult_iff)
  then show ?thesis using d(1) by (auto simp: TIME_VAL_MSEC_def)
qed

subsection \<open>Cancelling\<close>

lemma cancel_scheduled:
  assumes inv: "timer_inv ht" and n: "n \<in> set (heap_nodes ht)"
  obtains ht' e where "cancel ht n da = Some (1, ht')" "timer_inv ht'"
    "mset (heap_nodes ht) = add_mset n (mset (heap_nodes ht'))"
    "tents ht n = Some e" "tents ht' = (tents ht)(n \<mapsto> e\<lparr>te_timer_id := -1\<rparr>)"
proof -
  obtain s where s: "s < cur_size ht" and ns: "n = heap ht ! s"
    using n by (auto simp: heap_nodes_def in_set_conv_nth)
  obtain e where e: "tents ht n = Some e" "1 \<le> te_timer_id e" "nat (te_timer_id e) < max_size ht"
    "te_timer_id e = int (idn ht n)" "mem_at (heap ht) s = Some n"
    using timer_inv_node [OF inv s] ns by metis
  have at: "timer_ids ht ! idn ht n = int s" "length (timer_ids ht) = max_size ht"
    using inv s ns by (simp_all add: timer_inv_def placed_def)
  obtain ht' where "remove_node ht s = Some (n, ht')" "timer_inv ht'"
    "mset (heap_nodes ht) = add_mset n (mset (heap_nodes ht'))" "tents ht' = (tents ht)(n \<mapsto> e\<lparr>te_timer_id := -1\<rparr>)"
    using remove_node_ok [OF inv s] e(1) ns by metis
  moreover from this have "cancel ht n da = Some (1, ht')"
    using e at by (simp add: cancel_def at_id_def mem_at_def)
  ultimately show thesis using that e(1) by blast
qed

lemma cancel_idle: "tents ht n = Some e \<Longrightarrow> te_timer_id e = -1 \<Longrightarrow> cancel ht n da = Some (0, ht)"
proof -
  assume e: "tents ht n = Some e" "te_timer_id e = -1"
  have 1: "e\<lparr>te_timer_id := -1\<rparr> = e" using e(2) by (cases e) simp
  have 2: "(tents ht)(n \<mapsto> e) = tents ht" using e(1) by (simp add: fun_upd_idem)
  have 3: "ht\<lparr>tents := tents ht\<rparr> = ht" by simp
  show "cancel ht n da = Some (0, ht)" using e by (simp add: cancel_def set_timer_id_def 1 2 3 del: fun_upd_apply)
qed

subsection \<open>Properties\<close>

text \<open>An entry that is ready and a heap with two entries scheduled, for the witnesses.\<close>

definition idle_entry :: timer_entry_t where
  "idle_entry = \<lparr>te_id = 0, te_cb = True, te_timer_id = -1, te_timer_value = \<lparr>sec = 0, msec = 0\<rparr>\<rparr>"

definition demo_heap :: timer_heap_t where
  "demo_heap = timer_heap_create 1 (\<lambda>n. if n < 4 then Some idle_entry else None)"

lemma demo_heap_ok: "timer_inv demo_heap" "heap_nodes demo_heap = []" "max_entries_per_poll demo_heap = 64"
  "tents demo_heap 2 = Some idle_entry" "tents demo_heap 3 = Some idle_entry"
  unfolding demo_heap_def by (rule timer_inv_create, rule timer_inv_create, simp_all add: timer_heap_create_def Let_def)

text \<open>
  C34. Scheduling: for an entry that has a callback and is not running, \<^verbatim>\<open>timer_heap_schedule\<close> returns 0, the
  entry joins the scheduled ones and nothing else does, it expires at the current time plus the delay, it
  counts as running, every other entry is untouched, and the heap invariant is kept (the arrays grow when
  they must).
\<close>

theorem timer_schedule_adds:
  assumes inv: "timer_inv ht" and e: "tents ht n = Some e" "te_cb e" "te_timer_id e < 1"
  shows "\<exists>ht' e'. timer_heap_schedule now ht n delay = Some (0, ht') \<and> timer_inv ht'
    \<and> mset (heap_nodes ht') = add_mset n (mset (heap_nodes ht)) \<and> timer_heap_count ht' = timer_heap_count ht + 1
    \<and> tents ht' = (tents ht)(n \<mapsto> e') \<and> timer_entry_running e'
    \<and> TIME_VAL_MSEC (te_timer_value e') = TIME_VAL_MSEC now + TIME_VAL_MSEC delay"
proof -
  obtain ht' i where 1: "schedule_entry ht n (TIME_VAL_ADD now delay) = Some (0, ht')" "timer_inv ht'"
    "mset (heap_nodes ht') = add_mset n (mset (heap_nodes ht))" "cur_size ht' = cur_size ht + 1"
    "tents ht' = (tents ht)(n \<mapsto> e\<lparr>te_timer_id := int i, te_timer_value := TIME_VAL_ADD now delay\<rparr>)" "1 \<le> i"
    using schedule_entry_ok [OF inv e(1,3)] by blast
  have "timer_heap_schedule now ht n delay = Some (0, ht')"
    using e 1(1,5) by (simp add: timer_heap_schedule_def schedule_def)
  moreover have "TIME_VAL_MSEC (TIME_VAL_ADD now delay) = TIME_VAL_MSEC now + TIME_VAL_MSEC delay"
    unfolding TIME_VAL_ADD_def normalize_cases(1) by (simp add: TIME_VAL_MSEC_def)
  ultimately show ?thesis
    using 1 by (auto simp: timer_heap_count_def timer_entry_running_def)
qed

theorem timer_schedule_adds_witness:
  "\<exists>ht' e'. timer_heap_schedule \<lparr>sec = 5, msec = 800\<rparr> demo_heap 2 \<lparr>sec = 1, msec = 700\<rparr> = Some (0, ht') \<and> timer_inv ht'
    \<and> mset (heap_nodes ht') = {#2#} \<and> timer_heap_count ht' = timer_heap_count demo_heap + 1
    \<and> tents ht' = (tents demo_heap)(2 \<mapsto> e') \<and> timer_entry_running e' \<and> TIME_VAL_MSEC (te_timer_value e') = 7500"
  using timer_schedule_adds [OF demo_heap_ok(1,4), of "\<lparr>sec = 5, msec = 800\<rparr>" "\<lparr>sec = 1, msec = 700\<rparr>"] demo_heap_ok(2)
  by (simp add: idle_entry_def TIME_VAL_MSEC_def)

text \<open>
  C35. Cancelling: a scheduled entry is taken out, it and no other, with result 1, wherever it stands in the
  heap; for an entry that is not scheduled the result is 0 and nothing changes.
\<close>

theorem timer_cancel_removes:
  assumes inv: "timer_inv ht" and e: "tents ht n = Some e" and n: "n \<in> set (heap_nodes ht) \<or> te_timer_id e = -1"
  shows "\<exists>c ht'. timer_heap_cancel ht n = Some (c, ht') \<and> timer_inv ht'
    \<and> (if n \<in> set (heap_nodes ht)
       then c = 1 \<and> mset (heap_nodes ht') = mset (heap_nodes ht) - {#n#} \<and> n \<notin> set (heap_nodes ht')
         \<and> tents ht' = (tents ht)(n \<mapsto> e\<lparr>te_timer_id := -1\<rparr>)
       else c = 0 \<and> ht' = ht)"
proof (cases "n \<in> set (heap_nodes ht)")
  case True
  obtain ht' e' where 1: "cancel ht n False = Some (1, ht')" "timer_inv ht'"
    "mset (heap_nodes ht) = add_mset n (mset (heap_nodes ht'))"
    "tents ht n = Some e'" "tents ht' = (tents ht)(n \<mapsto> e'\<lparr>te_timer_id := -1\<rparr>)"
    using cancel_scheduled [OF inv True] by metis
  have "nodes_ok ht' (heap_nodes ht')" using 1(2) by (simp add: timer_inv_def placed_def heap_nodes_def)
  then have "n \<in> set (heap_nodes ht') \<longrightarrow> (\<exists>d. tents ht' n = Some d \<and> 1 \<le> te_timer_id d)"
    by (auto simp: nodes_ok_def)
  then have "n \<notin> set (heap_nodes ht')" using 1(5) by auto
  then show ?thesis
    using 1 e True by (simp add: timer_heap_cancel_def cancel_timer_def)
next
  case False
  then show ?thesis
    using n e inv cancel_idle [OF e] by (simp add: timer_heap_cancel_def cancel_timer_def)
qed

theorem timer_cancel_removes_witness:
  "\<exists>ht ht'. timer_heap_schedule \<lparr>sec = 5, msec = 800\<rparr> demo_heap 2 \<lparr>sec = 1, msec = 700\<rparr> = Some (0, ht)
    \<and> timer_heap_cancel ht 2 = Some (1, ht') \<and> heap_nodes ht' = []"
proof -
  obtain ht i where 1: "schedule_entry demo_heap 2 (TIME_VAL_ADD \<lparr>sec = 5, msec = 800\<rparr> \<lparr>sec = 1, msec = 700\<rparr>) = Some (0, ht)"
    "timer_inv ht" "mset (heap_nodes ht) = add_mset 2 (mset (heap_nodes demo_heap))"
    "tents ht = (tents demo_heap)(2 \<mapsto> idle_entry\<lparr>te_timer_id := int i, te_timer_value := TIME_VAL_ADD \<lparr>sec = 5, msec = 800\<rparr> \<lparr>sec = 1, msec = 700\<rparr>\<rparr>)"
    by (rule schedule_entry_ok [OF demo_heap_ok(1,4)]) (simp add: idle_entry_def, blast)
  have "heap_nodes ht = [2]" using 1(3) demo_heap_ok(2) by simp
  moreover have "timer_heap_schedule \<lparr>sec = 5, msec = 800\<rparr> demo_heap 2 \<lparr>sec = 1, msec = 700\<rparr> = Some (0, ht)"
    using 1(1,4) demo_heap_ok(4) by (simp add: timer_heap_schedule_def schedule_def idle_entry_def)
  ultimately show ?thesis
    using timer_cancel_removes [OF 1(2), of 2] 1(4) by auto
qed

lemma demo_scheduled:
  obtains ht1 ht2 where "schedule_entry demo_heap 2 \<lparr>sec = 9, msec = 0\<rparr> = Some (0, ht1)"
    "schedule_entry ht1 3 \<lparr>sec = 7, msec = 500\<rparr> = Some (0, ht2)" "timer_inv ht2" "mset (heap_nodes ht2) = {#2, 3#}"
    "max_entries_per_poll ht2 = 64" "tmn ht2 2 = \<lparr>sec = 9, msec = 0\<rparr>" "tmn ht2 3 = \<lparr>sec = 7, msec = 500\<rparr>" "cur_size ht2 \<noteq> 0"
proof -
  have idle: "te_timer_id idle_entry < 1" by (simp add: idle_entry_def)
  obtain ht1 i where 1: "schedule_entry demo_heap 2 \<lparr>sec = 9, msec = 0\<rparr> = Some (0, ht1)" "timer_inv ht1"
    "mset (heap_nodes ht1) = add_mset 2 (mset (heap_nodes demo_heap))"
    "tents ht1 = (tents demo_heap)(2 \<mapsto> idle_entry\<lparr>te_timer_id := int i, te_timer_value := \<lparr>sec = 9, msec = 0\<rparr>\<rparr>)"
    "max_entries_per_poll ht1 = max_entries_per_poll demo_heap"
    using schedule_entry_ok [OF demo_heap_ok(1,4) idle] by metis
  have 13: "tents ht1 3 = Some idle_entry" using 1(4) demo_heap_ok(5) by simp
  obtain ht2 j where 2: "schedule_entry ht1 3 \<lparr>sec = 7, msec = 500\<rparr> = Some (0, ht2)" "timer_inv ht2"
    "mset (heap_nodes ht2) = add_mset 3 (mset (heap_nodes ht1))" "cur_size ht2 = cur_size ht1 + 1"
    "tents ht2 = (tents ht1)(3 \<mapsto> idle_entry\<lparr>te_timer_id := int j, te_timer_value := \<lparr>sec = 7, msec = 500\<rparr>\<rparr>)"
    "max_entries_per_poll ht2 = max_entries_per_poll ht1"
    using schedule_entry_ok [OF 1(2) 13 idle] by metis
  show thesis
    by (rule that [OF 1(1) 2(1,2)]) (use 1 2 demo_heap_ok in \<open>simp_all add: tmn_def\<close>)
qed

text \<open>
  C17. Polling with callbacks that leave the heap alone: the entries that have expired are taken out and
  called in the order of their times, none is lost and none that is not due is called, at most the limit of
  entries per poll, and if fewer than the limit were called every remaining entry is later than now. The
  reported delay is the time in milliseconds until the earliest remaining entry, or 0 if that is due.
\<close>

theorem timer_poll_fires_due:
  assumes inv: "timer_inv ht" and ne: "cur_size ht \<noteq> 0"
  shows "\<exists>ns d ht'. timer_heap_poll (\<lambda>n. Some) now True ht = Some (ns, Some d, ht') \<and> timer_inv ht'
    \<and> mset (heap_nodes ht) = mset ns + mset (heap_nodes ht')
    \<and> sorted (map (tmn ht) ns) \<and> (\<forall>n \<in> set ns. TIME_VAL_LTE (tmn ht n) now)
    \<and> length ns \<le> max_entries_per_poll ht
    \<and> (length ns < max_entries_per_poll ht \<longrightarrow> (\<forall>m \<in> set (heap_nodes ht'). TIME_VAL_GT (tmn ht m) now))
    \<and> (if heap_nodes ht' = [] then d = \<lparr>sec = INT32_MAX, msec = INT32_MAX\<rparr>
       else \<exists>m \<in> set (heap_nodes ht'). (\<forall>m' \<in> set (heap_nodes ht'). tmn ht m \<le> tmn ht m')
              \<and> TIME_VAL_MSEC d = max 0 (TIME_VAL_MSEC (tmn ht m) - TIME_VAL_MSEC now))"
proof -
  obtain ns ht' where 1: "th.take_due now (max_entries_per_poll ht) ht = Some (ns, ht')" "timer_inv ht'"
    "mset (heap_nodes ht) = mset ns + mset (heap_nodes ht')" "tmn ht' = tmn ht" "sorted (map (tmn ht) ns)"
    "\<forall>n \<in> set ns. tmn ht n \<le> now" "length ns \<le> max_entries_per_poll ht"
    "length ns = max_entries_per_poll ht \<or> (\<forall>m \<in> set (heap_nodes ht'). now < tmn ht m)"
    using th.take_due_ok [OF inv, of now "max_entries_per_poll ht"] by auto
  have loop: "poll_loop (\<lambda>n. Some) now 0 ht = Some (ns, ht')"
    using poll_loop_due [OF inv, of 0] 1(1) by simp
  show ?thesis
  proof (cases "cur_size ht' = 0")
    case True
    then have "timer_heap_poll (\<lambda>n. Some) now True ht = Some (ns, Some \<lparr>sec = INT32_MAX, msec = INT32_MAX\<rparr>, ht')"
      using loop ne by (simp add: timer_heap_poll_def)
    then show ?thesis using 1 True heap_nodes_empty [OF 1(2)] by auto
  next
    case False
    define t where "t = tmn ht (heap ht' ! 0)"
    define d where "d = TIME_VAL_SUB t now"
    have "timer_heap_poll (\<lambda>n. Some) now True ht
        = Some (ns, Some (if sec d < 0 \<or> msec d < 0 then \<lparr>sec = 0, msec = 0\<rparr> else d), ht')"
      using loop ne False root_time [OF 1(2) False] 1(4) by (simp add: timer_heap_poll_def d_def t_def Let_def)
    moreover have "heap ht' ! 0 \<in> set (heap_nodes ht')"
      by (rule timer_inv_node [OF 1(2), of 0]) (use False in simp_all)
    moreover from this have "heap_nodes ht' \<noteq> []" by auto
    moreover have "\<forall>m' \<in> set (heap_nodes ht'). tmn ht (heap ht' ! 0) \<le> tmn ht m'"
      using heap_root_earliest [OF 1(2)] 1(4) by simp
    moreover note TIME_VAL_SUB_delay [OF d_def, unfolded t_def]
    ultimately show ?thesis
      using 1(2,3,5-8)
      by (intro exI [of _ ns] exI [of _ ht'] exI [of _ "if sec d < 0 \<or> msec d < 0 then \<lparr>sec = 0, msec = 0\<rparr> else d"] conjI)
        (simp_all only: TIME_VAL_orders if_False, auto)
  qed
qed

theorem timer_poll_fires_due_witness:
  "\<exists>ht1 ht2 ns d ht'. schedule_entry demo_heap 2 \<lparr>sec = 9, msec = 0\<rparr> = Some (0, ht1)
     \<and> schedule_entry ht1 3 \<lparr>sec = 7, msec = 500\<rparr> = Some (0, ht2)
     \<and> timer_heap_poll (\<lambda>n. Some) \<lparr>sec = 8, msec = 0\<rparr> True ht2 = Some (ns, Some d, ht') \<and> 3 \<in> set ns \<and> 2 \<notin> set ns"
proof -
  obtain ht1 ht2 where 1: "schedule_entry demo_heap 2 \<lparr>sec = 9, msec = 0\<rparr> = Some (0, ht1)"
    "schedule_entry ht1 3 \<lparr>sec = 7, msec = 500\<rparr> = Some (0, ht2)" "timer_inv ht2" "mset (heap_nodes ht2) = {#2, 3#}"
    "max_entries_per_poll ht2 = 64" "tmn ht2 2 = \<lparr>sec = 9, msec = 0\<rparr>" "tmn ht2 3 = \<lparr>sec = 7, msec = 500\<rparr>" "cur_size ht2 \<noteq> 0"
    by (rule demo_scheduled)
  obtain ns d ht' where 2: "timer_heap_poll (\<lambda>n. Some) \<lparr>sec = 8, msec = 0\<rparr> True ht2 = Some (ns, Some d, ht')"
    "{#2, 3#} = mset ns + mset (heap_nodes ht')" "\<forall>n \<in> set ns. TIME_VAL_LTE (tmn ht2 n) \<lparr>sec = 8, msec = 0\<rparr>"
    "length ns < 64 \<longrightarrow> (\<forall>m \<in> set (heap_nodes ht'). TIME_VAL_GT (tmn ht2 m) \<lparr>sec = 8, msec = 0\<rparr>)"
    using timer_poll_fires_due [OF 1(3,8), of "\<lparr>sec = 8, msec = 0\<rparr>"] 1(4,5) by auto
  have "length ns < 64" using arg_cong [OF 2(2), of size] by simp
  then have "3 \<notin> set (heap_nodes ht')" "2 \<notin> set ns"
    using 2(3,4) 1(6,7) by (auto simp: time_val_less_eq less_le_not_le)
  moreover have "3 \<in># mset ns + mset (heap_nodes ht')" unfolding 2(2) [symmetric] by simp
  ultimately show ?thesis using 1(1,2) 2(1) by auto
qed

text \<open>
  C36. Polling with any callbacks that return and keep the invariant and the limit, so also callbacks that
  schedule and cancel timers: the poll returns, it calls at most the limit of entries, the invariant holds
  afterwards, and if fewer than the limit were called, no scheduled entry is due any more.
\<close>

theorem timer_poll_returns:
  assumes cb: "callback_ok (max_entries_per_poll ht) cb" and inv: "timer_inv ht"
  shows "\<exists>ns d ht'. timer_heap_poll cb now nd ht = Some (ns, d, ht') \<and> timer_inv ht'
    \<and> length ns \<le> max_entries_per_poll ht
    \<and> (length ns < max_entries_per_poll ht \<longrightarrow> (\<forall>m \<in> set (heap_nodes ht'). TIME_VAL_GT (tmn ht' m) now))"
proof -
  obtain ns ht' where 1: "poll_loop cb now 0 ht = Some (ns, ht')" "timer_inv ht'" "length ns \<le> max_entries_per_poll ht"
    "length ns = max_entries_per_poll ht \<or> (\<forall>m \<in> set (heap_nodes ht'). now < tmn ht' m)"
    using poll_loop_returns [OF cb inv refl, of 0 "max_entries_per_poll ht" now] by auto
  show ?thesis
  proof (cases "cur_size ht = 0 \<and> nd")
    case True
    then show ?thesis using inv heap_nodes_empty [OF inv] by (simp add: timer_heap_poll_def)
  next
    case False
    then have "\<exists>d. timer_heap_poll cb now nd ht = Some (ns, d, ht')"
      using 1(1) root_time [OF 1(2)] by (auto simp: timer_heap_poll_def Let_def)
    then show ?thesis using 1 by auto
  qed
qed

theorem timer_poll_returns_witness:
  "\<exists>ht1 ht2 ns d ht'. schedule_entry demo_heap 2 \<lparr>sec = 9, msec = 0\<rparr> = Some (0, ht1)
     \<and> schedule_entry ht1 3 \<lparr>sec = 7, msec = 500\<rparr> = Some (0, ht2)
     \<and> timer_heap_poll (\<lambda>n ht. map_option snd (schedule_entry ht n \<lparr>sec = 20, msec = 0\<rparr>)) \<lparr>sec = 8, msec = 0\<rparr> True ht2
       = Some (ns, d, ht') \<and> length ns \<le> 64"
proof -
  obtain ht1 ht2 where 1: "schedule_entry demo_heap 2 \<lparr>sec = 9, msec = 0\<rparr> = Some (0, ht1)"
    "schedule_entry ht1 3 \<lparr>sec = 7, msec = 500\<rparr> = Some (0, ht2)" "timer_inv ht2" "max_entries_per_poll ht2 = 64"
    by (rule demo_scheduled)
  have cb: "callback_ok 64 (\<lambda>n ht. map_option snd (schedule_entry ht n \<lparr>sec = 20, msec = 0\<rparr>))"
    unfolding callback_ok_def
  proof (intro allI impI; elim conjE)
    fix n ht e assume h: "timer_inv ht" "max_entries_per_poll ht = 64" "tents ht n = Some e" "te_timer_id e = -1"
    then have "te_timer_id e < 1" by simp
    with h(1,3) obtain ht' where "schedule_entry ht n \<lparr>sec = 20, msec = 0\<rparr> = Some (0, ht')" "timer_inv ht'"
      "max_entries_per_poll ht' = max_entries_per_poll ht"
      by (rule schedule_entry_ok)
    then show "\<exists>ht'. map_option snd (schedule_entry ht n \<lparr>sec = 20, msec = 0\<rparr>) = Some ht' \<and> timer_inv ht'
        \<and> max_entries_per_poll ht' = 64"
      using h(2) by simp
  qed
  obtain ns d ht' where "timer_heap_poll (\<lambda>n ht. map_option snd (schedule_entry ht n \<lparr>sec = 20, msec = 0\<rparr>)) \<lparr>sec = 8, msec = 0\<rparr> True ht2
       = Some (ns, d, ht')" "length ns \<le> 64"
    using timer_poll_returns [OF cb [folded 1(4)] 1(3), of "\<lparr>sec = 8, msec = 0\<rparr>" True] unfolding 1(4) by blast
  then show ?thesis using 1(1,2) by blast
qed

text \<open>
  The arithmetic of time values: normalizing keeps the total in milliseconds, brings the milliseconds
  below 1000 in absolute value and gives both parts the same sign; addition and subtraction are exact on
  totals.
\<close>

theorem time_val_arithmetic:
  "TIME_VAL_MSEC (time_val_normalize t) = TIME_VAL_MSEC t \<and> \<bar>msec (time_val_normalize t)\<bar> < 1000
   \<and> sec (time_val_normalize t) * msec (time_val_normalize t) \<ge> 0
   \<and> TIME_VAL_MSEC (TIME_VAL_ADD t u) = TIME_VAL_MSEC t + TIME_VAL_MSEC u
   \<and> TIME_VAL_MSEC (TIME_VAL_SUB t u) = TIME_VAL_MSEC t - TIME_VAL_MSEC u"
  unfolding TIME_VAL_ADD_def TIME_VAL_SUB_def normalize_cases(1)
  using normalize_cases(2,3) [of t] by (simp add: TIME_VAL_MSEC_def algebra_simps)

end
