(* ===== verification/FlexBuffer.thy ===== *)
theory FlexBuffer
  imports Prelude
begin

text \<open>
  The buffer of \<^verbatim>\<open>src/session/flex_buffer.h\<close>, which the handlers of a session hand to each other: a block
  with the data at an offset, so that headers can be put in front of the data and taken off again without
  copying it. Sizes are \<^verbatim>\<open>size_t\<close>; reading or writing outside the block is the value \<open>None\<close>.
\<close>

subsection \<open>The code\<close>

record FlexBuffer =
  fb_capacity :: nat
  fb_offset :: nat
  fb_size :: nat
  fb_buffer :: "u8 list"

definition FLEX_PADDING_LEN :: nat where "FLEX_PADDING_LEN = 128"
definition IOEX_MAX_USER_DATA_LEN :: nat where "IOEX_MAX_USER_DATA_LEN = 2048"

definition FLEX_BUFFER_MAX_LEN :: nat where
  "FLEX_BUFFER_MAX_LEN = FLEX_PADDING_LEN * 2 + IOEX_MAX_USER_DATA_LEN"

text \<open>
  The macro \<^verbatim>\<open>flex_buffer\<close> allocates a block on the stack, whose contents are arbitrary, here zeros; the
  macro \<^verbatim>\<open>flex_buffer_from\<close> also fills it.
\<close>

definition flex_buffer :: "nat \<Rightarrow> nat \<Rightarrow> FlexBuffer" where
  "flex_buffer capacity offset =
     \<lparr>fb_capacity = capacity, fb_offset = offset, fb_size = 0, fb_buffer = replicate capacity 0\<rparr>"

definition flex_buffer_from :: "nat \<Rightarrow> u8 list \<Rightarrow> nat \<Rightarrow> FlexBuffer option" where
  "flex_buffer_from offset src len =
     do {
       let capacity = size_add len offset;
       data \<leftarrow> mem_read src 0 len;
       b \<leftarrow> mem_write (replicate capacity 0) offset data;
       Some \<lparr>fb_capacity = capacity, fb_offset = offset, fb_size = len, fb_buffer = b\<rparr>
     }"

definition flex_buffer_init :: "u8 list \<Rightarrow> nat \<Rightarrow> nat \<Rightarrow> FlexBuffer" where
  "flex_buffer_init block capacity offset =
     \<lparr>fb_capacity = capacity, fb_offset = offset, fb_size = 0, fb_buffer = block\<rparr>"

definition flex_buffer_reset :: "FlexBuffer \<Rightarrow> nat \<Rightarrow> FlexBuffer" where
  "flex_buffer_reset buf offset = buf\<lparr>fb_offset := offset, fb_size := 0\<rparr>"

definition flex_buffer_offset :: "FlexBuffer \<Rightarrow> nat" where
  "flex_buffer_offset buf = fb_offset buf"

definition flex_buffer_available :: "FlexBuffer \<Rightarrow> nat" where
  "flex_buffer_available buf = size_sub (size_sub (fb_capacity buf) (fb_offset buf)) (fb_size buf)"

definition flex_buffer_size :: "FlexBuffer \<Rightarrow> nat" where
  "flex_buffer_size buf = fb_size buf"

definition flex_buffer_set_size :: "FlexBuffer \<Rightarrow> nat \<Rightarrow> FlexBuffer" where
  "flex_buffer_set_size buf n = buf\<lparr>fb_size := n\<rparr>"

definition flex_buffer_forward_offset :: "FlexBuffer \<Rightarrow> nat \<Rightarrow> FlexBuffer option" where
  "flex_buffer_forward_offset buf bytes =
     do {
       c_assert (size_add (fb_offset buf) bytes \<le> fb_capacity buf);
       Some (buf\<lparr>fb_offset := size_add (fb_offset buf) bytes, fb_size := size_sub (fb_size buf) bytes\<rparr>)
     }"

definition flex_buffer_backward_offset :: "FlexBuffer \<Rightarrow> nat \<Rightarrow> FlexBuffer option" where
  "flex_buffer_backward_offset buf bytes =
     do {
       c_assert (fb_offset buf \<ge> bytes);
       Some (buf\<lparr>fb_offset := fb_offset buf - bytes, fb_size := size_add (fb_size buf) bytes\<rparr>)
     }"

text \<open>Unlike the two functions below, this one copies from and to the start of the blocks.\<close>

definition flex_buffer_copy :: "FlexBuffer \<Rightarrow> FlexBuffer \<Rightarrow> FlexBuffer option" where
  "flex_buffer_copy dest src =
     do {
       let room = size_sub (fb_capacity dest) (fb_offset dest);
       let len = (if room > fb_size src then fb_size src else room);
       data \<leftarrow> mem_read (fb_buffer src) 0 len;
       b \<leftarrow> mem_write (fb_buffer dest) 0 data;
       Some (dest\<lparr>fb_buffer := b, fb_size := len\<rparr>)
     }"

definition flex_buffer_append2 :: "FlexBuffer \<Rightarrow> FlexBuffer \<Rightarrow> nat \<Rightarrow> FlexBuffer option" where
  "flex_buffer_append2 dest src n =
     do {
       let available = flex_buffer_available dest;
       let len = (if n < available then n else available);
       data \<leftarrow> mem_read (fb_buffer src) (fb_offset src) len;
       b \<leftarrow> mem_write (fb_buffer dest) (fb_offset dest + fb_size dest) data;
       Some (dest\<lparr>fb_buffer := b, fb_size := size_add (fb_size dest) len\<rparr>)
     }"

definition flex_buffer_append :: "FlexBuffer \<Rightarrow> FlexBuffer \<Rightarrow> FlexBuffer option" where
  "flex_buffer_append dest src =
     do {
       let available = flex_buffer_available dest;
       let len = (if fb_size src < available then fb_size src else available);
       data \<leftarrow> mem_read (fb_buffer src) (fb_offset src) len;
       b \<leftarrow> mem_write (fb_buffer dest) (fb_offset dest + fb_size dest) data;
       Some (dest\<lparr>fb_buffer := b, fb_size := size_add (fb_size dest) len\<rparr>)
     }"

text \<open>A store through \<^verbatim>\<open>flex_buffer_mutable_ptr\<close>, and the data at \<^verbatim>\<open>flex_buffer_ptr\<close>.\<close>

definition flex_buffer_write :: "FlexBuffer \<Rightarrow> u8 list \<Rightarrow> FlexBuffer option" where
  "flex_buffer_write buf bs = do { b \<leftarrow> mem_write (fb_buffer buf) (fb_offset buf) bs; Some (buf\<lparr>fb_buffer := b\<rparr>) }"

definition flex_payload :: "FlexBuffer \<Rightarrow> u8 list" where
  "flex_payload buf = take (fb_size buf) (drop (fb_offset buf) (fb_buffer buf))"

subsection \<open>Well-formed buffers\<close>

definition flex_ok :: "FlexBuffer \<Rightarrow> bool" where
  "flex_ok buf \<longleftrightarrow> fb_capacity buf = length (fb_buffer buf) \<and> fb_offset buf + fb_size buf \<le> fb_capacity buf
     \<and> fb_capacity buf < 2 ^ 62"

lemma flex_okD:
  assumes "flex_ok buf"
  shows "length (fb_buffer buf) = fb_capacity buf" "fb_offset buf + fb_size buf \<le> fb_capacity buf"
    "fb_capacity buf < 2 ^ 62" "length (flex_payload buf) = fb_size buf"
    "flex_buffer_available buf = fb_capacity buf - fb_offset buf - fb_size buf"
  using assms by (auto simp: flex_ok_def flex_payload_def flex_buffer_available_def size_sub_small)

lemma flex_payload_reset [simp]: "flex_payload (flex_buffer_reset buf k) = []"
  by (simp add: flex_payload_def flex_buffer_reset_def)

lemma flex_ok_reset: "flex_ok buf \<Longrightarrow> k \<le> fb_capacity buf \<Longrightarrow> flex_ok (flex_buffer_reset buf k)"
  by (simp add: flex_ok_def flex_buffer_reset_def)

lemma flex_buffer_new:
  assumes "offset \<le> capacity" "capacity < 2 ^ 62"
  shows "flex_ok (flex_buffer capacity offset)" "flex_payload (flex_buffer capacity offset) = []"
  using assms by (simp_all add: flex_ok_def flex_buffer_def flex_payload_def)

lemma flex_buffer_from_ok:
  assumes "offset + length src < 2 ^ 62"
  obtains b where "flex_buffer_from offset src (length src) = Some b" "flex_ok b" "flex_payload b = src"
    "fb_offset b = offset" "fb_size b = length src" "fb_capacity b = length src + offset"
proof -
  have "size_add (length src) offset = length src + offset" using assms by (simp add: size_add_small)
  then have "flex_buffer_from offset src (length src)
      = Some \<lparr>fb_capacity = length src + offset, fb_offset = offset, fb_size = length src, fb_buffer = replicate offset 0 @ src\<rparr>"
    by (simp add: flex_buffer_from_def mem_read_def mem_write_def blit_def Let_def)
  then show thesis
    by (rule that) (use assms in \<open>simp_all add: flex_ok_def flex_payload_def\<close>)
qed

lemma flex_forward_ok:
  assumes ok: "flex_ok buf" and n: "n \<le> fb_size buf"
  obtains b where "flex_buffer_forward_offset buf n = Some b" "flex_ok b" "flex_payload b = drop n (flex_payload buf)"
    "fb_size b = fb_size buf - n" "fb_capacity b = fb_capacity buf" "fb_offset b = fb_offset buf + n"
proof -
  note d = flex_okD [OF ok]
  have "size_add (fb_offset buf) n = fb_offset buf + n" "size_sub (fb_size buf) n = fb_size buf - n"
    using d n by (simp_all add: size_add_small size_sub_small)
  then show thesis
    using that d n by (simp add: flex_buffer_forward_offset_def flex_ok_def flex_payload_def drop_take add.commute)
qed

lemma flex_append2_ok:
  assumes d: "flex_ok dest" and s: "flex_ok src" and n: "n \<le> fb_size src"
  obtains b where "flex_buffer_append2 dest src n = Some b" "flex_ok b"
    "flex_payload b = flex_payload dest @ take (min n (flex_buffer_available dest)) (flex_payload src)"
    "fb_size b = fb_size dest + min n (flex_buffer_available dest)"
    "fb_offset b = fb_offset dest" "fb_capacity b = fb_capacity dest"
proof -
  note dd = flex_okD [OF d] and ds = flex_okD [OF s]
  define len where "len = min n (flex_buffer_available dest)"
  define data where "data = take len (drop (fb_offset src) (fb_buffer src))"
  have len: "len \<le> fb_size src" "fb_offset dest + fb_size dest + len \<le> fb_capacity dest"
    using n dd by (auto simp: len_def)
  have ld: "length data = len" and dp: "data = take len (flex_payload src)"
    using len ds by (auto simp: data_def flex_payload_def min_def)
  have rd: "mem_read (fb_buffer src) (fb_offset src) len = Some data"
    using len ds by (simp add: mem_read_def data_def)
  have wr: "mem_write (fb_buffer dest) (fb_offset dest + fb_size dest) data
      = Some (blit (fb_buffer dest) (fb_offset dest + fb_size dest) data)"
    using len dd ld by (simp add: mem_write_Some)
  let ?b = "dest\<lparr>fb_buffer := blit (fb_buffer dest) (fb_offset dest + fb_size dest) data, fb_size := fb_size dest + len\<rparr>"
  have sz: "size_add (fb_size dest) len = fb_size dest + len" using len dd by (simp add: size_add_small)
  have lm: "(if n < flex_buffer_available dest then n else flex_buffer_available dest) = len"
    by (simp add: len_def min_def)
  have run: "flex_buffer_append2 dest src n = Some ?b"
    unfolding flex_buffer_append2_def Let_def lm using rd wr sz by simp
  have lenb: "length (blit (fb_buffer dest) (fb_offset dest + fb_size dest) data) = fb_capacity dest"
    using len dd ld by simp
  have "flex_payload ?b = flex_payload dest @ data"
    using len dd ld by (auto simp: flex_payload_def blit_def min_def take_drop add.commute)
  moreover have "flex_ok ?b" using len dd lenb by (simp add: flex_ok_def)
  ultimately show thesis
    by (intro that [OF run]) (simp_all add: dp len_def)
qed

lemma flex_append_ok:
  assumes d: "flex_ok dest" and s: "flex_ok src"
  obtains b where "flex_buffer_append dest src = Some b" "flex_ok b"
    "flex_payload b = flex_payload dest @ take (flex_buffer_available dest) (flex_payload src)"
    "fb_size b = fb_size dest + min (fb_size src) (flex_buffer_available dest)"
    "fb_offset b = fb_offset dest" "fb_capacity b = fb_capacity dest"
proof -
  have "flex_buffer_append dest src = flex_buffer_append2 dest src (fb_size src)"
    by (simp add: flex_buffer_append_def flex_buffer_append2_def)
  moreover have "take (min (fb_size src) k) (flex_payload src) = take k (flex_payload src)" for k
    using flex_okD(4) [OF s] by (simp add: min_def)
  ultimately show thesis
    using flex_append2_ok [OF d s order_refl] that by metis
qed

text \<open>Putting a header in front of the data.\<close>

lemma flex_prepend_ok:
  assumes ok: "flex_ok buf" and h: "length hdr = n" "n \<le> fb_offset buf"
  obtains b c where "flex_buffer_backward_offset buf n = Some b" "flex_buffer_write b hdr = Some c" "flex_ok c"
    "flex_payload c = hdr @ flex_payload buf" "fb_size c = fb_size buf + n" "fb_offset c = fb_offset buf - n"
    "fb_capacity c = fb_capacity buf"
proof -
  note d = flex_okD [OF ok]
  let ?b = "buf\<lparr>fb_offset := fb_offset buf - n, fb_size := fb_size buf + n\<rparr>"
  let ?c = "?b\<lparr>fb_buffer := blit (fb_buffer buf) (fb_offset buf - n) hdr\<rparr>"
  have b: "flex_buffer_backward_offset buf n = Some ?b"
    using d h by (simp add: flex_buffer_backward_offset_def size_add_small)
  have c: "flex_buffer_write ?b hdr = Some ?c"
    using d h by (simp add: flex_buffer_write_def mem_write_Some)
  have "flex_payload ?c = hdr @ flex_payload buf"
    using d h by (auto simp: flex_payload_def blit_def min_def take_drop add.commute)
  moreover have "flex_ok ?c" using d h by (simp add: flex_ok_def)
  ultimately show thesis
    by (intro that [OF b c]) simp_all
qed

subsection \<open>Properties\<close>

text \<open>
  A header that is put in front of the data (moving the offset back and writing at the new start) leaves
  header and data next to each other, and moving the offset forward by its length gives back exactly the
  data: packing and unpacking by two layers are inverse.
\<close>

theorem flex_header_roundtrip:
  assumes "flex_ok buf" and "length hdr = n" "n \<le> fb_offset buf"
  shows "\<exists>b c d. flex_buffer_backward_offset buf n = Some b \<and> flex_buffer_write b hdr = Some c
    \<and> flex_payload c = hdr @ flex_payload buf \<and> flex_buffer_size c = n + flex_buffer_size buf
    \<and> flex_buffer_forward_offset c n = Some d \<and> flex_payload d = flex_payload buf
    \<and> flex_buffer_offset d = flex_buffer_offset buf \<and> flex_buffer_size d = flex_buffer_size buf"
proof -
  obtain b c where 1: "flex_buffer_backward_offset buf n = Some b" "flex_buffer_write b hdr = Some c" "flex_ok c"
    "flex_payload c = hdr @ flex_payload buf" "fb_size c = fb_size buf + n" "fb_offset c = fb_offset buf - n"
    "fb_capacity c = fb_capacity buf"
    using flex_prepend_ok [OF assms] .
  have "n \<le> fb_size c" using 1(5) by simp
  from flex_forward_ok [OF 1(3) this] obtain d where 2: "flex_buffer_forward_offset c n = Some d" "flex_ok d"
    "flex_payload d = drop n (flex_payload c)" "fb_size d = fb_size c - n" "fb_capacity d = fb_capacity c"
    "fb_offset d = fb_offset c + n" .
  show ?thesis
    using 1(1,2,4,5,6) 2(1,3,4,6) assms(2,3) by (simp add: flex_buffer_size_def flex_buffer_offset_def)
qed

definition demo_flex :: FlexBuffer where
  "demo_flex = \<lparr>fb_capacity = 6, fb_offset = 3, fb_size = 2, fb_buffer = [9, 9, 9, 1, 2, 9]\<rparr>"

lemma demo_flex_ok: "flex_ok demo_flex" "flex_payload demo_flex = [1, 2]" "fb_offset demo_flex = 3"
  by (simp_all add: demo_flex_def flex_ok_def flex_payload_def)

theorem flex_header_roundtrip_witness:
  "\<exists>b c d. flex_buffer_backward_offset demo_flex 2 = Some b \<and> flex_buffer_write b [7, 8] = Some c
    \<and> flex_payload c = [7, 8, 1, 2] \<and> flex_buffer_forward_offset c 2 = Some d \<and> flex_payload d = [1, 2]"
proof -
  have "length [7, 8 :: u8] = 2" "2 \<le> fb_offset demo_flex" by (simp_all add: demo_flex_ok)
  from flex_header_roundtrip [OF demo_flex_ok(1) this] show ?thesis
    unfolding demo_flex_ok(2) append.simps by blast
qed

text \<open>
  \<^verbatim>\<open>flex_buffer_copy\<close> copies the data only between buffers without headroom: with both offsets 0 the
  copy holds the data, up to the room in the destination; but since the code ignores the offsets, a buffer
  with headroom is copied wrongly: from the data \<open>[1, 2]\<close> behind three bytes of headroom it makes a copy that
  does not hold that data.
\<close>

theorem flex_buffer_copy_ignores_offset:
  "(\<forall>dest src. flex_ok dest \<and> flex_ok src \<and> fb_offset dest = 0 \<and> fb_offset src = 0 \<longrightarrow>
      (\<exists>b. flex_buffer_copy dest src = Some b \<and> flex_payload b = take (fb_capacity dest) (flex_payload src)))
   \<and> (\<exists>src dest b. flex_ok src \<and> flex_ok dest \<and> flex_payload src = [1, 2]
      \<and> flex_buffer_copy dest src = Some b \<and> flex_payload b = [9, 9])"
proof (intro conjI allI impI; (elim conjE)?)
  fix dest src assume h: "flex_ok dest" "flex_ok src" "fb_offset dest = 0" "fb_offset src = 0"
  note d = flex_okD [OF h(1)] and s = flex_okD [OF h(2)]
  define len where "len = (if fb_capacity dest > fb_size src then fb_size src else fb_capacity dest)"
  have "size_sub (fb_capacity dest) 0 = fb_capacity dest" using d by (simp add: size_sub_small)
  moreover have "mem_read (fb_buffer src) 0 len = Some (take len (fb_buffer src))"
    using s by (simp add: mem_read_def len_def)
  moreover have "length (take len (fb_buffer src)) = len" using s by (simp add: len_def)
  moreover from this have "mem_write (fb_buffer dest) 0 (take len (fb_buffer src)) = Some (blit (fb_buffer dest) 0 (take len (fb_buffer src)))"
    using d by (simp add: mem_write_Some len_def)
  ultimately have "flex_buffer_copy dest src = Some (dest\<lparr>fb_buffer := blit (fb_buffer dest) 0 (take len (fb_buffer src)), fb_size := len\<rparr>)"
    using h by (simp add: flex_buffer_copy_def Let_def len_def [symmetric])
  moreover have "take len (blit (fb_buffer dest) 0 (take len (fb_buffer src))) = take (fb_capacity dest) (flex_payload src)"
    using s h(4) by (simp add: blit_def flex_payload_def len_def min_def)
  ultimately show "\<exists>b. flex_buffer_copy dest src = Some b \<and> flex_payload b = take (fb_capacity dest) (flex_payload src)"
    using h(3) by (simp add: flex_payload_def)
next
  have "flex_ok (flex_buffer 8 0)" by (rule flex_buffer_new) simp_all
  moreover have "size_sub 8 0 = 8" by (simp add: size_sub_small)
  then have "flex_buffer_copy (flex_buffer 8 0) demo_flex
      = Some \<lparr>fb_capacity = 8, fb_offset = 0, fb_size = 2, fb_buffer = [9, 9, 0, 0, 0, 0, 0, 0]\<rparr>"
    by (simp add: flex_buffer_copy_def flex_buffer_def demo_flex_def mem_read_def mem_write_def blit_def Let_def) (simp add: numeral_eq_Suc)
  moreover have "flex_payload \<lparr>fb_capacity = 8, fb_offset = 0, fb_size = 2, fb_buffer = [9, 9, 0, 0, 0, 0, 0, 0]\<rparr> = [9, 9]"
    by (simp add: flex_payload_def)
  ultimately show "\<exists>src dest b. flex_ok src \<and> flex_ok dest \<and> flex_payload src = [1, 2]
      \<and> flex_buffer_copy dest src = Some b \<and> flex_payload b = [9, 9]"
    using demo_flex_ok by blast
qed

theorem flex_buffer_copy_ignores_offset_witness:
  "\<exists>b. flex_buffer_copy (flex_buffer 4 0) (flex_buffer 3 0) = Some b \<and> flex_payload b = []"
proof -
  have "flex_ok (flex_buffer 4 0)" "flex_ok (flex_buffer 3 0)" "flex_payload (flex_buffer 3 0) = []"
    by (simp_all add: flex_buffer_new)
  moreover have "fb_offset (flex_buffer n 0) = 0" for n by (simp add: flex_buffer_def)
  ultimately show ?thesis
    using conjunct1 [OF flex_buffer_copy_ignores_offset, rule_format, of "flex_buffer 4 0" "flex_buffer 3 0"] by simp
qed

end
