(* ===== verification/Errors.thy ===== *)
theory Errors
  imports Prelude
begin

text \<open>
  Error codes of the carrier interface and C strings. The codes are negative numbers of 32 bits that carry a
  facility; the codes used here are far below \<open>2 ^ 24\<close>, so that the macro \<^verbatim>\<open>IOEX_MK_ERROR\<close> adds them. The
  variable \<^verbatim>\<open>IOEX_error\<close> of the thread is a field of the states that set it, or a result.
\<close>

definition IOEX_GENERAL_ERROR :: "int \<Rightarrow> int" where
  "IOEX_GENERAL_ERROR code = - (2 ^ 31) + 2 ^ 24 + code"

definition IOEX_SYS_ERROR :: "int \<Rightarrow> int" where
  "IOEX_SYS_ERROR code = - (2 ^ 31) + 2 * 2 ^ 24 + code"

definition IOEX_DHT_ERROR :: "int \<Rightarrow> int" where
  "IOEX_DHT_ERROR code = - (2 ^ 31) + 6 * 2 ^ 24 + code"

definition IOEXERR_INVALID_ARGS :: int where "IOEXERR_INVALID_ARGS = 0x01"
definition IOEXERR_OUT_OF_MEMORY :: int where "IOEXERR_OUT_OF_MEMORY = 0x02"
definition IOEXERR_BUFFER_TOO_SMALL :: int where "IOEXERR_BUFFER_TOO_SMALL = 0x03"
definition IOEXERR_BAD_PERSISTENT_DATA :: int where "IOEXERR_BAD_PERSISTENT_DATA = 0x04"
definition IOEXERR_NOT_READY :: int where "IOEXERR_NOT_READY = 0x0A"
definition IOEXERR_NOT_EXIST :: int where "IOEXERR_NOT_EXIST = 0x0B"
definition IOEXERR_ALREADY_EXIST :: int where "IOEXERR_ALREADY_EXIST = 0x0C"
definition IOEXERR_NO_MATCHED_REQUEST :: int where "IOEXERR_NO_MATCHED_REQUEST = 0x0D"
definition IOEXERR_WRONG_STATE :: int where "IOEXERR_WRONG_STATE = 0x12"
definition IOEXERR_LIMIT_EXCEEDED :: int where "IOEXERR_LIMIT_EXCEEDED = 0x19"
definition IOEXERR_PORT_ALLOC :: int where "IOEXERR_PORT_ALLOC = 0x1A"
definition IOEXERR_BAD_PROXY_TYPE :: int where "IOEXERR_BAD_PROXY_TYPE = 0x1B"
definition IOEXERR_BAD_PROXY_HOST :: int where "IOEXERR_BAD_PROXY_HOST = 0x1C"
definition IOEXERR_BAD_PROXY_PORT :: int where "IOEXERR_BAD_PROXY_PORT = 0x1D"
definition IOEXERR_PROXY_NOT_AVAILABLE :: int where "IOEXERR_PROXY_NOT_AVAILABLE = 0x1E"
definition IOEXERR_ENCRYPTED_PERSISTENT_DATA :: int where "IOEXERR_ENCRYPTED_PERSISTENT_DATA = 0x1F"
definition IOEXERR_BAD_BOOTSTRAP_HOST :: int where "IOEXERR_BAD_BOOTSTRAP_HOST = 0x20"
definition IOEXERR_BAD_BOOTSTRAP_PORT :: int where "IOEXERR_BAD_BOOTSTRAP_PORT = 0x21"
definition IOEXERR_TOO_LONG :: int where "IOEXERR_TOO_LONG = 0x22"
definition IOEXERR_ADD_SELF :: int where "IOEXERR_ADD_SELF = 0x23"
definition IOEXERR_BAD_ADDRESS :: int where "IOEXERR_BAD_ADDRESS = 0x24"
definition IOEXERR_FRIEND_OFFLINE :: int where "IOEXERR_FRIEND_OFFLINE = 0x25"
definition IOEXERR_FILE_DENY :: int where "IOEXERR_FILE_DENY = 0x26"
definition IOEXERR_FILE_INVALID :: int where "IOEXERR_FILE_INVALID = 0x27"
definition IOEXERR_FILE_TRACKER_INVALID :: int where "IOEXERR_FILE_TRACKER_INVALID = 0x29"
definition IOEXERR_UNKNOWN :: int where "IOEXERR_UNKNOWN = 0xFF"

lemmas error_codes = IOEX_GENERAL_ERROR_def IOEX_SYS_ERROR_def IOEXERR_INVALID_ARGS_def IOEXERR_OUT_OF_MEMORY_def IOEXERR_BUFFER_TOO_SMALL_def IOEXERR_NOT_READY_def
  IOEXERR_NOT_EXIST_def IOEXERR_ALREADY_EXIST_def IOEXERR_NO_MATCHED_REQUEST_def IOEXERR_WRONG_STATE_def
  IOEXERR_LIMIT_EXCEEDED_def IOEXERR_FILE_DENY_def IOEXERR_FILE_INVALID_def IOEXERR_FILE_TRACKER_INVALID_def
  IOEX_DHT_ERROR_def IOEXERR_BAD_PERSISTENT_DATA_def IOEXERR_PORT_ALLOC_def IOEXERR_BAD_PROXY_TYPE_def IOEXERR_BAD_PROXY_HOST_def
  IOEXERR_BAD_PROXY_PORT_def IOEXERR_PROXY_NOT_AVAILABLE_def IOEXERR_ENCRYPTED_PERSISTENT_DATA_def IOEXERR_BAD_BOOTSTRAP_HOST_def
  IOEXERR_BAD_BOOTSTRAP_PORT_def IOEXERR_TOO_LONG_def IOEXERR_ADD_SELF_def IOEXERR_BAD_ADDRESS_def IOEXERR_FRIEND_OFFLINE_def
  IOEXERR_UNKNOWN_def

definition UINT32_MAX :: u32 where "UINT32_MAX = 0xffffffff"

subsection \<open>C strings\<close>

text \<open>
  A C string is the list of its characters without the terminating zero. \<open>strcpy_into size s\<close> is \<^verbatim>\<open>strcpy\<close> of
  \<open>s\<close> into an array of \<open>size\<close> characters: undefined when it does not fit.
\<close>

type_synonym cstring = "u8 list"

definition is_cstring :: "cstring \<Rightarrow> bool" where "is_cstring s \<longleftrightarrow> 0 \<notin> set s"

definition strcpy_into :: "nat \<Rightarrow> cstring \<Rightarrow> cstring option" where
  "strcpy_into size_dst s = (if length s < size_dst then Some s else None)"

lemma strcpy_into_Some [fault_simps]: "length s < n \<Longrightarrow> strcpy_into n s = Some s"
  by (simp add: strcpy_into_def)

lemma strcpy_into_eq_Some [simp]: "strcpy_into n s = Some t \<longleftrightarrow> length s < n \<and> t = s"
  by (auto simp: strcpy_into_def)

end
