(* ===== verification/Multiplex.thy ===== *)
theory Multiplex
  imports FlexBuffer Bytes HashTable IdsHeap Errors
begin

text \<open>
  The multiplexer of \<^verbatim>\<open>src/session/multiplex_handler.c\<close> with the channel table of \<^verbatim>\<open>channels.h\<close>: many
  channels over one stream. It is composed from the models of the hash table (the table of channels), the
  identifier allocator and the flexible buffer. Channels are reference-counted objects in a store; the
  counts are those of the hash table's model.

  What the handler calls is a parameter: the next handler's \<^verbatim>\<open>write\<close>, the callbacks that accept a channel or
  data, and the clock, each of which may answer depending on everything that has happened so far. What the
  handler does to the outside is the list of events \<open>mh_trace\<close>. Callbacks do not call back into the
  multiplexer. Memory allocation succeeds.
\<close>

subsection \<open>Data\<close>

record timeval =
  tv_sec :: int
  tv_usec :: int

datatype ChannelType = ChannelType_User | ChannelType_UDP_PortForwarding | ChannelType_TCP_PortForwarding

datatype ChannelStatus = ChannelStatus_Opening | ChannelStatus_Open | ChannelStatus_Pending | ChannelStatus_Closing

datatype CloseReason = CloseReason_Normal | CloseReason_Timeout | CloseReason_Error

definition PacketType_ChannelOpen :: u8 where "PacketType_ChannelOpen = 1"
definition PacketType_ChannelOpenConfirmation :: u8 where "PacketType_ChannelOpenConfirmation = 2"
definition PacketType_ChannelData :: u8 where "PacketType_ChannelData = 3"
definition PacketType_ChannelKeepAlive :: u8 where "PacketType_ChannelKeepAlive = 4"
definition PacketType_ChannelPending :: u8 where "PacketType_ChannelPending = 5"
definition PacketType_ChannelResume :: u8 where "PacketType_ChannelResume = 6"
definition PacketType_ChannelClose :: u8 where "PacketType_ChannelClose = 7"

lemmas packet_types = PacketType_ChannelOpen_def PacketType_ChannelOpenConfirmation_def PacketType_ChannelData_def
  PacketType_ChannelKeepAlive_def PacketType_ChannelPending_def PacketType_ChannelResume_def PacketType_ChannelClose_def

definition KEEPALIVE_INTERVAL :: int where "KEEPALIVE_INTERVAL = 30000"
definition KEEPALIVE_TIMEOUT_INTERVAL :: int where "KEEPALIVE_TIMEOUT_INTERVAL = 130000"
definition PROTOCOL_HEAD_LEN :: nat where "PROTOCOL_HEAD_LEN = 8"
definition MAX_CHANNEL_ID :: int where "MAX_CHANNEL_ID = 2048"

record Channel =
  ch_id :: u16
  ch_remote_id :: u16
  ch_type :: ChannelType
  ch_status :: ChannelStatus
  ch_local_timestamp :: timeval
  ch_remote_timestamp :: timeval
  ch_last_activity :: timeval
  ch_timeout :: int

datatype mux_event =
    Wrote "u8 list"
  | Base_data "u8 list"
  | Open_asked u16 "u8 list option"
  | Opened u16
  | Closed u16 CloseReason
  | Data u16 "u8 list"
  | Pended u16
  | Resumed u16
  | State_changed int
  | Next_started
  | Next_stopped int
  | Timer_created int
  | Timer_destroyed
  | Worker_started
  | Worker_stopped

record mux_env =
  me_shl1 :: "nat \<Rightarrow> u64"
  me_write :: "mux_event list \<Rightarrow> u8 list \<Rightarrow> int"
  me_channel_open :: "mux_event list \<Rightarrow> u16 \<Rightarrow> u8 list option \<Rightarrow> bool"
  me_channel_data :: "mux_event list \<Rightarrow> u16 \<Rightarrow> u8 list \<Rightarrow> bool"
  me_now :: timeval
  me_next_start :: int
  me_create_timer :: int
  me_worker_start :: int

record MultiplexHandler =
  mh_reliable :: bool
  mh_worker :: bool
  mh_timer :: bool
  mh_portforwarding :: bool
  mh_channels :: Hashtable
  mh_chans :: "nat \<Rightarrow> Channel option"
  mh_fresh :: nat
  mh_ids :: IdsHeap
  mh_incomplete :: FlexBuffer
  mh_trace :: "mux_event list"

definition emit_mux :: "mux_event \<Rightarrow> MultiplexHandler \<Rightarrow> MultiplexHandler" where
  "emit_mux e h = h\<lparr>mh_trace := mh_trace h @ [e]\<rparr>"

definition chan_upd :: "nat \<Rightarrow> (Channel \<Rightarrow> Channel) \<Rightarrow> MultiplexHandler \<Rightarrow> MultiplexHandler option" where
  "chan_upd a f h = do { c \<leftarrow> mh_chans h a; Some (h\<lparr>mh_chans := (mh_chans h)(a \<mapsto> f c)\<rparr>) }"

subsection \<open>The table of channels\<close>

text \<open>
  The key of a channel is its identifier, cast to a pointer; the identifier 0 is the null pointer, the empty
  key of the hash table's model.
\<close>

definition chan_key :: "u32 \<Rightarrow> u8 list" where
  "chan_key c = (if c = 0 then [] else be32 c)"

definition channels_hash_code :: "u8 list \<Rightarrow> u32" where
  "channels_hash_code key = (if key = [] then 0 else get32 key 0)"

definition channels_key_compare :: "u8 list \<Rightarrow> u8 list \<Rightarrow> int" where
  "channels_key_compare key1 key2 = (if key1 \<noteq> key2 then 1 else 0)"

definition channels_create :: "nat \<Rightarrow> Hashtable" where
  "channels_create capacity =
     hashtable_create capacity (Some channels_hash_code) (Some channels_key_compare) (\<lambda>_. None) (\<lambda>_. 0)"

definition channels_put :: "nat \<Rightarrow> MultiplexHandler \<Rightarrow> MultiplexHandler option" where
  "channels_put a h =
     do {
       c \<leftarrow> mh_chans h a;
       let t = mh_channels h;
       let t1 = t\<lparr>ht_ents := (ht_ents t)(a \<mapsto> \<lparr>he_key = chan_key (ucast (ch_id c)), he_data = a, he_hash_code = 0\<rparr>)\<rparr>;
       (_, t2) \<leftarrow> hashtable_put t1 a;
       Some (h\<lparr>mh_channels := t2\<rparr>)
     }"

definition channels_get :: "u32 \<Rightarrow> MultiplexHandler \<Rightarrow> (nat option \<times> MultiplexHandler) option" where
  "channels_get c h =
     do {
       (r, t) \<leftarrow> hashtable_get (mh_channels h) (chan_key c);
       Some (r, h\<lparr>mh_channels := t\<rparr>)
     }"

text \<open>\<^verbatim>\<open>deref\<close> of a channel, with its destructor \<^verbatim>\<open>channel_destroy\<close> when the last reference is gone.\<close>

definition channel_destroy :: "mux_env \<Rightarrow> nat \<Rightarrow> MultiplexHandler \<Rightarrow> MultiplexHandler option" where
  "channel_destroy env a h =
     do {
       c \<leftarrow> mh_chans h a;
       if ch_id c \<noteq> 0 then do {
         (_, ids) \<leftarrow> ids_heap_free (me_shl1 env) 0 (mh_ids h) (uint (ch_id c));
         Some (h\<lparr>mh_ids := ids\<rparr>)
       }
       else Some h
     }"

definition channel_deref :: "mux_env \<Rightarrow> nat \<Rightarrow> MultiplexHandler \<Rightarrow> MultiplexHandler option" where
  "channel_deref env a h =
     do {
       _ \<leftarrow> mh_chans h a;
       let h1 = h\<lparr>mh_channels := ht_deref a (mh_channels h)\<rparr>;
       if ht_refs (mh_channels h1) a > 0 then Some h1
       else do {
         h2 \<leftarrow> channel_destroy env a h1;
         Some (h2\<lparr>mh_chans := (mh_chans h2)(a := None)\<rparr>)
       }
     }"

definition channels_remove :: "mux_env \<Rightarrow> u32 \<Rightarrow> MultiplexHandler \<Rightarrow> MultiplexHandler option" where
  "channels_remove env c h =
     do {
       (r, t) \<leftarrow> hashtable_remove (mh_channels h) (chan_key c);
       let h1 = h\<lparr>mh_channels := t\<rparr>;
       case r of None \<Rightarrow> Some h1 | Some a \<Rightarrow> channel_deref env a h1
     }"

subsection \<open>Packets\<close>

definition protocol_head :: "u8 \<Rightarrow> u8 \<Rightarrow> u16 \<Rightarrow> u16 \<Rightarrow> u16 \<Rightarrow> u8 list" where
  "protocol_head ptype option local_channel_id remote_channel_id payload_len =
     [ptype, option] @ be16 local_channel_id @ be16 remote_channel_id @ be16 payload_len"

text \<open>Returns the result, the caller's buffer with the header in front, and the handler.\<close>

definition multiplex_handler_send_packet :: "mux_env \<Rightarrow> u8 \<Rightarrow> u8 \<Rightarrow> u16 \<Rightarrow> u16 \<Rightarrow> FlexBuffer option \<Rightarrow> MultiplexHandler
    \<Rightarrow> (int \<times> FlexBuffer \<times> MultiplexHandler) option" where
  "multiplex_handler_send_packet env ptype option local_channel_id remote_channel_id buf0 h =
     do {
       c_assert (ptype \<ge> PacketType_ChannelOpen \<and> ptype \<le> PacketType_ChannelClose);
       let buf = (case buf0 of Some b \<Rightarrow> b | None \<Rightarrow> flex_buffer FLEX_PADDING_LEN FLEX_PADDING_LEN);
       let len = flex_buffer_size buf;
       buf1 \<leftarrow> flex_buffer_backward_offset buf PROTOCOL_HEAD_LEN;
       buf2 \<leftarrow> flex_buffer_write buf1
                 (protocol_head ptype option remote_channel_id local_channel_id (word_of_nat len));
       let sent = me_write env (mh_trace h) (flex_payload buf2);
       let h1 = emit_mux (Wrote (flex_payload buf2)) h;
       Some (if sent < 0 then sent else int len, buf2, h1)
     }"

definition update_remote_timestamp :: "mux_env \<Rightarrow> nat \<Rightarrow> MultiplexHandler \<Rightarrow> MultiplexHandler option" where
  "update_remote_timestamp env a h =
     chan_upd a (\<lambda>c. c\<lparr>ch_remote_timestamp := me_now env, ch_last_activity := me_now env\<rparr>) h"

definition zero_time :: timeval where "zero_time = \<lparr>tv_sec = 0, tv_usec = 0\<rparr>"

text \<open>\<^verbatim>\<open>rc_zalloc\<close> of a channel.\<close>

definition channel_alloc :: "MultiplexHandler \<Rightarrow> nat \<times> MultiplexHandler" where
  "channel_alloc h =
     (let a = mh_fresh h in
      (a, h\<lparr>mh_fresh := a + 1,
            mh_chans := (mh_chans h)(a \<mapsto> \<lparr>ch_id = 0, ch_remote_id = 0, ch_type = ChannelType_User,
              ch_status = ChannelStatus_Opening, ch_local_timestamp = zero_time, ch_remote_timestamp = zero_time,
              ch_last_activity = zero_time, ch_timeout = 0\<rparr>),
            mh_channels := (mh_channels h)\<lparr>ht_refs := (ht_refs (mh_channels h))(a := 1)\<rparr>\<rparr>))"

fun channel_type_of :: "u8 \<Rightarrow> ChannelType option" where
  "channel_type_of opt =
     (if opt = 0 then Some ChannelType_User
      else if opt = 1 then Some ChannelType_UDP_PortForwarding
      else if opt = 2 then Some ChannelType_TCP_PortForwarding else None)"

fun channel_type_code :: "ChannelType \<Rightarrow> u8" where
  "channel_type_code ChannelType_User = 0"
| "channel_type_code ChannelType_UDP_PortForwarding = 1"
| "channel_type_code ChannelType_TCP_PortForwarding = 2"

text \<open>
  The first part of \<^verbatim>\<open>multiplex_handler_notify_packet\<close> for a request to open a channel: the new channel, or
  \<open>None\<close> when the request is ignored or refused. The refusal for want of identifiers is addressed with the
  remote identifier of the fresh channel, which is still 0.
\<close>

definition incoming_channel :: "mux_env \<Rightarrow> u8 \<Rightarrow> u16 \<Rightarrow> MultiplexHandler \<Rightarrow> (nat option \<times> MultiplexHandler) option" where
  "incoming_channel env opt remote_channel_id h =
     (case channel_type_of opt of
        None \<Rightarrow> Some (None, h)
      | Some ty \<Rightarrow>
          if (ty = ChannelType_UDP_PortForwarding \<and> \<not> mh_worker h)
             \<or> (ty = ChannelType_TCP_PortForwarding \<and> (\<not> mh_worker h \<or> \<not> mh_reliable h))
          then Some (None, h)
          else do {
            let (a, h1) = channel_alloc h;
            (cid, ids) \<leftarrow> ids_heap_alloc 0 (mh_ids h1);
            let h2 = h1\<lparr>mh_ids := ids\<rparr>;
            if cid < 0 then do {
              c \<leftarrow> mh_chans h2 a;
              (_, _, h3) \<leftarrow> multiplex_handler_send_packet env PacketType_ChannelOpenConfirmation 0 0 (ch_remote_id c) None h2;
              h4 \<leftarrow> channel_deref env a h3;
              Some (None, h4)
            }
            else do {
              h3 \<leftarrow> chan_upd a (\<lambda>c. c\<lparr>ch_type := ty, ch_id := word_of_int cid, ch_remote_id := remote_channel_id,
                                         ch_status := ChannelStatus_Opening\<rparr>) h2;
              h4 \<leftarrow> update_remote_timestamp env a h3;
              h5 \<leftarrow> channels_put a h4;
              Some (Some a, h5)
            }
          })"

text \<open>The cases of the switch in \<^verbatim>\<open>multiplex_handler_notify_packet\<close>, for the channel at address \<open>a\<close>.\<close>

definition packet_open :: "mux_env \<Rightarrow> nat \<Rightarrow> u8 list \<Rightarrow> MultiplexHandler \<Rightarrow> MultiplexHandler option" where
  "packet_open env a payload h =
     do {
       c \<leftarrow> mh_chans h a;
       let cookie = (if payload = [] then None else Some payload);
       let ok = me_channel_open env (mh_trace h) (ch_id c) cookie;
       let h1 = emit_mux (Open_asked (ch_id c) cookie) h;
       let cid = (if ok then ch_id c else 0);
       (rc, _, h2) \<leftarrow> multiplex_handler_send_packet env PacketType_ChannelOpenConfirmation 0 cid (ch_remote_id c) None h1;
       h3 \<leftarrow> (if \<not> ok \<or> rc < 0 then
                channels_remove env (ucast (ch_id c)) (if ok then emit_mux (Closed (ch_id c) CloseReason_Error) h2 else h2)
              else do {
                b \<leftarrow> chan_upd a (\<lambda>c. c\<lparr>ch_status := ChannelStatus_Open\<rparr>) h2;
                update_remote_timestamp env a (emit_mux (Opened (ch_id c)) b)
              });
       channel_deref env a h3
     }"

definition packet_confirm :: "mux_env \<Rightarrow> nat \<Rightarrow> u16 \<Rightarrow> MultiplexHandler \<Rightarrow> MultiplexHandler option" where
  "packet_confirm env a remote_channel_id h =
     do {
       c \<leftarrow> mh_chans h a;
       if ch_status c \<noteq> ChannelStatus_Opening then channel_deref env a h
       else do {
         h1 \<leftarrow> (if remote_channel_id \<noteq> 0 then do {
                  b \<leftarrow> chan_upd a (\<lambda>c. c\<lparr>ch_status := ChannelStatus_Open, ch_remote_id := remote_channel_id\<rparr>) h;
                  update_remote_timestamp env a (emit_mux (Opened (ch_id c)) b)
                }
                else channels_remove env (ucast (ch_id c)) (emit_mux (Closed (ch_id c) CloseReason_Error) h));
         channel_deref env a h1
       }
     }"

definition packet_data :: "mux_env \<Rightarrow> nat \<Rightarrow> u8 list \<Rightarrow> MultiplexHandler \<Rightarrow> MultiplexHandler option" where
  "packet_data env a payload h =
     do {
       c \<leftarrow> mh_chans h a;
       if ch_status c \<noteq> ChannelStatus_Pending \<and> ch_status c \<noteq> ChannelStatus_Open then channel_deref env a h
       else do {
         let ok = me_channel_data env (mh_trace h) (ch_id c) payload;
         let h1 = emit_mux (Data (ch_id c) payload) h;
         h2 \<leftarrow> (if \<not> ok then
                  channels_remove env (ucast (ch_id c)) (emit_mux (Closed (ch_id c) CloseReason_Error) h1)
                else update_remote_timestamp env a h1);
         channel_deref env a h2
       }
     }"

definition packet_keep_alive :: "mux_env \<Rightarrow> nat \<Rightarrow> MultiplexHandler \<Rightarrow> MultiplexHandler option" where
  "packet_keep_alive env a h =
     do {
       h1 \<leftarrow> chan_upd a (\<lambda>c. c\<lparr>ch_remote_timestamp := me_now env\<rparr>) h;
       channel_deref env a h1
     }"

definition packet_pending :: "mux_env \<Rightarrow> nat \<Rightarrow> MultiplexHandler \<Rightarrow> MultiplexHandler option" where
  "packet_pending env a h =
     do {
       c \<leftarrow> mh_chans h a;
       if ch_status c \<noteq> ChannelStatus_Open then channel_deref env a h
       else do {
         h1 \<leftarrow> chan_upd a (\<lambda>c. c\<lparr>ch_status := ChannelStatus_Pending\<rparr>) h;
         h2 \<leftarrow> update_remote_timestamp env a (emit_mux (Pended (ch_id c)) h1);
         channel_deref env a h2
       }
     }"

definition packet_resume :: "mux_env \<Rightarrow> nat \<Rightarrow> MultiplexHandler \<Rightarrow> MultiplexHandler option" where
  "packet_resume env a h =
     do {
       c \<leftarrow> mh_chans h a;
       if ch_status c \<noteq> ChannelStatus_Pending then channel_deref env a h
       else do {
         h1 \<leftarrow> chan_upd a (\<lambda>c. c\<lparr>ch_status := ChannelStatus_Open\<rparr>) h;
         h2 \<leftarrow> update_remote_timestamp env a (emit_mux (Resumed (ch_id c)) h1);
         channel_deref env a h2
       }
     }"

definition packet_close :: "mux_env \<Rightarrow> nat \<Rightarrow> MultiplexHandler \<Rightarrow> MultiplexHandler option" where
  "packet_close env a h =
     do {
       c \<leftarrow> mh_chans h a;
       h1 \<leftarrow> channels_remove env (ucast (ch_id c)) (emit_mux (Closed (ch_id c) CloseReason_Normal) h);
       channel_deref env a h1
     }"

definition packet_dispatch :: "mux_env \<Rightarrow> nat \<Rightarrow> u8 \<Rightarrow> u16 \<Rightarrow> u8 list \<Rightarrow> MultiplexHandler \<Rightarrow> MultiplexHandler option" where
  "packet_dispatch env a ptype remote_channel_id payload h =
     (if ptype = PacketType_ChannelOpen then packet_open env a payload h
      else if ptype = PacketType_ChannelOpenConfirmation then packet_confirm env a remote_channel_id h
      else if ptype = PacketType_ChannelData then packet_data env a payload h
      else if ptype = PacketType_ChannelKeepAlive then packet_keep_alive env a h
      else if ptype = PacketType_ChannelPending then packet_pending env a h
      else if ptype = PacketType_ChannelResume then packet_resume env a h
      else if ptype = PacketType_ChannelClose then packet_close env a h
      else channel_deref env a h)"

text \<open>
  The packet in the buffer, which the caller does not use afterwards. The trace message indexes the array of
  the eight names of packet types with the type that was received.
\<close>

definition multiplex_handler_notify_packet :: "mux_env \<Rightarrow> FlexBuffer \<Rightarrow> MultiplexHandler \<Rightarrow> MultiplexHandler option" where
  "multiplex_handler_notify_packet env buf h =
     do {
       c_assert (flex_buffer_size buf \<ge> PROTOCOL_HEAD_LEN);
       let bytes = flex_payload buf;
       let ptype = bytes ! 0;
       let local_channel_id = get16 bytes 2;
       let remote_channel_id = get16 bytes 4;
       let payload_len = unat (get16 bytes 6);
       if flex_buffer_size buf \<noteq> payload_len + PROTOCOL_HEAD_LEN then Some h
       else if remote_channel_id = 0 \<and> local_channel_id = 0 \<and> ptype = PacketType_ChannelData then do {
         buf1 \<leftarrow> flex_buffer_forward_offset buf PROTOCOL_HEAD_LEN;
         Some (emit_mux (Base_data (flex_payload buf1)) h)
       }
       else do {
         c_assert (unat ptype < 8);
         (r, h1) \<leftarrow> (if ptype = PacketType_ChannelOpen then incoming_channel env (bytes ! 1) remote_channel_id h
                       else channels_get (ucast local_channel_id) h);
         case r of
           None \<Rightarrow> Some h1
         | Some a \<Rightarrow> do {
             buf1 \<leftarrow> flex_buffer_forward_offset buf PROTOCOL_HEAD_LEN;
             packet_dispatch env a ptype remote_channel_id (flex_payload buf1) h1
           }
       }
     }"

text \<open>Reassembly of packets from a stream. The loop is written as it stands; that it ends is shown below.\<close>

partial_function (option) multiplex_handler_notify_data :: "mux_env \<Rightarrow> FlexBuffer \<Rightarrow> MultiplexHandler
    \<Rightarrow> MultiplexHandler option" where
  "multiplex_handler_notify_data env buf h =
     (if flex_buffer_size buf = 0 then Some h
      else if flex_buffer_size (mh_incomplete h) + flex_buffer_size buf < PROTOCOL_HEAD_LEN then do {
        inc \<leftarrow> flex_buffer_append (mh_incomplete h) buf;
        Some (h\<lparr>mh_incomplete := inc\<rparr>)
      }
      else do {
        (inc1, buf1) \<leftarrow>
          (if flex_buffer_size (mh_incomplete h) < PROTOCOL_HEAD_LEN then do {
             let append = PROTOCOL_HEAD_LEN - flex_buffer_size (mh_incomplete h);
             inc \<leftarrow> flex_buffer_append2 (mh_incomplete h) buf append;
             b \<leftarrow> flex_buffer_forward_offset buf append;
             Some (inc, b)
           } else Some (mh_incomplete h, buf));
        let payload_len = unat (get16 (flex_payload inc1) 6);
        if payload_len + PROTOCOL_HEAD_LEN > flex_buffer_size inc1 + flex_buffer_size buf1 then do {
          inc \<leftarrow> flex_buffer_append inc1 buf1;
          Some (h\<lparr>mh_incomplete := inc\<rparr>)
        }
        else do {
          (inc2, buf2) \<leftarrow>
            (if payload_len + PROTOCOL_HEAD_LEN > flex_buffer_size inc1 then do {
               let append = payload_len + PROTOCOL_HEAD_LEN - flex_buffer_size inc1;
               inc \<leftarrow> flex_buffer_append2 inc1 buf1 append;
               b \<leftarrow> flex_buffer_forward_offset buf1 append;
               Some (inc, b)
             } else Some (inc1, buf1));
          h1 \<leftarrow> multiplex_handler_notify_packet env inc2 h;
          multiplex_handler_notify_data env buf2 (h1\<lparr>mh_incomplete := flex_buffer_reset inc2 FLEX_PADDING_LEN\<rparr>)
        }
      })"

subsection \<open>Closing all channels\<close>

text \<open>
  The loop over an iterator of the table; the label \<^verbatim>\<open>reclose\<close> starts it again after a conflicting change.
\<close>

partial_function (option) close_channels_loop :: "mux_env \<Rightarrow> CloseReason \<Rightarrow> HashtableIterator_i \<Rightarrow> MultiplexHandler
    \<Rightarrow> MultiplexHandler option" where
  "close_channels_loop env reason it h =
     (if \<not> hashtable_iterator_has_next it then Some h
      else do {
        (rc, kd, it1, t1) \<leftarrow> hashtable_iterator_next it (mh_channels h);
        if rc = 0 then Some h
        else if rc = -1 then close_channels_loop env reason (hashtable_iterate (mh_channels h)) h
        else do {
          (_, a) \<leftarrow> kd;
          (rc2, it2, t2) \<leftarrow> hashtable_iterator_remove it1 t1;
          let h1 = h\<lparr>mh_channels := t2\<rparr>;
          c \<leftarrow> mh_chans h1 a;
          h2 \<leftarrow> channel_deref env a (emit_mux (Closed (ch_id c) reason) h1);
          close_channels_loop env reason it2 h2
        }
      })"

definition multiplex_handler_close_channels :: "mux_env \<Rightarrow> CloseReason \<Rightarrow> MultiplexHandler \<Rightarrow> MultiplexHandler option" where
  "multiplex_handler_close_channels env reason h =
     close_channels_loop env reason (hashtable_iterate (mh_channels h)) h"

subsection \<open>The interface for channels\<close>

definition multiplex_handler_open_channel :: "mux_env \<Rightarrow> ChannelType \<Rightarrow> u8 list option \<Rightarrow> int \<Rightarrow> MultiplexHandler
    \<Rightarrow> (int \<times> MultiplexHandler) option" where
  "multiplex_handler_open_channel env ty cookie timeout h =
     do {
       c_assert (ty = ChannelType_User \<or> mh_portforwarding h);
       c_assert (ty = ChannelType_TCP_PortForwarding \<longrightarrow> mh_reliable h);
       let (a, h1) = channel_alloc h;
       (cid, ids) \<leftarrow> ids_heap_alloc 0 (mh_ids h1);
       let h2 = h1\<lparr>mh_ids := ids\<rparr>;
       if cid < 0 then do {
         h3 \<leftarrow> channel_deref env a h2;
         Some (IOEX_GENERAL_ERROR IOEXERR_LIMIT_EXCEEDED, h3)
       }
       else do {
         h3 \<leftarrow> chan_upd a (\<lambda>c. c\<lparr>ch_type := ty, ch_id := word_of_int cid, ch_remote_id := 0,
                                    ch_status := ChannelStatus_Opening, ch_timeout := timeout\<rparr>) h2;
         h4 \<leftarrow> update_remote_timestamp env a h3;
         h5 \<leftarrow> channels_put a h4;
         buf \<leftarrow> (case cookie of
                   None \<Rightarrow> Some None
                 | Some ck \<Rightarrow> do { b \<leftarrow> flex_buffer_from FLEX_PADDING_LEN (ck @ [0]) (length ck + 1); Some (Some b) });
         c \<leftarrow> mh_chans h5 a;
         (rc, _, h6) \<leftarrow> multiplex_handler_send_packet env PacketType_ChannelOpen (channel_type_code ty)
                          (ch_id c) (ch_remote_id c) buf h5;
         h7 \<leftarrow> channel_deref env a h6;
         if rc < 0 then do {
           h8 \<leftarrow> channels_remove env (word_of_int cid) h7;
           Some (rc, h8)
         }
         else Some (cid, h7)
       }
     }"

definition multiplex_handler_close_channel :: "mux_env \<Rightarrow> int \<Rightarrow> MultiplexHandler \<Rightarrow> (int \<times> MultiplexHandler) option" where
  "multiplex_handler_close_channel env cid h =
     do {
       c_assert (cid > 0);
       (r, h1) \<leftarrow> channels_get (word_of_int cid) h;
       case r of
         None \<Rightarrow> Some (IOEX_GENERAL_ERROR IOEXERR_NOT_EXIST, h1)
       | Some a \<Rightarrow> do {
           c \<leftarrow> mh_chans h1 a;
           h2 \<leftarrow> (if ch_remote_id c \<noteq> 0 then do {
                    (_, _, b) \<leftarrow> multiplex_handler_send_packet env PacketType_ChannelClose 0 (ch_id c) (ch_remote_id c) None h1;
                    Some b
                  } else Some h1);
           h3 \<leftarrow> channels_remove env (word_of_int cid) (emit_mux (Closed (ch_id c) CloseReason_Normal) h2);
           h4 \<leftarrow> channel_deref env a h3;
           Some (0, h4)
         }
     }"

definition touch_local :: "mux_env \<Rightarrow> nat \<Rightarrow> MultiplexHandler \<Rightarrow> MultiplexHandler option" where
  "touch_local env a h = chan_upd a (\<lambda>c. c\<lparr>ch_local_timestamp := me_now env, ch_last_activity := me_now env\<rparr>) h"

definition multiplex_handler_write_channel :: "mux_env \<Rightarrow> int \<Rightarrow> FlexBuffer \<Rightarrow> MultiplexHandler
    \<Rightarrow> (int \<times> MultiplexHandler) option" where
  "multiplex_handler_write_channel env cid buf h =
     do {
       c_assert (cid \<ge> 0);
       if cid = 0 then do {
         (rc, _, h1) \<leftarrow> multiplex_handler_send_packet env PacketType_ChannelData 0 0 0 (Some buf) h;
         Some (rc, h1)
       }
       else do {
         (r, h1) \<leftarrow> channels_get (word_of_int cid) h;
         case r of
           None \<Rightarrow> Some (IOEX_GENERAL_ERROR IOEXERR_NOT_EXIST, h1)
         | Some a \<Rightarrow> do {
             c \<leftarrow> mh_chans h1 a;
             if (ch_status c \<noteq> ChannelStatus_Open \<and> ch_status c \<noteq> ChannelStatus_Pending) \<or> ch_remote_id c = 0 then do {
               h2 \<leftarrow> channel_deref env a h1;
               Some (IOEX_GENERAL_ERROR IOEXERR_WRONG_STATE, h2)
             }
             else do {
               (rc, _, h2) \<leftarrow> multiplex_handler_send_packet env PacketType_ChannelData 0 (ch_id c) (ch_remote_id c) (Some buf) h1;
               h3 \<leftarrow> (if rc \<ge> 0 then touch_local env a h2 else Some h2);
               h4 \<leftarrow> channel_deref env a h3;
               Some (rc, h4)
             }
           }
       }
     }"

text \<open>\<^verbatim>\<open>multiplex_handler_pend_channel\<close> and \<^verbatim>\<open>multiplex_handler_resume_channel\<close> differ in the packet only.\<close>

definition channel_signal :: "mux_env \<Rightarrow> u8 \<Rightarrow> int \<Rightarrow> MultiplexHandler \<Rightarrow> (int \<times> MultiplexHandler) option" where
  "channel_signal env ptype cid h =
     do {
       c_assert (cid > 0);
       (r, h1) \<leftarrow> channels_get (word_of_int cid) h;
       case r of
         None \<Rightarrow> Some (IOEX_GENERAL_ERROR IOEXERR_NOT_EXIST, h1)
       | Some a \<Rightarrow> do {
           c \<leftarrow> mh_chans h1 a;
           if (ch_status c \<noteq> ChannelStatus_Open \<and> ch_status c \<noteq> ChannelStatus_Pending) \<or> ch_remote_id c = 0 then do {
             h2 \<leftarrow> channel_deref env a h1;
             Some (IOEX_GENERAL_ERROR IOEXERR_WRONG_STATE, h2)
           }
           else do {
             (rc, _, h2) \<leftarrow> multiplex_handler_send_packet env ptype 0 (ch_id c) (ch_remote_id c) None h1;
             h3 \<leftarrow> (if rc = 0 then touch_local env a h2 else Some h2);
             h4 \<leftarrow> channel_deref env a h3;
             Some (rc, h4)
           }
         }
     }"

definition multiplex_handler_pend_channel :: "mux_env \<Rightarrow> int \<Rightarrow> MultiplexHandler \<Rightarrow> (int \<times> MultiplexHandler) option" where
  "multiplex_handler_pend_channel env cid h = channel_signal env PacketType_ChannelPending cid h"

definition multiplex_handler_resume_channel :: "mux_env \<Rightarrow> int \<Rightarrow> MultiplexHandler \<Rightarrow> (int \<times> MultiplexHandler) option" where
  "multiplex_handler_resume_channel env cid h = channel_signal env PacketType_ChannelResume cid h"

subsection \<open>Timeouts\<close>

text \<open>Division of C, which rounds towards zero.\<close>

definition c_div :: "int \<Rightarrow> int \<Rightarrow> int" where
  "c_div a b = sgn a * sgn b * (\<bar>a\<bar> div \<bar>b\<bar>)"

text \<open>
  The differences are cast to \<^verbatim>\<open>int\<close>, which keeps their low 32 bits. The local time stamp of a channel is 0
  until something is written to it, so its distance from now does not fit and the cast matters.
\<close>

definition to_int32 :: "int \<Rightarrow> int" where
  "to_int32 x = sint (word_of_int x :: u32)"

definition interval_ms :: "timeval \<Rightarrow> timeval \<Rightarrow> int" where
  "interval_ms now t =
     to_int32 (to_int32 ((tv_sec now - tv_sec t) * 1000) + to_int32 (c_div (tv_usec now - tv_usec t) 1000))"

partial_function (option) checkpoint_loop :: "mux_env \<Rightarrow> HashtableIterator_i \<Rightarrow> MultiplexHandler
    \<Rightarrow> MultiplexHandler option" where
  "checkpoint_loop env it h =
     (if \<not> hashtable_iterator_has_next it then Some h
      else do {
        (rc, kd, it1, t1) \<leftarrow> hashtable_iterator_next it (mh_channels h);
        if rc = 0 then Some h
        else if rc = -1 then checkpoint_loop env (hashtable_iterate (mh_channels h)) h
        else do {
          (_, a) \<leftarrow> kd;
          let h1 = h\<lparr>mh_channels := t1\<rparr>;
          c \<leftarrow> mh_chans h1 a;
          if (ch_timeout c \<noteq> 0 \<and> interval_ms (me_now env) (ch_last_activity c) \<ge> to_int32 (ch_timeout c * 1000))
             \<or> interval_ms (me_now env) (ch_remote_timestamp c) \<ge> KEEPALIVE_TIMEOUT_INTERVAL
          then do {
            let h2 = emit_mux (Closed (ch_id c) CloseReason_Timeout) h1;
            (_, it2, t2) \<leftarrow> hashtable_iterator_remove it1 (mh_channels h2);
            h3 \<leftarrow> channel_deref env a (h2\<lparr>mh_channels := t2\<rparr>);
            checkpoint_loop env it2 h3
          }
          else do {
            h2 \<leftarrow> (if interval_ms (me_now env) (ch_local_timestamp c) \<ge> KEEPALIVE_INTERVAL then do {
                     (rc2, _, b) \<leftarrow> multiplex_handler_send_packet env PacketType_ChannelKeepAlive 0 (ch_id c) (ch_remote_id c) None h1;
                     if rc2 = 0 then chan_upd a (\<lambda>c. c\<lparr>ch_local_timestamp := me_now env\<rparr>) b else Some b
                   } else Some h1);
            h3 \<leftarrow> channel_deref env a h2;
            checkpoint_loop env it1 h3
          }
        }
      })"

definition multiplex_handler_checkpoint :: "mux_env \<Rightarrow> MultiplexHandler \<Rightarrow> MultiplexHandler option" where
  "multiplex_handler_checkpoint env h = checkpoint_loop env (hashtable_iterate (mh_channels h)) h"

subsection \<open>The handler in its chain\<close>

text \<open>
  Starting: what the next handler, the creation of the timer and the worker for port forwarding return is
  part of the environment. A timer exists after \<^verbatim>\<open>create_timer\<close> returned no error.
\<close>

definition multiplex_handler_create_timer :: "mux_env \<Rightarrow> int \<Rightarrow> MultiplexHandler \<Rightarrow> int \<times> MultiplexHandler" where
  "multiplex_handler_create_timer env interval h =
     (me_create_timer env,
      emit_mux (Timer_created interval) (if me_create_timer env < 0 then h else h\<lparr>mh_timer := True\<rparr>))"

definition multiplex_handler_destroy_timer :: "MultiplexHandler \<Rightarrow> MultiplexHandler" where
  "multiplex_handler_destroy_timer h =
     (if \<not> mh_timer h then h else (emit_mux Timer_destroyed h)\<lparr>mh_timer := False\<rparr>)"

definition multiplex_handler_start :: "mux_env \<Rightarrow> MultiplexHandler \<Rightarrow> int \<times> MultiplexHandler" where
  "multiplex_handler_start env h =
     (let h1 = emit_mux Next_started h; rc1 = me_next_start env in
      if rc1 \<noteq> 0 then (rc1, h1)
      else
        let (rc2, h2) = (if \<not> mh_reliable h1 then multiplex_handler_create_timer env KEEPALIVE_INTERVAL h1 else (rc1, h1)) in
        if rc2 < 0 then (rc2, h2)
        else if mh_worker h2 then
          let h3 = emit_mux Worker_started h2; rc3 = me_worker_start env in
          if rc3 < 0 then (rc3, h3) else (0, h3)
        else (0, h2))"

definition multiplex_handler_stop :: "mux_env \<Rightarrow> int \<Rightarrow> MultiplexHandler \<Rightarrow> MultiplexHandler option" where
  "multiplex_handler_stop env error h =
     do {
       h1 \<leftarrow> multiplex_handler_close_channels env CloseReason_Normal h;
       let h2 = multiplex_handler_destroy_timer h1;
       let h3 = (if mh_worker h2 then emit_mux Worker_stopped h2 else h2);
       Some (emit_mux (Next_stopped error) h3)
     }"

definition multiplex_handler_write :: "mux_env \<Rightarrow> FlexBuffer \<Rightarrow> MultiplexHandler \<Rightarrow> (int \<times> MultiplexHandler) option" where
  "multiplex_handler_write env buf h = multiplex_handler_write_channel env 0 buf h"

definition multiplex_handler_on_data :: "mux_env \<Rightarrow> FlexBuffer \<Rightarrow> MultiplexHandler \<Rightarrow> MultiplexHandler option" where
  "multiplex_handler_on_data env buf h =
     (if mh_reliable h
      then do { c_assert (flex_buffer_size buf \<noteq> 0); multiplex_handler_notify_data env buf h }
      else multiplex_handler_notify_packet env buf h)"

definition IOEXStreamState_closed :: int where "IOEXStreamState_closed = 6"

definition multiplex_handler_on_state_changed :: "mux_env \<Rightarrow> int \<Rightarrow> MultiplexHandler \<Rightarrow> MultiplexHandler option" where
  "multiplex_handler_on_state_changed env st h =
     do {
       h1 \<leftarrow> (if st \<ge> IOEXStreamState_closed then
                multiplex_handler_close_channels env
                  (if st = IOEXStreamState_closed then CloseReason_Normal else CloseReason_Error) h
              else Some h);
       Some (emit_mux (State_changed st) h1)
     }"

text \<open>
  \<^verbatim>\<open>multiplex_handler_create\<close>, when every allocation and the mutex of the identifier heap succeed; the block
  behind the handler is zeroed.
\<close>

definition multiplex_handler_create :: "bool \<Rightarrow> bool \<Rightarrow> MultiplexHandler option" where
  "multiplex_handler_create reliable portforwarding =
     do {
       let ids0 = \<lparr>latest_index = 0, max_index = 0,
                   bitset_ids = \<lparr>bs_size = 0, bs_bits = replicate (word_count (nat MAX_CHANNEL_ID)) 0\<rparr>\<rparr>;
       (rc, ids) \<leftarrow> ids_heap_init 0 ids0 MAX_CHANNEL_ID;
       Some \<lparr>mh_reliable = reliable, mh_worker = portforwarding, mh_timer = False, mh_portforwarding = portforwarding,
             mh_channels = channels_create 256, mh_chans = (\<lambda>_. None), mh_fresh = 0, mh_ids = ids,
             mh_incomplete = (if reliable
               then flex_buffer_init (replicate FLEX_BUFFER_MAX_LEN 0) FLEX_BUFFER_MAX_LEN FLEX_PADDING_LEN
               else \<lparr>fb_capacity = 0, fb_offset = 0, fb_size = 0, fb_buffer = []\<rparr>),
             mh_trace = []\<rparr>
     }"

end
