(* ===== verification/MultiplexInv.thy ===== *)
theory MultiplexInv
  imports Multiplex
begin

text \<open>
  The invariant of the multiplexer at rest: the table, the store of channels with their reference counts and
  the allocated identifiers agree. Code that runs holds a further reference to the channel it works on
  (\<open>hold\<close>); the lemmas take it through the operations until it is dropped again.
\<close>

subsection \<open>The invariant\<close>

abbreviation slots :: "MultiplexHandler \<Rightarrow> nat list" where
  "slots h \<equiv> ht_lst (mh_channels h)"

definition chan_id_of :: "MultiplexHandler \<Rightarrow> nat \<Rightarrow> u16" where
  "chan_id_of h a = (case mh_chans h a of Some c \<Rightarrow> ch_id c | None \<Rightarrow> 0)"

definition mux_ok :: "MultiplexHandler \<Rightarrow> bool" where
  "mux_ok h \<longleftrightarrow> ht_ok (mh_channels h) \<and> ids_ok (mh_ids h) \<and> max_index (mh_ids h) = MAX_CHANNEL_ID
     \<and> contents (mh_channels h) = map (\<lambda>a. (chan_key (ucast (chan_id_of h a)), a)) (slots h)
     \<and> dom (mh_chans h) = set (slots h)
     \<and> (\<forall>a \<in> set (slots h). chan_id_of h a \<noteq> 0 \<and> a < mh_fresh h \<and> ht_refs (mh_channels h) a = 1
          \<and> uint (chan_id_of h a) \<in> live_ids (mh_ids h))"

lemma mux_okD:
  assumes "mux_ok h"
  shows "ht_ok (mh_channels h)" "ids_ok (mh_ids h)" "max_index (mh_ids h) = MAX_CHANNEL_ID"
    "contents (mh_channels h) = map (\<lambda>a. (chan_key (ucast (chan_id_of h a)), a)) (slots h)"
    "dom (mh_chans h) = set (slots h)"
    "a \<in> set (slots h) \<Longrightarrow> chan_id_of h a \<noteq> 0" "a \<in> set (slots h) \<Longrightarrow> a < mh_fresh h"
    "a \<in> set (slots h) \<Longrightarrow> ht_refs (mh_channels h) a = 1"
    "a \<in> set (slots h) \<Longrightarrow> uint (chan_id_of h a) \<in> live_ids (mh_ids h)"
  using assms unfolding mux_ok_def by blast+

text \<open>The channel with an identifier, as a lookup finds it.\<close>

definition channel_at :: "MultiplexHandler \<Rightarrow> u16 \<Rightarrow> Channel option" where
  "channel_at h i =
     (case map_of (contents (mh_channels h)) (chan_key (ucast i)) of None \<Rightarrow> None | Some a \<Rightarrow> mh_chans h a)"

lemma be32_inject [simp]: "be32 x = be32 y \<longleftrightarrow> x = y"
  by (metis get32_be32)

lemma chan_key_inject: "chan_key x = chan_key y \<longleftrightarrow> x = y"
proof -
  have "be32 w \<noteq> []" for w by (metis length_be32 length_0_conv zero_neq_numeral)
  then show ?thesis by (auto simp: chan_key_def dest: sym)
qed

lemma chan_key_Nil: "chan_key x = [] \<longleftrightarrow> x = 0"
  using chan_key_inject [of x 0] by (simp add: chan_key_def)

lemma ucast16_inject [simp]: "(ucast (x :: u16) :: u32) = ucast y \<longleftrightarrow> x = y"
proof
  assume "(ucast x :: u32) = ucast y"
  then have "uint (ucast x :: u32) = uint (ucast y :: u32)" by simp
  then show "x = y"
    by (intro word_uint_eqI) (simp add: unsigned_ucast_eq take_bit_int_eq_self order_less_trans [OF uint_lt2p])
qed simp

lemma ucast16_0 [simp]: "(ucast (x :: u16) :: u32) = 0 \<longleftrightarrow> x = 0"
  using ucast16_inject [of x 0] by simp

lemma map_of_slots:
  assumes ok: "mux_ok h"
  shows "map_of (contents (mh_channels h)) (chan_key k) = Some a
    \<longleftrightarrow> a \<in> set (slots h) \<and> ucast (chan_id_of h a) = k"
proof -
  have d: "distinct (map fst (contents (mh_channels h)))"
    using ht_okD(5) [OF mux_okD(1) [OF ok]] by (simp add: contents_entries)
  show ?thesis
    unfolding map_of_eq_Some_iff [OF d] by (auto simp: mux_okD(4) [OF ok] chan_key_inject)
qed

lemma chan_id_inj:
  assumes ok: "mux_ok h" and "a \<in> set (slots h)" "b \<in> set (slots h)" "chan_id_of h a = chan_id_of h b"
  shows "a = b"
  using map_of_slots [OF ok, of "ucast (chan_id_of h a)" a] map_of_slots [OF ok, of "ucast (chan_id_of h a)" b] assms
  by simp

lemma channel_at_iff:
  assumes ok: "mux_ok h"
  shows "channel_at h i = Some c \<longleftrightarrow> (\<exists>a. mh_chans h a = Some c \<and> ch_id c = i)"
proof -
  have "mh_chans h a = Some c \<Longrightarrow> a \<in> set (slots h)" for a using mux_okD(5) [OF ok] by blast
  then show ?thesis
    using map_of_slots [OF ok, of "ucast i"]
    by (cases "map_of (contents (mh_channels h)) (chan_key (ucast i))")
      (force simp: channel_at_def chan_id_of_def)+
qed

lemma channel_at_None:
  assumes ok: "mux_ok h" and "channel_at h i = None"
  shows "map_of (contents (mh_channels h)) (chan_key (ucast i)) = None"
  using map_of_slots [OF ok, of "ucast i"] mux_okD(5) [OF ok] assms(2)
  by (auto simp: channel_at_def split: option.splits)

lemma stored:
  assumes ok: "mux_ok h" and c: "mh_chans h a = Some c"
  shows "a \<in> set (slots h)" "ch_id c \<noteq> 0" "chan_id_of h a = ch_id c" "a < mh_fresh h"
    "ht_refs (mh_channels h) a = 1" "uint (ch_id c) \<in> live_ids (mh_ids h)" "channel_at h (ch_id c) = Some c"
proof -
  show a: "a \<in> set (slots h)" using mux_okD(5) [OF ok] c by blast
  show i: "chan_id_of h a = ch_id c" using c by (simp add: chan_id_of_def)
  show "ch_id c \<noteq> 0" "a < mh_fresh h" "ht_refs (mh_channels h) a = 1" "uint (ch_id c) \<in> live_ids (mh_ids h)"
    using mux_okD(6-9) [OF ok a] i by auto
  show "channel_at h (ch_id c) = Some c" using channel_at_iff [OF ok] c by blast
qed

lemma channel_at_0: "mux_ok h \<Longrightarrow> channel_at h 0 = None"
  using channel_at_iff [of h 0] stored(2) by (cases "channel_at h 0") auto

lemma channel_at_id: "mux_ok h \<Longrightarrow> channel_at h i = Some c \<Longrightarrow> ch_id c = i \<and> i \<noteq> 0"
  using stored(2) by (auto simp: channel_at_iff)

text \<open>The settings of a handler.\<close>

definition mux_mode :: "MultiplexHandler \<Rightarrow> bool \<times> bool \<times> bool" where
  "mux_mode h = (mh_reliable h, mh_worker h, mh_portforwarding h)"

subsection \<open>Holding a reference\<close>

named_theorems hold_simps \<open>operations commute with a held reference\<close>

definition hold :: "nat \<Rightarrow> MultiplexHandler \<Rightarrow> MultiplexHandler" where
  "hold a h = h\<lparr>mh_channels := ht_ref a (mh_channels h)\<rparr>"

lemma hold_fields [simp]:
  "mh_chans (hold a h) = mh_chans h" "mh_trace (hold a h) = mh_trace h" "mh_ids (hold a h) = mh_ids h"
  "mh_fresh (hold a h) = mh_fresh h" "mh_channels (hold a h) = ht_ref a (mh_channels h)"
  "mux_mode (hold a h) = mux_mode h"
  by (simp_all add: hold_def mux_mode_def)

lemma hold_emit [hold_simps]: "emit_mux e (hold a h) = hold a (emit_mux e h)"
  by (simp add: emit_mux_def hold_def)

lemma hold_chan_upd [hold_simps]: "chan_upd a f (hold b h) = map_option (hold b) (chan_upd a f h)"
  by (cases "mh_chans h a") (simp_all add: chan_upd_def hold_def)

lemma hold_update_remote_timestamp [hold_simps]:
  "update_remote_timestamp env a (hold b h) = map_option (hold b) (update_remote_timestamp env a h)"
  by (simp add: update_remote_timestamp_def hold_simps)

lemma hold_touch_local [hold_simps]: "touch_local env a (hold b h) = map_option (hold b) (touch_local env a h)"
  by (simp add: touch_local_def hold_simps)

lemma hold_send_packet [hold_simps]:
  "multiplex_handler_send_packet env t opt l r buf (hold b h)
   = map_option (apsnd (apsnd (hold b))) (multiplex_handler_send_packet env t opt l r buf h)"
  by (simp add: multiplex_handler_send_packet_def hold_simps map_option_bind comp_def Let_def)

lemma release:
  assumes "mux_ok h" and "mh_chans h a = Some c"
  shows "channel_deref env a (hold a h) = Some h"
  using assms(2) stored(5) [OF assms] by (simp add: channel_deref_def hold_def)

lemma channels_get_found:
  assumes ok: "mux_ok h" and c: "mh_chans h a = Some c"
  shows "channels_get (ucast (ch_id c)) h = Some (Some a, hold a h)"
proof -
  have "map_of (contents (mh_channels h)) (chan_key (ucast (ch_id c))) = Some a"
    using map_of_slots [OF ok] stored [OF ok c] by simp
  then show ?thesis
    using hashtable_get_spec [OF mux_okD(1) [OF ok]] stored(2) [OF ok c]
    by (simp add: channels_get_def chan_key_Nil hold_def)
qed

lemma channels_get_missing:
  assumes ok: "mux_ok h" and "k \<noteq> 0" and "\<And>a c. mh_chans h a = Some c \<Longrightarrow> ucast (ch_id c) \<noteq> k"
  shows "channels_get k h = Some (None, h)"
proof -
  have "map_of (contents (mh_channels h)) (chan_key k) = None"
    using map_of_slots [OF ok, of k] mux_okD(5) [OF ok] assms(3)
    by (cases "map_of (contents (mh_channels h)) (chan_key k)") (force simp: chan_id_of_def)+
  then show ?thesis
    using hashtable_get_spec [OF mux_okD(1) [OF ok]] assms(2) by (simp add: channels_get_def chan_key_Nil)
qed

subsection \<open>Changing a channel\<close>

lemma mux_ok_emit [simp]: "mux_ok (emit_mux e h) = mux_ok h"
  by (simp add: mux_ok_def emit_mux_def chan_id_of_def)

lemma emit_fields [simp]:
  "mh_chans (emit_mux e h) = mh_chans h" "mh_channels (emit_mux e h) = mh_channels h" "mh_ids (emit_mux e h) = mh_ids h"
  "mh_fresh (emit_mux e h) = mh_fresh h" "mh_trace (emit_mux e h) = mh_trace h @ [e]" "channel_at (emit_mux e h) = channel_at h"
  "mux_mode (emit_mux e h) = mux_mode h"
  by (simp_all add: emit_mux_def mux_mode_def channel_at_def fun_eq_iff cong: option.case_cong)

definition set_chan :: "nat \<Rightarrow> Channel \<Rightarrow> MultiplexHandler \<Rightarrow> MultiplexHandler" where
  "set_chan a c h = h\<lparr>mh_chans := (mh_chans h)(a \<mapsto> c)\<rparr>"

lemma set_chan_fields [simp]:
  "mh_chans (set_chan a c h) = (mh_chans h)(a \<mapsto> c)" "mh_channels (set_chan a c h) = mh_channels h"
  "mh_ids (set_chan a c h) = mh_ids h" "mh_fresh (set_chan a c h) = mh_fresh h" "mh_trace (set_chan a c h) = mh_trace h"
  "mux_mode (set_chan a c h) = mux_mode h"
  by (simp_all add: set_chan_def mux_mode_def)

lemma chan_upd_Some: "mh_chans h a = Some c \<Longrightarrow> chan_upd a f h = Some (set_chan a (f c) h)"
  by (simp add: chan_upd_def set_chan_def)

lemma set_chan_ok:
  assumes ok: "mux_ok h" and c: "mh_chans h a = Some c" and id: "ch_id c' = ch_id c"
  shows "mux_ok (set_chan a c' h)"
proof -
  have "chan_id_of (set_chan a c' h) = chan_id_of h" using c id by (auto simp: chan_id_of_def fun_eq_iff)
  then show ?thesis using ok stored(1) [OF ok c] unfolding mux_ok_def by auto
qed

lemma channel_at_set_chan:
  assumes ok: "mux_ok h" and c: "mh_chans h a = Some c" and id: "ch_id c' = ch_id c"
  shows "channel_at (set_chan a c' h) = (channel_at h)(ch_id c \<mapsto> c')"
proof
  fix j
  have "map_of (contents (mh_channels h)) (chan_key (ucast (ch_id c))) = Some a"
    using map_of_slots [OF ok] stored [OF ok c] by simp
  moreover have "b \<noteq> a" if "map_of (contents (mh_channels h)) (chan_key (ucast j)) = Some b" "j \<noteq> ch_id c" for b
    using map_of_slots [OF ok] that stored(3) [OF ok c] by auto
  ultimately show "channel_at (set_chan a c' h) j = ((channel_at h)(ch_id c \<mapsto> c')) j"
    by (cases "j = ch_id c") (auto simp: channel_at_def split: option.splits)
qed

subsection \<open>Removing a channel\<close>

lemma filter_key_slots:
  assumes ok: "mux_ok h" and c: "mh_chans h a = Some c"
  shows "filter (\<lambda>e. key_of (mh_channels h) e \<noteq> chan_key (ucast (ch_id c))) (slots h) = filter (\<lambda>e. e \<noteq> a) (slots h)"
proof (rule filter_cong [OF refl])
  fix e assume e: "e \<in> set (slots h)"
  have "map (\<lambda>e. (key_of (mh_channels h) e, data_of (mh_channels h) e)) (slots h)
      = map (\<lambda>a. (chan_key (ucast (chan_id_of h a)), a)) (slots h)"
    using mux_okD(4) [OF ok] unfolding contents_def .
  with e have "key_of (mh_channels h) e = chan_key (ucast (chan_id_of h e))" by simp
  with chan_id_inj [OF ok e stored(1) [OF ok c]] stored(3) [OF ok c]
  show "key_of (mh_channels h) e \<noteq> chan_key (ucast (ch_id c)) \<longleftrightarrow> e \<noteq> a" by (auto simp: chan_key_inject)
qed

text \<open>The state after a channel is gone: its identifier may be free again.\<close>

definition without_chan :: "mux_env \<Rightarrow> nat \<Rightarrow> MultiplexHandler \<Rightarrow> MultiplexHandler \<Rightarrow> bool" where
  "without_chan env a h h' \<longleftrightarrow> mux_ok h' \<and> mh_chans h' = (mh_chans h)(a := None)
     \<and> slots h' = filter (\<lambda>e. e \<noteq> a) (slots h) \<and> mh_trace h' = mh_trace h
     \<and> mh_fresh h' = mh_fresh h \<and> mux_mode h' = mux_mode h
     \<and> live_ids (mh_ids h) - {uint (chan_id_of h a)} \<subseteq> live_ids (mh_ids h') \<and> live_ids (mh_ids h') \<subseteq> live_ids (mh_ids h)
     \<and> (shl1_ok (me_shl1 env) \<and> nat (uint (chan_id_of h a) - 1) mod 64 < 31
         \<longrightarrow> live_ids (mh_ids h') = live_ids (mh_ids h) - {uint (chan_id_of h a)})"

definition removed_slot :: "nat \<Rightarrow> MultiplexHandler \<Rightarrow> Hashtable \<Rightarrow> bool" where
  "removed_slot a h t \<longleftrightarrow> ht_ok t
     \<and> contents t = AList.delete (chan_key (ucast (chan_id_of h a))) (contents (mh_channels h))
     \<and> ht_lst t = filter (\<lambda>e. e \<noteq> a) (slots h) \<and> (\<forall>b. b \<noteq> a \<longrightarrow> ht_refs t b = ht_refs (mh_channels h) b)"

lemma destroy_removed:
  assumes ok: "mux_ok h" and c: "mh_chans h a = Some c" and t: "removed_slot a h t"
  shows "\<exists>ids. channel_destroy env a (h\<lparr>mh_channels := t\<rparr>) = Some (h\<lparr>mh_channels := t, mh_ids := ids\<rparr>)
    \<and> without_chan env a h (h\<lparr>mh_channels := t, mh_ids := ids, mh_chans := (mh_chans h)(a := None)\<rparr>)"
proof -
  note st = stored [OF ok c]
  have idr: "uint (ch_id c) \<in> {1..max_index (mh_ids h)}" using live_ids_bound [OF mux_okD(2) [OF ok]] st(6) by blast
  from ids_heap_free_spec [OF mux_okD(2) [OF ok] idr, of "me_shl1 env"] obtain ids where ids:
    "ids_heap_free (me_shl1 env) 0 (mh_ids h) (uint (ch_id c)) = Some (0, ids)" "ids_ok ids"
    "max_index ids = max_index (mh_ids h)" "live_ids (mh_ids h) - {uint (ch_id c)} \<subseteq> live_ids ids"
    "live_ids ids \<subseteq> live_ids (mh_ids h)"
    "shl1_ok (me_shl1 env) \<and> nat (uint (ch_id c) - 1) mod 64 < 31 \<longrightarrow> live_ids ids = live_ids (mh_ids h) - {uint (ch_id c)}"
    by blast
  let ?h = "h\<lparr>mh_channels := t, mh_ids := ids, mh_chans := (mh_chans h)(a := None)\<rparr>"
  have idof: "chan_id_of ?h b = chan_id_of h b" if "b \<noteq> a" for b using that by (simp add: chan_id_of_def)
  have "AList.delete (chan_key (ucast (ch_id c))) (map (\<lambda>a. (chan_key (ucast (chan_id_of h a)), a)) es)
      = map (\<lambda>a. (chan_key (ucast (chan_id_of h a)), a)) (filter (\<lambda>e. e \<noteq> a) es)" if "set es \<subseteq> set (slots h)" for es
    using that chan_id_inj [OF ok _ st(1)] st(3)
    by (induction es) (auto simp: AList.delete_eq chan_key_inject)
  then have "contents t = map (\<lambda>a. (chan_key (ucast (chan_id_of ?h a)), a)) (filter (\<lambda>e. e \<noteq> a) (slots h))"
    using t mux_okD(4) [OF ok] idof st(3) by (simp add: removed_slot_def cong: map_cong)
  moreover have "uint (chan_id_of ?h b) \<in> live_ids ids" if "b \<in> set (slots h)" "b \<noteq> a" for b
    using mux_okD(9) [OF ok that(1)] chan_id_inj [OF ok that(1) st(1)] that(2) st(3) idof [OF that(2)] ids(4)
    by (auto dest: word_uint_eqI)
  ultimately have "mux_ok ?h"
    using ok t ids(2,3) idof unfolding mux_ok_def removed_slot_def by auto
  then have "without_chan env a h ?h" using ids(4-6) t st(3) by (simp add: without_chan_def removed_slot_def mux_mode_def)
  moreover have "channel_destroy env a (h\<lparr>mh_channels := t\<rparr>) = Some (h\<lparr>mh_channels := t, mh_ids := ids\<rparr>)"
    using c st(2) ids(1) by (simp add: channel_destroy_def)
  ultimately show ?thesis by blast
qed

lemma removed_slot_ref [simp]: "removed_slot a h (ht_ref a t) = removed_slot a h t" "removed_slot a h (ht_deref a t) = removed_slot a h t"
proof -
  show r: "removed_slot a h (ht_ref a t) = removed_slot a h t" for t by (auto simp: removed_slot_def ht_ok_ref)
  have "ht_ref a (ht_deref a t) = t" by (simp add: ht_ref_def ht_deref_def)
  with r [of "ht_deref a t"] show "removed_slot a h (ht_deref a t) = removed_slot a h t" by simp
qed

lemma remove_slot:
  assumes ok: "mux_ok h" and c: "mh_chans h a = Some c"
  obtains t t' where "hashtable_remove (mh_channels h) (chan_key (ucast (ch_id c))) = Some (Some a, t)" "removed_slot a h t"
    "ht_refs t = ht_refs (mh_channels h)"
    "hashtable_remove (ht_ref a (mh_channels h)) (chan_key (ucast (ch_id c))) = Some (Some a, t')" "removed_slot a h t'"
    "ht_refs t' a = 2" "ht_mod_count t' = ht_mod_count (mh_channels h) + 1"
proof -
  note st = stored [OF ok c]
  let ?T = "mh_channels h" and ?k = "chan_key (ucast (ch_id c))"
  have k: "?k \<noteq> []" using st(2) by (simp add: chan_key_Nil)
  have m: "map_of (contents ?T) ?k = Some a" using map_of_slots [OF ok] st by simp
  note fk = filter_key_slots [OF ok c]
  from hashtable_remove_spec [OF mux_okD(1) [OF ok] k] obtain t where
    t: "hashtable_remove ?T ?k = Some (Some a, t)" "ht_ok t" "contents t = AList.delete ?k (contents ?T)"
      "ht_refs t = ht_refs ?T" "ht_lst t = filter (\<lambda>e. e \<noteq> a) (slots h)" unfolding m fk by auto
  have kr: "key_of (ht_ref a ?T) = key_of ?T" by (simp add: key_of_def [abs_def])
  have "ht_ok (ht_ref a ?T)" using mux_okD(1) [OF ok] by (simp add: ht_ok_ref)
  from hashtable_remove_spec [OF this k] obtain t' where
    t': "hashtable_remove (ht_ref a ?T) ?k = Some (Some a, t')" "ht_ok t'" "contents t' = AList.delete ?k (contents ?T)"
      "ht_refs t' = ht_refs (ht_ref a ?T)" "ht_lst t' = filter (\<lambda>e. e \<noteq> a) (slots h)" "ht_mod_count t' = ht_mod_count ?T + 1"
    unfolding ht_ok_ref m kr ht_ref_simps fk by auto
  show thesis
    by (rule that [OF t(1) _ t(4) t'(1) _ _ t'(6)]) (use t t' st(3,5) in \<open>simp_all add: removed_slot_def\<close>)
qed

lemma channels_remove_ok:
  assumes ok: "mux_ok h" and c: "mh_chans h a = Some c"
  shows "\<exists>h'. channels_remove env (ucast (ch_id c)) h = Some h' \<and> without_chan env a h h'"
proof -
  from remove_slot [OF ok c] obtain t where
    t: "hashtable_remove (mh_channels h) (chan_key (ucast (ch_id c))) = Some (Some a, t)" "removed_slot a h t"
      "ht_refs t = ht_refs (mh_channels h)" by metis
  have "removed_slot a h (ht_deref a t)" using t(2) by simp
  from destroy_removed [OF ok c this] obtain ids where
    d: "channel_destroy env a (h\<lparr>mh_channels := ht_deref a t\<rparr>) = Some (h\<lparr>mh_channels := ht_deref a t, mh_ids := ids\<rparr>)"
      "without_chan env a h (h\<lparr>mh_channels := ht_deref a t, mh_ids := ids, mh_chans := (mh_chans h)(a := None)\<rparr>)" by blast
  then show ?thesis
    using t c stored(5) [OF ok c] by (simp add: channels_remove_def channel_deref_def)
qed

lemma remove_and_release:
  assumes ok: "mux_ok h" and c: "mh_chans h a = Some c"
  shows "\<exists>h1 h'. channels_remove env (ucast (ch_id c)) (hold a h) = Some h1 \<and> channel_deref env a h1 = Some h'
    \<and> without_chan env a h h'"
proof -
  from remove_slot [OF ok c] obtain t where
    t: "hashtable_remove (ht_ref a (mh_channels h)) (chan_key (ucast (ch_id c))) = Some (Some a, t)" "removed_slot a h t"
      "ht_refs t a = 2" by metis
  have "removed_slot a h (ht_deref a (ht_deref a t))" using t(2) by simp
  from destroy_removed [OF ok c this] obtain ids where
    d: "channel_destroy env a (h\<lparr>mh_channels := ht_deref a (ht_deref a t)\<rparr>)
          = Some (h\<lparr>mh_channels := ht_deref a (ht_deref a t), mh_ids := ids\<rparr>)"
      "without_chan env a h (h\<lparr>mh_channels := ht_deref a (ht_deref a t), mh_ids := ids, mh_chans := (mh_chans h)(a := None)\<rparr>)" by blast
  then show ?thesis
    using t c by (simp add: channels_remove_def channel_deref_def hold_def)
qed

lemma channel_at_without:
  assumes ok: "mux_ok h" and c: "mh_chans h a = Some c" and w: "without_chan env a h h'"
  shows "channel_at h' = (channel_at h)(ch_id c := None)"
proof
  fix j
  have ok': "mux_ok h'" and chs: "mh_chans h' = (mh_chans h)(a := None)" using w by (auto simp: without_chan_def)
  have "b = a" if "mh_chans h b = Some d" "ch_id d = ch_id c" for b d
    using chan_id_inj [OF ok stored(1) [OF ok that(1)] stored(1) [OF ok c]] stored(3) [OF ok that(1)] stored(3) [OF ok c] that(2) by simp
  note uniq = this
  have eq: "channel_at h' j = Some d \<longleftrightarrow> ((channel_at h)(ch_id c := None)) j = Some d" for d
  proof (cases "j = ch_id c")
    case True
    have "mh_chans h' b \<noteq> Some d" if "ch_id d = j" for b using uniq [of b d] that True chs by (auto split: if_splits)
    with True show ?thesis by (auto simp: channel_at_iff [OF ok'])
  next
    case False
    then have "mh_chans h' b = Some d \<longleftrightarrow> mh_chans h b = Some d" if "ch_id d = j" for b
      using c that chs by auto
    with False show ?thesis by (auto simp: channel_at_iff [OF ok'] channel_at_iff [OF ok])
  qed
  show "channel_at h' j = ((channel_at h)(ch_id c := None)) j"
    using eq by (cases "((channel_at h)(ch_id c := None)) j"; cases "channel_at h' j") auto
qed

subsection \<open>A new channel\<close>

lemma slots_bound: 
  assumes ok: "mux_ok h"
  shows "length (slots h) \<le> 2048"
proof -
  have inj: "inj_on (\<lambda>a. uint (chan_id_of h a)) (set (slots h))"
    using chan_id_inj [OF ok] by (auto simp: inj_on_def dest: word_uint_eqI)
  have "(\<lambda>a. uint (chan_id_of h a)) ` set (slots h) \<subseteq> {1..2048}"
    using mux_okD(9) [OF ok] live_ids_bound [OF mux_okD(2) [OF ok]] mux_okD(3) [OF ok] by (force simp: MAX_CHANNEL_ID_def)
  from card_mono [OF _ this] card_image [OF inj] have "card (set (slots h)) \<le> 2048" by simp
  then show ?thesis using ht_okD(4) [OF mux_okD(1) [OF ok]] by (simp add: distinct_card)
qed

lemma hashtable_put_new:
  assumes ok: "ht_ok t" and new: "a \<notin> set (ht_lst t)" "k \<notin> fst ` set (contents t)" "k \<noteq> []"
    and len: "length (ht_lst t) + 1 < 2 ^ 63"
  shows "\<exists>t'. hashtable_put (t\<lparr>ht_refs := r, ht_ents := (ht_ents t)(a \<mapsto> \<lparr>he_key = k, he_data = d, he_hash_code = hc\<rparr>)\<rparr>) a
      = Some (d, t') \<and> ht_ok t' \<and> contents t' = contents t @ [(k, d)] \<and> ht_refs t' = r(d := r d + 1) \<and> ht_lst t' = ht_lst t @ [a]"
proof -
  let ?x = "\<lparr>he_key = k, he_data = d, he_hash_code = hc\<rparr>"
  let ?t = "t\<lparr>ht_refs := r, ht_ents := (ht_ents t)(a \<mapsto> ?x)\<rparr>"
  have ok': "ht_ok ?t" and c: "contents ?t = contents t" using ht_ok_new_entry [OF ok new(1)] by blast+
  have x: "ht_ents ?t a = Some ?x" "he_key ?x \<noteq> []" using new(3) by simp_all
  have "set (contents t) = (\<lambda>e. (key_of t e, data_of t e)) ` set (ht_lst t)" by (simp add: contents_def)
  then have ab: "\<forall>e \<in> set (ht_lst ?t). key_of ?t e \<noteq> he_key ?x"
    using new(2) ht_ok_new_entry(3) [OF ok new(1)] by force
  have ge: "hashtable_get_entry ?t (he_key ?x) = Some None"
    using ok' by (cases rule: get_entry_spec [of ?t "he_key ?x"]) (use ab in auto)
  have n: "a \<notin> set (ht_lst ?t)" "length (ht_lst ?t) + 1 < 2 ^ 63" using new(1) len by simp_all
  from hashtable_put_absent [OF ok' x n(1) ab n(2) ge] show ?thesis by (auto simp: c)
qed

text \<open>
  What opening a channel, from either side, does up to the table: the fresh channel gets an identifier that
  was not in use, and the code holds one reference besides the table's.
\<close>

definition with_chan :: "nat \<Rightarrow> Channel \<Rightarrow> IdsHeap \<Rightarrow> MultiplexHandler \<Rightarrow> MultiplexHandler \<Rightarrow> bool" where
  "with_chan a c ids h h' \<longleftrightarrow> mux_ok h' \<and> mh_chans h' = (mh_chans h)(a \<mapsto> c)
     \<and> channel_at h' = (channel_at h)(ch_id c \<mapsto> c) \<and> slots h' = slots h @ [a] \<and> mh_trace h' = mh_trace h \<and> mh_ids h' = ids
     \<and> mux_mode h' = mux_mode h"

lemma fresh_slot: "mux_ok h \<Longrightarrow> mh_fresh h \<notin> set (slots h) \<and> mh_chans h (mh_fresh h) = None"
  using mux_okD(5,7) by blast

lemma uint_word_of_id: "0 \<le> cid \<Longrightarrow> cid \<le> MAX_CHANNEL_ID \<Longrightarrow> uint (word_of_int cid :: u16) = cid"
  by (simp add: MAX_CHANNEL_ID_def uint_word_of_int_eq take_bit_int_eq_self)

lemma channels_put_new:
  assumes ok: "mux_ok h" and ids: "ids_ok ids" "max_index ids = MAX_CHANNEL_ID" "live_ids ids = insert (uint (ch_id c)) (live_ids (mh_ids h))"
    and new: "uint (ch_id c) \<notin> live_ids (mh_ids h)" "ch_id c \<noteq> 0"
  shows "\<exists>h'. channels_put (mh_fresh h) (set_chan (mh_fresh h) c ((snd (channel_alloc h))\<lparr>mh_ids := ids\<rparr>)) = Some (hold (mh_fresh h) h')
    \<and> with_chan (mh_fresh h) c ids h h'"
proof -
  let ?a = "mh_fresh h" and ?T = "mh_channels h" and ?k = "chan_key (ucast (ch_id c))"
  let ?r = "(ht_refs ?T)(?a := 1)"
  have a: "?a \<notin> set (slots h)" "mh_chans h ?a = None" using fresh_slot [OF ok] by simp_all
  have "chan_id_of h b \<noteq> ch_id c" if "b \<in> set (slots h)" for b using mux_okD(9) [OF ok that] new(1) by metis
  then have k: "?k \<notin> fst ` set (contents ?T)" "?k \<noteq> []"
    using new(2) by (force simp: mux_okD(4) [OF ok] chan_key_inject, simp add: chan_key_Nil)
  have len: "length (slots h) + 1 < 2 ^ 63" using slots_bound [OF ok] by simp
  from hashtable_put_new [OF mux_okD(1) [OF ok] a(1) k len, where r = ?r and d = ?a and hc = 0] obtain t where
    t: "hashtable_put (?T\<lparr>ht_refs := ?r, ht_ents := (ht_ents ?T)(?a \<mapsto> \<lparr>he_key = ?k, he_data = ?a, he_hash_code = 0\<rparr>)\<rparr>) ?a
        = Some (?a, t)" "ht_ok t" "contents t = contents ?T @ [(?k, ?a)]" "ht_refs t = ?r(?a := ?r ?a + 1)" "ht_lst t = slots h @ [?a]" by blast
  define g where "g = h\<lparr>mh_fresh := ?a + 1, mh_chans := (mh_chans h)(?a \<mapsto> c), mh_channels := ht_deref ?a t, mh_ids := ids\<rparr>"
  have g [simp]: "mh_fresh g = ?a + 1" "mh_chans g = (mh_chans h)(?a \<mapsto> c)" "mh_channels g = ht_deref ?a t" "mh_ids g = ids"
    by (simp_all add: g_def)
  have dr: "ht_ref ?a (ht_deref ?a t) = t" by (simp add: ht_ref_def ht_deref_def)
  have td: "ht_ok (ht_deref ?a t)" "contents (ht_deref ?a t) = contents t" using ht_ok_ref [of ?a "ht_deref ?a t"] t(2) by (simp_all add: dr)
  have idof: "chan_id_of g b = (if b = ?a then ch_id c else chan_id_of h b)" for b by (simp add: chan_id_of_def g)
  have m: "map (\<lambda>a. (chan_key (ucast (chan_id_of g a)), a)) (slots h) = map (\<lambda>a. (chan_key (ucast (chan_id_of h a)), a)) (slots h)"
    using a(1) idof by auto
  have ok': "mux_ok g"
    unfolding mux_ok_def using td t m ids a ok new(2) by (auto simp: idof mux_ok_def intro: less_SucI)
  have at: "channel_at g = (channel_at h)(ch_id c \<mapsto> c)"
  proof
    fix j
    have "channel_at g j = (if j = ch_id c then Some c else channel_at h j)"
    proof (cases "j = ch_id c")
      case True
      then show ?thesis using channel_at_iff [OF ok', of j c] by (simp add: exI [of _ ?a])
    next
      case False
      then have "mh_chans g b = Some d \<longleftrightarrow> mh_chans h b = Some d" if "ch_id d = j" for b d using a(2) that by auto
      then have "channel_at g j = Some d \<longleftrightarrow> channel_at h j = Some d" for d
        unfolding channel_at_iff [OF ok'] channel_at_iff [OF ok] by blast
      then have "channel_at g j = channel_at h j" by (cases "channel_at h j"; cases "channel_at g j") auto
      with False show ?thesis by simp
    qed
    then show "channel_at g j = ((channel_at h)(ch_id c \<mapsto> c)) j" by simp
  qed
  have "channels_put ?a (set_chan ?a c ((snd (channel_alloc h))\<lparr>mh_ids := ids\<rparr>)) = Some (hold ?a g)"
    using t(1) by (simp add: channels_put_def set_chan_def channel_alloc_def hold_def Let_def dr g_def)
  moreover have "with_chan ?a c ids h g" using ok' at t(5) by (simp add: with_chan_def) (simp add: g_def mux_mode_def)
  ultimately show ?thesis by blast
qed

end
