(* ===== verification/MultiplexStream.thy ===== *)
theory MultiplexStream
  imports Multiplex
begin

text \<open>
  Reassembly of packets from a reliable stream (\<^verbatim>\<open>multiplex_handler_notify_data\<close>): however the bytes are cut
  into chunks, the packets are handled one after another as if each had arrived alone.
\<close>

subsection \<open>The buffer of incomplete packets is private to the reassembly\<close>

named_theorems inc_simps \<open>operations commute with a change of the buffer for incomplete packets\<close>

abbreviation with_inc :: "FlexBuffer \<Rightarrow> MultiplexHandler \<Rightarrow> MultiplexHandler" where
  "with_inc x h \<equiv> h\<lparr>mh_incomplete := x\<rparr>"

lemma bind_if: "Option.bind (if b then m else n) f = (if b then Option.bind m f else Option.bind n f)"
  by simp

lemmas inc_push = bind_if map_option_bind bind_map_option comp_def case_prod_unfold if_distrib [of "map_option f" for f]
  option.case_distrib [of "map_option f" for f]

lemma inc_fields [inc_simps]:
  "(with_inc x h)\<lparr>mh_channels := t\<rparr> = with_inc x (h\<lparr>mh_channels := t\<rparr>)"
  "(with_inc x h)\<lparr>mh_chans := s\<rparr> = with_inc x (h\<lparr>mh_chans := s\<rparr>)"
  "(with_inc x h)\<lparr>mh_fresh := n\<rparr> = with_inc x (h\<lparr>mh_fresh := n\<rparr>)"
  "(with_inc x h)\<lparr>mh_ids := i\<rparr> = with_inc x (h\<lparr>mh_ids := i\<rparr>)"
  "(with_inc x h)\<lparr>mh_trace := es\<rparr> = with_inc x (h\<lparr>mh_trace := es\<rparr>)"
  by simp_all

lemma inc_if [inc_simps]: "(if b then with_inc x h else with_inc x g) = with_inc x (if b then h else g)"
  by simp

lemma inc_emit [inc_simps]: "emit_mux e (with_inc x h) = with_inc x (emit_mux e h)"
  by (simp add: emit_mux_def)

lemma inc_chan_upd [inc_simps]: "chan_upd a f (with_inc x h) = map_option (with_inc x) (chan_upd a f h)"
  by (simp add: chan_upd_def inc_push inc_simps cong: if_cong option.case_cong)

lemma inc_channels_put [inc_simps]: "channels_put a (with_inc x h) = map_option (with_inc x) (channels_put a h)"
  by (simp add: channels_put_def inc_push inc_simps Let_def cong: if_cong option.case_cong)

lemma inc_channels_get [inc_simps]: "channels_get c (with_inc x h) = map_option (apsnd (with_inc x)) (channels_get c h)"
  by (simp add: channels_get_def inc_push inc_simps cong: if_cong option.case_cong)

lemma inc_channel_destroy [inc_simps]: "channel_destroy env a (with_inc x h) = map_option (with_inc x) (channel_destroy env a h)"
  by (simp add: channel_destroy_def inc_push inc_simps cong: if_cong option.case_cong)

lemma inc_channel_deref [inc_simps]: "channel_deref env a (with_inc x h) = map_option (with_inc x) (channel_deref env a h)"
  by (simp add: channel_deref_def inc_push inc_simps Let_def cong: if_cong option.case_cong)

lemma inc_channels_remove [inc_simps]: "channels_remove env c (with_inc x h) = map_option (with_inc x) (channels_remove env c h)"
  by (simp add: channels_remove_def inc_push inc_simps Let_def cong: if_cong option.case_cong)

lemma inc_send_packet [inc_simps]:
  "multiplex_handler_send_packet env t opt l r buf (with_inc x h)
   = map_option (apsnd (apsnd (with_inc x))) (multiplex_handler_send_packet env t opt l r buf h)"
  by (simp add: multiplex_handler_send_packet_def inc_push inc_simps Let_def cong: if_cong option.case_cong)

lemma inc_update_remote_timestamp [inc_simps]:
  "update_remote_timestamp env a (with_inc x h) = map_option (with_inc x) (update_remote_timestamp env a h)"
  by (simp add: update_remote_timestamp_def inc_simps)

lemma inc_channel_alloc [inc_simps]: "channel_alloc (with_inc x h) = apsnd (with_inc x) (channel_alloc h)"
  by (simp add: channel_alloc_def Let_def)

lemma inc_incoming_channel [inc_simps]:
  "incoming_channel env opt r (with_inc x h) = map_option (apsnd (with_inc x)) (incoming_channel env opt r h)"
  by (simp add: incoming_channel_def inc_push inc_simps Let_def cong: if_cong option.case_cong)

lemma inc_packets [inc_simps]:
  "packet_open env a p (with_inc x h) = map_option (with_inc x) (packet_open env a p h)"
  "packet_confirm env a r (with_inc x h) = map_option (with_inc x) (packet_confirm env a r h)"
  "packet_data env a p (with_inc x h) = map_option (with_inc x) (packet_data env a p h)"
  "packet_keep_alive env a (with_inc x h) = map_option (with_inc x) (packet_keep_alive env a h)"
  "packet_pending env a (with_inc x h) = map_option (with_inc x) (packet_pending env a h)"
  "packet_resume env a (with_inc x h) = map_option (with_inc x) (packet_resume env a h)"
  "packet_close env a (with_inc x h) = map_option (with_inc x) (packet_close env a h)"
  by (simp_all add: packet_open_def packet_confirm_def packet_data_def packet_keep_alive_def packet_pending_def
      packet_resume_def packet_close_def inc_push inc_simps Let_def cong: if_cong option.case_cong)

lemma inc_packet_dispatch [inc_simps]:
  "packet_dispatch env a t r p (with_inc x h) = map_option (with_inc x) (packet_dispatch env a t r p h)"
  by (simp add: packet_dispatch_def inc_push inc_simps cong: if_cong option.case_cong)

lemma inc_notify_packet:
  "multiplex_handler_notify_packet env buf (with_inc x h)
   = map_option (with_inc x) (multiplex_handler_notify_packet env buf h)"
  by (simp add: multiplex_handler_notify_packet_def inc_push inc_simps Let_def cong: if_cong option.case_cong)

subsection \<open>Packets in a stream of bytes\<close>

text \<open>
  The length of the packet that starts with the given header, the packets that a stream of bytes is made of
  with the incomplete rest, and the condition that every packet fits the buffer for incomplete packets.
\<close>

definition frame_len :: "u8 list \<Rightarrow> nat" where
  "frame_len bs = unat (get16 bs 6) + PROTOCOL_HEAD_LEN"

definition MAX_FRAME :: nat where
  "MAX_FRAME = FLEX_BUFFER_MAX_LEN - FLEX_PADDING_LEN"

definition partial_frame :: "u8 list \<Rightarrow> bool" where
  "partial_frame bs \<longleftrightarrow> length bs < PROTOCOL_HEAD_LEN \<or> length bs < frame_len bs"

function frames :: "u8 list \<Rightarrow> u8 list list \<times> u8 list" where
  "frames bs =
     (if partial_frame bs then ([], bs)
      else let (ps, r) = frames (drop (frame_len bs) bs) in (take (frame_len bs) bs # ps, r))"
  by auto
termination
  by (relation "measure length") (auto simp: partial_frame_def frame_len_def PROTOCOL_HEAD_LEN_def)

function fits :: "u8 list \<Rightarrow> bool" where
  "fits bs \<longleftrightarrow>
     (if length bs < PROTOCOL_HEAD_LEN then True
      else frame_len bs \<le> MAX_FRAME \<and> (partial_frame bs \<or> fits (drop (frame_len bs) bs)))"
  by auto
termination
  by (relation "measure length") (auto simp: partial_frame_def frame_len_def PROTOCOL_HEAD_LEN_def)

declare frames.simps [simp del] fits.simps [simp del]

lemma frames_partial: "partial_frame bs \<Longrightarrow> frames bs = ([], bs)"
  by (simp add: frames.simps [of bs])

lemma frames_step: "\<not> partial_frame bs \<Longrightarrow> frames bs = apfst ((#) (take (frame_len bs) bs)) (frames (drop (frame_len bs) bs))"
  by (simp add: frames.simps [of bs] case_prod_unfold apfst_def map_prod_def Let_def)

lemma fits_partial: "fits bs \<Longrightarrow> partial_frame bs \<Longrightarrow> length bs \<le> MAX_FRAME"
  by (auto simp: fits.simps [of bs] partial_frame_def MAX_FRAME_def FLEX_BUFFER_MAX_LEN_def FLEX_PADDING_LEN_def
      IOEX_MAX_USER_DATA_LEN_def PROTOCOL_HEAD_LEN_def split: if_splits)

lemma fits_step:
  assumes "fits bs" and "\<not> partial_frame bs"
  shows "frame_len bs \<le> MAX_FRAME" "frame_len bs \<le> length bs" "PROTOCOL_HEAD_LEN \<le> frame_len bs"
    "fits (drop (frame_len bs) bs)"
  using assms by (auto simp: fits.simps [of bs] partial_frame_def frame_len_def)

lemma fits_header: "fits bs \<Longrightarrow> PROTOCOL_HEAD_LEN \<le> length bs \<Longrightarrow> frame_len bs \<le> MAX_FRAME"
  by (simp add: fits.simps [of bs])

lemma frame_len_take: "PROTOCOL_HEAD_LEN \<le> n \<Longrightarrow> PROTOCOL_HEAD_LEN \<le> length bs \<Longrightarrow> frame_len (take n bs) = frame_len bs"
  using get16_prefix [of 6 "take n bs" "drop n bs"] by (simp add: frame_len_def PROTOCOL_HEAD_LEN_def)

lemma frame_len_append: "PROTOCOL_HEAD_LEN \<le> length as \<Longrightarrow> frame_len (as @ bs) = frame_len as"
  using frame_len_take [of "length as" "as @ bs"] by simp

lemma frames_rest: "frames bs = (ps, r) \<Longrightarrow> partial_frame r \<and> (fits bs \<longrightarrow> fits r)"
proof (induction bs arbitrary: ps r rule: frames.induct)
  case (1 bs)
  show ?case
  proof (cases "partial_frame bs")
    case True
    with "1.prems" show ?thesis by (auto simp: frames_partial)
  next
    case False
    obtain ps' r' where f: "frames (drop (frame_len bs) bs) = (ps', r')" by fastforce
    with False "1.prems" have "r = r'" by (simp add: frames_step)
    with "1.IH" [OF False f] fits_step(4) [OF _ False] show ?thesis by blast
  qed
qed

text \<open>Frames of a stream that arrives in two parts.\<close>

lemma frames_append:
  assumes "frames as = (ps, r)"
  shows "frames (as @ bs) = apfst ((@) ps) (frames (r @ bs))"
  using assms
proof (induction as arbitrary: ps rule: frames.induct)
  case (1 as)
  show ?case
  proof (cases "partial_frame as")
    case True
    with "1.prems" show ?thesis by (simp add: frames_partial apfst_def map_prod_def case_prod_unfold)
  next
    case False
    let ?n = "frame_len as"
    obtain ps' where f: "frames (drop ?n as) = (ps', r)" and ps: "ps = take ?n as # ps'"
      using "1.prems" False by (cases "frames (drop ?n as)") (auto simp: frames_step)
    have len: "PROTOCOL_HEAD_LEN \<le> length as" "?n \<le> length as" using False by (auto simp: partial_frame_def)
    then have n: "frame_len (as @ bs) = ?n" by (simp add: frame_len_append)
    with len False have "\<not> partial_frame (as @ bs)" by (simp add: partial_frame_def)
    then have "frames (as @ bs) = apfst ((#) (take ?n as)) (frames (drop ?n as @ bs))"
      using frames_step [of "as @ bs"] n len by simp
    also have "frames (drop ?n as @ bs) = apfst ((@) ps') (frames (r @ bs))" by (rule "1.IH" [OF False f])
    finally show ?thesis by (simp add: ps apfst_def map_prod_def case_prod_unfold)
  qed
qed

lemma fits_append:
  assumes "frames as = (ps, r)" and "fits (as @ bs)"
  shows "fits as \<and> fits (r @ bs)"
  using assms
proof (induction as arbitrary: ps rule: frames.induct)
  case (1 as)
  show ?case
  proof (cases "partial_frame as")
    case True
    with "1.prems" have "r = as" by (simp add: frames_partial)
    moreover have "fits as"
      using fits_header [OF "1.prems"(2)] True by (auto simp: fits.simps [of as] frame_len_append)
    ultimately show ?thesis using "1.prems"(2) by simp
  next
    case False
    let ?n = "frame_len as"
    obtain ps' where f: "frames (drop ?n as) = (ps', r)"
      using "1.prems"(1) False by (cases "frames (drop ?n as)") (auto simp: frames_step)
    have len: "PROTOCOL_HEAD_LEN \<le> length as" "?n \<le> length as" using False by (auto simp: partial_frame_def)
    then have n: "frame_len (as @ bs) = ?n" by (simp add: frame_len_append)
    with len False have "\<not> partial_frame (as @ bs)" by (simp add: partial_frame_def)
    from fits_step [OF "1.prems"(2) this] n len have "fits (drop ?n as @ bs)" "?n \<le> MAX_FRAME" by simp_all
    with "1.IH" [OF False f] len show ?thesis by (auto simp: fits.simps [of as])
  qed
qed

subsection \<open>One packet after another\<close>

definition packet_buffer :: "u8 list \<Rightarrow> FlexBuffer" where
  "packet_buffer p =
     \<lparr>fb_capacity = FLEX_BUFFER_MAX_LEN, fb_offset = FLEX_PADDING_LEN, fb_size = length p,
      fb_buffer = replicate FLEX_PADDING_LEN 0 @ p @ replicate (MAX_FRAME - length p) 0\<rparr>"

fun deliver :: "mux_env \<Rightarrow> u8 list list \<Rightarrow> MultiplexHandler \<Rightarrow> MultiplexHandler option" where
  "deliver env [] h = Some h"
| "deliver env (p # ps) h = do { h1 \<leftarrow> multiplex_handler_notify_packet env (packet_buffer p) h; deliver env ps h1 }"

definition inc_ok :: "FlexBuffer \<Rightarrow> bool" where
  "inc_ok x \<longleftrightarrow> flex_ok x \<and> fb_offset x = FLEX_PADDING_LEN \<and> fb_capacity x = FLEX_BUFFER_MAX_LEN"

lemmas frame_consts = MAX_FRAME_def FLEX_BUFFER_MAX_LEN_def FLEX_PADDING_LEN_def IOEX_MAX_USER_DATA_LEN_def

lemma packet_buffer_ok:
  assumes "length p \<le> MAX_FRAME"
  shows "inc_ok (packet_buffer p)" "flex_payload (packet_buffer p) = p"
  using assms by (simp_all add: packet_buffer_def inc_ok_def flex_ok_def flex_payload_def frame_consts)

lemma inc_deliver: "deliver env ps (with_inc x h) = map_option (with_inc x) (deliver env ps h)"
  by (induction ps arbitrary: h) (simp_all add: inc_notify_packet inc_push)

text \<open>A packet is what the buffer holds; where it lies in the block does not matter.\<close>

lemma notify_packet_payload:
  assumes "flex_ok b" "flex_ok b'" "flex_payload b = flex_payload b'"
  shows "multiplex_handler_notify_packet env b h = multiplex_handler_notify_packet env b' h"
proof -
  have sz: "fb_size b = fb_size b'" using assms flex_okD(4) by metis
  show ?thesis
  proof (cases "PROTOCOL_HEAD_LEN \<le> fb_size b")
    case False
    with sz show ?thesis by (simp add: multiplex_handler_notify_packet_def flex_buffer_size_def c_assert_def)
  next
    case True
    obtain d where d: "flex_buffer_forward_offset b PROTOCOL_HEAD_LEN = Some d"
      "flex_payload d = drop PROTOCOL_HEAD_LEN (flex_payload b)"
      using flex_forward_ok [OF assms(1) True] by metis
    obtain d' where d': "flex_buffer_forward_offset b' PROTOCOL_HEAD_LEN = Some d'"
      "flex_payload d' = drop PROTOCOL_HEAD_LEN (flex_payload b')"
      using flex_forward_ok [OF assms(2)] True sz by metis
    show ?thesis
      using d d' sz assms(3)
      by (simp add: multiplex_handler_notify_packet_def flex_buffer_size_def Let_def cong: if_cong option.case_cong)
  qed
qed

text \<open>
  Both steps of the loop, completing the header and completing the packet, fill the buffer for incomplete
  packets up to some length from the chunk that arrived.
\<close>

definition fill_to :: "nat \<Rightarrow> FlexBuffer \<Rightarrow> FlexBuffer \<Rightarrow> (FlexBuffer \<times> FlexBuffer) option" where
  "fill_to n x buf =
     (if fb_size x < n then do {
        inc \<leftarrow> flex_buffer_append2 x buf (n - fb_size x);
        b \<leftarrow> flex_buffer_forward_offset buf (n - fb_size x);
        Some (inc, b)
      } else Some (x, buf))"

lemma notify_data_unfold:
  "multiplex_handler_notify_data env buf h =
     (if fb_size buf = 0 then Some h
      else if fb_size (mh_incomplete h) + fb_size buf < PROTOCOL_HEAD_LEN then do {
        inc \<leftarrow> flex_buffer_append (mh_incomplete h) buf;
        Some (with_inc inc h)
      }
      else do {
        (x1, b1) \<leftarrow> fill_to PROTOCOL_HEAD_LEN (mh_incomplete h) buf;
        if fb_size x1 + fb_size b1 < frame_len (flex_payload x1) then do {
          inc \<leftarrow> flex_buffer_append x1 b1;
          Some (with_inc inc h)
        }
        else do {
          (x2, b2) \<leftarrow> fill_to (frame_len (flex_payload x1)) x1 b1;
          h1 \<leftarrow> multiplex_handler_notify_packet env x2 h;
          multiplex_handler_notify_data env b2 (with_inc (flex_buffer_reset x2 FLEX_PADDING_LEN) h1)
        }
      })"
  unfolding multiplex_handler_notify_data.simps [of env buf h] fill_to_def flex_buffer_size_def frame_len_def Let_def
  by (rule refl)

lemma fill_to_ok:
  assumes x: "inc_ok x" and b: "flex_ok b" and n: "fb_size x \<le> n" "n \<le> fb_size x + fb_size b" "n \<le> MAX_FRAME"
  obtains x' b' where "fill_to n x b = Some (x', b')" "inc_ok x'" "flex_ok b'" "fb_size x' = n"
    "flex_payload x' = take n (flex_payload x @ flex_payload b)"
    "flex_payload b' = drop n (flex_payload x @ flex_payload b)"
proof -
  have xo: "flex_ok x" "fb_offset x = FLEX_PADDING_LEN" "fb_capacity x = FLEX_BUFFER_MAX_LEN"
    using x by (auto simp: inc_ok_def)
  have lx: "length (flex_payload x) = fb_size x" by (rule flex_okD(4) [OF xo(1)])
  have k: "n - fb_size x \<le> fb_size b" using n by simp
  have av: "min (n - fb_size x) (flex_buffer_available x) = n - fb_size x"
    using flex_okD(5) [OF xo(1)] xo n by (simp add: MAX_FRAME_def)
  obtain x' where 1: "flex_buffer_append2 x b (n - fb_size x) = Some x'" "flex_ok x'"
    "flex_payload x' = flex_payload x @ take (n - fb_size x) (flex_payload b)"
    "fb_size x' = fb_size x + (n - fb_size x)" "fb_offset x' = fb_offset x" "fb_capacity x' = fb_capacity x"
    using flex_append2_ok [OF xo(1) b k] unfolding av .
  obtain b' where 2: "flex_buffer_forward_offset b (n - fb_size x) = Some b'" "flex_ok b'"
    "flex_payload b' = drop (n - fb_size x) (flex_payload b)"
    using flex_forward_ok [OF b k] .
  show thesis
  proof (cases "fb_size x < n")
    case True
    show thesis by (rule that [of x' b']) (use True 1 2 xo n lx in \<open>simp_all add: inc_ok_def fill_to_def\<close>)
  next
    case False
    show thesis by (rule that [of x b]) (use False x b n lx in \<open>simp_all add: fill_to_def\<close>)
  qed
qed

lemma append_incomplete:
  assumes x: "inc_ok x" and b: "flex_ok b" and n: "fb_size x + fb_size b \<le> MAX_FRAME"
  obtains x' where "flex_buffer_append x b = Some x'" "inc_ok x'" "flex_payload x' = flex_payload x @ flex_payload b"
proof -
  have xo: "flex_ok x" "fb_offset x = FLEX_PADDING_LEN" "fb_capacity x = FLEX_BUFFER_MAX_LEN"
    using x by (auto simp: inc_ok_def)
  have av: "fb_size b \<le> flex_buffer_available x"
    using flex_okD(5) [OF xo(1)] xo n by (simp add: MAX_FRAME_def)
  obtain x' where 1: "flex_buffer_append x b = Some x'" "flex_ok x'"
    "flex_payload x' = flex_payload x @ take (flex_buffer_available x) (flex_payload b)"
    "fb_offset x' = fb_offset x" "fb_capacity x' = fb_capacity x"
    using flex_append_ok [OF xo(1) b] .
  show thesis
    by (rule that [OF 1(1)]) (use 1 xo av flex_okD(4) [OF b] in \<open>simp_all add: inc_ok_def\<close>)
qed

lemma header_stage:
  assumes b: "flex_ok buf" and x: "inc_ok x" and p: "partial_frame (flex_payload x)"
    and H: "PROTOCOL_HEAD_LEN \<le> length (flex_payload x @ flex_payload buf)"
  obtains x1 b1 where "fill_to PROTOCOL_HEAD_LEN x buf = Some (x1, b1)" "inc_ok x1" "flex_ok b1"
    "flex_payload x1 @ flex_payload b1 = flex_payload x @ flex_payload buf"
    "PROTOCOL_HEAD_LEN \<le> fb_size x1" "fb_size x1 \<le> frame_len (flex_payload x @ flex_payload buf)"
proof -
  have len: "length (flex_payload x) = fb_size x" "length (flex_payload buf) = fb_size buf"
    using x b flex_okD(4) by (auto simp: inc_ok_def)
  show thesis
  proof (cases "fb_size x < PROTOCOL_HEAD_LEN")
    case True
    have m: "PROTOCOL_HEAD_LEN \<le> MAX_FRAME" by (simp add: frame_consts PROTOCOL_HEAD_LEN_def)
    have "fb_size x \<le> PROTOCOL_HEAD_LEN" "PROTOCOL_HEAD_LEN \<le> fb_size x + fb_size buf" using True H len by simp_all
    from fill_to_ok [OF x b this m] obtain x1 b1 where f: "fill_to PROTOCOL_HEAD_LEN x buf = Some (x1, b1)"
      "inc_ok x1" "flex_ok b1" "fb_size x1 = PROTOCOL_HEAD_LEN"
      "flex_payload x1 = take PROTOCOL_HEAD_LEN (flex_payload x @ flex_payload buf)"
      "flex_payload b1 = drop PROTOCOL_HEAD_LEN (flex_payload x @ flex_payload buf)" .
    have e: "flex_payload x1 @ flex_payload b1 = flex_payload x @ flex_payload buf"
      unfolding f(5,6) by (rule append_take_drop_id)
    show thesis
      by (rule that [OF f(1,2,3) e]) (simp_all add: f(4) frame_len_def)
  next
    case False
    then have "fill_to PROTOCOL_HEAD_LEN x buf = Some (x, buf)" by (simp add: fill_to_def)
    then show thesis
      by (rule that [OF _ x b refl]) (use False p len in \<open>auto simp: partial_frame_def frame_len_append\<close>)
  qed
qed

text \<open>
  The loop: it ends, handles the packets that the buffered bytes and the chunk make up, in order, and keeps
  the incomplete rest.
\<close>

lemma notify_data_frames:
  assumes "flex_ok buf" and "inc_ok (mh_incomplete h)" and "partial_frame (flex_payload (mh_incomplete h))"
    and "fits (flex_payload (mh_incomplete h) @ flex_payload buf)"
    and "frames (flex_payload (mh_incomplete h) @ flex_payload buf) = (ps, r)"
  shows "\<exists>x. inc_ok x \<and> flex_payload x = r
    \<and> multiplex_handler_notify_data env buf h = map_option (with_inc x) (deliver env ps h)"
  using assms
proof (induction "fb_size buf" arbitrary: buf h ps r rule: less_induct)
  case less
  let ?x = "mh_incomplete h" and ?all = "flex_payload (mh_incomplete h) @ flex_payload buf" and ?H = PROTOCOL_HEAD_LEN
  let ?n = "frame_len (flex_payload (mh_incomplete h) @ flex_payload buf)"
  have len: "length (flex_payload ?x) = fb_size ?x" "length (flex_payload buf) = fb_size buf"
    using less.prems(1,2) flex_okD(4) by (auto simp: inc_ok_def)
  have short: ?case if p: "partial_frame ?all" and
    ev: "\<And>x'. flex_buffer_append x1 b1 = Some x' \<Longrightarrow> multiplex_handler_notify_data env buf h = Some (with_inc x' h)"
    and ok: "inc_ok x1" "flex_ok b1" and all: "flex_payload x1 @ flex_payload b1 = ?all" for x1 b1
  proof -
    have "length ?all = fb_size x1 + fb_size b1" using all ok flex_okD(4) unfolding inc_ok_def by (metis length_append)
    with fits_partial [OF less.prems(4) p] have "fb_size x1 + fb_size b1 \<le> MAX_FRAME" by simp
    from append_incomplete [OF ok this] obtain x' where
      x': "flex_buffer_append x1 b1 = Some x'" "inc_ok x'" "flex_payload x' = ?all" using all by metis
    moreover have "ps = []" "r = ?all" using less.prems(5) frames_partial [OF p] by auto
    ultimately show ?thesis using ev [OF x'(1)] by (intro exI [of _ x']) simp
  qed
  consider (none) "fb_size buf = 0" | (head) "fb_size buf \<noteq> 0" "length ?all < ?H" | (more) "fb_size buf \<noteq> 0" "?H \<le> length ?all"
    by linarith
  then show ?case
  proof cases
    case none
    with len have "flex_payload buf = []" by simp
    with less.prems(3,5) have "ps = []" "r = flex_payload ?x" by (simp_all add: frames_partial)
    with none less.prems(2) show ?thesis
      by (intro exI [of _ ?x]) (simp add: notify_data_unfold [of env buf h])
  next
    case head
    show ?thesis
      by (rule short [OF _ _ less.prems(2,1) refl])
        (use head len in \<open>simp_all add: partial_frame_def notify_data_unfold [of env buf h]\<close>)
  next
    case more
    from header_stage [OF less.prems(1,2,3) more(2)] obtain x1 b1 where
      st: "fill_to ?H ?x buf = Some (x1, b1)" "inc_ok x1" "flex_ok b1" "flex_payload x1 @ flex_payload b1 = ?all"
        "?H \<le> fb_size x1" "fb_size x1 \<le> ?n" .
    have fl: "frame_len (flex_payload x1) = ?n"
      using st(2,4,5) flex_okD(4) unfolding inc_ok_def by (metis frame_len_append)
    have sz: "fb_size x1 + fb_size b1 = length ?all"
      using st(2,3,4) flex_okD(4) unfolding inc_ok_def by (metis length_append)
    show ?thesis
    proof (cases "partial_frame ?all")
      case True
      with more have "fb_size x1 + fb_size b1 < ?n" by (simp add: partial_frame_def sz)
      then show ?thesis
        using more len st(1) fl by (intro short [OF True _ st(2,3,4)]) (simp add: notify_data_unfold [of env buf h])
    next
      case False
      note fs = fits_step [OF less.prems(4) False]
      have n: "?n \<le> fb_size x1 + fb_size b1" unfolding sz by (rule fs(2))
      from fill_to_ok [OF st(2,3,6) n fs(1)] obtain x2 b2 where
        f: "fill_to ?n x1 b1 = Some (x2, b2)" "inc_ok x2" "flex_ok b2" "fb_size x2 = ?n"
          "flex_payload x2 = take ?n ?all" "flex_payload b2 = drop ?n ?all" unfolding st(4) .
      let ?y = "flex_buffer_reset x2 FLEX_PADDING_LEN"
      obtain ps' where fr: "frames (drop ?n ?all) = (ps', r)" and ps: "ps = take ?n ?all # ps'"
        using less.prems(5) False by (cases "frames (drop ?n ?all)") (auto simp: frames_step)
      have pk: "multiplex_handler_notify_packet env x2 h = multiplex_handler_notify_packet env (packet_buffer (take ?n ?all)) h"
        using fs(1) f(2,5) packet_buffer_ok [of "take ?n ?all"] by (intro notify_packet_payload) (auto simp: inc_ok_def)
      have ev: "multiplex_handler_notify_data env buf h = do {
          h1 \<leftarrow> multiplex_handler_notify_packet env x2 h; multiplex_handler_notify_data env b2 (with_inc ?y h1) }"
        using more len st(1) fl f(1) n by (simp add: notify_data_unfold [of env buf h])
      have y: "inc_ok ?y" "flex_payload ?y = []" "partial_frame []"
        using f(2) by (auto simp: inc_ok_def flex_ok_reset flex_buffer_reset_def flex_ok_def flex_payload_def partial_frame_def PROTOCOL_HEAD_LEN_def)
      have "fb_size ?x < ?n" using less.prems(3) len fs(3)
        by (cases "fb_size ?x < ?H") (auto simp: partial_frame_def frame_len_append)
      then have dec: "fb_size b2 < fb_size buf"
        using f(6) flex_okD(4) [OF f(3)] len more by simp
      have rest: "\<exists>x. inc_ok x \<and> flex_payload x = r
          \<and> multiplex_handler_notify_data env b2 (with_inc ?y h1) = map_option (with_inc x) (deliver env ps' h1)" for h1
        using less.hyps [OF dec f(3), of "with_inc ?y h1"] y fs(4) fr f(6) by (simp add: inc_deliver option.map_comp comp_def)
      show ?thesis
      proof (cases "multiplex_handler_notify_packet env x2 h")
        case None
        have "length r \<le> MAX_FRAME" using frames_rest [OF fr] fs(4) fits_partial by blast
        then show ?thesis using None ev pk ps packet_buffer_ok [of r] by (intro exI [of _ "packet_buffer r"]) simp
      next
        case (Some h1)
        then have "deliver env ps h = deliver env ps' h1" unfolding ps deliver.simps pk [symmetric] by simp
        with rest [of h1] ev Some show ?thesis by simp
      qed
    qed
  qed
qed

subsection \<open>Properties\<close>

text \<open>Chunks that arrive one after another.\<close>

fun receive_chunks :: "mux_env \<Rightarrow> FlexBuffer list \<Rightarrow> MultiplexHandler \<Rightarrow> MultiplexHandler option" where
  "receive_chunks env [] h = Some h"
| "receive_chunks env (b # bs) h = do { h1 \<leftarrow> multiplex_handler_notify_data env b h; receive_chunks env bs h1 }"

lemma deliver_append: "deliver env (ps @ qs) h = do { h1 \<leftarrow> deliver env ps h; deliver env qs h1 }"
proof (induction ps arbitrary: h)
  case (Cons p ps)
  then have "deliver env (ps @ qs) = (\<lambda>h. do { h1 \<leftarrow> deliver env ps h; deliver env qs h1 })" by (rule ext)
  then show ?case by simp
qed simp

lemma receive_chunks_frames:
  assumes "\<forall>b \<in> set bs. flex_ok b" and "inc_ok (mh_incomplete h)" and "partial_frame (flex_payload (mh_incomplete h))"
    and "fits (flex_payload (mh_incomplete h) @ concat (map flex_payload bs))"
    and "frames (flex_payload (mh_incomplete h) @ concat (map flex_payload bs)) = (ps, r)"
  shows "\<exists>x. inc_ok x \<and> flex_payload x = r \<and> receive_chunks env bs h = map_option (with_inc x) (deliver env ps h)"
  using assms
proof (induction bs arbitrary: h ps)
  case Nil
  then show ?case by (intro exI [of _ "mh_incomplete h"]) (simp add: frames_partial)
next
  case (Cons b bs)
  let ?in = "flex_payload (mh_incomplete h)" and ?bs = "concat (map flex_payload bs)"
  obtain ps1 r1 where f1: "frames (?in @ flex_payload b) = (ps1, r1)" by fastforce
  obtain ps2 r2 where f2: "frames (r1 @ ?bs) = (ps2, r2)" by fastforce
  have ps: "ps = ps1 @ ps2" "r2 = r" using frames_append [OF f1, of ?bs] f2 Cons.prems(5) by simp_all
  have ft: "fits (?in @ flex_payload b)" "fits (r1 @ ?bs)" using fits_append [OF f1, of ?bs] Cons.prems(4) by simp_all
  from notify_data_frames [OF _ Cons.prems(2,3) ft(1) f1] Cons.prems(1) obtain x1 where
    x1: "inc_ok x1" "flex_payload x1 = r1" "multiplex_handler_notify_data env b h = map_option (with_inc x1) (deliver env ps1 h)"
    by auto
  have rest: "\<exists>x. inc_ok x \<and> flex_payload x = r \<and> receive_chunks env bs (with_inc x1 h1) = map_option (with_inc x) (deliver env ps2 h1)" for h1
    using Cons.IH [of "with_inc x1 h1" ps2] Cons.prems(1) x1(1,2) frames_rest [OF f1] ft(2) f2 ps(2)
    by (simp add: inc_deliver option.map_comp comp_def)
  show ?case
  proof (cases "deliver env ps1 h")
    case None
    with x1(3) have "receive_chunks env (b # bs) h = None" "deliver env ps h = None" by (simp_all add: ps deliver_append)
    then show ?thesis using rest by (metis option.map_disc_iff)
  next
    case (Some h1)
    with rest [of h1] x1(3) show ?thesis by (simp add: ps deliver_append)
  qed
qed

text \<open>Packets that the sender may put into the stream.\<close>

definition well_framed :: "u8 list \<Rightarrow> bool" where
  "well_framed p \<longleftrightarrow> PROTOCOL_HEAD_LEN \<le> length p \<and> length p = frame_len p \<and> length p \<le> MAX_FRAME"

lemma frames_well_framed:
  assumes "\<forall>p \<in> set ps. well_framed p"
  shows "frames (concat ps) = (ps, []) \<and> fits (concat ps)"
  using assms
proof (induction ps)
  case Nil
  then show ?case by (simp add: frames_partial fits.simps [of "[]"] partial_frame_def PROTOCOL_HEAD_LEN_def)
next
  case (Cons p ps)
  then have p: "PROTOCOL_HEAD_LEN \<le> length p" "frame_len (p @ concat ps) = length p" "length p \<le> MAX_FRAME"
    by (auto simp: well_framed_def frame_len_append)
  then have "\<not> partial_frame (p @ concat ps)" by (simp add: partial_frame_def)
  with p Cons show ?case by (simp add: frames_step fits.simps [of "p @ concat ps"])
qed

end
