(* ===== verification/MultiplexSpec.thy ===== *)
theory MultiplexSpec
  imports MultiplexInv MultiplexStream
begin

text \<open>
  What the multiplexer does, without hash table, reference counts and addresses: a map from identifiers to
  channels and the list of events. Handling a packet refines this specification; in particular it never
  fails, uses no freed channel and leaks none.
\<close>

subsection \<open>The abstract multiplexer\<close>

record mux_abs =
  ma_channels :: "u16 \<Rightarrow> Channel option"
  ma_trace :: "mux_event list"
  ma_mode :: "bool \<times> bool \<times> bool"

definition abs_mux :: "MultiplexHandler \<Rightarrow> mux_abs" where
  "abs_mux h = \<lparr>ma_channels = channel_at h, ma_trace = mh_trace h, ma_mode = mux_mode h\<rparr>"

definition noted :: "mux_event \<Rightarrow> mux_abs \<Rightarrow> mux_abs" where
  "noted e s = s\<lparr>ma_trace := ma_trace s @ [e]\<rparr>"

definition store :: "Channel \<Rightarrow> mux_abs \<Rightarrow> mux_abs" where
  "store c s = s\<lparr>ma_channels := (ma_channels s)(ch_id c \<mapsto> c)\<rparr>"

definition drop_channel :: "u16 \<Rightarrow> mux_abs \<Rightarrow> mux_abs" where
  "drop_channel i s = s\<lparr>ma_channels := (ma_channels s)(i := None)\<rparr>"

definition active :: "mux_env \<Rightarrow> Channel \<Rightarrow> Channel" where
  "active env c = c\<lparr>ch_remote_timestamp := me_now env, ch_last_activity := me_now env\<rparr>"

text \<open>A packet for the channel \<open>c\<close> that exists.\<close>

definition channel_packet :: "mux_env \<Rightarrow> u8 \<Rightarrow> u16 \<Rightarrow> u8 list \<Rightarrow> Channel \<Rightarrow> mux_abs \<Rightarrow> mux_abs" where
  "channel_packet env t r payload c s =
     (if t = PacketType_ChannelOpenConfirmation then
        (if ch_status c \<noteq> ChannelStatus_Opening then s
         else if r \<noteq> 0 then store (active env (c\<lparr>ch_status := ChannelStatus_Open, ch_remote_id := r\<rparr>)) (noted (Opened (ch_id c)) s)
         else drop_channel (ch_id c) (noted (Closed (ch_id c) CloseReason_Error) s))
      else if t = PacketType_ChannelData then
        (if ch_status c \<notin> {ChannelStatus_Open, ChannelStatus_Pending} then s
         else if me_channel_data env (ma_trace s) (ch_id c) payload then store (active env c) (noted (Data (ch_id c) payload) s)
         else drop_channel (ch_id c) (noted (Closed (ch_id c) CloseReason_Error) (noted (Data (ch_id c) payload) s)))
      else if t = PacketType_ChannelKeepAlive then store (c\<lparr>ch_remote_timestamp := me_now env\<rparr>) s
      else if t = PacketType_ChannelPending then
        (if ch_status c \<noteq> ChannelStatus_Open then s
         else store (active env (c\<lparr>ch_status := ChannelStatus_Pending\<rparr>)) (noted (Pended (ch_id c)) s))
      else if t = PacketType_ChannelResume then
        (if ch_status c \<noteq> ChannelStatus_Pending then s
         else store (active env (c\<lparr>ch_status := ChannelStatus_Open\<rparr>)) (noted (Resumed (ch_id c)) s))
      else if t = PacketType_ChannelClose then
        drop_channel (ch_id c) (noted (Closed (ch_id c) CloseReason_Normal) s)
      else s)"

definition abs_packet :: "mux_env \<Rightarrow> u8 \<Rightarrow> u16 \<Rightarrow> u16 \<Rightarrow> u8 list \<Rightarrow> mux_abs \<Rightarrow> mux_abs" where
  "abs_packet env t i r payload s =
     (case ma_channels s i of None \<Rightarrow> s | Some c \<Rightarrow> channel_packet env t r payload c s)"

subsection \<open>The code steps refine it\<close>

lemmas abs_defs = abs_mux_def noted_def store_def drop_channel_def active_def

lemma abs_emit [simp]: "abs_mux (emit_mux e h) = noted e (abs_mux h)"
  by (simp add: abs_defs)

lemma abs_set_chan: "mux_ok h \<Longrightarrow> mh_chans h a = Some c \<Longrightarrow> ch_id c' = ch_id c \<Longrightarrow> abs_mux (set_chan a c' h) = store c' (abs_mux h)"
  by (simp add: abs_defs channel_at_set_chan)

text \<open>A step on a held channel that ends with a state at rest.\<close>

definition settles :: "MultiplexHandler option \<Rightarrow> mux_abs \<Rightarrow> bool" where
  "settles m s \<longleftrightarrow> (\<exists>h'. m = Some h' \<and> mux_ok h' \<and> abs_mux h' = s)"

lemma settles_release: "mux_ok h \<Longrightarrow> mh_chans h a = Some c \<Longrightarrow> settles (channel_deref env a (hold a h)) (abs_mux h)"
  by (simp add: settles_def release)

lemma settles_update:
  assumes "mux_ok h" and "mh_chans h a = Some c" and "ch_id c' = ch_id c"
  shows "settles (channel_deref env a (hold a (set_chan a c' h))) (store c' (abs_mux h))"
proof -
  have "mh_chans (set_chan a c' h) a = Some c'" by simp
  from settles_release [OF set_chan_ok [OF assms] this] show ?thesis by (simp add: abs_set_chan [OF assms])
qed

lemma without_abs:
  assumes "mux_ok h" and "mh_chans h a = Some c" and w: "without_chan env a h h'"
  shows "mux_ok h' \<and> abs_mux h' = drop_channel (ch_id c) (abs_mux h)"
proof -
  have "mux_ok h'" "mh_trace h' = mh_trace h" "mux_mode h' = mux_mode h" using w by (simp_all add: without_chan_def)
  then show ?thesis by (simp add: abs_mux_def drop_channel_def channel_at_without [OF assms])
qed

lemma settles_close:
  assumes "mux_ok h" and "mh_chans h a = Some c"
  shows "settles (do { h1 \<leftarrow> channels_remove env (ucast (ch_id c)) (hold a h); channel_deref env a h1 })
    (drop_channel (ch_id c) (abs_mux h))"
proof -
  from remove_and_release [OF assms] obtain h1 h' where
    r: "channels_remove env (ucast (ch_id c)) (hold a h) = Some h1" "channel_deref env a h1 = Some h'"
      "without_chan env a h h'" by blast
  then show ?thesis using without_abs [OF assms r(3)] by (simp add: settles_def)
qed

text \<open>The same after one event and after two.\<close>

lemma settles_noted:
  assumes "mux_ok h" and "mh_chans h a = Some c"
  shows "ch_id c' = ch_id c \<Longrightarrow> settles (channel_deref env a (hold a (set_chan a c' (emit_mux e h)))) (store c' (noted e (abs_mux h)))"
    "settles (do { h1 \<leftarrow> channels_remove env (ucast (ch_id c)) (hold a (emit_mux e h)); channel_deref env a h1 })
      (drop_channel (ch_id c) (noted e (abs_mux h)))"
    "settles (do { h1 \<leftarrow> channels_remove env (ucast (ch_id c)) (hold a (emit_mux e (emit_mux e' h))); channel_deref env a h1 })
      (drop_channel (ch_id c) (noted e (noted e' (abs_mux h))))"
  using settles_update [of "emit_mux e h" a c c' env] settles_close [of "emit_mux e h" a c env]
    settles_close [of "emit_mux e (emit_mux e' h)" a c env] assms by simp_all

lemma set_chan_twice [simp]: "set_chan a c (set_chan a c' h) = set_chan a c h"
  by (simp add: set_chan_def)

lemma emit_set_chan: "emit_mux e (set_chan a c h) = set_chan a c (emit_mux e h)"
  by (simp add: set_chan_def emit_mux_def)

lemmas held_simps = hold_simps chan_upd_Some update_remote_timestamp_def active_def emit_set_chan

lemma packet_confirm_settles:
  assumes "mux_ok h" and "mh_chans h a = Some c"
  shows "settles (packet_confirm env a r (hold a h))
    (channel_packet env PacketType_ChannelOpenConfirmation r payload c (abs_mux h))"
  using assms settles_release [OF assms] settles_noted [OF assms]
  by (auto simp: packet_confirm_def channel_packet_def held_simps)

lemma packet_data_settles:
  assumes "mux_ok h" and "mh_chans h a = Some c"
  shows "settles (packet_data env a payload (hold a h)) (channel_packet env PacketType_ChannelData r payload c (abs_mux h))"
proof -
  have tr: "ma_trace (abs_mux h) = mh_trace h" by (simp add: abs_mux_def)
  show ?thesis
    using assms settles_release [OF assms] settles_noted [OF assms]
    by (auto simp: packet_data_def channel_packet_def packet_types held_simps tr Let_def)
qed

lemma packet_keep_alive_settles:
  assumes "mux_ok h" and "mh_chans h a = Some c"
  shows "settles (packet_keep_alive env a (hold a h)) (channel_packet env PacketType_ChannelKeepAlive r payload c (abs_mux h))"
  using assms settles_update [OF assms] by (auto simp: packet_keep_alive_def channel_packet_def packet_types held_simps)

lemma packet_pending_settles:
  assumes "mux_ok h" and "mh_chans h a = Some c"
  shows "settles (packet_pending env a (hold a h)) (channel_packet env PacketType_ChannelPending r payload c (abs_mux h))"
  using assms settles_release [OF assms] settles_noted [OF assms]
  by (auto simp: packet_pending_def channel_packet_def packet_types held_simps)

lemma packet_resume_settles:
  assumes "mux_ok h" and "mh_chans h a = Some c"
  shows "settles (packet_resume env a (hold a h)) (channel_packet env PacketType_ChannelResume r payload c (abs_mux h))"
  using assms settles_release [OF assms] settles_noted [OF assms]
  by (auto simp: packet_resume_def channel_packet_def packet_types held_simps)

lemma packet_close_settles:
  assumes "mux_ok h" and "mh_chans h a = Some c"
  shows "settles (packet_close env a (hold a h)) (channel_packet env PacketType_ChannelClose r payload c (abs_mux h))"
  using assms settles_noted [OF assms] by (auto simp: packet_close_def channel_packet_def packet_types held_simps)

lemma packet_dispatch_settles:
  assumes "mux_ok h" and "mh_chans h a = Some c" and "t \<noteq> PacketType_ChannelOpen"
  shows "settles (packet_dispatch env a t r payload (hold a h)) (channel_packet env t r payload c (abs_mux h))"
proof -
  show ?thesis
    using packet_confirm_settles [OF assms(1,2)] packet_data_settles [OF assms(1,2)] packet_keep_alive_settles [OF assms(1,2)]
      packet_pending_settles [OF assms(1,2)] packet_resume_settles [OF assms(1,2)] packet_close_settles [OF assms(1,2)]
      settles_release [OF assms(1,2)] assms(3)
    by (auto simp: packet_dispatch_def) (simp add: channel_packet_def)
qed

subsection \<open>Packets on the wire\<close>

definition wire_packet :: "u8 \<Rightarrow> u8 \<Rightarrow> u16 \<Rightarrow> u16 \<Rightarrow> u8 list \<Rightarrow> u8 list" where
  "wire_packet t opt l r payload = protocol_head t opt l r (word_of_nat (length payload)) @ payload"

lemma wire_packet_fields:
  assumes "length payload < 2 ^ 16"
  shows "wire_packet t opt l r payload ! 0 = t" "wire_packet t opt l r payload ! 1 = opt"
    "get16 (wire_packet t opt l r payload) 2 = l" "get16 (wire_packet t opt l r payload) 4 = r"
    "unat (get16 (wire_packet t opt l r payload) 6) = length payload"
    "length (wire_packet t opt l r payload) = length payload + PROTOCOL_HEAD_LEN"
    "drop PROTOCOL_HEAD_LEN (wire_packet t opt l r payload) = payload"
proof -
  let ?n = "word_of_nat (length payload) :: u16"
  show "wire_packet t opt l r payload ! 0 = t" "wire_packet t opt l r payload ! 1 = opt"
    "length (wire_packet t opt l r payload) = length payload + PROTOCOL_HEAD_LEN"
    "drop PROTOCOL_HEAD_LEN (wire_packet t opt l r payload) = payload"
    by (simp_all add: wire_packet_def protocol_head_def PROTOCOL_HEAD_LEN_def be16_def)
  have w: "wire_packet t opt l r payload = [t, opt] @ be16 l @ be16 r @ be16 ?n @ payload"
    by (simp add: wire_packet_def protocol_head_def)
  show "get16 (wire_packet t opt l r payload) 2 = l" unfolding w by (rule get16_field) simp
  have "get16 (([t, opt] @ be16 l) @ be16 r @ (be16 ?n @ payload)) 4 = r" by (rule get16_field) simp
  then show "get16 (wire_packet t opt l r payload) 4 = r" unfolding w by simp
  have "get16 (([t, opt] @ be16 l @ be16 r) @ be16 ?n @ payload) 6 = ?n" by (rule get16_field) simp
  moreover have "unat ?n = length payload" using assms by (simp add: unat_of_nat)
  ultimately show "unat (get16 (wire_packet t opt l r payload) 6) = length payload" unfolding w by simp
qed

text \<open>A buffer with a packet in it.\<close>

definition holds_packet :: "FlexBuffer \<Rightarrow> u8 list \<Rightarrow> bool" where
  "holds_packet buf p \<longleftrightarrow> flex_ok buf \<and> flex_payload buf = p"

lemma notify_packet_channel:
  assumes b: "holds_packet buf (wire_packet t opt i r payload)" and len: "length payload < 2 ^ 16"
    and t: "1 < unat t" "unat t < 8" and i: "i \<noteq> 0"
  shows "multiplex_handler_notify_packet env buf h =
    do { (q, h1) \<leftarrow> channels_get (ucast i) h;
         case q of None \<Rightarrow> Some h1 | Some a \<Rightarrow> packet_dispatch env a t r payload h1 }"
proof -
  have fo: "flex_ok buf" and fp: "flex_payload buf = wire_packet t opt i r payload" using b by (auto simp: holds_packet_def)
  have sz: "fb_size buf = length payload + PROTOCOL_HEAD_LEN"
    using flex_okD(4) [OF fo] wire_packet_fields(6) [OF len] fp by metis
  have "PROTOCOL_HEAD_LEN \<le> fb_size buf" using sz by simp
  from flex_forward_ok [OF fo this] obtain b' where b': "flex_buffer_forward_offset buf PROTOCOL_HEAD_LEN = Some b'"
    "flex_payload b' = drop PROTOCOL_HEAD_LEN (flex_payload buf)" by metis
  have nt: "t \<noteq> PacketType_ChannelOpen" using t(1) by (auto simp: packet_types)
  show ?thesis
    using nt i t(2) sz b' wire_packet_fields [OF len, of t opt i r]
    by (simp add: multiplex_handler_notify_packet_def flex_buffer_size_def fp Let_def cong: option.case_cong)
qed

lemma notify_packet_refines:
  assumes ok: "mux_ok h" and p: "holds_packet buf (wire_packet t opt i r payload)" "length payload < 2 ^ 16"
    "1 < unat t" "unat t < 8" "i \<noteq> 0"
  shows "settles (multiplex_handler_notify_packet env buf h) (abs_packet env t i r payload (abs_mux h))"
proof -
  have nt: "t \<noteq> PacketType_ChannelOpen" using p(3) by (auto simp: packet_types)
  show ?thesis
  proof (cases "channel_at h i")
    case None
    then have "mh_chans h a = Some c \<Longrightarrow> ch_id c \<noteq> i" for a c using channel_at_iff [OF ok, of i] by auto
    then have "channels_get (ucast i) h = Some (None, h)" using p(5) by (intro channels_get_missing [OF ok]) auto
    then show ?thesis using ok None by (simp add: notify_packet_channel [OF p] settles_def abs_packet_def abs_mux_def)
  next
    case (Some c)
    then obtain a where a: "mh_chans h a = Some c" "ch_id c = i" using channel_at_iff [OF ok] by blast
    from channels_get_found [OF ok a(1)] packet_dispatch_settles [OF ok a(1) nt] show ?thesis
      using Some a(2) by (simp add: notify_packet_channel [OF p] abs_packet_def) (simp add: abs_mux_def)
  qed
qed

subsection \<open>Sending\<close>

lemma send_packet_none:
  assumes "0 < unat t" "unat t < 8"
  shows "\<exists>b. multiplex_handler_send_packet env t opt l r None h =
    Some (if me_write env (mh_trace h) (wire_packet t opt r l []) < 0 then me_write env (mh_trace h) (wire_packet t opt r l []) else 0,
          b, emit_mux (Wrote (wire_packet t opt r l [])) h)"
proof -
  have t: "t \<ge> PacketType_ChannelOpen \<and> t \<le> PacketType_ChannelClose"
    using assms by (simp add: packet_types word_le_nat_alt)
  let ?b = "flex_buffer FLEX_PADDING_LEN FLEX_PADDING_LEN" and ?hd = "protocol_head t opt r l (word_of_nat 0)"
  have b: "flex_ok ?b" "flex_payload ?b = []" by (rule flex_buffer_new; simp add: FLEX_PADDING_LEN_def)+
  have hd: "length ?hd = PROTOCOL_HEAD_LEN" "PROTOCOL_HEAD_LEN \<le> fb_offset ?b"
    by (simp_all add: protocol_head_def PROTOCOL_HEAD_LEN_def flex_buffer_def FLEX_PADDING_LEN_def)
  from flex_prepend_ok [OF b(1) hd] obtain b1 b2 where
    p: "flex_buffer_backward_offset ?b PROTOCOL_HEAD_LEN = Some b1" "flex_buffer_write b1 ?hd = Some b2"
      "flex_payload b2 = ?hd @ flex_payload ?b" by metis
  have "flex_buffer_size ?b = 0" by (simp add: flex_buffer_def flex_buffer_size_def)
  then show ?thesis
    using t p b(2) by (simp add: multiplex_handler_send_packet_def wire_packet_def Let_def)
qed

lemma send_packet_some:
  assumes "0 < unat t" "unat t < 8" and b: "flex_ok buf" "PROTOCOL_HEAD_LEN \<le> fb_offset buf" and "p = wire_packet t opt r l (flex_payload buf)"
  shows "\<exists>b. multiplex_handler_send_packet env t opt l r (Some buf) h =
    Some (if me_write env (mh_trace h) p < 0 then me_write env (mh_trace h) p else int (fb_size buf), b, emit_mux (Wrote p) h)"
proof -
  have t: "t \<ge> PacketType_ChannelOpen \<and> t \<le> PacketType_ChannelClose"
    using assms by (simp add: packet_types word_le_nat_alt)
  let ?hd = "protocol_head t opt r l (word_of_nat (fb_size buf))"
  have hd: "length ?hd = PROTOCOL_HEAD_LEN" by (simp add: protocol_head_def PROTOCOL_HEAD_LEN_def)
  from flex_prepend_ok [OF b(1) hd b(2)] obtain b1 b2 where
    p: "flex_buffer_backward_offset buf PROTOCOL_HEAD_LEN = Some b1" "flex_buffer_write b1 ?hd = Some b2"
      "flex_payload b2 = ?hd @ flex_payload buf" by metis
  then show ?thesis
    using t p flex_okD(4) [OF b(1)]
    by (simp add: multiplex_handler_send_packet_def assms(5) wire_packet_def flex_buffer_size_def Let_def)
qed

subsection \<open>A request to open a channel\<close>

definition new_chan :: "mux_env \<Rightarrow> ChannelType \<Rightarrow> u16 \<Rightarrow> u16 \<Rightarrow> int \<Rightarrow> Channel" where
  "new_chan env ty i r timeout =
     \<lparr>ch_id = i, ch_remote_id = r, ch_type = ty, ch_status = ChannelStatus_Opening, ch_local_timestamp = zero_time,
      ch_remote_timestamp = me_now env, ch_last_activity = me_now env, ch_timeout = timeout\<rparr>"

definition accepts_type :: "MultiplexHandler \<Rightarrow> u8 \<Rightarrow> ChannelType \<Rightarrow> bool" where
  "accepts_type h opt ty \<longleftrightarrow> channel_type_of opt = Some ty
     \<and> (ty = ChannelType_UDP_PortForwarding \<longrightarrow> mh_worker h)
     \<and> (ty = ChannelType_TCP_PortForwarding \<longrightarrow> mh_worker h \<and> mh_reliable h)"

definition refusal :: "u8 list" where
  "refusal = wire_packet PacketType_ChannelOpenConfirmation 0 0 0 []"

definition abs_open :: "mux_env \<Rightarrow> ChannelType \<Rightarrow> u16 \<Rightarrow> u16 \<Rightarrow> u8 list \<Rightarrow> mux_abs \<Rightarrow> mux_abs" where
  "abs_open env ty i r payload s =
     (let cookie = (if payload = [] then None else Some payload);
          ok = me_channel_open env (ma_trace s) i cookie;
          s1 = noted (Open_asked i cookie) s;
          reply = wire_packet PacketType_ChannelOpenConfirmation 0 r (if ok then i else 0) [];
          s2 = noted (Wrote reply) s1
      in if ok \<and> 0 \<le> me_write env (ma_trace s1) reply
         then store ((new_chan env ty i r 0)\<lparr>ch_status := ChannelStatus_Open\<rparr>) (noted (Opened i) s2)
         else if ok then noted (Closed i CloseReason_Error) s2 else s2)"

lemma alloc_dropped:
  assumes ok: "mux_ok h" and ids: "ids_ok ids" "max_index ids = MAX_CHANNEL_ID" "live_ids ids = live_ids (mh_ids h)"
  shows "settles (channel_deref env (mh_fresh h) ((snd (channel_alloc h))\<lparr>mh_ids := ids\<rparr>)) (abs_mux h)"
proof -
  let ?a = "mh_fresh h"
  have a: "?a \<notin> set (slots h)" "mh_chans h ?a = None" using fresh_slot [OF ok] by simp_all
  define g where "g = h\<lparr>mh_fresh := ?a + 1, mh_channels := (mh_channels h)\<lparr>ht_refs := (ht_refs (mh_channels h))(?a := 0)\<rparr>, mh_ids := ids\<rparr>"
  have g: "mh_fresh g = ?a + 1" "mh_chans g = mh_chans h" "mh_ids g = ids" "mh_trace g = mh_trace h" "mux_mode g = mux_mode h"
    "mh_channels g = (mh_channels h)\<lparr>ht_refs := (ht_refs (mh_channels h))(?a := 0)\<rparr>"
    by (simp_all add: g_def mux_mode_def)
  have up: "(mh_chans h)(?a := None) = mh_chans h" using a(2) by auto
  have "channel_deref env ?a ((snd (channel_alloc h))\<lparr>mh_ids := ids\<rparr>) = Some g"
    using up by (simp add: channel_deref_def channel_alloc_def channel_destroy_def g_def Let_def ht_deref_def)
  moreover have c: "contents (mh_channels g) = contents (mh_channels h)" "ht_ok (mh_channels g) = ht_ok (mh_channels h)"
    by (simp_all add: g contents_def key_of_def data_of_def ht_ok_def bucket_index_def cong: map_cong)
  moreover have "chan_id_of g = chan_id_of h" "slots g = slots h" by (simp_all add: chan_id_of_def fun_eq_iff g)
  then have "mux_ok g" using ok c ids a(1) unfolding mux_ok_def by (auto simp: g less_SucI)
  moreover have "abs_mux g = abs_mux h" unfolding abs_mux_def channel_at_def c g(2,4,5) by (rule refl)
  ultimately show ?thesis by (simp add: settles_def)
qed

lemma deref_emit: "channel_deref env a (emit_mux e h) = map_option (emit_mux e) (channel_deref env a h)"
proof (cases "mh_chans h a")
  case (Some c)
  then show ?thesis
    by (cases "ids_heap_free (me_shl1 env) 0 (mh_ids h) (uint (ch_id c))")
      (auto simp: channel_deref_def channel_destroy_def emit_mux_def Let_def)
qed (simp add: channel_deref_def)

lemma settles_emit: "settles m s \<Longrightarrow> settles (map_option (emit_mux e) m) (noted e s)"
  by (auto simp: settles_def)

lemma packet_open_settles:
  assumes ok: "mux_ok h" and c: "mh_chans h a = Some (new_chan env ty i r 0)"
    and s: "abs_mux h = store (new_chan env ty i r 0) s" "ma_channels s i = None"
  shows "settles (packet_open env a payload (hold a h)) (abs_open env ty i r payload s)"
proof -
  define ch where "ch = new_chan env ty i r 0"
  define cookie where "cookie = (if payload = [] then None else Some payload)"
  define ok' where "ok' = me_channel_open env (ma_trace s) i cookie"
  define cid where "cid = (if ok' then i else 0)"
  define w where "w = wire_packet PacketType_ChannelOpenConfirmation 0 r cid []"
  define rc where "rc = me_write env (ma_trace s @ [Open_asked i cookie]) w"
  define g where "g = emit_mux (Wrote w) (emit_mux (Open_asked i cookie) h)"
  have ci: "ch_id ch = i" "ch_remote_id ch = r" by (simp_all add: ch_def new_chan_def)
  have tr: "mh_trace h = ma_trace s" using arg_cong [OF s(1), of ma_trace] by (simp add: abs_mux_def store_def)
  have pt: "0 < unat PacketType_ChannelOpenConfirmation" "unat PacketType_ChannelOpenConfirmation < 8" by (simp_all add: packet_types)
  from send_packet_none [OF pt, of env 0 cid r "emit_mux (Open_asked i cookie) h"] obtain b where
    snd: "multiplex_handler_send_packet env PacketType_ChannelOpenConfirmation 0 cid r None (emit_mux (Open_asked i cookie) h)
      = Some (if rc < 0 then rc else 0, b, g)" by (auto simp: tr w_def rc_def g_def)
  have ch: "mh_chans h a = Some ch" using c by (simp add: ch_def)
  have g: "mux_ok g" "mh_chans g a = Some ch" "abs_mux g = noted (Wrote w) (noted (Open_asked i cookie) (store ch s))"
    using ok ch s(1) by (simp_all add: g_def ch_def)
  have ev: "packet_open env a payload (hold a h) = do {
      h3 \<leftarrow> (if \<not> ok' \<or> rc < 0 then channels_remove env (ucast i) (hold a (if ok' then emit_mux (Closed i CloseReason_Error) g else g))
             else do { b \<leftarrow> chan_upd a (\<lambda>c. c\<lparr>ch_status := ChannelStatus_Open\<rparr>) (hold a g);
                       update_remote_timestamp env a (emit_mux (Opened i) b) });
      channel_deref env a h3 }"
    unfolding packet_open_def Let_def cookie_def [symmetric] hold_fields ch Option.bind.bind_lunit ci tr ok'_def [symmetric]
      cid_def [symmetric] hold_emit hold_send_packet snd
    by (simp add: hold_simps)
  have spec: "abs_open env ty i r payload s = (if ok' \<and> 0 \<le> rc
      then store (ch\<lparr>ch_status := ChannelStatus_Open\<rparr>) (noted (Opened i) (noted (Wrote w) (noted (Open_asked i cookie) s)))
      else if ok' then noted (Closed i CloseReason_Error) (noted (Wrote w) (noted (Open_asked i cookie) s))
      else noted (Wrote w) (noted (Open_asked i cookie) s))"
    unfolding abs_open_def Let_def cookie_def [symmetric] ok'_def [symmetric] cid_def [symmetric] w_def [symmetric] ch_def [symmetric]
    by (simp add: rc_def noted_def)
  have same: "ch\<lparr>ch_status := ChannelStatus_Open, ch_remote_timestamp := me_now env, ch_last_activity := me_now env\<rparr>
      = ch\<lparr>ch_status := ChannelStatus_Open\<rparr>" by (simp add: ch_def new_chan_def)
  have dr: "drop_channel i (noted e1 (noted e2 (store ch s))) = noted e1 (noted e2 s)"
    "drop_channel i (noted e3 (noted e1 (noted e2 (store ch s)))) = noted e3 (noted e1 (noted e2 s))"
    "store (ch\<lparr>ch_status := st\<rparr>) (noted e3 (noted e1 (noted e2 (store ch s)))) = store (ch\<lparr>ch_status := st\<rparr>) (noted e3 (noted e1 (noted e2 s)))"
    for e1 e2 e3 st
    using s(2) by (auto simp: drop_channel_def noted_def store_def ci fun_eq_iff intro!: mux_abs.equality)
  consider "ok'" "0 \<le> rc" | "ok'" "rc < 0" | "\<not> ok'" by linarith
  then show ?thesis
  proof cases
    case 1
    with settles_noted(1) [OF g(1,2), of "ch\<lparr>ch_status := ChannelStatus_Open\<rparr>" env "Opened i"] show ?thesis
      unfolding ev spec by (simp add: held_simps g(2,3) same dr)
  next
    case 2
    with settles_noted(2) [OF g(1,2), of env "Closed i CloseReason_Error"] show ?thesis
      unfolding ev spec by (simp add: ci g(3) dr)
  next
    case 3
    with settles_close [OF g(1,2), of env] show ?thesis
      unfolding ev spec by (simp add: ci g(3) dr)
  qed
qed

text \<open>Finding an identifier, for a channel that is opened from either side.\<close>

definition ids_full :: "MultiplexHandler \<Rightarrow> bool" where
  "ids_full h \<longleftrightarrow> live_ids (mh_ids h) = {1..MAX_CHANNEL_ID}"

lemma alloc_id:
  assumes ok: "mux_ok h"
  obtains (full) ids where "ids_full h" "ids_heap_alloc 0 (mh_ids h) = Some (-1, ids)" "ids_ok ids"
      "max_index ids = MAX_CHANNEL_ID" "live_ids ids = live_ids (mh_ids h)"
  | (free) i ids where "\<not> ids_full h" "ids_heap_alloc 0 (mh_ids h) = Some (uint i, ids)" "ids_ok ids" "max_index ids = MAX_CHANNEL_ID"
      "live_ids ids = insert (uint i) (live_ids (mh_ids h))" "uint i \<notin> live_ids (mh_ids h)" "(i :: u16) \<noteq> 0" "channel_at h i = None"
proof -
  note m = mux_okD(3) [OF ok]
  from ids_heap_alloc_spec [OF mux_okD(2) [OF ok]] obtain q ids where
    q: "ids_heap_alloc 0 (mh_ids h) = Some (q, ids)" "ids_ok ids" "max_index ids = MAX_CHANNEL_ID"
      "if ids_full h then q = -1 \<and> live_ids ids = live_ids (mh_ids h)
       else q \<in> {1..MAX_CHANNEL_ID} - live_ids (mh_ids h) \<and> live_ids ids = insert q (live_ids (mh_ids h))"
    unfolding m ids_full_def by metis
  show thesis
  proof (cases "ids_full h")
    case True
    with q show thesis by (intro full [of ids]) auto
  next
    case False
    let ?i = "word_of_int q :: u16"
    have r: "1 \<le> q" "q \<le> MAX_CHANNEL_ID" "q \<notin> live_ids (mh_ids h)" using False q(4) by auto
    then have u: "uint ?i = q" by (intro uint_word_of_id) auto
    then have "?i \<noteq> 0" using r(1) by auto
    moreover have "channel_at h ?i = None"
      using channel_at_iff [OF ok, of ?i] stored(6) [OF ok] u r(3) by (metis option.exhaust)
    ultimately show thesis using False q u r by (intro free [of ?i ids]) simp_all
  qed
qed

lemma incoming_channel_new:
  assumes ok: "mux_ok h" and ty: "accepts_type h opt ty"
    and i: "ids_heap_alloc 0 (mh_ids h) = Some (uint i, ids)" "ids_ok ids" "max_index ids = MAX_CHANNEL_ID"
      "live_ids ids = insert (uint i) (live_ids (mh_ids h))" "uint i \<notin> live_ids (mh_ids h)" "(i :: u16) \<noteq> 0"
  shows "\<exists>h'. incoming_channel env opt r h = Some (Some (mh_fresh h), hold (mh_fresh h) h')
    \<and> with_chan (mh_fresh h) (new_chan env ty i r 0) ids h h'"
proof -
  let ?c = "new_chan env ty i r 0" and ?a = "mh_fresh h"
  have "ch_id ?c = i" by (simp add: new_chan_def)
  with channels_put_new [OF ok i(2,3), of ?c] i obtain h' where
    p: "channels_put ?a (set_chan ?a ?c ((snd (channel_alloc h))\<lparr>mh_ids := ids\<rparr>)) = Some (hold ?a h')"
      "with_chan ?a ?c ids h h'" by auto
  obtain h1 where h1: "channel_alloc h = (?a, h1)" by (simp add: channel_alloc_def Let_def)
  then have a: "mh_ids h1 = mh_ids h" "mh_chans h1 ?a = Some \<lparr>ch_id = 0, ch_remote_id = 0, ch_type = ChannelType_User,
      ch_status = ChannelStatus_Opening, ch_local_timestamp = zero_time, ch_remote_timestamp = zero_time,
      ch_last_activity = zero_time, ch_timeout = 0\<rparr>" by (auto simp: channel_alloc_def Let_def)
  have nb: "\<not> ((ty = ChannelType_UDP_PortForwarding \<and> \<not> mh_worker h)
             \<or> (ty = ChannelType_TCP_PortForwarding \<and> (\<not> mh_worker h \<or> \<not> mh_reliable h)))"
    and co: "channel_type_of opt = Some ty" using ty by (auto simp: accepts_type_def)
  have "incoming_channel env opt r h = channels_put ?a (set_chan ?a ?c ((snd (channel_alloc h))\<lparr>mh_ids := ids\<rparr>)) \<bind> (\<lambda>h5. Some (Some ?a, h5))"
    unfolding incoming_channel_def co option.case if_not_P [OF nb]
    using i(1) a by (simp add: h1 chan_upd_Some update_remote_timestamp_def new_chan_def)
  with p show ?thesis by auto
qed

lemma incoming_channel_refused:
  assumes ok: "mux_ok h" and ty: "accepts_type h opt ty"
    and ids: "ids_heap_alloc 0 (mh_ids h) = Some (-1, ids)" "ids_ok ids"
      "max_index ids = MAX_CHANNEL_ID" "live_ids ids = live_ids (mh_ids h)"
  shows "settles (map_option snd (incoming_channel env opt r h)) (noted (Wrote refusal) (abs_mux h))
    \<and> (\<forall>q h'. incoming_channel env opt r h = Some (q, h') \<longrightarrow> q = None)"
proof -
  let ?a = "mh_fresh h"
  obtain h1 where h1: "channel_alloc h = (?a, h1)" by (simp add: channel_alloc_def Let_def)
  then have a: "mh_ids h1 = mh_ids h" "\<exists>c. mh_chans h1 ?a = Some c \<and> ch_remote_id c = 0" by (auto simp: channel_alloc_def Let_def)
  have pt: "0 < unat PacketType_ChannelOpenConfirmation" "unat PacketType_ChannelOpenConfirmation < 8" by (simp_all add: packet_types)
  from send_packet_none [OF pt, of env 0 0 0 "h1\<lparr>mh_ids := ids\<rparr>"] obtain rc b where
    snd: "multiplex_handler_send_packet env PacketType_ChannelOpenConfirmation 0 0 0 None (h1\<lparr>mh_ids := ids\<rparr>)
      = Some (rc, b, emit_mux (Wrote refusal) (h1\<lparr>mh_ids := ids\<rparr>))" by (auto simp: refusal_def)
  have nb: "\<not> ((ty = ChannelType_UDP_PortForwarding \<and> \<not> mh_worker h)
             \<or> (ty = ChannelType_TCP_PortForwarding \<and> (\<not> mh_worker h \<or> \<not> mh_reliable h)))"
    and co: "channel_type_of opt = Some ty" using ty by (auto simp: accepts_type_def)
  have "incoming_channel env opt r h = map_option (\<lambda>h'. (None, h')) (channel_deref env ?a (emit_mux (Wrote refusal) (h1\<lparr>mh_ids := ids\<rparr>)))"
    unfolding incoming_channel_def co option.case if_not_P [OF nb]
    using ids(1) a snd by (auto simp: h1 map_conv_bind_option comp_def)
  moreover have "settles (channel_deref env ?a (h1\<lparr>mh_ids := ids\<rparr>)) (abs_mux h)"
    using alloc_dropped [OF ok ids(2-4), of env] h1 by simp
  ultimately show ?thesis by (auto simp: deref_emit option.map_comp comp_def dest: settles_emit)
qed

lemma incoming_channel_ignored:
  assumes "\<forall>ty. \<not> accepts_type h opt ty"
  shows "incoming_channel env opt r h = Some (None, h)"
  using assms unfolding incoming_channel_def accepts_type_def by (cases "channel_type_of opt") (auto simp del: channel_type_of.simps)

lemma notify_packet_open:
  assumes b: "holds_packet buf (wire_packet PacketType_ChannelOpen opt i r payload)" and len: "length payload < 2 ^ 16"
  shows "multiplex_handler_notify_packet env buf h =
    do { (q, h1) \<leftarrow> incoming_channel env opt r h;
         case q of None \<Rightarrow> Some h1 | Some a \<Rightarrow> packet_open env a payload h1 }"
proof -
  let ?t = PacketType_ChannelOpen
  have fo: "flex_ok buf" and fp: "flex_payload buf = wire_packet ?t opt i r payload" using b by (auto simp: holds_packet_def)
  have sz: "fb_size buf = length payload + PROTOCOL_HEAD_LEN"
    using flex_okD(4) [OF fo] wire_packet_fields(6) [OF len] fp by metis
  have "PROTOCOL_HEAD_LEN \<le> fb_size buf" using sz by simp
  from flex_forward_ok [OF fo this] obtain b' where b': "flex_buffer_forward_offset buf PROTOCOL_HEAD_LEN = Some b'"
    "flex_payload b' = drop PROTOCOL_HEAD_LEN (flex_payload buf)" by metis
  have t: "?t \<noteq> PacketType_ChannelData" "unat ?t < 8" by (simp_all add: packet_types)
  show ?thesis
    using t sz b' wire_packet_fields [OF len, of ?t opt i r]
    by (simp add: multiplex_handler_notify_packet_def flex_buffer_size_def fp Let_def packet_dispatch_def cong: option.case_cong)
qed

lemma notify_open_refines:
  assumes ok: "mux_ok h" and p: "holds_packet buf (wire_packet PacketType_ChannelOpen opt i0 r payload)" "length payload < 2 ^ 16"
  shows "\<forall>ty. \<not> accepts_type h opt ty \<Longrightarrow> settles (multiplex_handler_notify_packet env buf h) (abs_mux h)"
    "accepts_type h opt ty \<Longrightarrow> ids_full h \<Longrightarrow> settles (multiplex_handler_notify_packet env buf h) (noted (Wrote refusal) (abs_mux h))"
    "accepts_type h opt ty \<Longrightarrow> \<not> ids_full h \<Longrightarrow> \<exists>i. i \<noteq> 0 \<and> uint i \<notin> live_ids (mh_ids h) \<and> channel_at h i = None
      \<and> settles (multiplex_handler_notify_packet env buf h) (abs_open env ty i r payload (abs_mux h))"
proof -
  show "settles (multiplex_handler_notify_packet env buf h) (abs_mux h)" if "\<forall>ty. \<not> accepts_type h opt ty"
    using ok by (simp add: notify_packet_open [OF p] incoming_channel_ignored [OF that] settles_def)
next
  assume ty: "accepts_type h opt ty" "ids_full h"
  show "settles (multiplex_handler_notify_packet env buf h) (noted (Wrote refusal) (abs_mux h))"
  proof (cases rule: alloc_id [OF ok])
    case (1 ids)
    from incoming_channel_refused [OF ok ty(1) 1(2-5), of env r] show ?thesis
      by (auto simp: notify_packet_open [OF p] settles_def split: option.splits)
  next
    case (2 i ids)
    with ty show ?thesis by simp
  qed
next
  assume ty: "accepts_type h opt ty" "\<not> ids_full h"
  show "\<exists>i. i \<noteq> 0 \<and> uint i \<notin> live_ids (mh_ids h) \<and> channel_at h i = None
      \<and> settles (multiplex_handler_notify_packet env buf h) (abs_open env ty i r payload (abs_mux h))"
  proof (cases rule: alloc_id [OF ok])
    case (1 ids)
    with ty show ?thesis by simp
  next
    case (2 i ids)
    from incoming_channel_new [OF ok ty(1) 2(2-7), of env r] obtain h' where
      h': "incoming_channel env opt r h = Some (Some (mh_fresh h), hold (mh_fresh h) h')"
        "with_chan (mh_fresh h) (new_chan env ty i r 0) ids h h'" by blast
    have "mux_ok h'" "mh_chans h' (mh_fresh h) = Some (new_chan env ty i r 0)"
      "abs_mux h' = store (new_chan env ty i r 0) (abs_mux h)" "ma_channels (abs_mux h) i = None"
      using h'(2) 2(8) by (auto simp: with_chan_def abs_mux_def store_def)
    from packet_open_settles [OF this] h'(1) 2 show ?thesis by (auto simp: notify_packet_open [OF p])
  qed
qed

subsection \<open>The interface for channels\<close>

definition returns :: "(int \<times> MultiplexHandler) option \<Rightarrow> int \<times> mux_abs \<Rightarrow> bool" where
  "returns m q \<longleftrightarrow> (\<exists>h'. m = Some (fst q, h') \<and> mux_ok h' \<and> abs_mux h' = snd q)"

lemma returns_settles: "settles m s \<Longrightarrow> returns (do { h' \<leftarrow> m; Some (rc, h') }) (rc, s)"
  by (auto simp: settles_def returns_def)

definition abs_find :: "mux_abs \<Rightarrow> int \<Rightarrow> Channel option" where
  "abs_find s cid = (if cid < 2 ^ 16 then ma_channels s (word_of_int cid) else None)"

lemma word_of_id:
  assumes "0 \<le> cid" "cid < 2 ^ 31"
  shows "(ucast (i :: u16) :: u32) = word_of_int cid \<longleftrightarrow> uint i = cid"
proof -
  have "uint (ucast i :: u32) = uint i"
    by (simp add: unsigned_ucast_eq take_bit_int_eq_self order_less_trans [OF uint_lt2p])
  moreover have "uint (word_of_int cid :: u32) = cid" using assms by (simp add: uint_word_of_int_eq take_bit_int_eq_self)
  ultimately show ?thesis by (metis word_uint_eq_iff)
qed

lemma channels_get_id:
  assumes ok: "mux_ok h" and cid: "0 < cid" "cid < 2 ^ 31"
  obtains (missing) "abs_find (abs_mux h) cid = None" "channels_get (word_of_int cid) h = Some (None, h)"
  | (found) a c where "abs_find (abs_mux h) cid = Some c" "mh_chans h a = Some c" "uint (ch_id c) = cid"
      "channels_get (ucast (ch_id c)) h = Some (Some a, hold a h)" "(word_of_int cid :: u32) = ucast (ch_id c)"
proof (cases "abs_find (abs_mux h) cid")
  case None
  have "ucast (ch_id c) \<noteq> (word_of_int cid :: u32)" if "mh_chans h a = Some c" for a c
  proof
    assume "ucast (ch_id c) = (word_of_int cid :: u32)"
    with word_of_id [of cid "ch_id c"] cid have u: "uint (ch_id c) = cid" by simp
    then have "cid < 2 ^ 16" "word_of_int cid = ch_id c" using uint_lt2p [of "ch_id c"] by auto
    with None stored(7) [OF ok that] show False by (simp add: abs_find_def abs_mux_def)
  qed
  moreover have "(word_of_int cid :: u32) \<noteq> 0"
    using word_of_id [of cid 0] cid by simp
  ultimately show thesis using None by (intro missing channels_get_missing [OF ok])
next
  case (Some c)
  then have l: "cid < 2 ^ 16" "channel_at h (word_of_int cid) = Some c" by (auto simp: abs_find_def abs_mux_def split: if_splits)
  then obtain a where a: "mh_chans h a = Some c" "ch_id c = word_of_int cid" using channel_at_iff [OF ok] by blast
  then have u: "uint (ch_id c) = cid" using l cid by (simp add: uint_word_of_int_eq take_bit_int_eq_self)
  then have w: "(word_of_int cid :: u32) = ucast (ch_id c)" using word_of_id [of cid "ch_id c"] cid by simp
  show thesis by (rule found [OF Some a(1) u channels_get_found [OF ok a(1)] w])
qed

definition abs_close :: "int \<Rightarrow> mux_abs \<Rightarrow> int \<times> mux_abs" where
  "abs_close cid s =
     (case abs_find s cid of
        None \<Rightarrow> (IOEX_GENERAL_ERROR IOEXERR_NOT_EXIST, s)
      | Some c \<Rightarrow>
          let s1 = (if ch_remote_id c \<noteq> 0
                    then noted (Wrote (wire_packet PacketType_ChannelClose 0 (ch_remote_id c) (ch_id c) [])) s else s)
          in (0, drop_channel (ch_id c) (noted (Closed (ch_id c) CloseReason_Normal) s1)))"

text \<open>Sending a packet over an open channel: what writing, pausing and resuming have in common.\<close>

definition local_active :: "mux_env \<Rightarrow> Channel \<Rightarrow> Channel" where
  "local_active env c = c\<lparr>ch_local_timestamp := me_now env, ch_last_activity := me_now env\<rparr>"

definition abs_send :: "mux_env \<Rightarrow> u8 \<Rightarrow> u8 list \<Rightarrow> int \<Rightarrow> mux_abs \<Rightarrow> int \<times> mux_abs" where
  "abs_send env t payload cid s =
     (case abs_find s cid of
        None \<Rightarrow> (IOEX_GENERAL_ERROR IOEXERR_NOT_EXIST, s)
      | Some c \<Rightarrow>
          if ch_status c \<notin> {ChannelStatus_Open, ChannelStatus_Pending} \<or> ch_remote_id c = 0
          then (IOEX_GENERAL_ERROR IOEXERR_WRONG_STATE, s)
          else
            let p = wire_packet t 0 (ch_remote_id c) (ch_id c) payload;
                rc = me_write env (ma_trace s) p;
                s1 = noted (Wrote p) s
            in if rc < 0 then (rc, s1) else (int (length payload), store (local_active env c) s1))"

lemma close_channel_refines:
  assumes ok: "mux_ok h" and cid: "0 < cid" "cid < 2 ^ 31"
  shows "returns (multiplex_handler_close_channel env cid h) (abs_close cid (abs_mux h))"
proof (cases rule: channels_get_id [OF ok cid])
  case 1
  then show ?thesis using ok cid by (simp add: multiplex_handler_close_channel_def abs_close_def returns_def)
next
  case (2 a c)
  have pt: "0 < unat PacketType_ChannelClose" "unat PacketType_ChannelClose < 8" by (simp_all add: packet_types)
  from send_packet_none [OF pt, of env 0 "ch_id c" "ch_remote_id c" h] obtain rc b where
    snd: "multiplex_handler_send_packet env PacketType_ChannelClose 0 (ch_id c) (ch_remote_id c) None h
      = Some (rc, b, emit_mux (Wrote (wire_packet PacketType_ChannelClose 0 (ch_remote_id c) (ch_id c) [])) h)" by blast
  note st = settles_noted(2,3) [OF ok 2(2), THEN returns_settles [where rc = 0]]
  show ?thesis
    using st cid by (simp add: multiplex_handler_close_channel_def abs_close_def 2(1,2,4,5) hold_simps snd Let_def)
qed

text \<open>The part that writing, pausing and resuming share, after the lookup.\<close>

lemma held_send_returns:
  assumes ok: "mux_ok h" and c: "mh_chans h a = Some c" and f: "abs_find (abs_mux h) cid = Some c"
    and opn: "ch_status c \<in> {ChannelStatus_Open, ChannelStatus_Pending}" "ch_remote_id c \<noteq> 0"
    and p: "p = wire_packet t 0 (ch_remote_id c) (ch_id c) payload" and rc: "rc = me_write env (mh_trace h) p"
  shows "returns (do {
      h3 \<leftarrow> (if (if rc < 0 then rc else int (length payload)) \<ge> 0 then touch_local env a (hold a (emit_mux (Wrote p) h)) else Some (hold a (emit_mux (Wrote p) h)));
      h4 \<leftarrow> channel_deref env a h3;
      Some (if rc < 0 then rc else int (length payload), h4) }) (abs_send env t payload cid (abs_mux h))"
proof -
  have tr: "ma_trace (abs_mux h) = mh_trace h" by (simp add: abs_mux_def)
  have e: "mux_ok (emit_mux (Wrote p) h)" "mh_chans (emit_mux (Wrote p) h) a = Some c" using ok c by simp_all
  have spec: "abs_send env t payload cid (abs_mux h) = (if rc < 0 then (rc, noted (Wrote p) (abs_mux h))
      else (int (length payload), store (local_active env c) (noted (Wrote p) (abs_mux h))))"
    using f opn tr by (auto simp: abs_send_def Let_def p rc)
  show ?thesis
    using returns_settles [OF settles_release [OF e, of env], where rc = rc]
      returns_settles [OF settles_noted(1) [OF ok c, of "local_active env c" env "Wrote p"], where rc = "int (length payload)"] c
    unfolding spec by (simp add: touch_local_def hold_simps chan_upd_Some local_active_def)
qed

lemma write_channel_refines:
  assumes ok: "mux_ok h" and cid: "0 < cid" "cid < 2 ^ 31" and b: "flex_ok buf" "PROTOCOL_HEAD_LEN \<le> fb_offset buf"
  shows "returns (multiplex_handler_write_channel env cid buf h) (abs_send env PacketType_ChannelData (flex_payload buf) cid (abs_mux h))"
proof (cases rule: channels_get_id [OF ok cid])
  case 1
  then show ?thesis using ok cid by (simp add: multiplex_handler_write_channel_def abs_send_def returns_def)
next
  case (2 a c)
  let ?p = "wire_packet PacketType_ChannelData 0 (ch_remote_id c) (ch_id c) (flex_payload buf)"
  have pt: "0 < unat PacketType_ChannelData" "unat PacketType_ChannelData < 8" by (simp_all add: packet_types)
  define rc where "rc = me_write env (mh_trace h) ?p"
  from send_packet_some [OF pt b refl, where env = env and opt = 0 and l = "ch_id c" and r = "ch_remote_id c" and h = h] obtain b' where
    snd: "multiplex_handler_send_packet env PacketType_ChannelData 0 (ch_id c) (ch_remote_id c) (Some buf) h
      = Some (if rc < 0 then rc else int (length (flex_payload buf)), b', emit_mux (Wrote ?p) h)"
    using flex_okD(4) [OF b(1)] by (auto simp: rc_def)
  show ?thesis
  proof (cases "ch_status c \<in> {ChannelStatus_Open, ChannelStatus_Pending} \<and> ch_remote_id c \<noteq> 0")
    case False
    with returns_settles [OF settles_release [OF ok 2(2), of env], of "IOEX_GENERAL_ERROR IOEXERR_WRONG_STATE"] cid show ?thesis
      by (auto simp: multiplex_handler_write_channel_def abs_send_def 2(1,2,4,5))
  next
    case True
    with held_send_returns [OF ok 2(2,1) _ _ refl rc_def] cid show ?thesis
      by (auto simp: multiplex_handler_write_channel_def 2(2,4,5) hold_simps snd)
  qed
qed

lemma channel_signal_refines:
  assumes ok: "mux_ok h" and cid: "0 < cid" "cid < 2 ^ 31" and pt: "0 < unat t" "unat t < 8"
  shows "returns (channel_signal env t cid h) (abs_send env t [] cid (abs_mux h))"
proof (cases rule: channels_get_id [OF ok cid])
  case 1
  then show ?thesis using ok cid by (simp add: channel_signal_def abs_send_def returns_def)
next
  case (2 a c)
  let ?p = "wire_packet t 0 (ch_remote_id c) (ch_id c) []"
  define rc where "rc = me_write env (mh_trace h) ?p"
  from send_packet_none [OF pt, where env = env and opt = 0 and l = "ch_id c" and r = "ch_remote_id c" and h = h] obtain b' where
    snd: "multiplex_handler_send_packet env t 0 (ch_id c) (ch_remote_id c) None h = Some (if rc < 0 then rc else 0, b', emit_mux (Wrote ?p) h)"
    by (auto simp: rc_def)
  have eq: "(if rc < 0 then rc else 0) = 0 \<longleftrightarrow> (if rc < 0 then rc else int (length ([] :: u8 list))) \<ge> 0" by simp
  show ?thesis
  proof (cases "ch_status c \<in> {ChannelStatus_Open, ChannelStatus_Pending} \<and> ch_remote_id c \<noteq> 0")
    case False
    with returns_settles [OF settles_release [OF ok 2(2), of env], of "IOEX_GENERAL_ERROR IOEXERR_WRONG_STATE"] cid show ?thesis
      by (auto simp: channel_signal_def abs_send_def 2(1,2,4,5))
  next
    case True
    with held_send_returns [OF ok 2(2,1) _ _ refl rc_def] cid show ?thesis
      by (auto simp: channel_signal_def 2(2,4,5) hold_simps snd split: if_splits)
  qed
qed

definition abs_open_local :: "mux_env \<Rightarrow> ChannelType \<Rightarrow> u8 list option \<Rightarrow> int \<Rightarrow> u16 \<Rightarrow> mux_abs \<Rightarrow> int \<times> mux_abs" where
  "abs_open_local env ty cookie timeout i s =
     (let p = wire_packet PacketType_ChannelOpen (channel_type_code ty) 0 i (case cookie of None \<Rightarrow> [] | Some ck \<Rightarrow> ck @ [0]);
          rc = me_write env (ma_trace s) p;
          s1 = noted (Wrote p) s
      in if rc < 0 then (rc, s1) else (uint i, store (new_chan env ty i 0 timeout) s1))"

lemma open_packet_sent:
  assumes "\<forall>ck. cookie = Some ck \<longrightarrow> length ck < 2 ^ 32" and t: "0 < unat t" "unat t < 8"
    and p: "p = wire_packet t opt r l (case cookie of None \<Rightarrow> [] | Some ck \<Rightarrow> ck @ [0])"
  shows "\<exists>n b. 0 \<le> n \<and> do { buf \<leftarrow> (case cookie of
                   None \<Rightarrow> Some None
                 | Some ck \<Rightarrow> do { b \<leftarrow> flex_buffer_from FLEX_PADDING_LEN (ck @ [0]) (length ck + 1); Some (Some b) });
         multiplex_handler_send_packet env t opt l r buf h }
    = Some (if me_write env (mh_trace h) p < 0 then me_write env (mh_trace h) p else n, b, emit_mux (Wrote p) h)"
proof (cases cookie)
  case None
  then show ?thesis using send_packet_none [OF t, of env opt l r h] p by (intro exI [of _ 0]) auto
next
  case (Some ck)
  then have "FLEX_PADDING_LEN + length (ck @ [0]) < 2 ^ 62" using assms(1) by (simp add: FLEX_PADDING_LEN_def)
  from flex_buffer_from_ok [OF this] obtain b where b: "flex_buffer_from FLEX_PADDING_LEN (ck @ [0]) (length ck + 1) = Some b" "flex_ok b"
    "flex_payload b = ck @ [0]" "fb_offset b = FLEX_PADDING_LEN" by auto
  have "PROTOCOL_HEAD_LEN \<le> fb_offset b" by (simp add: b(4) FLEX_PADDING_LEN_def PROTOCOL_HEAD_LEN_def)
  from send_packet_some [OF t b(2) this refl, where env = env and opt = opt and l = l and r = r and h = h]
  show ?thesis using Some b(1,3) p by (intro exI [of _ "int (fb_size b)"]) auto
qed

lemma open_channel_full:
  assumes ok: "mux_ok h" and ty: "ty = ChannelType_User \<or> mh_portforwarding h" "ty = ChannelType_TCP_PortForwarding \<longrightarrow> mh_reliable h"
    and full: "ids_full h"
  shows "returns (multiplex_handler_open_channel env ty cookie timeout h) (IOEX_GENERAL_ERROR IOEXERR_LIMIT_EXCEEDED, abs_mux h)"
proof (cases rule: alloc_id [OF ok])
  case (1 ids)
  obtain h1 where h1: "channel_alloc h = (mh_fresh h, h1)" by (simp add: channel_alloc_def Let_def)
  then have "mh_ids h1 = mh_ids h" by (auto simp: channel_alloc_def Let_def)
  with returns_settles [OF alloc_dropped [OF ok 1(3-5), of env], of "IOEX_GENERAL_ERROR IOEXERR_LIMIT_EXCEEDED"] ty 1(2) h1
  show ?thesis by (simp add: multiplex_handler_open_channel_def)
next
  case (2 i ids)
  with full show ?thesis by simp
qed

lemma settles_remove:
  assumes "mux_ok h" and "mh_chans h a = Some c"
  shows "settles (channels_remove env (ucast (ch_id c)) h) (drop_channel (ch_id c) (abs_mux h))"
  using channels_remove_ok [OF assms, of env] without_abs [OF assms] by (auto simp: settles_def)

lemma open_channel_new:
  assumes ok: "mux_ok h" and ty: "ty = ChannelType_User \<or> mh_portforwarding h" "ty = ChannelType_TCP_PortForwarding \<longrightarrow> mh_reliable h"
    and ck: "\<forall>ck. cookie = Some ck \<longrightarrow> length ck < 2 ^ 32"
    and i: "ids_heap_alloc 0 (mh_ids h) = Some (uint i, ids)" "ids_ok ids" "max_index ids = MAX_CHANNEL_ID"
      "live_ids ids = insert (uint i) (live_ids (mh_ids h))" "uint i \<notin> live_ids (mh_ids h)" "(i :: u16) \<noteq> 0" "channel_at h i = None"
  shows "returns (multiplex_handler_open_channel env ty cookie timeout h) (abs_open_local env ty cookie timeout i (abs_mux h))"
proof -
  define c where "c = new_chan env ty i 0 timeout"
  let ?a = "mh_fresh h"
  define p where "p = wire_packet PacketType_ChannelOpen (channel_type_code ty) 0 i (case cookie of None \<Rightarrow> [] | Some ck \<Rightarrow> ck @ [0])"
  have ci: "ch_id c = i" "ch_remote_id c = 0" by (simp_all add: c_def new_chan_def)
  with channels_put_new [OF ok i(2,3), of c] i obtain h' where
    put: "channels_put ?a (set_chan ?a c ((snd (channel_alloc h))\<lparr>mh_ids := ids\<rparr>)) = Some (hold ?a h')"
      "with_chan ?a c ids h h'" by auto
  have h': "mux_ok h'" "mh_chans h' ?a = Some c" "abs_mux h' = store c (abs_mux h)" "mh_trace h' = mh_trace h"
    using put(2) by (auto simp: with_chan_def abs_mux_def store_def)
  have pt: "0 < unat PacketType_ChannelOpen" "unat PacketType_ChannelOpen < 8" by (simp_all add: packet_types)
  define rc where "rc = me_write env (mh_trace h) p"
  from open_packet_sent [OF ck pt p_def, of env h'] obtain n b buf where
    snd: "(case cookie of None \<Rightarrow> Some None
       | Some ck \<Rightarrow> do { b \<leftarrow> flex_buffer_from FLEX_PADDING_LEN (ck @ [0]) (length ck + 1); Some (Some b) }) = Some buf"
      "multiplex_handler_send_packet env PacketType_ChannelOpen (channel_type_code ty) i 0 buf h' = Some (if rc < 0 then rc else n, b, emit_mux (Wrote p) h')"
      "0 \<le> n" unfolding h'(4) rc_def [symmetric] bind_Some by blast
  obtain h1 where h1: "channel_alloc h = (?a, h1)" by (simp add: channel_alloc_def Let_def)
  then have a: "mh_ids h1 = mh_ids h" "mh_chans h1 ?a = Some \<lparr>ch_id = 0, ch_remote_id = 0, ch_type = ChannelType_User,
      ch_status = ChannelStatus_Opening, ch_local_timestamp = zero_time, ch_remote_timestamp = zero_time,
      ch_last_activity = zero_time, ch_timeout = 0\<rparr>" by (auto simp: channel_alloc_def Let_def)
  have cc: "set_chan ?a \<lparr>ch_id = i, ch_remote_id = 0, ch_type = ty, ch_status = ChannelStatus_Opening, ch_local_timestamp = zero_time,
      ch_remote_timestamp = me_now env, ch_last_activity = me_now env, ch_timeout = timeout\<rparr> = set_chan ?a c" by (simp add: c_def new_chan_def)
  have w: "(word_of_int (uint i) :: u32) = ucast i" by (simp only: ucast_eq)
  have e: "mux_ok (emit_mux (Wrote p) h')" using h'(1) by simp
  have e2: "mh_chans (emit_mux (Wrote p) h') ?a = Some c" using h'(2) by simp
  have ev: "multiplex_handler_open_channel env ty cookie timeout h =
    (if rc < 0 then do { h8 \<leftarrow> channels_remove env (ucast i) (emit_mux (Wrote p) h'); Some (rc, h8) }
     else Some (uint i, emit_mux (Wrote p) h'))"
    unfolding multiplex_handler_open_channel_def snd(1)
    using ty i(1) a put(1) h1 snd(2,3) h'(2) release [OF e e2, of env]
    by (simp add: chan_upd_Some update_remote_timestamp_def cc ci hold_simps w)
  have spec: "abs_open_local env ty cookie timeout i (abs_mux h) = (if rc < 0 then (rc, noted (Wrote p) (abs_mux h))
      else (uint i, store c (noted (Wrote p) (abs_mux h))))"
    by (simp add: abs_open_local_def Let_def p_def rc_def c_def) (simp add: abs_mux_def)
  have dr: "drop_channel i (store c (noted (Wrote p) (abs_mux h))) = noted (Wrote p) (abs_mux h)"
    "noted (Wrote p) (store c (abs_mux h)) = store c (noted (Wrote p) (abs_mux h))"
    using i(7) by (auto simp: drop_channel_def noted_def store_def ci fun_eq_iff abs_mux_def)
  show ?thesis
    using returns_settles [OF settles_remove [OF e e2, of env], of rc] e h'(3)
    unfolding ev spec by (auto simp: ci dr returns_def)
qed

subsection \<open>Sequences of calls\<close>

text \<open>
  What may happen to a multiplexer: a packet arrives, or a function of its interface is called. Identifiers
  are those of the C interface, positive integers.
\<close>

datatype mux_call =
    Packet_in FlexBuffer
  | Open_channel ChannelType "u8 list option" int
  | Close_channel int
  | Write_channel int FlexBuffer
  | Pend_channel int
  | Resume_channel int

fun mux_do :: "mux_env \<Rightarrow> mux_call \<Rightarrow> MultiplexHandler \<Rightarrow> MultiplexHandler option" where
  "mux_do env (Packet_in buf) h = multiplex_handler_notify_packet env buf h"
| "mux_do env (Open_channel ty cookie timeout) h = map_option snd (multiplex_handler_open_channel env ty cookie timeout h)"
| "mux_do env (Close_channel cid) h = map_option snd (multiplex_handler_close_channel env cid h)"
| "mux_do env (Write_channel cid buf) h = map_option snd (multiplex_handler_write_channel env cid buf h)"
| "mux_do env (Pend_channel cid) h = map_option snd (multiplex_handler_pend_channel env cid h)"
| "mux_do env (Resume_channel cid) h = map_option snd (multiplex_handler_resume_channel env cid h)"

fun mux_run :: "(mux_env \<times> mux_call) list \<Rightarrow> MultiplexHandler \<Rightarrow> MultiplexHandler option" where
  "mux_run [] h = Some h"
| "mux_run ((env, call) # calls) h = do { h1 \<leftarrow> mux_do env call h; mux_run calls h1 }"

text \<open>Packets that address a channel, or that carry data of the stream itself.\<close>

definition good_packet :: "u8 list \<Rightarrow> bool" where
  "good_packet p \<longleftrightarrow> (\<exists>t opt i r payload. p = wire_packet t opt i r payload \<and> length payload < 2 ^ 16
     \<and> 0 < unat t \<and> unat t < 8 \<and> (t = PacketType_ChannelOpen \<or> i \<noteq> 0 \<or> t = PacketType_ChannelData \<and> r = 0))"

fun good_call :: "bool \<Rightarrow> bool \<Rightarrow> mux_call \<Rightarrow> bool" where
  "good_call reliable pf (Packet_in buf) \<longleftrightarrow> flex_ok buf \<and> good_packet (flex_payload buf)"
| "good_call reliable pf (Open_channel ty cookie timeout) \<longleftrightarrow> (ty = ChannelType_User \<or> pf)
     \<and> (ty = ChannelType_TCP_PortForwarding \<longrightarrow> reliable) \<and> (\<forall>ck. cookie = Some ck \<longrightarrow> length ck < 2 ^ 32)"
| "good_call reliable pf (Close_channel cid) \<longleftrightarrow> 0 < cid \<and> cid < 2 ^ 31"
| "good_call reliable pf (Write_channel cid buf) \<longleftrightarrow> 0 < cid \<and> cid < 2 ^ 31 \<and> flex_ok buf \<and> PROTOCOL_HEAD_LEN \<le> fb_offset buf"
| "good_call reliable pf (Pend_channel cid) \<longleftrightarrow> 0 < cid \<and> cid < 2 ^ 31"
| "good_call reliable pf (Resume_channel cid) \<longleftrightarrow> 0 < cid \<and> cid < 2 ^ 31"

text \<open>Data of the stream itself goes up the chain.\<close>

lemma notify_packet_base:
  assumes b: "holds_packet buf (wire_packet PacketType_ChannelData opt 0 0 payload)" and len: "length payload < 2 ^ 16"
  shows "multiplex_handler_notify_packet env buf h = Some (emit_mux (Base_data payload) h)"
proof -
  let ?t = PacketType_ChannelData
  have fo: "flex_ok buf" and fp: "flex_payload buf = wire_packet ?t opt 0 0 payload" using b by (auto simp: holds_packet_def)
  have sz: "fb_size buf = length payload + PROTOCOL_HEAD_LEN"
    using flex_okD(4) [OF fo] wire_packet_fields(6) [OF len] fp by metis
  have "PROTOCOL_HEAD_LEN \<le> fb_size buf" using sz by simp
  from flex_forward_ok [OF fo this] obtain b' where b': "flex_buffer_forward_offset buf PROTOCOL_HEAD_LEN = Some b'"
    "flex_payload b' = drop PROTOCOL_HEAD_LEN (flex_payload buf)" by metis
  show ?thesis
    using sz b' wire_packet_fields [OF len, of ?t opt 0 0]
    by (simp add: multiplex_handler_notify_packet_def flex_buffer_size_def fp Let_def)
qed

lemma settles_mode: "settles m s \<Longrightarrow> m = Some h \<Longrightarrow> mux_mode h = ma_mode s"
  by (auto simp: settles_def abs_mux_def)

lemma abs_mode [simp]:
  "ma_mode (abs_mux h) = mux_mode h" "ma_mode (noted e s) = ma_mode s" "ma_mode (store c s) = ma_mode s"
  "ma_mode (drop_channel i s) = ma_mode s"
  by (simp_all add: abs_mux_def noted_def store_def drop_channel_def)

lemma abs_ops_mode:
  "ma_mode (channel_packet env t r payload c s) = ma_mode s" "ma_mode (abs_packet env t i r payload s) = ma_mode s"
  "ma_mode (abs_open env ty i r payload s) = ma_mode s" "ma_mode (snd (abs_close cid s)) = ma_mode s"
  "ma_mode (snd (abs_send env t payload cid s)) = ma_mode s"
  "ma_mode (snd (abs_open_local env ty cookie timeout i s)) = ma_mode s"
proof -
  show c: "ma_mode (channel_packet env t r payload c s) = ma_mode s" for c by (simp add: channel_packet_def)
  show "ma_mode (abs_packet env t i r payload s) = ma_mode s" by (simp add: abs_packet_def c split: option.split)
  show "ma_mode (abs_open env ty i r payload s) = ma_mode s" "ma_mode (snd (abs_open_local env ty cookie timeout i s)) = ma_mode s"
    by (simp_all add: abs_open_def abs_open_local_def Let_def)
  show "ma_mode (snd (abs_close cid s)) = ma_mode s" "ma_mode (snd (abs_send env t payload cid s)) = ma_mode s"
    by (simp_all add: abs_close_def abs_send_def Let_def split: option.split)
qed

lemma good_packet_settles:
  assumes ok: "mux_ok h" and b: "flex_ok buf" "good_packet (flex_payload buf)"
  shows "\<exists>s. settles (multiplex_handler_notify_packet env buf h) s \<and> ma_mode s = mux_mode h"
proof -
  from b(2) obtain t opt i r payload where p: "flex_payload buf = wire_packet t opt i r payload" "length payload < 2 ^ 16"
    "0 < unat t" "unat t < 8" and k: "t = PacketType_ChannelOpen \<or> i \<noteq> 0 \<or> t = PacketType_ChannelData \<and> r = 0"
    unfolding good_packet_def by blast
  have h: "holds_packet buf (wire_packet t opt i r payload)" using b(1) p(1) by (simp add: holds_packet_def)
  have t1: "t = PacketType_ChannelOpen" if "\<not> 1 < unat t"
    using that p(3) by (simp add: packet_types word_unat_eq_iff)
  consider (opn) "t = PacketType_ChannelOpen" | (chan) "1 < unat t" "i \<noteq> 0" | (base) "t = PacketType_ChannelData" "r = 0" "i = 0"
    using k t1 by blast
  then show ?thesis
  proof cases
    case opn
    then have h': "holds_packet buf (wire_packet PacketType_ChannelOpen opt i r payload)" using h by simp
    consider "\<forall>ty. \<not> accepts_type h opt ty" | ty where "accepts_type h opt ty" "ids_full h" | ty where "accepts_type h opt ty" "\<not> ids_full h"
      by blast
    then show ?thesis
      by cases (use notify_open_refines [OF ok h' p(2)] abs_ops_mode(3) abs_mode in \<open>metis+\<close>)
  next
    case chan
    from notify_packet_refines [OF ok h p(2) chan(1) p(4) chan(2), of env] abs_ops_mode(2) show ?thesis by (metis abs_mode(1))
  next
    case base
    with h have "holds_packet buf (wire_packet PacketType_ChannelData opt 0 0 payload)" by simp
    from notify_packet_base [OF this p(2), of env h] ok show ?thesis
      by (intro exI [of _ "noted (Base_data payload) (abs_mux h)"]) (simp add: settles_def)
  qed
qed

lemma returns_map: "returns m q \<Longrightarrow> settles (map_option snd m) (snd q)"
  by (auto simp: returns_def settles_def)

lemma mux_do_settles:
  assumes ok: "mux_ok h" and call: "good_call (mh_reliable h) (mh_portforwarding h) call"
  shows "\<exists>s. settles (mux_do env call h) s \<and> ma_mode s = mux_mode h"
proof (cases call)
  case (Packet_in buf)
  with good_packet_settles [OF ok] call show ?thesis by simp
next
  case (Open_channel ty cookie timeout)
  show ?thesis
  proof (cases rule: alloc_id [OF ok])
    case (1 ids)
    with open_channel_full [OF ok _ _ 1(1), of ty env cookie timeout, THEN returns_map] call Open_channel show ?thesis by auto
  next
    case (2 i ids)
    with open_channel_new [OF ok _ _ _ 2(2-8), of ty cookie env timeout, THEN returns_map] call Open_channel abs_ops_mode(6) abs_mode(1)
    show ?thesis by auto
  qed
next
  case (Close_channel cid)
  with close_channel_refines [OF ok, of cid env, THEN returns_map] call abs_ops_mode(4) abs_mode(1) show ?thesis by auto
next
  case (Write_channel cid buf)
  with write_channel_refines [OF ok, of cid buf env, THEN returns_map] call abs_ops_mode(5) abs_mode(1) show ?thesis by auto
next
  case (Pend_channel cid)
  have "0 < unat PacketType_ChannelPending" "unat PacketType_ChannelPending < 8" by (simp_all add: packet_types)
  with Pend_channel channel_signal_refines [OF ok, of cid PacketType_ChannelPending env, THEN returns_map] call abs_ops_mode(5) abs_mode(1)
  show ?thesis by (auto simp: multiplex_handler_pend_channel_def)
next
  case (Resume_channel cid)
  have "0 < unat PacketType_ChannelResume" "unat PacketType_ChannelResume < 8" by (simp_all add: packet_types)
  with Resume_channel channel_signal_refines [OF ok, of cid PacketType_ChannelResume env, THEN returns_map] call abs_ops_mode(5) abs_mode(1)
  show ?thesis by (auto simp: multiplex_handler_resume_channel_def)
qed

subsection \<open>A new handler\<close>

lemma create_ok:
  "\<exists>h. multiplex_handler_create reliable pf = Some h \<and> mux_ok h \<and> \<not> ids_full h \<and> mh_reliable h = reliable
    \<and> mh_portforwarding h = pf \<and> mh_trace h = [] \<and> (\<forall>i. channel_at h i = None)
    \<and> (reliable \<longrightarrow> inc_ok (mh_incomplete h) \<and> flex_payload (mh_incomplete h) = [])"
proof -
  let ?ids = "\<lparr>latest_index = 0, max_index = 0,
      bitset_ids = \<lparr>bs_size = 0, bs_bits = replicate (word_count (nat MAX_CHANNEL_ID)) 0\<rparr>\<rparr>"
  have "0 < MAX_CHANNEL_ID" by (simp add: MAX_CHANNEL_ID_def)
  from ids_heap_init_spec [OF this, of ?ids] obtain ids where
    ids: "ids_heap_init 0 ?ids MAX_CHANNEL_ID = Some (0, ids)" "ids_ok ids" "live_ids ids = {}" "max_index ids = MAX_CHANNEL_ID" by auto
  have t: "ht_ok (channels_create 256)" "contents (channels_create 256) = []" "ht_lst (channels_create 256) = []"
    by (auto simp: channels_create_def hashtable_create_def ht_ok_def contents_def Let_def key_compare_ok_def channels_key_compare_def)
  have f: "(1::int) \<in> {1..MAX_CHANNEL_ID}" by (simp add: MAX_CHANNEL_ID_def)
  show ?thesis
    unfolding multiplex_handler_create_def Let_def ids(1)
    using ids t f by (auto simp: mux_ok_def ids_full_def channel_at_def inc_ok_def flex_ok_def flex_buffer_init_def flex_payload_def frame_consts)
qed

definition demo_env :: mux_env where
  "demo_env = \<lparr>me_shl1 = (\<lambda>_. 0), me_write = (\<lambda>_ _. 0), me_channel_open = (\<lambda>_ _ _. True), me_channel_data = (\<lambda>_ _ _. True),
     me_now = zero_time, me_next_start = 0, me_create_timer = 0, me_worker_start = 0\<rparr>"

subsection \<open>Properties\<close>

text \<open>
  C4. The multiplexer never fails on valid calls: whatever sequence of packets arrives (of every type, for
  channels that exist or not, as long as each addresses a channel or carries data of the stream) and of
  channel functions is called, every call returns, and afterwards the table of channels, the store with its
  reference counts and the identifiers agree: every channel is in the table with exactly one reference, so no
  channel is leaked or used after it was freed, and channels never share an identifier.
\<close>

theorem mux_calls_safe:
  assumes "mux_ok h" and "\<forall>(env, call) \<in> set calls. good_call (mh_reliable h) (mh_portforwarding h) call"
  shows "\<exists>h'. mux_run calls h = Some h' \<and> mux_ok h'"
  using assms
proof (induction calls arbitrary: h)
  case (Cons ec calls)
  obtain env call where ec: "ec = (env, call)" by fastforce
  with mux_do_settles [OF Cons.prems(1), of call env] Cons.prems(2) obtain h1 where
    h1: "mux_do env call h = Some h1" "mux_ok h1" "mux_mode h1 = mux_mode h" by (auto simp: settles_def)
  from h1(3) have "mh_reliable h1 = mh_reliable h" "mh_portforwarding h1 = mh_portforwarding h" by (simp_all add: mux_mode_def)
  with Cons.IH [OF h1(2)] Cons.prems(2) h1(1) show ?case by (simp add: ec)
qed simp

theorem mux_calls_safe_witness:
  "\<exists>h h'. multiplex_handler_create True False = Some h
    \<and> mux_run [(demo_env, Open_channel ChannelType_User None 0), (demo_env, Close_channel 1)] h = Some h' \<and> mux_ok h'"
proof -
  obtain h where h: "multiplex_handler_create True False = Some h" "mux_ok h" using create_ok by blast
  then show ?thesis
    using mux_calls_safe [OF h(2), of "[(demo_env, Open_channel ChannelType_User None 0), (demo_env, Close_channel 1)]"] by auto
qed

text \<open>
  C11. Handling a packet for a channel (confirmation, data, keep-alive, pause, resumption, close) refines the
  abstract multiplexer: for an identifier without a channel nothing changes; otherwise exactly that channel
  changes, as its status allows, or is removed, and exactly the events of the specification happen. The
  conclusion includes that the code returns and keeps the invariant.
\<close>

theorem packet_refines:
  assumes "mux_ok h" and "holds_packet buf (wire_packet t opt i r payload)" "length payload < 2 ^ 16"
    "1 < unat t" "unat t < 8" "i \<noteq> 0"
  shows "\<exists>h'. multiplex_handler_notify_packet env buf h = Some h' \<and> mux_ok h'
    \<and> abs_mux h' = abs_packet env t i r payload (abs_mux h)"
  using notify_packet_refines [OF assms] by (simp add: settles_def)

lemma holds_packet_buffer: "length p \<le> MAX_FRAME \<Longrightarrow> holds_packet (packet_buffer p) p"
  using packet_buffer_ok [of p] by (simp add: holds_packet_def inc_ok_def)

lemma wire_fits: "length payload \<le> 2168 \<Longrightarrow> length (wire_packet t opt l r payload) \<le> MAX_FRAME"
  using wire_packet_fields(6) [of payload t opt l r] by (simp add: frame_consts PROTOCOL_HEAD_LEN_def)

theorem packet_refines_witness:
  "\<exists>h h'. multiplex_handler_create True False = Some h
    \<and> multiplex_handler_notify_packet demo_env (packet_buffer (wire_packet 7 0 5 9 [])) h = Some h' \<and> mux_ok h'
    \<and> abs_mux h' = abs_packet demo_env 7 5 9 [] (abs_mux h)"
proof -
  obtain h where h: "multiplex_handler_create True False = Some h" "mux_ok h" using create_ok by blast
  have "holds_packet (packet_buffer (wire_packet 7 0 5 9 [])) (wire_packet 7 0 5 9 [])"
    by (intro holds_packet_buffer wire_fits) simp
  from packet_refines [OF h(2) this, of demo_env] h(1) show ?thesis by simp
qed

text \<open>
  C22. A request to open a channel of a type the handler accepts: when all identifiers are in use, only the
  refusal is sent; otherwise the channel gets an identifier that no channel has, the callback decides, the
  answer is sent, and the channel is open exactly when the callback accepted and the answer could be sent;
  otherwise no trace of it remains in the table.
\<close>

theorem open_request_refines:
  assumes "mux_ok h" and "holds_packet buf (wire_packet PacketType_ChannelOpen opt i0 r payload)" "length payload < 2 ^ 16"
    and "accepts_type h opt ty"
  shows "if ids_full h then settles (multiplex_handler_notify_packet env buf h) (noted (Wrote refusal) (abs_mux h))
    else \<exists>i. i \<noteq> 0 \<and> uint i \<notin> live_ids (mh_ids h) \<and> channel_at h i = None
      \<and> settles (multiplex_handler_notify_packet env buf h) (abs_open env ty i r payload (abs_mux h))"
  using notify_open_refines(2,3) [OF assms] by simp

theorem open_request_refines_witness:
  "\<exists>h i. multiplex_handler_create True False = Some h \<and> i \<noteq> 0
    \<and> settles (multiplex_handler_notify_packet demo_env (packet_buffer (wire_packet 1 0 0 7 [])) h)
        (abs_open demo_env ChannelType_User i 7 [] (abs_mux h))"
proof -
  obtain h where h: "multiplex_handler_create True False = Some h" "mux_ok h" "\<not> ids_full h" using create_ok by blast
  have "holds_packet (packet_buffer (wire_packet 1 0 0 7 [])) (wire_packet PacketType_ChannelOpen 0 0 7 [])"
    unfolding packet_types by (intro holds_packet_buffer wire_fits) simp
  moreover have "accepts_type h 0 ChannelType_User" by (simp add: accepts_type_def)
  ultimately show ?thesis using open_request_refines [OF h(2), of _ 0 0 7 "[]" ChannelType_User demo_env] h(1,3) by fastforce
qed

text \<open>
  C23. The functions of the interface on channels that exist or not: closing tells the peer only when it knows
  the channel, and removes it; writing, pausing and resuming send one packet to the peer's identifier and
  fail without any effect when the channel is unknown (\<^verbatim>\<open>NOT_EXIST\<close>) or not open (\<^verbatim>\<open>WRONG_STATE\<close>); an error of
  the layer below is returned. Opening takes an identifier no channel has, and leaves no channel behind when
  the request could not be sent; it fails with \<^verbatim>\<open>LIMIT_EXCEEDED\<close> exactly when all identifiers are in use.
\<close>

theorem channel_interface_refines:
  assumes "mux_ok h" and "0 < cid" "cid < 2 ^ 31" and "flex_ok buf" "PROTOCOL_HEAD_LEN \<le> fb_offset buf"
    and "\<forall>ck. cookie = Some ck \<longrightarrow> length ck < 2 ^ 32"
  shows "returns (multiplex_handler_close_channel env cid h) (abs_close cid (abs_mux h))
    \<and> returns (multiplex_handler_write_channel env cid buf h) (abs_send env PacketType_ChannelData (flex_payload buf) cid (abs_mux h))
    \<and> returns (multiplex_handler_pend_channel env cid h) (abs_send env PacketType_ChannelPending [] cid (abs_mux h))
    \<and> returns (multiplex_handler_resume_channel env cid h) (abs_send env PacketType_ChannelResume [] cid (abs_mux h))
    \<and> (if ids_full h
       then returns (multiplex_handler_open_channel env ChannelType_User cookie timeout h) (IOEX_GENERAL_ERROR IOEXERR_LIMIT_EXCEEDED, abs_mux h)
       else \<exists>i. i \<noteq> 0 \<and> channel_at h i = None
         \<and> returns (multiplex_handler_open_channel env ChannelType_User cookie timeout h) (abs_open_local env ChannelType_User cookie timeout i (abs_mux h)))"
proof -
  have pt: "0 < unat PacketType_ChannelPending" "unat PacketType_ChannelPending < 8" "0 < unat PacketType_ChannelResume" "unat PacketType_ChannelResume < 8"
    by (simp_all add: packet_types)
  have "if ids_full h
       then returns (multiplex_handler_open_channel env ChannelType_User cookie timeout h) (IOEX_GENERAL_ERROR IOEXERR_LIMIT_EXCEEDED, abs_mux h)
       else \<exists>i. i \<noteq> 0 \<and> channel_at h i = None
         \<and> returns (multiplex_handler_open_channel env ChannelType_User cookie timeout h) (abs_open_local env ChannelType_User cookie timeout i (abs_mux h))"
  proof (cases rule: alloc_id [OF assms(1)])
    case (1 ids)
    with open_channel_full [OF assms(1), of ChannelType_User] show ?thesis by simp
  next
    case (2 i ids)
    with open_channel_new [OF assms(1), of ChannelType_User cookie i ids env timeout] assms(6) show ?thesis by auto
  qed
  then show ?thesis
    using close_channel_refines [OF assms(1-3)] write_channel_refines [OF assms(1-5)]
      channel_signal_refines [OF assms(1-3) pt(1,2)] channel_signal_refines [OF assms(1-3) pt(3,4)]
    by (simp add: multiplex_handler_pend_channel_def multiplex_handler_resume_channel_def)
qed

theorem channel_interface_refines_witness:
  "\<exists>h. multiplex_handler_create False False = Some h
    \<and> returns (multiplex_handler_close_channel demo_env 3 h) (IOEX_GENERAL_ERROR IOEXERR_NOT_EXIST, abs_mux h)"
proof -
  obtain h where h: "multiplex_handler_create False False = Some h" "mux_ok h" "\<forall>i. channel_at h i = None" using create_ok by blast
  have "flex_ok (packet_buffer [])" "PROTOCOL_HEAD_LEN \<le> fb_offset (packet_buffer [])"
    using packet_buffer_ok [of "[]"] by (simp_all add: inc_ok_def packet_buffer_def frame_consts PROTOCOL_HEAD_LEN_def)
  from channel_interface_refines [OF h(2) _ _ this, of 3 None demo_env] h(3)
  have "returns (multiplex_handler_close_channel demo_env 3 h) (abs_close 3 (abs_mux h))" by simp
  moreover have "abs_find (abs_mux h) 3 = None" using h(3) by (simp add: abs_find_def abs_mux_def)
  ultimately show ?thesis using h(1) by (simp add: abs_close_def)
qed

end
