(* ===== verification/MultiplexPeers.thy ===== *)
theory MultiplexPeers
  imports MultiplexSpec
begin

text \<open>
  Two multiplexers that talk to each other: opening a channel from one side gives both an open channel that
  knows the other's identifier, and what is written to the channel on one side is the data event on the other.
  Also where the protocol breaks: a refusal is addressed to no channel.
\<close>

subsection \<open>Opening\<close>

text \<open>The three steps of a handshake: the request, the answer of the peer, and what the answer does to the opener.\<close>

lemma opener_requests:
  assumes A: "mux_ok h" "\<not> ids_full h" "\<And>tr p. 0 \<le> me_write env tr p" and ck: "length ck < 2 ^ 15"
  obtains i h1 where "multiplex_handler_open_channel env ChannelType_User (Some ck) timeout h = Some (uint i, h1)" "(i :: u16) \<noteq> 0" "mux_ok h1"
    "mh_trace h1 = mh_trace h @ [Wrote (wire_packet PacketType_ChannelOpen 0 0 i (ck @ [0]))]"
    "channel_at h1 i = Some (new_chan env ChannelType_User i 0 timeout)"
proof -
  have wA: "me_write env tr p < 0 \<longleftrightarrow> False" for tr p using A(3) by (simp add: not_less)
  have ckb: "\<forall>ck'. Some ck = Some ck' \<longrightarrow> length ck' < 2 ^ 32" using ck by auto
  obtain i ids where i: "ids_heap_alloc 0 (mh_ids h) = Some (uint i, ids)" "ids_ok ids" "max_index ids = MAX_CHANNEL_ID"
      "live_ids ids = insert (uint i) (live_ids (mh_ids h))" "uint i \<notin> live_ids (mh_ids h)" "(i :: u16) \<noteq> 0" "channel_at h i = None"
    using alloc_id [OF A(1)] A(2) by metis
  let ?r = "wire_packet PacketType_ChannelOpen 0 0 i (ck @ [0])" and ?c = "new_chan env ChannelType_User i 0 timeout"
  from open_channel_new [OF A(1) _ _ ckb i, of ChannelType_User env timeout] obtain h1 where
    h1: "multiplex_handler_open_channel env ChannelType_User (Some ck) timeout h = Some (uint i, h1)" "mux_ok h1"
      "abs_mux h1 = store ?c (noted (Wrote ?r) (abs_mux h))"
    by (auto simp: returns_def abs_open_local_def Let_def wA)
  have "mh_trace h1 = mh_trace h @ [Wrote ?r]" "channel_at h1 i = Some ?c"
    using arg_cong [OF h1(3), of ma_trace] arg_cong [OF h1(3), of "\<lambda>s. ma_channels s i"] by (simp_all add: abs_mux_def store_def noted_def new_chan_def)
  with h1 i(6) show thesis using that by blast
qed

lemma peer_answers:
  assumes B: "mux_ok h" "\<not> ids_full h" "\<And>tr p. 0 \<le> me_write env tr p" "\<And>tr i ck. me_channel_open env tr i ck"
    and ck: "length ck < 2 ^ 15" and buf: "holds_packet buf (wire_packet PacketType_ChannelOpen 0 0 i (ck @ [0]))"
  obtains j h1 c where "multiplex_handler_notify_packet env buf h = Some h1" "mux_ok h1" "j \<noteq> 0"
    "mh_trace h1 = mh_trace h @ [Open_asked j (Some (ck @ [0])), Wrote (wire_packet PacketType_ChannelOpenConfirmation 0 i j []), Opened j]"
    "channel_at h1 j = Some c" "ch_status c = ChannelStatus_Open" "ch_remote_id c = i"
proof -
  have t: "accepts_type h 0 ChannelType_User" "length (ck @ [0]) < 2 ^ 16" using ck by (simp_all add: accepts_type_def)
  from notify_open_refines(3) [OF B(1) buf t(2,1) B(2), of env] obtain j h1 where
    j: "j \<noteq> 0" "multiplex_handler_notify_packet env buf h = Some h1" "mux_ok h1"
      "abs_mux h1 = abs_open env ChannelType_User j i (ck @ [0]) (abs_mux h)" by (auto simp: settles_def)
  let ?c = "(new_chan env ChannelType_User j i 0)\<lparr>ch_status := ChannelStatus_Open\<rparr>"
  let ?w = "wire_packet PacketType_ChannelOpenConfirmation 0 i j []"
  have "abs_mux h1 = store ?c (noted (Opened j) (noted (Wrote ?w) (noted (Open_asked j (Some (ck @ [0]))) (abs_mux h))))"
    using j(4) B(3,4) by (simp add: abs_open_def Let_def)
  from arg_cong [OF this, of ma_trace] arg_cong [OF this, of "\<lambda>s. ma_channels s j"]
  have "mh_trace h1 = mh_trace h @ [Open_asked j (Some (ck @ [0])), Wrote ?w, Opened j]" "channel_at h1 j = Some ?c"
    by (simp_all add: abs_mux_def store_def noted_def new_chan_def)
  with j show thesis using that [of h1 j ?c] by (simp add: new_chan_def)
qed

lemma opener_confirmed:
  assumes A: "mux_ok h" "channel_at h i = Some (new_chan env ChannelType_User i 0 timeout)" and ij: "i \<noteq> 0" "j \<noteq> 0"
    and buf: "holds_packet buf (wire_packet PacketType_ChannelOpenConfirmation 0 i j [])"
  shows "\<exists>h1 c. multiplex_handler_notify_packet env buf h = Some h1 \<and> mux_ok h1 \<and> mh_trace h1 = mh_trace h @ [Opened i]
    \<and> channel_at h1 i = Some c \<and> ch_status c = ChannelStatus_Open \<and> ch_remote_id c = j"
proof -
  have pt: "1 < unat PacketType_ChannelOpenConfirmation" "unat PacketType_ChannelOpenConfirmation < 8" by (simp_all add: packet_types)
  let ?c = "active env ((new_chan env ChannelType_User i 0 timeout)\<lparr>ch_status := ChannelStatus_Open, ch_remote_id := j\<rparr>)"
  from notify_packet_refines [OF A(1) buf _ pt ij(1), of env] obtain h1 where
    h1: "multiplex_handler_notify_packet env buf h = Some h1" "mux_ok h1"
      "abs_mux h1 = abs_packet env PacketType_ChannelOpenConfirmation i j [] (abs_mux h)" by (auto simp: settles_def)
  then have "abs_mux h1 = store ?c (noted (Opened i) (abs_mux h))"
    using ij(2) A(2) by (simp add: abs_packet_def channel_packet_def abs_mux_def new_chan_def)
  from arg_cong [OF this, of ma_trace] arg_cong [OF this, of "\<lambda>s. ma_channels s i"]
  have "mh_trace h1 = mh_trace h @ [Opened i]" "channel_at h1 i = Some ?c"
    by (simp_all add: abs_mux_def store_def noted_def active_def new_chan_def)
  with h1 show ?thesis by (auto simp: active_def)
qed

text \<open>
  C10. The handshake, end to end: opening a user channel returns its identifier and sends a request; whenever
  a buffer with that request reaches a peer that has identifiers left and accepts, the peer opens a channel
  that knows the opener's identifier and answers; whenever that answer reaches the opener, its channel is open
  and knows the peer's identifier. The cookie arrives with its terminating zero.
\<close>

theorem channel_handshake:
  assumes A: "mux_ok hA" "\<not> ids_full hA" "\<And>tr p. 0 \<le> me_write envA tr p"
    and B: "mux_ok hB" "\<not> ids_full hB" "\<And>tr p. 0 \<le> me_write envB tr p" "\<And>tr i ck. me_channel_open envB tr i ck"
    and ck: "length ck < 2 ^ 15"
  shows "\<exists>i request hA1. multiplex_handler_open_channel envA ChannelType_User (Some ck) timeout hA = Some (uint i, hA1)
    \<and> i \<noteq> 0 \<and> mh_trace hA1 = mh_trace hA @ [Wrote request]
    \<and> (\<forall>bufB. holds_packet bufB request \<longrightarrow>
        (\<exists>j answer hB1 cB. multiplex_handler_notify_packet envB bufB hB = Some hB1 \<and> mux_ok hB1
          \<and> mh_trace hB1 = mh_trace hB @ [Open_asked j (Some (ck @ [0])), Wrote answer, Opened j]
          \<and> channel_at hB1 j = Some cB \<and> ch_status cB = ChannelStatus_Open \<and> ch_remote_id cB = i
          \<and> (\<forall>bufA. holds_packet bufA answer \<longrightarrow>
              (\<exists>hA2 cA. multiplex_handler_notify_packet envA bufA hA1 = Some hA2 \<and> mux_ok hA2
                \<and> mh_trace hA2 = mh_trace hA1 @ [Opened i]
                \<and> channel_at hA2 i = Some cA \<and> ch_status cA = ChannelStatus_Open \<and> ch_remote_id cA = j))))"
proof -
  obtain i hA1 where a: "multiplex_handler_open_channel envA ChannelType_User (Some ck) timeout hA = Some (uint i, hA1)" "i \<noteq> 0" "mux_ok hA1"
    "mh_trace hA1 = mh_trace hA @ [Wrote (wire_packet PacketType_ChannelOpen 0 0 i (ck @ [0]))]"
    "channel_at hA1 i = Some (new_chan envA ChannelType_User i 0 timeout)"
    by (rule opener_requests [OF A ck])
  show ?thesis
    by (rule exI [of _ i], rule exI [of _ "wire_packet PacketType_ChannelOpen 0 0 i (ck @ [0])"], rule exI [of _ hA1], intro conjI a(1,2,4) allI impI,
        rule peer_answers [OF B ck], assumption) (use opener_confirmed [OF a(3,5,2)] in blast)
qed

theorem channel_handshake_witness:
  "\<exists>hA hB i request hA1. multiplex_handler_create True False = Some hA \<and> multiplex_handler_create True True = Some hB
    \<and> multiplex_handler_open_channel demo_env ChannelType_User (Some [104, 105]) 0 hA = Some (uint i, hA1) \<and> i \<noteq> (0 :: u16)
    \<and> mh_trace hA1 = [Wrote request]
    \<and> (\<forall>bufB. holds_packet bufB request \<longrightarrow> (\<exists>hB1. multiplex_handler_notify_packet demo_env bufB hB = Some hB1))"
proof -
  obtain hA where hA: "multiplex_handler_create True False = Some hA" "mux_ok hA" "\<not> ids_full hA" "mh_trace hA = []" using create_ok by blast
  obtain hB where hB: "multiplex_handler_create True True = Some hB" "mux_ok hB" "\<not> ids_full hB" using create_ok by blast
  have e: "0 \<le> me_write demo_env tr p" "me_channel_open demo_env tr i ck" for tr p i ck by (simp_all add: demo_env_def)
  have l: "length [104, 105 :: u8] < 2 ^ 15" by simp
  from channel_handshake [OF hA(2,3) e(1) hB(2,3) e l, of 0] hA(1,4) hB(1) show ?thesis by (metis append_Nil)
qed

subsection \<open>Data\<close>

text \<open>
  C21. Data written to an open channel whose peer knows it: the write returns the length and sends one packet;
  whenever a buffer with that packet reaches the peer, the peer's callback gets exactly these bytes on the
  channel with which ours is paired, and the channel is closed with an error exactly when the callback
  rejects the data.
\<close>

theorem channel_data_arrives:
  assumes A: "mux_ok hA" "channel_at hA i = Some cA" "ch_status cA \<in> {ChannelStatus_Open, ChannelStatus_Pending}" "ch_remote_id cA = j"
      "\<And>tr p. 0 \<le> me_write envA tr p"
    and B: "mux_ok hB" "channel_at hB j = Some cB" "ch_status cB \<in> {ChannelStatus_Open, ChannelStatus_Pending}"
    and buf: "flex_ok buf" "PROTOCOL_HEAD_LEN \<le> fb_offset buf" "fb_size buf < 2 ^ 16"
  shows "\<exists>p hA1. multiplex_handler_write_channel envA (uint i) buf hA = Some (int (fb_size buf), hA1) \<and> mux_ok hA1
    \<and> mh_trace hA1 = mh_trace hA @ [Wrote p]
    \<and> (\<forall>bufB. holds_packet bufB p \<longrightarrow>
        (\<exists>hB1. multiplex_handler_notify_packet envB bufB hB = Some hB1 \<and> mux_ok hB1
          \<and> mh_trace hB1 = mh_trace hB @ Data j (flex_payload buf)
              # (if me_channel_data envB (mh_trace hB) j (flex_payload buf) then [] else [Closed j CloseReason_Error])
          \<and> (channel_at hB1 j = None \<longleftrightarrow> \<not> me_channel_data envB (mh_trace hB) j (flex_payload buf))))"
proof -
  have wA: "me_write envA tr p < 0 \<longleftrightarrow> False" for tr p using A(5) by (simp add: not_less)
  have ids: "ch_id cA = i" "i \<noteq> 0" "ch_id cB = j" "j \<noteq> 0" using channel_at_id A(1,2) B(1,2) by blast+
  let ?d = "flex_payload buf" and ?p = "wire_packet PacketType_ChannelData 0 j i (flex_payload buf)"
  have len: "length ?d = fb_size buf" by (rule flex_okD(4) [OF buf(1)])
  have cid: "0 < uint i" "uint i < 2 ^ 31"
    using ids(2) uint_lt2p [of i] uint_ge_0 [of i] by (simp_all add: less_le uint_0_iff)
  have fA: "abs_find (abs_mux hA) (uint i) = Some cA"
    using A(2) uint_lt2p [of i] by (simp add: abs_find_def abs_mux_def)
  have spec: "abs_send envA PacketType_ChannelData ?d (uint i) (abs_mux hA)
      = (int (length ?d), store (local_active envA cA) (noted (Wrote ?p) (abs_mux hA)))"
    using A(3,4) ids by (auto simp: abs_send_def fA wA Let_def)
  from write_channel_refines [OF A(1) cid buf(1,2), of envA] obtain hA1 where
    w: "multiplex_handler_write_channel envA (uint i) buf hA = Some (int (length ?d), hA1)" "mux_ok hA1"
      "abs_mux hA1 = store (local_active envA cA) (noted (Wrote ?p) (abs_mux hA))"
    unfolding spec by (auto simp: returns_def)
  have tA: "mh_trace hA1 = mh_trace hA @ [Wrote ?p]"
    using arg_cong [OF w(3), of ma_trace] by (simp add: abs_mux_def store_def noted_def)
  have pt: "1 < unat PacketType_ChannelData" "unat PacketType_ChannelData < 8" by (simp_all add: packet_types)
  have side_B: "\<exists>hB1. multiplex_handler_notify_packet envB bufB hB = Some hB1 \<and> mux_ok hB1
      \<and> mh_trace hB1 = mh_trace hB @ Data j ?d # (if me_channel_data envB (mh_trace hB) j ?d then [] else [Closed j CloseReason_Error])
      \<and> (channel_at hB1 j = None \<longleftrightarrow> \<not> me_channel_data envB (mh_trace hB) j ?d)" if hp: "holds_packet bufB ?p" for bufB
  proof -
    have l16: "length ?d < 2 ^ 16" using len buf(3) by simp
    from notify_packet_refines [OF B(1) hp l16 pt ids(4), of envB] obtain hB1 where
      h1: "multiplex_handler_notify_packet envB bufB hB = Some hB1" "mux_ok hB1"
        "abs_mux hB1 = abs_packet envB PacketType_ChannelData j i ?d (abs_mux hB)" by (auto simp: settles_def)
    have ne: "PacketType_ChannelData \<noteq> PacketType_ChannelOpenConfirmation" by (simp add: packet_types)
    have "abs_mux hB1 = (if me_channel_data envB (mh_trace hB) j ?d then store (active envB cB) (noted (Data j ?d) (abs_mux hB))
        else drop_channel j (noted (Closed j CloseReason_Error) (noted (Data j ?d) (abs_mux hB))))"
      using h1(3) B(2,3) ids ne by (auto simp: abs_packet_def channel_packet_def abs_mux_def)
    from arg_cong [OF this, of ma_trace] arg_cong [OF this, of "\<lambda>s. ma_channels s j"] h1(1,2) ids(3) show ?thesis
      by (auto simp: abs_mux_def store_def noted_def drop_channel_def active_def)
  qed
  show ?thesis using w(1,2) tA side_B len by auto
qed

lemma demo_open_channel:
  "\<exists>h j c. mux_ok h \<and> channel_at h j = Some c \<and> ch_status c = ChannelStatus_Open \<and> ch_remote_id c = r"
proof -
  obtain h where h: "mux_ok h" "\<not> ids_full h" using create_ok by blast
  let ?p = "wire_packet PacketType_ChannelOpen 0 0 r []"
  have hp: "holds_packet (packet_buffer ?p) ?p" by (intro holds_packet_buffer wire_fits) simp
  have "accepts_type h 0 ChannelType_User" by (simp add: accepts_type_def)
  from notify_open_refines(3) [OF h(1) hp _ this h(2), of demo_env] obtain j h1 where
    j: "mux_ok h1" "abs_mux h1 = abs_open demo_env ChannelType_User j r [] (abs_mux h)" by (auto simp: settles_def)
  let ?c = "(new_chan demo_env ChannelType_User j r 0)\<lparr>ch_status := ChannelStatus_Open\<rparr>"
  have "channel_at h1 j = Some ?c"
    using arg_cong [OF j(2), of "\<lambda>s. ma_channels s j"]
    by (simp add: abs_open_def abs_mux_def store_def noted_def demo_env_def new_chan_def Let_def)
  with j(1) show ?thesis by (intro exI [of _ h1] exI [of _ j] exI [of _ ?c]) (simp add: new_chan_def)
qed

theorem channel_data_arrives_witness:
  "\<exists>hA hB i j p hA1. multiplex_handler_write_channel demo_env (uint (i :: u16)) (packet_buffer [1, 2, 3]) hA = Some (3, hA1)
    \<and> mh_trace hA1 = mh_trace hA @ [Wrote p]
    \<and> (\<forall>bufB. holds_packet bufB p \<longrightarrow> (\<exists>hB1. multiplex_handler_notify_packet demo_env bufB hB = Some hB1
        \<and> mh_trace hB1 = mh_trace hB @ [Data j [1, 2, 3]]))"
proof -
  obtain hB j cB where B: "mux_ok hB" "channel_at hB j = Some cB" "ch_status cB \<in> {ChannelStatus_Open, ChannelStatus_Pending}"
    using demo_open_channel by blast
  obtain hA i cA where A: "mux_ok hA" "channel_at hA i = Some cA" "ch_status cA \<in> {ChannelStatus_Open, ChannelStatus_Pending}"
    "ch_remote_id cA = j" using demo_open_channel [of j] by blast
  have e: "0 \<le> me_write demo_env tr p" for tr p by (simp add: demo_env_def)
  have b: "flex_ok (packet_buffer [1, 2, 3])" "PROTOCOL_HEAD_LEN \<le> fb_offset (packet_buffer [1, 2, 3])" "fb_size (packet_buffer [1, 2, 3]) < 2 ^ 16"
    "flex_payload (packet_buffer [1, 2, 3]) = [1, 2, 3]" "fb_size (packet_buffer [1, 2, 3]) = 3"
    using packet_buffer_ok [of "[1, 2, 3]"] by (simp_all add: inc_ok_def packet_buffer_def frame_consts PROTOCOL_HEAD_LEN_def)
  from channel_data_arrives [OF A e B b(1-3), of demo_env] show ?thesis
    unfolding b(4,5) by (simp add: demo_env_def) blast
qed

subsection \<open>Chunks\<close>

text \<open>
  C5. Stream reassembly: when the bytes of well-formed packets (each at most as long as the buffer for
  incomplete packets) arrive in chunks, cut anywhere, also inside headers, the loop of
  \<^verbatim>\<open>multiplex_handler_notify_data\<close> ends for every chunk and the packets are handled in order, each exactly
  once, with the same effects on the channels and the outside as if every packet had arrived in a buffer of
  its own; nothing is left over.
\<close>

theorem stream_reassembly:
  assumes "\<forall>p \<in> set ps. well_framed p" and "\<forall>b \<in> set chunks. flex_ok b"
    and "concat (map flex_payload chunks) = concat ps"
    and "inc_ok (mh_incomplete h)" and "flex_payload (mh_incomplete h) = []"
  shows "\<exists>x. inc_ok x \<and> flex_payload x = []
    \<and> receive_chunks env chunks h = map_option (\<lambda>h'. h'\<lparr>mh_incomplete := x\<rparr>) (deliver env ps h)"
  using receive_chunks_frames [OF assms(2,4), of ps "[]" env] frames_well_framed [OF assms(1)] assms(3,5)
  by (simp add: partial_frame_def PROTOCOL_HEAD_LEN_def)

theorem stream_reassembly_witness:
  "\<exists>h x h'. multiplex_handler_create True False = Some h
    \<and> receive_chunks demo_env [packet_buffer [3, 0, 0], packet_buffer [0, 0, 0, 0, 2, 7], packet_buffer [8]] h = Some h'
    \<and> mh_trace h' = [Base_data [7, 8]] \<and> mh_incomplete h' = x \<and> flex_payload x = []"
proof -
  let ?p = "[3, 0, 0, 0, 0, 0, 0, 2, 7, 8] :: u8 list"
  obtain h where h: "multiplex_handler_create True False = Some h" "inc_ok (mh_incomplete h)" "flex_payload (mh_incomplete h) = []"
    "mh_trace h = []" using create_ok [of True False] by auto
  have g: "get16 ?p 6 = 2" by (simp add: get16_def)
  then have w: "\<forall>p \<in> set [?p]. well_framed p" by (simp add: well_framed_def frame_len_def PROTOCOL_HEAD_LEN_def frame_consts)
  have wp: "?p = wire_packet PacketType_ChannelData 0 0 0 [7, 8]"
    by (simp add: wire_packet_def protocol_head_def be16_def packet_types)
  have fp: "flex_payload (packet_buffer [3, 0, 0]) = [3, 0, 0]" "flex_payload (packet_buffer [0, 0, 0, 0, 2, 7]) = [0, 0, 0, 0, 2, 7]"
    "flex_payload (packet_buffer [8]) = [8]" by (rule packet_buffer_ok; simp add: frame_consts)+
  have ok: "\<forall>b \<in> set [packet_buffer [3, 0, 0], packet_buffer [0, 0, 0, 0, 2, 7], packet_buffer [8]]. flex_ok b"
    using packet_buffer_ok(1) by (simp add: inc_ok_def frame_consts)
  have "holds_packet (packet_buffer ?p) (wire_packet PacketType_ChannelData 0 0 0 [7, 8])"
    unfolding wp by (intro holds_packet_buffer wire_fits) simp
  then have "deliver demo_env [?p] h = Some (emit_mux (Base_data [7, 8]) h)"
    using notify_packet_base [of "packet_buffer ?p" 0 "[7, 8]" demo_env h] by simp
  with stream_reassembly [OF w ok _ h(2,3), of demo_env] fp h(1,4) show ?thesis by auto
qed

subsection \<open>Where the protocol breaks\<close>

text \<open>
  C26. The refusal that a handler sends when it has no identifier left does not name the opener's channel, and
  a handler that receives it does not survive: the lookup of the channel with identifier 0 fails an assertion
  of the hash table. The same happens with every packet for identifier 0 that is not a request to open and
  not data of the stream.
\<close>

theorem refusal_trips_assertion:
  "(\<forall>env h buf. holds_packet buf refusal \<longrightarrow> multiplex_handler_notify_packet env buf h = None)
   \<and> (\<forall>env h buf t opt r payload. holds_packet buf (wire_packet t opt 0 r payload) \<and> length payload < 2 ^ 16
        \<and> 1 < unat t \<and> unat t < 8 \<and> (t = PacketType_ChannelData \<longrightarrow> r \<noteq> 0)
        \<longrightarrow> multiplex_handler_notify_packet env buf h = None)"
proof -
  have gen: "multiplex_handler_notify_packet env buf h = None"
    if p: "holds_packet buf (wire_packet t opt 0 r payload)" "length payload < 2 ^ 16" "1 < unat t" "unat t < 8"
      "t = PacketType_ChannelData \<longrightarrow> r \<noteq> 0" for env h buf t opt r payload
  proof -
    have fo: "flex_ok buf" and fp: "flex_payload buf = wire_packet t opt 0 r payload" using p(1) by (auto simp: holds_packet_def)
    have sz: "fb_size buf = length payload + PROTOCOL_HEAD_LEN"
      using flex_okD(4) [OF fo] wire_packet_fields(6) [OF p(2)] fp by metis
    have nt: "t \<noteq> PacketType_ChannelOpen" using p(3) by (auto simp: packet_types)
    have "channels_get 0 h = None" by (simp add: channels_get_def hashtable_get_def chan_key_def)
    then show ?thesis
      using nt p(4,5) sz wire_packet_fields [OF p(2), of t opt 0 r]
      by (auto simp: multiplex_handler_notify_packet_def flex_buffer_size_def fp Let_def)
  qed
  moreover have "1 < unat PacketType_ChannelOpenConfirmation" "unat PacketType_ChannelOpenConfirmation < 8"
    "PacketType_ChannelOpenConfirmation \<noteq> PacketType_ChannelData" by (simp_all add: packet_types)
  ultimately show ?thesis unfolding refusal_def by auto
qed

theorem refusal_trips_assertion_witness:
  "\<exists>h. multiplex_handler_create True False = Some h \<and> multiplex_handler_notify_packet demo_env (packet_buffer refusal) h = None"
proof -
  have "holds_packet (packet_buffer refusal) refusal" unfolding refusal_def by (intro holds_packet_buffer wire_fits) simp
  with refusal_trips_assertion create_ok [of True False] show ?thesis by blast
qed

end
