(* ===== verification/MultiplexLoops.thy ===== *)
theory MultiplexLoops
  imports MultiplexSpec
begin

text \<open>
  The loops over all channels, which remove channels from the table while they iterate over it: closing all
  channels and the periodic checkpoint.
\<close>

subsection \<open>One step of an iteration\<close>

definition iter_at :: "HashtableIterator_i \<Rightarrow> nat list \<Rightarrow> MultiplexHandler \<Rightarrow> bool" where
  "iter_at it rest h \<longleftrightarrow> hit_next it = lst_first rest \<and> hit_expected_mod_count it = ht_mod_count (mh_channels h)"

lemma iter_start: "iter_at (hashtable_iterate (mh_channels h)) (slots h) h"
  by (simp add: iter_at_def hashtable_iterate_def)

lemma slot_entry:
  assumes ok: "mux_ok h" and c: "mh_chans h a = Some c"
  obtains x where "ht_ents (mh_channels h) a = Some x" "he_data x = a" "he_key x = chan_key (ucast (ch_id c))"
proof -
  note st = stored [OF ok c]
  from ht_okD(8) [OF mux_okD(1) [OF ok] st(1)] obtain x where x: "ht_ents (mh_channels h) a = Some x" by blast
  have "map (\<lambda>e. (key_of (mh_channels h) e, data_of (mh_channels h) e)) (slots h)
      = map (\<lambda>a. (chan_key (ucast (chan_id_of h a)), a)) (slots h)"
    using mux_okD(4) [OF ok] unfolding contents_def .
  with st(1) have "key_of (mh_channels h) a = chan_key (ucast (chan_id_of h a))" "data_of (mh_channels h) a = a" by simp_all
  with x st(3) show thesis by (intro that [OF x]) (simp_all add: key_of_def data_of_def)
qed

lemma iter_step:
  assumes ok: "mux_ok h" and sl: "slots h = done @ a # rest" and it: "iter_at it (a # rest) h"
  obtains c x it1 where "mh_chans h a = Some c"
    "hashtable_iterator_next it (mh_channels h) = Some (1, Some (x, a), it1, ht_ref a (mh_channels h))"
    "hit_current it1 = Some a" "iter_at it1 rest h" "hashtable_iterator_has_next it"
proof -
  have "a \<in> set (slots h)" using sl by simp
  then obtain c where c: "mh_chans h a = Some c" using mux_okD(5) [OF ok] by blast
  from slot_entry [OF ok c] obtain x where x: "ht_ents (mh_channels h) a = Some x" "he_data x = a" by blast
  have "lst_succ (slots h) a = lst_first rest" using ht_okD(4) [OF mux_okD(1) [OF ok]] sl by (simp add: lst_succ_append)
  with it x show thesis
    by (intro that [OF c, of "he_key x" "it\<lparr>hit_current := Some a, hit_next := lst_first rest\<rparr>"])
      (simp_all add: iter_at_def hashtable_iterator_next_def lst_first_def hashtable_iterator_has_next_def)
qed

text \<open>Removing the channel at the iterator and dropping the reference the iterator gave.\<close>

lemma iter_remove:
  assumes ok: "mux_ok h" and c: "mh_chans h a = Some c" and it: "hit_current it1 = Some a" "iter_at it1 rest h"
    and sl: "slots h = done @ a # rest"
  obtains it2 t h' where "hashtable_iterator_remove it1 (ht_ref a (mh_channels h)) = Some (1, it2, t)"
    "channel_deref env a (h\<lparr>mh_channels := t\<rparr>) = Some h'" "without_chan env a h h'" "iter_at it2 rest h'" "slots h' = done @ rest"
proof -
  from slot_entry [OF ok c] obtain x where
    x: "ht_ents (mh_channels h) a = Some x" "he_data x = a" "he_key x = chan_key (ucast (ch_id c))" by blast
  from remove_slot [OF ok c] obtain t where
    t: "hashtable_remove (ht_ref a (mh_channels h)) (chan_key (ucast (ch_id c))) = Some (Some a, t)" "removed_slot a h t"
      "ht_refs t a = 2" "ht_mod_count t = ht_mod_count (mh_channels h) + 1" by metis
  let ?it = "it1\<lparr>hit_current := None, hit_expected_mod_count := hit_expected_mod_count it1 + 1\<rparr>"
  have rm: "hashtable_iterator_remove it1 (ht_ref a (mh_channels h)) = Some (1, ?it, ht_deref a t)"
    using it x t(1) by (simp add: hashtable_iterator_remove_def iter_at_def)
  have "removed_slot a h (ht_deref a (ht_deref a t))" using t(2) by simp
  from destroy_removed [OF ok c this, of env] obtain ids where
    d: "channel_destroy env a (h\<lparr>mh_channels := ht_deref a (ht_deref a t)\<rparr>)
          = Some (h\<lparr>mh_channels := ht_deref a (ht_deref a t), mh_ids := ids\<rparr>)"
      "without_chan env a h (h\<lparr>mh_channels := ht_deref a (ht_deref a t), mh_ids := ids, mh_chans := (mh_chans h)(a := None)\<rparr>)" by blast
  let ?h = "h\<lparr>mh_channels := ht_deref a (ht_deref a t), mh_ids := ids, mh_chans := (mh_chans h)(a := None)\<rparr>"
  have "channel_deref env a (h\<lparr>mh_channels := ht_deref a t\<rparr>) = Some ?h"
    using d(1) t(3) c by (simp add: channel_deref_def)
  moreover have "a \<notin> set done" "a \<notin> set rest" using sl ht_okD(4) [OF mux_okD(1) [OF ok]] by auto
  then have "filter (\<lambda>e. e \<noteq> a) done = done" "filter (\<lambda>e. e \<noteq> a) rest = rest" by (auto simp: filter_id_conv)
  then have "slots ?h = done @ rest" using d(2) sl unfolding without_chan_def by simp
  moreover have "iter_at ?it rest ?h" using it(2) t(4) by (simp add: iter_at_def)
  ultimately show thesis using that [OF rm _ d(2)] by blast
qed

subsection \<open>Closing all channels\<close>

lemma close_channels_loop_ok:
  assumes "mux_ok h" and "iter_at it (slots h) h"
  shows "\<exists>h'. close_channels_loop env reason it h = Some h' \<and> mux_ok h' \<and> slots h' = []
    \<and> mh_trace h' = mh_trace h @ map (\<lambda>a. Closed (chan_id_of h a) reason) (slots h) \<and> mux_mode h' = mux_mode h"
  using assms
proof (induction "slots h" arbitrary: h it)
  case Nil
  then have "\<not> hashtable_iterator_has_next it" by (simp add: iter_at_def hashtable_iterator_has_next_def lst_first_def)
  then show ?case using Nil by (subst close_channels_loop.simps) simp
next
  case (Cons a rest)
  have sl: "slots h = [] @ a # rest" using Cons.hyps(2) by simp
  have "iter_at it (a # rest) h" using Cons.prems(2) Cons.hyps(2) by simp
  from iter_step [OF Cons.prems(1) sl this] obtain c x it1 where
    st: "mh_chans h a = Some c" "hashtable_iterator_next it (mh_channels h) = Some (1, Some (x, a), it1, ht_ref a (mh_channels h))"
      "hit_current it1 = Some a" "iter_at it1 rest h" "hashtable_iterator_has_next it" .
  from iter_remove [OF Cons.prems(1) st(1,3,4) sl, of env] obtain it2 t h1 where
    rm: "hashtable_iterator_remove it1 (ht_ref a (mh_channels h)) = Some (1, it2, t)"
      "channel_deref env a (h\<lparr>mh_channels := t\<rparr>) = Some h1" "without_chan env a h h1" "iter_at it2 rest h1" "slots h1 = [] @ rest" .
  define e where "e = Closed (ch_id c) reason"
  have ids: "chan_id_of h b = chan_id_of (emit_mux e h1) b" if "b \<in> set rest" for b
  proof -
    have "b \<noteq> a" using that sl ht_okD(4) [OF mux_okD(1) [OF Cons.prems(1)]] by auto
    with rm(3) show ?thesis by (simp add: chan_id_of_def without_chan_def)
  qed
  have "mux_ok (emit_mux e h1)" "iter_at it2 (slots (emit_mux e h1)) (emit_mux e h1)" "rest = slots (emit_mux e h1)"
    using rm(3-5) by (simp_all add: without_chan_def iter_at_def)
  from Cons.hyps(1) [OF this(3) this(1,2)] obtain h' where
    h': "close_channels_loop env reason it2 (emit_mux e h1) = Some h'" "mux_ok h'" "slots h' = []"
      "mh_trace h' = mh_trace (emit_mux e h1) @ map (\<lambda>a. Closed (chan_id_of (emit_mux e h1) a) reason) rest" "mux_mode h' = mux_mode h1"
    using rm(5) by auto
  have sw: "emit_mux e (h\<lparr>mh_channels := t\<rparr>) = (emit_mux e h)\<lparr>mh_channels := t\<rparr>" by (simp add: emit_mux_def)
  have "channel_deref env a (emit_mux e (h\<lparr>mh_channels := t\<rparr>)) = Some (emit_mux e h1)" using rm(2) by (simp add: deref_emit)
  with h'(1) have "close_channels_loop env reason it h = Some h'"
    using st(1,2,5) rm(1) by (subst close_channels_loop.simps) (simp add: e_def)
  moreover have same: "mh_trace h1 = mh_trace h" "mux_mode h1 = mux_mode h" using rm(3) by (simp_all add: without_chan_def)
  have "map (\<lambda>a. Closed (chan_id_of (emit_mux e h1) a) reason) rest = map (\<lambda>a. Closed (chan_id_of h a) reason) rest"
    using ids by (intro map_cong) simp_all
  with h'(4) same have "mh_trace h' = mh_trace h @ map (\<lambda>a. Closed (chan_id_of h a) reason) (a # rest)"
    using stored(3) [OF Cons.prems(1) st(1)] by (simp add: e_def)
  ultimately show ?case using h'(2,3,5) same Cons.hyps(2) by auto
qed

subsection \<open>The checkpoint\<close>

definition expired :: "mux_env \<Rightarrow> Channel \<Rightarrow> bool" where
  "expired env c \<longleftrightarrow> (ch_timeout c \<noteq> 0 \<and> interval_ms (me_now env) (ch_last_activity c) \<ge> to_int32 (ch_timeout c * 1000))
     \<or> interval_ms (me_now env) (ch_remote_timestamp c) \<ge> KEEPALIVE_TIMEOUT_INTERVAL"

definition idle :: "mux_env \<Rightarrow> Channel \<Rightarrow> bool" where
  "idle env c \<longleftrightarrow> interval_ms (me_now env) (ch_local_timestamp c) \<ge> KEEPALIVE_INTERVAL"

definition keep_alive_packet :: "Channel \<Rightarrow> u8 list" where
  "keep_alive_packet c = wire_packet PacketType_ChannelKeepAlive 0 (ch_remote_id c) (ch_id c) []"

definition check_channel :: "mux_env \<Rightarrow> u16 \<Rightarrow> mux_abs \<Rightarrow> mux_abs" where
  "check_channel env i s =
     (case ma_channels s i of
        None \<Rightarrow> s
      | Some c \<Rightarrow>
          if expired env c then drop_channel i (noted (Closed i CloseReason_Timeout) s)
          else if idle env c then
            (if me_write env (ma_trace s) (keep_alive_packet c) < 0 then noted (Wrote (keep_alive_packet c)) s
             else store (c\<lparr>ch_local_timestamp := me_now env\<rparr>) (noted (Wrote (keep_alive_packet c)) s))
          else s)"

lemma replace_table: "(emit_mux e (hold a h))\<lparr>mh_channels := t\<rparr> = emit_mux e (h\<lparr>mh_channels := t\<rparr>)"
  by (simp add: emit_mux_def hold_def)

lemma checkpoint_loop_ok:
  assumes "mux_ok h" and "slots h = done @ rest" and "iter_at it rest h"
  shows "settles (checkpoint_loop env it h) (fold (check_channel env) (map (chan_id_of h) rest) (abs_mux h))"
  using assms
proof (induction rest arbitrary: "done" h it)
  case Nil
  then have "\<not> hashtable_iterator_has_next it" by (simp add: iter_at_def hashtable_iterator_has_next_def lst_first_def)
  then show ?case using Nil by (subst checkpoint_loop.simps) (simp add: settles_def)
next
  case (Cons a rest)
  note ok = Cons.prems(1) and sl = Cons.prems(2)
  from iter_step [OF Cons.prems] obtain c x it1 where
    st: "mh_chans h a = Some c" "hashtable_iterator_next it (mh_channels h) = Some (1, Some (x, a), it1, ht_ref a (mh_channels h))"
      "hit_current it1 = Some a" "iter_at it1 rest h" "hashtable_iterator_has_next it" .
  note id = stored(3,7) [OF ok st(1)]
  have at: "ma_channels (abs_mux h) (ch_id c) = Some c" "ma_trace (abs_mux h) = mh_trace h" using id(2) by (simp_all add: abs_mux_def)
  have keep: "settles (checkpoint_loop env it1 g) (fold (check_channel env) (map (chan_id_of h) rest) (abs_mux g))"
    if "mux_ok g" "mh_channels g = mh_channels h" "\<And>b. chan_id_of g b = chan_id_of h b" for g
    using Cons.IH [of g "done @ [a]" it1] that sl st(4) by (simp add: iter_at_def)
  have ev: "checkpoint_loop env it h =
      (if expired env c then do {
         (_, it2, t2) \<leftarrow> hashtable_iterator_remove it1 (ht_ref a (mh_channels h));
         h3 \<leftarrow> channel_deref env a ((emit_mux (Closed (ch_id c) CloseReason_Timeout) (hold a h))\<lparr>mh_channels := t2\<rparr>);
         checkpoint_loop env it2 h3
       }
       else do {
         h2 \<leftarrow> (if idle env c then do {
                  (rc2, _, b) \<leftarrow> multiplex_handler_send_packet env PacketType_ChannelKeepAlive 0 (ch_id c) (ch_remote_id c) None (hold a h);
                  if rc2 = 0 then chan_upd a (\<lambda>c. c\<lparr>ch_local_timestamp := me_now env\<rparr>) b else Some b
                } else Some (hold a h));
         h3 \<leftarrow> channel_deref env a h2;
         checkpoint_loop env it1 h3
       })"
    using st(1,2,5) by (subst checkpoint_loop.simps) (simp add: expired_def idle_def hold_def Let_def cong: if_cong)
  let ?p = "keep_alive_packet c" and ?rc = "me_write env (mh_trace h) (keep_alive_packet c)"
  have pt: "0 < unat PacketType_ChannelKeepAlive" "unat PacketType_ChannelKeepAlive < 8" by (simp_all add: packet_types)
  from send_packet_none [OF pt, where env = env and opt = 0 and l = "ch_id c" and r = "ch_remote_id c" and h = h] obtain b where
    snd: "multiplex_handler_send_packet env PacketType_ChannelKeepAlive 0 (ch_id c) (ch_remote_id c) None h
      = Some (if ?rc < 0 then ?rc else 0, b, emit_mux (Wrote ?p) h)" unfolding keep_alive_packet_def by blast
  have e: "mux_ok (emit_mux (Wrote ?p) h)" "mh_chans (emit_mux (Wrote ?p) h) a = Some c" using ok st(1) by simp_all
  consider (gone) "expired env c" | (alive) "\<not> expired env c" "idle env c" "0 \<le> ?rc" | (failed) "\<not> expired env c" "idle env c" "?rc < 0"
    | (quiet) "\<not> expired env c" "\<not> idle env c" by linarith
  then show ?case
  proof cases
    case gone
    from iter_remove [OF ok st(1,3,4) sl, of env] obtain it2 t h1 where
      rm: "hashtable_iterator_remove it1 (ht_ref a (mh_channels h)) = Some (1, it2, t)"
        "channel_deref env a (h\<lparr>mh_channels := t\<rparr>) = Some h1" "without_chan env a h h1" "iter_at it2 rest h1" "slots h1 = done @ rest" .
    let ?e = "Closed (ch_id c) CloseReason_Timeout"
    have w: "mux_ok h1" "abs_mux h1 = drop_channel (ch_id c) (abs_mux h)" using without_abs [OF ok st(1) rm(3)] by simp_all
    have ids: "chan_id_of (emit_mux ?e h1) b = chan_id_of h b" if "b \<in> set rest" for b
    proof -
      have "b \<noteq> a" using that sl ht_okD(4) [OF mux_okD(1) [OF ok]] by auto
      with rm(3) show ?thesis by (simp add: chan_id_of_def without_chan_def)
    qed
    have ms: "map (chan_id_of (emit_mux ?e h1)) rest = map (chan_id_of h) rest" using ids by (intro map_cong) simp_all
    have "settles (checkpoint_loop env it2 (emit_mux ?e h1)) (fold (check_channel env) (map (chan_id_of h) rest) (abs_mux (emit_mux ?e h1)))"
      using Cons.IH [of "emit_mux ?e h1" "done" it2] w(1) rm(4,5) unfolding ms by (simp add: iter_at_def)
    moreover have "abs_mux (emit_mux ?e h1) = check_channel env (ch_id c) (abs_mux h)"
      using gone at by (simp add: check_channel_def w(2)) (simp add: noted_def drop_channel_def)
    ultimately show ?thesis using gone rm(1,2) id(1) by (simp add: ev deref_emit replace_table)
  next
    case alive
    let ?g = "set_chan a (c\<lparr>ch_local_timestamp := me_now env\<rparr>) (emit_mux (Wrote ?p) h)"
    have g: "mux_ok ?g" by (rule set_chan_ok [OF e]) simp
    have rl: "channel_deref env a (hold a ?g) = Some ?g" by (rule release [OF g]) simp
    have "abs_mux ?g = check_channel env (ch_id c) (abs_mux h)"
      using alive at abs_set_chan [OF e, of "c\<lparr>ch_local_timestamp := me_now env\<rparr>"] by (simp add: check_channel_def)
    moreover have "chan_id_of ?g b = chan_id_of h b" for b using st(1) by (simp add: chan_id_of_def)
    ultimately show ?thesis
      using keep [of ?g] g alive rl id(1) st(1) by (simp add: ev hold_simps snd chan_upd_Some)
  next
    case failed
    have "abs_mux (emit_mux (Wrote ?p) h) = check_channel env (ch_id c) (abs_mux h)"
      using failed at by (simp add: check_channel_def)
    moreover have "chan_id_of (emit_mux (Wrote ?p) h) b = chan_id_of h b" for b by (simp add: chan_id_of_def)
    ultimately show ?thesis
      using keep [of "emit_mux (Wrote ?p) h"] e failed release [OF e, of env] id(1) by (simp add: ev hold_simps snd)
  next
    case quiet
    then have "check_channel env (ch_id c) (abs_mux h) = abs_mux h" using at by (simp add: check_channel_def)
    then show ?thesis
      using quiet keep [of h] ok release [OF ok st(1), of env] id(1) by (simp add: ev)
  qed
qed

definition indexed :: "mux_abs \<Rightarrow> bool" where
  "indexed s \<longleftrightarrow> (\<forall>i c. ma_channels s i = Some c \<longrightarrow> ch_id c = i)"

lemma check_channel_at:
  assumes "indexed s"
  shows "indexed (check_channel env i s)"
    "ma_channels (check_channel env i s) j = (if j = i then
       (case ma_channels s i of None \<Rightarrow> None
        | Some c \<Rightarrow> if expired env c then None
           else if idle env c \<and> \<not> me_write env (ma_trace s) (keep_alive_packet c) < 0 then Some (c\<lparr>ch_local_timestamp := me_now env\<rparr>) else Some c)
       else ma_channels s j)"
  using assms by (auto simp: indexed_def check_channel_def noted_def store_def drop_channel_def split: option.splits)

lemma checked_channels:
  assumes "indexed s" and "distinct is"
  shows "ma_channels (fold (check_channel env) is s) i = None \<longleftrightarrow>
    (case ma_channels s i of None \<Rightarrow> True | Some c \<Rightarrow> i \<in> set is \<and> expired env c)"
  using assms
proof (induction "is" arbitrary: s)
  case (Cons j js)
  have "ma_channels (check_channel env j s) i = ma_channels s i" if "i \<noteq> j" using that check_channel_at(2) [OF Cons.prems(1)] by simp
  with Cons.IH [OF check_channel_at(1) [OF Cons.prems(1)], of env j] Cons.prems check_channel_at(2) [OF Cons.prems(1), of env j i]
  show ?case by (auto split: option.splits if_splits)
qed (auto split: option.split)

subsection \<open>Properties\<close>

text \<open>
  C24. Closing all channels: although the loop removes from the table it iterates over, it ends without
  restarting, every channel is told once that it is closed, in the order in which the channels were opened,
  with the given reason, and afterwards no channel is left.
\<close>

theorem close_channels_closes_all:
  assumes "mux_ok h"
  shows "\<exists>h'. multiplex_handler_close_channels env reason h = Some h' \<and> mux_ok h' \<and> (\<forall>i. channel_at h' i = None)
    \<and> mh_trace h' = mh_trace h @ map (\<lambda>a. Closed (chan_id_of h a) reason) (ht_lst (mh_channels h))"
proof -
  from close_channels_loop_ok [OF assms iter_start, of env reason] obtain h' where
    h': "close_channels_loop env reason (hashtable_iterate (mh_channels h)) h = Some h'" "mux_ok h'" "slots h' = []"
      "mh_trace h' = mh_trace h @ map (\<lambda>a. Closed (chan_id_of h a) reason) (slots h)" by blast
  have "channel_at h' i = None" for i using h'(3) by (simp add: channel_at_def contents_def)
  with h' show ?thesis by (simp add: multiplex_handler_close_channels_def)
qed

theorem close_channels_closes_all_witness:
  "\<exists>h h'. multiplex_handler_create True False = Some h
    \<and> multiplex_handler_close_channels demo_env CloseReason_Normal h = Some h' \<and> mux_ok h'"
proof -
  obtain h where "multiplex_handler_create True False = Some h" "mux_ok h" using create_ok by blast
  with close_channels_closes_all [of h demo_env CloseReason_Normal] show ?thesis by blast
qed

text \<open>
  C25. The checkpoint ends, keeps the invariant and treats every channel once, in the order of opening:
  exactly the channels that were idle or silent for too long are removed and told so; for the others a
  keep-alive packet is sent when nothing was sent for a while, and only their time stamp changes.
\<close>

theorem checkpoint_removes_expired:
  assumes ok: "mux_ok h"
  shows "\<exists>h'. multiplex_handler_checkpoint env h = Some h' \<and> mux_ok h'
    \<and> abs_mux h' = fold (check_channel env) (map (chan_id_of h) (ht_lst (mh_channels h))) (abs_mux h)
    \<and> (\<forall>i. channel_at h' i = None \<longleftrightarrow> (case channel_at h i of None \<Rightarrow> True | Some c \<Rightarrow> expired env c))"
proof -
  from checkpoint_loop_ok [OF ok _ iter_start, of "[]" env] obtain h' where
    h': "checkpoint_loop env (hashtable_iterate (mh_channels h)) h = Some h'" "mux_ok h'"
      "abs_mux h' = fold (check_channel env) (map (chan_id_of h) (slots h)) (abs_mux h)" by (auto simp: settles_def)
  have ix: "indexed (abs_mux h)" using channel_at_id [OF ok] by (auto simp: indexed_def abs_mux_def)
  have d: "distinct (map (chan_id_of h) (slots h))"
    using ht_okD(4) [OF mux_okD(1) [OF ok]] chan_id_inj [OF ok] by (auto simp: distinct_map inj_on_def)
  have mem: "i \<in> set (map (chan_id_of h) (slots h))" if "channel_at h i = Some c" for i c
    using that channel_at_iff [OF ok] stored(1,3) [OF ok] by (metis imageI set_map)
  have "channel_at h' i = None \<longleftrightarrow> (case channel_at h i of None \<Rightarrow> True | Some c \<Rightarrow> expired env c)" for i
  proof -
    have "channel_at h' i = ma_channels (fold (check_channel env) (map (chan_id_of h) (slots h)) (abs_mux h)) i"
      using h'(3) by (metis abs_mux_def mux_abs.select_convs(1))
    with checked_channels [OF ix d, of env i] mem [of i] show ?thesis
      by (cases "channel_at h i") (simp_all add: abs_mux_def)
  qed
  with h' show ?thesis by (simp add: multiplex_handler_checkpoint_def)
qed

theorem checkpoint_removes_expired_witness:
  "\<exists>h h'. multiplex_handler_create False False = Some h \<and> multiplex_handler_checkpoint demo_env h = Some h' \<and> mux_ok h'"
proof -
  obtain h where "multiplex_handler_create False False = Some h" "mux_ok h" using create_ok by blast
  with checkpoint_removes_expired [of h demo_env] show ?thesis by blast
qed

end
