(* ===== verification/Base58.thy ===== *)
theory Base58
  imports Prelude
begin

text \<open>
  Base 58 as in \<^verbatim>\<open>src/common/base58.c\<close>: the text form of public keys and addresses. Both directions are the
  in-place arithmetic of the sources, on digits and on 32-bit words; the theorems relate them to the number
  that the bytes denote. Lengths are far from the limits of \<^verbatim>\<open>size_t\<close> and are not wrapped.
\<close>

unbundle bit_operations_syntax

subsection \<open>The digits\<close>

definition b58digits_ordered :: "u8 list" where
  "b58digits_ordered = map (\<lambda>c. of_char c)
     ''123456789ABCDEFGHJKLMNPQRSTUVWXYZabcdefghijkmnopqrstuvwxyz''"

definition b58digits_map :: "int list" where
  "b58digits_map =
    [-1,-1,-1,-1,-1,-1,-1,-1, -1,-1,-1,-1,-1,-1,-1,-1,
     -1,-1,-1,-1,-1,-1,-1,-1, -1,-1,-1,-1,-1,-1,-1,-1,
     -1,-1,-1,-1,-1,-1,-1,-1, -1,-1,-1,-1,-1,-1,-1,-1,
     -1, 0, 1, 2, 3, 4, 5, 6,  7, 8,-1,-1,-1,-1,-1,-1,
     -1, 9,10,11,12,13,14,15, 16,-1,17,18,19,20,21,-1,
     22,23,24,25,26,27,28,29, 30,31,32,-1,-1,-1,-1,-1,
     -1,33,34,35,36,37,38,39, 40,41,42,43,-1,44,45,46,
     47,48,49,50,51,52,53,54, 55,56,57,-1,-1,-1,-1,-1]"

definition ASCII_1 :: u8 where "ASCII_1 = 0x31"

subsection \<open>Encoding\<close>

text \<open>
  The inner loop of \<^verbatim>\<open>base58_encode\<close>: \<^verbatim>\<open>j\<close> runs down while it is above \<^verbatim>\<open>high\<close> or there is a carry. The result is
  the value of \<^verbatim>\<open>j\<close> at the end and the digits.
\<close>

function encode_inner :: "int \<Rightarrow> int \<Rightarrow> int \<Rightarrow> u8 list \<Rightarrow> (int \<times> u8 list) option" where
  "encode_inner high carry j buf =
     (if j > high \<or> carry \<noteq> 0 then
        (if j < 0 then None
         else do {
           d \<leftarrow> mem_at buf (nat j);
           let carry1 = carry + 256 * uint d;
           buf1 \<leftarrow> mem_set buf (nat j) (word_of_int (carry1 mod 58));
           encode_inner high (carry1 div 58) (j - 1) buf1
         })
      else Some (j, buf))"
  by auto
termination
  by (relation "measure (\<lambda>(high, carry, j, buf). nat (j + 1))") auto

declare encode_inner.simps [simp del]

fun encode_outer :: "nat \<Rightarrow> u8 list \<Rightarrow> int \<Rightarrow> u8 list \<Rightarrow> u8 list option" where
  "encode_outer sz [] high buf = Some buf"
| "encode_outer sz (b # bs) high buf =
     do {
       (j, buf1) \<leftarrow> encode_inner high (uint b) (int sz - 1) buf;
       encode_outer sz bs j buf1
     }"

text \<open>
  Returns whether the text fitted, the block for the text and the length that the caller reads back from
  \<^verbatim>\<open>*textlen\<close>.
\<close>

definition base58_encode :: "u8 list \<Rightarrow> u8 list \<Rightarrow> nat \<Rightarrow> (bool \<times> u8 list \<times> nat) option" where
  "base58_encode data text textlen =
     do {
       let zcount = length (takeWhile (\<lambda>b. b = 0) data);
       let sz = (length data - zcount) * 138 div 100 + 1;
       buf \<leftarrow> encode_outer sz (drop zcount data) (int sz - 1) (replicate sz 0);
       let j = length (takeWhile (\<lambda>d. d = 0) buf);
       if textlen \<le> zcount + sz - j then Some (False, text, zcount + sz - j + 1)
       else do {
         digits \<leftarrow> those (map (\<lambda>d. mem_at b58digits_ordered (unat d)) (drop j buf));
         text1 \<leftarrow> mem_write text 0 (replicate zcount ASCII_1 @ digits @ [0]);
         Some (True, text1, zcount + (sz - j) + 1)
       }
     }"

subsection \<open>Decoding\<close>

text \<open>Multiplying the number in the words, most significant first, by 58 and adding the digit; the carry out of them.\<close>

fun decode_mul :: "u32 \<Rightarrow> u32 list \<Rightarrow> u32 \<times> u32 list" where
  "decode_mul c [] = (c, [])"
| "decode_mul c (x # xs) =
     (let (c1, ys) = decode_mul c xs;
          t = (ucast x :: u64) * 58 + ucast c1
      in (ucast (drop_bit 32 (t AND 0x3f00000000)), ucast (t AND 0xffffffff) # ys))"

text \<open>\<open>Inr\<close> the words, \<open>Inl\<close> for the return value -1.\<close>

fun decode_chars :: "u32 \<Rightarrow> u8 list \<Rightarrow> u32 list \<Rightarrow> (unit + u32 list) option" where
  "decode_chars zeromask [] outi = Some (Inr outi)"
| "decode_chars zeromask (ch # chs) outi =
     (if ch AND 0x80 \<noteq> 0 then Some (Inl ())
      else do {
        d \<leftarrow> mem_at b58digits_map (unat ch);
        if d = -1 then Some (Inl ())
        else do {
          let (c, outi1) = decode_mul (word_of_int d) outi;
          if c \<noteq> 0 then Some (Inl ())
          else do {
            w \<leftarrow> mem_at outi1 0;
            if w AND zeromask \<noteq> 0 then Some (Inl ()) else decode_chars zeromask chs outi1
          }
        }
      })"

definition word_bytes :: "u32 \<Rightarrow> u8 list" where
  "word_bytes w = [ucast (drop_bit 0x18 w AND 0xff), ucast (drop_bit 0x10 w AND 0xff), ucast (drop_bit 8 w AND 0xff),
     ucast (drop_bit 0 w AND 0xff)]"

text \<open>The switch over \<^verbatim>\<open>bytesleft\<close>, whose cases fall through.\<close>

definition decode_output :: "nat \<Rightarrow> u32 list \<Rightarrow> u8 list option" where
  "decode_output bytesleft outi =
     (if bytesleft = 0 then Some (concat (map word_bytes outi))
      else do {
        w \<leftarrow> mem_at outi 0;
        Some ((if bytesleft = 3 then [ucast (drop_bit 16 (w AND 0xff0000))] else [])
              @ (if bytesleft \<ge> 2 then [ucast (drop_bit 8 (w AND 0xff00))] else [])
              @ [ucast (w AND 0xff)] @ concat (map word_bytes (drop 1 outi)))
      })"

definition c_strlen :: "u8 list \<Rightarrow> nat option" where
  "c_strlen s = (if 0 \<in> set s then Some (length (takeWhile (\<lambda>c. c \<noteq> 0) s)) else None)"

text \<open>The return value and the bytes stored at \<^verbatim>\<open>data\<close>, whose block has at least \<^verbatim>\<open>datalen\<close> bytes.\<close>

definition base58_decode :: "u8 list \<Rightarrow> nat \<Rightarrow> nat \<Rightarrow> (int \<times> u8 list) option" where
  "base58_decode text textlen0 datalen =
     do {
       let outisz = (datalen + 3) div 4;
       let bytesleft = datalen mod 4;
       let zeromask = (if bytesleft \<noteq> 0 then push_bit (bytesleft * 8) 0xffffffff else 0 :: u32);
       textlen \<leftarrow> (if textlen0 = 0 then c_strlen text else Some textlen0);
       chars \<leftarrow> mem_read text 0 textlen;
       let zerocount = length (takeWhile (\<lambda>c. c = ASCII_1) chars);
       r \<leftarrow> decode_chars zeromask (drop zerocount chars) (replicate outisz 0);
       case r of
         Inl _ \<Rightarrow> Some (-1, [])
       | Inr outi \<Rightarrow> do {
           bytes \<leftarrow> decode_output bytesleft outi;
           Some (int (datalen - length (takeWhile (\<lambda>b. b = 0) bytes)) + int zerocount, bytes)
         }
     }"

subsection \<open>The numbers behind\<close>

definition val58 :: "u8 list \<Rightarrow> nat" where "val58 ds = foldl (\<lambda>v d. v * 58 + unat d) 0 ds"
definition val256 :: "u8 list \<Rightarrow> nat" where "val256 bs = foldl (\<lambda>v b. v * 256 + unat b) 0 bs"
definition val32 :: "u32 list \<Rightarrow> nat" where "val32 ws = foldl (\<lambda>v w. v * 2 ^ 32 + unat w) 0 ws"

lemma val_simps:
  "val58 [] = 0" "val58 (ds @ [d]) = val58 ds * 58 + unat d"
  "val256 [] = 0" "val256 (bs @ [b]) = val256 bs * 256 + unat b"
  "val32 [] = 0" "val32 (ws @ [w]) = val32 ws * 2 ^ 32 + unat w"
  by (simp_all add: val58_def val256_def val32_def)

lemma b58digits_ordered_bytes:
  "b58digits_ordered = [49, 50, 51, 52, 53, 54, 55, 56, 57, 65, 66, 67, 68, 69, 70, 71, 72, 74, 75, 76, 77, 78, 80, 81, 82, 83, 84, 85, 86, 87, 88, 89, 90, 97, 98, 99, 100, 101, 102, 103, 104, 105, 106, 107, 109, 110, 111, 112, 113, 114, 115, 116, 117, 118, 119, 120, 121, 122]"
  by (simp add: b58digits_ordered_def of_char_def)

lemma digits_inverse:
  "map (\<lambda>c. b58digits_map ! unat c) b58digits_ordered = map int [0..<58]"
  "list_all (\<lambda>c. unat c < 128) b58digits_ordered" "length b58digits_ordered = 58" "length b58digits_map = 128"
  "list_all (\<lambda>c. c \<noteq> ASCII_1) (tl b58digits_ordered)" "hd b58digits_ordered = ASCII_1"
  by (simp_all add: b58digits_ordered_bytes b58digits_map_def upt_conv_Cons ASCII_1_def)

lemma val58_zeros: "\<forall>d \<in> set ds. d = 0 \<Longrightarrow> val58 ds = 0"
  by (induction ds rule: rev_induct) (auto simp: val_simps)

lemma encode_inner_step:
  assumes "j = int (length p)" and "j > high \<or> carry \<noteq> 0"
  shows "encode_inner high carry j ((p @ [d]) @ q)
    = encode_inner high ((carry + 256 * uint d) div 58) (j - 1) (p @ word_of_int ((carry + 256 * uint d) mod 58) # q)"
  using assms by (subst encode_inner.simps) (simp add: mem_at_Some mem_set_Some Let_def list_update_append)

lemma encode_inner_spec:
  assumes "\<forall>d \<in> set p. unat d < 58" and "\<forall>i < length p. int i \<le> high \<longrightarrow> p ! i = 0" and "-1 \<le> high" "0 \<le> carry" "carry < 2 ^ 16"
    and "val58 p * 256 + nat carry < 58 ^ length p"
  shows "\<exists>j p'. encode_inner high carry (int (length p) - 1) (p @ q) = Some (j, p' @ q) \<and> length p' = length p
    \<and> (\<forall>d \<in> set p'. unat d < 58) \<and> val58 p' = val58 p * 256 + nat carry
    \<and> -1 \<le> j \<and> j < int (length p) \<and> (\<forall>i < length p. int i \<le> j \<longrightarrow> p' ! i = 0)"
  using assms
proof (induction p arbitrary: carry q rule: rev_induct)
  case Nil
  then have "carry = 0" by (simp add: val_simps)
  with Nil show ?case by (subst encode_inner.simps) (simp add: val_simps)
next
  case (snoc d p)
  let ?n = "length p" and ?c = "carry + 256 * uint d"
  show ?case
  proof (cases "int ?n > high \<or> carry \<noteq> 0")
    case True
    have d: "unat d < 58" "uint d = int (unat d)" "0 \<le> uint d" using snoc.prems(1) by auto
    define x where "x = (word_of_int (?c mod 58) :: u8)"
    have "0 \<le> ?c mod 58" "?c mod 58 < 58" by simp_all
    then have x: "unat x = nat (?c mod 58)" "unat x < 58" by (simp_all add: x_def unat_eq_nat_uint uint_word_of_int_eq take_bit_int_eq_self)
    have "uint d < 58" using d(1,2) by linarith
    then have "?c \<le> 58 * 65535 + 57" using snoc.prems(5) by simp
    from zdiv_mono1 [OF this, of 58] have c: "0 \<le> ?c div 58" "?c div 58 < 2 ^ 16"
      using snoc.prems(4) d(3) by (simp_all add: pos_imp_zdiv_nonneg_iff)
    have eq: "val58 (p @ [d]) * 256 + nat carry = 58 * (val58 p * 256 + nat (?c div 58)) + nat (?c mod 58)"
    proof -
      have "nat ?c = nat carry + 256 * unat d" using snoc.prems(4) d by (simp add: nat_add_distrib nat_mult_distrib)
      moreover have "nat ?c = 58 * nat (?c div 58) + nat (?c mod 58)"
        using snoc.prems(4) d by (simp add: nat_div_distrib nat_mod_distrib)
      ultimately show ?thesis by (simp add: val_simps)
    qed
    have v: "val58 p * 256 + nat (?c div 58) < 58 ^ ?n"
      using snoc.prems(6) unfolding eq by simp
    have z: "\<forall>i < ?n. int i \<le> high \<longrightarrow> p ! i = 0"
      using snoc.prems(2) by (metis length_append_singleton less_SucI nth_append)
    from snoc.IH [OF _ z snoc.prems(3) c v, of "x # q"] snoc.prems(1) obtain j p' where
      r: "encode_inner high (?c div 58) (int ?n - 1) (p @ x # q) = Some (j, p' @ x # q)" "length p' = ?n"
        "\<forall>d \<in> set p'. unat d < 58" "val58 p' = val58 p * 256 + nat (?c div 58)" "-1 \<le> j" "j < int ?n"
        "\<forall>i < ?n. int i \<le> j \<longrightarrow> p' ! i = 0" by auto
    have ev: "encode_inner high carry (int (length (p @ [d])) - 1) ((p @ [d]) @ q) = Some (j, (p' @ [x]) @ q)"
      using encode_inner_step [OF refl True, of d q] r(1) by (simp add: x_def)
    have vx: "val58 (p' @ [x]) = val58 (p @ [d]) * 256 + nat carry" unfolding eq by (simp add: val_simps r(4) x(1))
    show ?thesis
      by (rule exI [of _ j], rule exI [of _ "p' @ [x]"]) (use ev vx r x(2) in \<open>auto simp: nth_append\<close>)
  next
    case False
    then have "(p @ [d]) ! i = 0" if "i < length (p @ [d])" for i using snoc.prems(2) that by simp
    then have "\<forall>e \<in> set (p @ [d]). e = 0" by (metis in_set_conv_nth)
    then have "val58 (p @ [d]) = 0" by (rule val58_zeros)
    moreover have "encode_inner high carry (int (length (p @ [d])) - 1) ((p @ [d]) @ q) = Some (int ?n, (p @ [d]) @ q)"
      using False by (subst encode_inner.simps) simp
    ultimately show ?thesis
      using snoc.prems(1) False \<open>\<forall>e \<in> set (p @ [d]). e = 0\<close>
      by (intro exI [of _ "int ?n"] exI [of _ "p @ [d]"]) (auto simp: nth_append)
  qed
qed

lemma val256_append: "val256 (as @ bs) = val256 as * 256 ^ length bs + val256 bs"
  by (induction bs rule: rev_induct) (simp_all add: val_simps algebra_simps flip: append_assoc)

lemma val256_bound: "val256 bs < 256 ^ length bs"
proof (induction bs rule: rev_induct)
  case (snoc b bs)
  have "unat b < 2 ^ LENGTH(8)" by (rule unsigned_less)
  with snoc show ?case by (simp add: val_simps)
qed (simp add: val_simps)

text \<open>The space of the digits is enough, since \<open>58 ^ 138\<close> exceeds \<open>256 ^ 100\<close>.\<close>

lemma encode_space: "256 ^ n < (58 :: nat) ^ (n * 138 div 100 + 1)"
proof -
  let ?s = "n * 138 div 100 + 1"
  have "(256 :: nat) ^ 100 \<le> 58 ^ 138" by simp
  then have "(256 ^ 100) ^ n \<le> ((58 :: nat) ^ 138) ^ n" by (rule power_mono) simp
  then have "((256 :: nat) ^ n) ^ 100 \<le> 58 ^ (138 * n)"
    unfolding power_mult [symmetric] by (simp only: mult.commute)
  also have "(58 :: nat) ^ (138 * n) < 58 ^ (?s * 100)"
    by (rule power_strict_increasing) (simp_all, presburger?)
  also have "\<dots> = ((58 :: nat) ^ ?s) ^ 100" by (rule power_mult)
  finally show ?thesis by (rule power_less_imp_less_base) simp
qed

lemma encode_outer_spec:
  assumes "length buf = sz" "\<forall>d \<in> set buf. unat d < 58" and "\<forall>i < sz. int i \<le> high \<longrightarrow> buf ! i = 0" and "-1 \<le> high"
    and "val58 buf = val256 as" and "(256 :: nat) ^ (length as + length bs) \<le> 58 ^ sz"
  shows "\<exists>buf'. encode_outer sz bs high buf = Some buf' \<and> length buf' = sz \<and> (\<forall>d \<in> set buf'. unat d < 58)
    \<and> val58 buf' = val256 (as @ bs)"
  using assms
proof (induction bs arbitrary: as buf high)
  case (Cons b bs)
  have v: "val256 (as @ [b]) < 58 ^ sz"
  proof -
    have "val256 (as @ [b]) < 256 ^ length (as @ [b])" by (rule val256_bound)
    also have "(256 :: nat) ^ length (as @ [b]) \<le> 256 ^ (length as + length (b # bs))" by (rule power_increasing) simp_all
    finally show ?thesis using Cons.prems(6) by simp
  qed
  have b: "uint b < 2 ^ 16" "nat (uint b) = unat b" using uint_lt2p [of b] by simp_all
  from encode_inner_spec [OF Cons.prems(2) _ Cons.prems(4), of "uint b" "[]"] v Cons.prems(1,3,5) b obtain j p' where
    r: "encode_inner high (uint b) (int sz - 1) buf = Some (j, p')" "length p' = sz" "\<forall>d \<in> set p'. unat d < 58"
      "val58 p' = val256 (as @ [b])" "-1 \<le> j" "\<forall>i < sz. int i \<le> j \<longrightarrow> p' ! i = 0"
    by (auto simp: val_simps)
  from Cons.IH [OF r(2,3,6,5,4)] Cons.prems(6) r(1) show ?case by auto
qed auto

lemma val58_leading: "val58 (replicate k 0 @ ds) = val58 ds"
  by (induction ds rule: rev_induct) (simp_all add: val58_zeros val_simps flip: append_assoc)

lemma val256_zeros: "\<forall>b \<in> set bs. b = 0 \<Longrightarrow> val256 bs = 0"
  by (induction bs rule: rev_induct) (auto simp: val_simps)

lemma val256_leading: "val256 (replicate k 0 @ bs) = val256 bs"
  by (induction bs rule: rev_induct) (simp_all add: val256_zeros val_simps flip: append_assoc)

lemma zeros_dropWhile: "xs = replicate (length (takeWhile (\<lambda>x. x = y) xs)) y @ dropWhile (\<lambda>x. x = y) xs"
  by (induction xs) auto

definition leading_zeros :: "u8 list \<Rightarrow> nat" where
  "leading_zeros bs = length (takeWhile (\<lambda>b. b = 0) bs)"

definition b58_text :: "nat \<Rightarrow> u8 list \<Rightarrow> u8 list" where
  "b58_text z ds = replicate z ASCII_1 @ map (\<lambda>d. b58digits_ordered ! unat d) ds"

lemma those_map_Some: "\<forall>x \<in> set xs. f x = Some (g x) \<Longrightarrow> those (map f xs) = Some (map g xs)"
  by (induction xs) auto

lemma encode_digits:
  "\<exists>ds. (\<forall>d \<in> set ds. unat d < 58) \<and> val58 ds = val256 data \<and> (ds = [] \<or> hd ds \<noteq> 0) \<and>
    (\<forall>text textlen. base58_encode data text textlen =
      (if textlen \<le> leading_zeros data + length ds then Some (False, text, leading_zeros data + length ds + 1)
       else do { text1 \<leftarrow> mem_write text 0 (b58_text (leading_zeros data) ds @ [0]); Some (True, text1, leading_zeros data + length ds + 1) }))"
proof -
  define z where "z = leading_zeros data"
  define n where "n = length data - z"
  define sz where "sz = n * 138 div 100 + 1"
  have dz: "data = replicate z 0 @ drop z data"
    using zeros_dropWhile [of data 0] unfolding z_def leading_zeros_def by (metis append_eq_conv_conj length_replicate)
  have sp: "(256 :: nat) ^ (length ([] :: u8 list) + length (drop z data)) \<le> 58 ^ sz"
    using encode_space [of n] by (simp add: sz_def n_def)
  from encode_outer_spec [of "replicate sz 0" sz "int sz - 1" "[]" "drop z data", OF _ _ _ _ _ sp] obtain buf where
    b: "encode_outer sz (drop z data) (int sz - 1) (replicate sz 0) = Some buf" "length buf = sz" "\<forall>d \<in> set buf. unat d < 58"
      "val58 buf = val256 (drop z data)" by (auto simp: val_simps val58_zeros)
  define ds where "ds = dropWhile (\<lambda>d. d = 0) buf"
  let ?j = "length (takeWhile (\<lambda>d. d = 0) buf)"
  have dj: "drop ?j buf = ds" by (simp add: ds_def dropWhile_eq_drop)
  then have len: "length ds = sz - ?j" "?j \<le> sz" using b(2) length_takeWhile_le [of "\<lambda>d. d = 0" buf] by auto
  have dd: "\<forall>d \<in> set ds. unat d < 58" using b(3) unfolding ds_def by (auto dest: set_dropWhileD)
  have "val58 buf = val58 ds" using val58_leading [of ?j ds] unfolding ds_def zeros_dropWhile [of buf 0, symmetric] .
  moreover have "val256 data = val256 (drop z data)" using val256_leading [of z "drop z data"] unfolding dz [symmetric] .
  ultimately have v: "val58 ds = val256 data" using b(4) by simp
  have hd: "ds = [] \<or> hd ds \<noteq> 0" using hd_dropWhile [of "\<lambda>d. d = 0" buf] unfolding ds_def by auto
  have digits: "those (map (\<lambda>d. mem_at b58digits_ordered (unat d)) ds) = Some (map (\<lambda>d. b58digits_ordered ! unat d) ds)"
    by (rule those_map_Some) (use dd in \<open>simp add: mem_at_Some digits_inverse(3)\<close>)
  have "base58_encode data blk textlen =
      (if textlen \<le> z + length ds then Some (False, blk, z + length ds + 1)
       else do { text1 \<leftarrow> mem_write blk 0 (b58_text z ds @ [0]); Some (True, text1, z + length ds + 1) })" for blk textlen
    unfolding base58_encode_def Let_def z_def [symmetric, unfolded leading_zeros_def] n_def [symmetric] sz_def [symmetric]
    using b(1) digits len by (simp add: dj b58_text_def)
  with dd v hd show ?thesis unfolding z_def by blast
qed

subsection \<open>Decoding computes the number\<close>

lemma val32_Cons: "val32 (x # xs) = unat x * 2 ^ (32 * length xs) + val32 xs"
  by (induction xs rule: rev_induct) (simp_all add: val32_def algebra_simps power_add)

lemma val32_zeros: "\<forall>w \<in> set ws. w = 0 \<Longrightarrow> val32 ws = 0"
  by (induction ws rule: rev_induct) (auto simp: val_simps)

lemma val32_bound: "val32 ws < 2 ^ (32 * length ws)"
proof (induction ws rule: rev_induct)
  case (snoc w ws)
  have "unat w < 2 ^ LENGTH(32)" by (rule unsigned_less)
  with snoc show ?case by (simp add: val_simps power_add)
qed (simp add: val_simps)

lemma carry_masks: "(0x3f00000000 :: u64) = push_bit 32 (mask 6)" "(0xffffffff :: u64) = mask 32"
  by (simp_all add: mask_eq_exp_minus_1 push_bit_eq_mult)

lemma take_bit_unat: "take_bit LENGTH('a) (unat (w :: 'a::len word)) = unat w"
  by (rule take_bit_nat_eq_self) (rule unsigned_less)

lemma carry_word:
  assumes "unat (t :: u64) < 2 ^ 38"
  shows "unat (ucast (drop_bit 32 (t AND 0x3f00000000)) :: u32) = unat t div 2 ^ 32"
    and "unat (ucast (t AND 0xffffffff) :: u32) = unat t mod 2 ^ 32"
proof -
  have "drop_bit 32 (t AND push_bit 32 (mask 6)) = take_bit 6 (drop_bit 32 t)"
    by (rule bit_word_eqI) (auto simp: bit_simps)
  then have "unat (ucast (drop_bit 32 (t AND 0x3f00000000)) :: u32) = take_bit 32 (take_bit 6 (drop_bit 32 (unat t)))"
    unfolding carry_masks by (simp only: unsigned_ucast_eq unsigned_take_bit_eq unsigned_drop_bit_eq take_bit_unat) simp
  moreover have "unat t div 2 ^ 32 < 2 ^ 6" using assms by (simp add: less_mult_imp_div_less)
  then have "take_bit 6 (drop_bit 32 (unat t)) = unat t div 2 ^ 32" "take_bit 32 (unat t div 2 ^ 32) = unat t div 2 ^ 32"
    by (simp_all add: drop_bit_eq_div take_bit_eq_mod)
  ultimately show "unat (ucast (drop_bit 32 (t AND 0x3f00000000)) :: u32) = unat t div 2 ^ 32" by simp
  have "unat (ucast (t AND mask 32) :: u32) = take_bit 32 (unat t)"
    by (simp add: unsigned_ucast_eq unsigned_take_bit_eq flip: take_bit_eq_mask)
  then show "unat (ucast (t AND 0xffffffff) :: u32) = unat t mod 2 ^ 32"
    unfolding carry_masks by (simp add: take_bit_eq_mod)
qed

lemma decode_mul_spec:
  assumes "decode_mul c xs = (c', ys)" and "unat c < 64"
  shows "unat c' * 2 ^ (32 * length xs) + val32 ys = val32 xs * 58 + unat c" "unat c' < 64" "length ys = length xs"
proof -
  have "unat c' * 2 ^ (32 * length xs) + val32 ys = val32 xs * 58 + unat c \<and> unat c' < 64 \<and> length ys = length xs"
    using assms
  proof (induction xs arbitrary: c' ys)
    case (Cons x xs)
    obtain c1 zs where m: "decode_mul c xs = (c1, zs)" by fastforce
    define t where "t = (ucast x :: u64) * 58 + ucast c1"
    have IH: "unat c1 * 2 ^ (32 * length xs) + val32 zs = val32 xs * 58 + unat c" "unat c1 < 64" "length zs = length xs"
      using Cons.IH [OF m Cons.prems(2)] by auto
    have x: "unat x < 2 ^ LENGTH(32)" by (rule unsigned_less)
    have t: "unat t = unat x * 58 + unat c1"
      using x IH(2) unfolding t_def by (subst unat_word_ariths, subst unat_word_ariths) (simp add: unsigned_ucast_eq take_bit_nat_eq_self)
    then have "unat t < 2 ^ 38" using x IH(2) by simp
    note w = carry_word [OF this]
    have e: "c' = ucast (drop_bit 32 (t AND 0x3f00000000))" "ys = ucast (t AND 0xffffffff) # zs"
      using Cons.prems(1) m by (simp_all add: t_def Let_def)
    let ?p = "2 ^ (32 * length xs) :: nat"
    have "unat t div 2 ^ 32 * 2 ^ 32 * ?p + unat t mod 2 ^ 32 * ?p = unat t * ?p"
      by (simp only: flip: distrib_right) simp
    moreover have "unat t * ?p + val32 zs = val32 (x # xs) * 58 + unat c"
      using IH(1) unfolding t val32_Cons by (simp add: algebra_simps)
    ultimately have "unat c' * 2 ^ (32 * length (x # xs)) + val32 ys = val32 (x # xs) * 58 + unat c"
      unfolding e val32_Cons w by (simp add: IH(3) power_add mult.assoc)
    moreover have "unat c' < 64" unfolding e w using t x IH(2) by (simp add: less_mult_imp_div_less)
    ultimately show ?case using e IH(3) by simp
  qed (simp add: val_simps)
  then show "unat c' * 2 ^ (32 * length xs) + val32 ys = val32 xs * 58 + unat c" "unat c' < 64" "length ys = length xs"
    by simp_all
qed

text \<open>The mask is what the topmost word may not have when the data do not fill it.\<close>

lemma zeromask_iff: "k < 32 \<Longrightarrow> (w :: u32) AND push_bit k 0xffffffff = 0 \<longleftrightarrow> unat w < 2 ^ k"
proof -
  assume k: "k < 32"
  have m: "(0xffffffff :: u32) = -1" by simp
  have "w AND push_bit k (-1) = 0 \<longleftrightarrow> take_bit k w = w"
    unfolding bit_eq_iff by (auto simp: bit_simps)
  also have "\<dots> \<longleftrightarrow> take_bit k (unat w) = unat w"
    unfolding word_unat_eq_iff unsigned_take_bit_eq ..
  also have "\<dots> \<longleftrightarrow> unat w < 2 ^ k" by (rule take_bit_nat_eq_self_iff)
  finally show ?thesis unfolding m .
qed

definition zeromask_of :: "nat \<Rightarrow> u32" where
  "zeromask_of n = (if n mod 4 \<noteq> 0 then push_bit (n mod 4 * 8) 0xffffffff else 0)"

lemma power_256: "(256 :: nat) ^ n = 2 ^ (8 * n)"
  by (simp add: power_mult)

lemma ceil_div_4: "n mod 4 \<noteq> 0 \<Longrightarrow> (n + 3) div 4 = Suc (n div 4)" for n :: nat
proof (rule div_nat_eqI)
  assume a: "n mod 4 \<noteq> 0"
  define q r where "q = n div 4" and "r = n mod 4"
  then have n: "n = r + 4 * q" "r < 4" "1 \<le> r" using a by simp_all
  show "4 * Suc (n div 4) \<le> n + 3" "n + 3 < 4 * Suc (Suc (n div 4))" unfolding q_def [symmetric] using n by simp_all
qed

lemma words_fit:
  assumes "length (w # ws) = (n + 3) div 4"
  shows "w AND zeromask_of n = 0 \<longleftrightarrow> val32 (w # ws) < 256 ^ n"
proof (cases "n mod 4 = 0")
  case True
  then have "32 * length (w # ws) = 8 * n" using assms by presburger
  then have "val32 (w # ws) < 2 ^ (8 * n)" using val32_bound [of "w # ws"] by simp
  then show ?thesis using True unfolding power_256 by (simp add: zeromask_of_def)
next
  case False
  let ?k = "n mod 4 * 8" and ?p = "2 ^ (32 * length ws) :: nat"
  have "n div 4 = length ws"
    using assms ceil_div_4 [OF False] by simp
  then have "8 * n = ?k + 32 * length ws" using div_mult_mod_eq [of n 4] by simp
  then have p: "(256 :: nat) ^ n = 2 ^ ?k * ?p" unfolding power_256 power_add [symmetric] by simp
  have b: "val32 ws < ?p" by (rule val32_bound)
  have "val32 (w # ws) < 2 ^ ?k * ?p \<longleftrightarrow> unat w < 2 ^ ?k"
  proof
    assume "val32 (w # ws) < 2 ^ ?k * ?p"
    then have "unat w * ?p < 2 ^ ?k * ?p" unfolding val32_Cons by linarith
    then show "unat w < 2 ^ ?k" by (simp only: mult_less_cancel2)
  next
    assume "unat w < 2 ^ ?k"
    then have "Suc (unat w) * ?p \<le> 2 ^ ?k * ?p" by (intro mult_right_mono) simp_all
    then show "val32 (w # ws) < 2 ^ ?k * ?p" using b unfolding val32_Cons by simp
  qed
  moreover have "w AND zeromask_of n = 0 \<longleftrightarrow> unat w < 2 ^ ?k"
    using False unfolding zeromask_of_def by (simp add: zeromask_iff)
  ultimately show ?thesis unfolding p by simp
qed

definition b58_digit :: "u8 \<Rightarrow> bool" where
  "b58_digit c \<longleftrightarrow> unat c < 128 \<and> b58digits_map ! unat c \<noteq> -1"

definition digit_value :: "u8 \<Rightarrow> nat" where
  "digit_value c = nat (b58digits_map ! unat c)"

definition chars_value :: "nat \<Rightarrow> u8 list \<Rightarrow> nat" where
  "chars_value v chs = foldl (\<lambda>v c. v * 58 + digit_value c) v chs"

lemma high_bit_clear: "(ch :: u8) AND 0x80 = 0 \<longleftrightarrow> unat ch < 128"
proof -
  have m: "(0x80 :: u8) = push_bit 7 1" by simp
  have "ch AND push_bit 7 1 = 0 \<longleftrightarrow> \<not> bit ch 7" using bit_iff_and_push_bit_not_eq_0 [of ch 7] by blast
  also have "\<dots> \<longleftrightarrow> take_bit 7 ch = ch"
  proof
    assume "\<not> bit ch 7"
    then have "n < 7" if "bit ch n" for n using that bit_imp_le_length [OF that] by (cases "n = 7") auto
    then show "take_bit 7 ch = ch" by (auto intro!: bit_word_eqI simp: bit_take_bit_iff)
  next
    assume "take_bit 7 ch = ch"
    then have "bit ch 7 = bit (take_bit 7 ch) 7" by simp
    then show "\<not> bit ch 7" by (simp add: bit_take_bit_iff)
  qed
  also have "\<dots> \<longleftrightarrow> take_bit 7 (unat ch) = unat ch"
    unfolding word_unat_eq_iff unsigned_take_bit_eq ..
  also have "\<dots> \<longleftrightarrow> unat ch < 128" using take_bit_nat_eq_self_iff [of 7 "unat ch"] by simp
  finally show ?thesis unfolding m .
qed

lemma digit_bounds:
  assumes "b58_digit c"
  shows "b58digits_map ! unat c = int (digit_value c)" "digit_value c < 58"
proof -
  have "list_all (\<lambda>d. d = -1 \<or> 0 \<le> d \<and> d < 58) b58digits_map" by (simp add: b58digits_map_def)
  then have "b58digits_map ! unat c = -1 \<or> 0 \<le> b58digits_map ! unat c \<and> b58digits_map ! unat c < 58"
    using assms digits_inverse(4) by (auto simp: list_all_length b58_digit_def)
  then show "b58digits_map ! unat c = int (digit_value c)" "digit_value c < 58"
    using assms by (auto simp: b58_digit_def digit_value_def)
qed

lemma chars_value_Cons: "chars_value v (c # chs) = chars_value (v * 58 + digit_value c) chs"
  by (simp add: chars_value_def)

lemma chars_value_ge: "v \<le> chars_value v chs"
proof (induction chs arbitrary: v)
  case (Cons c chs)
  have "v \<le> v * 58 + digit_value c" by simp
  also have "\<dots> \<le> chars_value (v * 58 + digit_value c) chs" by (rule Cons.IH)
  finally show ?case by (simp only: chars_value_Cons)
qed (simp add: chars_value_def)

lemma decode_chars_spec:
  assumes "length outi = (n + 3) div 4" and "n > 0" and "val32 outi < 256 ^ n"
  shows "if (\<forall>c \<in> set chs. b58_digit c) \<and> chars_value (val32 outi) chs < 256 ^ n
    then \<exists>outi'. decode_chars (zeromask_of n) chs outi = Some (Inr outi') \<and> length outi' = length outi
      \<and> val32 outi' = chars_value (val32 outi) chs
    else decode_chars (zeromask_of n) chs outi = Some (Inl ())"
  using assms
proof (induction chs arbitrary: outi)
  case (Cons ch chs)
  show ?case
  proof (cases "b58_digit ch")
    case True
    note d = digit_bounds [OF True]
    obtain c outi1 where m: "decode_mul (word_of_int (b58digits_map ! unat ch)) outi = (c, outi1)" by fastforce
    have "unat (word_of_int (b58digits_map ! unat ch) :: u32) = digit_value ch"
      using d(2) take_bit_nat_eq_self [of "digit_value ch" 32] unfolding d(1) of_int_of_nat_eq unsigned_of_nat by simp
    then have v: "unat c * 2 ^ (32 * length outi) + val32 outi1 = val32 outi * 58 + digit_value ch" "length outi1 = length outi"
      using decode_mul_spec [OF m] d(2) by simp_all
    have ev: "decode_chars (zeromask_of n) (ch # chs) outi = (if c \<noteq> 0 then Some (Inl ()) else do {
        w \<leftarrow> mem_at outi1 0; if w AND zeromask_of n \<noteq> 0 then Some (Inl ()) else decode_chars (zeromask_of n) chs outi1 })"
      using True m d by (simp add: high_bit_clear b58_digit_def mem_at_Some digits_inverse(4))
    obtain w ws where o: "outi1 = w # ws" using v(2) Cons.prems(1,2) by (cases outi1) auto
    show ?thesis
    proof (cases "c = 0 \<and> val32 outi1 < 256 ^ n")
      case True
      then have "decode_chars (zeromask_of n) (ch # chs) outi = decode_chars (zeromask_of n) chs outi1"
        using ev words_fit [of w ws n] o v(2) Cons.prems(1) by (simp add: mem_at_Some)
      moreover have "val32 outi1 = val32 outi * 58 + digit_value ch" using v(1) True by simp
      ultimately show ?thesis
        using Cons.IH [of outi1] True v(2) Cons.prems \<open>b58_digit ch\<close>
        by (simp add: chars_value_Cons del: decode_chars.simps split: if_splits)
    next
      case False
      have "256 ^ n \<le> val32 outi * 58 + digit_value ch"
      proof (cases "c = 0")
        case False
        have "n \<le> 4 * length outi" using Cons.prems(1) by simp
        then have "(256 :: nat) ^ n \<le> 2 ^ (32 * length outi)" unfolding power_256 by (intro power_increasing) simp_all
        also have "\<dots> \<le> unat c * 2 ^ (32 * length outi)"
        proof -
          have "1 \<le> unat c" using False by (simp add: Suc_le_eq unat_gt_0)
          then have "1 * 2 ^ (32 * length outi) \<le> unat c * 2 ^ (32 * length outi)" by (rule mult_right_mono) simp
          then show ?thesis by simp
        qed
        finally show ?thesis using v(1) by linarith
      qed (use False v(1) in simp)
      then have "256 ^ n \<le> chars_value (val32 outi) (ch # chs)"
        unfolding chars_value_Cons using chars_value_ge order_trans by blast
      moreover have "decode_chars (zeromask_of n) (ch # chs) outi = Some (Inl ())"
        using ev False words_fit [of w ws n] o v(2) Cons.prems(1) by (auto simp: mem_at_Some)
      ultimately show ?thesis by simp
    qed
  next
    case False
    then show ?thesis by (simp add: high_bit_clear b58_digit_def mem_at_def digits_inverse(4))
  qed
qed (simp add: chars_value_def)

lemma val256_Cons: "val256 (b # bs) = unat b * 256 ^ length bs + val256 bs"
  using val256_append [of "[b]" bs] by (simp add: val256_def)

lemma val256_inj: "length as = length bs \<Longrightarrow> val256 as = val256 bs \<Longrightarrow> as = bs"
proof (induction as bs rule: rev_induct2)
  case (4 x xs y ys)
  have "unat x < 256" "unat y < 256" using unsigned_less [of x, where ?'a = nat] unsigned_less [of y, where ?'a = nat] by simp_all
  then have "val256 xs = val256 ys \<and> unat x = unat y"
    using 4 by (simp add: val_simps)
  with 4 show ?case by (simp add: word_unat_eq_iff)
qed simp_all

lemma unat_drop_bit: "unat (drop_bit k (w :: 'a::len word)) = unat w div 2 ^ k"
  unfolding unsigned_drop_bit_eq take_bit_unat by (rule drop_bit_eq_div)

lemma byte_of_word:
  "unat (ucast (drop_bit k (w :: u32) AND 0xff) :: u8) = unat w div 2 ^ k mod 256"
  "unat (ucast (w AND 0xff) :: u8) = unat w mod 256"
  "unat (ucast (drop_bit 8 (w AND 0xff00)) :: u8) = unat w div 2 ^ 8 mod 256"
  "unat (ucast (drop_bit 16 (w AND 0xff0000)) :: u8) = unat w div 2 ^ 16 mod 256"
proof -
  have m: "(0xff :: u32) = mask 8" "(0xff00 :: u32) = push_bit 8 (mask 8)" "(0xff0000 :: u32) = push_bit 16 (mask 8)"
    by (simp_all add: mask_eq_exp_minus_1 push_bit_eq_mult)
  have "drop_bit 8 (w AND push_bit 8 (mask 8)) = drop_bit 8 w AND mask 8"
    "drop_bit 16 (w AND push_bit 16 (mask 8)) = drop_bit 16 w AND mask 8"
    by (rule bit_word_eqI, auto simp: bit_simps)+
  moreover have "unat (ucast (x AND mask 8) :: u8) = unat x mod 256" for x :: u32
    unfolding take_bit_eq_mask [symmetric] by (simp only: unsigned_ucast_eq unsigned_take_bit_eq) (simp add: take_bit_eq_mod)
  moreover note unat_drop_bit [of _ w]
  ultimately show "unat (ucast (drop_bit k (w :: u32) AND 0xff) :: u8) = unat w div 2 ^ k mod 256"
    "unat (ucast (w AND 0xff) :: u8) = unat w mod 256"
    "unat (ucast (drop_bit 8 (w AND 0xff00)) :: u8) = unat w div 2 ^ 8 mod 256"
    "unat (ucast (drop_bit 16 (w AND 0xff0000)) :: u8) = unat w div 2 ^ 16 mod 256"
    unfolding m by simp_all
qed

text \<open>A number from its bytes.\<close>

lemma bytes_of_nat:
  fixes x :: nat
  shows "x < 2 ^ 16 \<Longrightarrow> x div 2 ^ 8 mod 256 * 256 + x mod 256 = x"
    and "x < 2 ^ 24 \<Longrightarrow> (x div 2 ^ 16 mod 256 * 256 + x div 2 ^ 8 mod 256) * 256 + x mod 256 = x"
    and "x < 2 ^ 32 \<Longrightarrow> ((x div 2 ^ 24 mod 256 * 256 + x div 2 ^ 16 mod 256) * 256 + x div 2 ^ 8 mod 256) * 256 + x mod 256 = x"
proof -
  define y where "y = x div 256"
  define z where "z = y div 256"
  define u where "u = z div 256"
  have e: "x div 2 ^ 8 = y" "x div 2 ^ 16 = z" "x div 2 ^ 24 = u"
    by (simp_all add: y_def z_def u_def flip: div_mult2_eq)
  have s: "y * 256 + x mod 256 = x" "z * 256 + y mod 256 = y" "u * 256 + z mod 256 = z"
    by (simp_all add: y_def z_def u_def)
  have b: "x < 2 ^ 16 \<Longrightarrow> y < 256" "x < 2 ^ 24 \<Longrightarrow> z < 256" "x < 2 ^ 32 \<Longrightarrow> u < 256"
    unfolding e [symmetric] by (simp_all add: less_mult_imp_div_less)
  show "x < 2 ^ 16 \<Longrightarrow> x div 2 ^ 8 mod 256 * 256 + x mod 256 = x"
    unfolding e using b(1) s(1) by simp
  show "x < 2 ^ 24 \<Longrightarrow> (x div 2 ^ 16 mod 256 * 256 + x div 2 ^ 8 mod 256) * 256 + x mod 256 = x"
    unfolding e using b(2) s(1,2) by simp
  show "x < 2 ^ 32 \<Longrightarrow> ((x div 2 ^ 24 mod 256 * 256 + x div 2 ^ 16 mod 256) * 256 + x div 2 ^ 8 mod 256) * 256 + x mod 256 = x"
    unfolding e using b(3) s by simp
qed

lemma word_bytes_value: "length (word_bytes w) = 4" "val256 (word_bytes w) = unat w"
proof -
  have "unat w < 2 ^ LENGTH(32)" by (rule unsigned_less)
  then have "unat w < 2 ^ 32" by simp
  moreover from this have "unat w div 16777216 < 256" by (simp add: less_mult_imp_div_less)
  ultimately show "val256 (word_bytes w) = unat w" using bytes_of_nat(3) [of "unat w"]
    unfolding word_bytes_def val256_def foldl_Cons foldl_Nil byte_of_word by (simp add: unat_drop_bit)
qed (simp add: word_bytes_def)

lemma words_bytes_value:
  "length (concat (map word_bytes ws)) = 4 * length ws" "val256 (concat (map word_bytes ws)) = val32 ws"
  by (induction ws rule: rev_induct) (simp_all add: word_bytes_value val256_append val_simps)

lemma decode_output_spec:
  assumes "length outi = (n + 3) div 4" and "n > 0" and "val32 outi < 256 ^ n"
  shows "\<exists>bytes. decode_output (n mod 4) outi = Some bytes \<and> length bytes = n \<and> val256 bytes = val32 outi"
proof (cases "n mod 4 = 0")
  case True
  then have "4 * length outi = n" using assms(1) by presburger
  with True show ?thesis by (simp add: decode_output_def words_bytes_value)
next
  case False
  obtain w ws where o: "outi = w # ws" using assms(1,2) by (cases outi) auto
  have n: "n = n mod 4 + 4 * length ws" using assms(1) ceil_div_4 [OF False] div_mult_mod_eq [of n 4] by (simp add: o)
  have "w AND zeromask_of n = 0" using words_fit [of w ws n] assms(1,3) o by simp
  then have w: "unat w < 2 ^ (n mod 4 * 8)" using False by (simp add: zeromask_of_def zeromask_iff)
  define top where "top = (if n mod 4 = 3 then [ucast (drop_bit 16 (w AND 0xff0000))] else [])
    @ (if n mod 4 \<ge> 2 then [ucast (drop_bit 8 (w AND 0xff00))] else []) @ [ucast (w AND 0xff) :: u8]"
  have "n mod 4 < 4" by simp
  then have "n mod 4 = 1 \<or> n mod 4 = 2 \<or> n mod 4 = 3" using False by linarith
  then have "length top = n mod 4 \<and> val256 top = unat w"
    using w bytes_of_nat(1,2) [of "unat w"] unfolding top_def val256_def by (elim disjE) (simp_all add: byte_of_word unat_drop_bit)
  moreover have "decode_output (n mod 4) outi = Some (top @ concat (map word_bytes ws))"
    using False by (simp add: decode_output_def o mem_at_Some top_def)
  moreover have "(256 :: nat) ^ (4 * length ws) = 2 ^ (32 * length ws)" unfolding power_256 by simp
  ultimately show ?thesis using n
    by (simp add: val256_append words_bytes_value o val32_Cons)
qed

lemma leading_zeros_all: "val256 bs = 0 \<Longrightarrow> leading_zeros bs = length bs"
  by (induction bs) (auto simp: leading_zeros_def val256_Cons unat_eq_0)

subsection \<open>The numbers in texts\<close>

text \<open>The big-endian bytes of a number, and the number of a text: what both directions compute.\<close>

fun be_bytes :: "nat \<Rightarrow> nat \<Rightarrow> u8 list" where
  "be_bytes 0 v = []"
| "be_bytes (Suc n) v = be_bytes n (v div 256) @ [of_nat v]"

definition text_value :: "u8 list \<Rightarrow> nat option" where
  "text_value chs = (if \<forall>c \<in> set chs. b58_digit c then Some (chars_value 0 chs) else None)"

lemma be_bytes_val: "length (be_bytes n v) = n" "v < 256 ^ n \<Longrightarrow> val256 (be_bytes n v) = v"
proof (induction n arbitrary: v)
  case (Suc n)
  case 2
  then have "v div 256 < 256 ^ n" by (simp add: less_mult_imp_div_less mult.commute)
  with Suc.IH(2) show ?case by (simp add: val_simps unsigned_of_nat take_bit_eq_mod)
qed (simp_all add: val_simps)

lemma be_bytes_eq: "length bs = n \<Longrightarrow> be_bytes n (val256 bs) = bs"
  using val256_bound [of bs] by (intro val256_inj) (simp_all add: be_bytes_val)

lemma digit_of_ordered:
  assumes "unat d < 58"
  shows "b58_digit (b58digits_ordered ! unat d)" "digit_value (b58digits_ordered ! unat d) = unat d"
    "b58digits_ordered ! unat d = ASCII_1 \<longleftrightarrow> d = 0"
proof -
  have "map (\<lambda>c. b58digits_map ! unat c) b58digits_ordered ! unat d = int (unat d)"
    unfolding digits_inverse(1) using assms by simp
  then have e: "b58digits_map ! unat (b58digits_ordered ! unat d) = int (unat d)" using assms digits_inverse(3) by simp
  moreover have "unat (b58digits_ordered ! unat d) < 128"
    using digits_inverse(2,3) assms by (simp add: list_all_length)
  moreover have "uint d \<noteq> -1" using uint_ge_0 [of d] by linarith
  ultimately show "b58_digit (b58digits_ordered ! unat d)" "digit_value (b58digits_ordered ! unat d) = unat d"
    by (simp_all add: b58_digit_def digit_value_def)
  have "b58digits_map ! unat ASCII_1 = 0" by (simp add: ASCII_1_def b58digits_map_def)
  with e have "unat d = 0" if "b58digits_ordered ! unat d = ASCII_1" using that by (metis of_nat_eq_0_iff)
  moreover have "b58digits_ordered ! 0 = ASCII_1" by (simp add: b58digits_ordered_bytes ASCII_1_def)
  ultimately show "b58digits_ordered ! unat d = ASCII_1 \<longleftrightarrow> d = 0" by (metis unat_0 unat_eq_zero)
qed

lemma chars_value_append: "chars_value v (as @ bs) = chars_value (chars_value v as) bs"
  by (simp add: chars_value_def)

lemma chars_value_ones: "chars_value 0 (replicate z ASCII_1 @ chs) = chars_value 0 chs" "b58_digit ASCII_1"
proof -
  have "digit_value ASCII_1 = 0" by (simp add: ASCII_1_def digit_value_def b58digits_map_def)
  then have "chars_value 0 (replicate z ASCII_1) = 0" by (induction z) (simp_all add: chars_value_def)
  then show "chars_value 0 (replicate z ASCII_1 @ chs) = chars_value 0 chs" by (simp add: chars_value_append)
qed (simp add: ASCII_1_def b58_digit_def b58digits_map_def)

lemma b58_text_value:
  assumes "\<forall>d \<in> set ds. unat d < 58"
  shows "text_value (b58_text z ds) = Some (val58 ds)"
proof -
  have "chars_value 0 (map (\<lambda>d. b58digits_ordered ! unat d) ds) = val58 ds"
    using assms by (induction ds rule: rev_induct) (simp_all add: val_simps chars_value_def digit_of_ordered)
  moreover have "\<forall>c \<in> set (b58_text z ds). b58_digit c"
    using assms digit_of_ordered(1) chars_value_ones(2) by (auto simp: b58_text_def)
  ultimately show ?thesis by (simp add: text_value_def b58_text_def chars_value_ones(1))
qed

lemma decode_value:
  assumes "datalen > 0" and "textlen > 0" and "textlen \<le> length blk"
  defines "chs \<equiv> take textlen blk"
  shows "base58_decode blk textlen datalen = Some (case text_value chs of
      Some v \<Rightarrow> if v < 256 ^ datalen
        then (int (datalen - leading_zeros (be_bytes datalen v) + length (takeWhile (\<lambda>c. c = ASCII_1) chs)), be_bytes datalen v)
        else (-1, [])
    | None \<Rightarrow> (-1, []))"
proof -
  define z where "z = length (takeWhile (\<lambda>c. c = ASCII_1) chs)"
  let ?o = "replicate ((datalen + 3) div 4) (0 :: u32)" and ?r = "drop z chs"
  have o: "val32 ?o = 0" using val32_zeros [of ?o] by simp
  have chs: "chs = replicate z ASCII_1 @ ?r"
    using zeros_dropWhile [of chs ASCII_1] unfolding z_def by (metis append_eq_conv_conj length_replicate)
  have tv: "text_value chs = (if \<forall>c \<in> set ?r. b58_digit c then Some (chars_value 0 ?r) else None)"
    by (subst (1) chs) (auto simp: text_value_def chars_value_ones)
  have spec: "if (\<forall>c \<in> set ?r. b58_digit c) \<and> chars_value 0 ?r < 256 ^ datalen
    then \<exists>outi'. decode_chars (zeromask_of datalen) ?r ?o = Some (Inr outi') \<and> length outi' = (datalen + 3) div 4
      \<and> val32 outi' = chars_value 0 ?r
    else decode_chars (zeromask_of datalen) ?r ?o = Some (Inl ())"
    using decode_chars_spec [of ?o datalen ?r] assms(1) unfolding o length_replicate by simp
  have ev: "base58_decode blk textlen datalen = do {
       r \<leftarrow> decode_chars (zeromask_of datalen) ?r ?o;
       case r of
         Inl _ \<Rightarrow> Some (-1, [])
       | Inr outi \<Rightarrow> do {
           bytes \<leftarrow> decode_output (datalen mod 4) outi;
           Some (int (datalen - leading_zeros bytes) + int z, bytes)
         }
     }"
    unfolding base58_decode_def Let_def zeromask_of_def [symmetric] leading_zeros_def z_def chs_def
    using assms(1-3) by (simp add: mem_read_Some)
  show ?thesis
  proof (cases "(\<forall>c \<in> set ?r. b58_digit c) \<and> chars_value 0 ?r < 256 ^ datalen")
    case True
    with spec obtain outi' where d: "decode_chars (zeromask_of datalen) ?r ?o = Some (Inr outi')"
      "length outi' = (datalen + 3) div 4" "val32 outi' = chars_value 0 ?r" by auto
    with decode_output_spec [of outi' datalen] True assms(1) obtain bytes where
      b: "decode_output (datalen mod 4) outi' = Some bytes" "length bytes = datalen" "val256 bytes = chars_value 0 ?r" by auto
    have "bytes = be_bytes datalen (chars_value 0 ?r)" using be_bytes_eq [OF b(2)] b(3) by simp
    then show ?thesis unfolding ev tv z_def [symmetric] using True d(1) b(1) by simp
  next
    case False
    then have "decode_chars (zeromask_of datalen) ?r ?o = Some (Inl ())" using spec by auto
    then show ?thesis unfolding ev tv using False by auto
  qed
qed

lemma base58_roundtrip_text:
  assumes "base58_encode data blk textlen = Some (True, text1, n)" and "data \<noteq> []" and "length data \<le> datalen"
  shows "base58_decode text1 (n - 1) datalen = Some (int (length data), replicate (datalen - length data) 0 @ data)"
proof -
  define z where "z = leading_zeros data"
  obtain ds where ds: "\<forall>d \<in> set ds. unat d < 58" "val58 ds = val256 data" "ds = [] \<or> hd ds \<noteq> 0"
    and e: "\<And>blk textlen. base58_encode data blk textlen =
      (if textlen \<le> z + length ds then Some (False, blk, z + length ds + 1)
       else do { text1 \<leftarrow> mem_write blk 0 (b58_text z ds @ [0]); Some (True, text1, z + length ds + 1) })"
    using encode_digits [of data] unfolding z_def by blast
  have w: "mem_write blk 0 (b58_text z ds @ [0]) = Some text1" "n = z + length ds + 1"
    using assms(1) unfolding e by (auto simp: bind_Some split: if_splits)
  have len: "length (b58_text z ds) = z + length ds" by (simp add: b58_text_def)
  have t: "take (n - 1) text1 = b58_text z ds" "n - 1 \<le> length text1"
    using w len by (auto simp: mem_write_def blit_def split: if_splits)
  have ones: "length (takeWhile (\<lambda>c. c = ASCII_1) (b58_text z ds)) = z"
    using ds(1,3) digit_of_ordered(3) by (cases ds) (auto simp: b58_text_def takeWhile_append)
  have all_z: "z = length data" if "ds = []"
    using that ds(2) by (simp add: z_def val_simps leading_zeros_all)
  have zl: "z \<le> length data" by (simp add: z_def leading_zeros_def length_takeWhile_le)
  have n0: "n - 1 > 0" using w(2) all_z assms(2) by (cases "ds = []") auto
  let ?b = "replicate (datalen - length data) 0 @ data"
  have lb: "length ?b = datalen" using assms(3) by simp
  have vb: "val256 ?b = val58 ds" using ds(2) by (simp add: val256_leading)
  have "be_bytes datalen (val58 ds) = ?b" using be_bytes_eq [OF lb] vb by simp
  moreover have "val58 ds < 256 ^ datalen" using val256_bound [of ?b] unfolding vb lb .
  moreover have "leading_zeros ?b = datalen - length data + z" by (simp add: leading_zeros_def z_def takeWhile_append)
  moreover have "datalen > 0" using assms(2,3) by (cases data) auto
  ultimately show ?thesis
    using decode_value [of datalen "n - 1" text1] n0 t ones zl assms(3) b58_text_value [OF ds(1), of z] by simp
qed

lemma decode_empty: "n > 0 \<Longrightarrow> \<exists>b. base58_decode [0] 0 n = Some (0, b)"
proof -
  assume n: "n > 0"
  let ?o = "replicate ((n + 3) div 4) (0 :: u32)"
  have o: "val32 ?o = 0" using val32_zeros [of ?o] by simp
  then obtain bytes where b: "decode_output (n mod 4) ?o = Some bytes" "length bytes = n" "val256 bytes = 0"
    using decode_output_spec [of ?o n] n by auto
  then have "leading_zeros bytes = n" using leading_zeros_all by simp
  with b show ?thesis by (simp add: base58_decode_def c_strlen_def mem_read_def leading_zeros_def)
qed

text \<open>C33. Decoding computes the number that the text denotes: if every character is a digit of base 58 and the number
  fits into the space for the data, exactly its big-endian bytes, with zeros in front, are stored, and the number of
  the significant ones and of the leading ones of the text is returned; in every other case the result is -1.\<close>

theorem base58_decode_value:
  assumes "datalen > 0" and "textlen > 0" and "textlen \<le> length blk"
  defines "chs \<equiv> take textlen blk"
  shows "base58_decode blk textlen datalen = Some (case text_value chs of
      Some v \<Rightarrow> if v < 256 ^ datalen
        then (int (datalen - leading_zeros (be_bytes datalen v) + length (takeWhile (\<lambda>c. c = ASCII_1) chs)), be_bytes datalen v)
        else (-1, [])
    | None \<Rightarrow> (-1, []))"
  using decode_value [OF assms(1-3)] unfolding chs_def .



lemma base58_decode_value_witness:
  "base58_decode [50, 50, 0] 2 1 = Some (1, [59])"
  using base58_decode_value [of 1 2 "[50, 50, 0]"]
  by (simp add: text_value_def chars_value_def digit_value_def b58_digit_def b58digits_map_def leading_zeros_def ASCII_1_def)

end
