(* ===== verification/Address.thy ===== *)
theory Address
  imports Base58 Errors
begin

text \<open>
  User identifiers and addresses as in \<^verbatim>\<open>src/carrier/IOEX_carrier.c\<close>: an identifier is the base 58 text of a
  public key of 32 bytes, an address that of the key, four bytes against spam and a checksum of two bytes.
  Texts are C strings. Functions that may set the error of the thread return it beside their result.
\<close>

definition DHT_PUBLIC_KEY_SIZE :: nat where "DHT_PUBLIC_KEY_SIZE = 32"
definition DHT_ADDRESS_SIZE :: nat where "DHT_ADDRESS_SIZE = 38"
definition IOEX_MAX_ADDRESS_LEN :: nat where "IOEX_MAX_ADDRESS_LEN = 52"
definition IOEX_MAX_ID_LEN :: nat where "IOEX_MAX_ID_LEN = 45"

lemmas address_sizes = DHT_PUBLIC_KEY_SIZE_def DHT_ADDRESS_SIZE_def IOEX_MAX_ADDRESS_LEN_def IOEX_MAX_ID_LEN_def

text \<open>\<^verbatim>\<open>base58_decode(s, strlen(s), data, datalen)\<close>.\<close>

definition decode_cstring :: "cstring \<Rightarrow> nat \<Rightarrow> (int \<times> u8 list) option" where
  "decode_cstring s datalen = base58_decode (s @ [0]) (length s) datalen"

definition is_valid_key :: "cstring \<Rightarrow> bool option" where
  "is_valid_key key =
     do {
       (len, _) \<leftarrow> decode_cstring key (DHT_PUBLIC_KEY_SIZE * 2);
       Some (len = int DHT_PUBLIC_KEY_SIZE)
     }"

definition IOEX_id_is_valid :: "cstring option \<Rightarrow> (bool \<times> int option) option" where
  "IOEX_id_is_valid uid =
     (case uid of
        None \<Rightarrow> Some (False, Some (IOEX_GENERAL_ERROR IOEXERR_INVALID_ARGS))
      | Some s \<Rightarrow> if s = [] then Some (False, Some (IOEX_GENERAL_ERROR IOEXERR_INVALID_ARGS))
          else do { b \<leftarrow> is_valid_key s; Some (b, None) })"

text \<open>The bytes of even and of odd index are combined; the result in memory order of a little-endian machine.\<close>

fun checksum_loop :: "nat \<Rightarrow> u8 list \<Rightarrow> u8 list \<Rightarrow> u8 list" where
  "checksum_loop i [] checksum = checksum"
| "checksum_loop i (a # as) checksum = checksum_loop (i + 1) as (checksum[i mod 2 := checksum ! (i mod 2) XOR a])"

definition le16 :: "u8 list \<Rightarrow> u16" where
  "le16 bs = word_of_nat (unat (bs ! 0) + 256 * unat (bs ! 1))"

definition address_checksum :: "u8 list \<Rightarrow> nat \<Rightarrow> u16 option" where
  "address_checksum address len = do { bs \<leftarrow> mem_read address 0 len; Some (le16 (checksum_loop 0 bs [0, 0])) }"

definition is_valid_address :: "cstring \<Rightarrow> bool option" where
  "is_valid_address address =
     do {
       (len, addr) \<leftarrow> decode_cstring address DHT_ADDRESS_SIZE;
       if len \<noteq> int DHT_ADDRESS_SIZE then Some False
       else do {
         check \<leftarrow> mem_read addr (DHT_PUBLIC_KEY_SIZE + 4) 2;
         checksum \<leftarrow> address_checksum addr (DHT_ADDRESS_SIZE - 2);
         Some (checksum = le16 check)
       }
     }"

definition IOEX_address_is_valid :: "cstring option \<Rightarrow> (bool \<times> int option) option" where
  "IOEX_address_is_valid address =
     (case address of
        None \<Rightarrow> Some (False, Some (IOEX_GENERAL_ERROR IOEXERR_INVALID_ARGS))
      | Some s \<Rightarrow> if s = [] then Some (False, Some (IOEX_GENERAL_ERROR IOEXERR_INVALID_ARGS))
          else do { b \<leftarrow> is_valid_address s; Some (b, None) })"

text \<open>\<open>Inr\<close> the block of the identifier, \<open>Inl\<close> the error where NULL is returned.\<close>

definition IOEX_get_id_by_address :: "cstring \<Rightarrow> u8 list \<Rightarrow> (int + u8 list) option" where
  "IOEX_get_id_by_address address userid =
     (if length userid \<le> IOEX_MAX_ID_LEN then Some (Inl (IOEX_GENERAL_ERROR IOEXERR_INVALID_ARGS))
      else do {
        (addr_len, addr) \<leftarrow> decode_cstring address DHT_ADDRESS_SIZE;
        if addr_len \<noteq> int DHT_ADDRESS_SIZE then Some (Inl (IOEX_GENERAL_ERROR IOEXERR_INVALID_ARGS))
        else do {
          key \<leftarrow> mem_read addr 0 DHT_PUBLIC_KEY_SIZE;
          (b, userid1, _) \<leftarrow> base58_encode key (replicate (length userid) 0) (IOEX_MAX_ID_LEN + 1);
          Some (if b then Inr userid1 else Inl (IOEX_GENERAL_ERROR IOEXERR_INVALID_ARGS))
        }
      })"

subsection \<open>Texts and bytes\<close>

text \<open>The text of some bytes, as a function: what \<^verbatim>\<open>base58_encode\<close> writes.\<close>

fun digits58 :: "nat \<Rightarrow> u8 list" where
  "digits58 v = (if v = 0 then [] else digits58 (v div 58) @ [of_nat (v mod 58)])"

declare digits58.simps [simp del]

definition b58 :: "u8 list \<Rightarrow> cstring" where
  "b58 data = b58_text (leading_zeros data) (digits58 (val256 data))"

lemma digits58_all:
  "(\<forall>d \<in> set (digits58 v). unat d < 58) \<and> val58 (digits58 v) = v \<and> (digits58 v = [] \<or> hd (digits58 v) \<noteq> 0)"
proof (induction v rule: less_induct)
  case (less v)
  have m: "unat (of_nat (v mod 58) :: u8) = v mod 58"
    by (simp add: unsigned_of_nat take_bit_nat_eq_self)
  show ?case
  proof (cases "v = 0")
    case False
    then have IH: "\<forall>d \<in> set (digits58 (v div 58)). unat d < 58" "val58 (digits58 (v div 58)) = v div 58"
      "digits58 (v div 58) = [] \<or> hd (digits58 (v div 58)) \<noteq> 0"
      using less [of "v div 58"] by simp_all
    have e: "digits58 v = digits58 (v div 58) @ [of_nat (v mod 58)]" using False by (simp add: digits58.simps [of v])
    have "hd (digits58 v) \<noteq> 0"
    proof (cases "digits58 (v div 58) = []")
      case True
      then have "v mod 58 = v" using IH(2) by (simp add: val_simps)
      then have "unat (of_nat (v mod 58) :: u8) \<noteq> 0" using m False by simp
      then show ?thesis unfolding e using True by auto
    qed (use IH(3) e in simp)
    with IH m show ?thesis by (auto simp: e val_simps)
  qed (simp add: digits58.simps val_simps)
qed

lemmas digits58_props = digits58_all [THEN conjunct1] digits58_all [THEN conjunct2, THEN conjunct1]
  digits58_all [THEN conjunct2, THEN conjunct2]

lemma val58_inj: "\<forall>d \<in> set ds. unat d < 58 \<Longrightarrow> ds = [] \<or> hd ds \<noteq> 0 \<Longrightarrow> digits58 (val58 ds) = ds"
proof (induction ds rule: rev_induct)
  case (snoc d ds)
  have d: "unat d < 58" using snoc.prems(1) by simp
  have ds: "digits58 (val58 ds) = ds" using snoc by (cases ds) auto
  have "val58 (ds @ [d]) \<noteq> 0"
  proof (cases "ds = []")
    case False
    have "digits58 0 = []" by (simp add: digits58.simps)
    then have "val58 ds \<noteq> 0" using ds False by metis
    then show ?thesis by (simp add: val_simps)
  qed (use snoc.prems(2) in \<open>simp add: val58_def unat_gt_0\<close>)
  moreover have "val58 (ds @ [d]) div 58 = val58 ds" "val58 (ds @ [d]) mod 58 = unat d" using d by (simp_all add: val_simps)
  ultimately show ?case using ds by (simp add: digits58.simps [of "val58 (ds @ [d])"])
qed (simp add: digits58.simps val_simps)

lemma base58_encode_b58:
  "base58_encode data blk textlen =
    (if textlen \<le> length (b58 data) then Some (False, blk, length (b58 data) + 1)
     else do { text1 \<leftarrow> mem_write blk 0 (b58 data @ [0]); Some (True, text1, length (b58 data) + 1) })"
proof -
  obtain ds where ds: "\<forall>d \<in> set ds. unat d < 58" "val58 ds = val256 data" "ds = [] \<or> hd ds \<noteq> 0"
    and e: "\<And>blk textlen. base58_encode data blk textlen =
      (if textlen \<le> leading_zeros data + length ds then Some (False, blk, leading_zeros data + length ds + 1)
       else do { text1 \<leftarrow> mem_write blk 0 (b58_text (leading_zeros data) ds @ [0]); Some (True, text1, leading_zeros data + length ds + 1) })"
    using encode_digits [of data] by blast
  have "digits58 (val256 data) = ds" using val58_inj [OF ds(1,3)] ds(2) by simp
  then show ?thesis unfolding e b58_def by (simp add: b58_text_def)
qed

text \<open>Decoding a text of the full length gives bytes of which it is the text, and conversely.\<close>

lemma text_of_digits:
  assumes "\<forall>c \<in> set chs. b58_digit c"
  shows "\<exists>ds :: u8 list. (\<forall>d \<in> set ds. unat d < 58) \<and> chs = map (\<lambda>d. b58digits_ordered ! unat d) ds"
proof -
  have inv: "\<exists>d :: u8. unat d < 58 \<and> b58digits_ordered ! unat d = c" if "b58_digit c" for c
  proof -
    have "unat c < 128" "b58digits_map ! unat c \<noteq> -1" using that by (simp_all add: b58_digit_def)
    moreover have "list_all (\<lambda>k. b58digits_map ! k = -1 \<or> b58digits_ordered ! nat (b58digits_map ! k) = of_nat k) [0..<128]"
      by (simp add: b58digits_map_def b58digits_ordered_bytes upt_conv_Cons)
    ultimately have "b58digits_ordered ! digit_value c = c"
      by (auto simp: list_all_iff digit_value_def dest: bspec [of _ _ "unat c"])
    moreover have "unat (of_nat (digit_value c) :: u8) = digit_value c"
      using digit_bounds(2) [OF that] by (simp add: unsigned_of_nat take_bit_nat_eq_self)
    ultimately show ?thesis using digit_bounds(2) [OF that] by metis
  qed
  show ?thesis using assms
  proof (induction chs)
    case (Cons c chs)
    then have "\<exists>ds :: u8 list. (\<forall>d \<in> set ds. unat d < 58) \<and> chs = map (\<lambda>d. b58digits_ordered ! unat d) ds" by simp
    then obtain ds :: "u8 list" where "\<forall>d \<in> set ds. unat d < 58" "chs = map (\<lambda>d. b58digits_ordered ! unat d) ds" by blast
    moreover from Cons.prems have "b58_digit c" by simp
    from inv [OF this] obtain d :: u8 where "unat d < 58" "b58digits_ordered ! unat d = c" by blast
    ultimately show ?case by (intro exI [of _ "d # ds"]) auto
  qed simp
qed

lemma decode_b58:
  assumes "data \<noteq> []" and "length data \<le> n"
  shows "decode_cstring (b58 data) n = Some (int (length data), replicate (n - length data) 0 @ data)"
proof -
  have "base58_encode data (replicate (length (b58 data) + 1) 0) (length (b58 data) + 1) = Some (True, b58 data @ [0], length (b58 data) + 1)"
    by (simp add: base58_encode_b58 mem_write_def blit_def)
  from base58_roundtrip_text [OF this assms] show ?thesis by (simp add: decode_cstring_def)
qed

lemma decode_total: "n > 0 \<Longrightarrow> \<exists>r. decode_cstring s n = Some r"
  using decode_empty [of n] decode_value [of n "length s" "s @ [0]"] by (cases s) (auto simp: decode_cstring_def)

lemma decode_canonical:
  assumes "decode_cstring s n = Some (int len, bytes)" and "n > 0" and "len > 0"
  obtains z where "s = b58_text z (digits58 (val256 bytes))" "length bytes = n" "n - leading_zeros bytes + z = len"
proof -
  have ne: "s \<noteq> []"
  proof
    assume "s = []"
    then have "\<exists>b. decode_cstring s n = Some (0, b)" using decode_empty [OF assms(2)] by (simp add: decode_cstring_def)
    with assms show False by auto
  qed
  define z where "z = length (takeWhile (\<lambda>c. c = ASCII_1) s)"
  have tk: "take (length s) (s @ [0]) = s" by simp
  have dv: "decode_cstring s n = Some (case text_value s of
      Some v \<Rightarrow> if v < 256 ^ n then (int (n - leading_zeros (be_bytes n v) + z), be_bytes n v) else (-1, [])
    | None \<Rightarrow> (-1, []))"
    using decode_value [of n "length s" "s @ [0]"] ne assms(2) unfolding decode_cstring_def tk z_def by simp
  then obtain v where v: "text_value s = Some v" "v < 256 ^ n" "bytes = be_bytes n v" "n - leading_zeros bytes + z = len"
    using assms(1) by (auto split: option.splits if_splits)
  have vb: "val256 bytes = v" using v(2,3) be_bytes_val(2) by simp
  have s: "s = replicate z ASCII_1 @ dropWhile (\<lambda>c. c = ASCII_1) s" using zeros_dropWhile [of s ASCII_1] unfolding z_def .
  let ?r = "dropWhile (\<lambda>c. c = ASCII_1) s"
  have "\<forall>c \<in> set ?r. b58_digit c" using v(1) by (auto simp: text_value_def split: if_splits dest: set_dropWhileD)
  from text_of_digits [OF this] obtain ds :: "u8 list" where ds: "\<forall>d \<in> set ds. unat d < 58" "?r = map (\<lambda>d. b58digits_ordered ! unat d) ds" by auto
  have t: "s = b58_text z ds" using s ds(2) by (simp add: b58_text_def)
  have "val58 ds = v" using b58_text_value [OF ds(1), of z] v(1) t by simp
  moreover have "ds = [] \<or> hd ds \<noteq> 0"
    using hd_dropWhile [of "\<lambda>c. c = ASCII_1" s] ds digit_of_ordered(3) by (cases ds) auto
  ultimately have "digits58 v = ds" using val58_inj [OF ds(1)] by auto
  then show thesis using that [of z] t vb v(3,4) be_bytes_val(1) by simp
qed

lemma leading_zeros_le: "leading_zeros bs \<le> length bs"
  by (simp add: leading_zeros_def length_takeWhile_le)

lemma decode_full:
  assumes "decode_cstring s n = Some (int n, bytes)" and "n > 0"
  shows "s = b58 bytes" "length bytes = n"
proof -
  from decode_canonical [OF assms assms(2)] obtain z where
    z: "s = b58_text z (digits58 (val256 bytes))" "length bytes = n" "n - leading_zeros bytes + z = n" by blast
  then have "leading_zeros bytes = z" using leading_zeros_le [of bytes] by linarith
  with z show "s = b58 bytes" "length bytes = n" by (simp_all add: b58_def)
qed

text \<open>A text that is decoded to fewer bytes than there is space for is the text of those bytes.\<close>

lemma decode_short:
  assumes d: "decode_cstring s n = Some (int len, bytes)" and n: "0 < len" "len \<le> n"
  shows "s = b58 (drop (n - len) bytes)" "length bytes = n"
proof -
  let ?k = "drop (n - len) bytes"
  from decode_canonical [OF d _ n(1)] n obtain z where
    z: "s = b58_text z (digits58 (val256 bytes))" "length bytes = n" "n - leading_zeros bytes + z = len" by auto
  then have lz: "leading_zeros bytes = n - len + z" using leading_zeros_le [of bytes] n by linarith
  let ?r = "dropWhile (\<lambda>b. b = 0) bytes"
  have b: "bytes = replicate (n - len) 0 @ replicate z 0 @ ?r"
    using zeros_dropWhile [of bytes 0] lz unfolding leading_zeros_def by (simp add: replicate_add)
  have k: "?k = replicate z 0 @ ?r" by (subst b) simp
  have "leading_zeros ?k = z" using hd_dropWhile [of "\<lambda>b. b = 0" bytes] unfolding k leading_zeros_def by (cases ?r) (auto simp: takeWhile_append simp del: dropWhile_eq_Nil_conv)
  moreover have "val256 bytes = val256 ?k" by (subst b) (simp add: k val256_leading)
  ultimately show "s = b58 ?k" using z(1) by (simp add: b58_def)
  show "length bytes = n" by (rule z(2))
qed

lemma b58_nonempty: "data \<noteq> [] \<Longrightarrow> b58 data \<noteq> []"
proof
  assume d: "data \<noteq> []" "b58 data = []"
  have "decode_cstring (b58 data) (length data) = Some (int (length data), data)" using decode_b58 [OF d(1), of "length data"] by simp
  moreover have "\<exists>b. decode_cstring [] (length data) = Some (0, b)" using decode_empty [of "length data"] d(1) by (simp add: decode_cstring_def)
  ultimately show False using d by auto
qed

lemma b58_inj: "length as = length bs \<Longrightarrow> as \<noteq> [] \<Longrightarrow> b58 as = b58 bs \<Longrightarrow> as = bs"
  using decode_b58 [of as "length as"] decode_b58 [of bs "length as"] by (cases bs) auto

subsection \<open>The checksum\<close>

definition xor_bytes :: "u8 list \<Rightarrow> u8" where "xor_bytes bs = foldr (XOR) bs 0"

fun evens :: "'a list \<Rightarrow> 'a list" where
  "evens [] = []"
| "evens [x] = [x]"
| "evens (x # y # zs) = x # evens zs"

definition odds :: "'a list \<Rightarrow> 'a list" where "odds xs = evens (drop 1 xs)"

lemma odds_simps [simp]: "odds [] = []" "odds (x # xs) = evens xs" "evens (x # xs) = x # odds xs"
  by (simp_all add: odds_def) (cases xs, simp_all)

lemma checksum_loop_xor:
  "checksum_loop i as [x, y] = (if even i then [x XOR xor_bytes (evens as), y XOR xor_bytes (odds as)]
     else [x XOR xor_bytes (odds as), y XOR xor_bytes (evens as)])"
proof (induction as arbitrary: i x y)
  case (Cons a as)
  have "i mod 2 = (if even i then 0 else 1)" by (simp add: even_iff_mod_2_eq_zero)
  then show ?case by (simp add: Cons.IH xor_bytes_def xor.assoc del: evens.simps(2,3))
qed (simp add: xor_bytes_def)

definition checksum_bytes :: "u8 list \<Rightarrow> u8 list" where
  "checksum_bytes bs = [xor_bytes (evens bs), xor_bytes (odds bs)]"

lemma le16_inj: "length as = 2 \<Longrightarrow> length bs = 2 \<Longrightarrow> le16 as = le16 bs \<longleftrightarrow> as = bs"
proof -
  assume "length as = 2" "length bs = 2"
  then obtain a0 a1 b0 b1 where e: "as = [a0, a1]" "bs = [b0, b1]"
    by (auto simp: numeral_2_eq_2 length_Suc_conv)
  have lt: "unat w < 256" for w :: u8 using unsigned_less [of w, where ?'a = nat] by simp
  have le: "unat (le16 [x, y]) = unat x + 256 * unat y" for x y
    unfolding le16_def unsigned_of_nat by (simp only: nth_Cons_0 One_nat_def nth_Cons_Suc of_nat_id)
      (rule take_bit_nat_eq_self, use lt [of x] lt [of y] in simp)
  then have "le16 as = le16 bs \<longleftrightarrow> unat a0 + 256 * unat a1 = unat b0 + 256 * unat b1"
    unfolding word_unat_eq_iff e by (simp only: le)
  also have "\<dots> \<longleftrightarrow> unat a0 = unat b0 \<and> unat a1 = unat b1"
  proof
    assume e: "unat a0 + 256 * unat a1 = unat b0 + 256 * unat b1"
    then have "(unat a0 + 256 * unat a1) mod 256 = (unat b0 + 256 * unat b1) mod 256" by simp
    then have "unat a0 = unat b0" using lt [of a0] lt [of b0] by simp
    with e show "unat a0 = unat b0 \<and> unat a1 = unat b1" by simp
  qed simp
  finally show ?thesis by (simp add: e word_unat_eq_iff)
qed

lemma address_checksum_eq: "n \<le> length as \<Longrightarrow> address_checksum as n = Some (le16 (checksum_bytes (take n as)))"
  by (simp add: address_checksum_def mem_read_Some checksum_loop_xor checksum_bytes_def)

definition good_address :: "u8 list \<Rightarrow> bool" where
  "good_address addr \<longleftrightarrow> length addr = 38 \<and> drop 36 addr = checksum_bytes (take 36 addr)"

lemma is_valid_address_iff: "is_valid_address s = Some (\<exists>addr. good_address addr \<and> s = b58 addr)"
proof -
  obtain len bytes where d: "decode_cstring s DHT_ADDRESS_SIZE = Some (len, bytes)"
    using decode_total [of DHT_ADDRESS_SIZE s] by (auto simp: address_sizes)
  show ?thesis
  proof (cases "len = int DHT_ADDRESS_SIZE")
    case True
    have b: "s = b58 bytes" "length bytes = 38"
      using decode_full [of s DHT_ADDRESS_SIZE bytes] d True by (simp_all add: address_sizes)
    have "is_valid_address s = Some (le16 (checksum_bytes (take 36 bytes)) = le16 (take 2 (drop 36 bytes)))"
      using d True b(2) by (simp add: is_valid_address_def address_checksum_eq mem_read_Some address_sizes)
    also have "take 2 (drop 36 bytes) = drop 36 bytes" using b(2) by simp
    also have "(le16 (checksum_bytes (take 36 bytes)) = le16 (drop 36 bytes)) = good_address bytes"
      using b(2) by (auto simp: le16_inj good_address_def checksum_bytes_def)
    also have "good_address bytes \<longleftrightarrow> (\<exists>addr. good_address addr \<and> s = b58 addr)"
    proof
      assume "\<exists>addr. good_address addr \<and> s = b58 addr"
      then obtain addr where a: "good_address addr" "s = b58 addr" by blast
      then have "length addr = 38" "addr \<noteq> []" by (auto simp: good_address_def)
      then have "decode_cstring s 38 = Some (38, addr)" using decode_b58 [of addr 38] a(2) by auto
      then show "good_address bytes" using d a(1) by (simp add: address_sizes)
    qed (use b(1) in blast)
    finally show ?thesis .
  next
    case False
    have "\<not> (good_address addr \<and> s = b58 addr)" for addr
    proof
      assume a: "good_address addr \<and> s = b58 addr"
      then have "length addr = 38" "addr \<noteq> []" by (auto simp: good_address_def)
      then have "decode_cstring s 38 = Some (38, addr)" using decode_b58 [of addr 38] a by auto
      then show False using d False by (simp add: address_sizes)
    qed
    then show ?thesis using d False by (simp add: is_valid_address_def)
  qed
qed

text \<open>The texts of keys and addresses fit into the arrays for them.\<close>

lemma digits58_length: "v < 58 ^ n \<Longrightarrow> length (digits58 v) \<le> n"
proof (induction n arbitrary: v)
  case (Suc n)
  then have "v div 58 < 58 ^ n" by (simp add: less_mult_imp_div_less mult.commute)
  with Suc.IH [of "v div 58"] show ?case by (simp add: digits58.simps [of v])
qed (simp add: digits58.simps)

lemma b58_length:
  assumes "256 ^ (length data - z) \<le> (58 :: nat) ^ (n - z)" "z = leading_zeros data" "z \<le> n"
  shows "length (b58 data) \<le> n"
proof -
  have d: "data = replicate z 0 @ dropWhile (\<lambda>b. b = 0) data" using zeros_dropWhile [of data 0] assms(2) by (simp add: leading_zeros_def)
  then have v: "val256 data = val256 (dropWhile (\<lambda>b. b = 0) data)" using val256_leading by metis
  have "length (dropWhile (\<lambda>b. b = 0) data) = length data - z" using d by (metis add_diff_cancel_left' length_append length_replicate)
  then have "val256 data < 58 ^ (n - z)" using val256_bound [of "dropWhile (\<lambda>b. b = 0) data"] v assms(1) by simp
  then have "length (digits58 (val256 data)) \<le> n - z" by (rule digits58_length)
  then show ?thesis using assms(2,3) by (simp add: b58_def b58_text_def)
qed

text \<open>Each zero byte costs one character and saves \<open>log 256 / log 58 > 1\<close>.\<close>

lemma b58_length_max:
  assumes "256 ^ length data \<le> (58 :: nat) ^ n"
  shows "length (b58 data) \<le> n"
proof -
  define z where "z = leading_zeros data"
  have zl: "z \<le> length data" by (simp add: z_def leading_zeros_def length_takeWhile_le)
  have "length data \<le> n"
  proof (rule ccontr)
    assume "\<not> length data \<le> n"
    then have "(58 :: nat) ^ n < 256 ^ n \<or> n = 0 \<and> length data > 0" by (cases "n = 0") (auto intro!: power_strict_mono)
    moreover have "(256 :: nat) ^ n \<le> 256 ^ length data" using \<open>\<not> length data \<le> n\<close> by (intro power_increasing) simp_all
    moreover have "length data > 0 \<Longrightarrow> (1 :: nat) < 256 ^ length data" by (rule one_less_power) simp_all
    ultimately show False using assms by auto
  qed
  have "(256 :: nat) ^ (length data - z) * 256 ^ z \<le> 58 ^ (n - z) * 58 ^ z"
    using assms zl \<open>length data \<le> n\<close> by (simp flip: power_add)
  also have "\<dots> \<le> 58 ^ (n - z) * 256 ^ z" by (intro mult_left_mono power_mono) simp_all
  finally have "(256 :: nat) ^ (length data - z) \<le> 58 ^ (n - z)" by simp
  then show ?thesis by (rule b58_length) (use zl \<open>length data \<le> n\<close> in \<open>simp_all add: z_def\<close>)
qed

lemma key_text_length: "length key = 32 \<Longrightarrow> length (b58 key) \<le> 44"
  by (rule b58_length_max) simp

lemma address_text_length: "length addr = 38 \<Longrightarrow> length (b58 addr) \<le> 52"
  by (rule b58_length_max) simp

lemma is_valid_key_b58: "length key = 32 \<Longrightarrow> is_valid_key (b58 key) = Some True"
  using decode_b58 [of key 64] by (cases key) (auto simp: is_valid_key_def address_sizes)

lemma is_valid_key_iff: "is_valid_key s = Some (\<exists>key. length key = 32 \<and> s = b58 key)"
proof -
  obtain len bytes where d: "decode_cstring s (DHT_PUBLIC_KEY_SIZE * 2) = Some (len, bytes)"
    using decode_total [of "DHT_PUBLIC_KEY_SIZE * 2" s] by (auto simp: address_sizes)
  have "\<exists>key. length key = 32 \<and> s = b58 key" if "len = int DHT_PUBLIC_KEY_SIZE"
    using decode_short [of s "DHT_PUBLIC_KEY_SIZE * 2" DHT_PUBLIC_KEY_SIZE bytes] d that
    by (intro exI [of _ "drop 32 bytes"]) (simp add: address_sizes)
  moreover have "len = int DHT_PUBLIC_KEY_SIZE" if "length key = 32" "s = b58 key" for key
    using is_valid_key_b58 [OF that(1)] that(2) d by (simp add: is_valid_key_def)
  ultimately show ?thesis using d by (auto simp: is_valid_key_def)
qed

lemma xor_bytes_append: "xor_bytes (as @ bs) = xor_bytes as XOR xor_bytes bs"
  by (induction as) (simp_all add: xor_bytes_def xor.assoc)

lemma xor_bytes_update: "j < length ys \<Longrightarrow> xor_bytes (ys[j := b]) = xor_bytes ys XOR (ys ! j XOR b)"
proof -
  assume j: "j < length ys"
  then have ys: "ys = take j ys @ ys ! j # drop (Suc j) ys" by (rule id_take_nth_drop)
  have "xor_bytes (ys[j := b]) = xor_bytes (take j ys) XOR (b XOR xor_bytes (drop (Suc j) ys))"
    using j by (simp add: upd_conv_take_nth_drop xor_bytes_append) (simp add: xor_bytes_def)
  moreover have "xor_bytes ys = xor_bytes (take j ys) XOR (ys ! j XOR xor_bytes (drop (Suc j) ys))"
    by (subst ys, simp only: xor_bytes_append) (simp add: xor_bytes_def)
  ultimately show ?thesis by (simp add: ac_simps)
qed

lemma evens_odds_append: "even (length as) \<Longrightarrow> evens (as @ bs) = evens as @ evens bs" "even (length as) \<Longrightarrow> odds (as @ bs) = odds as @ odds bs"
  by (induction as rule: evens.induct) (auto simp del: evens.simps(2,3))

lemma length_evens: "length (evens xs) = (length xs + 1) div 2" "length (odds xs) = length xs div 2"
  by (induction xs) (simp_all del: evens.simps(2,3))

lemma evens_update: "evens (xs[i := b]) = (if even i then (evens xs)[i div 2 := b] else evens xs)"
  "odds (xs[i := b]) = (if odd i then (odds xs)[i div 2 := b] else odds xs)"
  by (induction xs arbitrary: i) (auto simp del: evens.simps(2,3) split: nat.split elim!: oddE evenE)

lemma evens_nth: "2 * j < length xs \<Longrightarrow> evens xs ! j = xs ! (2 * j)"
  and odds_nth: "2 * j + 1 < length xs \<Longrightarrow> odds xs ! j = xs ! (2 * j + 1)"
  by (induction xs arbitrary: j) (auto simp del: evens.simps(2,3) simp: nth_Cons split: nat.splits)

lemma good_address_parity:
  "good_address addr \<longleftrightarrow> length addr = 38 \<and> xor_bytes (evens addr) = 0 \<and> xor_bytes (odds addr) = 0"
proof (cases "length addr = 38")
  case True
  then obtain a b where d: "drop 36 addr = [a, b]"
    by (cases "drop 36 addr"; cases "tl (drop 36 addr)") (auto dest: arg_cong [of _ _ length])
  have "addr = take 36 addr @ [a, b]" using append_take_drop_id [of 36 addr] d by simp
  then have "evens addr = evens (take 36 addr) @ [a]" "odds addr = odds (take 36 addr) @ [b]"
    using evens_odds_append [of "take 36 addr" "[a, b]"] True by simp_all
  moreover have "x XOR y = 0 \<longleftrightarrow> y = x" for x y :: u8 by (metis xor.commute xor.left_neutral xor_self_eq xor.assoc)
  ultimately show ?thesis
    using True d by (simp add: good_address_def checksum_bytes_def xor_bytes_append) (simp add: xor_bytes_def)
qed (simp add: good_address_def)

subsection \<open>Properties\<close>

lemma write_text: "length t < n \<Longrightarrow> mem_write (replicate n 0) 0 (t @ [0]) = Some (t @ replicate (n - length t) 0)"
proof -
  assume "length t < n"
  then obtain k where "n = length t + Suc k" by (auto dest: less_imp_Suc_add)
  then show ?thesis by (simp add: mem_write_def blit_def)
qed

text \<open>C30. Identifiers and addresses belong together: the address made of a key, the four bytes against spam and their
  checksum is valid in its text form, the identifier taken from that text is the text of the key, and it is a valid
  identifier. No text is too long for its array.\<close>

theorem address_roundtrip:
  assumes "length key = 32" and "length nospam = 4" and "length userid > IOEX_MAX_ID_LEN"
  defines "addr \<equiv> key @ nospam @ checksum_bytes (key @ nospam)"
  shows "IOEX_address_is_valid (Some (b58 addr)) = Some (True, None)
    \<and> IOEX_get_id_by_address (b58 addr) userid = Some (Inr (b58 key @ replicate (length userid - length (b58 key)) 0))
    \<and> IOEX_id_is_valid (Some (b58 key)) = Some (True, None)
    \<and> length (b58 addr) \<le> IOEX_MAX_ADDRESS_LEN \<and> length (b58 key) \<le> IOEX_MAX_ID_LEN"
proof -
  have len: "length addr = 38" and good: "good_address addr"
    using assms(1,2) by (simp_all add: addr_def good_address_def checksum_bytes_def)
  have "addr \<noteq> []" "key \<noteq> []" using assms(1) len by auto
  note ne = this [THEN b58_nonempty]
  have "is_valid_address (b58 addr) = Some True" using good unfolding is_valid_address_iff by auto
  then have 1: "IOEX_address_is_valid (Some (b58 addr)) = Some (True, None)" using ne by (simp add: IOEX_address_is_valid_def)
  have kl: "length (b58 key) \<le> 44" using key_text_length assms(1) .
  have "decode_cstring (b58 addr) 38 = Some (38, addr)" using decode_b58 [OF \<open>addr \<noteq> []\<close>, of 38] len by simp
  moreover have "take 32 addr = key" using assms(1) by (simp add: addr_def)
  moreover have "base58_encode key (replicate (length userid) 0) 46 = Some (True, b58 key @ replicate (length userid - length (b58 key)) 0, length (b58 key) + 1)"
  proof -
    have "mem_write (replicate (length userid) 0) 0 (b58 key @ [0]) = Some (b58 key @ replicate (length userid - length (b58 key)) 0)"
      by (rule write_text) (use assms(3) kl in \<open>simp add: address_sizes\<close>)
    then show ?thesis using kl by (simp add: base58_encode_b58)
  qed
  ultimately have 2: "IOEX_get_id_by_address (b58 addr) userid = Some (Inr (b58 key @ replicate (length userid - length (b58 key)) 0))"
    using assms(3) len by (simp add: IOEX_get_id_by_address_def address_sizes mem_read_Some)
  have 3: "IOEX_id_is_valid (Some (b58 key)) = Some (True, None)"
    using ne is_valid_key_b58 [OF assms(1)] by (simp add: IOEX_id_is_valid_def)
  show ?thesis using 1 2 3 kl address_text_length [OF len] by (simp add: address_sizes)
qed

text \<open>C32. The checksum catches every damage to a single byte: of an address with one byte changed the text is not a
  valid address.\<close>

theorem single_byte_error_detected:
  assumes "good_address addr" and "i < 38" and "b \<noteq> addr ! i"
  shows "IOEX_address_is_valid (Some (b58 (addr[i := b]))) = Some (False, None)"
proof -
  let ?a = "addr[i := b]"
  have len: "length addr = 38" and par: "xor_bytes (evens addr) = 0" "xor_bytes (odds addr) = 0"
    using assms(1) unfolding good_address_parity by auto
  have x: "x XOR y \<noteq> 0" if "x \<noteq> y" for x y :: u8 using that by (metis xor.commute xor.left_neutral xor_self_eq xor.assoc)
  have nth: "evens addr ! (i div 2) = addr ! i" if "even i" using evens_nth [of "i div 2" addr] that assms(2) len by simp
  have nth2: "odds addr ! (i div 2) = addr ! i" if "odd i" using odds_nth [of "i div 2" addr] that assms(2) len by simp
  have "xor_bytes (evens ?a) \<noteq> 0 \<or> xor_bytes (odds ?a) \<noteq> 0"
  proof (cases "even i")
    case True
    have "xor_bytes (evens ?a) = addr ! i XOR b"
      using True par nth assms(2) len by (simp add: evens_update xor_bytes_update length_evens)
    then show ?thesis using x assms(3) by metis
  next
    case False
    then have "i div 2 < 19" using assms(2) by simp
    then have "xor_bytes (odds ?a) = addr ! i XOR b"
      using False par nth2 len by (simp add: evens_update xor_bytes_update length_evens)
    then show ?thesis using x assms(3) by metis
  qed
  then have "\<not> good_address ?a" unfolding good_address_parity by auto
  have "\<not> (\<exists>addr'. good_address addr' \<and> b58 ?a = b58 addr')"
  proof
    assume "\<exists>addr'. good_address addr' \<and> b58 ?a = b58 addr'"
    then obtain addr' where a: "good_address addr'" "b58 ?a = b58 addr'" by blast
    then have "length addr' = 38" by (simp add: good_address_def)
    moreover have "?a \<noteq> []" using len by auto
    ultimately have "?a = addr'" using b58_inj [OF _ _ a(2)] len by simp
    with a(1) \<open>\<not> good_address ?a\<close> show False by simp
  qed
  then have "is_valid_address (b58 ?a) = Some False" unfolding is_valid_address_iff by simp
  moreover have "?a \<noteq> []" using len by auto
  then have "b58 ?a \<noteq> []" by (rule b58_nonempty)
  ultimately show ?thesis by (simp add: IOEX_address_is_valid_def)
qed

lemma b58_zeros: "b58 (replicate n 0) = replicate n ASCII_1"
  by (simp add: b58_def b58_text_def val256_zeros leading_zeros_def digits58.simps takeWhile_eq_all_conv [THEN iffD2])

lemma zero_address: "good_address (replicate 38 0)"
  by (simp add: good_address_parity xor_bytes_def numeral_eq_Suc)

lemma address_roundtrip_witness:
  "IOEX_address_is_valid (Some (replicate 38 ASCII_1)) = Some (True, None)
    \<and> IOEX_get_id_by_address (replicate 38 ASCII_1) (replicate 50 7) = Some (Inr (replicate 32 ASCII_1 @ replicate 18 0))"
proof -
  have "replicate 32 0 @ replicate 4 0 @ checksum_bytes (replicate 32 0 @ replicate 4 0) = replicate 38 (0 :: u8)"
    by (simp add: checksum_bytes_def xor_bytes_def numeral_eq_Suc)
  then show ?thesis
    using address_roundtrip [of "replicate 32 0" "replicate 4 0" "replicate 50 7"] by (simp add: b58_zeros address_sizes)
qed

lemma single_byte_error_detected_witness:
  "IOEX_address_is_valid (Some (b58 ((replicate 38 0)[3 := 9]))) = Some (False, None)"
  by (rule single_byte_error_detected [OF zero_address]) simp_all

end
