(* ===== verification/ObjTable.thy ===== *)
theory ObjTable
  imports HashTable Errors
begin

text \<open>
  Tables of reference-counted objects, as the carrier keeps them for friends, transactions and the history of
  invitations: a hash table whose entries are embedded in objects of \<^verbatim>\<open>rc_mem.c\<close>. An object is alive as long as its
  count is positive; using it after that is undefined. The lemmas are proved once for every hash and comparison
  function that decide equality on the keys in use, in the locale \<open>object_keys\<close>, which the clients interpret.
\<close>

subsection \<open>Objects\<close>

record 'a objtable =
  ot_table :: Hashtable
  ot_objs :: "nat \<Rightarrow> 'a option"
  ot_fresh :: nat

definition ot_create :: "nat \<Rightarrow> (u8 list \<Rightarrow> u32) option \<Rightarrow> (u8 list \<Rightarrow> u8 list \<Rightarrow> int) option \<Rightarrow> 'a objtable" where
  "ot_create cap hc kc = \<lparr>ot_table = hashtable_create cap hc kc (\<lambda>_. None) (\<lambda>_. 0), ot_objs = (\<lambda>_. None), ot_fresh = 0\<rparr>"

definition rc_alloc :: "'a \<Rightarrow> 'a objtable \<Rightarrow> nat \<times> 'a objtable" where
  "rc_alloc x t =
     (let a = ot_fresh t; h = ot_table t in
      (a, t\<lparr>ot_table := h\<lparr>ht_refs := (ht_refs h)(a := 1)\<rparr>, ot_objs := (ot_objs t)(a \<mapsto> x), ot_fresh := a + 1\<rparr>))"

definition ot_read :: "nat \<Rightarrow> 'a objtable \<Rightarrow> 'a option" where
  "ot_read a t = (if 0 < ht_refs (ot_table t) a then ot_objs t a else None)"

definition ot_modify :: "nat \<Rightarrow> ('a \<Rightarrow> 'a) \<Rightarrow> 'a objtable \<Rightarrow> 'a objtable option" where
  "ot_modify a f t = do { x \<leftarrow> ot_read a t; Some (t\<lparr>ot_objs := (ot_objs t)(a \<mapsto> f x)\<rparr>) }"

definition rc_deref :: "nat \<Rightarrow> 'a objtable \<Rightarrow> 'a objtable option" where
  "rc_deref a t = do { _ \<leftarrow> ot_read a t; Some (t\<lparr>ot_table := ht_deref a (ot_table t)\<rparr>) }"

text \<open>The object's hash entry is filled in and put into the table.\<close>

definition ot_put :: "u8 list \<Rightarrow> nat \<Rightarrow> 'a objtable \<Rightarrow> 'a objtable option" where
  "ot_put key a t =
     do {
       _ \<leftarrow> ot_read a t;
       let h = ot_table t;
       (_, h1) \<leftarrow> hashtable_put (h\<lparr>ht_ents := (ht_ents h)(a \<mapsto> \<lparr>he_key = key, he_data = a, he_hash_code = 0\<rparr>)\<rparr>) a;
       Some (t\<lparr>ot_table := h1\<rparr>)
     }"

definition ot_get :: "u8 list \<Rightarrow> 'a objtable \<Rightarrow> (nat option \<times> 'a objtable) option" where
  "ot_get key t = do { (r, h) \<leftarrow> hashtable_get (ot_table t) key; Some (r, t\<lparr>ot_table := h\<rparr>) }"

definition ot_exist :: "u8 list \<Rightarrow> 'a objtable \<Rightarrow> bool option" where
  "ot_exist key t = hashtable_exist (ot_table t) key"

definition ot_remove :: "u8 list \<Rightarrow> 'a objtable \<Rightarrow> (nat option \<times> 'a objtable) option" where
  "ot_remove key t = do { (r, h) \<leftarrow> hashtable_remove (ot_table t) key; Some (r, t\<lparr>ot_table := h\<rparr>) }"

text \<open>
  The loop \<^verbatim>\<open>while (has_next) if (next == 1) { body; deref; }\<close> over a table, with a body that sees the object and
  a state of its own and goes on, stops after dropping the reference, or breaks out of the loop with it. The result
  \<open>None\<close> is also that of a loop that never ends.
\<close>

datatype loop_next = Next | Stop | Break

partial_function (option) ot_loop :: "('a \<Rightarrow> 's \<Rightarrow> (loop_next \<times> 's) option) \<Rightarrow> HashtableIterator_i \<Rightarrow> 'a objtable \<Rightarrow> 's
    \<Rightarrow> ((loop_next \<times> 's) \<times> 'a objtable) option" where
  "ot_loop body it t s =
     (if hashtable_iterator_has_next it then do {
        (rc, kd, it1, h1) \<leftarrow> hashtable_iterator_next it (ot_table t);
        if rc = 1 then do {
          (k, d) \<leftarrow> kd;
          let t1 = t\<lparr>ot_table := h1\<rparr>;
          x \<leftarrow> ot_read d t1;
          (go, s1) \<leftarrow> body x s;
          if go = Break then Some ((Break, s1), t1)
          else do {
            t2 \<leftarrow> rc_deref d t1;
            if go = Next then ot_loop body it1 t2 s1 else Some ((Stop, s1), t2)
          }
        } else ot_loop body it1 (t\<lparr>ot_table := h1\<rparr>) s
      }
      else Some ((Next, s), t))"

definition ot_iterate :: "('a \<Rightarrow> 's \<Rightarrow> (loop_next \<times> 's) option) \<Rightarrow> 'a objtable \<Rightarrow> 's \<Rightarrow> ((loop_next \<times> 's) \<times> 'a objtable) option" where
  "ot_iterate body t s = ot_loop body (hashtable_iterate (ot_table t)) t s"

text \<open>Changing an object right after its allocation is allocating the changed object.\<close>

lemma rc_alloc_modify: "rc_alloc x t = (a, t1) \<Longrightarrow> ot_modify a f t1 = Some t2 \<longleftrightarrow> rc_alloc (f x) t = (a, t2)"
  by (auto simp: rc_alloc_def Let_def ot_modify_def ot_read_def)

lemma rc_alloc_read: "rc_alloc x t = (a, t1) \<Longrightarrow> ot_read a t1 = Some x"
  by (auto simp: rc_alloc_def Let_def ot_read_def)

text \<open>What the loop computes over the list of the objects, in the order of insertion.\<close>

fun walk :: "('a \<Rightarrow> 's \<Rightarrow> (loop_next \<times> 's) option) \<Rightarrow> 'a list \<Rightarrow> 's \<Rightarrow> (loop_next \<times> 's) option" where
  "walk body [] s = Some (Next, s)"
| "walk body (x # xs) s = do { (go, s1) \<leftarrow> body x s; if go = Next then walk body xs s1 else Some (go, s1) }"

definition ot_list :: "'a objtable \<Rightarrow> 'a list" where
  "ot_list t = map (\<lambda>e. the (ot_objs t e)) (ht_lst (ot_table t))"

text \<open>The map from keys to objects; holding one more reference to an object; changing an object in place.\<close>

definition ot_map :: "'a objtable \<Rightarrow> u8 list \<rightharpoonup> 'a" where
  "ot_map t k = Option.bind (map_of (contents (ot_table t)) k) (ot_objs t)"

definition ot_hold :: "nat \<Rightarrow> 'a objtable \<Rightarrow> 'a objtable" where
  "ot_hold a t = t\<lparr>ot_table := ht_ref a (ot_table t)\<rparr>"

definition ot_set :: "nat \<Rightarrow> 'a \<Rightarrow> 'a objtable \<Rightarrow> 'a objtable" where
  "ot_set a x t = t\<lparr>ot_objs := (ot_objs t)(a \<mapsto> x)\<rparr>"

subsection \<open>Comparison functions that decide equality on some keys\<close>

definition plain :: "Hashtable \<Rightarrow> Hashtable" where
  "plain h = h\<lparr>ht_key_compare := default_key_compare\<rparr>"

lemma plain_simps [simp]:
  "ht_capacity (plain h) = ht_capacity h" "ht_count (plain h) = ht_count h" "ht_mod_count (plain h) = ht_mod_count h"
  "ht_hash (plain h) = ht_hash h" "ht_key_compare (plain h) = default_key_compare" "ht_lst (plain h) = ht_lst h"
  "ht_buckets (plain h) = ht_buckets h" "ht_ents (plain h) = ht_ents h" "ht_refs (plain h) = ht_refs h"
  "bucket_index (plain h) k = bucket_index h k" "key_of (plain h) = key_of h" "data_of (plain h) = data_of h"
  "contents (plain h) = contents h" "plain (ht_ref d h) = ht_ref d (plain h)" "plain (ht_deref d h) = ht_deref d (plain h)"
  "plain (h\<lparr>ht_ents := es\<rparr>) = (plain h)\<lparr>ht_ents := es\<rparr>" "plain (h\<lparr>ht_refs := r\<rparr>) = (plain h)\<lparr>ht_refs := r\<rparr>"
  by (simp_all add: plain_def bucket_index_def key_of_def [abs_def] data_of_def [abs_def] contents_def ht_ref_def ht_deref_def)

lemma plain_upd:
  "plain (h\<lparr>ht_buckets := b, ht_lst := l, ht_count := c, ht_mod_count := m\<rparr>)
    = (plain h)\<lparr>ht_buckets := b, ht_lst := l, ht_count := c, ht_mod_count := m\<rparr>"
  "plain (h\<lparr>ht_ents := es, ht_lst := l, ht_buckets := b\<rparr>) = (plain h)\<lparr>ht_ents := es, ht_lst := l, ht_buckets := b\<rparr>"
  "plain (h\<lparr>ht_ents := es, ht_lst := l, ht_buckets := b, ht_count := c\<rparr>)
    = (plain h)\<lparr>ht_ents := es, ht_lst := l, ht_buckets := b, ht_count := c\<rparr>"
  "plain (h\<lparr>ht_mod_count := m\<rparr>) = (plain h)\<lparr>ht_mod_count := m\<rparr>"
  by (simp_all add: plain_def)

text \<open>The keys of the table are good, and the comparison decides equality with them.\<close>

definition decides :: "(u8 list \<Rightarrow> bool) \<Rightarrow> Hashtable \<Rightarrow> bool" where
  "decides K h \<longleftrightarrow> (\<forall>a b. K a \<longrightarrow> K b \<longrightarrow> (ht_hash h a = ht_hash h b \<and> ht_key_compare h a b = 0 \<longleftrightarrow> a = b))"

lemma chain_find_plain:
  assumes "decides K h" and "K k"
    and "\<forall>e \<in> set es. \<exists>x. ht_ents h e = Some x \<and> he_hash_code x = ht_hash h (he_key x) \<and> K (he_key x)"
  shows "chain_find (plain h) k es pos = chain_find h k es pos"
  using assms(3)
proof (induction es arbitrary: pos)
  case (Cons e es)
  then obtain x where x: "ht_ents h e = Some x" "he_hash_code x = ht_hash h (he_key x)" "K (he_key x)" by auto
  have "ht_hash h (he_key x) = ht_hash h k \<and> ht_key_compare h (he_key x) k = 0 \<longleftrightarrow> he_key x = k"
    using assms(1,2) x(3) by (simp add: decides_def)
  moreover have "default_key_compare (he_key x) k = 0 \<longleftrightarrow> he_key x = k"
    using default_key_compare_ok by (simp add: key_compare_ok_def)
  ultimately show ?case using Cons x by auto
qed simp

definition keys_in :: "(u8 list \<Rightarrow> bool) \<Rightarrow> Hashtable \<Rightarrow> bool" where
  "keys_in K h \<longleftrightarrow> (\<forall>e \<in> set (ht_lst h). K (key_of h e))"

lemma get_entry_plain:
  assumes "ht_ok (plain h)" and "decides K h" and "keys_in K h" and "K k"
  shows "hashtable_get_entry (plain h) k = hashtable_get_entry h k"
proof -
  have i: "bucket_index h k < ht_capacity h" using bucket_index_less [OF assms(1), of k] by simp
  have "\<exists>x. ht_ents h e = Some x \<and> he_hash_code x = ht_hash h (he_key x) \<and> K (he_key x)"
    if "e \<in> set (ht_buckets h ! bucket_index h k)" for e
  proof -
    have e: "e \<in> set (ht_lst h)" using ht_okD(10) [OF assms(1)] i that by simp
    then obtain x where x: "ht_ents h e = Some x" "he_hash_code x = ht_hash h (he_key x)" using ht_okD(8) [OF assms(1), of e] by auto
    moreover have "K (key_of h e)" using assms(3) e by (simp add: keys_in_def)
    ultimately show ?thesis by (simp add: key_of_def)
  qed
  then have "chain_find (plain h) k (ht_buckets h ! bucket_index h k) 0 = chain_find h k (ht_buckets h ! bucket_index h k) 0"
    by (intro chain_find_plain [OF assms(2,4)]) blast
  then show ?thesis using i ht_okD(2) [OF assms(1)] by (simp add: hashtable_get_entry_def mem_at_Some)
qed

lemma get_plain:
  assumes "ht_ok (plain h)" and "decides K h" and "keys_in K h" and "K k"
  shows "hashtable_get (plain h) k = map_option (\<lambda>(r, h'). (r, plain h')) (hashtable_get h k)"
    and "hashtable_exist (plain h) k = hashtable_exist h k"
    and "hashtable_remove (plain h) k = map_option (\<lambda>(r, h'). (r, plain h')) (hashtable_remove h k)"
proof -
  note ge = get_entry_plain [OF assms]
  show "hashtable_get (plain h) k = map_option (\<lambda>(r, h'). (r, plain h')) (hashtable_get h k)"
    by (auto simp: hashtable_get_def ge map_option_bind comp_def split: option.splits intro!: Option.bind_cong)
  show "hashtable_exist (plain h) k = hashtable_exist h k"
    by (simp add: hashtable_exist_def ge)
  show "hashtable_remove (plain h) k = map_option (\<lambda>(r, h'). (r, plain h')) (hashtable_remove h k)"
    by (auto simp: hashtable_remove_def ge map_option_bind comp_def plain_upd Let_def split: option.splits intro!: Option.bind_cong)
qed

lemma put_plain:
  assumes "ht_ok (plain h)" and "decides K h" and "keys_in K h" and "ht_ents h ent = Some x" and "K (he_key x)"
  shows "hashtable_put (plain h) ent = map_option (\<lambda>(r, h'). (r, plain h')) (hashtable_put h ent)"
proof -
  note ge = get_entry_plain [OF assms(1-3,5)]
  have bi: "bucket_index (ht_ref d (plain h)) k = bucket_index (ht_ref d h) k" for d k by (simp add: bucket_index_def)
  have add: "hashtable_add (ht_ref d (plain h)) ent = map_option plain (hashtable_add (ht_ref d h) ent)" for d
    by (auto simp: hashtable_add_def bi plain_upd Let_def assms(4) split: Option.bind_splits)
  show ?thesis
    by (auto simp: hashtable_put_def ge bi assms(4) add plain_upd Let_def split: Option.bind_splits option.splits)
qed

lemma put_frame:
  assumes "hashtable_put h ent = Some (d, h')" and "ht_ents h ent = Some x"
  shows "set (ht_lst h') \<subseteq> insert ent (set (ht_lst h))" "ht_hash h' = ht_hash h" "ht_key_compare h' = ht_key_compare h"
    "e \<noteq> ent \<Longrightarrow> ht_ents h' e = ht_ents h e" "key_of h' ent = he_key x" "data_of h' ent = he_data x"
  using assms by (auto simp: hashtable_put_def hashtable_add_def bind_Some Let_def key_of_def data_of_def mem_at_eq_Some mem_set_eq_Some
    split: option.splits)

lemma ht_ok_deref: "ht_ok (ht_deref d h) = ht_ok h" "contents (ht_deref d h) = contents h"
proof -
  have "key_of (ht_deref d h) = key_of h" "data_of (ht_deref d h) = data_of h"
    by (simp_all add: key_of_def [abs_def] data_of_def [abs_def])
  then show "ht_ok (ht_deref d h) = ht_ok h" "contents (ht_deref d h) = contents h"
    by (simp_all add: ht_ok_def contents_def bucket_index_def)
qed

subsection \<open>The contract\<close>

locale object_keys =
  fixes K :: "u8 list \<Rightarrow> bool" and hash :: "u8 list \<Rightarrow> u32" and cmp :: "u8 list \<Rightarrow> u8 list \<Rightarrow> int"
  assumes agree: "K a \<Longrightarrow> K b \<Longrightarrow> hash a = hash b \<and> cmp a b = 0 \<longleftrightarrow> a = b"
    and nonempty: "K a \<Longrightarrow> a \<noteq> []"
begin

definition ot_ok :: "'a objtable \<Rightarrow> bool" where
  "ot_ok t \<longleftrightarrow> ht_ok (plain (ot_table t)) \<and> ht_hash (ot_table t) = hash \<and> ht_key_compare (ot_table t) = cmp
     \<and> (\<forall>e \<in> set (ht_lst (ot_table t)). K (key_of (ot_table t) e) \<and> data_of (ot_table t) e = e
          \<and> 0 < ht_refs (ot_table t) e \<and> ot_objs t e \<noteq> None \<and> e < ot_fresh t)"

lemma ot_okD:
  assumes "ot_ok t"
  shows "ht_ok (plain (ot_table t))" "decides K (ot_table t)" "keys_in K (ot_table t)"
    "e \<in> set (ht_lst (ot_table t)) \<Longrightarrow> data_of (ot_table t) e = e \<and> 0 < ht_refs (ot_table t) e \<and> ot_objs t e \<noteq> None \<and> e < ot_fresh t"
  using assms agree by (auto simp: ot_ok_def decides_def keys_in_def)

lemma contents_member: "ot_ok t \<Longrightarrow> map_of (contents (ot_table t)) k = Some a \<Longrightarrow> a \<in> set (ht_lst (ot_table t)) \<and> key_of (ot_table t) a = k"
  by (auto simp: contents_def ot_okD(4) dest!: map_of_SomeD)

lemma ot_get_spec:
  assumes ok: "ot_ok t" and k: "K k"
  shows "ot_get k t = Some (map_of (contents (ot_table t)) k,
    case map_of (contents (ot_table t)) k of Some a \<Rightarrow> ot_hold a t | None \<Rightarrow> t)"
proof -
  let ?h = "ot_table t"
  have g: "hashtable_get (plain ?h) k = map_option (\<lambda>(r, h'). (r, plain h')) (hashtable_get ?h k)"
    by (rule get_plain [OF ot_okD(1-3) [OF ok] k])
  have p: "hashtable_get (plain ?h) k = Some (map_of (contents ?h) k, case map_of (contents ?h) k of Some d \<Rightarrow> ht_ref d (plain ?h) | None \<Rightarrow> plain ?h)"
    using hashtable_get_spec [OF ot_okD(1) [OF ok] nonempty [OF k]] by simp
  from g p obtain h' where h': "hashtable_get ?h k = Some (map_of (contents ?h) k, h')"
    by (cases "hashtable_get ?h k") auto
  then have "h' = (case map_of (contents ?h) k of Some d \<Rightarrow> ht_ref d ?h | None \<Rightarrow> ?h)"
    using nonempty [OF k] by (auto simp: hashtable_get_def bind_Some split: option.splits)
  with h' show ?thesis by (auto simp: ot_get_def ot_hold_def split: option.split)
qed

lemma ot_get_None: "ot_ok t \<Longrightarrow> K k \<Longrightarrow> ot_map t k = None \<Longrightarrow> ot_get k t = Some (None, t)"
  using ot_get_spec [of t k] contents_member [of t k] ot_okD(4) [of t]
  by (cases "map_of (contents (ot_table t)) k") (auto simp: ot_map_def)

lemma ot_hold_read: "0 \<le> ht_refs (ot_table t) a \<Longrightarrow> ot_read a (ot_hold a t) = ot_objs t a"
  by (simp add: ot_read_def ot_hold_def)

lemma ot_hold_deref: "0 \<le> ht_refs (ot_table t) a \<Longrightarrow> ot_objs t a \<noteq> None \<Longrightarrow> rc_deref a (ot_hold a t) = Some t"
  by (auto simp: rc_deref_def ot_hold_read) (simp add: ot_hold_def)

lemma ot_get_Some:
  assumes ok: "ot_ok t" and k: "K k" and x: "ot_map t k = Some x"
  obtains a where "ot_get k t = Some (Some a, ot_hold a t)" "ot_read a (ot_hold a t) = Some x" "rc_deref a (ot_hold a t) = Some t"
    "a \<in> set (ht_lst (ot_table t))" "key_of (ot_table t) a = k"
proof -
  from x obtain a where a: "map_of (contents (ot_table t)) k = Some a" "ot_objs t a = Some x" by (auto simp: ot_map_def bind_Some)
  have m: "a \<in> set (ht_lst (ot_table t))" "key_of (ot_table t) a = k" using contents_member [OF ok a(1)] by auto
  have r: "0 \<le> ht_refs (ot_table t) a" using ot_okD(4) [OF ok m(1)] by simp
  show thesis
    by (rule that) (use ot_get_spec [OF ok k] a m ot_hold_read [OF r] ot_hold_deref [OF r] in simp_all)
qed

lemma ot_ok_hold:
  assumes "ot_ok t"
  shows "ot_ok (ot_hold a t)" "ot_map (ot_hold a t) = ot_map t"
proof -
  let ?h = "ot_table t"
  have k: "key_of (ht_ref a ?h) = key_of ?h" "data_of (ht_ref a ?h) = data_of ?h"
    by (simp_all add: key_of_def [abs_def] data_of_def [abs_def])
  have "ht_deref a (ht_ref a (plain ?h)) = plain ?h" by simp
  then have "ht_ok (ht_ref a (plain ?h))" using ht_ok_deref(1) [of a "ht_ref a (plain ?h)"] assms by (simp add: ot_ok_def)
  with assms k show "ot_ok (ot_hold a t)" by (auto simp: ot_ok_def ot_hold_def)
  show "ot_map (ot_hold a t) = ot_map t" using k by (simp add: ot_map_def [abs_def] ot_hold_def contents_def)
qed

lemma ot_exist_spec: "ot_ok t \<Longrightarrow> K k \<Longrightarrow> ot_exist k t = Some (ot_map t k \<noteq> None)"
proof -
  assume ok: "ot_ok t" and k: "K k"
  let ?h = "ot_table t"
  have "hashtable_exist ?h k = hashtable_exist (plain ?h) k" using get_plain(2) [OF ot_okD(1-3) [OF ok] k] by simp
  also have "\<dots> = Some (map_of (contents ?h) k \<noteq> None)"
    using ot_okD(1) [OF ok]
  proof (cases rule: get_entry_spec [of _ k])
    case absent
    then show ?thesis using nonempty [OF k] map_of_contents_None [of "plain ?h" k] by (simp add: hashtable_exist_def)
  next
    case (present pos e x)
    then show ?thesis using nonempty [OF k] map_of_contents [OF ot_okD(1) [OF ok] present(4)] by (simp add: hashtable_exist_def)
  qed
  also have "(map_of (contents ?h) k \<noteq> None) = (ot_map t k \<noteq> None)"
    using contents_member [OF ok, of k] ot_okD(4) [OF ok] by (cases "map_of (contents ?h) k") (auto simp: ot_map_def)
  finally show ?thesis by (simp add: ot_exist_def)
qed

lemma ot_set_spec:
  assumes ok: "ot_ok t" and a: "a \<in> set (ht_lst (ot_table t))"
  shows "ot_ok (ot_set a x t)" "ot_map (ot_set a x t) = (ot_map t)(key_of (ot_table t) a \<mapsto> x)"
    "ot_modify a f (ot_hold a t) = Some (ot_hold a (ot_set a (f (the (ot_objs t a))) t))"
proof -
  show "ot_ok (ot_set a x t)" using ok by (auto simp: ot_ok_def ot_set_def)
  show "ot_map (ot_set a x t) = (ot_map t)(key_of (ot_table t) a \<mapsto> x)"
  proof
    fix k
    show "ot_map (ot_set a x t) k = ((ot_map t)(key_of (ot_table t) a \<mapsto> x)) k"
    proof (cases "map_of (contents (ot_table t)) k")
      case None
      moreover have "map_of (contents (ot_table t)) (key_of (ot_table t) a) = Some a"
        using map_of_contents [OF ot_okD(1) [OF ok], of a] a ot_okD(4) [OF ok a] by simp
      ultimately show ?thesis by (auto simp: ot_map_def ot_set_def)
    next
      case (Some b)
      have b: "b \<in> set (ht_lst (ot_table t))" "key_of (ot_table t) b = k" using contents_member [OF ok Some] by auto
      have "b = a \<longleftrightarrow> k = key_of (ot_table t) a"
        using key_of_inj [OF ot_okD(1) [OF ok], of b a] a b by auto
      then show ?thesis using Some by (auto simp: ot_map_def ot_set_def)
    qed
  qed
  have "0 \<le> ht_refs (ot_table t) a" "ot_objs t a \<noteq> None" using ot_okD(4) [OF ok a] by simp_all
  then show "ot_modify a f (ot_hold a t) = Some (ot_hold a (ot_set a (f (the (ot_objs t a))) t))"
    by (auto simp: ot_modify_def ot_hold_read) (simp add: ot_hold_def ot_set_def)
qed

lemma ot_update:
  assumes ok: "ot_ok t" and k: "K k" and x: "ot_map t k = Some x"
  obtains a t' where "ot_get k t = Some (Some a, ot_hold a t)" "ot_read a (ot_hold a t) = Some x"
    "ot_modify a f (ot_hold a t) = Some (ot_hold a t')" "ot_read a (ot_hold a t') = Some (f x)" "rc_deref a (ot_hold a t') = Some t'"
    "ot_ok t'" "ot_map t' = (ot_map t)(k \<mapsto> f x)"
proof -
  from ot_get_Some [OF ok k x] obtain a where a: "ot_get k t = Some (Some a, ot_hold a t)" "ot_read a (ot_hold a t) = Some x"
    "a \<in> set (ht_lst (ot_table t))" "key_of (ot_table t) a = k" by blast
  have r: "0 \<le> ht_refs (ot_table t) a" using ot_okD(4) [OF ok a(3)] by simp
  then have x': "ot_objs t a = Some x" using a(2) ot_hold_read by metis
  let ?t = "ot_set a (f x) t"
  have r': "0 \<le> ht_refs (ot_table ?t) a" "ot_objs ?t a = Some (f x)" using r by (simp_all add: ot_set_def)
  show thesis
    by (rule that [of a ?t]) (use a ot_set_spec [OF ok a(3)] x' ot_hold_read [OF r'(1)] ot_hold_deref [OF r'(1)] r'(2) in simp_all)
qed

lemma ot_remove_spec:
  assumes ok: "ot_ok t" and k: "K k"
  obtains (absent) "ot_map t k = None" "ot_remove k t = Some (None, t)"
  | (present) a x t' t'' where "ot_map t k = Some x" "ot_remove k t = Some (Some a, t')" "ot_read a t' = Some x"
      "rc_deref a t' = Some t''" "ot_ok t''" "ot_map t'' = (ot_map t)(k := None)" "t' = ot_hold a t''"
proof -
  let ?h = "ot_table t"
  from hashtable_remove_spec [OF ot_okD(1) [OF ok] nonempty [OF k]] obtain hp where
    hp: "hashtable_remove (plain ?h) k = Some (map_of (contents ?h) k, hp)" "ht_ok hp" "contents hp = AList.delete k (contents ?h)"
      "ht_refs hp = ht_refs ?h" "ht_ents hp = ht_ents ?h" "ht_lst hp = filter (\<lambda>e. key_of ?h e \<noteq> k) (ht_lst ?h)" by auto
  then obtain h' where h': "hashtable_remove ?h k = Some (map_of (contents ?h) k, h')" "plain h' = hp"
    using get_plain(3) [OF ot_okD(1-3) [OF ok] k] by (cases "hashtable_remove ?h k") auto
  show thesis
  proof (cases "map_of (contents ?h) k")
    case None
    then have "h' = ?h" using h'(1) by (auto simp: hashtable_remove_def bind_Some Let_def split: option.splits)
    with None h'(1) show thesis by (intro absent) (simp_all add: ot_map_def ot_remove_def)
  next
    case (Some a)
    have a: "a \<in> set (ht_lst ?h)" "key_of ?h a = k" using contents_member [OF ok Some] by auto
    obtain x where x: "ot_objs t a = Some x" "0 < ht_refs ?h a" using ot_okD(4) [OF ok a(1)] by auto
    have e: "ht_lst h' = filter (\<lambda>e. key_of ?h e \<noteq> k) (ht_lst ?h)" "ht_refs h' = ht_refs ?h" "ht_ents h' = ht_ents ?h"
      "contents h' = AList.delete k (contents ?h)"
      unfolding hp(3-6) [symmetric] h'(2) [symmetric] by simp_all
    have hc: "ht_hash h' = hash" "ht_key_compare h' = cmp"
      using h'(1) ok by (auto simp: ot_ok_def hashtable_remove_def bind_Some Let_def split: option.splits if_splits)
    let ?t = "t\<lparr>ot_table := h'\<rparr>" and ?t2 = "t\<lparr>ot_table := ht_deref a h'\<rparr>"
    have "key_of (ht_deref a h') = key_of ?h" "data_of (ht_deref a h') = data_of ?h"
      using e(3) by (simp_all add: key_of_def [abs_def] data_of_def [abs_def])
    moreover have "ht_ok (ht_deref a (plain h'))" using hp(2) h'(2) ht_ok_deref by simp
    ultimately have "ot_ok ?t2" using ok hc a by (auto simp: ot_ok_def e)
    moreover have "ot_map ?t2 = (ot_map t)(k := None)"
      by (rule ext) (simp add: ot_map_def ht_ok_deref e(4) AList.delete_conv')
    moreover have "ot_read a ?t = Some x" using x e(2) by (simp add: ot_read_def)
    ultimately show thesis
      using Some x h'(1) by (intro present [of x a ?t ?t2]) (simp_all add: ot_map_def ot_remove_def rc_deref_def ot_hold_def ht_ref_def ht_deref_def)
  qed
qed

text \<open>A new object under a key; it replaces the one before, which loses the table's reference.\<close>

lemma ot_put_new:
  assumes ok: "ot_ok t" and k: "K k" and len: "length (ht_lst (ot_table t)) + 1 < 2 ^ 63"
  obtains a t1 t2 t3 where "rc_alloc x t = (a, t1)" "ot_put k a t1 = Some t2" "ot_read a t2 = Some x" "rc_deref a t2 = Some t3"
    "ot_ok t3" "ot_map t3 = (ot_map t)(k \<mapsto> x)" "t2 = ot_hold a t3"
proof -
  define a where "a = ot_fresh t"
  let ?h = "ot_table t" and ?x = "\<lparr>he_key = k, he_data = a, he_hash_code = 0\<rparr>"
  let ?r = "(ht_refs ?h)(a := 1)"
  define h1 where "h1 = ?h\<lparr>ht_refs := ?r, ht_ents := (ht_ents ?h)(a \<mapsto> ?x)\<rparr>"
  have new: "a \<notin> set (ht_lst ?h)" using ot_okD(4) [OF ok] by (auto simp: a_def)
  have p1: "plain h1 = (plain ?h)\<lparr>ht_refs := ?r, ht_ents := (ht_ents ?h)(a \<mapsto> ?x)\<rparr>" by (simp add: h1_def)
  note ne = ht_ok_new_entry(1,2) [OF ot_okD(1) [OF ok], where a = a and r = ?r and x = ?x]
  have ok1: "ht_ok (plain h1)" unfolding p1 using ne(1) new by simp
  have "contents (plain h1) = contents (plain ?h)" unfolding p1 using ne(2) new by simp
  then have c1: "contents h1 = contents ?h" by simp
  have ko: "key_of h1 e = key_of ?h e" "data_of h1 e = data_of ?h e" if "e \<noteq> a" for e
    using that by (simp_all add: h1_def key_of_def data_of_def)
  have e1: "ht_ents (plain h1) a = Some ?x" "a \<notin> set (ht_lst (plain h1))" "length (ht_lst (plain h1)) + 1 < 2 ^ 63"
    "ht_ents h1 a = Some ?x" "ht_lst h1 = ht_lst ?h" "ht_refs h1 = ?r" "ht_hash h1 = ht_hash ?h" "ht_key_compare h1 = ht_key_compare ?h"
    using new len by (simp_all add: h1_def)
  have ki: "keys_in K h1" "decides K h1"
    using ot_okD(2,3) [OF ok] ko(1) new e1 unfolding keys_in_def decides_def by (metis, metis)
  from hashtable_put_spec [OF ok1 e1(1) _ e1(2,3)] nonempty [OF k] obtain hp where
    hp: "hashtable_put (plain h1) a = Some (a, hp)" "ht_ok hp" "contents hp = AList.update k a (contents h1)"
      "ht_refs hp = put_refs (plain h1) k a" by auto
  then obtain h2 where h2: "hashtable_put h1 a = Some (a, h2)" "plain h2 = hp"
    using put_plain [OF ok1 ki(2,1) e1(4)] k by (cases "hashtable_put h1 a") auto
  note fr = put_frame [OF h2(1) e1(4)]
  have c2: "contents h2 = AList.update k a (contents ?h)" "ht_refs h2 = put_refs (plain h1) k a"
    unfolding c1 [symmetric] hp(3,4) [symmetric] h2(2) [symmetric] by simp_all
  have mem: "e = a \<or> e \<in> set (ht_lst ?h) \<and> key_of ?h e \<noteq> k" if "e \<in> set (ht_lst h2)" for e
  proof (rule disjCI)
    assume no: "\<not> (e \<in> set (ht_lst ?h) \<and> key_of ?h e \<noteq> k)"
    have ea: "e = a \<or> e \<in> set (ht_lst ?h)" using fr(1) that e1(5) by auto
    show "e = a"
    proof (cases "e = a")
      case False
      then have "key_of h2 e = k" using ea no fr(4) [of e] ko(1) [of e] by (simp add: key_of_def)
      then have "map_of (contents h2) k = Some (data_of h2 e)" using map_of_contents [OF hp(2)] that h2(2) by (metis plain_simps(6,11-13))
      then have "data_of h2 e = a" using c2(1) by (simp add: AList.update_conv')
      moreover have "data_of h2 e = data_of ?h e" using False fr(4) [of e] ko(2) [of e] by (simp add: data_of_def)
      ultimately show ?thesis using ea ot_okD(4) [OF ok, of e] by auto
    qed simp
  qed
  have old: "map_of (contents ?h) k = Some b \<Longrightarrow> key_of ?h b = k \<and> b \<noteq> a" for b
    using contents_member [OF ok] new by blast
  have ra: "ht_refs h2 a = 2" using old by (auto simp: c2(2) put_refs_def c1 e1(6) Let_def split: option.split)
  have re: "ht_refs h2 e = ht_refs ?h e" if "e \<noteq> a" "key_of ?h e \<noteq> k" for e
    using that old by (auto simp: c2(2) put_refs_def c1 e1(6) Let_def split: option.split)
  let ?t1 = "t\<lparr>ot_table := ?h\<lparr>ht_refs := ?r\<rparr>, ot_objs := (ot_objs t)(a \<mapsto> x), ot_fresh := a + 1\<rparr>"
  let ?t2 = "?t1\<lparr>ot_table := h2\<rparr>" and ?t3 = "?t1\<lparr>ot_table := ht_deref a h2\<rparr>"
  have 1: "rc_alloc x t = (a, ?t1)" by (simp add: rc_alloc_def a_def Let_def)
  have "?h\<lparr>ht_refs := ?r\<rparr>\<lparr>ht_ents := (ht_ents (?h\<lparr>ht_refs := ?r\<rparr>))(a \<mapsto> ?x)\<rparr> = h1" by (simp add: h1_def)
  then have 2: "ot_put k a ?t1 = Some ?t2" using h2(1) by (simp add: ot_put_def ot_read_def)
  have 3: "ot_read a ?t2 = Some x" using ra by (simp add: ot_read_def)
  have 4: "rc_deref a ?t2 = Some ?t3" using 3 by (simp add: rc_deref_def)
  have kd: "key_of (ht_deref a h2) = key_of h2" "data_of (ht_deref a h2) = data_of h2"
    by (simp_all add: key_of_def [abs_def] data_of_def [abs_def])
  have kd2: "key_of h2 e = key_of ?h e" "data_of h2 e = data_of ?h e" if "e \<noteq> a" for e
    using that fr(4) [of e] ko [of e] by (simp_all add: key_of_def data_of_def)
  have el: "K (key_of h2 e) \<and> data_of h2 e = e \<and> 0 < ht_refs (ht_deref a h2) e \<and> ((ot_objs t)(a \<mapsto> x)) e \<noteq> None \<and> e < a + 1"
    if "e \<in> set (ht_lst h2)" for e
  proof (cases "e = a")
    case True
    then show ?thesis using fr(5,6) k ra by simp
  next
    case False
    then have m: "e \<in> set (ht_lst ?h)" "key_of ?h e \<noteq> k" using mem [OF that] by auto
    have "K (key_of ?h e)" using ot_okD(3) [OF ok] m(1) by (simp add: keys_in_def)
    then show ?thesis using ot_okD(4) [OF ok m(1)] kd2 [OF False] re [OF False m(2)] False by (simp add: a_def)
  qed
  have "ht_ok (ht_deref a (plain h2))" using hp(2) h2(2) ht_ok_deref by simp
  then have 5: "ot_ok ?t3" using el fr(2,3) e1(7,8) ok by (simp add: ot_ok_def kd)
  have 6: "ot_map ?t3 = (ot_map t)(k \<mapsto> x)"
  proof
    fix j
    have "map_of (contents ?h) j = Some b \<Longrightarrow> b \<noteq> a" for b using contents_member [OF ok] new by blast
    then show "ot_map ?t3 j = ((ot_map t)(k \<mapsto> x)) j"
      by (cases "map_of (contents ?h) j") (auto simp: ot_map_def ht_ok_deref c2(1) AList.update_conv')
  qed
  have 7: "?t2 = ot_hold a ?t3" by (simp add: ot_hold_def ht_ref_def ht_deref_def)
  show thesis by (rule that [OF 1 2 3 4 5 6 7])
qed

text \<open>An object that is given up before it is put into the table leaves no trace.\<close>

lemma ot_alloc_free:
  assumes ok: "ot_ok t" and a: "rc_alloc x t = (a, t1)"
  obtains t2 where "rc_deref a t1 = Some t2" "ot_ok t2" "ot_map t2 = ot_map t"
proof -
  let ?h = "ot_table t" and ?f = "ot_fresh t"
  let ?t2 = "t\<lparr>ot_table := ?h\<lparr>ht_refs := (ht_refs ?h)(?f := 0)\<rparr>, ot_objs := (ot_objs t)(?f \<mapsto> x), ot_fresh := ?f + 1\<rparr>"
  have a': "a = ?f" "t1 = t\<lparr>ot_table := ?h\<lparr>ht_refs := (ht_refs ?h)(?f := 1)\<rparr>, ot_objs := (ot_objs t)(?f \<mapsto> x), ot_fresh := ?f + 1\<rparr>"
    using a by (auto simp: rc_alloc_def Let_def)
  have d: "rc_deref a t1 = Some ?t2" by (simp add: a' rc_deref_def ot_read_def ht_deref_def)
  have new: "?f \<notin> set (ht_lst ?h)" using ot_okD(4) [OF ok] by auto
  have k: "key_of (?h\<lparr>ht_refs := r\<rparr>) = key_of ?h" "data_of (?h\<lparr>ht_refs := r\<rparr>) = data_of ?h" for r
    by (simp_all add: key_of_def [abs_def] data_of_def [abs_def])
  have "ht_ok ((plain ?h)\<lparr>ht_refs := r\<rparr>) = ht_ok (plain ?h)" for r
  proof -
    have "key_of ((plain ?h)\<lparr>ht_refs := r\<rparr>) = key_of (plain ?h)" by (simp add: key_of_def [abs_def])
    then show ?thesis by (simp add: ht_ok_def bucket_index_def)
  qed
  then have "ot_ok ?t2" using ok k new by (auto simp: ot_ok_def)
  moreover have "ot_map ?t2 = ot_map t"
  proof
    fix q
    have c: "contents (ot_table ?t2) = contents ?h" by (simp add: contents_def k)
    show "ot_map ?t2 q = ot_map t q"
    proof (cases "map_of (contents ?h) q")
      case None
      then show ?thesis unfolding ot_map_def c by simp
    next
      case (Some b)
      then have "b \<noteq> ?f" using contents_member [OF ok Some] new by blast
      then show ?thesis unfolding ot_map_def c by (simp add: Some)
    qed
  qed
  ultimately show thesis by (rule that [OF d])
qed

lemma ot_create_spec:
  assumes "hash = (case hc of Some f \<Rightarrow> f | None \<Rightarrow> default_hash_code)" and "cmp = (case kc of Some f \<Rightarrow> f | None \<Rightarrow> default_key_compare)"
  shows "ot_ok (ot_create cap hc kc :: 'a objtable)" "ot_map (ot_create cap hc kc :: 'a objtable) = Map.empty"
    "ot_list (ot_create cap hc kc :: 'a objtable) = []"
proof -
  let ?h = "ot_table (ot_create cap hc kc :: 'a objtable)"
  have h: "ht_hash ?h = hash" "ht_key_compare ?h = cmp" "ht_lst ?h = []"
    unfolding assms by (simp_all add: ot_create_def hashtable_create_def Let_def)
  have "ht_ok (plain ?h)"
    using default_key_compare_ok by (simp add: ht_ok_def ot_create_def hashtable_create_def Let_def)
  with h show "ot_ok (ot_create cap hc kc :: 'a objtable)" by (simp add: ot_ok_def)
  show "ot_map (ot_create cap hc kc :: 'a objtable) = Map.empty" "ot_list (ot_create cap hc kc :: 'a objtable) = []"
    using h(3) by (simp_all add: ot_map_def [abs_def] contents_def ot_list_def)
qed

lemma ot_loop_spec:
  assumes ok: "ot_ok t" and "ht_lst (ot_table t) = as @ bs" and "hit_next it = lst_first bs"
    and "hit_expected_mod_count it = ht_mod_count (ot_table t)"
    and "walk body (map (\<lambda>e. the (ot_objs t e)) bs) s = Some (go, s')" and "go \<noteq> Break"
  shows "ot_loop body it t s = Some ((go, s'), t)"
  using assms(2-)
proof (induction bs arbitrary: as it s)
  case Nil
  then show ?case by (subst ot_loop.simps) (simp add: hashtable_iterator_has_next_def lst_first_def)
next
  case (Cons e bs)
  let ?h = "ot_table t"
  have e: "e \<in> set (ht_lst ?h)" using Cons.prems(1) by simp
  obtain x where x: "ht_ents ?h e = Some x" using ht_okD(8) [OF ot_okD(1) [OF ok], of e] e by auto
  obtain y where y: "ot_objs t e = Some y" "0 \<le> ht_refs ?h e" using ot_okD(4) [OF ok e] by auto
  have d: "he_data x = e" using ot_okD(4) [OF ok e] x by (simp add: data_of_def)
  let ?it = "it\<lparr>hit_current := Some e, hit_next := lst_first bs\<rparr>"
  have "lst_succ (ht_lst ?h) e = lst_first bs"
    using Cons.prems(1) ht_okD(4) [OF ot_okD(1) [OF ok]] by (simp add: lst_succ_append)
  then have "hashtable_iterator_next it ?h = Some (1, Some (he_key x, e), ?it, ht_ref e ?h)"
    using Cons.prems(2,3) x d by (simp add: hashtable_iterator_next_def lst_first_def)
  moreover have "hashtable_iterator_has_next it" using Cons.prems(2) by (simp add: hashtable_iterator_has_next_def lst_first_def)
  moreover from Cons.prems(4) y(1) obtain g1 s1 where g1: "body y s = Some (g1, s1)"
    "if g1 = Next then walk body (map (\<lambda>e. the (ot_objs t e)) bs) s1 = Some (go, s') else go = g1 \<and> s' = s1"
    by (auto simp: bind_Some split: if_splits)
  moreover have "ot_loop body ?it t s1 = Some ((go, s'), t)" if "g1 = Next"
    using Cons.IH [of "as @ [e]" ?it s1] Cons.prems g1(2) that by simp
  moreover have "t\<lparr>ot_table := ht_ref e ?h\<rparr> = ot_hold e t" by (simp add: ot_hold_def)
  ultimately show ?case
    using Cons.prems(5)
    by (subst ot_loop.simps) (cases g1; simp add: ot_hold_read [OF y(2)] ot_hold_deref [OF y(2)] y(1))
qed

lemma ot_iterate_spec:
  "ot_ok t \<Longrightarrow> walk body (ot_list t) s = Some (go, s') \<Longrightarrow> go \<noteq> Break \<Longrightarrow> ot_iterate body t s = Some ((go, s'), t)"
  using ot_loop_spec [of t "[]" "ht_lst (ot_table t)" "hashtable_iterate (ot_table t)" body s go s']
  by (simp add: ot_iterate_def ot_list_def hashtable_iterate_def)

lemma ot_list_map:
  assumes ok: "ot_ok t"
  shows "ot_map t = map_of (zip (map (key_of (ot_table t)) (ht_lst (ot_table t))) (ot_list t))"
proof
  fix k
  let ?h = "ot_table t"
  have "map_of (contents ?h) k = map_of (map (\<lambda>e. (key_of ?h e, e)) (ht_lst ?h)) k"
    using ot_okD(4) [OF ok] by (simp add: contents_def cong: map_cong)
  moreover have "map_of (map (\<lambda>e. (key_of ?h e, the (ot_objs t e))) es) k
      = Option.bind (map_of (map (\<lambda>e. (key_of ?h e, e)) es) k) (ot_objs t)" if "set es \<subseteq> set (ht_lst ?h)" for es
    using that ot_okD(4) [OF ok] by (induction es) auto
  ultimately show "ot_map t k = map_of (zip (map (key_of ?h) (ht_lst ?h)) (ot_list t)) k"
    by (simp add: ot_map_def ot_list_def zip_map_map zip_same_conv_map comp_def)
qed

end

end
