(* ===== verification/Packets.thy ===== *)
theory Packets
  imports Errors
begin

text \<open>
  The packets that carriers exchange, from \<^verbatim>\<open>src/carrier/IOEXcp.c\<close>. A packet is the header's extension name and one
  of five structures; the field \<^verbatim>\<open>type\<close> of the header, by which the code casts, is the constructor. A pointer that may
  be NULL is an option; data are kept with their length. The serialization is done by code that flatcc generates from
  \<^verbatim>\<open>IOEXcp.fbs\<close>: it is a pair of parameters between the tables of that schema and bytes, and the model is what
  \<^verbatim>\<open>IOEXcp.c\<close> puts into the tables and takes out of them.
\<close>

subsection \<open>Data\<close>

type_synonym tid = u64

definition IOEXCP_TYPE_USERINFO :: u8 where "IOEXCP_TYPE_USERINFO = 3"
definition IOEXCP_TYPE_FRIEND_REQUEST :: u8 where "IOEXCP_TYPE_FRIEND_REQUEST = 6"
definition IOEXCP_TYPE_MESSAGE :: u8 where "IOEXCP_TYPE_MESSAGE = 33"
definition IOEXCP_TYPE_INVITE_REQUEST :: u8 where "IOEXCP_TYPE_INVITE_REQUEST = 34"
definition IOEXCP_TYPE_INVITE_RESPONSE :: u8 where "IOEXCP_TYPE_INVITE_RESPONSE = 35"

lemmas cp_types = IOEXCP_TYPE_USERINFO_def IOEXCP_TYPE_FRIEND_REQUEST_def IOEXCP_TYPE_MESSAGE_def
  IOEXCP_TYPE_INVITE_REQUEST_def IOEXCP_TYPE_INVITE_RESPONSE_def

record IOEXCPUserInfo =
  info_has_avatar :: bool
  info_name :: "cstring option"
  info_descr :: "cstring option"
  info_phone :: "cstring option"
  info_gender :: "cstring option"
  info_email :: "cstring option"
  info_region :: "cstring option"

record IOEXCPFriendReq =
  freq_name :: "cstring option"
  freq_descr :: "cstring option"
  freq_hello :: "cstring option"

record IOEXCPFriendMsg =
  fmsg_msg :: "u8 list option"

record IOEXCPInviteReq =
  ireq_tid :: tid
  ireq_data :: "u8 list option"

record IOEXCPInviteRsp =
  irsp_tid :: tid
  irsp_status :: int
  irsp_reason :: "cstring option"
  irsp_data :: "u8 list option"

datatype IOEXcp_packet_t =
    pkt_info IOEXCPUserInfo
  | pkt_freq IOEXCPFriendReq
  | pkt_fmsg IOEXCPFriendMsg
  | pkt_ireq IOEXCPInviteReq
  | pkt_irsp IOEXCPInviteRsp

record IOEXCP =
  cp_ext :: "cstring option"
  cp_pkt :: IOEXcp_packet_t

subsection \<open>Creation and access\<close>

definition IOEXcp_create :: "u8 \<Rightarrow> cstring option \<Rightarrow> IOEXCP option" where
  "IOEXcp_create type ext_name =
     do {
       p \<leftarrow> (if type = IOEXCP_TYPE_USERINFO then
               Some (pkt_info \<lparr>info_has_avatar = False, info_name = None, info_descr = None, info_phone = None,
                 info_gender = None, info_email = None, info_region = None\<rparr>)
             else if type = IOEXCP_TYPE_FRIEND_REQUEST then Some (pkt_freq \<lparr>freq_name = None, freq_descr = None, freq_hello = None\<rparr>)
             else if type = IOEXCP_TYPE_MESSAGE then Some (pkt_fmsg \<lparr>fmsg_msg = None\<rparr>)
             else if type = IOEXCP_TYPE_INVITE_REQUEST then Some (pkt_ireq \<lparr>ireq_tid = 0, ireq_data = None\<rparr>)
             else if type = IOEXCP_TYPE_INVITE_RESPONSE then
               Some (pkt_irsp \<lparr>irsp_tid = 0, irsp_status = 0, irsp_reason = None, irsp_data = None\<rparr>)
             else None);
       Some \<lparr>cp_ext = ext_name, cp_pkt = p\<rparr>
     }"

definition IOEXcp_get_type :: "IOEXCP \<Rightarrow> u8" where
  "IOEXcp_get_type cp =
     (case cp_pkt cp of
        pkt_info _ \<Rightarrow> IOEXCP_TYPE_USERINFO
      | pkt_freq _ \<Rightarrow> IOEXCP_TYPE_FRIEND_REQUEST
      | pkt_fmsg _ \<Rightarrow> IOEXCP_TYPE_MESSAGE
      | pkt_ireq _ \<Rightarrow> IOEXCP_TYPE_INVITE_REQUEST
      | pkt_irsp _ \<Rightarrow> IOEXCP_TYPE_INVITE_RESPONSE)"

definition IOEXcp_get_extension :: "IOEXCP \<Rightarrow> cstring option" where
  "IOEXcp_get_extension cp = cp_ext cp"

definition IOEXcp_get_name :: "IOEXCP \<Rightarrow> cstring option option" where
  "IOEXcp_get_name cp = (case cp_pkt cp of pkt_info p \<Rightarrow> Some (info_name p) | pkt_freq p \<Rightarrow> Some (freq_name p) | _ \<Rightarrow> None)"

definition IOEXcp_get_descr :: "IOEXCP \<Rightarrow> cstring option option" where
  "IOEXcp_get_descr cp = (case cp_pkt cp of pkt_info p \<Rightarrow> Some (info_descr p) | pkt_freq p \<Rightarrow> Some (freq_descr p) | _ \<Rightarrow> None)"

definition IOEXcp_get_gender :: "IOEXCP \<Rightarrow> cstring option option" where
  "IOEXcp_get_gender cp = (case cp_pkt cp of pkt_info p \<Rightarrow> Some (info_gender p) | _ \<Rightarrow> None)"

definition IOEXcp_get_phone :: "IOEXCP \<Rightarrow> cstring option option" where
  "IOEXcp_get_phone cp = (case cp_pkt cp of pkt_info p \<Rightarrow> Some (info_phone p) | _ \<Rightarrow> None)"

definition IOEXcp_get_email :: "IOEXCP \<Rightarrow> cstring option option" where
  "IOEXcp_get_email cp = (case cp_pkt cp of pkt_info p \<Rightarrow> Some (info_email p) | _ \<Rightarrow> None)"

definition IOEXcp_get_region :: "IOEXCP \<Rightarrow> cstring option option" where
  "IOEXcp_get_region cp = (case cp_pkt cp of pkt_info p \<Rightarrow> Some (info_region p) | _ \<Rightarrow> None)"

definition IOEXcp_get_has_avatar :: "IOEXCP \<Rightarrow> bool option" where
  "IOEXcp_get_has_avatar cp = (case cp_pkt cp of pkt_info p \<Rightarrow> Some (info_has_avatar p) | _ \<Rightarrow> None)"

definition IOEXcp_get_hello :: "IOEXCP \<Rightarrow> cstring option option" where
  "IOEXcp_get_hello cp = (case cp_pkt cp of pkt_freq p \<Rightarrow> Some (freq_hello p) | _ \<Rightarrow> None)"

definition IOEXcp_get_tid :: "IOEXCP \<Rightarrow> tid option" where
  "IOEXcp_get_tid cp = (case cp_pkt cp of pkt_ireq p \<Rightarrow> Some (ireq_tid p) | pkt_irsp p \<Rightarrow> Some (irsp_tid p) | _ \<Rightarrow> None)"

definition IOEXcp_get_status :: "IOEXCP \<Rightarrow> int option" where
  "IOEXcp_get_status cp = (case cp_pkt cp of pkt_irsp p \<Rightarrow> Some (irsp_status p) | _ \<Rightarrow> None)"

definition IOEXcp_get_raw_data :: "IOEXCP \<Rightarrow> u8 list option option" where
  "IOEXcp_get_raw_data cp =
     (case cp_pkt cp of pkt_fmsg p \<Rightarrow> Some (fmsg_msg p) | pkt_ireq p \<Rightarrow> Some (ireq_data p) | pkt_irsp p \<Rightarrow> Some (irsp_data p) | _ \<Rightarrow> None)"

definition data_len :: "u8 list option \<Rightarrow> nat" where
  "data_len d = (case d of None \<Rightarrow> 0 | Some bs \<Rightarrow> length bs)"

definition IOEXcp_get_raw_data_length :: "IOEXCP \<Rightarrow> nat option" where
  "IOEXcp_get_raw_data_length cp =
     (case cp_pkt cp of pkt_fmsg p \<Rightarrow> Some (data_len (fmsg_msg p)) | pkt_ireq p \<Rightarrow> Some (data_len (ireq_data p))
      | pkt_irsp p \<Rightarrow> Some (data_len (irsp_data p)) | _ \<Rightarrow> None)"

definition IOEXcp_get_reason :: "IOEXCP \<Rightarrow> cstring option option" where
  "IOEXcp_get_reason cp = (case cp_pkt cp of pkt_irsp p \<Rightarrow> Some (irsp_reason p) | _ \<Rightarrow> None)"

subsection \<open>Filling in\<close>

definition cp_set :: "IOEXcp_packet_t \<Rightarrow> IOEXCP \<Rightarrow> IOEXCP" where
  "cp_set p cp = cp\<lparr>cp_pkt := p\<rparr>"

definition IOEXcp_set_name :: "cstring \<Rightarrow> IOEXCP \<Rightarrow> IOEXCP option" where
  "IOEXcp_set_name s cp = (case cp_pkt cp of pkt_info p \<Rightarrow> Some (cp_set (pkt_info (p\<lparr>info_name := Some s\<rparr>)) cp)
     | pkt_freq p \<Rightarrow> Some (cp_set (pkt_freq (p\<lparr>freq_name := Some s\<rparr>)) cp) | _ \<Rightarrow> None)"

definition IOEXcp_set_descr :: "cstring \<Rightarrow> IOEXCP \<Rightarrow> IOEXCP option" where
  "IOEXcp_set_descr s cp = (case cp_pkt cp of pkt_info p \<Rightarrow> Some (cp_set (pkt_info (p\<lparr>info_descr := Some s\<rparr>)) cp)
     | pkt_freq p \<Rightarrow> Some (cp_set (pkt_freq (p\<lparr>freq_descr := Some s\<rparr>)) cp) | _ \<Rightarrow> None)"

definition IOEXcp_set_gender :: "cstring \<Rightarrow> IOEXCP \<Rightarrow> IOEXCP option" where
  "IOEXcp_set_gender s cp = (case cp_pkt cp of pkt_info p \<Rightarrow> Some (cp_set (pkt_info (p\<lparr>info_gender := Some s\<rparr>)) cp) | _ \<Rightarrow> None)"

definition IOEXcp_set_phone :: "cstring \<Rightarrow> IOEXCP \<Rightarrow> IOEXCP option" where
  "IOEXcp_set_phone s cp = (case cp_pkt cp of pkt_info p \<Rightarrow> Some (cp_set (pkt_info (p\<lparr>info_phone := Some s\<rparr>)) cp) | _ \<Rightarrow> None)"

definition IOEXcp_set_email :: "cstring \<Rightarrow> IOEXCP \<Rightarrow> IOEXCP option" where
  "IOEXcp_set_email s cp = (case cp_pkt cp of pkt_info p \<Rightarrow> Some (cp_set (pkt_info (p\<lparr>info_email := Some s\<rparr>)) cp) | _ \<Rightarrow> None)"

definition IOEXcp_set_region :: "cstring \<Rightarrow> IOEXCP \<Rightarrow> IOEXCP option" where
  "IOEXcp_set_region s cp = (case cp_pkt cp of pkt_info p \<Rightarrow> Some (cp_set (pkt_info (p\<lparr>info_region := Some s\<rparr>)) cp) | _ \<Rightarrow> None)"

definition IOEXcp_set_has_avatar :: "bool \<Rightarrow> IOEXCP \<Rightarrow> IOEXCP option" where
  "IOEXcp_set_has_avatar b cp = (case cp_pkt cp of pkt_info p \<Rightarrow> Some (cp_set (pkt_info (p\<lparr>info_has_avatar := b\<rparr>)) cp) | _ \<Rightarrow> None)"

definition IOEXcp_set_hello :: "cstring \<Rightarrow> IOEXCP \<Rightarrow> IOEXCP option" where
  "IOEXcp_set_hello s cp = (case cp_pkt cp of pkt_freq p \<Rightarrow> Some (cp_set (pkt_freq (p\<lparr>freq_hello := Some s\<rparr>)) cp) | _ \<Rightarrow> None)"

definition IOEXcp_set_tid :: "tid \<Rightarrow> IOEXCP \<Rightarrow> IOEXCP option" where
  "IOEXcp_set_tid t cp = (case cp_pkt cp of pkt_ireq p \<Rightarrow> Some (cp_set (pkt_ireq (p\<lparr>ireq_tid := t\<rparr>)) cp)
     | pkt_irsp p \<Rightarrow> Some (cp_set (pkt_irsp (p\<lparr>irsp_tid := t\<rparr>)) cp) | _ \<Rightarrow> None)"

definition IOEXcp_set_status :: "int \<Rightarrow> IOEXCP \<Rightarrow> IOEXCP option" where
  "IOEXcp_set_status st cp = (case cp_pkt cp of pkt_irsp p \<Rightarrow> Some (cp_set (pkt_irsp (p\<lparr>irsp_status := st\<rparr>)) cp) | _ \<Rightarrow> None)"

definition IOEXcp_set_raw_data :: "u8 list \<Rightarrow> IOEXCP \<Rightarrow> IOEXCP option" where
  "IOEXcp_set_raw_data d cp =
     do {
       c_assert (d \<noteq> []);
       case cp_pkt cp of
         pkt_fmsg p \<Rightarrow> Some (cp_set (pkt_fmsg (p\<lparr>fmsg_msg := Some d\<rparr>)) cp)
       | pkt_ireq p \<Rightarrow> Some (cp_set (pkt_ireq (p\<lparr>ireq_data := Some d\<rparr>)) cp)
       | pkt_irsp p \<Rightarrow> Some (cp_set (pkt_irsp (p\<lparr>irsp_data := Some d\<rparr>)) cp)
       | _ \<Rightarrow> None
     }"

definition IOEXcp_set_reason :: "cstring \<Rightarrow> IOEXCP \<Rightarrow> IOEXCP option" where
  "IOEXcp_set_reason s cp = (case cp_pkt cp of pkt_irsp p \<Rightarrow> Some (cp_set (pkt_irsp (p\<lparr>irsp_reason := Some s\<rparr>)) cp) | _ \<Rightarrow> None)"

subsection \<open>Encoding and decoding\<close>

text \<open>
  The tables of the schema. A string or vector that was not added is absent. The extension name is added to
  invitations through the accessor of the table of messages; it is the first field of all three, so that the
  accessor addresses the right slot.
\<close>

datatype anybody =
    Userinfo bool "cstring option" "cstring option" "cstring option" "cstring option" "cstring option" "cstring option"
  | Friendreq "cstring option" "cstring option" "cstring option"
  | Friendmsg "cstring option" "u8 list option"
  | Invitereq "cstring option" tid "u8 list option"
  | Invitersp "cstring option" tid int "cstring option" "u8 list option"

type_synonym fb_write = "u8 \<times> anybody \<Rightarrow> u8 list option"
type_synonym fb_read = "u8 list \<Rightarrow> (u8 \<times> anybody option) option"

text \<open>A string made from NULL is undefined, a vector from NULL of length 0 is empty.\<close>

definition vec_create :: "u8 list option \<Rightarrow> u8 list option" where
  "vec_create d = (case d of None \<Rightarrow> Some [] | Some bs \<Rightarrow> Some bs)"

definition encode_body :: "IOEXCP \<Rightarrow> anybody option" where
  "encode_body cp =
     (case cp_pkt cp of
        pkt_info p \<Rightarrow> do {
          descr \<leftarrow> info_descr p; gender \<leftarrow> info_gender p; phone \<leftarrow> info_phone p; email \<leftarrow> info_email p; region \<leftarrow> info_region p;
          Some (Userinfo (info_has_avatar p) (info_name p) (Some descr) (Some phone) (Some gender) (Some email) (Some region))
        }
      | pkt_freq p \<Rightarrow> do {
          name \<leftarrow> freq_name p; descr \<leftarrow> freq_descr p; hello \<leftarrow> freq_hello p;
          Some (Friendreq (Some name) (Some descr) (Some hello))
        }
      | pkt_fmsg p \<Rightarrow> Some (Friendmsg (cp_ext cp) (vec_create (fmsg_msg p)))
      | pkt_ireq p \<Rightarrow> Some (Invitereq (cp_ext cp) (ireq_tid p) (vec_create (ireq_data p)))
      | pkt_irsp p \<Rightarrow>
          if irsp_status p \<noteq> 0 then do {
            reason \<leftarrow> irsp_reason p;
            Some (Invitersp (cp_ext cp) (irsp_tid p) (irsp_status p) (Some reason) None)
          }
          else Some (Invitersp (cp_ext cp) (irsp_tid p) (irsp_status p) None (vec_create (irsp_data p))))"

text \<open>The result is the encoded data or NULL, when the builder fails.\<close>

definition IOEXcp_encode :: "fb_write \<Rightarrow> IOEXCP \<Rightarrow> u8 list option option" where
  "IOEXcp_encode fbw cp = do { body \<leftarrow> encode_body cp; Some (fbw (IOEXcp_get_type cp, body)) }"

text \<open>
  The body is read as the table that the field \<^verbatim>\<open>type\<close> announces, whatever table it is: if they do not agree, the
  behaviour is undefined.
\<close>

definition decode_body :: "anybody \<Rightarrow> IOEXCP \<Rightarrow> IOEXCP option" where
  "decode_body body cp =
     (case (cp_pkt cp, body) of
        (pkt_info p, Userinfo avatar name descr phone gender email region) \<Rightarrow>
          Some (cp_set (pkt_info \<lparr>info_has_avatar = avatar, info_name = name, info_descr = descr, info_phone = phone,
            info_gender = gender, info_email = email, info_region = region\<rparr>) cp)
      | (pkt_freq p, Friendreq name descr hello) \<Rightarrow>
          Some (cp_set (pkt_freq \<lparr>freq_name = name, freq_descr = descr, freq_hello = hello\<rparr>) cp)
      | (pkt_fmsg p, Friendmsg ext msg) \<Rightarrow> Some (cp_set (pkt_fmsg \<lparr>fmsg_msg = msg\<rparr>) cp\<lparr>cp_ext := ext\<rparr>)
      | (pkt_ireq p, Invitereq ext tid d) \<Rightarrow> Some (cp_set (pkt_ireq \<lparr>ireq_tid = tid, ireq_data = d\<rparr>) cp\<lparr>cp_ext := ext\<rparr>)
      | (pkt_irsp p, Invitersp ext tid status reason d) \<Rightarrow>
          Some (cp_set (pkt_irsp (if status \<noteq> 0
              then \<lparr>irsp_tid = tid, irsp_status = status, irsp_reason = reason, irsp_data = None\<rparr>
              else \<lparr>irsp_tid = tid, irsp_status = status, irsp_reason = None, irsp_data = d\<rparr>)) cp\<lparr>cp_ext := ext\<rparr>)
      | _ \<Rightarrow> None)"

definition IOEXcp_decode :: "fb_read \<Rightarrow> u8 list \<Rightarrow> IOEXCP option option" where
  "IOEXcp_decode fbr data =
     (case fbr data of
        None \<Rightarrow> Some None
      | Some (type, body) \<Rightarrow>
          if type \<in> {IOEXCP_TYPE_USERINFO, IOEXCP_TYPE_FRIEND_REQUEST, IOEXCP_TYPE_MESSAGE, IOEXCP_TYPE_INVITE_REQUEST, IOEXCP_TYPE_INVITE_RESPONSE}
          then do {
            cp \<leftarrow> IOEXcp_create type None;
            case body of None \<Rightarrow> Some None | Some b \<Rightarrow> do { cp1 \<leftarrow> decode_body b cp; Some (Some cp1) }
          }
          else Some None)"

lemmas cp_get = IOEXcp_get_type_def IOEXcp_get_extension_def IOEXcp_get_name_def IOEXcp_get_descr_def IOEXcp_get_gender_def
  IOEXcp_get_phone_def IOEXcp_get_email_def IOEXcp_get_region_def IOEXcp_get_has_avatar_def IOEXcp_get_hello_def IOEXcp_get_tid_def
  IOEXcp_get_status_def IOEXcp_get_raw_data_def IOEXcp_get_raw_data_length_def IOEXcp_get_reason_def

lemmas cp_put = IOEXcp_create_def IOEXcp_set_name_def IOEXcp_set_descr_def IOEXcp_set_gender_def IOEXcp_set_phone_def
  IOEXcp_set_email_def IOEXcp_set_region_def IOEXcp_set_has_avatar_def IOEXcp_set_hello_def IOEXcp_set_tid_def IOEXcp_set_status_def
  IOEXcp_set_raw_data_def IOEXcp_set_reason_def cp_set_def cp_types

subsection \<open>The round trip\<close>

text \<open>What flatcc promises: a buffer that was built is read back as the tables it was built from.\<close>

definition flatcc_law :: "fb_write \<Rightarrow> fb_read \<Rightarrow> bool" where
  "flatcc_law fbw fbr \<longleftrightarrow> (\<forall>type body bytes. fbw (type, body) = Some bytes \<longrightarrow> fbr bytes = Some (type, Some body))"

text \<open>Packets whose fields are all set, and whose response carries either a reason or data.\<close>

definition cp_complete :: "IOEXCP \<Rightarrow> bool" where
  "cp_complete cp \<longleftrightarrow>
     (case cp_pkt cp of
        pkt_info p \<Rightarrow> cp_ext cp = None \<and> info_descr p \<noteq> None \<and> info_gender p \<noteq> None \<and> info_phone p \<noteq> None
          \<and> info_email p \<noteq> None \<and> info_region p \<noteq> None
      | pkt_freq p \<Rightarrow> cp_ext cp = None \<and> freq_name p \<noteq> None \<and> freq_descr p \<noteq> None \<and> freq_hello p \<noteq> None
      | pkt_fmsg p \<Rightarrow> fmsg_msg p \<noteq> None
      | pkt_ireq p \<Rightarrow> ireq_data p \<noteq> None
      | pkt_irsp p \<Rightarrow> if irsp_status p \<noteq> 0 then irsp_reason p \<noteq> None \<and> irsp_data p = None
                       else irsp_data p \<noteq> None \<and> irsp_reason p = None)"

lemma encode_complete: "cp_complete cp \<Longrightarrow> \<exists>body. IOEXcp_encode fbw cp = Some (fbw (IOEXcp_get_type cp, body))"
  by (auto simp: cp_complete_def IOEXcp_encode_def encode_body_def split: IOEXcp_packet_t.splits if_splits)

lemma decode_encode_body:
  "cp_complete cp \<Longrightarrow> encode_body cp = Some body \<Longrightarrow> \<exists>cp0. IOEXcp_create (IOEXcp_get_type cp) None = Some cp0 \<and> decode_body body cp0 = Some cp"
  by (auto simp: cp_complete_def encode_body_def decode_body_def cp_put IOEXcp_get_type_def vec_create_def bind_Some
    split: IOEXcp_packet_t.splits if_splits)

lemma packet_decodes:
  assumes "flatcc_law fbw fbr" and "cp_complete cp" and "IOEXcp_encode fbw cp = Some (Some bytes)"
  shows "IOEXcp_decode fbr bytes = Some (Some cp)"
proof -
  from assms(3) obtain body where b: "encode_body cp = Some body" "fbw (IOEXcp_get_type cp, body) = Some bytes"
    by (auto simp: IOEXcp_encode_def bind_Some)
  have "fbr bytes = Some (IOEXcp_get_type cp, Some body)" using assms(1) b(2) by (simp add: flatcc_law_def)
  moreover have "IOEXcp_get_type cp \<in> {IOEXCP_TYPE_USERINFO, IOEXCP_TYPE_FRIEND_REQUEST, IOEXCP_TYPE_MESSAGE, IOEXCP_TYPE_INVITE_REQUEST, IOEXCP_TYPE_INVITE_RESPONSE}"
    by (simp add: IOEXcp_get_type_def split: IOEXcp_packet_t.split)
  ultimately show ?thesis using decode_encode_body [OF assms(2) b(1)] by (auto simp: IOEXcp_decode_def)
qed

text \<open>C31. Packets survive the wire: for every complete packet the encoder runs without a fault, and whatever bytes it
  produces decode to the same packet, given that the generated code reads back the tables it wrote.\<close>

theorem packet_roundtrip:
  assumes "flatcc_law fbw fbr" and "cp_complete cp"
  shows "\<exists>r. IOEXcp_encode fbw cp = Some r \<and> (\<forall>bytes. r = Some bytes \<longrightarrow> IOEXcp_decode fbr bytes = Some (Some cp))"
  using encode_complete [OF assms(2), of fbw] packet_decodes [OF assms] by auto

definition demo_cp :: IOEXCP where
  "demo_cp = \<lparr>cp_ext = Some [120], cp_pkt = pkt_ireq \<lparr>ireq_tid = 7, ireq_data = Some [1, 2]\<rparr>\<rparr>"

definition demo_write :: fb_write where
  "demo_write t = (if t = (34, Invitereq (Some [120]) 7 (Some [1, 2])) then Some [9] else None)"

definition demo_read :: fb_read where
  "demo_read bs = (if bs = [9] then Some (34, Some (Invitereq (Some [120]) 7 (Some [1, 2]))) else None)"

lemma packet_roundtrip_witness:
  "IOEXcp_encode demo_write demo_cp = Some (Some [9]) \<and> IOEXcp_decode demo_read [9] = Some (Some demo_cp)"
proof -
  have "flatcc_law demo_write demo_read" by (auto simp: flatcc_law_def demo_write_def demo_read_def)
  moreover have "cp_complete demo_cp" by (simp add: cp_complete_def demo_cp_def)
  moreover have "IOEXcp_encode demo_write demo_cp = Some (Some [9])"
    by (simp add: IOEXcp_encode_def encode_body_def demo_cp_def demo_write_def cp_get cp_types vec_create_def)
  ultimately show ?thesis using packet_roundtrip [of demo_write demo_read demo_cp] by auto
qed

end
