(* ===== verification/Friends.thy ===== *)
theory Friends
  imports ObjTable Address Packets
begin

text \<open>
  The three tables of the carrier: friends by number (\<^verbatim>\<open>friends.h\<close>), callbacks of transactions by their identifier
  (\<^verbatim>\<open>tcallbacks.h\<close>) and the history of invitations by text (\<^verbatim>\<open>thistory.h\<close>). Keys are the bytes of the number in the
  memory of a little-endian machine, or the characters of the text. Each interpretation of \<open>object_keys\<close> says on
  which keys the table's hash and comparison functions work.
\<close>

subsection \<open>Friends\<close>

datatype IOEXConnectionStatus = IOEXConnectionStatus_Connected | IOEXConnectionStatus_Disconnected

definition IOEXPresenceStatus_None :: int where "IOEXPresenceStatus_None = 0"
definition IOEXPresenceStatus_Away :: int where "IOEXPresenceStatus_Away = 1"
definition IOEXPresenceStatus_Busy :: int where "IOEXPresenceStatus_Busy = 2"

record IOEXUserInfo =
  ui_userid :: cstring
  ui_name :: cstring
  ui_description :: cstring
  ui_has_avatar :: bool
  ui_gender :: cstring
  ui_phone :: cstring
  ui_email :: cstring
  ui_region :: cstring

record IOEXFriendInfo =
  fi_user_info :: IOEXUserInfo
  fi_label :: cstring
  fi_status :: IOEXConnectionStatus
  fi_presence :: int

record FriendInfo =
  friend_number :: u32
  fi_info :: IOEXFriendInfo

definition friend_key :: "u32 \<Rightarrow> u8 list" where
  "friend_key n = rev (be_bytes 4 (unat n))"

text \<open>\<^verbatim>\<open>strcmp\<close> on two blocks; \<open>None\<close> when it runs past the end of one of them.\<close>

fun strcmp_in :: "u8 list \<Rightarrow> u8 list \<Rightarrow> int option" where
  "strcmp_in (x # xs) (y # ys) = (if x \<noteq> y then Some (uint x - uint y) else if x = 0 then Some 0 else strcmp_in xs ys)"
| "strcmp_in _ _ = None"

text \<open>
  The keys are numbers, but they are compared as strings. What the comparison finds in memory behind a number
  without a zero byte is the parameter \<open>beyond\<close>.
\<close>

definition friendid_compare :: "(u8 list \<Rightarrow> u8 list \<Rightarrow> int) \<Rightarrow> u8 list \<Rightarrow> u8 list \<Rightarrow> int" where
  "friendid_compare beyond key1 key2 = (case strcmp_in key1 key2 of Some r \<Rightarrow> r | None \<Rightarrow> beyond key1 key2)"

type_synonym friends = "FriendInfo objtable"

definition friends_create :: "(u8 list \<Rightarrow> u8 list \<Rightarrow> int) \<Rightarrow> friends" where
  "friends_create beyond = ot_create 32 None (Some (friendid_compare beyond))"

definition friends_exist :: "u32 \<Rightarrow> friends \<Rightarrow> bool option" where
  "friends_exist n fr = do { c_assert (n \<noteq> UINT32_MAX); ot_exist (friend_key n) fr }"

definition friends_put :: "nat \<Rightarrow> friends \<Rightarrow> friends option" where
  "friends_put a fr = do { fi \<leftarrow> ot_read a fr; ot_put (friend_key (friend_number fi)) a fr }"

definition friends_get :: "u32 \<Rightarrow> friends \<Rightarrow> (nat option \<times> friends) option" where
  "friends_get n fr = do { c_assert (n \<noteq> UINT32_MAX); ot_get (friend_key n) fr }"

definition friends_remove :: "u32 \<Rightarrow> friends \<Rightarrow> (nat option \<times> friends) option" where
  "friends_remove n fr = do { c_assert (n \<noteq> UINT32_MAX); ot_remove (friend_key n) fr }"

subsection \<open>Transactions\<close>

record TransactedCallback =
  tcb_tid :: tid
  tcb_callback_func :: nat
  tcb_callback_context :: nat

definition tid_key :: "tid \<Rightarrow> u8 list" where
  "tid_key t = rev (be_bytes 8 (unat t))"

definition key_tid :: "u8 list \<Rightarrow> tid" where
  "key_tid k = word_of_nat (val256 (rev k))"

definition cid_hash_code :: "u8 list \<Rightarrow> u32" where
  "cid_hash_code key =
     (let tid = key_tid key in ucast (tid AND 0x00000000ffffffff) + ucast (drop_bit 32 (tid AND 0xffffffff00000000)))"

definition cid_compare :: "u8 list \<Rightarrow> u8 list \<Rightarrow> int" where
  "cid_compare key1 key2 =
     (let tid1 = sint (key_tid key1); tid2 = sint (key_tid key2)
      in if tid1 > tid2 then 1 else if tid1 < tid2 then -1 else 0)"

type_synonym tcallbacks = "TransactedCallback objtable"

definition transacted_callbacks_create :: "nat \<Rightarrow> tcallbacks" where
  "transacted_callbacks_create capacity = ot_create capacity (Some cid_hash_code) (Some cid_compare)"

definition transacted_callbacks_exist :: "tid \<Rightarrow> tcallbacks \<Rightarrow> bool option" where
  "transacted_callbacks_exist t tc = ot_exist (tid_key t) tc"

definition transacted_callbacks_put :: "nat \<Rightarrow> tcallbacks \<Rightarrow> tcallbacks option" where
  "transacted_callbacks_put a tc = do { cb \<leftarrow> ot_read a tc; ot_put (tid_key (tcb_tid cb)) a tc }"

definition transacted_callbacks_get :: "tid \<Rightarrow> tcallbacks \<Rightarrow> (nat option \<times> tcallbacks) option" where
  "transacted_callbacks_get t tc = ot_get (tid_key t) tc"

text \<open>\<^verbatim>\<open>deref\<close> of NULL does nothing.\<close>

definition transacted_callbacks_remove :: "tid \<Rightarrow> tcallbacks \<Rightarrow> tcallbacks option" where
  "transacted_callbacks_remove t tc =
     do { (r, tc1) \<leftarrow> ot_remove (tid_key t) tc; case r of None \<Rightarrow> Some tc1 | Some a \<Rightarrow> rc_deref a tc1 }"

subsection \<open>The history of invitations\<close>

definition IOEX_MAX_EXTENSION_NAME_LEN :: nat where "IOEX_MAX_EXTENSION_NAME_LEN = 31"

text \<open>The size of the arrays for its keys.\<close>

definition HISTORY_KEY_SIZE :: nat where "HISTORY_KEY_SIZE = IOEX_MAX_ID_LEN + IOEX_MAX_EXTENSION_NAME_LEN + 4"

record HistoryItem =
  hi_key :: cstring
  hi_tid :: tid

definition hid_compare :: "u8 list \<Rightarrow> u8 list \<Rightarrow> int" where
  "hid_compare key1 key2 =
     (if length key1 > length key2 then 1
      else if length key1 < length key2 then -1
      else case strcmp_in (key1 @ [0]) (key2 @ [0]) of Some r \<Rightarrow> r | None \<Rightarrow> 1)"

type_synonym thistory = "HistoryItem objtable"

definition transaction_history_create :: "nat \<Rightarrow> thistory" where
  "transaction_history_create capacity = ot_create capacity None (Some hid_compare)"

text \<open>\<^verbatim>\<open>sprintf(key, "ir_%s", userid)\<close> into an array of that size.\<close>

definition invite_key :: "cstring \<Rightarrow> cstring option" where
  "invite_key userid = strcpy_into HISTORY_KEY_SIZE ([0x69, 0x72, 0x5f] @ userid)"

definition tansaction_history_put_invite :: "cstring \<Rightarrow> tid \<Rightarrow> thistory \<Rightarrow> thistory option" where
  "tansaction_history_put_invite userid t th =
     do {
       c_assert (t \<noteq> 0);
       key \<leftarrow> invite_key userid;
       let (a, th1) = rc_alloc \<lparr>hi_key = key, hi_tid = t\<rparr> th;
       th2 \<leftarrow> ot_put key a th1;
       rc_deref a th2
     }"

definition transaction_history_get_invite :: "cstring \<Rightarrow> thistory \<Rightarrow> (tid \<times> thistory) option" where
  "transaction_history_get_invite userid th =
     do {
       key \<leftarrow> invite_key userid;
       (r, th1) \<leftarrow> ot_get key th;
       case r of
         None \<Rightarrow> Some (0, th1)
       | Some a \<Rightarrow> do { item \<leftarrow> ot_read a th1; th2 \<leftarrow> rc_deref a th1; Some (hi_tid item, th2) }
     }"

definition transaction_history_remove_invite :: "cstring \<Rightarrow> thistory \<Rightarrow> thistory option" where
  "transaction_history_remove_invite userid th =
     do {
       key \<leftarrow> invite_key userid;
       (r, th1) \<leftarrow> ot_remove key th;
       case r of None \<Rightarrow> Some th1 | Some a \<Rightarrow> rc_deref a th1
     }"

subsection \<open>Where the keys are told apart\<close>

definition small_friend_key :: "u8 list \<Rightarrow> bool" where
  "small_friend_key k \<longleftrightarrow> (\<exists>n :: u32. unat n < 2 ^ 16 \<and> k = friend_key n)"

lemma rev_be_bytes_inj: "v < 256 ^ n \<Longrightarrow> w < 256 ^ n \<Longrightarrow> rev (be_bytes n v) = rev (be_bytes n w) \<longleftrightarrow> v = w"
  by (metis be_bytes_val(2) rev_rev_ident)

lemma friend_key_inject [simp]: "friend_key n = friend_key m \<longleftrightarrow> n = m"
proof -
  have "unat w < 256 ^ 4" for w :: u32 using unsigned_less [of w, where ?'a = nat] by simp
  then show ?thesis unfolding friend_key_def by (simp only: rev_be_bytes_inj word_unat_eq_iff)
qed

lemma be_bytes_4: "be_bytes 4 v = [of_nat (v div 256 div 256 div 256), of_nat (v div 256 div 256), of_nat (v div 256), of_nat v]"
proof -
  have "(4 :: nat) = Suc (Suc (Suc (Suc 0)))" by simp
  then show ?thesis by (simp only: be_bytes.simps append.simps)
qed

lemma friend_key_small:
  assumes "unat n < 2 ^ 16"
  shows "friend_key n = [of_nat (unat n), of_nat (unat n div 256), 0, 0]"
proof -
  have "unat n div 256 div 256 = 0" using assms by (simp flip: div_mult2_eq)
  then show ?thesis by (simp add: friend_key_def be_bytes_4 del: of_nat_unat)
qed

lemma times_961_inj: "961 * x = 961 * y \<longleftrightarrow> x = y" for x y :: u32
proof
  have i: "(3427929153 * 961 :: u32) = 1" by simp
  assume "961 * x = 961 * y"
  then have "(3427929153 * 961) * x = (3427929153 * 961) * y" by (simp only: mult.assoc)
  then show "x = y" unfolding i by simp
qed simp

lemma scast_byte_inj: "(scast a :: u32) = scast b \<longleftrightarrow> a = b" for a b :: u8
proof
  assume "(scast a :: u32) = scast b"
  then have "sint (scast a :: u32) = sint (scast b :: u32)" by simp
  then show "a = b" by (simp add: sint_up_scast is_up word_eq_iff_signed [where ?'a = int])
qed simp

lemma friend_keys_agree:
  assumes "small_friend_key a" and "small_friend_key b"
  shows "default_hash_code a = default_hash_code b \<and> friendid_compare beyond a b = 0 \<longleftrightarrow> a = b"
proof -
  obtain a0 a1 b0 b1 where ab: "a = [a0, a1, 0, 0]" "b = [b0, b1, 0, 0]"
    using assms friend_key_small unfolding small_friend_key_def by metis
  have "strcmp_in a b = Some 0 \<longleftrightarrow> a0 = b0 \<and> (a0 = 0 \<or> a1 = b1)"
    unfolding ab by (auto simp: word_uint_eq_iff)
  moreover have "\<exists>r. strcmp_in a b = Some r" unfolding ab by simp
  ultimately have c: "friendid_compare beyond a b = 0 \<longleftrightarrow> a0 = b0 \<and> (a0 = 0 \<or> a1 = b1)"
    by (auto simp: friendid_compare_def)
  have "default_hash_code [0, a1, 0, 0] = 961 * scast a1" for a1 by (simp add: default_hash_code_def)
  then have "a0 = 0 \<Longrightarrow> b0 = 0 \<Longrightarrow> default_hash_code a = default_hash_code b \<Longrightarrow> a1 = b1"
    unfolding ab by (simp add: times_961_inj scast_byte_inj)
  with c show ?thesis by (auto simp: ab)
qed

interpretation fr: object_keys small_friend_key default_hash_code "friendid_compare beyond" for beyond
  by unfold_locales (use friend_keys_agree in \<open>auto simp: small_friend_key_def friend_key_small\<close>)

text \<open>Two numbers that the table takes for the same.\<close>

lemma friend_numbers_collide:
  "friend_key 65536 \<noteq> friend_key 520093696"
  "default_hash_code (friend_key 65536) = default_hash_code (friend_key 520093696)"
  "friendid_compare beyond (friend_key 65536) (friend_key 520093696) = 0"
proof -
  have k: "friend_key 65536 = [0, 0, 1, 0]" "friend_key 520093696 = [0, 0, 0, 31]"
    by (simp_all add: friend_key_def be_bytes_4)
  then show "friend_key 65536 \<noteq> friend_key 520093696" "default_hash_code (friend_key 65536) = default_hash_code (friend_key 520093696)"
    "friendid_compare beyond (friend_key 65536) (friend_key 520093696) = 0"
    by (simp_all add: default_hash_code_def friendid_compare_def)
qed

lemma key_tid_key [simp]: "key_tid (tid_key t) = t"
proof -
  have "unat t < 256 ^ 8" using unsigned_less [of t, where ?'a = nat] by simp
  then show ?thesis by (simp add: key_tid_def tid_key_def be_bytes_val)
qed

lemma tid_key_inject [simp]: "tid_key s = tid_key t \<longleftrightarrow> s = t"
  by (metis key_tid_key)

definition is_tid_key :: "u8 list \<Rightarrow> bool" where "is_tid_key k \<longleftrightarrow> (\<exists>t. k = tid_key t)"

lemma cid_compare_0: "cid_compare (tid_key s) (tid_key t) = 0 \<longleftrightarrow> s = t"
  by (auto simp: cid_compare_def Let_def word_eq_iff_signed [where ?'a = int])

interpretation tc: object_keys is_tid_key cid_hash_code cid_compare
proof unfold_locales
  fix a b assume "is_tid_key a" "is_tid_key b"
  then show "cid_hash_code a = cid_hash_code b \<and> cid_compare a b = 0 \<longleftrightarrow> a = b"
    by (auto simp: is_tid_key_def cid_compare_0)
next
  fix a assume "is_tid_key a"
  then have "length a = 8" by (auto simp: is_tid_key_def tid_key_def be_bytes_val)
  then show "a \<noteq> []" by auto
qed

lemma strcmp_in_self: "strcmp_in (s @ [0]) (s @ [0]) = Some 0"
  by (induction s) auto

lemma strcmp_in_eq: "strcmp_in (s @ [0]) (t @ [0]) = Some 0 \<Longrightarrow> 0 \<notin> set s \<Longrightarrow> 0 \<notin> set t \<Longrightarrow> s = t"
proof (induction s arbitrary: t)
  case Nil
  then show ?case by (cases t) (auto simp: word_uint_eq_iff split: if_splits)
next
  case (Cons x s)
  show ?case
  proof (cases t)
    case (Cons y t')
    with Cons.prems have "x = y" by (auto simp: word_uint_eq_iff split: if_splits)
    with Cons Cons.prems Cons.IH [of t'] show ?thesis by auto
  qed (use Cons.prems in \<open>auto simp: word_uint_eq_iff split: if_splits\<close>)
qed

definition is_history_key :: "u8 list \<Rightarrow> bool" where "is_history_key k \<longleftrightarrow> is_cstring k \<and> k \<noteq> []"

interpretation th: object_keys is_history_key default_hash_code hid_compare
proof unfold_locales
  fix a b assume ab: "is_history_key a" "is_history_key b"
  have "strcmp_in (a @ [0]) (b @ [0]) = Some 0" if "hid_compare a b = 0"
    using that by (auto simp: hid_compare_def split: if_splits option.splits)
  then have "a = b" if "hid_compare a b = 0" using strcmp_in_eq that ab by (auto simp: is_history_key_def is_cstring_def)
  moreover have "hid_compare a a = 0" by (simp add: hid_compare_def strcmp_in_self)
  ultimately show "default_hash_code a = default_hash_code b \<and> hid_compare a b = 0 \<longleftrightarrow> a = b" by auto
qed (simp add: is_history_key_def)

subsection \<open>Well-formed tables of friends\<close>

definition friends_ok :: "(u8 list \<Rightarrow> u8 list \<Rightarrow> int) \<Rightarrow> friends \<Rightarrow> bool" where
  "friends_ok beyond fr \<longleftrightarrow> fr.ot_ok beyond fr \<and> (\<forall>k fi. ot_map fr k = Some fi \<longrightarrow> k = friend_key (friend_number fi)
     \<and> is_cstring (fi_label (fi_info fi)) \<and> length (fi_label (fi_info fi)) < 64)"

definition friend_at :: "friends \<Rightarrow> u32 \<Rightarrow> FriendInfo option" where
  "friend_at fr n = ot_map fr (friend_key n)"

lemma small_key [intro]: "unat n < 2 ^ 16 \<Longrightarrow> small_friend_key (friend_key n)"
  by (auto simp: small_friend_key_def)

lemma small_not_max: "unat n < 2 ^ 16 \<Longrightarrow> n \<noteq> UINT32_MAX"
  by (auto simp: UINT32_MAX_def)

lemma friends_ok_list:
  assumes ok: "friends_ok beyond fr"
  shows "fi \<in> set (ot_list fr) \<Longrightarrow> friend_at fr (friend_number fi) = Some fi"
    "distinct (map friend_number (ot_list fr))" "fi \<in> set (ot_list fr) \<Longrightarrow> unat (friend_number fi) < 2 ^ 16"
proof -
  have ot: "fr.ot_ok beyond fr" using ok by (simp add: friends_ok_def)
  let ?h = "ot_table fr"
  let ?keys = "map (key_of ?h) (ht_lst ?h)"
  have d: "distinct ?keys" using ht_okD(5) [OF fr.ot_okD(1) [OF ot]] by simp
  have l: "length (ot_list fr) = length ?keys" by (simp add: ot_list_def)
  have at: "ot_map fr (?keys ! i) = Some (ot_list fr ! i)" if "i < length ?keys" for i
    unfolding fr.ot_list_map [OF ot] by (rule map_of_zip_nth) (use that d l in simp_all)
  then have k: "?keys ! i = friend_key (friend_number (ot_list fr ! i))" if "i < length ?keys" for i
    using that ok by (auto simp: friends_ok_def)
  have keys: "?keys = map (\<lambda>fi. friend_key (friend_number fi)) (ot_list fr)"
    by (rule nth_equalityI) (use k l in simp_all)
  show "friend_at fr (friend_number fi) = Some fi" if "fi \<in> set (ot_list fr)"
    using that at k l unfolding friend_at_def by (metis in_set_conv_nth)
  show "distinct (map friend_number (ot_list fr))" using d unfolding keys by (auto simp: distinct_map inj_on_def)
  show "unat (friend_number fi) < 2 ^ 16" if "fi \<in> set (ot_list fr)"
  proof -
    have "friend_key (friend_number fi) \<in> set ?keys" unfolding keys using that by simp
    then obtain n :: u32 where "unat n < 2 ^ 16" "friend_key (friend_number fi) = friend_key n"
      using fr.ot_okD(3) [OF ot] by (auto simp: keys_in_def small_friend_key_def)
    then show ?thesis by simp
  qed
qed

end
