(* ===== verification/Persistence.thy ===== *)
theory Persistence
  imports Friends Bytes
begin

text \<open>
  The data file of the carrier, from \<^verbatim>\<open>src/carrier/IOEX_carrier.c\<close>: what Tox wants to be saved and the labels of the
  friends, with a header and a checksum, written to a journal that replaces the file. The file system is a map from
  names to contents and a list of directories; which system calls fail is an environment. A call that writes yields
  the sequence of its operations on files, so that a crash can be put between any two of them. The hash function
  SHA-256 comes from a library: it is a parameter.
\<close>

subsection \<open>Files\<close>

definition c_str :: "string \<Rightarrow> cstring" where "c_str s = map of_char s"

definition PERSISTENCE_MAGIC :: u32 where "PERSISTENCE_MAGIC = 0x0E0C0D0A"
definition PERSISTENCE_REVISION :: u32 where "PERSISTENCE_REVISION = 2"
definition MAX_PERSISTENCE_SECTION_SIZE :: nat where "MAX_PERSISTENCE_SECTION_SIZE = 16 * 1024 * 1024"
definition SHA256_BYTES :: nat where "SHA256_BYTES = 32"
definition PUBLIC_KEY_BYTES :: nat where "PUBLIC_KEY_BYTES = 32"
definition PATH_MAX :: nat where "PATH_MAX = 4096"
definition EEXIST :: int where "EEXIST = 17"

definition ROUND256 :: "nat \<Rightarrow> nat" where
  "ROUND256 s = ((s + 64) div 256 + 1) * 256"

definition data_filename :: cstring where "data_filename = c_str ''carrier.data''"
definition old_dhtdata_filename :: cstring where "old_dhtdata_filename = c_str ''dhtdata''"
definition old_IOEXdata_filename :: cstring where "old_IOEXdata_filename = c_str ''IOEXdata''"

definition in_dir :: "cstring \<Rightarrow> cstring \<Rightarrow> cstring" where "in_dir loc name = loc @ [0x2f] @ name"

definition data_file :: "cstring \<Rightarrow> cstring" where "data_file loc = in_dir loc data_filename"
definition journal_file :: "cstring \<Rightarrow> cstring" where "journal_file loc = in_dir loc (data_filename @ c_str ''.journal'')"

record fs =
  fs_files :: "cstring \<Rightarrow> u8 list option"
  fs_dirs :: "cstring list"

datatype fs_op = Create cstring | Write cstring "u8 list" | Sync cstring | Remove cstring | Rename cstring cstring

fun apply_op :: "fs_op \<Rightarrow> fs \<Rightarrow> fs" where
  "apply_op (Create f) s = s\<lparr>fs_files := (fs_files s)(f \<mapsto> [])\<rparr>"
| "apply_op (Write f bs) s = s\<lparr>fs_files := (fs_files s)(f := map_option (\<lambda>old. old @ bs) (fs_files s f))\<rparr>"
| "apply_op (Sync f) s = s"
| "apply_op (Remove f) s = s\<lparr>fs_files := (fs_files s)(f := None)\<rparr>"
| "apply_op (Rename f g) s =
     (case fs_files s f of None \<Rightarrow> s | Some bs \<Rightarrow> s\<lparr>fs_files := (fs_files s)(g \<mapsto> bs, f := None)\<rparr>)"

text \<open>The hash function, and the system calls that can fail: with which error, or how much they write.\<close>

record persist_env =
  pe_sha256 :: "u8 list \<Rightarrow> u8 list"
  pe_mkdir :: "cstring \<Rightarrow> int option"
  pe_open :: "cstring \<Rightarrow> bool"
  pe_write :: "nat \<Rightarrow> nat"
  pe_fsync :: bool
  pe_errno :: int

subsection \<open>Directories\<close>

definition mkdir_one :: "persist_env \<Rightarrow> cstring \<Rightarrow> fs \<Rightarrow> int \<times> fs" where
  "mkdir_one env path s =
     (if path \<notin> set (fs_dirs s) \<and> fs_files s path = None then
        (case pe_mkdir env path of
           None \<Rightarrow> (0, s\<lparr>fs_dirs := path # fs_dirs s\<rparr>)
         | Some e \<Rightarrow> (if e \<noteq> EEXIST then -1 else 0, s))
      else if path \<notin> set (fs_dirs s) then (-1, s)
      else (0, s))"

text \<open>The loop over the slashes of the path; \<open>pp\<close> is where the search for the next one starts.\<close>

function mkdirs_loop :: "persist_env \<Rightarrow> cstring \<Rightarrow> nat \<Rightarrow> fs \<Rightarrow> int \<times> fs" where
  "mkdirs_loop env copypath pp s =
     (if 0x2f \<in> set (drop pp copypath) then
        (let sp = pp + length (takeWhile (\<lambda>c. c \<noteq> 0x2f) (drop pp copypath));
             (rc, s1) = (if sp \<noteq> pp then mkdir_one env (take sp copypath) s else (0, s))
         in if rc = 0 then mkdirs_loop env copypath (sp + 1) s1 else (rc, s1))
      else (0, s))"
  by auto
termination
  by (relation "measure (\<lambda>(env, copypath, pp, s). length copypath - pp)") (auto dest!: length_pos_if_in_set)

declare mkdirs_loop.simps [simp del]

definition mkdirs :: "persist_env \<Rightarrow> cstring \<Rightarrow> fs \<Rightarrow> int \<times> fs" where
  "mkdirs env path s =
     (let (rc, s1) = mkdirs_loop env (take (PATH_MAX - 1) path) 0 s
      in if rc = 0 then mkdir_one env path s1 else (rc, s1))"

subsection \<open>The labels of the friends\<close>

definition get_extra_savedata_size :: "friends \<Rightarrow> (nat \<times> friends) option" where
  "get_extra_savedata_size fr =
     do {
       ((_, total_len), fr1) \<leftarrow> ot_iterate (\<lambda>fi total_len.
         let label_len = length (fi_label (fi_info fi))
         in Some (Next, if label_len \<noteq> 0 then total_len + (4 + label_len + 1) else total_len)) fr 0;
       Some (total_len, fr1)
     }"

text \<open>One turn of the loop: the position and the space left in the buffer.\<close>

definition extra_body :: "FriendInfo \<Rightarrow> nat \<times> nat \<times> u8 list \<Rightarrow> (loop_next \<times> nat \<times> nat \<times> u8 list) option" where
  "extra_body fi = (\<lambda>(pos, len, buf).
     let label = fi_label (fi_info fi); label_len = length label
     in if label_len \<noteq> 0 then
          if len < 4 + label_len + 1 then Some (Break, pos, len, buf)
          else do {
            buf1 \<leftarrow> mem_write buf pos (be32 (friend_number fi));
            buf2 \<leftarrow> mem_write buf1 (pos + 4) (label @ [0]);
            let len1 = len - (4 + label_len + 1);
            Some (if len1 > 0 then Next else Stop, pos + 4 + (label_len + 1), len1, buf2)
          }
        else Some (Next, pos, len, buf))"

definition get_extra_savedata :: "nat \<Rightarrow> nat \<Rightarrow> u8 list \<Rightarrow> friends \<Rightarrow> (u8 list \<times> friends) option" where
  "get_extra_savedata pos len buf fr =
     (if len > 0 then do { ((_, _, _, buf1), fr1) \<leftarrow> ot_iterate extra_body fr (pos, len, buf); Some (buf1, fr1) }
      else Some (buf, fr))"

subsection \<open>Storing\<close>

text \<open>The header of four numbers at the beginning of the block.\<close>

definition put_header :: "nat \<Rightarrow> nat \<Rightarrow> u8 list \<Rightarrow> u8 list option" where
  "put_header dht_data_len extra_data_len buf =
     do {
       buf1 \<leftarrow> mem_write buf 0 (be32 PERSISTENCE_MAGIC);
       buf2 \<leftarrow> mem_write buf1 4 (be32 PERSISTENCE_REVISION);
       buf3 \<leftarrow> mem_write buf2 8 (be32 (of_nat dht_data_len));
       mem_write buf3 12 (be32 (of_nat extra_data_len))
     }"

definition put_checksum :: "persist_env \<Rightarrow> nat \<Rightarrow> u8 list \<Rightarrow> u8 list option" where
  "put_checksum env total_len buf =
     do {
       body \<leftarrow> mem_read buf 256 (total_len - 256);
       mem_write buf (4 * 4) (pe_sha256 env body)
     }"

text \<open>Writing the block to the journal: whether it succeeded, and the operations on files that are done.\<close>

definition write_journal :: "persist_env \<Rightarrow> cstring \<Rightarrow> u8 list \<Rightarrow> bool \<times> fs_op list" where
  "write_journal env journal buf =
     (if \<not> pe_open env journal then (False, [])
      else if pe_write env (length buf) \<noteq> length buf then
        (False, [Create journal, Write journal (take (pe_write env (length buf)) buf), Remove journal])
      else if \<not> pe_fsync env then (False, [Create journal, Write journal buf, Remove journal])
      else (True, [Create journal, Write journal buf, Sync journal]))"

definition store_image :: "persist_env \<Rightarrow> u8 list \<Rightarrow> friends \<Rightarrow> (u8 list \<times> friends) option" where
  "store_image env dht_savedata fr =
     do {
       let dht_data_len = length dht_savedata;
       (extra_data_len, fr1) \<leftarrow> get_extra_savedata_size fr;
       let total_len = 256 + ROUND256 dht_data_len + ROUND256 extra_data_len;
       buf1 \<leftarrow> put_header dht_data_len extra_data_len (replicate total_len 0);
       buf2 \<leftarrow> mem_write buf1 256 dht_savedata;
       (buf3, fr2) \<leftarrow> get_extra_savedata (256 + ROUND256 dht_data_len) (ROUND256 extra_data_len) buf2 fr1;
       buf4 \<leftarrow> put_checksum env total_len buf3;
       Some (buf4, fr2)
     }"

definition store_ops :: "persist_env \<Rightarrow> cstring \<Rightarrow> u8 list \<Rightarrow> int \<times> fs_op list" where
  "store_ops env loc buf =
     (let (done_ok, ops) = write_journal env (journal_file loc) buf
      in if \<not> done_ok then (IOEX_SYS_ERROR (pe_errno env), ops) else (0, ops @ [Remove (data_file loc), Rename (journal_file loc) (data_file loc)]))"

definition store_persistence_data :: "persist_env \<Rightarrow> cstring \<Rightarrow> u8 list \<Rightarrow> friends \<Rightarrow> fs \<Rightarrow> (int \<times> friends \<times> fs) option" where
  "store_persistence_data env loc dht_savedata fr s =
     do {
       (buf, fr1) \<leftarrow> store_image env dht_savedata fr;
       let (rc, s1) = mkdirs env loc s;
       if rc < 0 then Some (IOEX_SYS_ERROR (pe_errno env), fr1, s1)
       else let (rc1, ops) = store_ops env loc buf in Some (rc1, fr1, fold apply_op ops s1)
     }"

subsection \<open>Loading\<close>

record persistence_data =
  dht_savedata_len :: nat
  dht_savedata :: "u8 list"
  extra_savedata_len :: nat
  extra_savedata :: "u8 list"

text \<open>The pointers of the result are what stands in the block from there on; \<open>None\<close> is the return value -1.\<close>

definition load_persistence_data_i :: "persist_env \<Rightarrow> u8 list \<Rightarrow> persistence_data option" where
  "load_persistence_data_i env content =
     (let st_size = length content;
          dht_data_len = unat (get32 content 8);
          extra_data_len = unat (get32 content 12);
          buf = drop 256 content
      in if st_size < 256 then None
         else if get32 content 0 \<noteq> PERSISTENCE_MAGIC then None
         else if get32 content 4 \<noteq> PERSISTENCE_REVISION then None
         else if dht_data_len > MAX_PERSISTENCE_SECTION_SIZE then None
         else if extra_data_len > MAX_PERSISTENCE_SECTION_SIZE then None
         else if st_size \<noteq> 256 + ROUND256 dht_data_len + ROUND256 extra_data_len then None
         else if take SHA256_BYTES (drop 16 content) \<noteq> pe_sha256 env buf then None
         else Some \<lparr>dht_savedata_len = dht_data_len, dht_savedata = buf,
                    extra_savedata_len = extra_data_len, extra_savedata = drop (ROUND256 dht_data_len) buf\<rparr>)"

subsection \<open>Data of the old format\<close>

text \<open>
  The friends' part of the old files is rewritten in place: entries with an empty label are dropped and the numbers
  go into network byte order. \<open>r\<close> and \<open>w\<close> are the positions of reading and writing.
\<close>

fun convert_loop :: "nat \<Rightarrow> nat \<Rightarrow> nat \<Rightarrow> u8 list \<Rightarrow> (nat \<times> nat \<times> u8 list) option" where
  "convert_loop 0 r w buf = Some (r, w, buf)"
| "convert_loop (Suc k) r w buf =
     do {
       idb \<leftarrow> mem_read buf r 4;
       label_len \<leftarrow> c_strlen (drop (r + 4) buf);
       if label_len = 0 then convert_loop k (r + 4 + 1) w buf
       else do {
         buf1 \<leftarrow> mem_write buf w (rev idb);
         label \<leftarrow> mem_read buf1 (r + 4) (label_len + 1);
         buf2 \<leftarrow> mem_write buf1 (w + 4) label;
         convert_loop k (r + 4 + (label_len + 1)) (w + 4 + (label_len + 1)) buf2
       }
     }"

definition le32 :: "u8 list \<Rightarrow> nat" where "le32 bs = val256 (rev bs)"

text \<open>The extra section at \<open>pos\<close> from the old file of labels: the block and the length of the section.\<close>

definition convert_extra :: "persist_env \<Rightarrow> cstring \<Rightarrow> u8 list \<Rightarrow> nat \<Rightarrow> nat \<Rightarrow> u8 list \<Rightarrow> (nat \<times> u8 list) option" where
  "convert_extra env name content pos extra_data_len buf =
     (if extra_data_len = 0 then Some (0, buf)
      else if \<not> pe_open env name then Some (0, buf)
      else do {
        cnt \<leftarrow> mem_read content PUBLIC_KEY_BYTES 4;
        if le32 cnt = 0 then Some (extra_data_len, buf)
        else do {
          buf1 \<leftarrow> mem_write buf pos (drop (PUBLIC_KEY_BYTES + 4) content);
          (r, w, buf2) \<leftarrow> convert_loop (le32 cnt) pos pos buf1;
          buf3 \<leftarrow> mem_write buf2 w (replicate (r - w) 0);
          Some (w - pos, buf3)
        }
      })"

definition convert_old_dhtdata :: "persist_env \<Rightarrow> cstring \<Rightarrow> fs \<Rightarrow> (int \<times> fs) option" where
  "convert_old_dhtdata env loc s =
     (let dname = in_dir loc old_dhtdata_filename; ename = in_dir loc old_IOEXdata_filename in
      case fs_files s dname of
        None \<Rightarrow> Some (IOEX_SYS_ERROR (pe_errno env), s)
      | Some dht_content \<Rightarrow> do {
          let dht_data_len = length dht_content;
          let extra_content = (case fs_files s ename of None \<Rightarrow> [] | Some c \<Rightarrow> c);
          let extra_data_len = length extra_content - (PUBLIC_KEY_BYTES + 4);
          let total_len = 256 + ROUND256 dht_data_len + ROUND256 extra_data_len;
          if \<not> pe_open env dname then Some (IOEX_SYS_ERROR (pe_errno env), s)
          else do {
            buf1 \<leftarrow> mem_write (replicate total_len 0) 256 dht_content;
            (extra_data_len1, buf2) \<leftarrow> convert_extra env ename extra_content (256 + ROUND256 dht_data_len) extra_data_len buf1;
            let total_len1 = 256 + ROUND256 dht_data_len + ROUND256 extra_data_len1;
            buf3 \<leftarrow> put_header dht_data_len extra_data_len1 buf2;
            buf4 \<leftarrow> put_checksum env total_len1 buf3;
            let (done_ok, ops) = write_journal env (journal_file loc) (take total_len1 buf4);
            if \<not> done_ok then Some (IOEX_SYS_ERROR (pe_errno env), fold apply_op ops s)
            else Some (0, fold apply_op (ops @ [Remove dname, Remove ename, Remove (data_file loc),
                                                Rename (journal_file loc) (data_file loc)]) s)
          }
        })"

subsection \<open>Loading from the journal, the file, or the old files\<close>

definition try_load :: "persist_env \<Rightarrow> cstring \<Rightarrow> fs \<Rightarrow> persistence_data option" where
  "try_load env name s = (if pe_open env name then do { content \<leftarrow> fs_files s name; load_persistence_data_i env content } else None)"

text \<open>With \<^verbatim>\<open>journal == 0\<close>; every existing file can be accessed.\<close>

partial_function (option) load_main :: "persist_env \<Rightarrow> cstring \<Rightarrow> fs \<Rightarrow> (persistence_data option \<times> fs) option" where
  "load_main env loc s =
     (if fs_files s (data_file loc) \<noteq> None then Some (try_load env (data_file loc) s, s)
      else if fs_files s (in_dir loc old_dhtdata_filename) = None then Some (None, s)
      else do {
        (rc, s1) \<leftarrow> convert_old_dhtdata env loc s;
        if rc < 0 then Some (None, s1) else load_main env loc s1
      })"

definition load_persistence_data :: "persist_env \<Rightarrow> cstring \<Rightarrow> fs \<Rightarrow> (persistence_data option \<times> fs) option" where
  "load_persistence_data env loc s =
     (if fs_files s (journal_file loc) = None then load_main env loc s
      else case try_load env (journal_file loc) s of
        None \<Rightarrow> load_main env loc s
      | Some d \<Rightarrow> Some (Some d, fold apply_op [Remove (data_file loc), Rename (journal_file loc) (data_file loc)] s))"

subsection \<open>Applying the labels\<close>

text \<open>
  The list is what stands in memory from \<^verbatim>\<open>pos\<close> on. A label that is longer than what is left makes the length wrap
  around, and the loop goes on.
\<close>

function apply_extra_data :: "u8 list \<Rightarrow> nat \<Rightarrow> friends \<Rightarrow> friends option" where
  "apply_extra_data mem len fr =
     (if len > 0 then do {
        _ \<leftarrow> mem_read mem 0 4;
        label_len \<leftarrow> c_strlen (drop 4 mem);
        let n = get32 mem 0;
        let label = take label_len (drop 4 mem);
        if label_len = 0 then Some fr
        else do {
          (r, fr1) \<leftarrow> friends_get n fr;
          fr2 \<leftarrow> (case r of
              None \<Rightarrow> Some fr1
            | Some a \<Rightarrow> do {
                l \<leftarrow> strcpy_into 64 label;
                fr2 \<leftarrow> ot_modify a (\<lambda>fi. fi\<lparr>fi_info := (fi_info fi)\<lparr>fi_label := l\<rparr>\<rparr>) fr1;
                rc_deref a fr2
              });
          apply_extra_data (drop (4 + label_len + 1) mem) (size_sub len (4 + label_len + 1)) fr2
        }
      }
      else Some fr)"
  by auto
termination
  by (relation "measure (\<lambda>(mem, len, fr). length mem)") (auto simp: mem_read_def split: if_splits)

declare apply_extra_data.simps [simp del]

subsection \<open>What is stored\<close>

definition label_entry :: "FriendInfo \<Rightarrow> u8 list" where
  "label_entry fi = (let label = fi_label (fi_info fi) in if label = [] then [] else be32 (friend_number fi) @ label @ [0])"

definition label_bytes :: "FriendInfo list \<Rightarrow> u8 list" where
  "label_bytes fis = concat (map label_entry fis)"

lemma length_label_entry: "length (label_entry fi) = (if fi_label (fi_info fi) = [] then 0 else 4 + length (fi_label (fi_info fi)) + 1)"
  by (simp add: label_entry_def Let_def)

lemma label_bytes_Cons [simp]: "label_bytes (fi # fis) = label_entry fi @ label_bytes fis" "label_bytes [] = []"
  by (simp_all add: label_bytes_def)

lemma size_walk:
  "walk (\<lambda>fi total_len. let label_len = length (fi_label (fi_info fi))
      in Some (Next, if label_len \<noteq> 0 then total_len + (4 + label_len + 1) else total_len)) fis n = Some (Next, n + length (label_bytes fis))"
  by (induction fis arbitrary: n) (simp_all add: length_label_entry Let_def)

lemma extra_body_step:
  assumes "pos + length (label_entry fi) \<le> length buf" and "length (label_entry fi) < len"
  shows "extra_body fi (pos, len, buf) = Some (Next, pos + length (label_entry fi), len - length (label_entry fi), blit buf pos (label_entry fi))"
proof (cases "fi_label (fi_info fi) = []")
  case False
  let ?l = "fi_label (fi_info fi)"
  have e: "label_entry fi = be32 (friend_number fi) @ ?l @ [0]" using False by (simp add: label_entry_def)
  have "blit (blit buf pos (be32 (friend_number fi))) (pos + 4) (?l @ [0]) = blit buf pos (label_entry fi)"
    using blit_blit_adjacent [of pos "be32 (friend_number fi)" "?l @ [0]" buf] assms(1) by (simp add: e)
  then show ?thesis using False assms by (simp add: extra_body_def e Let_def mem_write_Some)
qed (simp add: extra_body_def label_entry_def)

lemma extra_walk:
  assumes "pos + length (label_bytes fis) \<le> length buf" and "length (label_bytes fis) < len"
  shows "walk extra_body fis (pos, len, buf) = Some (Next, pos + length (label_bytes fis), len - length (label_bytes fis), blit buf pos (label_bytes fis))"
  using assms
proof (induction fis arbitrary: pos len buf)
  case (Cons fi fis)
  let ?e = "label_entry fi"
  have "walk extra_body fis (pos + length ?e, len - length ?e, blit buf pos ?e)
      = Some (Next, pos + length ?e + length (label_bytes fis), len - length ?e - length (label_bytes fis),
          blit (blit buf pos ?e) (pos + length ?e) (label_bytes fis))"
    by (rule Cons.IH) (use Cons.prems in simp_all)
  then show ?case using Cons.prems blit_blit_adjacent [of pos ?e "label_bytes fis" buf] by (simp add: extra_body_step add.assoc)
qed simp

lemma ROUND256_gt: "s + 64 < ROUND256 s"
proof -
  have "s + 64 < 256 * ((s + 64) div 256) + 256" using div_mult_mod_eq [of "s + 64" 256] mod_less_divisor [of 256 "s + 64"] by linarith
  then show ?thesis by (simp add: ROUND256_def)
qed

lemma mem_write_mid:
  assumes "pos = length p" and "length ys \<le> n"
  shows "mem_write (p @ replicate n 0 @ q) pos ys = Some (p @ ys @ replicate (n - length ys) 0 @ q)"
  using assms by (simp add: mem_write_def blit_def drop_replicate)

definition image_header :: "nat \<Rightarrow> nat \<Rightarrow> u8 list" where
  "image_header dht_len extra_len = be32 PERSISTENCE_MAGIC @ be32 PERSISTENCE_REVISION @ be32 (of_nat dht_len) @ be32 (of_nat extra_len)"

definition padded :: "u8 list \<Rightarrow> u8 list" where
  "padded bs = bs @ replicate (ROUND256 (length bs) - length bs) 0"

definition data_image :: "persist_env \<Rightarrow> u8 list \<Rightarrow> u8 list \<Rightarrow> u8 list" where
  "data_image env dht extra = image_header (length dht) (length extra) @ pe_sha256 env (padded dht @ padded extra) @ replicate 208 0
     @ padded dht @ padded extra"

lemma length_padded [simp]: "length (padded bs) = ROUND256 (length bs)"
  using ROUND256_gt [of "length bs"] by (simp add: padded_def)

lemma length_image_header [simp]: "length (image_header d e) = 16"
  by (simp add: image_header_def)

lemma put_header_eq: "put_header d e (replicate (16 + n) 0) = Some (image_header d e @ replicate n 0)"
proof -
  have w: "mem_write (p @ replicate (4 + k) 0) pos (be32 v) = Some ((p @ be32 v) @ replicate k 0)" if "pos = length p" for p pos v k
    using mem_write_mid [of pos p "be32 v" "4 + k" "[]"] that by simp
  let ?a = "be32 PERSISTENCE_MAGIC" and ?b = "be32 PERSISTENCE_REVISION" and ?c = "be32 (of_nat d)" and ?e = "be32 (of_nat e)"
  have 1: "mem_write (replicate (16 + n) 0) 0 ?a = Some (?a @ replicate (12 + n) 0)" using w [of 0 "[]" "12 + n"] by simp
  have 2: "mem_write (?a @ replicate (12 + n) 0) 4 ?b = Some ((?a @ ?b) @ replicate (8 + n) 0)" using w [of 4 ?a "8 + n"] by simp
  have 3: "mem_write ((?a @ ?b) @ replicate (8 + n) 0) 8 ?c = Some ((?a @ ?b @ ?c) @ replicate (4 + n) 0)"
    using w [of 8 "?a @ ?b" "4 + n"] by simp
  have 4: "mem_write ((?a @ ?b @ ?c) @ replicate (4 + n) 0) 12 ?e = Some ((?a @ ?b @ ?c @ ?e) @ replicate n 0)"
    using w [of 12 "?a @ ?b @ ?c" n] by simp
  show ?thesis unfolding put_header_def 1 bind.bind_lunit 2 3 4 image_header_def ..
qed

lemma store_image_eq:
  assumes ok: "fr.ot_ok beyond fr" and sha: "length (pe_sha256 env (padded dht @ padded (label_bytes (ot_list fr)))) = SHA256_BYTES"
  shows "store_image env dht fr = Some (data_image env dht (label_bytes (ot_list fr)), fr)"
proof -
  let ?x = "label_bytes (ot_list fr)"
  let ?d = "length dht" and ?e = "length ?x"
  let ?R = "ROUND256 ?d" and ?S = "ROUND256 ?e"
  let ?total = "256 + ?R + ?S" and ?H = "image_header ?d ?e"
  have R: "?d < ?R" "?e < ?S" using ROUND256_gt [of ?d] ROUND256_gt [of ?e] by simp_all
  have 1: "get_extra_savedata_size fr = Some (?e, fr)"
    unfolding get_extra_savedata_size_def fr.ot_iterate_spec [OF ok size_walk loop_next.distinct(3)] by simp
  have 2: "put_header ?d ?e (replicate ?total 0) = Some (?H @ replicate (240 + ?R + ?S) 0)"
    using put_header_eq [of ?d ?e "240 + ?R + ?S"] by (simp add: add.assoc)
  have r: "replicate (240 + ?R + ?S) (0 :: u8) = replicate 240 0 @ replicate ?R 0 @ replicate ?S 0"
    by (simp only: replicate_add append_assoc)
  have 3: "mem_write (?H @ replicate (240 + ?R + ?S) 0) 256 dht = Some ((?H @ replicate 240 0) @ padded dht @ replicate ?S 0)"
    unfolding r using mem_write_mid [of 256 "?H @ replicate 240 0" dht ?R "replicate ?S 0"] R by (simp add: padded_def)
  have 4: "get_extra_savedata (256 + ?R) ?S ((?H @ replicate 240 0) @ padded dht @ replicate ?S 0) fr
      = Some ((?H @ replicate 240 0) @ padded dht @ padded ?x, fr)"
  proof -
    let ?b = "(?H @ replicate 240 0) @ padded dht @ replicate ?S 0"
    have w: "walk extra_body (ot_list fr) (256 + ?R, ?S, ?b) = Some (Next, 256 + ?R + ?e, ?S - ?e, blit ?b (256 + ?R) ?x)"
      by (rule extra_walk) (use R in simp_all)
    have "blit ?b (256 + ?R) ?x = (?H @ replicate 240 0) @ padded dht @ padded ?x"
      using R by (simp add: blit_def padded_def)
    then show ?thesis
      unfolding get_extra_savedata_def fr.ot_iterate_spec [OF ok w loop_next.distinct(3)] using R by simp
  qed
  have 5: "put_checksum env ?total ((?H @ replicate 240 0) @ padded dht @ padded ?x) = Some (data_image env dht ?x)"
  proof -
    have "mem_read ((?H @ replicate 240 0) @ padded dht @ padded ?x) 256 (?total - 256) = Some (padded dht @ padded ?x)"
      by (simp add: mem_read_def)
    moreover have "mem_write ((?H @ replicate 240 0) @ padded dht @ padded ?x) 16 (pe_sha256 env (padded dht @ padded ?x)) = Some (data_image env dht ?x)"
      using mem_write_mid [of 16 ?H "pe_sha256 env (padded dht @ padded ?x)" 240 "padded dht @ padded ?x"] sha
      by (simp add: data_image_def SHA256_BYTES_def)
    ultimately show ?thesis by (simp add: put_checksum_def)
  qed
  show ?thesis unfolding store_image_def Let_def 1 bind.bind_lunit prod.case 2 3 4 5 ..
qed

lemma load_image:
  assumes "length (pe_sha256 env (padded dht @ padded extra)) = SHA256_BYTES"
    and "length dht \<le> MAX_PERSISTENCE_SECTION_SIZE" and "length extra \<le> MAX_PERSISTENCE_SECTION_SIZE"
  shows "load_persistence_data_i env (data_image env dht extra) =
    Some \<lparr>dht_savedata_len = length dht, dht_savedata = padded dht @ padded extra,
          extra_savedata_len = length extra, extra_savedata = padded extra\<rparr>"
proof -
  let ?c = "data_image env dht extra" and ?s = "pe_sha256 env (padded dht @ padded extra)"
  let ?a = "be32 PERSISTENCE_MAGIC" and ?b = "be32 PERSISTENCE_REVISION" and ?d = "be32 (of_nat (length dht))" and ?e = "be32 (of_nat (length extra))"
  let ?t = "?s @ replicate 208 0 @ padded dht @ padded extra"
  have c: "?c = ?a @ ?b @ ?d @ ?e @ ?t" by (simp add: data_image_def image_header_def)
  have g: "get32 ?c 0 = PERSISTENCE_MAGIC" "get32 ?c 4 = PERSISTENCE_REVISION" "get32 ?c 8 = of_nat (length dht)" "get32 ?c 12 = of_nat (length extra)"
    unfolding c using get32_field [of 0 "[]" PERSISTENCE_MAGIC "?b @ ?d @ ?e @ ?t"] get32_field [of 4 ?a PERSISTENCE_REVISION "?d @ ?e @ ?t"]
      get32_field [of 8 "?a @ ?b" "of_nat (length dht)" "?e @ ?t"] get32_field [of 12 "?a @ ?b @ ?d" "of_nat (length extra)" ?t] by simp_all
  have u: "unat (of_nat n :: u32) = n" if "n \<le> MAX_PERSISTENCE_SECTION_SIZE" for n
    using that by (simp add: unsigned_of_nat take_bit_nat_eq_self MAX_PERSISTENCE_SECTION_SIZE_def)
  have l: "length ?c = 256 + ROUND256 (length dht) + ROUND256 (length extra)" using assms(1) by (simp add: c SHA256_BYTES_def)
  have s: "take SHA256_BYTES (drop 16 ?c) = ?s" "drop 256 ?c = padded dht @ padded extra"
    using assms(1) by (simp_all add: c SHA256_BYTES_def)
  show ?thesis unfolding load_persistence_data_i_def Let_def g s l u [OF assms(2)] u [OF assms(3)] using assms(2,3) by simp
qed

text \<open>A part of an image is not taken for one: the header announces more than there is.\<close>

lemma load_partial_image:
  assumes "n < length (data_image env dht extra)" and "length dht \<le> MAX_PERSISTENCE_SECTION_SIZE" and "length extra \<le> MAX_PERSISTENCE_SECTION_SIZE"
    and sha: "length (pe_sha256 env (padded dht @ padded extra)) = SHA256_BYTES"
  shows "load_persistence_data_i env (take n (data_image env dht extra)) = None"
proof (cases "n < 256")
  case False
  let ?c = "data_image env dht extra"
  have g: "get32 (take n ?c) i = get32 ?c i" if "i + 4 \<le> 256" for i
    using that False assms(1) by (simp add: get32_def)
  have l: "length (take n ?c) = n" using assms(1) by simp
  have L: "length ?c = 256 + ROUND256 (length dht) + ROUND256 (length extra)" using sha by (simp add: data_image_def SHA256_BYTES_def)
  let ?t = "pe_sha256 env (padded dht @ padded extra) @ replicate 208 0 @ padded dht @ padded extra"
  have c: "?c = (be32 PERSISTENCE_MAGIC @ be32 PERSISTENCE_REVISION) @ be32 (of_nat (length dht)) @ be32 (of_nat (length extra)) @ ?t"
    by (simp add: data_image_def image_header_def)
  have u: "unat (of_nat n :: u32) = n" if "n \<le> MAX_PERSISTENCE_SECTION_SIZE" for n
    using that by (simp add: unsigned_of_nat take_bit_nat_eq_self MAX_PERSISTENCE_SECTION_SIZE_def)
  have "get32 ?c 8 = of_nat (length dht)" "get32 ?c 12 = of_nat (length extra)"
    unfolding c using get32_field [of 8 "be32 PERSISTENCE_MAGIC @ be32 PERSISTENCE_REVISION"]
      get32_field [of 12 "(be32 PERSISTENCE_MAGIC @ be32 PERSISTENCE_REVISION) @ be32 (of_nat (length dht))"] by simp_all
  then have "unat (get32 (take n ?c) 8) = length dht" "unat (get32 (take n ?c) 12) = length extra"
    using g [of 8] g [of 12] u assms(2,3) by simp_all
  then show ?thesis using assms(1) l L by (simp add: load_persistence_data_i_def Let_def)
qed (simp add: load_persistence_data_i_def Let_def)

subsection \<open>Crashes\<close>

text \<open>
  The states in which a crash can leave the file system: operations are done in order, a write may be done in part,
  and what was written survives for certain only once it is synchronized, before that a prefix of it does.
\<close>

fun crashes :: "fs_op list \<Rightarrow> fs \<Rightarrow> fs list" where
  "crashes [] s = [s]"
| "crashes (Write f bs # ops) s = map (\<lambda>n. apply_op (Write f (take n bs)) s) [0..<length bs] @ crashes ops (apply_op (Write f bs) s)"
| "crashes (op # ops) s = s # crashes ops (apply_op op s)"

definition stored_data :: "u8 list \<Rightarrow> u8 list \<Rightarrow> persistence_data" where
  "stored_data dht extra = \<lparr>dht_savedata_len = length dht, dht_savedata = padded dht @ padded extra,
     extra_savedata_len = length extra, extra_savedata = padded extra\<rparr>"

lemma file_names: "journal_file loc \<noteq> data_file loc" "data_file loc \<noteq> journal_file loc"
  by (simp_all add: journal_file_def data_file_def in_dir_def data_filename_def c_str_def)

lemma load_from_data:
  assumes "pe_open env (data_file loc)" and "fs_files s (data_file loc) = Some c"
    and "fs_files s (journal_file loc) = None \<or> (\<exists>j. fs_files s (journal_file loc) = Some j \<and> load_persistence_data_i env j = None)"
  shows "load_persistence_data env loc s = Some (load_persistence_data_i env c, s)"
proof -
  have "load_main env loc s = Some (load_persistence_data_i env c, s)"
    using assms(1,2) by (subst load_main.simps) (simp add: try_load_def)
  with assms(3) show ?thesis by (auto simp: load_persistence_data_def try_load_def)
qed

lemma load_from_journal:
  assumes "pe_open env (journal_file loc)" and "fs_files s (journal_file loc) = Some j" and "load_persistence_data_i env j = Some d"
  shows "\<exists>s'. load_persistence_data env loc s = Some (Some d, s') \<and> fs_files s' = (fs_files s)(data_file loc \<mapsto> j, journal_file loc := None)"
  using assms file_names [of loc] by (simp add: load_persistence_data_def try_load_def fun_eq_iff)

lemma crashes_write:
  assumes "s' \<in> set (crashes (Create j # Write j bs # ops) s)"
  shows "s' = s \<or> (\<exists>n < length bs. s' = s\<lparr>fs_files := (fs_files s)(j \<mapsto> take n bs)\<rparr>) \<or> s' = s\<lparr>fs_files := (fs_files s)(j \<mapsto> [])\<rparr>
    \<or> s' \<in> set (crashes ops (s\<lparr>fs_files := (fs_files s)(j \<mapsto> bs)\<rparr>))"
  using assms by auto

lemma store_ops_cases:
  assumes "pe_open env (journal_file loc)"
  shows "(\<exists>m. snd (store_ops env loc buf) = [Create (journal_file loc), Write (journal_file loc) (take m buf), Remove (journal_file loc)])
    \<or> snd (store_ops env loc buf) = [Create (journal_file loc), Write (journal_file loc) buf, Sync (journal_file loc),
          Remove (data_file loc), Rename (journal_file loc) (data_file loc)]"
proof (cases "pe_write env (length buf) = length buf")
  case True
  have "take (length buf) buf = buf" by simp
  then show ?thesis using True assms by (cases "pe_fsync env") (auto simp: store_ops_def write_journal_def intro: exI [of _ "length buf"])
qed (use assms in \<open>auto simp: store_ops_def write_journal_def\<close>)

lemma load_survives:
  assumes opens: "pe_open env (data_file loc)" "pe_open env (journal_file loc)" and old: "fs_files t (data_file loc) = Some c"
    and sizes: "length dht \<le> MAX_PERSISTENCE_SECTION_SIZE" "length extra \<le> MAX_PERSISTENCE_SECTION_SIZE"
    and sha: "length (pe_sha256 env (padded dht @ padded extra)) = SHA256_BYTES"
    and journal: "fs_files t (journal_file loc) = None \<or> (\<exists>n. fs_files t (journal_file loc) = Some (take n (data_image env dht extra)))"
  shows "\<exists>r s''. load_persistence_data env loc t = Some (r, s'') \<and> (r = load_persistence_data_i env c \<or> r = Some (stored_data dht extra))"
proof (cases "\<exists>n \<ge> length (data_image env dht extra). fs_files t (journal_file loc) = Some (take n (data_image env dht extra))")
  case True
  then show ?thesis using load_from_journal [OF opens(2), of t "data_image env dht extra"] load_image [OF sha sizes] by (auto simp: stored_data_def)
next
  case False
  with journal load_partial_image [OF _ sizes sha]
  have "fs_files t (journal_file loc) = None \<or> (\<exists>j. fs_files t (journal_file loc) = Some j \<and> load_persistence_data_i env j = None)"
    by (metis linorder_not_less)
  then show ?thesis using load_from_data [OF opens(1) old] by blast
qed

text \<open>What a crash leaves: the old data with part of the journal, the whole journal, or the new data.\<close>

lemma crash_states:
  assumes opens: "pe_open env (journal_file loc)" and old: "fs_files s (data_file loc) = Some c" and journal: "fs_files s (journal_file loc) = None"
    and crash: "s' \<in> set (crashes (snd (store_ops env loc new_bytes)) s)"
  obtains "fs_files s' (data_file loc) = Some c" "fs_files s' (journal_file loc) = None \<or> (\<exists>n. fs_files s' (journal_file loc) = Some (take n new_bytes))"
  | "fs_files s' (journal_file loc) = Some new_bytes"
  | "fs_files s' (data_file loc) = Some new_bytes" "fs_files s' (journal_file loc) = None"
proof -
  let ?j = "journal_file loc" and ?f = "data_file loc"
  from store_ops_cases [OF opens] consider m where "snd (store_ops env loc new_bytes) = [Create ?j, Write ?j (take m new_bytes), Remove ?j]"
    | "snd (store_ops env loc new_bytes) = [Create ?j, Write ?j new_bytes, Sync ?j, Remove ?f, Rename ?j ?f]" by blast
  then show thesis
  proof cases
    case (1 m)
    then have "s' = s \<or> (\<exists>n < length (take m new_bytes). s' = s\<lparr>fs_files := (fs_files s)(?j \<mapsto> take n (take m new_bytes))\<rparr>)
        \<or> s' = s\<lparr>fs_files := (fs_files s)(?j \<mapsto> [])\<rparr>
        \<or> s' \<in> set (crashes [Remove ?j] (s\<lparr>fs_files := (fs_files s)(?j \<mapsto> take m new_bytes)\<rparr>))"
      using crash by (intro crashes_write) simp
    then have "fs_files s' ?f = Some c \<and> (fs_files s' ?j = None \<or> (\<exists>n. fs_files s' ?j = Some (take n new_bytes)))"
      using old journal file_names [of loc] by (auto intro: exI [of _ 0])
    then show thesis using that(1) by blast
  next
    case 2
    then have "s' = s \<or> (\<exists>n < length new_bytes. s' = s\<lparr>fs_files := (fs_files s)(?j \<mapsto> take n new_bytes)\<rparr>)
        \<or> s' = s\<lparr>fs_files := (fs_files s)(?j \<mapsto> [])\<rparr>
        \<or> s' \<in> set (crashes [Sync ?j, Remove ?f, Rename ?j ?f] (s\<lparr>fs_files := (fs_files s)(?j \<mapsto> new_bytes)\<rparr>))"
      using crash by (intro crashes_write) simp
    then consider "fs_files s' ?f = Some c" "fs_files s' ?j = None \<or> (\<exists>n. fs_files s' ?j = Some (take n new_bytes))"
      | "fs_files s' ?j = Some new_bytes" | "fs_files s' ?f = Some new_bytes" "fs_files s' ?j = None"
      using old journal file_names [of loc] by (auto intro: exI [of _ 0]) blast
    then show thesis using that by cases blast+
  qed
qed


definition demo_persist :: persist_env where
  "demo_persist = \<lparr>pe_sha256 = (\<lambda>bs. replicate 32 (of_nat (length bs))), pe_mkdir = (\<lambda>_. None), pe_open = (\<lambda>_. True),
     pe_write = (\<lambda>n. n), pe_fsync = True, pe_errno = 5\<rparr>"

definition demo_fs :: fs where
  "demo_fs = \<lparr>fs_files = [data_file [] \<mapsto> [7]], fs_dirs = []\<rparr>"


subsection \<open>The labels come back\<close>

definition set_label :: "cstring \<Rightarrow> FriendInfo \<Rightarrow> FriendInfo" where
  "set_label l fi = fi\<lparr>fi_info := (fi_info fi)\<lparr>fi_label := l\<rparr>\<rparr>"

text \<open>The label that a list of entries gives to a friend: the last one for its number, if any.\<close>

definition relabel :: "FriendInfo \<Rightarrow> (u8 list \<rightharpoonup> FriendInfo) \<Rightarrow> u8 list \<rightharpoonup> FriendInfo" where
  "relabel fi m = (let l = fi_label (fi_info fi); k = friend_key (friend_number fi)
     in if l = [] then m else m(k := map_option (set_label l) (m k)))"

definition good_label :: "FriendInfo \<Rightarrow> bool" where
  "good_label fi \<longleftrightarrow> unat (friend_number fi) < 2 ^ 16 \<and> is_cstring (fi_label (fi_info fi)) \<and> length (fi_label (fi_info fi)) < 64"

lemma strlen_prefix: "is_cstring l \<Longrightarrow> c_strlen (l @ 0 # rest) = Some (length l)"
proof -
  assume "is_cstring l"
  then have "takeWhile (\<lambda>c. c \<noteq> 0) (l @ 0 # rest) = l"
    by (subst takeWhile_append2) (auto simp: is_cstring_def)
  then show ?thesis by (simp add: c_strlen_def)
qed

lemma apply_one_label:
  assumes ok: "fr.ot_ok beyond fr" and good: "good_label fi" and ne: "fi_label (fi_info fi) \<noteq> []"
    and len: "length (label_entry fi) \<le> len" "len < 2 ^ 64"
  obtains fr' where "apply_extra_data (label_entry fi @ rest) len fr = apply_extra_data rest (len - length (label_entry fi)) fr'"
    "fr.ot_ok beyond fr'" "ot_map fr' = relabel fi (ot_map fr)"
proof -
  let ?l = "fi_label (fi_info fi)" and ?n = "friend_number fi"
  let ?mem = "be32 ?n @ ?l @ 0 # rest"
  have e: "label_entry fi @ rest = ?mem" using ne by (simp add: label_entry_def)
  have n: "unat ?n < 2 ^ 16" "is_cstring ?l" "length ?l < 64" using good by (auto simp: good_label_def)
  have k: "small_friend_key (friend_key ?n)" using n(1) by (rule small_key)
  have g: "get32 ?mem 0 = ?n" using get32_field [of 0 "[]"] by simp
  have d: "drop 4 ?mem = ?l @ 0 # rest" "drop (4 + length ?l + 1) ?mem = rest" by simp_all
  have s: "size_sub len (5 + length ?l) = len - length (label_entry fi)"
    using len ne by (simp add: size_sub_small length_label_entry)
  have len0: "len > 0" using len(1) ne by (simp add: length_label_entry)
  let ?step = "\<lambda>fr2. apply_extra_data rest (len - length (label_entry fi)) fr2"
  have ev: "apply_extra_data ?mem len fr = do {
      (r, fr1) \<leftarrow> friends_get ?n fr;
      fr2 \<leftarrow> (case r of
          None \<Rightarrow> Some fr1
        | Some a \<Rightarrow> do { fr2 \<leftarrow> ot_modify a (set_label ?l) fr1; rc_deref a fr2 });
      ?step fr2 }"
    using len0 ne n
    by (subst apply_extra_data.simps) (simp add: mem_read_def d strlen_prefix g s strcpy_into_Some set_label_def [abs_def] cong: option.case_cong)
  have get: "friends_get ?n fr = ot_get (friend_key ?n) fr" using small_not_max [OF n(1)] by (simp add: friends_get_def)
  show thesis
  proof (cases "ot_map fr (friend_key ?n)")
    case None
    have "relabel fi (ot_map fr) = ot_map fr" using None by (auto simp: relabel_def Let_def fun_eq_iff)
    then show thesis using fr.ot_get_None [OF ok k None] ev e get ok by (intro that [of fr]) simp_all
  next
    case (Some x)
    from fr.ot_update [OF ok k Some, of "set_label ?l"] obtain a t' where
      t: "ot_get (friend_key ?n) fr = Some (Some a, ot_hold a fr)" "ot_modify a (set_label ?l) (ot_hold a fr) = Some (ot_hold a t')"
        "rc_deref a (ot_hold a t') = Some t'" "fr.ot_ok beyond t'" "ot_map t' = (ot_map fr)(friend_key ?n \<mapsto> set_label ?l x)" by metis
    have "ot_map t' = relabel fi (ot_map fr)" using t(5) Some ne by (simp add: relabel_def)
    then show thesis using t ev e get by (intro that [of t']) simp_all
  qed
qed

lemma apply_labels:
  assumes "fr.ot_ok beyond fr" and "\<forall>fi \<in> set fis. good_label fi" and "length (label_bytes fis) < 2 ^ 64"
  shows "\<exists>fr'. apply_extra_data (label_bytes fis @ rest) (length (label_bytes fis)) fr = Some fr'
    \<and> fr.ot_ok beyond fr' \<and> ot_map fr' = fold relabel fis (ot_map fr)"
  using assms
proof (induction fis arbitrary: fr)
  case Nil
  then show ?case by (simp add: apply_extra_data.simps)
next
  case (Cons fi fis)
  show ?case
  proof (cases "fi_label (fi_info fi) = []")
    case True
    then have "label_entry fi = []" "relabel fi m = m" for m by (simp_all add: label_entry_def relabel_def)
    with Cons.IH [OF Cons.prems(1)] Cons.prems show ?thesis by simp
  next
    case False
    have p: "good_label fi" "\<forall>fi \<in> set fis. good_label fi" "length (label_bytes fis) < 2 ^ 64" "length (label_bytes (fi # fis)) < 2 ^ 64"
      "length (label_entry fi) \<le> length (label_bytes (fi # fis))"
      using Cons.prems(2,3) by simp_all
    from apply_one_label [OF Cons.prems(1) p(1) False p(5,4), of "label_bytes fis @ rest"] obtain fr1 where
      1: "apply_extra_data (label_entry fi @ label_bytes fis @ rest) (length (label_bytes (fi # fis))) fr
          = apply_extra_data (label_bytes fis @ rest) (length (label_bytes (fi # fis)) - length (label_entry fi)) fr1"
        "fr.ot_ok beyond fr1" "ot_map fr1 = relabel fi (ot_map fr)" by blast
    with Cons.IH [OF 1(2) p(2,3)] show ?thesis by simp
  qed
qed

lemma set_label_twice [simp]: "set_label l (set_label l' g) = set_label l g"
  by (simp add: set_label_def)

lemma fold_relabel_other: "\<forall>fi \<in> set fis. friend_key (friend_number fi) \<noteq> k \<Longrightarrow> fold relabel fis m k = m k"
  by (induction fis arbitrary: m) (auto simp: relabel_def Let_def)

lemma fold_relabel:
  assumes "distinct (map friend_number fis)" and "fi \<in> set fis"
  shows "fold relabel fis m (friend_key (friend_number fi))
    = map_option (if fi_label (fi_info fi) = [] then id else set_label (fi_label (fi_info fi))) (m (friend_key (friend_number fi)))"
proof -
  let ?k = "friend_key (friend_number fi)"
  from assms(2) obtain as bs where f: "fis = as @ fi # bs" by (auto simp: in_set_conv_decomp)
  have ab: "\<forall>x \<in> set as. friend_key (friend_number x) \<noteq> ?k" "\<forall>x \<in> set bs. friend_key (friend_number x) \<noteq> ?k"
    using assms(1) f by (auto simp: image_iff)
  have "fold relabel fis m ?k = relabel fi (fold relabel as m) ?k" unfolding f by (simp add: fold_relabel_other [OF ab(2)])
  also have "\<dots> = map_option (if fi_label (fi_info fi) = [] then id else set_label (fi_label (fi_info fi))) (m ?k)"
    using fold_relabel_other [OF ab(1), of m] by (simp add: relabel_def Let_def option.map_id)
  finally show ?thesis .
qed

lemma fold_relabel_range:
  "fold relabel fis m k = Some g' \<Longrightarrow> \<exists>g. m k = Some g \<and> (g' = g \<or> (\<exists>fi \<in> set fis. g' = set_label (fi_label (fi_info fi)) g))"
proof (induction fis arbitrary: m)
  case (Cons fi fis)
  then obtain h where "relabel fi m k = Some h" "g' = h \<or> (\<exists>x \<in> set fis. g' = set_label (fi_label (fi_info x)) h)" by fastforce
  moreover from this(1) obtain g where "m k = Some g" "h = g \<or> h = set_label (fi_label (fi_info fi)) g"
    by (auto simp: relabel_def Let_def split: if_splits)
  ultimately show ?case by auto
qed simp

lemma fold_relabel_dom: "fold relabel fis m k = None \<longleftrightarrow> m k = None"
proof (induction fis arbitrary: m)
  case (Cons fi fis)
  have "relabel fi m k = None \<longleftrightarrow> m k = None" by (auto simp: relabel_def Let_def)
  with Cons show ?case by simp
qed simp

lemma friends_ok_in_list:
  "friends_ok beyond fr \<Longrightarrow> friend_at fr n = Some fi \<Longrightarrow> friend_key n = friend_key (friend_number fi) \<and> fi \<in> set (ot_list fr)"
proof -
  assume fr: "friends_ok beyond fr" and fi: "friend_at fr n = Some fi"
  have "fr.ot_ok beyond fr" using fr by (simp add: friends_ok_def)
  with fi have "fi \<in> set (ot_list fr)" unfolding friend_at_def by (auto simp: fr.ot_list_map dest!: map_of_SomeD in_set_zipE)
  moreover have "friend_key n = friend_key (friend_number fi)" using fr fi by (simp add: friends_ok_def friend_at_def)
  ultimately show ?thesis by blast
qed

lemma friends_ok_labels: "friends_ok beyond fr \<Longrightarrow> fi \<in> set (ot_list fr) \<Longrightarrow> good_label fi"
  using friends_ok_list(1,3) [of beyond fr fi] by (auto simp: good_label_def friends_ok_def friend_at_def)

text \<open>A successful store, the next load, and the labels applied to another table.\<close>

lemma store_then_load:
  assumes fr: "friends_ok beyond fr" and fr0: "friends_ok beyond fr0"
    and env: "pe_open env = (\<lambda>_. True)" "pe_write env = (\<lambda>n. n)" "pe_fsync env" "fst (mkdirs env loc s) = 0" "\<forall>bs. length (pe_sha256 env bs) = SHA256_BYTES"
    and sizes: "length dht \<le> MAX_PERSISTENCE_SECTION_SIZE" "length (label_bytes (ot_list fr)) \<le> MAX_PERSISTENCE_SECTION_SIZE"
  obtains s' d fr' where "store_persistence_data env loc dht fr s = Some (0, fr, s')" "load_persistence_data env loc s' = Some (Some d, s')"
    "take (dht_savedata_len d) (dht_savedata d) = dht" "apply_extra_data (extra_savedata d) (extra_savedata_len d) fr0 = Some fr'"
    "fr.ot_ok beyond fr'" "ot_map fr' = fold relabel (ot_list fr) (ot_map fr0)"
proof -
  let ?x = "label_bytes (ot_list fr)"
  have ok: "fr.ot_ok beyond fr" "fr.ot_ok beyond fr0" using fr fr0 by (simp_all add: friends_ok_def)
  obtain s1 where m: "mkdirs env loc s = (0, s1)" using env(4) by (cases "mkdirs env loc s") auto
  let ?i = "data_image env dht ?x"
  let ?s = "fold apply_op [Create (journal_file loc), Write (journal_file loc) ?i, Sync (journal_file loc), Remove (data_file loc), Rename (journal_file loc) (data_file loc)] s1"
  have 1: "store_persistence_data env loc dht fr s = Some (0, fr, ?s)"
    using store_image_eq [OF ok(1), of env dht] env m by (simp add: store_persistence_data_def store_ops_def write_journal_def del: fold_simps)
  have "fs_files ?s (data_file loc) = Some ?i" "fs_files ?s (journal_file loc) = None" using file_names [of loc] by simp_all
  moreover have "load_persistence_data_i env ?i = Some (stored_data dht ?x)"
    unfolding stored_data_def using load_image env(5) sizes by blast
  ultimately have 2: "load_persistence_data env loc ?s = Some (Some (stored_data dht ?x), ?s)"
    using load_from_data [of env loc ?s ?i] env(1) by simp
  have "length ?x < 2 ^ 64" using sizes(2) by (simp add: MAX_PERSISTENCE_SECTION_SIZE_def)
  with apply_labels [OF ok(2), of "ot_list fr" "replicate (ROUND256 (length ?x) - length ?x) 0"] friends_ok_labels [OF fr] obtain fr' where
    3: "apply_extra_data (padded ?x) (length ?x) fr0 = Some fr'" "fr.ot_ok beyond fr'" "ot_map fr' = fold relabel (ot_list fr) (ot_map fr0)"
    unfolding padded_def by blast
  show thesis
    by (rule that [OF 1 2 _ _ 3(2,3)]) (use 3(1) in \<open>simp_all add: stored_data_def padded_def\<close>)
qed


lemma friends_create_ok: "friends_ok beyond (friends_create beyond)" "ot_map (friends_create beyond) = Map.empty"
  using fr.ot_create_spec [where beyond = beyond and hc = None and kc = "Some (friendid_compare beyond)" and cap = 32 and ?'a = FriendInfo]
  by (auto simp: friends_ok_def friends_create_def)

definition demo_friend :: FriendInfo where
  "demo_friend = \<lparr>friend_number = 3, fi_info = \<lparr>fi_user_info = \<lparr>ui_userid = [65], ui_name = [], ui_description = [], ui_has_avatar = False,
     ui_gender = [], ui_phone = [], ui_email = [], ui_region = []\<rparr>, fi_label = [66, 67], fi_status = IOEXConnectionStatus_Disconnected, fi_presence = 0\<rparr>\<rparr>"

lemma single_friend:
  assumes "good_label fi"
  shows "\<exists>fr. friends_ok beyond fr \<and> friend_at fr = [friend_number fi \<mapsto> fi] \<and> ot_list fr = [fi]"
proof -
  have k: "small_friend_key (friend_key (friend_number fi))" using assms by (intro small_key) (simp add: good_label_def)
  have l: "length (ht_lst (ot_table (friends_create beyond))) + 1 < 2 ^ 63"
    by (simp add: friends_create_def ot_create_def hashtable_create_def)
  have ok: "fr.ot_ok beyond (friends_create beyond)" using friends_create_ok(1) by (simp add: friends_ok_def)
  from fr.ot_put_new [OF ok k l, of fi] obtain fr where
    f: "fr.ot_ok beyond fr" "ot_map fr = [friend_key (friend_number fi) \<mapsto> fi]" by (auto simp: friends_create_ok)
  then have fo: "friends_ok beyond fr" using assms by (simp add: friends_ok_def good_label_def)
  have at: "friend_at fr = [friend_number fi \<mapsto> fi]" using f(2) by (simp add: friend_at_def [abs_def] fun_eq_iff)
  have "x = fi" if "x \<in> set (ot_list fr)" for x using friends_ok_list(1) [OF fo that] by (simp add: at split: if_splits)
  moreover have "fi \<in> set (ot_list fr)" using friends_ok_in_list [OF fo, of "friend_number fi" fi] by (simp add: at)
  ultimately have "set (ot_list fr) = {fi}" by blast
  moreover have "distinct (ot_list fr)" using friends_ok_list(2) [OF fo] by (simp add: distinct_map)
  ultimately have "length (ot_list fr) = Suc 0" using distinct_card [of "ot_list fr"] by simp
  then obtain y where "ot_list fr = [y]" by (cases "ot_list fr") simp_all
  with \<open>set (ot_list fr) = {fi}\<close> have "ot_list fr = [fi]" by simp
  with fo at show ?thesis by blast
qed

lemma demo_friends: "\<exists>fr. friends_ok beyond fr \<and> friend_at fr 3 = Some demo_friend \<and> ot_list fr = [demo_friend]"
  using single_friend [of demo_friend beyond] by (auto simp: demo_friend_def good_label_def is_cstring_def)


end
