(* ===== verification/Dht.thy ===== *)
theory Dht
  imports Errors
begin

text \<open>
  The binding to Tox, from \<^verbatim>\<open>src/carrier/dht/dht.c\<close>. Tox itself is a parameter: a record of its functions, each of
  which answers depending on the history \<open>'t\<close> of the calls so far. An enumeration of Tox errors has the constructors
  that the code names and one more for every other value. A call that trips an assertion is \<open>None\<close>.
\<close>

subsection \<open>Errors\<close>

datatype TOX_ERR_NEW = TOX_ERR_NEW_OK | TOX_ERR_NEW_NULL | TOX_ERR_NEW_MALLOC | TOX_ERR_NEW_PORT_ALLOC | TOX_ERR_NEW_PROXY_BAD_TYPE
  | TOX_ERR_NEW_PROXY_BAD_HOST | TOX_ERR_NEW_PROXY_BAD_PORT | TOX_ERR_NEW_PROXY_NOT_FOUND | TOX_ERR_NEW_LOAD_ENCRYPTED
  | TOX_ERR_NEW_LOAD_BAD_FORMAT | TOX_ERR_NEW_other
datatype TOX_ERR_BOOTSTRAP = TOX_ERR_BOOTSTRAP_OK | TOX_ERR_BOOTSTRAP_NULL | TOX_ERR_BOOTSTRAP_BAD_HOST | TOX_ERR_BOOTSTRAP_BAD_PORT
  | TOX_ERR_BOOTSTRAP_other
datatype TOX_ERR_FRIEND_QUERY = TOX_ERR_FRIEND_QUERY_OK | TOX_ERR_FRIEND_QUERY_NULL | TOX_ERR_FRIEND_QUERY_FRIEND_NOT_FOUND
  | TOX_ERR_FRIEND_QUERY_other
datatype TOX_ERR_FRIEND_GET_PUBLIC_KEY = TOX_ERR_FRIEND_GET_PUBLIC_KEY_OK | TOX_ERR_FRIEND_GET_PUBLIC_KEY_FRIEND_NOT_FOUND
  | TOX_ERR_FRIEND_GET_PUBLIC_KEY_other
datatype TOX_ERR_SET_INFO = TOX_ERR_SET_INFO_OK | TOX_ERR_SET_INFO_NULL | TOX_ERR_SET_INFO_TOO_LONG | TOX_ERR_SET_INFO_other
datatype TOX_ERR_FRIEND_BY_PUBLIC_KEY = TOX_ERR_FRIEND_BY_PUBLIC_KEY_OK | TOX_ERR_FRIEND_BY_PUBLIC_KEY_NULL
  | TOX_ERR_FRIEND_BY_PUBLIC_KEY_NOT_FOUND | TOX_ERR_FRIEND_BY_PUBLIC_KEY_other
datatype TOX_ERR_FRIEND_ADD = TOX_ERR_FRIEND_ADD_OK | TOX_ERR_FRIEND_ADD_NULL | TOX_ERR_FRIEND_ADD_TOO_LONG | TOX_ERR_FRIEND_ADD_NO_MESSAGE
  | TOX_ERR_FRIEND_ADD_OWN_KEY | TOX_ERR_FRIEND_ADD_ALREADY_SENT | TOX_ERR_FRIEND_ADD_BAD_CHECKSUM | TOX_ERR_FRIEND_ADD_SET_NEW_NOSPAM
  | TOX_ERR_FRIEND_ADD_MALLOC | TOX_ERR_FRIEND_ADD_other
datatype TOX_ERR_FRIEND_SEND_MESSAGE = TOX_ERR_FRIEND_SEND_MESSAGE_OK | TOX_ERR_FRIEND_SEND_MESSAGE_NULL
  | TOX_ERR_FRIEND_SEND_MESSAGE_FRIEND_NOT_FOUND | TOX_ERR_FRIEND_SEND_MESSAGE_FRIEND_NOT_CONNECTED | TOX_ERR_FRIEND_SEND_MESSAGE_SENDQ
  | TOX_ERR_FRIEND_SEND_MESSAGE_TOO_LONG | TOX_ERR_FRIEND_SEND_MESSAGE_EMPTY | TOX_ERR_FRIEND_SEND_MESSAGE_other
datatype TOX_ERR_FRIEND_DELETE = TOX_ERR_FRIEND_DELETE_OK | TOX_ERR_FRIEND_DELETE_FRIEND_NOT_FOUND | TOX_ERR_FRIEND_DELETE_other
datatype TOX_ERR_FILE_SEND = TOX_ERR_FILE_SEND_OK | TOX_ERR_FILE_SEND_FRIEND_NOT_FOUND | TOX_ERR_FILE_SEND_FRIEND_NOT_CONNECTED
  | TOX_ERR_FILE_SEND_NULL | TOX_ERR_FILE_SEND_NAME_TOO_LONG | TOX_ERR_FILE_SEND_TOO_MANY | TOX_ERR_FILE_SEND_other
datatype TOX_ERR_FILE_SEEK = TOX_ERR_FILE_SEEK_OK | TOX_ERR_FILE_SEEK_FRIEND_NOT_FOUND | TOX_ERR_FILE_SEEK_FRIEND_NOT_CONNECTED
  | TOX_ERR_FILE_SEEK_NOT_FOUND | TOX_ERR_FILE_SEEK_INVALID_POSITION | TOX_ERR_FILE_SEEK_DENIED | TOX_ERR_FILE_SEEK_SENDQ | TOX_ERR_FILE_SEEK_other
datatype TOX_ERR_FILE_CONTROL = TOX_ERR_FILE_CONTROL_OK | TOX_ERR_FILE_CONTROL_FRIEND_NOT_FOUND | TOX_ERR_FILE_CONTROL_FRIEND_NOT_CONNECTED
  | TOX_ERR_FILE_CONTROL_NOT_FOUND | TOX_ERR_FILE_CONTROL_NOT_PAUSED | TOX_ERR_FILE_CONTROL_DENIED | TOX_ERR_FILE_CONTROL_ALREADY_PAUSED
  | TOX_ERR_FILE_CONTROL_SENDQ | TOX_ERR_FILE_CONTROL_other
datatype TOX_ERR_FILE_SEND_CHUNK = TOX_ERR_FILE_SEND_CHUNK_OK | TOX_ERR_FILE_SEND_CHUNK_NULL | TOX_ERR_FILE_SEND_CHUNK_FRIEND_NOT_FOUND
  | TOX_ERR_FILE_SEND_CHUNK_FRIEND_NOT_CONNECTED | TOX_ERR_FILE_SEND_CHUNK_NOT_FOUND | TOX_ERR_FILE_SEND_CHUNK_INVALID_LENGTH
  | TOX_ERR_FILE_SEND_CHUNK_WRONG_POSITION | TOX_ERR_FILE_SEND_CHUNK_NOT_TRANSFERRING | TOX_ERR_FILE_SEND_CHUNK_SENDQ
  | TOX_ERR_FILE_SEND_CHUNK_other

definition dht_new_error :: "TOX_ERR_NEW \<Rightarrow> int" where
  "dht_new_error code =
     (case code of
        TOX_ERR_NEW_OK \<Rightarrow> 0
      | TOX_ERR_NEW_NULL \<Rightarrow> IOEX_DHT_ERROR IOEXERR_INVALID_ARGS
      | TOX_ERR_NEW_MALLOC \<Rightarrow> IOEX_DHT_ERROR IOEXERR_OUT_OF_MEMORY
      | TOX_ERR_NEW_PORT_ALLOC \<Rightarrow> IOEX_DHT_ERROR IOEXERR_PORT_ALLOC
      | TOX_ERR_NEW_PROXY_BAD_TYPE \<Rightarrow> IOEX_DHT_ERROR IOEXERR_BAD_PROXY_TYPE
      | TOX_ERR_NEW_PROXY_BAD_HOST \<Rightarrow> IOEX_DHT_ERROR IOEXERR_BAD_PROXY_HOST
      | TOX_ERR_NEW_PROXY_BAD_PORT \<Rightarrow> IOEX_DHT_ERROR IOEXERR_BAD_PROXY_PORT
      | TOX_ERR_NEW_PROXY_NOT_FOUND \<Rightarrow> IOEX_DHT_ERROR IOEXERR_PROXY_NOT_AVAILABLE
      | TOX_ERR_NEW_LOAD_ENCRYPTED \<Rightarrow> IOEX_DHT_ERROR IOEXERR_ENCRYPTED_PERSISTENT_DATA
      | TOX_ERR_NEW_LOAD_BAD_FORMAT \<Rightarrow> IOEX_DHT_ERROR IOEXERR_BAD_PERSISTENT_DATA
      | TOX_ERR_NEW_other \<Rightarrow> IOEX_DHT_ERROR IOEXERR_UNKNOWN)"

definition dht_bootstrap_error :: "TOX_ERR_BOOTSTRAP \<Rightarrow> int" where
  "dht_bootstrap_error code =
     (case code of
        TOX_ERR_BOOTSTRAP_OK \<Rightarrow> 0
      | TOX_ERR_BOOTSTRAP_NULL \<Rightarrow> IOEX_DHT_ERROR IOEXERR_INVALID_ARGS
      | TOX_ERR_BOOTSTRAP_BAD_HOST \<Rightarrow> IOEX_DHT_ERROR IOEXERR_BAD_BOOTSTRAP_HOST
      | TOX_ERR_BOOTSTRAP_BAD_PORT \<Rightarrow> IOEX_DHT_ERROR IOEXERR_BAD_BOOTSTRAP_PORT
      | TOX_ERR_BOOTSTRAP_other \<Rightarrow> IOEX_DHT_ERROR IOEXERR_UNKNOWN)"

definition dht_friend_query_error :: "TOX_ERR_FRIEND_QUERY \<Rightarrow> int" where
  "dht_friend_query_error code =
     (case code of
        TOX_ERR_FRIEND_QUERY_OK \<Rightarrow> 0
      | TOX_ERR_FRIEND_QUERY_NULL \<Rightarrow> IOEX_DHT_ERROR IOEXERR_INVALID_ARGS
      | TOX_ERR_FRIEND_QUERY_FRIEND_NOT_FOUND \<Rightarrow> IOEX_DHT_ERROR IOEXERR_NOT_EXIST
      | TOX_ERR_FRIEND_QUERY_other \<Rightarrow> IOEX_DHT_ERROR IOEXERR_UNKNOWN)"

definition dht_friend_get_pk_error :: "TOX_ERR_FRIEND_GET_PUBLIC_KEY \<Rightarrow> int" where
  "dht_friend_get_pk_error code =
     (case code of
        TOX_ERR_FRIEND_GET_PUBLIC_KEY_OK \<Rightarrow> 0
      | TOX_ERR_FRIEND_GET_PUBLIC_KEY_FRIEND_NOT_FOUND \<Rightarrow> IOEX_DHT_ERROR IOEXERR_NOT_EXIST
      | TOX_ERR_FRIEND_GET_PUBLIC_KEY_other \<Rightarrow> IOEX_DHT_ERROR IOEXERR_UNKNOWN)"

definition dht_set_info_error :: "TOX_ERR_SET_INFO \<Rightarrow> int" where
  "dht_set_info_error code =
     (case code of
        TOX_ERR_SET_INFO_OK \<Rightarrow> 0
      | TOX_ERR_SET_INFO_NULL \<Rightarrow> IOEX_DHT_ERROR IOEXERR_INVALID_ARGS
      | TOX_ERR_SET_INFO_TOO_LONG \<Rightarrow> IOEX_DHT_ERROR IOEXERR_TOO_LONG
      | TOX_ERR_SET_INFO_other \<Rightarrow> IOEX_DHT_ERROR IOEXERR_UNKNOWN)"

definition dht_friend_by_pk_error :: "TOX_ERR_FRIEND_BY_PUBLIC_KEY \<Rightarrow> int" where
  "dht_friend_by_pk_error code =
     (case code of
        TOX_ERR_FRIEND_BY_PUBLIC_KEY_OK \<Rightarrow> 0
      | TOX_ERR_FRIEND_BY_PUBLIC_KEY_NULL \<Rightarrow> IOEX_DHT_ERROR IOEXERR_INVALID_ARGS
      | TOX_ERR_FRIEND_BY_PUBLIC_KEY_NOT_FOUND \<Rightarrow> IOEX_DHT_ERROR IOEXERR_NOT_EXIST
      | TOX_ERR_FRIEND_BY_PUBLIC_KEY_other \<Rightarrow> IOEX_DHT_ERROR IOEXERR_UNKNOWN)"

definition dht_friend_add_error :: "TOX_ERR_FRIEND_ADD \<Rightarrow> int" where
  "dht_friend_add_error code =
     (case code of
        TOX_ERR_FRIEND_ADD_OK \<Rightarrow> 0
      | TOX_ERR_FRIEND_ADD_NULL \<Rightarrow> IOEX_DHT_ERROR IOEXERR_INVALID_ARGS
      | TOX_ERR_FRIEND_ADD_TOO_LONG \<Rightarrow> IOEX_DHT_ERROR IOEXERR_TOO_LONG
      | TOX_ERR_FRIEND_ADD_NO_MESSAGE \<Rightarrow> IOEX_DHT_ERROR IOEXERR_INVALID_ARGS
      | TOX_ERR_FRIEND_ADD_OWN_KEY \<Rightarrow> IOEX_DHT_ERROR IOEXERR_ADD_SELF
      | TOX_ERR_FRIEND_ADD_ALREADY_SENT \<Rightarrow> IOEX_DHT_ERROR IOEXERR_ALREADY_EXIST
      | TOX_ERR_FRIEND_ADD_BAD_CHECKSUM \<Rightarrow> IOEX_DHT_ERROR IOEXERR_BAD_ADDRESS
      | TOX_ERR_FRIEND_ADD_SET_NEW_NOSPAM \<Rightarrow> IOEX_DHT_ERROR IOEXERR_BAD_ADDRESS
      | TOX_ERR_FRIEND_ADD_MALLOC \<Rightarrow> IOEX_DHT_ERROR IOEXERR_OUT_OF_MEMORY
      | TOX_ERR_FRIEND_ADD_other \<Rightarrow> IOEX_DHT_ERROR IOEXERR_UNKNOWN)"

definition dht_friend_send_msg_error :: "TOX_ERR_FRIEND_SEND_MESSAGE \<Rightarrow> int" where
  "dht_friend_send_msg_error code =
     (case code of
        TOX_ERR_FRIEND_SEND_MESSAGE_OK \<Rightarrow> 0
      | TOX_ERR_FRIEND_SEND_MESSAGE_NULL \<Rightarrow> IOEX_DHT_ERROR IOEXERR_INVALID_ARGS
      | TOX_ERR_FRIEND_SEND_MESSAGE_FRIEND_NOT_FOUND \<Rightarrow> IOEX_DHT_ERROR IOEXERR_NOT_EXIST
      | TOX_ERR_FRIEND_SEND_MESSAGE_FRIEND_NOT_CONNECTED \<Rightarrow> IOEX_DHT_ERROR IOEXERR_FRIEND_OFFLINE
      | TOX_ERR_FRIEND_SEND_MESSAGE_SENDQ \<Rightarrow> IOEX_DHT_ERROR IOEXERR_OUT_OF_MEMORY
      | TOX_ERR_FRIEND_SEND_MESSAGE_TOO_LONG \<Rightarrow> IOEX_DHT_ERROR IOEXERR_TOO_LONG
      | TOX_ERR_FRIEND_SEND_MESSAGE_EMPTY \<Rightarrow> IOEX_DHT_ERROR IOEXERR_INVALID_ARGS
      | TOX_ERR_FRIEND_SEND_MESSAGE_other \<Rightarrow> IOEX_DHT_ERROR IOEXERR_UNKNOWN)"

definition dht_friend_delete_error :: "TOX_ERR_FRIEND_DELETE \<Rightarrow> int" where
  "dht_friend_delete_error code =
     (case code of
        TOX_ERR_FRIEND_DELETE_OK \<Rightarrow> 0
      | TOX_ERR_FRIEND_DELETE_FRIEND_NOT_FOUND \<Rightarrow> IOEX_DHT_ERROR IOEXERR_NOT_EXIST
      | TOX_ERR_FRIEND_DELETE_other \<Rightarrow> IOEX_DHT_ERROR IOEXERR_UNKNOWN)"

definition dht_file_send_error :: "TOX_ERR_FILE_SEND \<Rightarrow> int" where
  "dht_file_send_error code =
     (case code of
        TOX_ERR_FILE_SEND_OK \<Rightarrow> 0
      | TOX_ERR_FILE_SEND_FRIEND_NOT_FOUND \<Rightarrow> IOEX_DHT_ERROR IOEXERR_NOT_EXIST
      | TOX_ERR_FILE_SEND_FRIEND_NOT_CONNECTED \<Rightarrow> IOEX_DHT_ERROR IOEXERR_FRIEND_OFFLINE
      | TOX_ERR_FILE_SEND_NULL \<Rightarrow> IOEX_DHT_ERROR IOEXERR_FILE_INVALID
      | TOX_ERR_FILE_SEND_NAME_TOO_LONG \<Rightarrow> IOEX_DHT_ERROR IOEXERR_FILE_INVALID
      | TOX_ERR_FILE_SEND_TOO_MANY \<Rightarrow> IOEX_DHT_ERROR IOEXERR_LIMIT_EXCEEDED
      | TOX_ERR_FILE_SEND_other \<Rightarrow> IOEX_DHT_ERROR IOEXERR_UNKNOWN)"

definition dht_file_seek_error :: "TOX_ERR_FILE_SEEK \<Rightarrow> int" where
  "dht_file_seek_error code =
     (case code of
        TOX_ERR_FILE_SEEK_OK \<Rightarrow> 0
      | TOX_ERR_FILE_SEEK_FRIEND_NOT_FOUND \<Rightarrow> IOEX_DHT_ERROR IOEXERR_NOT_EXIST
      | TOX_ERR_FILE_SEEK_FRIEND_NOT_CONNECTED \<Rightarrow> IOEX_DHT_ERROR IOEXERR_FRIEND_OFFLINE
      | TOX_ERR_FILE_SEEK_NOT_FOUND \<Rightarrow> IOEX_DHT_ERROR IOEXERR_FILE_INVALID
      | TOX_ERR_FILE_SEEK_INVALID_POSITION \<Rightarrow> IOEX_DHT_ERROR IOEXERR_FILE_INVALID
      | TOX_ERR_FILE_SEEK_DENIED \<Rightarrow> IOEX_DHT_ERROR IOEXERR_WRONG_STATE
      | TOX_ERR_FILE_SEEK_SENDQ \<Rightarrow> IOEX_DHT_ERROR IOEXERR_LIMIT_EXCEEDED
      | TOX_ERR_FILE_SEEK_other \<Rightarrow> IOEX_DHT_ERROR IOEXERR_UNKNOWN)"

definition dht_file_control_error :: "TOX_ERR_FILE_CONTROL \<Rightarrow> int" where
  "dht_file_control_error code =
     (case code of
        TOX_ERR_FILE_CONTROL_OK \<Rightarrow> 0
      | TOX_ERR_FILE_CONTROL_FRIEND_NOT_FOUND \<Rightarrow> IOEX_DHT_ERROR IOEXERR_NOT_EXIST
      | TOX_ERR_FILE_CONTROL_FRIEND_NOT_CONNECTED \<Rightarrow> IOEX_DHT_ERROR IOEXERR_FRIEND_OFFLINE
      | TOX_ERR_FILE_CONTROL_NOT_FOUND \<Rightarrow> IOEX_DHT_ERROR IOEXERR_FILE_INVALID
      | TOX_ERR_FILE_CONTROL_NOT_PAUSED \<Rightarrow> IOEX_DHT_ERROR IOEXERR_WRONG_STATE
      | TOX_ERR_FILE_CONTROL_DENIED \<Rightarrow> IOEX_DHT_ERROR IOEXERR_WRONG_STATE
      | TOX_ERR_FILE_CONTROL_ALREADY_PAUSED \<Rightarrow> IOEX_DHT_ERROR IOEXERR_WRONG_STATE
      | TOX_ERR_FILE_CONTROL_SENDQ \<Rightarrow> IOEX_DHT_ERROR IOEXERR_LIMIT_EXCEEDED
      | TOX_ERR_FILE_CONTROL_other \<Rightarrow> IOEX_DHT_ERROR IOEXERR_UNKNOWN)"

definition dht_file_send_chunk_error :: "TOX_ERR_FILE_SEND_CHUNK \<Rightarrow> int" where
  "dht_file_send_chunk_error code =
     (case code of
        TOX_ERR_FILE_SEND_CHUNK_OK \<Rightarrow> 0
      | TOX_ERR_FILE_SEND_CHUNK_NULL \<Rightarrow> IOEX_DHT_ERROR IOEXERR_FILE_INVALID
      | TOX_ERR_FILE_SEND_CHUNK_FRIEND_NOT_FOUND \<Rightarrow> IOEX_DHT_ERROR IOEXERR_NOT_EXIST
      | TOX_ERR_FILE_SEND_CHUNK_FRIEND_NOT_CONNECTED \<Rightarrow> IOEX_DHT_ERROR IOEXERR_FRIEND_OFFLINE
      | TOX_ERR_FILE_SEND_CHUNK_NOT_FOUND \<Rightarrow> IOEX_DHT_ERROR IOEXERR_FILE_INVALID
      | TOX_ERR_FILE_SEND_CHUNK_INVALID_LENGTH \<Rightarrow> IOEX_DHT_ERROR IOEXERR_FILE_INVALID
      | TOX_ERR_FILE_SEND_CHUNK_WRONG_POSITION \<Rightarrow> IOEX_DHT_ERROR IOEXERR_FILE_INVALID
      | TOX_ERR_FILE_SEND_CHUNK_NOT_TRANSFERRING \<Rightarrow> IOEX_DHT_ERROR IOEXERR_WRONG_STATE
      | TOX_ERR_FILE_SEND_CHUNK_SENDQ \<Rightarrow> IOEX_DHT_ERROR IOEXERR_LIMIT_EXCEEDED
      | TOX_ERR_FILE_SEND_CHUNK_other \<Rightarrow> IOEX_DHT_ERROR IOEXERR_UNKNOWN)"

text \<open>No error is reported as success, and success is not reported as an error.\<close>

lemma new_error_sign [simp]: "dht_new_error e < 0 \<longleftrightarrow> e \<noteq> TOX_ERR_NEW_OK"
  by (cases e) (simp_all add: dht_new_error_def error_codes)

lemma bootstrap_error_sign [simp]: "dht_bootstrap_error e < 0 \<longleftrightarrow> e \<noteq> TOX_ERR_BOOTSTRAP_OK"
  by (cases e) (simp_all add: dht_bootstrap_error_def error_codes)

lemma friend_query_error_sign [simp]: "dht_friend_query_error e < 0 \<longleftrightarrow> e \<noteq> TOX_ERR_FRIEND_QUERY_OK"
  by (cases e) (simp_all add: dht_friend_query_error_def error_codes)

lemma friend_get_pk_error_sign [simp]: "dht_friend_get_pk_error e < 0 \<longleftrightarrow> e \<noteq> TOX_ERR_FRIEND_GET_PUBLIC_KEY_OK"
  by (cases e) (simp_all add: dht_friend_get_pk_error_def error_codes)

lemma set_info_error_sign [simp]: "dht_set_info_error e < 0 \<longleftrightarrow> e \<noteq> TOX_ERR_SET_INFO_OK"
  by (cases e) (simp_all add: dht_set_info_error_def error_codes)

lemma friend_by_pk_error_sign [simp]: "dht_friend_by_pk_error e < 0 \<longleftrightarrow> e \<noteq> TOX_ERR_FRIEND_BY_PUBLIC_KEY_OK"
  by (cases e) (simp_all add: dht_friend_by_pk_error_def error_codes)

lemma friend_add_error_sign [simp]: "dht_friend_add_error e < 0 \<longleftrightarrow> e \<noteq> TOX_ERR_FRIEND_ADD_OK"
  by (cases e) (simp_all add: dht_friend_add_error_def error_codes)

lemma friend_send_msg_error_sign [simp]: "dht_friend_send_msg_error e < 0 \<longleftrightarrow> e \<noteq> TOX_ERR_FRIEND_SEND_MESSAGE_OK"
  by (cases e) (simp_all add: dht_friend_send_msg_error_def error_codes)

lemma friend_delete_error_sign [simp]: "dht_friend_delete_error e < 0 \<longleftrightarrow> e \<noteq> TOX_ERR_FRIEND_DELETE_OK"
  by (cases e) (simp_all add: dht_friend_delete_error_def error_codes)

lemma file_send_error_sign [simp]: "dht_file_send_error e < 0 \<longleftrightarrow> e \<noteq> TOX_ERR_FILE_SEND_OK"
  by (cases e) (simp_all add: dht_file_send_error_def error_codes)

lemma file_seek_error_sign [simp]: "dht_file_seek_error e < 0 \<longleftrightarrow> e \<noteq> TOX_ERR_FILE_SEEK_OK"
  by (cases e) (simp_all add: dht_file_seek_error_def error_codes)

lemma file_control_error_sign [simp]: "dht_file_control_error e < 0 \<longleftrightarrow> e \<noteq> TOX_ERR_FILE_CONTROL_OK"
  by (cases e) (simp_all add: dht_file_control_error_def error_codes)

lemma file_send_chunk_error_sign [simp]: "dht_file_send_chunk_error e < 0 \<longleftrightarrow> e \<noteq> TOX_ERR_FILE_SEND_CHUNK_OK"
  by (cases e) (simp_all add: dht_file_send_chunk_error_def error_codes)

lemma dht_error_ok [simp]:
  "dht_new_error TOX_ERR_NEW_OK = 0" "dht_bootstrap_error TOX_ERR_BOOTSTRAP_OK = 0" "dht_friend_query_error TOX_ERR_FRIEND_QUERY_OK = 0"
  "dht_friend_get_pk_error TOX_ERR_FRIEND_GET_PUBLIC_KEY_OK = 0" "dht_set_info_error TOX_ERR_SET_INFO_OK = 0"
  "dht_friend_by_pk_error TOX_ERR_FRIEND_BY_PUBLIC_KEY_OK = 0" "dht_friend_add_error TOX_ERR_FRIEND_ADD_OK = 0"
  "dht_friend_send_msg_error TOX_ERR_FRIEND_SEND_MESSAGE_OK = 0" "dht_friend_delete_error TOX_ERR_FRIEND_DELETE_OK = 0"
  "dht_file_send_error TOX_ERR_FILE_SEND_OK = 0" "dht_file_seek_error TOX_ERR_FILE_SEEK_OK = 0"
  "dht_file_control_error TOX_ERR_FILE_CONTROL_OK = 0" "dht_file_send_chunk_error TOX_ERR_FILE_SEND_CHUNK_OK = 0"
  by (simp_all add: dht_new_error_def dht_bootstrap_error_def dht_friend_query_error_def dht_friend_get_pk_error_def dht_set_info_error_def
    dht_friend_by_pk_error_def dht_friend_add_error_def dht_friend_send_msg_error_def dht_friend_delete_error_def dht_file_send_error_def
    dht_file_seek_error_def dht_file_control_error_def dht_file_send_chunk_error_def)

subsection \<open>Tox\<close>

datatype TOX_CONNECTION = TOX_CONNECTION_NONE | TOX_CONNECTION_TCP | TOX_CONNECTION_UDP | TOX_CONNECTION_other
datatype TOX_MESSAGE_TYPE = TOX_MESSAGE_TYPE_NORMAL | TOX_MESSAGE_TYPE_other
datatype TOX_FILE_CONTROL = TOX_FILE_CONTROL_RESUME | TOX_FILE_CONTROL_PAUSE | TOX_FILE_CONTROL_CANCEL | TOX_FILE_CONTROL_other

text \<open>What Tox calls while it iterates.\<close>

datatype tox_callback =
    Self_connection_status TOX_CONNECTION
  | Friend_status_message u32 "u8 list"
  | Friend_connection_status u32 TOX_CONNECTION
  | Friend_status u32 int
  | Friend_request_received "u8 list" "u8 list"
  | Friend_message_received u32 TOX_MESSAGE_TYPE "u8 list"
  | File_recv u32 u32 nat "u8 list"
  | File_recv_control u32 u32 TOX_FILE_CONTROL
  | File_chunk_request u32 u32 nat nat
  | File_recv_chunk u32 u32 nat "u8 list"

record 't tox =
  tox_new :: "u8 list option \<Rightarrow> bool \<Rightarrow> bool \<times> TOX_ERR_NEW"
  tox_bootstrap :: "'t \<Rightarrow> cstring \<Rightarrow> u16 \<Rightarrow> u8 list \<Rightarrow> bool \<times> TOX_ERR_BOOTSTRAP"
  tox_add_tcp_relay :: "'t \<Rightarrow> cstring \<Rightarrow> u16 \<Rightarrow> u8 list \<Rightarrow> bool \<times> TOX_ERR_BOOTSTRAP"
  tox_self_get_nospam :: "'t \<Rightarrow> u32"
  tox_self_get_status :: "'t \<Rightarrow> int"
  tox_self_get_address :: "'t \<Rightarrow> u8 list"
  tox_self_get_public_key :: "'t \<Rightarrow> u8 list"
  tox_self_get_status_message :: "'t \<Rightarrow> u8 list"
  tox_self_get_friend_list :: "'t \<Rightarrow> u32 list"
  tox_friend_get_status_message_size :: "'t \<Rightarrow> u32 \<Rightarrow> TOX_ERR_FRIEND_QUERY"
  tox_friend_get_status_message :: "'t \<Rightarrow> u32 \<Rightarrow> u8 list \<times> bool \<times> TOX_ERR_FRIEND_QUERY"
  tox_friend_get_status :: "'t \<Rightarrow> u32 \<Rightarrow> int \<times> TOX_ERR_FRIEND_QUERY"
  tox_friend_get_public_key :: "'t \<Rightarrow> u32 \<Rightarrow> u8 list \<times> bool \<times> TOX_ERR_FRIEND_GET_PUBLIC_KEY"
  tox_get_savedata :: "'t \<Rightarrow> u8 list"
  tox_self_get_secret_key :: "'t \<Rightarrow> u8 list"
  tox_self_get_random_tcp_relay :: "'t \<Rightarrow> nat \<Rightarrow> int \<times> u8 list \<times> u8 list"
  tox_iteration_interval :: "'t \<Rightarrow> int"
  tox_iterate :: "'t \<Rightarrow> tox_callback list"
  tox_self_set_name :: "'t \<Rightarrow> u8 list \<Rightarrow> bool \<times> TOX_ERR_SET_INFO"
  tox_self_set_status_message :: "'t \<Rightarrow> u8 list \<Rightarrow> bool \<times> TOX_ERR_SET_INFO"
  tox_friend_by_public_key :: "'t \<Rightarrow> u8 list \<Rightarrow> u32 \<times> TOX_ERR_FRIEND_BY_PUBLIC_KEY"
  tox_friend_add :: "'t \<Rightarrow> u8 list \<Rightarrow> u8 list \<Rightarrow> u32 \<times> TOX_ERR_FRIEND_ADD"
  tox_friend_add_norequest :: "'t \<Rightarrow> u8 list \<Rightarrow> u32 \<times> TOX_ERR_FRIEND_ADD"
  tox_friend_send_message :: "'t \<Rightarrow> u32 \<Rightarrow> u8 list \<Rightarrow> TOX_ERR_FRIEND_SEND_MESSAGE"
  tox_friend_delete :: "'t \<Rightarrow> u32 \<Rightarrow> TOX_ERR_FRIEND_DELETE"
  tox_file_send :: "'t \<Rightarrow> u32 \<Rightarrow> nat \<Rightarrow> cstring \<Rightarrow> u32 \<times> TOX_ERR_FILE_SEND"
  tox_file_control :: "'t \<Rightarrow> u32 \<Rightarrow> u32 \<Rightarrow> TOX_FILE_CONTROL \<Rightarrow> TOX_ERR_FILE_CONTROL"
  tox_file_seek :: "'t \<Rightarrow> u32 \<Rightarrow> u32 \<Rightarrow> nat \<Rightarrow> TOX_ERR_FILE_SEEK"
  tox_file_send_chunk :: "'t \<Rightarrow> u32 \<Rightarrow> u32 \<Rightarrow> nat \<Rightarrow> u8 list \<Rightarrow> TOX_ERR_FILE_SEND_CHUNK"

subsection \<open>Calls of the carrier\<close>

definition dht_new :: "'t tox \<Rightarrow> u8 list option \<Rightarrow> bool \<Rightarrow> int" where
  "dht_new tx savedata udp_enabled =
     (let (ok, err) = tox_new tx (case savedata of Some d \<Rightarrow> if d \<noteq> [] then Some d else None | None \<Rightarrow> None) udp_enabled
      in if \<not> ok then dht_new_error err else 0)"

text \<open>One host of a bootstrap node: \<open>Some\<close> with the error that ends the function, if there is one.\<close>

definition bootstrap_host :: "'t tox \<Rightarrow> 't \<Rightarrow> cstring \<Rightarrow> u16 \<Rightarrow> u8 list \<Rightarrow> int option" where
  "bootstrap_host tx h ip port address =
     (let (ok, err) = tox_bootstrap tx h ip port address in
      if \<not> ok then Some (dht_bootstrap_error err)
      else let (ok2, err2) = tox_add_tcp_relay tx h ip port address in
           if \<not> ok2 then Some (dht_bootstrap_error err2) else None)"

definition dht_bootstrap :: "'t tox \<Rightarrow> 't \<Rightarrow> cstring \<Rightarrow> cstring \<Rightarrow> int \<Rightarrow> u8 list \<Rightarrow> int option" where
  "dht_bootstrap tx h ipv4 ipv6 port address =
     do {
       c_assert (ipv4 \<noteq> [] \<or> ipv6 \<noteq> []);
       c_assert (port > 0);
       case (if ipv4 \<noteq> [] then bootstrap_host tx h ipv4 (of_int port) address else None) of
         Some rc \<Rightarrow> Some rc
       | None \<Rightarrow>
           (case (if ipv6 \<noteq> [] then bootstrap_host tx h ipv6 (of_int port) address else None) of
              Some rc \<Rightarrow> Some rc
            | None \<Rightarrow> Some 0)
     }"

definition dht_self_get_nospam :: "'t tox \<Rightarrow> 't \<Rightarrow> u32" where
  "dht_self_get_nospam tx h = tox_self_get_nospam tx h"

definition dht_self_get_status :: "'t tox \<Rightarrow> 't \<Rightarrow> int" where
  "dht_self_get_status tx h = tox_self_get_status tx h"

text \<open>The arguments that the callback gets; the function always returns 0.\<close>

definition dht_get_self_info :: "'t tox \<Rightarrow> 't \<Rightarrow> int \<times> (u8 list \<times> u8 list \<times> int \<times> u8 list)" where
  "dht_get_self_info tx h =
     (0, tox_self_get_address tx h, tox_self_get_public_key tx h, tox_self_get_status tx h, tox_self_get_status_message tx h)"

text \<open>The loop over the friend list; the callback says whether to go on.\<close>

fun get_friends_loop :: "'t tox \<Rightarrow> 't \<Rightarrow> (u32 \<Rightarrow> u8 list \<Rightarrow> int \<Rightarrow> u8 list \<Rightarrow> 's \<Rightarrow> (bool \<times> 's) option) \<Rightarrow> u32 list \<Rightarrow> 's \<Rightarrow> (int \<times> 's) option" where
  "get_friends_loop tx h cb [] s = Some (0, s)"
| "get_friends_loop tx h cb (n # ns) s =
     (let err = tox_friend_get_status_message_size tx h n in
      if err \<noteq> TOX_ERR_FRIEND_QUERY_OK then Some (dht_friend_query_error err, s)
      else let (desc, ok, err) = tox_friend_get_status_message tx h n in
      if \<not> ok then Some (dht_friend_query_error err, s)
      else let (status, err) = tox_friend_get_status tx h n in
      if err \<noteq> TOX_ERR_FRIEND_QUERY_OK then Some (dht_friend_query_error err, s)
      else let (public_key, ok, err) = tox_friend_get_public_key tx h n in
      if \<not> ok then Some (dht_friend_get_pk_error err, s)
      else do {
        (go, s1) \<leftarrow> cb n public_key status desc s;
        if \<not> go then Some (0, s1) else get_friends_loop tx h cb ns s1
      })"

definition dht_get_friends :: "'t tox \<Rightarrow> 't \<Rightarrow> (u32 \<Rightarrow> u8 list \<Rightarrow> int \<Rightarrow> u8 list \<Rightarrow> 's \<Rightarrow> (bool \<times> 's) option) \<Rightarrow> 's \<Rightarrow> (int \<times> 's) option" where
  "dht_get_friends tx h cb s = get_friends_loop tx h cb (tox_self_get_friend_list tx h) s"

definition dht_get_savedata :: "'t tox \<Rightarrow> 't \<Rightarrow> u8 list" where
  "dht_get_savedata tx h = tox_get_savedata tx h"

definition dht_get_savedata_size :: "'t tox \<Rightarrow> 't \<Rightarrow> nat" where
  "dht_get_savedata_size tx h = length (tox_get_savedata tx h)"

definition dht_iteration_idle :: "'t tox \<Rightarrow> 't \<Rightarrow> int" where
  "dht_iteration_idle tx h = tox_iteration_interval tx h"

definition dht_self_set_name :: "'t tox \<Rightarrow> 't \<Rightarrow> u8 list \<Rightarrow> int" where
  "dht_self_set_name tx h name = (let (ok, err) = tox_self_set_name tx h name in if \<not> ok then dht_set_info_error err else 0)"

definition dht_self_set_desc :: "'t tox \<Rightarrow> 't \<Rightarrow> u8 list \<Rightarrow> int" where
  "dht_self_set_desc tx h desc = (let (ok, err) = tox_self_set_status_message tx h desc in if \<not> ok then dht_set_info_error err else 0)"

text \<open>The return code and what stands in \<^verbatim>\<open>*friend_number\<close> afterwards; when adding fails it keeps its value \<open>old\<close>.\<close>

definition dht_get_friend_number :: "'t tox \<Rightarrow> 't \<Rightarrow> u8 list \<Rightarrow> int \<times> u32" where
  "dht_get_friend_number tx h public_key =
     (let (n, err) = tox_friend_by_public_key tx h public_key
      in (if n = UINT32_MAX then dht_friend_by_pk_error err else 0, n))"

definition dht_friend_add :: "'t tox \<Rightarrow> 't \<Rightarrow> u8 list \<Rightarrow> u8 list \<Rightarrow> u32 \<Rightarrow> (int \<times> u32) option" where
  "dht_friend_add tx h address msg old =
     do {
       c_assert (msg \<noteq> []);
       let (fid, err) = tox_friend_add tx h address msg;
       Some (if fid = UINT32_MAX then (dht_friend_add_error err, old) else (0, fid))
     }"

definition dht_friend_add_norequest :: "'t tox \<Rightarrow> 't \<Rightarrow> u8 list \<Rightarrow> u32 \<Rightarrow> int \<times> u32" where
  "dht_friend_add_norequest tx h public_key old =
     (let (fid, err) = tox_friend_add_norequest tx h public_key
      in if fid = UINT32_MAX then (dht_friend_add_error err, old) else (0, fid))"

definition dht_friend_message :: "'t tox \<Rightarrow> 't \<Rightarrow> u32 \<Rightarrow> u8 list \<Rightarrow> int option" where
  "dht_friend_message tx h n data =
     do {
       c_assert (n \<noteq> UINT32_MAX);
       c_assert (data \<noteq> []);
       let err = tox_friend_send_message tx h n data;
       Some (if err \<noteq> TOX_ERR_FRIEND_SEND_MESSAGE_OK then dht_friend_send_msg_error err else 0)
     }"

definition dht_friend_delete :: "'t tox \<Rightarrow> 't \<Rightarrow> u32 \<Rightarrow> int option" where
  "dht_friend_delete tx h n =
     do {
       c_assert (n \<noteq> UINT32_MAX);
       let err = tox_friend_delete tx h n;
       Some (if err \<noteq> TOX_ERR_FRIEND_DELETE_OK then dht_friend_delete_error err else 0)
     }"

definition dht_self_get_secret_key :: "'t tox \<Rightarrow> 't \<Rightarrow> u8 list" where
  "dht_self_get_secret_key tx h = tox_self_get_secret_key tx h"

text \<open>
  \<^verbatim>\<open>inet_ntoa\<close> of four bytes. The relay is found anew in each attempt; the result is the return code, the text of
  the address and the key, which is written even if the address does not fit.
\<close>

fun decimal :: "nat \<Rightarrow> cstring" where
  "decimal n = (if n < 10 then [of_nat (0x30 + n)] else decimal (n div 10) @ [of_nat (0x30 + n mod 10)])"

definition inet_ntoa :: "u8 list \<Rightarrow> cstring" where
  "inet_ntoa ip = concat (map (\<lambda>i. (if i = 0 then [] else [0x2e]) @ decimal (unat (ip ! i))) [0..<4])"

definition dht_get_random_tcp_relay :: "'t tox \<Rightarrow> 't \<Rightarrow> nat \<Rightarrow> nat \<Rightarrow> int \<times> cstring \<times> u8 list" where
  "dht_get_random_tcp_relay tx h attempt buflen =
     (let (rc, ip, public_key) = tox_self_get_random_tcp_relay tx h attempt in
      if rc < 0 then (rc, [], public_key)
      else if length (inet_ntoa ip) \<ge> buflen then (-1, [], public_key)
      else (0, inet_ntoa ip, public_key))"

text \<open>
  The part of a path behind the last slash; \<^verbatim>\<open>strncpy\<close> into an array of 512 characters, where a name that does not
  fit is not terminated.
\<close>

definition base_name :: "cstring \<Rightarrow> cstring" where
  "base_name path = rev (takeWhile (\<lambda>c. c \<noteq> 0x2f) (rev path))"

definition IOEX_MAX_FILE_NAME_LEN :: nat where "IOEX_MAX_FILE_NAME_LEN = 511"

definition dht_file_send_request :: "'t tox \<Rightarrow> 't \<Rightarrow> (cstring \<Rightarrow> nat option) \<Rightarrow> u32 \<Rightarrow> cstring \<Rightarrow> u32 \<Rightarrow> (int \<times> u32) option" where
  "dht_file_send_request tx h file_size n fullpath old =
     (case file_size fullpath of
        None \<Rightarrow> Some (IOEX_GENERAL_ERROR IOEXERR_FILE_INVALID, old)
      | Some filesize \<Rightarrow> do {
          filename \<leftarrow> strcpy_into (IOEX_MAX_FILE_NAME_LEN + 1) (base_name fullpath);
          let (filenum, err) = tox_file_send tx h n filesize filename;
          Some (dht_file_send_error err, filenum)
        })"

definition dht_file_send_accept :: "'t tox \<Rightarrow> 't \<Rightarrow> u32 \<Rightarrow> u32 \<Rightarrow> int" where
  "dht_file_send_accept tx h n file_number = dht_file_control_error (tox_file_control tx h n file_number TOX_FILE_CONTROL_RESUME)"

definition dht_file_send_seek :: "'t tox \<Rightarrow> 't \<Rightarrow> u32 \<Rightarrow> u32 \<Rightarrow> nat \<Rightarrow> int" where
  "dht_file_send_seek tx h n file_number position = dht_file_seek_error (tox_file_seek tx h n file_number position)"

definition dht_file_send_reject :: "'t tox \<Rightarrow> 't \<Rightarrow> u32 \<Rightarrow> u32 \<Rightarrow> int" where
  "dht_file_send_reject tx h n file_number = dht_file_control_error (tox_file_control tx h n file_number TOX_FILE_CONTROL_CANCEL)"

definition dht_file_send_pause :: "'t tox \<Rightarrow> 't \<Rightarrow> u32 \<Rightarrow> u32 \<Rightarrow> int" where
  "dht_file_send_pause tx h n file_number = dht_file_control_error (tox_file_control tx h n file_number TOX_FILE_CONTROL_PAUSE)"

definition dht_file_send_resume :: "'t tox \<Rightarrow> 't \<Rightarrow> u32 \<Rightarrow> u32 \<Rightarrow> int" where
  "dht_file_send_resume tx h n file_number = dht_file_control_error (tox_file_control tx h n file_number TOX_FILE_CONTROL_RESUME)"

definition dht_file_send_cancel :: "'t tox \<Rightarrow> 't \<Rightarrow> u32 \<Rightarrow> u32 \<Rightarrow> int" where
  "dht_file_send_cancel tx h n file_number = dht_file_control_error (tox_file_control tx h n file_number TOX_FILE_CONTROL_CANCEL)"

definition dht_file_send_chunk :: "'t tox \<Rightarrow> 't \<Rightarrow> u32 \<Rightarrow> u32 \<Rightarrow> nat \<Rightarrow> u8 list \<Rightarrow> int" where
  "dht_file_send_chunk tx h n file_number position data = dht_file_send_chunk_error (tox_file_send_chunk tx h n file_number position data)"

subsection \<open>Calls of Tox\<close>

text \<open>What the carrier registers with the binding (\<^verbatim>\<open>DHTCallbacks\<close>), and to which of these a call of Tox leads.\<close>

datatype dht_notification =
    Notify_connection bool
  | Notify_friend_desc u32 "u8 list"
  | Notify_friend_connection u32 bool
  | Notify_friend_status u32 int
  | Notify_friend_request "u8 list" "u8 list"
  | Notify_friend_message u32 "u8 list"
  | Notify_file_request u32 u32 "u8 list" nat
  | Notify_file_accepted u32 u32
  | Notify_file_rejected u32 u32
  | Notify_file_paused u32 u32
  | Notify_file_resumed u32 u32
  | Notify_file_canceled u32 u32
  | Notify_file_chunk_request u32 u32 nat nat
  | Notify_file_chunk_receive u32 u32 nat "u8 list"

definition is_connected :: "TOX_CONNECTION \<Rightarrow> bool" where
  "is_connected connection \<longleftrightarrow> (case connection of TOX_CONNECTION_TCP \<Rightarrow> True | TOX_CONNECTION_UDP \<Rightarrow> True | _ \<Rightarrow> False)"

definition notify_file_control_cb :: "u32 \<Rightarrow> u32 \<Rightarrow> TOX_FILE_CONTROL \<Rightarrow> dht_notification list" where
  "notify_file_control_cb n file_number control =
     (case control of
        TOX_FILE_CONTROL_PAUSE \<Rightarrow> [Notify_file_paused n file_number]
      | TOX_FILE_CONTROL_RESUME \<Rightarrow> [Notify_file_resumed n file_number, Notify_file_accepted n file_number]
      | TOX_FILE_CONTROL_CANCEL \<Rightarrow> [Notify_file_canceled n file_number, Notify_file_rejected n file_number]
      | TOX_FILE_CONTROL_other \<Rightarrow> [])"

definition dht_callback :: "tox_callback \<Rightarrow> dht_notification list" where
  "dht_callback cb =
     (case cb of
        Self_connection_status c \<Rightarrow> [Notify_connection (is_connected c)]
      | Friend_status_message n m \<Rightarrow> [Notify_friend_desc n m]
      | Friend_connection_status n c \<Rightarrow> [Notify_friend_connection n (is_connected c)]
      | Friend_status n st \<Rightarrow> [Notify_friend_status n st]
      | Friend_request_received key hello \<Rightarrow> [Notify_friend_request key hello]
      | Friend_message_received n type m \<Rightarrow> if type \<noteq> TOX_MESSAGE_TYPE_NORMAL then [] else [Notify_friend_message n m]
      | File_recv n f filesize name \<Rightarrow> [Notify_file_request n f name filesize]
      | File_recv_control n f control \<Rightarrow> notify_file_control_cb n f control
      | File_chunk_request n f position len \<Rightarrow> [Notify_file_chunk_request n f position len]
      | File_recv_chunk n f position data \<Rightarrow> [Notify_file_chunk_receive n f position data])"

definition dht_iterate :: "'t tox \<Rightarrow> 't \<Rightarrow> dht_notification list" where
  "dht_iterate tx h = concat (map dht_callback (tox_iterate tx h))"

end
