(* ===== verification/Carrier.thy ===== *)
theory Carrier
  imports Persistence Dht
begin

text \<open>
  The carrier's state and what it does when the DHT notifies it, from \<^verbatim>\<open>src/carrier/IOEX_carrier.c\<close>: presence of
  friends, friend requests, messages and invitations. Tox, below the binding of theory \<open>Dht\<close>, is an
  environment that may answer depending on everything that has happened so far; what the carrier does to the
  outside, callbacks of the application and calls of the DHT, is the list of events \<open>w_trace\<close>. The application's
  callbacks do not call back into the carrier. Memory allocation succeeds, and locks are not modelled. The linked
  lists of friend events and of file transfers are lists. The field \<open>ce_stack\<close> of the environment is the text that an array
  on the stack holds before it is written, and \<open>ce_kill\<close> says whether the application calls \<^verbatim>\<open>IOEX_kill\<close> at that time. A call that trips an assertion or leaves an array is \<open>None\<close>.
\<close>

subsection \<open>State\<close>

definition IOEX_MAX_USER_NAME_LEN :: nat where "IOEX_MAX_USER_NAME_LEN = 63"
definition IOEX_MAX_USER_DESCRIPTION_LEN :: nat where "IOEX_MAX_USER_DESCRIPTION_LEN = 127"
definition IOEX_MAX_PHONE_LEN :: nat where "IOEX_MAX_PHONE_LEN = 31"
definition IOEX_MAX_EMAIL_LEN :: nat where "IOEX_MAX_EMAIL_LEN = 127"
definition IOEX_MAX_REGION_LEN :: nat where "IOEX_MAX_REGION_LEN = 127"
definition IOEX_MAX_GENDER_LEN :: nat where "IOEX_MAX_GENDER_LEN = 31"
definition IOEX_MAX_APP_MESSAGE_LEN :: nat where "IOEX_MAX_APP_MESSAGE_LEN = 1024"

datatype callback = CB_idle | CB_connection_status | CB_ready | CB_friend_list | CB_friend_info | CB_friend_connection
  | CB_friend_presence | CB_friend_request | CB_friend_added | CB_friend_removed | CB_friend_message | CB_friend_invite
  | CB_file_request | CB_file_accepted | CB_file_rejected | CB_file_paused | CB_file_resumed | CB_file_canceled
  | CB_file_chunk_send | CB_file_chunk_send_error | CB_file_chunk_receive

datatype carrier_event =
    Idle
  | Ready
  | Connection_status IOEXConnectionStatus
  | Friend_list "IOEXFriendInfo option"
  | Friend_info cstring IOEXFriendInfo
  | Friend_connection cstring IOEXConnectionStatus
  | Friend_presence cstring int
  | Friend_request cstring IOEXUserInfo cstring
  | Friend_added IOEXFriendInfo
  | Friend_removed cstring
  | Friend_message cstring "u8 list option"
  | Friend_invite cstring "u8 list option"
  | Session_invite cstring "u8 list option"
  | Invite_response nat nat cstring int "cstring option" "u8 list option"
  | File_request cstring u32 cstring nat
  | File_accepted cstring u32
  | File_rejected cstring u32
  | File_paused cstring u32
  | File_resumed cstring u32
  | File_canceled cstring u32
  | File_chunk_send cstring u32 cstring nat nat
  | File_chunk_send_error int cstring u32 cstring nat nat
  | File_chunk_receive cstring u32 cstring nat nat
  | Dht_message u32 "u8 list"
  | Dht_friend_add "u8 list" "u8 list"
  | Dht_friend_add_norequest "u8 list"
  | Dht_friend_delete u32
  | Dht_self_set_desc "u8 list"
  | Dht_self_set_status int
  | Dht_self_set_nospam u32
  | Dht_bootstrap cstring cstring u16 "u8 list"
  | Dht_iterate
  | Dht_file_send u32 cstring
  | Dht_file_control u32 u32 TOX_FILE_CONTROL
  | Dht_file_seek u32 u32 nat
  | Dht_file_chunk u32 u32 nat "u8 list"

datatype FriendEventType = FriendEventType_Added | FriendEventType_Removed

record FriendEvent =
  fe_type :: FriendEventType
  fe_fi :: IOEXFriendInfo

record IOEXFileInfo =
  file_name :: cstring
  file_path :: cstring
  file_friend :: u32
  file_index :: u32

definition MAX_IPV4_ADDRESS_LEN :: nat where "MAX_IPV4_ADDRESS_LEN = 15"
definition MAX_IPV6_ADDRESS_LEN :: nat where "MAX_IPV6_ADDRESS_LEN = 47"

record BootstrapNodeBuf =
  bn_ipv4 :: cstring
  bn_ipv6 :: cstring
  bn_port :: u16
  bn_public_key :: "u8 list"

record IOEXCarrier =
  w_data_location :: cstring
  w_udp_enabled :: bool
  w_bootstraps :: "BootstrapNodeBuf list"
  w_public_key :: "u8 list"
  w_address :: "u8 list"
  w_base58_addr :: cstring
  w_me :: IOEXUserInfo
  w_presence_status :: int
  w_connection_status :: IOEXConnectionStatus
  w_is_ready :: bool
  w_callbacks :: "callback \<Rightarrow> bool"
  w_session :: bool
  w_friend_events :: "FriendEvent list"
  w_friends :: friends
  w_tcallbacks :: tcallbacks
  w_thistory :: thistory
  w_file_senders :: "IOEXFileInfo list"
  w_file_receivers :: "IOEXFileInfo list"
  w_fs :: fs
  w_running :: bool
  w_quit :: bool
  w_refs :: nat
  w_error :: int
  w_trace :: "carrier_event list"

text \<open>What \<^verbatim>\<open>dht_get_self_info\<close> passes to its callback: address, key, status and description.\<close>

type_synonym self_info = "u8 list \<times> u8 list \<times> int \<times> u8 list"

record carrier_env =
  ce_persist :: persist_env
  ce_fb_write :: fb_write
  ce_fb_read :: fb_read
  ce_tox :: "carrier_event list tox"
  ce_time_rand :: "carrier_event list \<Rightarrow> nat \<Rightarrow> tid"
  ce_stack :: "carrier_event list \<Rightarrow> cstring"
  ce_kill :: "carrier_event list \<Rightarrow> bool"

definition emit :: "carrier_event \<Rightarrow> IOEXCarrier \<Rightarrow> IOEXCarrier" where
  "emit e w = w\<lparr>w_trace := w_trace w @ [e]\<rparr>"

text \<open>\<^verbatim>\<open>if (w->callbacks.c) w->callbacks.c(...)\<close>\<close>

definition call_back :: "callback \<Rightarrow> carrier_event \<Rightarrow> IOEXCarrier \<Rightarrow> IOEXCarrier" where
  "call_back c e w = (if w_callbacks w c then emit e w else w)"

definition IOEX_set_error :: "int \<Rightarrow> IOEXCarrier \<Rightarrow> IOEXCarrier" where
  "IOEX_set_error err w = w\<lparr>w_error := err\<rparr>"

definition IOEX_get_error :: "IOEXCarrier \<Rightarrow> int" where "IOEX_get_error w = w_error w"

definition IOEX_clear_error :: "IOEXCarrier \<Rightarrow> IOEXCarrier" where "IOEX_clear_error w = w\<lparr>w_error := 0\<rparr>"

definition save_data :: "carrier_env \<Rightarrow> IOEXCarrier \<Rightarrow> IOEXCarrier option" where
  "save_data env w =
     do {
       (_, fr, s) \<leftarrow> store_persistence_data (ce_persist env) (w_data_location w) (dht_get_savedata (ce_tox env) (w_trace w)) (w_friends w) (w_fs w);
       Some (w\<lparr>w_friends := fr, w_fs := s\<rparr>)
     }"

subsection \<open>Friend numbers and descriptions\<close>

text \<open>The result is the return code and what \<^verbatim>\<open>*friend_number\<close> is then.\<close>

definition get_friend_number :: "carrier_env \<Rightarrow> IOEXCarrier \<Rightarrow> cstring \<Rightarrow> (int \<times> u32) option" where
  "get_friend_number env w friendid =
     do {
       (len, public_key) \<leftarrow> decode_cstring friendid DHT_PUBLIC_KEY_SIZE;
       if len \<noteq> int DHT_PUBLIC_KEY_SIZE then Some (IOEX_GENERAL_ERROR IOEXERR_INVALID_ARGS, UINT32_MAX)
       else
         let (rc, n) = dht_get_friend_number (ce_tox env) (w_trace w) public_key
         in if rc < 0 then Some (IOEX_GENERAL_ERROR IOEXERR_NOT_EXIST, n) else Some (rc, n)
     }"

definition fill_empty_user_desc :: "carrier_env \<Rightarrow> IOEXCarrier \<Rightarrow> IOEXCarrier option" where
  "fill_empty_user_desc env w =
     do {
       cp \<leftarrow> IOEXcp_create IOEXCP_TYPE_USERINFO None;
       cp \<leftarrow> IOEXcp_set_has_avatar False cp;
       cp \<leftarrow> IOEXcp_set_name [] cp;
       cp \<leftarrow> IOEXcp_set_descr [] cp;
       cp \<leftarrow> IOEXcp_set_gender [] cp;
       cp \<leftarrow> IOEXcp_set_phone [] cp;
       cp \<leftarrow> IOEXcp_set_email [] cp;
       cp \<leftarrow> IOEXcp_set_region [] cp;
       data \<leftarrow> IOEXcp_encode (ce_fb_write env) cp;
       case data of None \<Rightarrow> Some w | Some d \<Rightarrow> Some (emit (Dht_self_set_desc d) w)
     }"

text \<open>\<^verbatim>\<open>if (strcmp(info->field, s)) strcpy(info->field, s);\<close> with the array's size and whether it changed.\<close>

definition or_empty :: "cstring option \<Rightarrow> cstring" where "or_empty s = (case s of None \<Rightarrow> [] | Some t \<Rightarrow> t)"

definition put_field :: "nat \<Rightarrow> cstring \<Rightarrow> cstring \<Rightarrow> (cstring \<times> bool) option" where
  "put_field n old s = (if old \<noteq> s then do { t \<leftarrow> strcpy_into n s; Some (t, True) } else Some (old, False))"

text \<open>\<open>None\<close> inside for the return value -1, otherwise the new information and whether it changed.\<close>

definition unpack_user_desc :: "carrier_env \<Rightarrow> u8 list \<Rightarrow> IOEXUserInfo \<Rightarrow> (IOEXUserInfo \<times> bool) option option" where
  "unpack_user_desc env desc info =
     do {
       c_assert (desc \<noteq> []);
       r \<leftarrow> IOEXcp_decode (ce_fb_read env) desc;
       case r of
         None \<Rightarrow> Some None
       | Some cp \<Rightarrow>
           if IOEXcp_get_type cp \<noteq> IOEXCP_TYPE_USERINFO then Some None
           else do {
             has_avatar \<leftarrow> IOEXcp_get_has_avatar cp;
             name0 \<leftarrow> IOEXcp_get_name cp;
             descr0 \<leftarrow> IOEXcp_get_descr cp;
             gender0 \<leftarrow> IOEXcp_get_gender cp;
             phone0 \<leftarrow> IOEXcp_get_phone cp;
             email0 \<leftarrow> IOEXcp_get_email cp;
             region0 \<leftarrow> IOEXcp_get_region cp;
             (name, c1) \<leftarrow> put_field (IOEX_MAX_USER_NAME_LEN + 1) (ui_name info) (or_empty name0);
             (descr, c2) \<leftarrow> put_field (IOEX_MAX_USER_DESCRIPTION_LEN + 1) (ui_description info) (or_empty descr0);
             (gender, c3) \<leftarrow> put_field (IOEX_MAX_GENDER_LEN + 1) (ui_gender info) (or_empty gender0);
             (phone, c4) \<leftarrow> put_field (IOEX_MAX_PHONE_LEN + 1) (ui_phone info) (or_empty phone0);
             (email, c5) \<leftarrow> put_field (IOEX_MAX_EMAIL_LEN + 1) (ui_email info) (or_empty email0);
             (region, c6) \<leftarrow> put_field (IOEX_MAX_REGION_LEN + 1) (ui_region info) (or_empty region0);
             Some (Some (info\<lparr>ui_name := name, ui_description := descr, ui_gender := gender, ui_phone := phone, ui_email := email,
                              ui_region := region, ui_has_avatar := has_avatar\<rparr>,
                         c1 \<or> c2 \<or> c3 \<or> c4 \<or> c5 \<or> c6 \<or> ui_has_avatar info \<noteq> has_avatar))
           }
     }"

definition get_presence_status :: "int \<Rightarrow> int" where
  "get_presence_status user_status =
     (if user_status < IOEXPresenceStatus_None then IOEXPresenceStatus_None
      else if user_status > IOEXPresenceStatus_Busy then IOEXPresenceStatus_Busy
      else user_status)"

text \<open>The text of a key or an address in its array, as a C string; \<open>old\<close> is what stays there if it does not fit.\<close>

definition encode_into :: "u8 list \<Rightarrow> nat \<Rightarrow> cstring \<Rightarrow> cstring option" where
  "encode_into data n old =
     do {
       (b, blk, _) \<leftarrow> base58_encode data (replicate n 0) n;
       Some (if b then takeWhile (\<lambda>c. c \<noteq> 0) blk else old)
     }"

definition get_self_info_cb :: "carrier_env \<Rightarrow> self_info \<Rightarrow> IOEXCarrier \<Rightarrow> IOEXCarrier option" where
  "get_self_info_cb env info w = (case info of (address, public_key, user_status, desc) \<Rightarrow>
     do {
       addr \<leftarrow> encode_into address (IOEX_MAX_ADDRESS_LEN + 1) (w_base58_addr w);
       userid \<leftarrow> encode_into public_key (IOEX_MAX_ID_LEN + 1) (ui_userid (w_me w));
       let w1 = w\<lparr>w_address := address, w_public_key := public_key, w_base58_addr := addr, w_me := (w_me w)\<lparr>ui_userid := userid\<rparr>,
                  w_presence_status := get_presence_status user_status\<rparr>;
       if desc \<noteq> [] then do {
         r \<leftarrow> unpack_user_desc env desc (w_me w1);
         Some (case r of None \<Rightarrow> w1 | Some (ui, _) \<Rightarrow> w1\<lparr>w_me := ui\<rparr>)
       }
       else fill_empty_user_desc env w1
     })"

definition empty_user_info :: IOEXUserInfo where
  "empty_user_info = \<lparr>ui_userid = [], ui_name = [], ui_description = [], ui_has_avatar = False, ui_gender = [], ui_phone = [],
     ui_email = [], ui_region = []\<rparr>"

definition friends_iterate_cb :: "carrier_env \<Rightarrow> u32 \<Rightarrow> u8 list \<Rightarrow> int \<Rightarrow> u8 list \<Rightarrow> IOEXCarrier \<Rightarrow> (bool \<times> IOEXCarrier) option" where
  "friends_iterate_cb env n public_key user_status desc w =
     do {
       c_assert (n \<noteq> UINT32_MAX);
       userid \<leftarrow> encode_into public_key (IOEX_MAX_ID_LEN + 1) [];
       let ui = empty_user_info\<lparr>ui_userid := userid\<rparr>;
       r \<leftarrow> (if desc \<noteq> [] then unpack_user_desc env desc ui else Some (Some (ui, False)));
       case r of
         None \<Rightarrow> Some (False, w)
       | Some (ui1, _) \<Rightarrow> do {
           let (a, fr1) = rc_alloc \<lparr>friend_number = n, fi_info = \<lparr>fi_user_info = ui1, fi_label = [],
             fi_status = IOEXConnectionStatus_Disconnected, fi_presence = get_presence_status user_status\<rparr>\<rparr> (w_friends w);
           fr2 \<leftarrow> friends_put a fr1;
           fr3 \<leftarrow> rc_deref a fr2;
           Some (True, w\<lparr>w_friends := fr3\<rparr>)
         }
     }"

subsection \<open>Notifications\<close>

definition notify_idle :: "IOEXCarrier \<Rightarrow> IOEXCarrier" where
  "notify_idle w = call_back CB_idle Idle w"

definition notify_friends :: "IOEXCarrier \<Rightarrow> IOEXCarrier option" where
  "notify_friends w =
     do {
       ((_, w1), fr) \<leftarrow> ot_iterate (\<lambda>fi w'. Some (Next, call_back CB_friend_list (Friend_list (Some (fi_info fi))) w')) (w_friends w) w;
       Some (call_back CB_friend_list (Friend_list None) (w1\<lparr>w_friends := fr\<rparr>))
     }"

definition notify_connection_cb :: "bool \<Rightarrow> IOEXCarrier \<Rightarrow> IOEXCarrier" where
  "notify_connection_cb connected w =
     (let w1 = (if \<not> w_is_ready w \<and> connected then call_back CB_ready Ready (w\<lparr>w_is_ready := True\<rparr>) else w);
          w2 = w1\<lparr>w_connection_status := (if connected then IOEXConnectionStatus_Connected else IOEXConnectionStatus_Disconnected)\<rparr>
      in call_back CB_connection_status (Connection_status (w_connection_status w2)) w2)"

definition notify_friend_info :: "u32 \<Rightarrow> IOEXFriendInfo \<Rightarrow> IOEXCarrier \<Rightarrow> IOEXCarrier option" where
  "notify_friend_info n info w =
     do {
       c_assert (n \<noteq> UINT32_MAX);
       b \<leftarrow> friends_exist n (w_friends w);
       Some (if b then call_back CB_friend_info (Friend_info (ui_userid (fi_user_info info)) info) w else w)
     }"

text \<open>If the description cannot be unpacked, whether it changed is read from an uninitialized variable.\<close>

definition notify_friend_description_cb :: "carrier_env \<Rightarrow> u32 \<Rightarrow> u8 list \<Rightarrow> IOEXCarrier \<Rightarrow> IOEXCarrier option" where
  "notify_friend_description_cb env n desc w =
     do {
       c_assert (n \<noteq> UINT32_MAX);
       (r, fr1) \<leftarrow> friends_get n (w_friends w);
       case r of
         None \<Rightarrow> Some (w\<lparr>w_friends := fr1\<rparr>)
       | Some a \<Rightarrow>
           if desc = [] then do { fr2 \<leftarrow> rc_deref a fr1; Some (w\<lparr>w_friends := fr2\<rparr>) }
           else do {
             fi \<leftarrow> ot_read a fr1;
             u \<leftarrow> unpack_user_desc env desc (fi_user_info (fi_info fi));
             (ui, changed) \<leftarrow> u;
             let info = (fi_info fi)\<lparr>fi_user_info := ui\<rparr>;
             fr2 \<leftarrow> ot_modify a (\<lambda>f. f\<lparr>fi_info := info\<rparr>) fr1;
             w1 \<leftarrow> (if changed then notify_friend_info n info (w\<lparr>w_friends := fr2\<rparr>) else Some (w\<lparr>w_friends := fr2\<rparr>));
             fr3 \<leftarrow> rc_deref a (w_friends w1);
             Some (w1\<lparr>w_friends := fr3\<rparr>)
           }
     }"

definition notify_friend_connection :: "cstring \<Rightarrow> IOEXConnectionStatus \<Rightarrow> IOEXCarrier \<Rightarrow> IOEXCarrier" where
  "notify_friend_connection friendid status w = call_back CB_friend_connection (Friend_connection friendid status) w"

definition notify_friend_connection_cb :: "u32 \<Rightarrow> bool \<Rightarrow> IOEXCarrier \<Rightarrow> IOEXCarrier option" where
  "notify_friend_connection_cb n connected w =
     do {
       c_assert (n \<noteq> UINT32_MAX);
       (r, fr1) \<leftarrow> friends_get n (w_friends w);
       case r of
         None \<Rightarrow> Some (w\<lparr>w_friends := fr1\<rparr>)
       | Some a \<Rightarrow> do {
           fi \<leftarrow> ot_read a fr1;
           let status = (if connected then IOEXConnectionStatus_Connected else IOEXConnectionStatus_Disconnected);
           w1 \<leftarrow> (if status \<noteq> fi_status (fi_info fi) then do {
                      fr2 \<leftarrow> ot_modify a (\<lambda>f. f\<lparr>fi_info := (fi_info f)\<lparr>fi_status := status\<rparr>\<rparr>) fr1;
                      tmpid \<leftarrow> strcpy_into (IOEX_MAX_ID_LEN + 1) (ui_userid (fi_user_info (fi_info fi)));
                      Some (notify_friend_connection tmpid status (w\<lparr>w_friends := fr2\<rparr>))
                    }
                    else Some (w\<lparr>w_friends := fr1\<rparr>));
           fr3 \<leftarrow> rc_deref a (w_friends w1);
           Some (w1\<lparr>w_friends := fr3\<rparr>)
         }
     }"

definition notify_friend_presence :: "cstring \<Rightarrow> int \<Rightarrow> IOEXCarrier \<Rightarrow> IOEXCarrier" where
  "notify_friend_presence friendid presence w = call_back CB_friend_presence (Friend_presence friendid presence) w"

text \<open>A status out of range is dropped; the reference that was taken stays.\<close>

definition notify_friend_status_cb :: "u32 \<Rightarrow> int \<Rightarrow> IOEXCarrier \<Rightarrow> IOEXCarrier option" where
  "notify_friend_status_cb n status w =
     do {
       c_assert (n \<noteq> UINT32_MAX);
       (r, fr1) \<leftarrow> friends_get n (w_friends w);
       case r of
         None \<Rightarrow> Some (w\<lparr>w_friends := fr1\<rparr>)
       | Some a \<Rightarrow>
           if status < IOEXPresenceStatus_None \<or> status > IOEXPresenceStatus_Busy then Some (w\<lparr>w_friends := fr1\<rparr>)
           else do {
             fi \<leftarrow> ot_read a fr1;
             w1 \<leftarrow> (if status \<noteq> fi_presence (fi_info fi) then do {
                        fr2 \<leftarrow> ot_modify a (\<lambda>f. f\<lparr>fi_info := (fi_info f)\<lparr>fi_presence := status\<rparr>\<rparr>) fr1;
                        tmpid \<leftarrow> strcpy_into (IOEX_MAX_ID_LEN + 1) (ui_userid (fi_user_info (fi_info fi)));
                        Some (notify_friend_presence tmpid status (w\<lparr>w_friends := fr2\<rparr>))
                      }
                      else Some (w\<lparr>w_friends := fr1\<rparr>));
             fr3 \<leftarrow> rc_deref a (w_friends w1);
             Some (w1\<lparr>w_friends := fr3\<rparr>)
           }
     }"

text \<open>\<^verbatim>\<open>if (*s) strcpy(field, s);\<close> into a field that was cleared.\<close>

definition copy_nonempty :: "nat \<Rightarrow> cstring \<Rightarrow> cstring option" where
  "copy_nonempty n s = (if s \<noteq> [] then strcpy_into n s else Some [])"

definition notify_friend_request_cb :: "carrier_env \<Rightarrow> u8 list \<Rightarrow> u8 list \<Rightarrow> IOEXCarrier \<Rightarrow> IOEXCarrier option" where
  "notify_friend_request_cb env public_key gretting w =
     do {
       c_assert (gretting \<noteq> []);
       let (rc, n) = dht_get_friend_number (ce_tox env) (w_trace w) public_key;
       if rc = 0 \<and> n \<noteq> UINT32_MAX then Some w
       else do {
         d \<leftarrow> IOEXcp_decode (ce_fb_read env) gretting;
         case d of
           None \<Rightarrow> Some w
         | Some cp \<Rightarrow>
             if IOEXcp_get_type cp \<noteq> IOEXCP_TYPE_FRIEND_REQUEST then Some w
             else do {
               userid \<leftarrow> encode_into public_key (IOEX_MAX_ID_LEN + 1) [];
               name0 \<leftarrow> IOEXcp_get_name cp;
               descr0 \<leftarrow> IOEXcp_get_descr cp;
               hello0 \<leftarrow> IOEXcp_get_hello cp;
               name \<leftarrow> copy_nonempty (IOEX_MAX_USER_NAME_LEN + 1) (or_empty name0);
               descr \<leftarrow> copy_nonempty (IOEX_MAX_USER_DESCRIPTION_LEN + 1) (or_empty descr0);
               let ui = empty_user_info\<lparr>ui_userid := userid, ui_name := name, ui_description := descr\<rparr>;
               Some (call_back CB_friend_request (Friend_request userid ui (or_empty hello0)) w)
             }
       }
     }"

subsection \<open>Friend events\<close>

definition push_friend_event :: "FriendEventType \<Rightarrow> IOEXFriendInfo \<Rightarrow> IOEXCarrier \<Rightarrow> IOEXCarrier" where
  "push_friend_event t fi w = w\<lparr>w_friend_events := w_friend_events w @ [\<lparr>fe_type = t, fe_fi = fi\<rparr>]\<rparr>"

definition notify_friend_added :: "carrier_env \<Rightarrow> IOEXFriendInfo \<Rightarrow> IOEXCarrier \<Rightarrow> IOEXCarrier option" where
  "notify_friend_added env fi w =
     do { w1 \<leftarrow> save_data env w; Some (push_friend_event FriendEventType_Added fi w1) }"

definition notify_friend_removed :: "carrier_env \<Rightarrow> IOEXFriendInfo \<Rightarrow> IOEXCarrier \<Rightarrow> IOEXCarrier option" where
  "notify_friend_removed env fi w =
     do { w1 \<leftarrow> save_data env w; Some (push_friend_event FriendEventType_Removed fi w1) }"

definition do_friend_event :: "FriendEvent \<Rightarrow> IOEXCarrier \<Rightarrow> IOEXCarrier" where
  "do_friend_event event w =
     (let userid = ui_userid (fi_user_info (fe_fi event)) in
      case fe_type event of
        FriendEventType_Added \<Rightarrow> call_back CB_friend_added (Friend_added (fe_fi event)) w
      | FriendEventType_Removed \<Rightarrow>
          let w1 = (if fi_status (fe_fi event) = IOEXConnectionStatus_Connected
                    then call_back CB_friend_connection (Friend_connection userid IOEXConnectionStatus_Disconnected) w else w)
          in call_back CB_friend_removed (Friend_removed userid) w1)"

text \<open>Every event is carried out and then removed.\<close>

fun do_events_loop :: "FriendEvent list \<Rightarrow> IOEXCarrier \<Rightarrow> IOEXCarrier" where
  "do_events_loop [] w = w"
| "do_events_loop (event # rest) w = do_events_loop rest ((do_friend_event event w)\<lparr>w_friend_events := rest\<rparr>)"

definition do_friend_events :: "IOEXCarrier \<Rightarrow> IOEXCarrier" where
  "do_friend_events w = do_events_loop (w_friend_events w) w"

subsection \<open>Messages of friends\<close>

text \<open>The common beginning of the handlers: the identifier of the friend is copied to an array, if there is such a friend.\<close>

definition friend_userid :: "u32 \<Rightarrow> IOEXCarrier \<Rightarrow> (cstring option \<times> IOEXCarrier) option" where
  "friend_userid n w =
     do {
       (r, fr1) \<leftarrow> friends_get n (w_friends w);
       case r of
         None \<Rightarrow> Some (None, w\<lparr>w_friends := fr1\<rparr>)
       | Some a \<Rightarrow> do {
           fi \<leftarrow> ot_read a fr1;
           friendid \<leftarrow> strcpy_into (IOEX_MAX_ID_LEN + 1) (ui_userid (fi_user_info (fi_info fi)));
           fr2 \<leftarrow> rc_deref a fr1;
           Some (Some friendid, w\<lparr>w_friends := fr2\<rparr>)
         }
     }"

definition handle_friend_message :: "u32 \<Rightarrow> IOEXCP \<Rightarrow> IOEXCarrier \<Rightarrow> IOEXCarrier option" where
  "handle_friend_message n cp w =
     do {
       c_assert (n \<noteq> UINT32_MAX);
       c_assert (IOEXcp_get_type cp = IOEXCP_TYPE_MESSAGE);
       (r, w1) \<leftarrow> friend_userid n w;
       case r of
         None \<Rightarrow> Some w1
       | Some friendid \<Rightarrow> do {
           let name = IOEXcp_get_extension cp;
           msg \<leftarrow> IOEXcp_get_raw_data cp;
           Some (if name = None then call_back CB_friend_message (Friend_message friendid msg) w1 else w1)
         }
     }"

text \<open>The sender of an invitation with the name of the extension, in its array.\<close>

definition invite_from :: "cstring \<Rightarrow> cstring option \<Rightarrow> cstring option" where
  "invite_from friendid name =
     strcpy_into HISTORY_KEY_SIZE (case name of None \<Rightarrow> friendid | Some ext \<Rightarrow> friendid @ [0x3a] @ ext)"

definition handle_invite_request :: "u32 \<Rightarrow> IOEXCP \<Rightarrow> IOEXCarrier \<Rightarrow> IOEXCarrier option" where
  "handle_invite_request n cp w =
     do {
       c_assert (n \<noteq> UINT32_MAX);
       c_assert (IOEXcp_get_type cp = IOEXCP_TYPE_INVITE_REQUEST);
       (r, w1) \<leftarrow> friend_userid n w;
       case r of
         None \<Rightarrow> Some w1
       | Some friendid \<Rightarrow> do {
           let name = IOEXcp_get_extension cp;
           d \<leftarrow> IOEXcp_get_raw_data cp;
           t \<leftarrow> IOEXcp_get_tid cp;
           from_id \<leftarrow> invite_from friendid name;
           th \<leftarrow> tansaction_history_put_invite from_id t (w_thistory w1);
           let w2 = w1\<lparr>w_thistory := th\<rparr>;
           Some (case name of
               Some ext \<Rightarrow> if ext = c_str ''session'' \<and> w_session w2 then emit (Session_invite friendid d) w2 else w2
             | None \<Rightarrow> call_back CB_friend_invite (Friend_invite friendid d) w2)
         }
     }"

definition handle_invite_response :: "u32 \<Rightarrow> IOEXCP \<Rightarrow> IOEXCarrier \<Rightarrow> IOEXCarrier option" where
  "handle_invite_response n cp w =
     do {
       c_assert (n \<noteq> UINT32_MAX);
       c_assert (IOEXcp_get_type cp = IOEXCP_TYPE_INVITE_RESPONSE);
       (r, w1) \<leftarrow> friend_userid n w;
       case r of
         None \<Rightarrow> Some w1
       | Some friendid \<Rightarrow> do {
           t \<leftarrow> IOEXcp_get_tid cp;
           (q, tc1) \<leftarrow> transacted_callbacks_get t (w_tcallbacks w1);
           case q of
             None \<Rightarrow> Some (w1\<lparr>w_tcallbacks := tc1\<rparr>)
           | Some a \<Rightarrow> do {
               tcb \<leftarrow> ot_read a tc1;
               c_assert (tcb_callback_func tcb \<noteq> 0);
               tc2 \<leftarrow> rc_deref a tc1;
               tc3 \<leftarrow> transacted_callbacks_remove t tc2;
               status \<leftarrow> IOEXcp_get_status cp;
               reason \<leftarrow> (if status \<noteq> 0 then IOEXcp_get_reason cp else Some None);
               d \<leftarrow> (if status \<noteq> 0 then Some None else IOEXcp_get_raw_data cp);
               Some (emit (Invite_response (tcb_callback_func tcb) (tcb_callback_context tcb) friendid status reason d)
                       (w1\<lparr>w_tcallbacks := tc3\<rparr>))
             }
         }
     }"

definition notify_friend_message_cb :: "carrier_env \<Rightarrow> u32 \<Rightarrow> u8 list \<Rightarrow> IOEXCarrier \<Rightarrow> IOEXCarrier option" where
  "notify_friend_message_cb env n message w =
     do {
       d \<leftarrow> IOEXcp_decode (ce_fb_read env) message;
       case d of
         None \<Rightarrow> Some w
       | Some cp \<Rightarrow>
           let t = IOEXcp_get_type cp in
           if t = IOEXCP_TYPE_MESSAGE then handle_friend_message n cp w
           else if t = IOEXCP_TYPE_INVITE_REQUEST then handle_invite_request n cp w
           else if t = IOEXCP_TYPE_INVITE_RESPONSE then handle_invite_response n cp w
           else Some w
     }"

end
