(* ===== verification/CarrierApi.thy ===== *)
theory CarrierApi
  imports Carrier
begin

text \<open>
  The functions that the application calls, from \<^verbatim>\<open>src/carrier/IOEX_carrier.c\<close>: the node itself, friends, messages
  and invitations. A result is the return code and the carrier. The carrier is not NULL; other pointers that the code
  tests are options, and data are kept with their length, so that data of length 0 are the empty list.
\<close>

definition fail :: "int \<Rightarrow> IOEXCarrier \<Rightarrow> (int \<times> IOEXCarrier) option" where
  "fail err w = Some (-1, IOEX_set_error err w)"

abbreviation fail_with :: "int \<Rightarrow> IOEXCarrier \<Rightarrow> (int \<times> IOEXCarrier) option" where
  "fail_with code w \<equiv> fail (IOEX_GENERAL_ERROR code) w"

text \<open>Calls of the DHT are recorded in the trace.\<close>

definition send_packet :: "carrier_env \<Rightarrow> u32 \<Rightarrow> u8 list \<Rightarrow> IOEXCarrier \<Rightarrow> (int \<times> IOEXCarrier) option" where
  "send_packet env n data w =
     do { rc \<leftarrow> dht_friend_message (ce_tox env) (w_trace w) n data; Some (rc, emit (Dht_message n data) w) }"

subsection \<open>The node\<close>

text \<open>The array of the caller has \<open>len\<close> bytes; the result is what is copied to it.\<close>

definition IOEX_get_address :: "nat \<Rightarrow> IOEXCarrier \<Rightarrow> (cstring option \<times> IOEXCarrier) option" where
  "IOEX_get_address len w =
     (if len = 0 then Some (None, IOEX_set_error (IOEX_GENERAL_ERROR IOEXERR_INVALID_ARGS) w)
      else if length (w_base58_addr w) \<ge> len then Some (None, IOEX_set_error (IOEX_GENERAL_ERROR IOEXERR_BUFFER_TOO_SMALL) w)
      else do { s \<leftarrow> strcpy_into len (w_base58_addr w); Some (Some s, w) })"

definition IOEX_get_nodeid :: "nat \<Rightarrow> IOEXCarrier \<Rightarrow> (cstring option \<times> IOEXCarrier) option" where
  "IOEX_get_nodeid len w =
     (if len = 0 then Some (None, IOEX_set_error (IOEX_GENERAL_ERROR IOEXERR_INVALID_ARGS) w)
      else if length (ui_userid (w_me w)) \<ge> len then Some (None, IOEX_set_error (IOEX_GENERAL_ERROR IOEXERR_BUFFER_TOO_SMALL) w)
      else do { s \<leftarrow> strcpy_into len (ui_userid (w_me w)); Some (Some s, w) })"

definition IOEX_get_userid :: "nat \<Rightarrow> IOEXCarrier \<Rightarrow> (cstring option \<times> IOEXCarrier) option" where
  "IOEX_get_userid len w = IOEX_get_nodeid len w"

definition IOEX_set_self_nospam :: "carrier_env \<Rightarrow> u32 \<Rightarrow> IOEXCarrier \<Rightarrow> (int \<times> IOEXCarrier) option" where
  "IOEX_set_self_nospam env nospam w =
     do {
       let w1 = emit (Dht_self_set_nospam nospam) w;
       let (rc, info) = dht_get_self_info (ce_tox env) (w_trace w1);
       if rc < 0 then fail rc w1
       else do {
         w2 \<leftarrow> get_self_info_cb env info w1;
         w3 \<leftarrow> save_data env w2;
         Some (0, w3)
       }
     }"

definition user_info_differs :: "IOEXUserInfo \<Rightarrow> IOEXUserInfo \<Rightarrow> bool" where
  "user_info_differs info me \<longleftrightarrow>
     ui_has_avatar info \<noteq> ui_has_avatar me \<or> ui_name info \<noteq> ui_name me \<or> ui_description info \<noteq> ui_description me
     \<or> ui_gender info \<noteq> ui_gender me \<or> ui_phone info \<noteq> ui_phone me \<or> ui_email info \<noteq> ui_email me \<or> ui_region info \<noteq> ui_region me"

text \<open>The packet of a user's information, and the copy into the carrier's own.\<close>

definition user_info_packet :: "IOEXUserInfo \<Rightarrow> IOEXCP option" where
  "user_info_packet info =
     do {
       cp \<leftarrow> IOEXcp_create IOEXCP_TYPE_USERINFO None;
       cp \<leftarrow> IOEXcp_set_has_avatar (ui_has_avatar info) cp;
       cp \<leftarrow> IOEXcp_set_name (ui_name info) cp;
       cp \<leftarrow> IOEXcp_set_descr (ui_description info) cp;
       cp \<leftarrow> IOEXcp_set_gender (ui_gender info) cp;
       cp \<leftarrow> IOEXcp_set_phone (ui_phone info) cp;
       cp \<leftarrow> IOEXcp_set_email (ui_email info) cp;
       IOEXcp_set_region (ui_region info) cp
     }"

definition copy_user_info :: "IOEXUserInfo \<Rightarrow> IOEXUserInfo \<Rightarrow> IOEXUserInfo option" where
  "copy_user_info info me =
     do {
       name \<leftarrow> strcpy_into (IOEX_MAX_USER_NAME_LEN + 1) (ui_name info);
       descr \<leftarrow> strcpy_into (IOEX_MAX_USER_DESCRIPTION_LEN + 1) (ui_description info);
       gender \<leftarrow> strcpy_into (IOEX_MAX_GENDER_LEN + 1) (ui_gender info);
       phone \<leftarrow> strcpy_into (IOEX_MAX_PHONE_LEN + 1) (ui_phone info);
       email \<leftarrow> strcpy_into (IOEX_MAX_EMAIL_LEN + 1) (ui_email info);
       region \<leftarrow> strcpy_into (IOEX_MAX_REGION_LEN + 1) (ui_region info);
       Some (me\<lparr>ui_name := name, ui_description := descr, ui_has_avatar := ui_has_avatar info, ui_gender := gender, ui_phone := phone,
                ui_email := email, ui_region := region\<rparr>)
     }"

definition IOEX_set_self_info :: "carrier_env \<Rightarrow> IOEXUserInfo option \<Rightarrow> IOEXCarrier \<Rightarrow> (int \<times> IOEXCarrier) option" where
  "IOEX_set_self_info env arg w =
     (case arg of
        None \<Rightarrow> fail_with IOEXERR_INVALID_ARGS w
      | Some info \<Rightarrow>
          if ui_userid info \<noteq> ui_userid (w_me w) then fail_with IOEXERR_INVALID_ARGS w
          else if \<not> user_info_differs info (w_me w) then Some (0, w)
          else do {
            cp \<leftarrow> user_info_packet info;
            data \<leftarrow> IOEXcp_encode (ce_fb_write env) cp;
            case data of
              None \<Rightarrow> fail_with IOEXERR_OUT_OF_MEMORY w
            | Some d \<Rightarrow> do {
                me \<leftarrow> copy_user_info info (w_me w);
                w1 \<leftarrow> save_data env (emit (Dht_self_set_desc d) (w\<lparr>w_me := me\<rparr>));
                Some (0, w1)
              }
          })"

text \<open>The result is what is stored behind the pointer.\<close>

definition IOEX_get_self_info :: "IOEXCarrier \<Rightarrow> int \<times> IOEXUserInfo" where
  "IOEX_get_self_info w = (0, w_me w)"

definition IOEX_set_self_presence :: "int \<Rightarrow> IOEXCarrier \<Rightarrow> (int \<times> IOEXCarrier) option" where
  "IOEX_set_self_presence status w =
     (if status < IOEXPresenceStatus_None \<or> status > IOEXPresenceStatus_Busy then fail_with IOEXERR_INVALID_ARGS w
      else Some (0, emit (Dht_self_set_status status) w))"

definition IOEX_get_self_presence :: "carrier_env \<Rightarrow> IOEXCarrier \<Rightarrow> int \<times> int" where
  "IOEX_get_self_presence env w =
     (let presence_status = dht_self_get_status (ce_tox env) (w_trace w)
      in (0, if presence_status < IOEXPresenceStatus_None then IOEXPresenceStatus_None
             else if presence_status > IOEXPresenceStatus_Busy then IOEXPresenceStatus_None
             else presence_status))"

definition IOEX_is_ready :: "IOEXCarrier \<Rightarrow> bool" where
  "IOEX_is_ready w = w_is_ready w"

subsection \<open>Friends\<close>

text \<open>The callback of the iteration passes on a state of the application and says whether to go on.\<close>

definition IOEX_get_friends ::
  "(IOEXFriendInfo option \<Rightarrow> 's \<Rightarrow> bool \<times> 's) option \<Rightarrow> 's \<Rightarrow> IOEXCarrier \<Rightarrow> (int \<times> 's \<times> IOEXCarrier) option" where
  "IOEX_get_friends callback s w =
     (case callback of
        None \<Rightarrow> Some (-1, s, IOEX_set_error (IOEX_GENERAL_ERROR IOEXERR_INVALID_ARGS) w)
      | Some cb \<Rightarrow> do {
          ((go, s1), fr) \<leftarrow> ot_iterate (\<lambda>fi s'. let (b, s2) = cb (Some (fi_info fi)) s' in Some (if b then Next else Stop, s2)) (w_friends w) s;
          Some (0, if go = Stop then s1 else snd (cb None s1), w\<lparr>w_friends := fr\<rparr>)
        })"

definition IOEX_get_friend_info :: "carrier_env \<Rightarrow> cstring option \<Rightarrow> IOEXCarrier \<Rightarrow> (int \<times> IOEXFriendInfo option \<times> IOEXCarrier) option" where
  "IOEX_get_friend_info env arg w =
     (case arg of
        None \<Rightarrow> Some (-1, None, IOEX_set_error (IOEX_GENERAL_ERROR IOEXERR_INVALID_ARGS) w)
      | Some friendid \<Rightarrow> do {
          (rc, n) \<leftarrow> get_friend_number env w friendid;
          if rc < 0 then Some (-1, None, IOEX_set_error rc w)
          else do {
            (r, fr1) \<leftarrow> friends_get n (w_friends w);
            case r of
              None \<Rightarrow> Some (-1, None, IOEX_set_error (IOEX_GENERAL_ERROR IOEXERR_NOT_EXIST) (w\<lparr>w_friends := fr1\<rparr>))
            | Some a \<Rightarrow> do {
                fi \<leftarrow> ot_read a fr1;
                c_assert (friendid = ui_userid (fi_user_info (fi_info fi)));
                fr2 \<leftarrow> rc_deref a fr1;
                Some (0, Some (fi_info fi), w\<lparr>w_friends := fr2\<rparr>)
              }
          }
        })"

definition IOEX_set_friend_label :: "carrier_env \<Rightarrow> cstring option \<Rightarrow> cstring option \<Rightarrow> IOEXCarrier \<Rightarrow> (int \<times> IOEXCarrier) option" where
  "IOEX_set_friend_label env arg label w =
     (case arg of
        None \<Rightarrow> fail_with IOEXERR_INVALID_ARGS w
      | Some friendid \<Rightarrow>
          if label \<noteq> None \<and> length (the label) > IOEX_MAX_USER_NAME_LEN then fail_with IOEXERR_INVALID_ARGS w
          else do {
            (rc, n) \<leftarrow> get_friend_number env w friendid;
            if rc < 0 then fail rc w
            else do {
              (r, fr1) \<leftarrow> friends_get n (w_friends w);
              case r of
                None \<Rightarrow> fail_with IOEXERR_NOT_EXIST (w\<lparr>w_friends := fr1\<rparr>)
              | Some a \<Rightarrow> do {
                  fi \<leftarrow> ot_read a fr1;
                  c_assert (friendid = ui_userid (fi_user_info (fi_info fi)));
                  l \<leftarrow> strcpy_into (IOEX_MAX_USER_NAME_LEN + 1) (or_empty label);
                  fr2 \<leftarrow> ot_modify a (\<lambda>f. f\<lparr>fi_info := (fi_info f)\<lparr>fi_label := l\<rparr>\<rparr>) fr1;
                  fr3 \<leftarrow> rc_deref a fr2;
                  w1 \<leftarrow> save_data env (w\<lparr>w_friends := fr3\<rparr>);
                  Some (0, w1)
                }
            }
          })"

definition IOEX_is_friend :: "carrier_env \<Rightarrow> cstring option \<Rightarrow> IOEXCarrier \<Rightarrow> (bool \<times> IOEXCarrier) option" where
  "IOEX_is_friend env arg w =
     (case arg of
        None \<Rightarrow> Some (False, IOEX_set_error (IOEX_GENERAL_ERROR IOEXERR_INVALID_ARGS) w)
      | Some userid \<Rightarrow> do {
          (rc, n) \<leftarrow> get_friend_number env w userid;
          if rc < 0 \<or> n = UINT32_MAX then Some (False, IOEX_set_error rc w)
          else do { b \<leftarrow> friends_exist n (w_friends w); Some (b, w) }
        })"

text \<open>A new friend, allocated and cleared.\<close>

definition zero_friend :: FriendInfo where
  "zero_friend = \<lparr>friend_number = 0, fi_info = \<lparr>fi_user_info = empty_user_info, fi_label = [],
     fi_status = IOEXConnectionStatus_Connected, fi_presence = IOEXPresenceStatus_None\<rparr>\<rparr>"

text \<open>The end of adding and accepting: the friend is filled in, put into the table and announced.\<close>

definition register_friend :: "carrier_env \<Rightarrow> nat \<Rightarrow> u32 \<Rightarrow> cstring \<Rightarrow> friends \<Rightarrow> IOEXCarrier \<Rightarrow> (int \<times> IOEXCarrier) option" where
  "register_friend env a n userid fr w =
     do {
       fr1 \<leftarrow> ot_modify a (\<lambda>f. f\<lparr>friend_number := n, fi_info := (fi_info f)\<lparr>fi_user_info := (fi_user_info (fi_info f))\<lparr>ui_userid := userid\<rparr>,
                fi_status := IOEXConnectionStatus_Disconnected, fi_presence := IOEXPresenceStatus_None\<rparr>\<rparr>) fr;
       fr2 \<leftarrow> friends_put a fr1;
       fi \<leftarrow> ot_read a fr2;
       w1 \<leftarrow> notify_friend_added env (fi_info fi) (w\<lparr>w_friends := fr2\<rparr>);
       fr3 \<leftarrow> rc_deref a (w_friends w1);
       Some (0, w1\<lparr>w_friends := fr3\<rparr>)
     }"

definition friend_request_packet :: "IOEXUserInfo \<Rightarrow> cstring \<Rightarrow> IOEXCP option" where
  "friend_request_packet me hello =
     do {
       cp \<leftarrow> IOEXcp_create IOEXCP_TYPE_FRIEND_REQUEST None;
       cp \<leftarrow> IOEXcp_set_name (ui_name me) cp;
       cp \<leftarrow> IOEXcp_set_descr (ui_description me) cp;
       IOEXcp_set_hello hello cp
     }"

definition IOEX_add_friend :: "carrier_env \<Rightarrow> cstring option \<Rightarrow> cstring option \<Rightarrow> IOEXCarrier \<Rightarrow> (int \<times> IOEXCarrier) option" where
  "IOEX_add_friend env arg1 arg2 w =
     (case (arg1, arg2) of
        (Some address, Some hello) \<Rightarrow> do {
          valid \<leftarrow> is_valid_address address;
          if \<not> valid then fail_with IOEXERR_INVALID_ARGS w
          else if address = w_base58_addr w then fail_with IOEXERR_INVALID_ARGS w
          else if \<not> w_is_ready w then fail_with IOEXERR_NOT_READY w
          else do {
            (_, addr) \<leftarrow> decode_cstring address DHT_ADDRESS_SIZE;
            let (rc, n0) = dht_get_friend_number (ce_tox env) (w_trace w) (take DHT_PUBLIC_KEY_SIZE addr);
            if rc = 0 \<and> n0 \<noteq> UINT32_MAX then fail_with IOEXERR_ALREADY_EXIST w
            else do {
              let (a, fr1) = rc_alloc zero_friend (w_friends w);
              cp \<leftarrow> friend_request_packet (w_me w) hello;
              data \<leftarrow> IOEXcp_encode (ce_fb_write env) cp;
              case data of
                None \<Rightarrow> do { fr2 \<leftarrow> rc_deref a fr1; fail_with IOEXERR_OUT_OF_MEMORY (w\<lparr>w_friends := fr2\<rparr>) }
              | Some d \<Rightarrow> do {
                  (rc1, n) \<leftarrow> dht_friend_add (ce_tox env) (w_trace w) addr d n0;
                  let w1 = emit (Dht_friend_add addr d) w;
                  if rc1 < 0 then do { fr2 \<leftarrow> rc_deref a fr1; fail rc1 (w1\<lparr>w_friends := fr2\<rparr>) }
                  else do {
                    userid \<leftarrow> encode_into (take DHT_PUBLIC_KEY_SIZE addr) (IOEX_MAX_ID_LEN + 1) [];
                    register_friend env a n userid fr1 w1
                  }
                }
            }
          }
        }
      | _ \<Rightarrow> fail_with IOEXERR_INVALID_ARGS w)"

definition IOEX_accept_friend :: "carrier_env \<Rightarrow> cstring option \<Rightarrow> IOEXCarrier \<Rightarrow> (int \<times> IOEXCarrier) option" where
  "IOEX_accept_friend env arg w =
     (case arg of
        None \<Rightarrow> fail_with IOEXERR_INVALID_ARGS w
      | Some userid \<Rightarrow> do {
          valid \<leftarrow> is_valid_key userid;
          if \<not> valid then fail_with IOEXERR_INVALID_ARGS w
          else if userid = ui_userid (w_me w) then fail_with IOEXERR_INVALID_ARGS w
          else if \<not> w_is_ready w then fail_with IOEXERR_NOT_READY w
          else do {
            (rc, n0) \<leftarrow> get_friend_number env w userid;
            if rc = 0 \<and> n0 \<noteq> UINT32_MAX then fail_with IOEXERR_ALREADY_EXIST w
            else do {
              let (a, fr1) = rc_alloc zero_friend (w_friends w);
              (_, public_key) \<leftarrow> decode_cstring userid DHT_PUBLIC_KEY_SIZE;
              let (rc1, n) = dht_friend_add_norequest (ce_tox env) (w_trace w) public_key n0;
              let w1 = emit (Dht_friend_add_norequest public_key) w;
              if rc1 < 0 then do { fr2 \<leftarrow> rc_deref a fr1; fail rc1 (w1\<lparr>w_friends := fr2\<rparr>) }
              else do {
                s \<leftarrow> strcpy_into (IOEX_MAX_ID_LEN + 1) userid;
                register_friend env a n s fr1 w1
              }
            }
          }
        })"

definition IOEX_remove_friend :: "carrier_env \<Rightarrow> cstring option \<Rightarrow> IOEXCarrier \<Rightarrow> (int \<times> IOEXCarrier) option" where
  "IOEX_remove_friend env arg w =
     (case arg of
        None \<Rightarrow> fail_with IOEXERR_INVALID_ARGS w
      | Some friendid \<Rightarrow> do {
          valid \<leftarrow> is_valid_key friendid;
          if \<not> valid then fail_with IOEXERR_INVALID_ARGS w
          else if \<not> w_is_ready w then fail_with IOEXERR_NOT_READY w
          else do {
            (rc, n) \<leftarrow> get_friend_number env w friendid;
            if rc < 0 then fail rc w
            else do {
              b \<leftarrow> friends_exist n (w_friends w);
              if \<not> b then fail_with IOEXERR_NOT_EXIST w
              else do {
                _ \<leftarrow> dht_friend_delete (ce_tox env) (w_trace w) n;
                let w1 = emit (Dht_friend_delete n) w;
                (r, fr1) \<leftarrow> friends_remove n (w_friends w1);
                a \<leftarrow> r;
                fi \<leftarrow> ot_read a fr1;
                w2 \<leftarrow> notify_friend_removed env (fi_info fi) (w1\<lparr>w_friends := fr1\<rparr>);
                fr2 \<leftarrow> rc_deref a (w_friends w2);
                Some (0, w2\<lparr>w_friends := fr2\<rparr>)
              }
            }
          }
        })"

subsection \<open>Messages and invitations\<close>

text \<open>The name before the colon, and the name behind it if there is a colon.\<close>

definition parse_address :: "cstring \<Rightarrow> cstring \<times> cstring option" where
  "parse_address addr =
     (let uid = takeWhile (\<lambda>c. c \<noteq> 0x3a) addr
      in (uid, if length uid < length addr then Some (drop (length uid + 1) addr) else None))"

definition message_packet :: "cstring option \<Rightarrow> u8 list \<Rightarrow> IOEXCP option" where
  "message_packet ext_name msg = do { cp \<leftarrow> IOEXcp_create IOEXCP_TYPE_MESSAGE ext_name; IOEXcp_set_raw_data msg cp }"

definition ext_too_long :: "cstring option \<Rightarrow> bool" where
  "ext_too_long ext_name \<longleftrightarrow> (case ext_name of None \<Rightarrow> False | Some ext \<Rightarrow> length ext > IOEX_MAX_USER_NAME_LEN)"

definition IOEX_send_friend_message :: "carrier_env \<Rightarrow> cstring option \<Rightarrow> u8 list option \<Rightarrow> IOEXCarrier \<Rightarrow> (int \<times> IOEXCarrier) option" where
  "IOEX_send_friend_message env arg1 arg2 w =
     (case (arg1, arg2) of
        (Some to, Some msg) \<Rightarrow>
          if msg = [] \<or> length msg > IOEX_MAX_APP_MESSAGE_LEN then fail_with IOEXERR_INVALID_ARGS w
          else do {
            let (userid, ext_name) = parse_address to;
            valid \<leftarrow> is_valid_key userid;
            if \<not> valid then fail_with IOEXERR_INVALID_ARGS w
            else if ext_too_long ext_name then fail_with IOEXERR_INVALID_ARGS w
            else if userid = ui_userid (w_me w) then fail_with IOEXERR_INVALID_ARGS w
            else if \<not> w_is_ready w then fail_with IOEXERR_NOT_READY w
            else do {
              (rc, n) \<leftarrow> get_friend_number env w userid;
              if rc < 0 then fail_with IOEXERR_NOT_EXIST w
              else do {
                b \<leftarrow> friends_exist n (w_friends w);
                if \<not> b then fail_with IOEXERR_NOT_EXIST w
                else do {
                  cp \<leftarrow> message_packet ext_name msg;
                  data \<leftarrow> IOEXcp_encode (ce_fb_write env) cp;
                  case data of
                    None \<Rightarrow> fail_with IOEXERR_OUT_OF_MEMORY w
                  | Some d \<Rightarrow> do {
                      (rc1, w1) \<leftarrow> send_packet env n d w;
                      if rc1 < 0 then fail rc1 w1 else Some (0, w1)
                    }
                }
              }
            }
          }
      | _ \<Rightarrow> fail_with IOEXERR_INVALID_ARGS w)"

text \<open>The loop that repeats while the identifier is 0; \<open>i\<close> counts the attempts.\<close>

partial_function (option) generate_tid :: "carrier_env \<Rightarrow> carrier_event list \<Rightarrow> nat \<Rightarrow> tid option" where
  "generate_tid env tr i = (let t = ce_time_rand env tr i in if t = 0 then generate_tid env tr (i + 1) else Some t)"

definition invite_packet :: "cstring option \<Rightarrow> tid \<Rightarrow> u8 list \<Rightarrow> IOEXCP option" where
  "invite_packet ext_name t data =
     do { cp \<leftarrow> IOEXcp_create IOEXCP_TYPE_INVITE_REQUEST ext_name; cp \<leftarrow> IOEXcp_set_tid t cp; IOEXcp_set_raw_data data cp }"

definition IOEX_invite_friend ::
  "carrier_env \<Rightarrow> cstring option \<Rightarrow> u8 list option \<Rightarrow> nat \<Rightarrow> nat \<Rightarrow> IOEXCarrier \<Rightarrow> (int \<times> IOEXCarrier) option" where
  "IOEX_invite_friend env arg1 arg2 callback ctxt w =
     (case (arg1, arg2) of
        (Some to, Some data) \<Rightarrow>
          if data = [] \<or> callback = 0 then fail_with IOEXERR_INVALID_ARGS w
          else do {
            let (userid, ext_name) = parse_address to;
            valid \<leftarrow> is_valid_key userid;
            if \<not> valid then fail_with IOEXERR_INVALID_ARGS w
            else if ext_too_long ext_name then fail_with IOEXERR_INVALID_ARGS w
            else if \<not> w_is_ready w then fail_with IOEXERR_NOT_READY w
            else do {
              (rc, n) \<leftarrow> get_friend_number env w userid;
              if rc < 0 then fail_with IOEXERR_NOT_EXIST w
              else do {
                b \<leftarrow> friends_exist n (w_friends w);
                if \<not> b then fail_with IOEXERR_NOT_EXIST w
                else do {
                  t \<leftarrow> generate_tid env (w_trace w) 0;
                  cp \<leftarrow> invite_packet ext_name t data;
                  enc \<leftarrow> IOEXcp_encode (ce_fb_write env) cp;
                  case enc of
                    None \<Rightarrow> fail_with IOEXERR_OUT_OF_MEMORY w
                  | Some d \<Rightarrow> do {
                      let (a, tc1) = rc_alloc \<lparr>tcb_tid = t, tcb_callback_func = callback, tcb_callback_context = ctxt\<rparr> (w_tcallbacks w);
                      tc2 \<leftarrow> transacted_callbacks_put a tc1;
                      tc3 \<leftarrow> rc_deref a tc2;
                      (rc1, w1) \<leftarrow> send_packet env n d (w\<lparr>w_tcallbacks := tc3\<rparr>);
                      if rc1 < 0 then fail rc1 w1 else Some (0, w1)
                    }
                }
              }
            }
          }
      | _ \<Rightarrow> fail_with IOEXERR_INVALID_ARGS w)"

definition reply_packet :: "cstring option \<Rightarrow> tid \<Rightarrow> int \<Rightarrow> cstring option \<Rightarrow> u8 list option \<Rightarrow> IOEXCP option" where
  "reply_packet ext_name t status reason data =
     do {
       cp \<leftarrow> IOEXcp_create IOEXCP_TYPE_INVITE_RESPONSE ext_name;
       cp \<leftarrow> IOEXcp_set_tid t cp;
       cp \<leftarrow> IOEXcp_set_status status cp;
       if status \<noteq> 0 then do { s \<leftarrow> reason; IOEXcp_set_reason s cp } else do { bs \<leftarrow> data; IOEXcp_set_raw_data bs cp }
     }"

definition IOEX_reply_friend_invite ::
  "carrier_env \<Rightarrow> cstring option \<Rightarrow> int \<Rightarrow> cstring option \<Rightarrow> u8 list option \<Rightarrow> IOEXCarrier \<Rightarrow> (int \<times> IOEXCarrier) option" where
  "IOEX_reply_friend_invite env arg status reason data w =
     (case arg of
        None \<Rightarrow> fail_with IOEXERR_INVALID_ARGS w
      | Some to \<Rightarrow>
          if to = [] \<or> status \<noteq> 0 \<and> reason = None \<or> status = 0 \<and> (data = None \<or> data = Some []) then fail_with IOEXERR_INVALID_ARGS w
          else do {
            let (userid, ext_name) = parse_address to;
            valid \<leftarrow> is_valid_key userid;
            if \<not> valid then fail_with IOEXERR_INVALID_ARGS w
            else if ext_too_long ext_name then fail_with IOEXERR_INVALID_ARGS w
            else if \<not> w_is_ready w then fail_with IOEXERR_NOT_READY w
            else do {
              (rc, n) \<leftarrow> get_friend_number env w userid;
              if rc < 0 then fail_with IOEXERR_INVALID_ARGS w
              else do {
                b \<leftarrow> friends_exist n (w_friends w);
                if \<not> b then fail_with IOEXERR_NOT_EXIST w
                else do {
                  (t, th1) \<leftarrow> transaction_history_get_invite to (w_thistory w);
                  let w1 = w\<lparr>w_thistory := th1\<rparr>;
                  if t = 0 then fail_with IOEXERR_NO_MATCHED_REQUEST w1
                  else do {
                    cp \<leftarrow> reply_packet ext_name t status reason data;
                    enc \<leftarrow> IOEXcp_encode (ce_fb_write env) cp;
                    case enc of
                      None \<Rightarrow> fail_with IOEXERR_OUT_OF_MEMORY w1
                    | Some d \<Rightarrow> do {
                        (rc1, w2) \<leftarrow> send_packet env n d w1;
                        if rc1 < 0 then fail rc1 w2
                        else do {
                          th2 \<leftarrow> transaction_history_remove_invite to (w_thistory w2);
                          Some (0, w2\<lparr>w_thistory := th2\<rparr>)
                        }
                      }
                  }
                }
              }
            }
          })"

end
