(* ===== verification/CarrierInv.thy ===== *)
theory CarrierInv
  imports CarrierApi
begin

text \<open>
  The invariant of the carrier between calls, and that every notification of the DHT and every function of the
  application keeps it. The DHT's own list of friends is seen through a function \<open>D\<close> of the trace; the law that the
  code relies on says how it answers and how it changes. The invariant says that the table of friends and that list
  agree, so that no assertion fails.
\<close>

subsection \<open>What is required of the DHT and of the packets\<close>

type_synonym dht_view = "carrier_event list \<Rightarrow> u8 list \<Rightarrow> u32 option"

text \<open>
  How the friend list of Tox changes. Friend numbers are small: Tox takes the first free one, and only such numbers are told
  apart by the table.
\<close>

definition friend_list :: "(u8 list \<Rightarrow> u32 option) \<Rightarrow> bool" where
  "friend_list m \<longleftrightarrow> (\<forall>k n. m k = Some n \<longrightarrow> length k = DHT_PUBLIC_KEY_SIZE \<and> unat n < 2 ^ 16)
     \<and> (\<forall>k k' n. m k = Some n \<longrightarrow> m k' = Some n \<longrightarrow> k = k')"

fun quiet :: "carrier_event \<Rightarrow> bool" where
  "quiet (Dht_friend_add _ _) = False"
| "quiet (Dht_friend_add_norequest _) = False"
| "quiet (Dht_friend_delete _) = False"
| "quiet _ = True"

definition tox_added :: "dht_view \<Rightarrow> carrier_event list \<Rightarrow> carrier_event \<Rightarrow> u8 list \<Rightarrow> u32 \<times> TOX_ERR_FRIEND_ADD \<Rightarrow> bool" where
  "tox_added D tr e key r \<longleftrightarrow> (if fst r = UINT32_MAX then snd r \<noteq> TOX_ERR_FRIEND_ADD_OK \<and> D (tr @ [e]) = D tr
     else D tr key = None \<longrightarrow> D (tr @ [e]) = (D tr)(key \<mapsto> fst r) \<and> fst r \<notin> ran (D tr))"

definition dht_law :: "carrier_env \<Rightarrow> dht_view \<Rightarrow> bool" where
  "dht_law env D \<longleftrightarrow> (\<forall>tr. friend_list (D tr))
     \<and> (\<forall>tr key. case D tr key of
          None \<Rightarrow> (case tox_friend_by_public_key (ce_tox env) tr key of (n, err) \<Rightarrow> n = UINT32_MAX \<and> err \<noteq> TOX_ERR_FRIEND_BY_PUBLIC_KEY_OK)
        | Some n \<Rightarrow> tox_friend_by_public_key (ce_tox env) tr key = (n, TOX_ERR_FRIEND_BY_PUBLIC_KEY_OK))
     \<and> (\<forall>tr e. quiet e \<longrightarrow> D (tr @ [e]) = D tr)
     \<and> (\<forall>tr addr d. tox_added D tr (Dht_friend_add addr d) (take DHT_PUBLIC_KEY_SIZE addr) (tox_friend_add (ce_tox env) tr addr d))
     \<and> (\<forall>tr key. tox_added D tr (Dht_friend_add_norequest key) key (tox_friend_add_norequest (ce_tox env) tr key))
     \<and> (\<forall>tr n. D (tr @ [Dht_friend_delete n]) = (\<lambda>k. if D tr k = Some n then None else D tr k))"

text \<open>The packets that a carrier sends: the table is the one that the type announces, and the texts fit.\<close>

definition fits :: "nat \<Rightarrow> cstring option \<Rightarrow> bool" where
  "fits n s \<longleftrightarrow> length (or_empty s) \<le> n"

fun body_ok :: "u8 \<Rightarrow> anybody \<Rightarrow> bool" where
  "body_ok t (Userinfo _ name descr phone gender email region) \<longleftrightarrow> t = IOEXCP_TYPE_USERINFO \<and> fits IOEX_MAX_USER_NAME_LEN name
     \<and> fits IOEX_MAX_USER_DESCRIPTION_LEN descr \<and> fits IOEX_MAX_PHONE_LEN phone \<and> fits IOEX_MAX_GENDER_LEN gender
     \<and> fits IOEX_MAX_EMAIL_LEN email \<and> fits IOEX_MAX_REGION_LEN region"
| "body_ok t (Friendreq name descr hello) \<longleftrightarrow> t = IOEXCP_TYPE_FRIEND_REQUEST \<and> fits IOEX_MAX_USER_NAME_LEN name \<and> fits IOEX_MAX_USER_DESCRIPTION_LEN descr"
| "body_ok t (Friendmsg _ _) \<longleftrightarrow> t = IOEXCP_TYPE_MESSAGE"
| "body_ok t (Invitereq ext i _) \<longleftrightarrow> t = IOEXCP_TYPE_INVITE_REQUEST \<and> i \<noteq> 0 \<and> fits IOEX_MAX_EXTENSION_NAME_LEN ext \<and> is_cstring (or_empty ext)"
| "body_ok t (Invitersp _ _ _ _ _) \<longleftrightarrow> t = IOEXCP_TYPE_INVITE_RESPONSE"

definition wire_ok :: "carrier_env \<Rightarrow> u8 list \<Rightarrow> bool" where
  "wire_ok env bytes \<longleftrightarrow> (case ce_fb_read env bytes of Some (t, Some b) \<Rightarrow> body_ok t b | _ \<Rightarrow> True)"

text \<open>A description is one that can be unpacked.\<close>

definition desc_ok :: "carrier_env \<Rightarrow> u8 list \<Rightarrow> bool" where
  "desc_ok env desc \<longleftrightarrow> (\<exists>avatar name descr phone gender email region.
     ce_fb_read env desc = Some (IOEXCP_TYPE_USERINFO, Some (Userinfo avatar name descr phone gender email region))
     \<and> body_ok IOEXCP_TYPE_USERINFO (Userinfo avatar name descr phone gender email region))"

definition env_ok :: "carrier_env \<Rightarrow> bool" where
  "env_ok env \<longleftrightarrow> (\<forall>bs. length (pe_sha256 (ce_persist env) bs) = SHA256_BYTES)
     \<and> (\<forall>tr. \<exists>i. ce_time_rand env tr i \<noteq> 0)
     \<and> (\<forall>body. ce_fb_write env body \<noteq> Some [])
     \<and> (\<forall>tr. length (tox_self_get_address (ce_tox env) tr) = DHT_ADDRESS_SIZE
          \<and> length (tox_self_get_public_key (ce_tox env) tr) = DHT_PUBLIC_KEY_SIZE
          \<and> wire_ok env (tox_self_get_status_message (ce_tox env) tr))"

subsection \<open>The invariant\<close>

definition user_info_ok :: "IOEXUserInfo \<Rightarrow> bool" where
  "user_info_ok ui \<longleftrightarrow> length (ui_userid ui) \<le> IOEX_MAX_ID_LEN \<and> length (ui_name ui) \<le> IOEX_MAX_USER_NAME_LEN
     \<and> length (ui_description ui) \<le> IOEX_MAX_USER_DESCRIPTION_LEN \<and> length (ui_gender ui) \<le> IOEX_MAX_GENDER_LEN
     \<and> length (ui_phone ui) \<le> IOEX_MAX_PHONE_LEN \<and> length (ui_email ui) \<le> IOEX_MAX_EMAIL_LEN \<and> length (ui_region ui) \<le> IOEX_MAX_REGION_LEN"

definition friend_info_ok :: "IOEXFriendInfo \<Rightarrow> bool" where
  "friend_info_ok fi \<longleftrightarrow> user_info_ok (fi_user_info fi) \<and> IOEXPresenceStatus_None \<le> fi_presence fi \<and> fi_presence fi \<le> IOEXPresenceStatus_Busy"

abbreviation friend_id :: "FriendInfo \<Rightarrow> cstring" where
  "friend_id fi \<equiv> ui_userid (fi_user_info (fi_info fi))"

definition in_sync :: "dht_view \<Rightarrow> IOEXCarrier \<Rightarrow> bool" where
  "in_sync D w \<longleftrightarrow> (\<forall>n fi. friend_at (w_friends w) n = Some fi \<longrightarrow> (\<exists>key. D (w_trace w) key = Some n \<and> friend_id fi = b58 key))
     \<and> (\<forall>key n. D (w_trace w) key = Some n \<longrightarrow> friend_at (w_friends w) n \<noteq> None)"

definition tcallbacks_ok :: "tcallbacks \<Rightarrow> bool" where
  "tcallbacks_ok tc \<longleftrightarrow> tc.ot_ok tc \<and> (\<forall>k x. ot_map tc k = Some x \<longrightarrow> k = tid_key (tcb_tid x) \<and> tcb_callback_func x \<noteq> 0)"

definition thistory_ok :: "thistory \<Rightarrow> bool" where
  "thistory_ok th \<longleftrightarrow> th.ot_ok th \<and> (\<forall>k x. ot_map th k = Some x \<longrightarrow> k = hi_key x \<and> hi_tid x \<noteq> 0)"

definition carrier_ok :: "(u8 list \<Rightarrow> u8 list \<Rightarrow> int) \<Rightarrow> dht_view \<Rightarrow> IOEXCarrier \<Rightarrow> bool" where
  "carrier_ok beyond D w \<longleftrightarrow> friends_ok beyond (w_friends w)
     \<and> (\<forall>n fi. friend_at (w_friends w) n = Some fi \<longrightarrow> friend_info_ok (fi_info fi))
     \<and> in_sync D w \<and> tcallbacks_ok (w_tcallbacks w) \<and> thistory_ok (w_thistory w) \<and> user_info_ok (w_me w)"

lemma carrier_ok_other [simp]:
  "carrier_ok beyond D (w\<lparr>w_error := err\<rparr>) = carrier_ok beyond D w"
  "carrier_ok beyond D (w\<lparr>w_fs := s\<rparr>) = carrier_ok beyond D w"
  "carrier_ok beyond D (w\<lparr>w_is_ready := b\<rparr>) = carrier_ok beyond D w"
  "carrier_ok beyond D (w\<lparr>w_connection_status := c\<rparr>) = carrier_ok beyond D w"
  "carrier_ok beyond D (w\<lparr>w_presence_status := p\<rparr>) = carrier_ok beyond D w"
  "carrier_ok beyond D (w\<lparr>w_address := ad\<rparr>) = carrier_ok beyond D w"
  "carrier_ok beyond D (w\<lparr>w_public_key := pk\<rparr>) = carrier_ok beyond D w"
  "carrier_ok beyond D (w\<lparr>w_base58_addr := ba\<rparr>) = carrier_ok beyond D w"
  "carrier_ok beyond D (w\<lparr>w_friend_events := es\<rparr>) = carrier_ok beyond D w"
  "carrier_ok beyond D (w\<lparr>w_file_senders := fts\<rparr>) = carrier_ok beyond D w"
  "carrier_ok beyond D (w\<lparr>w_running := r\<rparr>) = carrier_ok beyond D w"
  "carrier_ok beyond D (w\<lparr>w_quit := q\<rparr>) = carrier_ok beyond D w"
  "carrier_ok beyond D (w\<lparr>w_refs := rf\<rparr>) = carrier_ok beyond D w"
  "carrier_ok beyond D (w\<lparr>w_file_receivers := fts\<rparr>) = carrier_ok beyond D w"
  "carrier_ok beyond D (IOEX_set_error err w) = carrier_ok beyond D w"
  by (simp_all add: carrier_ok_def in_sync_def IOEX_set_error_def)

lemma carrier_ok_parts:
  assumes "carrier_ok beyond D w"
  shows "friends_ok beyond (w_friends w)" "fr.ot_ok beyond (w_friends w)" "tc.ot_ok (w_tcallbacks w)" "th.ot_ok (w_thistory w)"
    "tcallbacks_ok (w_tcallbacks w)" "thistory_ok (w_thistory w)" "user_info_ok (w_me w)" "in_sync D w"
  using assms unfolding carrier_ok_def friends_ok_def tcallbacks_ok_def thistory_ok_def by blast+

text \<open>The same through the binding: adding a friend gives an error and changes nothing, or gives a new number.\<close>

definition added :: "dht_view \<Rightarrow> carrier_event list \<Rightarrow> carrier_event \<Rightarrow> u8 list \<Rightarrow> int \<times> u32 \<Rightarrow> bool" where
  "added D tr e key r \<longleftrightarrow> (if fst r < 0 then D (tr @ [e]) = D tr
     else D tr key = None \<longrightarrow> D (tr @ [e]) = (D tr)(key \<mapsto> snd r) \<and> snd r \<notin> ran (D tr))"

lemma tox_added_add:
  "tox_added D tr e key (UINT32_MAX, err) \<Longrightarrow> added D tr e key (dht_friend_add_error err, old)"
  "tox_added D tr e key (fid, err) \<Longrightarrow> fid \<noteq> UINT32_MAX \<Longrightarrow> added D tr e key (0, fid)"
  by (auto simp: tox_added_def added_def)

lemma dht_law_friends:
  assumes "dht_law env D"
  shows "D tr key = Some n \<Longrightarrow> length key = 32" "D tr key = Some n \<Longrightarrow> unat n < 2 ^ 16"
    "D tr key = Some n \<Longrightarrow> D tr key' = Some n \<Longrightarrow> key = key'"
proof -
  have "friend_list (D tr)" using assms unfolding dht_law_def by blast
  then show "D tr key = Some n \<Longrightarrow> length key = 32" "D tr key = Some n \<Longrightarrow> unat n < 2 ^ 16" "D tr key = Some n \<Longrightarrow> D tr key' = Some n \<Longrightarrow> key = key'"
    unfolding friend_list_def DHT_PUBLIC_KEY_SIZE_def by blast+
qed

lemma dht_law_number:
  assumes "dht_law env D"
  shows "D tr key = Some n \<Longrightarrow> dht_get_friend_number (ce_tox env) tr key = (0, n)"
    "D tr key = None \<Longrightarrow> fst (dht_get_friend_number (ce_tox env) tr key) < 0"
proof -
  have "\<forall>tr key. case D tr key of
      None \<Rightarrow> (case tox_friend_by_public_key (ce_tox env) tr key of (n, err) \<Rightarrow> n = UINT32_MAX \<and> err \<noteq> TOX_ERR_FRIEND_BY_PUBLIC_KEY_OK)
    | Some n \<Rightarrow> tox_friend_by_public_key (ce_tox env) tr key = (n, TOX_ERR_FRIEND_BY_PUBLIC_KEY_OK)"
    using assms unfolding dht_law_def by blast
  note r = this [rule_format, of tr key]
  show "D tr key = Some n \<Longrightarrow> dht_get_friend_number (ce_tox env) tr key = (0, n)"
    using r small_not_max [OF dht_law_friends(2) [OF assms]] by (auto simp: dht_get_friend_number_def)
  show "D tr key = None \<Longrightarrow> fst (dht_get_friend_number (ce_tox env) tr key) < 0"
    using r by (auto simp: dht_get_friend_number_def split: prod.splits)
qed

lemma dht_law_changes:
  assumes "dht_law env D"
  shows "quiet e \<Longrightarrow> D (tr @ [e]) = D tr"
    "D (tr @ [Dht_friend_delete n]) = (\<lambda>k. if D tr k = Some n then None else D tr k)"
    "tox_added D tr (Dht_friend_add addr d) (take DHT_PUBLIC_KEY_SIZE addr) (tox_friend_add (ce_tox env) tr addr d)"
    "tox_added D tr (Dht_friend_add_norequest key) key (tox_friend_add_norequest (ce_tox env) tr key)"
  using assms unfolding dht_law_def by blast+

lemma dht_law_add:
  assumes "dht_law env D" and "d \<noteq> []"
  shows "\<exists>r. dht_friend_add (ce_tox env) tr addr d old = Some r \<and> added D tr (Dht_friend_add addr d) (take DHT_PUBLIC_KEY_SIZE addr) r"
  using dht_law_changes(3) [OF assms(1), of tr addr d] assms(2)
  by (auto simp: dht_friend_add_def tox_added_add split: prod.splits)

lemma dht_law_add_norequest:
  "dht_law env D \<Longrightarrow> added D tr (Dht_friend_add_norequest key) key (dht_friend_add_norequest (ce_tox env) tr key old)"
  using dht_law_changes(4) [of env D tr key]
  by (auto simp: dht_friend_add_norequest_def tox_added_add split: prod.splits)

lemmas dht_lawD = dht_law_number dht_law_changes(1) dht_law_friends

lemma send_packet_eq:
  "unat n < 2 ^ 16 \<Longrightarrow> data \<noteq> [] \<Longrightarrow> \<exists>rc. send_packet env n data w = Some (rc, emit (Dht_message n data) w)"
  using small_not_max [of n] by (simp add: send_packet_def dht_friend_message_def Let_def)

lemma encoded_nonempty: "env_ok env \<Longrightarrow> IOEXcp_encode (ce_fb_write env) cp = Some (Some bytes) \<Longrightarrow> bytes \<noteq> []"
  by (auto simp: env_ok_def IOEXcp_encode_def bind_Some)

subsection \<open>The parts of the carrier in a call\<close>

lemma carrier_ok_emit:
  assumes "dht_law env D" and "quiet e"
  shows "carrier_ok beyond D (emit e w) = carrier_ok beyond D w"
  using dht_lawD(3) [OF assms] by (simp add: carrier_ok_def in_sync_def emit_def)

lemma carrier_ok_call_back:
  "dht_law env D \<Longrightarrow> quiet e \<Longrightarrow> carrier_ok beyond D (call_back c e w) = carrier_ok beyond D w"
  by (simp add: call_back_def carrier_ok_emit)

lemmas carrier_ok_event = carrier_ok_emit carrier_ok_call_back

lemma call_back_fields [simp]:
  "w_friends (call_back c e w) = w_friends w" "w_callbacks (call_back c e w) = w_callbacks w"
  "w_friends (emit e w) = w_friends w" "w_callbacks (emit e w) = w_callbacks w"
  "w_tcallbacks (call_back c e w) = w_tcallbacks w" "w_thistory (call_back c e w) = w_thistory w"
  "w_tcallbacks (emit e w) = w_tcallbacks w" "w_thistory (emit e w) = w_thistory w"
  "w_me (emit e w) = w_me w" "w_trace (emit e w) = w_trace w @ [e]"
  by (simp_all add: call_back_def emit_def)

lemma event_upd [simp]:
  "(call_back c e w)\<lparr>w_friends := f\<rparr> = call_back c e (w\<lparr>w_friends := f\<rparr>)" "(emit e w)\<lparr>w_friends := f\<rparr> = emit e (w\<lparr>w_friends := f\<rparr>)"
  "(emit e w)\<lparr>w_thistory := th\<rparr> = emit e (w\<lparr>w_thistory := th\<rparr>)"
  by (simp_all add: call_back_def emit_def)

lemma friend_small: "carrier_ok beyond D w \<Longrightarrow> friend_at (w_friends w) n = Some fi \<Longrightarrow> unat n < 2 ^ 16"
proof -
  assume ok: "carrier_ok beyond D w" and fi: "friend_at (w_friends w) n = Some fi"
  have fo: "friends_ok beyond (w_friends w)" using carrier_ok_parts(1) [OF ok] .
  have "fi \<in> set (ot_list (w_friends w))"
    using fi unfolding friend_at_def fr.ot_list_map [OF carrier_ok_parts(2) [OF ok]] by (auto dest!: map_of_SomeD in_set_zipE)
  moreover have "friend_key n = friend_key (friend_number fi)" using fi fo unfolding friends_ok_def friend_at_def by blast
  ultimately show ?thesis using friends_ok_list(3) [OF fo] by simp
qed

lemma friends_get_absent:
  "carrier_ok beyond D w \<Longrightarrow> unat n < 2 ^ 16 \<Longrightarrow> friend_at (w_friends w) n = None \<Longrightarrow> friends_get n (w_friends w) = Some (None, w_friends w)"
  using fr.ot_get_None [OF carrier_ok_parts(2) small_key, of beyond D w n] small_not_max [of n]
  by (simp add: friends_get_def friend_at_def)

lemma friends_get_present:
  assumes ok: "carrier_ok beyond D w" and fi: "friend_at (w_friends w) n = Some fi"
  obtains a where "friends_get n (w_friends w) = Some (Some a, ot_hold a (w_friends w))" "ot_read a (ot_hold a (w_friends w)) = Some fi"
    "rc_deref a (ot_hold a (w_friends w)) = Some (w_friends w)"
proof -
  have n: "unat n < 2 ^ 16" by (rule friend_small [OF ok fi])
  from fr.ot_get_Some [OF carrier_ok_parts(2) [OF ok] small_key [OF n] fi [unfolded friend_at_def]] obtain a where
    "ot_get (friend_key n) (w_friends w) = Some (Some a, ot_hold a (w_friends w))" "ot_read a (ot_hold a (w_friends w)) = Some fi"
    "rc_deref a (ot_hold a (w_friends w)) = Some (w_friends w)" by blast
  then show thesis using that small_not_max [OF n] by (simp add: friends_get_def)
qed

lemma friends_exist_eq:
  "carrier_ok beyond D w \<Longrightarrow> unat n < 2 ^ 16 \<Longrightarrow> friends_exist n (w_friends w) = Some (friend_at (w_friends w) n \<noteq> None)"
  using fr.ot_exist_spec [OF carrier_ok_parts(2) small_key, of beyond D w n] small_not_max [of n]
  by (simp add: friends_exist_def friend_at_def)

lemma friend_known:
  assumes "carrier_ok beyond D w" and "friend_at (w_friends w) n = Some fi"
  shows "friend_info_ok (fi_info fi)" "friend_number fi = n" "is_cstring (fi_label (fi_info fi))" "length (fi_label (fi_info fi)) < 64"
    "\<exists>key. D (w_trace w) key = Some n \<and> friend_id fi = b58 key"
proof -
  show "friend_info_ok (fi_info fi)" using assms unfolding carrier_ok_def by blast
  have "friend_key n = friend_key (friend_number fi) \<and> is_cstring (fi_label (fi_info fi)) \<and> length (fi_label (fi_info fi)) < 64"
    using carrier_ok_parts(1) [OF assms(1)] assms(2) unfolding friends_ok_def friend_at_def by blast
  then show "friend_number fi = n" "is_cstring (fi_label (fi_info fi))" "length (fi_label (fi_info fi)) < 64" by simp_all
  show "\<exists>key. D (w_trace w) key = Some n \<and> friend_id fi = b58 key"
    using carrier_ok_parts(8) [OF assms(1)] assms(2) unfolding in_sync_def by blast
qed

lemma friend_id_short: "dht_law env D \<Longrightarrow> carrier_ok beyond D w \<Longrightarrow> friend_at (w_friends w) n = Some fi \<Longrightarrow> length (friend_id fi) \<le> 44"
  using friend_known(5) [of beyond D w n fi] dht_lawD(4) [of env D "w_trace w"] key_text_length by fastforce

lemma friend_userid_eq:
  assumes "dht_law env D" and ok: "carrier_ok beyond D w" and n: "unat n < 2 ^ 16"
  shows "friend_userid n w = Some (map_option friend_id (friend_at (w_friends w) n), w)"
proof (cases "friend_at (w_friends w) n")
  case None
  then show ?thesis using friends_get_absent [OF ok n None] by (simp add: friend_userid_def)
next
  case (Some fi)
  from friends_get_present [OF ok Some] obtain a where
    "friends_get n (w_friends w) = Some (Some a, ot_hold a (w_friends w))" "ot_read a (ot_hold a (w_friends w)) = Some fi"
    "rc_deref a (ot_hold a (w_friends w)) = Some (w_friends w)" by blast
  with friend_id_short [OF assms(1,2) Some] Some show ?thesis
    by (simp add: friend_userid_def strcpy_into_Some IOEX_MAX_ID_LEN_def)
qed

text \<open>Changing a friend in place, but not its number or identifier.\<close>

lemma carrier_ok_set_friend:
  assumes ok: "carrier_ok beyond D w" and fi: "friend_at (w_friends w) n = Some fi"
    and fr': "fr.ot_ok beyond fr'" "ot_map fr' = (ot_map (w_friends w))(friend_key n \<mapsto> fi')"
    and fi': "friend_number fi' = n" "friend_id fi' = friend_id fi" "is_cstring (fi_label (fi_info fi'))" "length (fi_label (fi_info fi')) < 64"
      "friend_info_ok (fi_info fi')"
  shows "carrier_ok beyond D (w\<lparr>w_friends := fr'\<rparr>)"
proof -
  have at: "friend_at fr' m = (if m = n then Some fi' else friend_at (w_friends w) m)" for m
    using fr'(2) by (simp add: friend_at_def)
  have "friends_ok beyond fr'"
    using carrier_ok_parts(1) [OF ok] fr' fi' by (auto simp: friends_ok_def)
  moreover have "in_sync D (w\<lparr>w_friends := fr'\<rparr>)"
    using carrier_ok_parts(8) [OF ok] fi fi'(2) unfolding in_sync_def by (auto simp: at)
  moreover have "friend_info_ok (fi_info x)" if "friend_at fr' m = Some x" for m x
    using that fi'(5) friend_known(1) [OF ok] unfolding at by (auto split: if_splits)
  ultimately show ?thesis using carrier_ok_parts [OF ok] by (simp add: carrier_ok_def)
qed

lemma friend_update:
  assumes ok: "carrier_ok beyond D w" and fi: "friend_at (w_friends w) n = Some fi"
    and f: "friend_number (f fi) = friend_number fi" "friend_id (f fi) = friend_id fi" "is_cstring (fi_label (fi_info (f fi)))"
      "length (fi_label (fi_info (f fi))) < 64" "friend_info_ok (fi_info (f fi))"
  obtains a fr' where "friends_get n (w_friends w) = Some (Some a, ot_hold a (w_friends w))" "ot_read a (ot_hold a (w_friends w)) = Some fi"
    "ot_modify a f (ot_hold a (w_friends w)) = Some (ot_hold a fr')" "rc_deref a (ot_hold a fr') = Some fr'"
    "carrier_ok beyond D (w\<lparr>w_friends := fr'\<rparr>)" "ot_map fr' = (ot_map (w_friends w))(friend_key n \<mapsto> f fi)"
proof -
  have n: "unat n < 2 ^ 16" by (rule friend_small [OF ok fi])
  from fr.ot_update [OF carrier_ok_parts(2) [OF ok] small_key [OF n] fi [unfolded friend_at_def], of f] obtain a t where
    t: "ot_get (friend_key n) (w_friends w) = Some (Some a, ot_hold a (w_friends w))" "ot_read a (ot_hold a (w_friends w)) = Some fi"
      "ot_modify a f (ot_hold a (w_friends w)) = Some (ot_hold a t)" "rc_deref a (ot_hold a t) = Some t"
      "fr.ot_ok beyond t" "ot_map t = (ot_map (w_friends w))(friend_key n \<mapsto> f fi)" by metis
  have "carrier_ok beyond D (w\<lparr>w_friends := t\<rparr>)"
    by (rule carrier_ok_set_friend [OF ok fi t(5,6)]) (use f friend_known(2) [OF ok fi] in simp_all)
  with t show thesis using that small_not_max [OF n] by (simp add: friends_get_def)
qed

lemma carrier_ok_hold:
  assumes ok: "carrier_ok beyond D w"
  shows "carrier_ok beyond D (w\<lparr>w_friends := ot_hold a (w_friends w)\<rparr>)"
proof -
  note h = fr.ot_ok_hold [OF carrier_ok_parts(2) [OF ok], of a]
  have at: "friend_at (ot_hold a (w_friends w)) = friend_at (w_friends w)" using h(2) by (simp add: friend_at_def [abs_def])
  with h ok show ?thesis by (simp add: carrier_ok_def friends_ok_def in_sync_def)
qed

text \<open>The number of a friend by its identifier.\<close>

lemma get_friend_number_cases:
  assumes law: "dht_law env D" and ok: "carrier_ok beyond D w"
  obtains (unknown) rc n where "get_friend_number env w friendid = Some (rc, n)" "rc < 0"
      "\<forall>key. length key = 32 \<longrightarrow> friendid = b58 key \<longrightarrow> D (w_trace w) key = None"
  | (known) n key fi where "get_friend_number env w friendid = Some (0, n)" "friendid = b58 key" "D (w_trace w) key = Some n"
      "friend_at (w_friends w) n = Some fi" "friend_id fi = friendid" "unat n < 2 ^ 16"
proof -
  have neg: "IOEX_GENERAL_ERROR IOEXERR_INVALID_ARGS < 0" "IOEX_GENERAL_ERROR IOEXERR_NOT_EXIST < 0" by (simp_all add: error_codes)
  obtain len key where d: "decode_cstring friendid DHT_PUBLIC_KEY_SIZE = Some (len, key)"
    using decode_total [of DHT_PUBLIC_KEY_SIZE friendid] by (auto simp: address_sizes)
  show thesis
  proof (cases "len = int DHT_PUBLIC_KEY_SIZE")
    case False
    have "\<not> (length k = 32 \<and> friendid = b58 k)" for k
      using decode_b58 [of k DHT_PUBLIC_KEY_SIZE] d False by (cases k) (auto simp: address_sizes)
    with False d neg(1) show thesis by (intro unknown) (simp_all add: get_friend_number_def)
  next
    case True
    have k: "friendid = b58 key" "length key = 32" using decode_full [of friendid DHT_PUBLIC_KEY_SIZE key] d True by (simp_all add: address_sizes)
    show thesis
    proof (cases "D (w_trace w) key")
      case None
      obtain rc n where r: "dht_get_friend_number (ce_tox env) (w_trace w) key = (rc, n)" "rc < 0"
        using dht_lawD(2) [OF law None] by (cases "dht_get_friend_number (ce_tox env) (w_trace w) key") auto
      have "k' = key" if "length k' = 32" "friendid = b58 k'" for k' using b58_inj [of k' key] that k by (cases k') auto
      with None r d True neg(2) show thesis by (intro unknown [of "IOEX_GENERAL_ERROR IOEXERR_NOT_EXIST" n]) (auto simp: get_friend_number_def)
    next
      case (Some n)
      then obtain fi where fi: "friend_at (w_friends w) n = Some fi" using carrier_ok_parts(8) [OF ok] unfolding in_sync_def by blast
      from friend_known(5) [OF ok fi] obtain key' where k': "D (w_trace w) key' = Some n" "friend_id fi = b58 key'" by blast
      have "key' = key" using dht_lawD(6) [OF law k'(1) Some] .
      with k' k fi Some d True show thesis
        by (intro known [OF _ k(1) Some fi _ dht_lawD(5) [OF law Some]]) (simp_all add: get_friend_number_def dht_lawD(1) [OF law Some])
    qed
  qed
qed

lemma save_data_eq:
  assumes "env_ok env" and "fr.ot_ok beyond (w_friends w)"
  shows "\<exists>s. save_data env w = Some (w\<lparr>w_fs := s\<rparr>)"
proof -
  have "length (pe_sha256 (ce_persist env) bs) = SHA256_BYTES" for bs using assms(1) by (simp add: env_ok_def)
  note im = store_image_eq [OF assms(2) this]
  have "\<exists>rc s. store_persistence_data (ce_persist env) (w_data_location w) (dht_get_savedata (ce_tox env) (w_trace w)) (w_friends w) (w_fs w) = Some (rc, w_friends w, s)"
    by (simp add: store_persistence_data_def im Let_def split: prod.split)
  then show ?thesis by (auto simp: save_data_def)
qed

end
