(* ===== verification/CarrierSafe.thy ===== *)
theory CarrierSafe
  imports CarrierInv
begin

text \<open>Every notification of the DHT and every function of the application runs to its end and keeps the invariant.\<close>

subsection \<open>Packets from the wire\<close>

definition cp_ok :: "IOEXCP \<Rightarrow> bool" where
  "cp_ok cp \<longleftrightarrow>
     (case cp_pkt cp of
        pkt_info p \<Rightarrow> fits IOEX_MAX_USER_NAME_LEN (info_name p) \<and> fits IOEX_MAX_USER_DESCRIPTION_LEN (info_descr p)
          \<and> fits IOEX_MAX_PHONE_LEN (info_phone p) \<and> fits IOEX_MAX_GENDER_LEN (info_gender p) \<and> fits IOEX_MAX_EMAIL_LEN (info_email p)
          \<and> fits IOEX_MAX_REGION_LEN (info_region p)
      | pkt_freq p \<Rightarrow> fits IOEX_MAX_USER_NAME_LEN (freq_name p) \<and> fits IOEX_MAX_USER_DESCRIPTION_LEN (freq_descr p)
      | pkt_ireq p \<Rightarrow> ireq_tid p \<noteq> 0 \<and> fits IOEX_MAX_EXTENSION_NAME_LEN (cp_ext cp) \<and> is_cstring (or_empty (cp_ext cp))
      | _ \<Rightarrow> True)"

lemma wire_decode:
  assumes "wire_ok env bytes"
  shows "\<exists>r. IOEXcp_decode (ce_fb_read env) bytes = Some r \<and> (\<forall>cp. r = Some cp \<longrightarrow> cp_ok cp)"
proof (cases "ce_fb_read env bytes")
  case (Some tb)
  obtain t body where tb: "tb = (t, body)" by fastforce
  show ?thesis
  proof (cases body)
    case (Some b)
    with assms \<open>ce_fb_read env bytes = Some tb\<close> have "body_ok t b" by (simp add: wire_ok_def tb)
    with Some \<open>ce_fb_read env bytes = Some tb\<close> show ?thesis
      by (cases b) (auto simp: IOEXcp_decode_def tb decode_body_def IOEXcp_create_def cp_types cp_set_def cp_ok_def)
  qed (use Some in \<open>auto simp: IOEXcp_decode_def tb IOEXcp_create_def cp_types\<close>)
qed (simp add: IOEXcp_decode_def)

lemma put_field_ok: "length s \<le> n \<Longrightarrow> \<exists>c. put_field (n + 1) old s = Some (s, c)"
  by (auto simp: put_field_def strcpy_into_def)

lemma unpack_ok:
  assumes "desc \<noteq> []" and "wire_ok env desc" and "user_info_ok ui"
  shows "\<exists>r. unpack_user_desc env desc ui = Some r
    \<and> (\<forall>ui' c. r = Some (ui', c) \<longrightarrow> user_info_ok ui' \<and> ui_userid ui' = ui_userid ui)"
proof -
  from wire_decode [OF assms(2)] obtain r where r: "IOEXcp_decode (ce_fb_read env) desc = Some r" "\<forall>cp. r = Some cp \<longrightarrow> cp_ok cp" by blast
  show ?thesis
  proof (cases "\<exists>cp p. r = Some cp \<and> cp_pkt cp = pkt_info p")
    case False
    then show ?thesis using assms(1) r(1)
      by (auto simp: unpack_user_desc_def IOEXcp_get_type_def cp_types split: option.splits IOEXcp_packet_t.splits)
  next
    case True
    then obtain cp p where cp: "r = Some cp" "cp_pkt cp = pkt_info p" by blast
    with r(2) have f: "length (or_empty (info_name p)) \<le> IOEX_MAX_USER_NAME_LEN" "length (or_empty (info_descr p)) \<le> IOEX_MAX_USER_DESCRIPTION_LEN"
      "length (or_empty (info_gender p)) \<le> IOEX_MAX_GENDER_LEN" "length (or_empty (info_phone p)) \<le> IOEX_MAX_PHONE_LEN"
      "length (or_empty (info_email p)) \<le> IOEX_MAX_EMAIL_LEN" "length (or_empty (info_region p)) \<le> IOEX_MAX_REGION_LEN"
      by (simp_all add: cp_ok_def fits_def)
    obtain c1 c2 c3 c4 c5 c6 where
      "put_field (IOEX_MAX_USER_NAME_LEN + 1) (ui_name ui) (or_empty (info_name p)) = Some (or_empty (info_name p), c1)"
      "put_field (IOEX_MAX_USER_DESCRIPTION_LEN + 1) (ui_description ui) (or_empty (info_descr p)) = Some (or_empty (info_descr p), c2)"
      "put_field (IOEX_MAX_GENDER_LEN + 1) (ui_gender ui) (or_empty (info_gender p)) = Some (or_empty (info_gender p), c3)"
      "put_field (IOEX_MAX_PHONE_LEN + 1) (ui_phone ui) (or_empty (info_phone p)) = Some (or_empty (info_phone p), c4)"
      "put_field (IOEX_MAX_EMAIL_LEN + 1) (ui_email ui) (or_empty (info_email p)) = Some (or_empty (info_email p), c5)"
      "put_field (IOEX_MAX_REGION_LEN + 1) (ui_region ui) (or_empty (info_region p)) = Some (or_empty (info_region p), c6)"
      using f [THEN put_field_ok] by metis
    then show ?thesis using assms(1,3) r(1) cp f by (simp add: unpack_user_desc_def cp_get user_info_ok_def)
  qed
qed

lemma unpack_desc:
  assumes "desc \<noteq> []" and "desc_ok env desc" and "user_info_ok ui"
  shows "\<exists>ui' c. unpack_user_desc env desc ui = Some (Some (ui', c)) \<and> user_info_ok ui' \<and> ui_userid ui' = ui_userid ui"
proof -
  have w: "wire_ok env desc" using assms(2) by (auto simp: desc_ok_def wire_ok_def simp del: body_ok.simps)
  have "unpack_user_desc env desc ui \<noteq> Some None"
    using assms(1,2) by (auto simp: unpack_user_desc_def desc_ok_def IOEXcp_decode_def decode_body_def IOEXcp_create_def cp_types cp_set_def cp_get bind_Some)
  with unpack_ok [OF assms(1) w assms(3)] show ?thesis by auto
qed

lemma b58_cstring: "is_cstring (b58 data)"
proof -
  have "0 \<notin> set b58digits_ordered" "length b58digits_ordered = 58" by (simp_all add: b58digits_ordered_def)
  then have "b58digits_ordered ! unat d \<noteq> 0" if "unat d < 58" for d :: u8 using that nth_mem by metis
  then show ?thesis
    using digits58_props(1) [of "val256 data"] by (auto simp: is_cstring_def b58_def b58_text_def ASCII_1_def)
qed

lemma encode_into_b58:
  assumes "length (b58 data) < n"
  shows "encode_into data n old = Some (b58 data)"
proof -
  have "takeWhile (\<lambda>c. c \<noteq> 0) (b58 data @ replicate (n - length (b58 data)) 0) = b58 data"
    using b58_cstring [of data] assms by (subst takeWhile_append2) (auto simp: is_cstring_def takeWhile_eq_Nil_iff)
  then show ?thesis using assms write_text [OF assms] by (simp add: encode_into_def base58_encode_b58)
qed

lemma encode_key: "length key = 32 \<Longrightarrow> encode_into key (IOEX_MAX_ID_LEN + 1) old = Some (b58 key)"
  using key_text_length [of key] by (intro encode_into_b58) (simp add: IOEX_MAX_ID_LEN_def)

lemma encode_address: "length addr = 38 \<Longrightarrow> encode_into addr (IOEX_MAX_ADDRESS_LEN + 1) old = Some (b58 addr)"
  using address_text_length [of addr] by (intro encode_into_b58) (simp add: IOEX_MAX_ADDRESS_LEN_def)

subsection \<open>Notifications\<close>

lemma notify_connection_ok:
  "dht_law env D \<Longrightarrow> carrier_ok beyond D w \<Longrightarrow> carrier_ok beyond D (notify_connection_cb connected w)"
  by (simp add: notify_connection_cb_def Let_def carrier_ok_event [of env])

lemma notify_friends_ok:
  assumes law: "dht_law env D" and ok: "carrier_ok beyond D w"
  shows "wp (notify_friends w) (carrier_ok beyond D)"
proof -
  let ?body = "\<lambda>fi w'. Some (Next, call_back CB_friend_list (Friend_list (Some (fi_info fi))) w')"
  have walk: "\<exists>w'. walk ?body fis v = Some (Next, w') \<and> carrier_ok beyond D w' \<and> w_friends w' = w_friends v" if "carrier_ok beyond D v" for fis v
    using that
  proof (induction fis arbitrary: v)
    case (Cons fi fis)
    then show ?case using Cons.IH [of "call_back CB_friend_list (Friend_list (Some (fi_info fi))) v"] by (simp add: carrier_ok_event [OF law])
  qed simp
  from walk [OF ok, of "ot_list (w_friends w)"] obtain w' where
    w': "walk ?body (ot_list (w_friends w)) w = Some (Next, w')" "carrier_ok beyond D w'" "w_friends w' = w_friends w" by blast
  have "w'\<lparr>w_friends := w_friends w\<rparr> = w'" using w'(3) by simp
  with fr.ot_iterate_spec [OF carrier_ok_parts(2) [OF ok] w'(1) loop_next.distinct(3)] w'(2) show ?thesis
    by (simp add: notify_friends_def wp_def carrier_ok_event [OF law])
qed

lemma notify_friend_connection_ok:
  assumes law: "dht_law env D" and ok: "carrier_ok beyond D w" and n: "unat n < 2 ^ 16"
  shows "wp (notify_friend_connection_cb n connected w) (carrier_ok beyond D)"
proof (cases "friend_at (w_friends w) n")
  case None
  then show ?thesis using friends_get_absent [OF ok n None] small_not_max [OF n] ok by (simp add: notify_friend_connection_cb_def wp_def)
next
  case (Some fi)
  define st where "st = (if connected then IOEXConnectionStatus_Connected else IOEXConnectionStatus_Disconnected)"
  let ?f = "\<lambda>f. f\<lparr>fi_info := (fi_info f)\<lparr>fi_status := st\<rparr>\<rparr>"
  show ?thesis
  proof (rule friend_update [OF ok Some, of ?f])
    fix a fr' assume a: "friends_get n (w_friends w) = Some (Some a, ot_hold a (w_friends w))" "ot_read a (ot_hold a (w_friends w)) = Some fi"
      "ot_modify a ?f (ot_hold a (w_friends w)) = Some (ot_hold a fr')" "rc_deref a (ot_hold a fr') = Some fr'"
      "carrier_ok beyond D (w\<lparr>w_friends := fr'\<rparr>)"
    have d: "rc_deref a (ot_hold a (w_friends w)) = Some (w_friends w)" using friends_get_present [OF ok Some] a(1) by auto
    show ?thesis
      using a d ok small_not_max [OF n] friend_id_short [OF law ok Some] unfolding notify_friend_connection_cb_def st_def [symmetric]
      by (simp add: carrier_ok_event [OF law] notify_friend_connection_def wp_def strcpy_into_Some IOEX_MAX_ID_LEN_def)
  qed (use friend_known [OF ok Some] in \<open>simp_all add: friend_info_ok_def\<close>)
qed

lemma notify_friend_status_ok:
  assumes law: "dht_law env D" and ok: "carrier_ok beyond D w" and n: "unat n < 2 ^ 16"
  shows "wp (notify_friend_status_cb n status w) (carrier_ok beyond D)"
proof (cases "friend_at (w_friends w) n")
  case None
  then show ?thesis using friends_get_absent [OF ok n None] small_not_max [OF n] ok by (simp add: notify_friend_status_cb_def wp_def)
next
  case (Some fi)
  from friends_get_present [OF ok Some] obtain b where
    b: "friends_get n (w_friends w) = Some (Some b, ot_hold b (w_friends w))" "rc_deref b (ot_hold b (w_friends w)) = Some (w_friends w)" by blast
  show ?thesis
  proof (cases "status < IOEXPresenceStatus_None \<or> status > IOEXPresenceStatus_Busy")
    case True
    then show ?thesis using b carrier_ok_hold [OF ok] small_not_max [OF n] by (simp add: notify_friend_status_cb_def wp_def)
  next
    case False
    let ?f = "\<lambda>f. f\<lparr>fi_info := (fi_info f)\<lparr>fi_presence := status\<rparr>\<rparr>"
    show ?thesis
    proof (rule friend_update [OF ok Some, of ?f])
      fix a fr' assume a: "friends_get n (w_friends w) = Some (Some a, ot_hold a (w_friends w))" "ot_read a (ot_hold a (w_friends w)) = Some fi"
        "ot_modify a ?f (ot_hold a (w_friends w)) = Some (ot_hold a fr')" "rc_deref a (ot_hold a fr') = Some fr'"
        "carrier_ok beyond D (w\<lparr>w_friends := fr'\<rparr>)"
      show ?thesis
        using a b ok False small_not_max [OF n] friend_id_short [OF law ok Some]
        by (simp add: notify_friend_status_cb_def carrier_ok_event [OF law] notify_friend_presence_def wp_def strcpy_into_Some IOEX_MAX_ID_LEN_def)
    qed (use friend_known [OF ok Some] False in \<open>simp_all add: friend_info_ok_def\<close>)
  qed
qed

lemma notify_friend_description_ok:
  assumes law: "dht_law env D" and ok: "carrier_ok beyond D w" and n: "unat n < 2 ^ 16" and d: "desc \<noteq> [] \<longrightarrow> desc_ok env desc"
  shows "wp (notify_friend_description_cb env n desc w) (carrier_ok beyond D)"
proof (cases "friend_at (w_friends w) n")
  case None
  then show ?thesis using friends_get_absent [OF ok n None] small_not_max [OF n] ok by (simp add: notify_friend_description_cb_def wp_def)
next
  case (Some fi)
  note kn = friend_known [OF ok Some]
  from friends_get_present [OF ok Some] obtain b where
    b: "friends_get n (w_friends w) = Some (Some b, ot_hold b (w_friends w))" "rc_deref b (ot_hold b (w_friends w)) = Some (w_friends w)" by blast
  show ?thesis
  proof (cases "desc = []")
    case True
    then show ?thesis using b ok small_not_max [OF n] by (simp add: notify_friend_description_cb_def wp_def)
  next
    case False
    have "user_info_ok (fi_user_info (fi_info fi))" using kn(1) by (simp add: friend_info_ok_def)
    with unpack_desc [OF False] d False obtain ui c where
      u: "unpack_user_desc env desc (fi_user_info (fi_info fi)) = Some (Some (ui, c))" "user_info_ok ui" "ui_userid ui = friend_id fi" by metis
    let ?info = "(fi_info fi)\<lparr>fi_user_info := ui\<rparr>"
    let ?f = "\<lambda>f. f\<lparr>fi_info := ?info\<rparr>"
    show ?thesis
    proof (rule friend_update [OF ok Some, of ?f])
      fix a fr' assume a: "friends_get n (w_friends w) = Some (Some a, ot_hold a (w_friends w))" "ot_read a (ot_hold a (w_friends w)) = Some fi"
        "ot_modify a ?f (ot_hold a (w_friends w)) = Some (ot_hold a fr')" "rc_deref a (ot_hold a fr') = Some fr'"
        "carrier_ok beyond D (w\<lparr>w_friends := fr'\<rparr>)"
      have "\<exists>e. friends_exist n (ot_hold a fr') = Some e"
        using friends_exist_eq [OF carrier_ok_hold [OF a(5)] n, of a] by simp
      then show ?thesis
        using a u False small_not_max [OF n]
        by (auto simp: notify_friend_description_cb_def carrier_ok_event [OF law] notify_friend_info_def wp_def)
    qed (use kn u in \<open>simp_all add: friend_info_ok_def\<close>)
  qed
qed

lemma notify_friend_request_ok:
  assumes law: "dht_law env D" and ok: "carrier_ok beyond D w" and g: "gretting \<noteq> []" "wire_ok env gretting" and k: "length public_key = 32"
  shows "wp (notify_friend_request_cb env public_key gretting w) (carrier_ok beyond D)"
proof -
  from wire_decode [OF g(2)] obtain r where r: "IOEXcp_decode (ce_fb_read env) gretting = Some r" "\<forall>cp. r = Some cp \<longrightarrow> cp_ok cp" by blast
  obtain rc n where c: "dht_get_friend_number (ce_tox env) (w_trace w) public_key = (rc, n)" by fastforce
  show ?thesis
  proof (cases "\<exists>cp p. r = Some cp \<and> cp_pkt cp = pkt_freq p")
    case False
    then show ?thesis using g(1) r(1) c ok
      by (auto simp: notify_friend_request_cb_def wp_def IOEXcp_get_type_def cp_types split: option.splits IOEXcp_packet_t.splits)
  next
    case True
    then obtain cp p where cp: "r = Some cp" "cp_pkt cp = pkt_freq p" by blast
    with r(2) have f: "length (or_empty (freq_name p)) \<le> IOEX_MAX_USER_NAME_LEN" "length (or_empty (freq_descr p)) \<le> IOEX_MAX_USER_DESCRIPTION_LEN"
      by (simp_all add: cp_ok_def fits_def)
    then have "copy_nonempty (IOEX_MAX_USER_NAME_LEN + 1) (or_empty (freq_name p)) = Some (or_empty (freq_name p))"
      "copy_nonempty (IOEX_MAX_USER_DESCRIPTION_LEN + 1) (or_empty (freq_descr p)) = Some (or_empty (freq_descr p))"
      by (simp_all add: copy_nonempty_def strcpy_into_Some)
    then show ?thesis using g(1) r(1) c ok cp encode_key [OF k, of "[]"]
      by (simp add: notify_friend_request_cb_def wp_def cp_get carrier_ok_event [OF law])
  qed
qed

lemma do_events_ok:
  assumes law: "dht_law env D" and ok: "carrier_ok beyond D w"
  shows "carrier_ok beyond D (do_friend_events w)"
proof -
  have e: "carrier_ok beyond D (do_friend_event ev v) = carrier_ok beyond D v" for ev v
    by (simp add: do_friend_event_def Let_def carrier_ok_event [OF law] split: FriendEventType.split)
  have "carrier_ok beyond D (do_events_loop evs v)" if "carrier_ok beyond D v" for evs v
    using that by (induction evs arbitrary: v) (simp_all add: e)
  with ok show ?thesis by (simp add: do_friend_events_def)
qed

subsection \<open>Messages of friends\<close>

lemma handle_friend_message_ok:
  assumes law: "dht_law env D" and ok: "carrier_ok beyond D w" and n: "unat n < 2 ^ 16" and p: "cp_pkt cp = pkt_fmsg p"
  shows "wp (handle_friend_message n cp w) (carrier_ok beyond D)"
  using friend_userid_eq [OF law ok n] small_not_max [OF n] ok p
  by (cases "friend_at (w_friends w) n") (simp_all add: handle_friend_message_def wp_def cp_get carrier_ok_event [OF law])

text \<open>There is room for one more entry in the tables of transactions and invitations.\<close>

definition has_room :: "'a objtable \<Rightarrow> bool" where
  "has_room t \<longleftrightarrow> length (ht_lst (ot_table t)) + 1 < 2 ^ 63"

lemma put_invite_ok:
  assumes ok: "thistory_ok th" and room: "has_room th" and u: "is_cstring userid" "length userid + 3 < HISTORY_KEY_SIZE" and t: "t \<noteq> 0"
  obtains th' where "tansaction_history_put_invite userid t th = Some th'" "thistory_ok th'"
    "ot_map th' = (ot_map th)([0x69, 0x72, 0x5f] @ userid \<mapsto> \<lparr>hi_key = [0x69, 0x72, 0x5f] @ userid, hi_tid = t\<rparr>)"
proof -
  let ?k = "[0x69, 0x72, 0x5f] @ userid"
  have k: "invite_key userid = Some ?k" using u(2) by (simp add: invite_key_def strcpy_into_Some)
  have hk: "is_history_key ?k" using u(1) by (simp add: is_history_key_def is_cstring_def)
  have o: "th.ot_ok th" using ok by (simp add: thistory_ok_def)
  from th.ot_put_new [OF o hk room [unfolded has_room_def], of "\<lparr>hi_key = ?k, hi_tid = t\<rparr>"] obtain a t1 t2 t3 where
    a: "rc_alloc \<lparr>hi_key = ?k, hi_tid = t\<rparr> th = (a, t1)" "ot_put ?k a t1 = Some t2" "rc_deref a t2 = Some t3" "th.ot_ok t3"
      "ot_map t3 = (ot_map th)(?k \<mapsto> \<lparr>hi_key = ?k, hi_tid = t\<rparr>)" by metis
  have "thistory_ok t3" using a(4,5) ok t by (auto simp: thistory_ok_def)
  then show thesis using that [of t3] a t k by (simp add: tansaction_history_put_invite_def Let_def)
qed

lemma handle_invite_request_ok:
  assumes law: "dht_law env D" and ok: "carrier_ok beyond D w" and n: "unat n < 2 ^ 16" and p: "cp_pkt cp = pkt_ireq p" "cp_ok cp"
    and room: "has_room (w_thistory w)"
  shows "wp (handle_invite_request n cp w) (carrier_ok beyond D)"
proof (cases "friend_at (w_friends w) n")
  case None
  then show ?thesis using friend_userid_eq [OF law ok n] small_not_max [OF n] ok p
    by (simp add: handle_invite_request_def wp_def cp_get)
next
  case (Some fi)
  let ?from = "case cp_ext cp of None \<Rightarrow> friend_id fi | Some ext \<Rightarrow> friend_id fi @ [0x3a] @ ext"
  have s: "length (friend_id fi) \<le> 44" "is_cstring (friend_id fi)"
    using friend_id_short [OF law ok Some] friend_known(5) [OF ok Some] b58_cstring by auto
  have c: "length (or_empty (cp_ext cp)) \<le> 31" "is_cstring (or_empty (cp_ext cp))" "ireq_tid p \<noteq> 0"
    using p by (simp_all add: cp_ok_def fits_def IOEX_MAX_EXTENSION_NAME_LEN_def)
  then have f: "length ?from + 3 < HISTORY_KEY_SIZE" "is_cstring ?from"
    using s by (auto simp: HISTORY_KEY_SIZE_def IOEX_MAX_ID_LEN_def IOEX_MAX_EXTENSION_NAME_LEN_def is_cstring_def or_empty_def split: option.splits)
  from put_invite_ok [OF carrier_ok_parts(6) [OF ok] room f(2,1) c(3)] obtain th' where
    th: "tansaction_history_put_invite ?from (ireq_tid p) (w_thistory w) = Some th'" "thistory_ok th'" by blast
  have "carrier_ok beyond D (w\<lparr>w_thistory := th'\<rparr>)" using ok th(2) by (simp add: carrier_ok_def in_sync_def)
  moreover have "invite_from (friend_id fi) (cp_ext cp) = Some ?from" using f(1) by (simp add: invite_from_def strcpy_into_Some)
  ultimately show ?thesis
    using Some friend_userid_eq [OF law ok n] small_not_max [OF n] p th(1)
    by (simp add: handle_invite_request_def wp_def cp_get Let_def carrier_ok_event [OF law] split: option.split)
qed

text \<open>Transactions.\<close>

lemma tid_key_ok [simp]: "is_tid_key (tid_key t)"
  by (auto simp: is_tid_key_def)

lemma put_callback_ok:
  assumes ok: "tcallbacks_ok tc" and room: "has_room tc" and cb: "tcb_callback_func cb \<noteq> 0"
  obtains a tc1 tc2 tc3 where "rc_alloc cb tc = (a, tc1)" "transacted_callbacks_put a tc1 = Some tc2" "rc_deref a tc2 = Some tc3" "tcallbacks_ok tc3"
    "ot_map tc3 = (ot_map tc)(tid_key (tcb_tid cb) \<mapsto> cb)"
proof -
  let ?k = "tid_key (tcb_tid cb)"
  have o: "tc.ot_ok tc" using ok by (simp add: tcallbacks_ok_def)
  from tc.ot_put_new [OF o tid_key_ok room [unfolded has_room_def], of cb "tcb_tid cb"] obtain a t1 t2 t3 where
    a: "rc_alloc cb tc = (a, t1)" "ot_put ?k a t1 = Some t2" "rc_deref a t2 = Some t3" "tc.ot_ok t3" "ot_map t3 = (ot_map tc)(?k \<mapsto> cb)" by metis
  have "ot_read a t1 = Some cb" using a(1) by (auto simp: rc_alloc_def ot_read_def Let_def)
  moreover have "tcallbacks_ok t3" using a(4,5) ok cb by (auto simp: tcallbacks_ok_def)
  ultimately show thesis using that [of a t1 t2 t3] a by (simp add: transacted_callbacks_put_def)
qed

text \<open>A callback is taken out of the table: looked up, and then removed.\<close>

lemma take_callback_ok:
  assumes ok: "tcallbacks_ok tc"
  obtains (absent) "ot_map tc (tid_key t) = None" "transacted_callbacks_get t tc = Some (None, tc)"
  | (present) a cb tc1 tc3 where "ot_map tc (tid_key t) = Some cb" "transacted_callbacks_get t tc = Some (Some a, tc1)" "ot_read a tc1 = Some cb"
      "tcb_callback_func cb \<noteq> 0" "rc_deref a tc1 = Some tc" "transacted_callbacks_remove t tc = Some tc3" "tcallbacks_ok tc3"
      "ot_map tc3 = (ot_map tc)(tid_key t := None)"
proof -
  have o: "tc.ot_ok tc" using ok by (simp add: tcallbacks_ok_def)
  show thesis
  proof (cases "ot_map tc (tid_key t)")
    case None
    then show thesis using absent tc.ot_get_None [OF o tid_key_ok None] by (simp add: transacted_callbacks_get_def)
  next
    case (Some cb)
    from tc.ot_get_Some [OF o tid_key_ok Some] obtain a where
      a: "ot_get (tid_key t) tc = Some (Some a, ot_hold a tc)" "ot_read a (ot_hold a tc) = Some cb" "rc_deref a (ot_hold a tc) = Some tc" by blast
    from tc.ot_remove_spec [OF o tid_key_ok, of t] Some obtain b t' t'' where
      b: "ot_remove (tid_key t) tc = Some (Some b, t')" "rc_deref b t' = Some t''" "tc.ot_ok t''" "ot_map t'' = (ot_map tc)(tid_key t := None)"
      by (metis option.distinct(1))
    have "tcallbacks_ok t''" using b(3,4) ok by (auto simp: tcallbacks_ok_def split: if_splits)
    moreover have "tcb_callback_func cb \<noteq> 0" using ok Some by (auto simp: tcallbacks_ok_def)
    ultimately show thesis
      using present [of cb a "ot_hold a tc" t''] Some a b by (simp add: transacted_callbacks_get_def transacted_callbacks_remove_def)
  qed
qed

lemma carrier_ok_tables:
  "carrier_ok beyond D w \<Longrightarrow> tcallbacks_ok tc \<Longrightarrow> carrier_ok beyond D (w\<lparr>w_tcallbacks := tc\<rparr>)"
  "carrier_ok beyond D w \<Longrightarrow> thistory_ok th \<Longrightarrow> carrier_ok beyond D (w\<lparr>w_thistory := th\<rparr>)"
  by (simp_all add: carrier_ok_def in_sync_def)

lemma handle_invite_response_ok:
  assumes law: "dht_law env D" and ok: "carrier_ok beyond D w" and n: "unat n < 2 ^ 16" and p: "cp_pkt cp = pkt_irsp p"
  shows "wp (handle_invite_response n cp w) (carrier_ok beyond D)"
proof (cases "friend_at (w_friends w) n")
  case None
  then show ?thesis using friend_userid_eq [OF law ok n] small_not_max [OF n] ok p
    by (simp add: handle_invite_response_def wp_def cp_get)
next
  case (Some fi)
  have u: "friend_userid n w = Some (Some (friend_id fi), w)" using friend_userid_eq [OF law ok n] Some by simp
  show ?thesis
  proof (cases rule: take_callback_ok [OF carrier_ok_parts(5) [OF ok], of "irsp_tid p"])
    case 1
    then show ?thesis using u small_not_max [OF n] ok p by (simp add: handle_invite_response_def wp_def cp_get)
  next
    case (2 a cb tc1 tc3)
    have "carrier_ok beyond D (w\<lparr>w_tcallbacks := tc3\<rparr>)" by (rule carrier_ok_tables(1) [OF ok 2(7)])
    with 2 show ?thesis using u small_not_max [OF n] p
      by (simp add: handle_invite_response_def wp_def cp_get carrier_ok_event [OF law])
  qed
qed

lemma notify_friend_message_ok:
  assumes law: "dht_law env D" and ok: "carrier_ok beyond D w" and n: "unat n < 2 ^ 16" and m: "wire_ok env message"
    and room: "has_room (w_thistory w)"
  shows "wp (notify_friend_message_cb env n message w) (carrier_ok beyond D)"
proof -
  from wire_decode [OF m] obtain r where r: "IOEXcp_decode (ce_fb_read env) message = Some r" "\<forall>cp. r = Some cp \<longrightarrow> cp_ok cp" by blast
  show ?thesis
  proof (cases r)
    case (Some cp)
    then have c: "cp_ok cp" using r(2) by simp
    have "wp (case cp_pkt cp of pkt_fmsg _ \<Rightarrow> handle_friend_message n cp w | pkt_ireq _ \<Rightarrow> handle_invite_request n cp w
        | pkt_irsp _ \<Rightarrow> handle_invite_response n cp w | _ \<Rightarrow> Some w) (carrier_ok beyond D)"
      using handle_friend_message_ok [OF law ok n] handle_invite_request_ok [OF law ok n _ c room] handle_invite_response_ok [OF law ok n] ok
      by (cases "cp_pkt cp") (simp_all add: wp_def)
    with Some r(1) show ?thesis
      by (simp add: notify_friend_message_cb_def IOEXcp_get_type_def Let_def cp_types split: IOEXcp_packet_t.splits)
  qed (use r(1) ok in \<open>simp add: notify_friend_message_cb_def wp_def\<close>)
qed

subsection \<open>Functions of the application\<close>

definition keeps :: "(u8 list \<Rightarrow> u8 list \<Rightarrow> int) \<Rightarrow> dht_view \<Rightarrow> (int \<times> IOEXCarrier) option \<Rightarrow> bool" where
  "keeps beyond D m \<longleftrightarrow> wp m (\<lambda>(rc, w). carrier_ok beyond D w)"

lemma keeps_simps [simp]:
  "keeps beyond D (Some (rc, w)) = carrier_ok beyond D w" "keeps beyond D (fail err w) = carrier_ok beyond D w"
  by (simp_all add: keeps_def wp_def fail_def)

lemma quiet_events: "dht_law env D \<Longrightarrow> \<forall>e \<in> set es. quiet e \<Longrightarrow> D (tr @ es) = D tr"
proof (induction es rule: rev_induct)
  case (snoc e es)
  then show ?case using dht_lawD(3) [of env D e "tr @ es"] by simp
qed simp

lemma fill_empty_eq: "\<exists>es. fill_empty_user_desc env w = Some (w\<lparr>w_trace := w_trace w @ es\<rparr>) \<and> (\<forall>e \<in> set es. quiet e)"
proof -
  obtain cp d where "user_info_packet empty_user_info = Some cp" "IOEXcp_encode (ce_fb_write env) cp = Some d"
    by (simp add: user_info_packet_def cp_put IOEXcp_encode_def encode_body_def)
  then have d: "fill_empty_user_desc env w = Some (case d of None \<Rightarrow> w | Some bs \<Rightarrow> emit (Dht_self_set_desc bs) w)"
    by (cases d) (simp_all add: fill_empty_user_desc_def user_info_packet_def empty_user_info_def bind_Some cp_put)
  show ?thesis
  proof (cases d)
    case None
    with d show ?thesis by (intro exI [of _ "[]"]) simp
  next
    case (Some bs)
    with d show ?thesis by (intro exI [of _ "[Dht_self_set_desc bs]"]) (simp add: emit_def)
  qed
qed

lemma carrier_ok_me: "user_info_ok ui \<Longrightarrow> user_info_ok (w_me w) \<Longrightarrow> carrier_ok beyond D (w\<lparr>w_me := ui\<rparr>) = carrier_ok beyond D w"
  by (simp add: carrier_ok_def in_sync_def)

text \<open>What the carrier takes over from the DHT about itself.\<close>

lemma get_self_info_eq:
  assumes a: "length address = 38" "length public_key = 32" "wire_ok env desc" and me0: "user_info_ok (w_me w)"
  obtains ui es where "get_self_info_cb env (address, public_key, status, desc) w
      = Some (w\<lparr>w_address := address, w_public_key := public_key, w_base58_addr := b58 address, w_me := ui,
          w_presence_status := get_presence_status status, w_trace := w_trace w @ es\<rparr>)"
    "user_info_ok ui" "ui_userid ui = b58 public_key" "\<forall>e \<in> set es. quiet e"
proof -
  let ?me = "(w_me w)\<lparr>ui_userid := b58 public_key\<rparr>"
  let ?w1 = "w\<lparr>w_address := address, w_public_key := public_key, w_base58_addr := b58 address, w_me := ?me,
    w_presence_status := get_presence_status status\<rparr>"
  have me: "user_info_ok ?me" using me0 key_text_length [OF a(2)] by (simp add: user_info_ok_def IOEX_MAX_ID_LEN_def)
  note ev = encode_key [OF a(2)] encode_address [OF a(1)]
  show thesis
  proof (cases "desc = []")
    case True
    from fill_empty_eq [of env ?w1] obtain es where
      "fill_empty_user_desc env ?w1 = Some (?w1\<lparr>w_trace := w_trace ?w1 @ es\<rparr>)" "\<forall>e \<in> set es. quiet e" by blast
    then show thesis using True ev me by (intro that [of es ?me]) (simp_all add: get_self_info_cb_def Let_def)
  next
    case False
    from unpack_ok [OF False a(3) me] obtain r where
      r: "unpack_user_desc env desc ?me = Some r" "\<forall>ui c. r = Some (ui, c) \<longrightarrow> user_info_ok ui \<and> ui_userid ui = b58 public_key" by auto
    then show thesis using False ev me
      by (intro that [of "[]" "case r of None \<Rightarrow> ?me | Some (ui, _) \<Rightarrow> ui"]) (auto simp: get_self_info_cb_def Let_def split: option.split)
  qed
qed

lemma get_self_info_ok:
  assumes law: "dht_law env D" and ok: "carrier_ok beyond D w" and a: "length address = 38" "length public_key = 32" "wire_ok env desc"
  shows "wp (get_self_info_cb env (address, public_key, status, desc) w) (carrier_ok beyond D)"
proof -
  from get_self_info_eq [OF a carrier_ok_parts(7) [OF ok], of status] obtain ui es where
    "get_self_info_cb env (address, public_key, status, desc) w
      = Some (w\<lparr>w_address := address, w_public_key := public_key, w_base58_addr := b58 address, w_me := ui,
          w_presence_status := get_presence_status status, w_trace := w_trace w @ es\<rparr>)" "user_info_ok ui" "\<forall>e \<in> set es. quiet e" by metis
  then show ?thesis using ok quiet_events [OF law, of es "w_trace w"] by (simp add: wp_def carrier_ok_def in_sync_def)
qed

lemma save_keeps:
  assumes "env_ok env" and "carrier_ok beyond D w"
  shows "\<exists>w'. save_data env w = Some w' \<and> carrier_ok beyond D w'"
  using save_data_eq [OF assms(1) carrier_ok_parts(2) [OF assms(2)]] assms(2) by auto

lemma set_self_nospam_ok:
  assumes law: "dht_law env D" and env: "env_ok env" and ok: "carrier_ok beyond D w"
  shows "keeps beyond D (IOEX_set_self_nospam env nospam w)"
proof -
  let ?w1 = "emit (Dht_self_set_nospam nospam) w"
  have ok1: "carrier_ok beyond D ?w1" using ok by (simp add: carrier_ok_event [OF law])
  obtain rc ad pk st desc where i: "dht_get_self_info (ce_tox env) (w_trace ?w1) = (rc, ad, pk, st, desc)" by (metis prod_cases5)
  then have "length ad = 38" "length pk = 32" "wire_ok env desc" using env by (auto simp: dht_get_self_info_def env_ok_def address_sizes)
  from get_self_info_ok [OF law ok1 this, of st] obtain w2 where
    w2: "get_self_info_cb env (ad, pk, st, desc) ?w1 = Some w2" "carrier_ok beyond D w2" by (auto simp: wp_def)
  with save_keeps [OF env w2(2)] ok1 i show ?thesis by (auto simp: IOEX_set_self_nospam_def Let_def)
qed

lemma set_self_info_ok:
  assumes law: "dht_law env D" and env: "env_ok env" and ok: "carrier_ok beyond D w"
    and i: "\<And>info. arg = Some info \<Longrightarrow> user_info_ok info"
  shows "keeps beyond D (IOEX_set_self_info env arg w)"
proof (cases arg)
  case (Some info)
  let ?me = "(w_me w)\<lparr>ui_name := ui_name info, ui_description := ui_description info, ui_has_avatar := ui_has_avatar info,
    ui_gender := ui_gender info, ui_phone := ui_phone info, ui_email := ui_email info, ui_region := ui_region info\<rparr>"
  have c: "copy_user_info info (w_me w) = Some ?me" "user_info_ok ?me"
    using i [OF Some] carrier_ok_parts(7) [OF ok] by (simp_all add: copy_user_info_def user_info_ok_def strcpy_into_Some)
  have "carrier_ok beyond D (w\<lparr>w_me := ?me\<rparr>)" using ok c(2) by (simp add: carrier_ok_def in_sync_def)
  then have "\<exists>w'. save_data env (emit (Dht_self_set_desc d) (w\<lparr>w_me := ?me\<rparr>)) = Some w' \<and> carrier_ok beyond D w'" for d
    by (intro save_keeps [OF env]) (simp add: carrier_ok_event [OF law])
  moreover obtain cp data where "user_info_packet info = Some cp" "IOEXcp_encode (ce_fb_write env) cp = Some data"
    by (simp add: user_info_packet_def cp_put IOEXcp_encode_def encode_body_def)
  ultimately show ?thesis using Some ok c(1)
    by (cases data) (auto simp: IOEX_set_self_info_def, metis keeps_simps(1) bind.bind_lunit)
qed (use ok in \<open>simp add: IOEX_set_self_info_def\<close>)

lemma set_self_presence_ok:
  "dht_law env D \<Longrightarrow> carrier_ok beyond D w \<Longrightarrow> keeps beyond D (IOEX_set_self_presence status w)"
  by (simp add: IOEX_set_self_presence_def carrier_ok_event [of env])

lemma get_friends_ok:
  fixes s :: 's
  assumes ok: "carrier_ok beyond D w"
  shows "\<exists>rc s' w'. IOEX_get_friends cb s w = Some (rc, s', w') \<and> carrier_ok beyond D w'"
proof (cases cb)
  case (Some f)
  let ?body = "\<lambda>fi s'. let (b, s2) = f (Some (fi_info fi)) s' in Some (if b then Next else Stop, s2)"
  have "\<exists>go s'. walk ?body fis v = Some (go, s') \<and> go \<noteq> Break" for fis v
    by (induction fis arbitrary: v) (auto split: prod.splits)
  then obtain go s' where "walk ?body (ot_list (w_friends w)) s = Some (go, s')" "go \<noteq> Break" by blast
  from fr.ot_iterate_spec [OF carrier_ok_parts(2) [OF ok] this] Some ok show ?thesis by (simp add: IOEX_get_friends_def)
qed (use ok in \<open>simp add: IOEX_get_friends_def\<close>)

lemma get_friend_info_ok:
  assumes law: "dht_law env D" and ok: "carrier_ok beyond D w"
  shows "\<exists>rc info w'. IOEX_get_friend_info env arg w = Some (rc, info, w') \<and> carrier_ok beyond D w'"
proof (cases arg)
  case (Some friendid)
  show ?thesis
  proof (cases rule: get_friend_number_cases [OF law ok, of friendid])
    case (2 n key fi)
    from friends_get_present [OF ok 2(4)] obtain a where
      "friends_get n (w_friends w) = Some (Some a, ot_hold a (w_friends w))" "ot_read a (ot_hold a (w_friends w)) = Some fi"
      "rc_deref a (ot_hold a (w_friends w)) = Some (w_friends w)" by blast
    with 2 Some ok show ?thesis by (simp add: IOEX_get_friend_info_def)
  qed (use ok Some in \<open>simp add: IOEX_get_friend_info_def\<close>)
qed (use ok in \<open>simp add: IOEX_get_friend_info_def\<close>)

lemma set_friend_label_ok:
  assumes law: "dht_law env D" and env: "env_ok env" and ok: "carrier_ok beyond D w" and l: "is_cstring (or_empty label)"
  shows "keeps beyond D (IOEX_set_friend_label env arg label w)"
proof (cases "arg = None \<or> length (or_empty label) > IOEX_MAX_USER_NAME_LEN")
  case True
  then show ?thesis using ok by (auto simp: IOEX_set_friend_label_def or_empty_def split: option.splits)
next
  case False
  then obtain friendid where f: "arg = Some friendid" "length (or_empty label) \<le> IOEX_MAX_USER_NAME_LEN"
    "\<not> (label \<noteq> None \<and> length (the label) > IOEX_MAX_USER_NAME_LEN)" by (auto simp: or_empty_def split: option.splits)
  show ?thesis
  proof (cases rule: get_friend_number_cases [OF law ok, of friendid])
    case 1
    then show ?thesis using f ok by (simp add: IOEX_set_friend_label_def)
  next
    case (2 n key fi)
    let ?f = "\<lambda>x. x\<lparr>fi_info := (fi_info x)\<lparr>fi_label := or_empty label\<rparr>\<rparr>"
    show ?thesis
    proof (rule friend_update [OF ok 2(4), of ?f])
      fix a fr' assume a: "friends_get n (w_friends w) = Some (Some a, ot_hold a (w_friends w))" "ot_read a (ot_hold a (w_friends w)) = Some fi"
        "ot_modify a ?f (ot_hold a (w_friends w)) = Some (ot_hold a fr')" "rc_deref a (ot_hold a fr') = Some fr'"
        "carrier_ok beyond D (w\<lparr>w_friends := fr'\<rparr>)"
      from save_keeps [OF env a(5)] obtain w' where "save_data env (w\<lparr>w_friends := fr'\<rparr>) = Some w'" "carrier_ok beyond D w'" by blast
      with a f 2 ok show ?thesis by (simp add: IOEX_set_friend_label_def strcpy_into_Some)
    qed (use friend_known [OF ok 2(4)] l f(2) in \<open>simp_all add: friend_info_ok_def IOEX_MAX_USER_NAME_LEN_def\<close>)
  qed
qed

lemma is_friend_ok:
  assumes law: "dht_law env D" and ok: "carrier_ok beyond D w"
  shows "\<exists>b w'. IOEX_is_friend env arg w = Some (b, w') \<and> carrier_ok beyond D w'"
proof (cases arg)
  case (Some friendid)
  show ?thesis
  proof (cases rule: get_friend_number_cases [OF law ok, of friendid])
    case (2 n key fi)
    then show ?thesis using Some ok friends_exist_eq [OF ok 2(6)] small_not_max [OF 2(6)] by (auto simp: IOEX_is_friend_def)
  qed (use ok Some in \<open>auto simp: IOEX_is_friend_def\<close>)
qed (use ok in \<open>auto simp: IOEX_is_friend_def\<close>)

lemma friends_few:
  assumes "friends_ok beyond fr"
  shows "length (ot_list fr) \<le> 2 ^ 16"
proof -
  let ?ns = "map (\<lambda>fi. unat (friend_number fi)) (ot_list fr)"
  have "distinct ?ns" using friends_ok_list(2) [OF assms] by (auto simp: distinct_map inj_on_def word_unat_eq_iff)
  then have "length ?ns = card (set ?ns)" by (simp only: distinct_card)
  also have "\<dots> \<le> card {..< 2 ^ 16 :: nat}" using friends_ok_list(3) [OF assms] by (intro card_mono) auto
  finally show ?thesis by simp
qed

text \<open>Adding a friend: the DHT has a new friend in its list, and the table follows.\<close>

lemma register_friend_ok:
  assumes law: "dht_law env D" and env: "env_ok env" and ok: "carrier_ok beyond D w"
    and a: "rc_alloc zero_friend (w_friends w) = (a, fr1)"
    and D: "D (w_trace w @ [e]) = (D (w_trace w))(key \<mapsto> n)" "D (w_trace w) key = None"
  obtains w' fi where "register_friend env a n (b58 key) fr1 (emit e w) = Some (0, w')" "carrier_ok beyond D w'"
    "w_friend_events w' = w_friend_events w @ [\<lparr>fe_type = FriendEventType_Added, fe_fi = fi_info fi\<rparr>]"
    "friend_at (w_friends w') = (friend_at (w_friends w))(n \<mapsto> fi)" "friend_id fi = b58 key"
proof -
  let ?f = "\<lambda>f. f\<lparr>friend_number := n, fi_info := (fi_info f)\<lparr>fi_user_info := (fi_user_info (fi_info f))\<lparr>ui_userid := b58 key\<rparr>,
                fi_status := IOEXConnectionStatus_Disconnected, fi_presence := IOEXPresenceStatus_None\<rparr>\<rparr>"
  let ?fi = "?f zero_friend"
  have k: "length key = 32" "unat n < 2 ^ 16" using dht_lawD(4,5) [OF law, of "w_trace w @ [e]" key n] D(1) by simp_all
  have room: "length (ht_lst (ot_table (w_friends w))) + 1 < 2 ^ 63"
    using friends_few [OF carrier_ok_parts(1) [OF ok]] by (simp add: ot_list_def)
  from fr.ot_put_new [OF carrier_ok_parts(2) [OF ok] small_key [OF k(2)] room, of ?fi] obtain a' t1 t2 t3 where
    p: "rc_alloc ?fi (w_friends w) = (a', t1)" "ot_put (friend_key n) a' t1 = Some t2" "ot_read a' t2 = Some ?fi" "rc_deref a' t2 = Some t3"
      "fr.ot_ok beyond t3" "ot_map t3 = (ot_map (w_friends w))(friend_key n \<mapsto> ?fi)" "t2 = ot_hold a' t3" by metis
  have a': "a' = a" using p(1) a by (simp add: rc_alloc_def Let_def)
  have 1: "ot_modify a ?f fr1 = Some t1" using rc_alloc_modify [OF a, of ?f t1] p(1) a' by simp
  have 2: "friends_put a t1 = Some t2" using rc_alloc_read [OF p(1)] p(2) a' by (simp add: friends_put_def)
  have "fr.ot_ok beyond t2" using fr.ot_ok_hold(1) [OF p(5)] p(7) by simp
  with save_data_eq [OF env, of beyond "(emit e w)\<lparr>w_friends := t2\<rparr>"] obtain s where
    s: "save_data env ((emit e w)\<lparr>w_friends := t2\<rparr>) = Some ((emit e w)\<lparr>w_friends := t2, w_fs := s\<rparr>)" by auto
  let ?w = "(push_friend_event FriendEventType_Added (fi_info ?fi) ((emit e w)\<lparr>w_friends := t2, w_fs := s\<rparr>))\<lparr>w_friends := t3\<rparr>"
  have run: "register_friend env a n (b58 key) fr1 (emit e w) = Some (0, ?w)"
    unfolding register_friend_def 1 bind.bind_lunit 2 p(3) [unfolded a'] notify_friend_added_def s
    using p(4) a' by (simp add: push_friend_event_def)
  have at: "friend_at t3 = (friend_at (w_friends w))(n \<mapsto> ?fi)" using p(6) by (simp add: friend_at_def [abs_def] fun_eq_iff)
  have "friends_ok beyond t3" using carrier_ok_parts(1) [OF ok] p(5,6) by (auto simp: friends_ok_def zero_friend_def is_cstring_def)
  moreover have "friend_info_ok (fi_info fi)" if "friend_at t3 m = Some fi" for m fi
    using that friend_known(1) [OF ok] key_text_length [OF k(1)]
    by (auto simp: at zero_friend_def friend_info_ok_def user_info_ok_def empty_user_info_def IOEX_MAX_ID_LEN_def
      IOEXPresenceStatus_None_def IOEXPresenceStatus_Busy_def split: if_splits)
  moreover have "in_sync D ?w"
    using carrier_ok_parts(8) [OF ok] D unfolding in_sync_def
    by (auto simp: at push_friend_event_def emit_def zero_friend_def split: if_splits) (metis option.distinct(1))+
  ultimately have "carrier_ok beyond D ?w" using carrier_ok_parts [OF ok] by (simp add: carrier_ok_def push_friend_event_def emit_def)
  then show thesis using that [OF run, of ?fi] at by (simp add: push_friend_event_def emit_def zero_friend_def)
qed

text \<open>What was allocated for a friend is given up when the DHT refuses.\<close>

lemma give_up_ok:
  assumes ok: "carrier_ok beyond D w" and a: "rc_alloc zero_friend (w_friends w) = (a, fr1)" and D: "D (w_trace w') = D (w_trace w)"
    and w': "w_me w' = w_me w" "w_tcallbacks w' = w_tcallbacks w" "w_thistory w' = w_thistory w"
  obtains fr2 where "rc_deref a fr1 = Some fr2" "carrier_ok beyond D (w'\<lparr>w_friends := fr2\<rparr>)"
proof -
  from fr.ot_alloc_free [OF carrier_ok_parts(2) [OF ok] a] obtain t2 where
    t: "rc_deref a fr1 = Some t2" "fr.ot_ok beyond t2" "ot_map t2 = ot_map (w_friends w)" by blast
  have "friend_at t2 = friend_at (w_friends w)" using t(3) by (simp add: friend_at_def [abs_def])
  then have "carrier_ok beyond D (w'\<lparr>w_friends := t2\<rparr>)"
    using ok t(2,3) D w' by (simp add: carrier_ok_def friends_ok_def in_sync_def)
  with t(1) show thesis by (rule that)
qed

lemma admit_ok:
  assumes law: "dht_law env D" and env: "env_ok env" and ok: "carrier_ok beyond D w"
    and a: "rc_alloc zero_friend (w_friends w) = (a, fr1)" and r: "added D (w_trace w) e key (rc, n)" "D (w_trace w) key = None"
  shows "keeps beyond D (if rc < 0 then do { fr2 \<leftarrow> rc_deref a fr1; fail rc ((emit e w)\<lparr>w_friends := fr2\<rparr>) }
    else register_friend env a n (b58 key) fr1 (emit e w))"
proof (cases "rc < 0")
  case True
  then have "D (w_trace (emit e w)) = D (w_trace w)" using r by (simp add: added_def)
  from give_up_ok [OF ok a this] obtain fr2 where "rc_deref a fr1 = Some fr2" "carrier_ok beyond D ((emit e w)\<lparr>w_friends := fr2\<rparr>)" by auto
  with True show ?thesis by simp
next
  case False
  then have D: "D (w_trace w @ [e]) = (D (w_trace w))(key \<mapsto> n)" using r by (simp add: added_def)
  from register_friend_ok [OF law env ok a D r(2)] obtain w' where
    "register_friend env a n (b58 key) fr1 (emit e w) = Some (0, w')" "carrier_ok beyond D w'" by metis
  with False show ?thesis by simp
qed

lemma accept_friend_ok:
  assumes law: "dht_law env D" and env: "env_ok env" and ok: "carrier_ok beyond D w"
  shows "keeps beyond D (IOEX_accept_friend env arg w)"
proof (cases "\<exists>key. arg = Some (b58 key) \<and> length key = 32 \<and> b58 key \<noteq> ui_userid (w_me w) \<and> w_is_ready w \<and> D (w_trace w) key = None")
  case False
  show ?thesis
  proof (cases arg)
    case (Some userid)
    show ?thesis
    proof (cases rule: get_friend_number_cases [OF law ok, of userid])
      case 1
      then show ?thesis using False Some ok by (auto simp: IOEX_accept_friend_def is_valid_key_iff)
    next
      case (2 n key fi)
      then show ?thesis using Some ok small_not_max [OF 2(6)] by (simp add: IOEX_accept_friend_def is_valid_key_iff)
    qed
  qed (use ok in \<open>simp add: IOEX_accept_friend_def\<close>)
next
  case True
  then obtain key where k: "arg = Some (b58 key)" "length key = 32" "b58 key \<noteq> ui_userid (w_me w)" "w_is_ready w" "D (w_trace w) key = None" by blast
  have v: "is_valid_key (b58 key) = Some True" by (rule is_valid_key_b58 [OF k(2)])
  have d: "decode_cstring (b58 key) DHT_PUBLIC_KEY_SIZE = Some (32, key)"
    using decode_b58 [of key DHT_PUBLIC_KEY_SIZE] k(2) by (cases key) (simp_all add: address_sizes)
  have "\<exists>rc n. get_friend_number env w (b58 key) = Some (rc, n) \<and> rc < 0"
  proof (cases rule: get_friend_number_cases [OF law ok, of "b58 key"])
    case (2 n key' fi)
    then show ?thesis using b58_inj [of key key'] dht_lawD(4) [OF law 2(3)] k(2,5) by (cases key) auto
  qed blast
  then obtain rc0 n0 where g: "get_friend_number env w (b58 key) = Some (rc0, n0)" "rc0 < 0" by blast
  obtain a fr1 where a: "rc_alloc zero_friend (w_friends w) = (a, fr1)" by fastforce
  let ?e = "Dht_friend_add_norequest key"
  obtain rc1 n where r: "dht_friend_add_norequest (ce_tox env) (w_trace w) key n0 = (rc1, n)" by fastforce
  have ad: "added D (w_trace w) ?e key (rc1, n)" using dht_law_add_norequest [OF law, of "w_trace w" key n0] r by simp
  have s: "strcpy_into (IOEX_MAX_ID_LEN + 1) (b58 key) = Some (b58 key)"
    using key_text_length [OF k(2)] by (simp add: IOEX_MAX_ID_LEN_def strcpy_into_Some)
  show ?thesis
    using admit_ok [OF law env ok a ad k(5)] g k v d a r s by (cases "rc1 < 0") (auto simp: IOEX_accept_friend_def Let_def strcpy_into_Some)
qed

lemma add_friend_ok:
  assumes law: "dht_law env D" and env: "env_ok env" and ok: "carrier_ok beyond D w"
  shows "keeps beyond D (IOEX_add_friend env arg1 arg2 w)"
proof (cases "\<exists>address hello. arg1 = Some address \<and> arg2 = Some hello")
  case True
  then obtain address hello where h: "arg1 = Some address" "arg2 = Some hello" by blast
  show ?thesis
  proof (cases "(\<exists>addr. good_address addr \<and> address = b58 addr) \<and> address \<noteq> w_base58_addr w \<and> w_is_ready w")
    case False
    then show ?thesis using h ok by (auto simp: IOEX_add_friend_def is_valid_address_iff)
  next
    case True
    then obtain addr where ad: "good_address addr" "address = b58 addr" "address \<noteq> w_base58_addr w" "w_is_ready w" by blast
    have v: "is_valid_address (b58 addr) = Some True" using ad(1) is_valid_address_iff by auto
    have l: "length addr = 38" using ad(1) by (simp add: good_address_def address_sizes)
    then have d: "decode_cstring (b58 addr) DHT_ADDRESS_SIZE = Some (38, addr)"
      using decode_b58 [of addr DHT_ADDRESS_SIZE] by (cases addr) (simp_all add: address_sizes)
    let ?key = "take DHT_PUBLIC_KEY_SIZE addr"
    have kl: "length ?key = 32" using l by (simp add: address_sizes)
    obtain rc0 n0 where r0: "dht_get_friend_number (ce_tox env) (w_trace w) ?key = (rc0, n0)" by fastforce
    obtain a fr1 where a: "rc_alloc zero_friend (w_friends w) = (a, fr1)" by fastforce
    obtain cp data where p: "friend_request_packet (w_me w) hello = Some cp" "IOEXcp_encode (ce_fb_write env) cp = Some data"
      by (simp add: friend_request_packet_def cp_put IOEXcp_encode_def encode_body_def)
    note run = IOEX_add_friend_def h ad v d r0 a p
    show ?thesis
    proof (cases "D (w_trace w) ?key")
      case (Some n)
      then have "rc0 = 0" "n0 \<noteq> UINT32_MAX" using r0 dht_lawD(1) [OF law Some] small_not_max [OF dht_lawD(5) [OF law Some]] by simp_all
      then show ?thesis using ok ad(3) by (simp add: run)
    next
      case None
      then have rc0: "rc0 \<noteq> 0" using dht_lawD(2) [OF law None] r0 by auto
      show ?thesis
      proof (cases data)
        case None
        from give_up_ok [OF ok a] obtain fr2 where "rc_deref a fr1 = Some fr2" "carrier_ok beyond D (w\<lparr>w_friends := fr2\<rparr>)" by auto
        with None rc0 ad(3) show ?thesis by (simp add: run)
      next
        case (Some bytes)
        let ?e = "Dht_friend_add addr bytes"
        have "bytes \<noteq> []" using encoded_nonempty [OF env] p(2) Some by blast
        from dht_law_add [OF law this, of "w_trace w" addr n0] obtain rc1 n where
          r: "dht_friend_add (ce_tox env) (w_trace w) addr bytes n0 = Some (rc1, n)" and aD: "added D (w_trace w) ?e ?key (rc1, n)" by fast
        show ?thesis
          using admit_ok [OF law env ok a aD \<open>D (w_trace w) ?key = None\<close>] Some rc0 r ad(3) encode_key [OF kl, of "[]"]
          by (cases "rc1 < 0") (simp_all add: run Let_def)
      qed
    qed
  qed
qed (use ok in \<open>auto simp: IOEX_add_friend_def split: option.splits\<close>)

lemma remove_friend_ok:
  assumes law: "dht_law env D" and env: "env_ok env" and ok: "carrier_ok beyond D w"
  shows "keeps beyond D (IOEX_remove_friend env arg w)"
proof (cases arg)
  case (Some friendid)
  show ?thesis
  proof (cases rule: get_friend_number_cases [OF law ok, of friendid])
    case 1
    then show ?thesis using Some ok by (simp add: IOEX_remove_friend_def is_valid_key_iff)
  next
    case (2 n key fi)
    let ?e = "Dht_friend_delete n"
    have rm: "friends_remove n (w_friends w) = ot_remove (friend_key n) (w_friends w)" using small_not_max [OF 2(6)] by (simp add: friends_remove_def)
    obtain a t' t'' where
      t: "ot_remove (friend_key n) (w_friends w) = Some (Some a, t')" "ot_read a t' = Some fi" "rc_deref a t' = Some t''"
        "fr.ot_ok beyond t''" "ot_map t'' = (ot_map (w_friends w))(friend_key n := None)" "t' = ot_hold a t''"
      by (rule fr.ot_remove_spec [OF carrier_ok_parts(2) [OF ok] small_key [OF 2(6)]]) (use 2(4) in \<open>auto simp: friend_at_def\<close>)
    have "fr.ot_ok beyond t'" using fr.ot_ok_hold(1) [OF t(4)] t(6) by simp
    with save_data_eq [OF env, of beyond "(emit ?e w)\<lparr>w_friends := t'\<rparr>"] obtain s where
      s: "save_data env ((emit ?e w)\<lparr>w_friends := t'\<rparr>) = Some ((emit ?e w)\<lparr>w_friends := t', w_fs := s\<rparr>)" by auto
    let ?w = "(push_friend_event FriendEventType_Removed (fi_info fi) ((emit ?e w)\<lparr>w_friends := t', w_fs := s\<rparr>))\<lparr>w_friends := t''\<rparr>"
    have at: "friend_at t'' = (friend_at (w_friends w))(n := None)" using t(5) by (simp add: friend_at_def [abs_def] fun_eq_iff)
    have "friends_ok beyond t''" using carrier_ok_parts(1) [OF ok] t(4,5) by (auto simp: friends_ok_def split: if_splits)
    moreover have "friend_info_ok (fi_info x)" if "friend_at t'' m = Some x" for m x
      using that friend_known(1) [OF ok] by (auto simp: at split: if_splits)
    moreover have "in_sync D ?w"
      using carrier_ok_parts(8) [OF ok] dht_law_changes(2) [OF law, of "w_trace w" n] unfolding in_sync_def
      by (auto simp: at push_friend_event_def emit_def split: if_splits) (metis option.inject)
    ultimately have "carrier_ok beyond D ?w" using carrier_ok_parts [OF ok] by (simp add: carrier_ok_def push_friend_event_def emit_def)
    then show ?thesis
      using Some ok 2 rm t s friends_exist_eq [OF ok 2(6)] small_not_max [OF 2(6)]
      by (auto simp: IOEX_remove_friend_def dht_friend_delete_def is_valid_key_iff notify_friend_removed_def Let_def push_friend_event_def)
  qed
qed (use ok in \<open>simp add: IOEX_remove_friend_def\<close>)

text \<open>Messages.\<close>

lemma message_packet_eq: "msg \<noteq> [] \<Longrightarrow> message_packet ext msg = Some \<lparr>cp_ext = ext, cp_pkt = pkt_fmsg \<lparr>fmsg_msg = Some msg\<rparr>\<rparr>"
  by (simp add: message_packet_def cp_put)

lemma invite_packet_eq:
  "data \<noteq> [] \<Longrightarrow> invite_packet ext t data = Some \<lparr>cp_ext = ext, cp_pkt = pkt_ireq \<lparr>ireq_tid = t, ireq_data = Some data\<rparr>\<rparr>"
  by (simp add: invite_packet_def cp_put)

lemma reply_packet_eq:
  "status \<noteq> 0 \<Longrightarrow> reply_packet ext t status (Some s) data
    = Some \<lparr>cp_ext = ext, cp_pkt = pkt_irsp \<lparr>irsp_tid = t, irsp_status = status, irsp_reason = Some s, irsp_data = None\<rparr>\<rparr>"
  "bs \<noteq> [] \<Longrightarrow> reply_packet ext t 0 reason (Some bs)
    = Some \<lparr>cp_ext = ext, cp_pkt = pkt_irsp \<lparr>irsp_tid = t, irsp_status = 0, irsp_reason = None, irsp_data = Some bs\<rparr>\<rparr>"
  by (simp_all add: reply_packet_def cp_put)

lemmas packet_eqs = message_packet_eq invite_packet_eq reply_packet_eq

text \<open>What the application may send is complete.\<close>

lemma reply_complete:
  assumes "\<not> (status \<noteq> 0 \<and> reason = None \<or> status = 0 \<and> (data = None \<or> data = Some []))"
  shows "\<exists>cp. reply_packet ext t status reason data = Some cp \<and> cp_complete cp"
  using assms by (cases "status = 0") (auto simp: reply_packet_eq cp_complete_def)

lemma message_keeps: "dht_law env D \<Longrightarrow> carrier_ok beyond D w \<Longrightarrow> carrier_ok beyond D (emit (Dht_message n d) w)"
  by (simp add: carrier_ok_event [of env])

lemma send_packet_keeps:
  assumes "dht_law env D" "env_ok env" "carrier_ok beyond D w" "unat n < 2 ^ 16" "IOEXcp_encode (ce_fb_write env) cp = Some (Some d)"
    and "keeps beyond D (k (emit (Dht_message n d) w))"
  shows "keeps beyond D (do { (rc1, w1) \<leftarrow> send_packet env n d w; if rc1 < 0 then fail rc1 w1 else k w1 })"
  using send_packet_eq [OF assms(4) encoded_nonempty [OF assms(2,5)], of env w] message_keeps [OF assms(1,3), of n d] assms(6) by auto

lemma send_friend_message_ok:
  assumes law: "dht_law env D" and env: "env_ok env" and ok: "carrier_ok beyond D w"
  shows "keeps beyond D (IOEX_send_friend_message env arg1 arg2 w)"
proof (cases "\<exists>to msg. arg1 = Some to \<and> arg2 = Some msg \<and> msg \<noteq> []")
  case True
  then obtain to msg where h: "arg1 = Some to" "arg2 = Some msg" "msg \<noteq> []" by blast
  obtain userid ext where p: "parse_address to = (userid, ext)" by fastforce
  obtain cp data where e: "message_packet ext msg = Some cp" "IOEXcp_encode (ce_fb_write env) cp = Some data"
    using h(3) by (simp add: message_packet_def cp_put IOEXcp_encode_def encode_body_def)
  show ?thesis
  proof (cases rule: get_friend_number_cases [OF law ok, of userid])
    case 1
    then show ?thesis using h p ok by (simp add: IOEX_send_friend_message_def is_valid_key_iff)
  next
    case (2 n key fi)
    have "keeps beyond D (do { (rc1, w1) \<leftarrow> send_packet env n d w; if rc1 < 0 then fail rc1 w1 else Some (0, w1) })" if "data = Some d" for d
      by (rule send_packet_keeps [OF law env ok 2(6)]) (use e that message_keeps [OF law ok] in simp_all)
    with 2 show ?thesis using h p ok e friends_exist_eq [OF ok 2(6)]
      by (cases data) (auto simp: IOEX_send_friend_message_def is_valid_key_iff)
  qed
qed (use ok in \<open>auto simp: IOEX_send_friend_message_def split: option.splits\<close>)

lemma generate_tid_returns:
  assumes "ce_time_rand env tr i \<noteq> 0" and "j \<le> i"
  shows "\<exists>t. generate_tid env tr j = Some t \<and> t \<noteq> 0"
  using assms(2)
proof (induction "i - j" arbitrary: j)
  case 0
  then show ?case using assms(1) by (subst generate_tid.simps) simp
next
  case (Suc d)
  show ?case
  proof (cases "ce_time_rand env tr j = 0")
    case True
    have "d = i - Suc j" "Suc j \<le> i" using Suc.hyps(2) by simp_all
    from Suc.hyps(1) [OF this] True show ?thesis by (subst generate_tid.simps) simp
  qed (subst generate_tid.simps, simp)
qed

lemma generate_tid_ok: "env_ok env \<Longrightarrow> \<exists>t. generate_tid env tr 0 = Some t \<and> t \<noteq> 0"
  using generate_tid_returns [of env tr _ 0] unfolding env_ok_def by blast

lemma invite_friend_ok:
  assumes law: "dht_law env D" and env: "env_ok env" and ok: "carrier_ok beyond D w" and room: "has_room (w_tcallbacks w)"
  shows "keeps beyond D (IOEX_invite_friend env arg1 arg2 callback ctxt w)"
proof (cases "\<exists>to data. arg1 = Some to \<and> arg2 = Some data \<and> data \<noteq> [] \<and> callback \<noteq> 0")
  case True
  then obtain to data where h: "arg1 = Some to" "arg2 = Some data" "data \<noteq> []" "callback \<noteq> 0" by blast
  obtain userid ext where p: "parse_address to = (userid, ext)" by fastforce
  show ?thesis
  proof (cases rule: get_friend_number_cases [OF law ok, of userid])
    case 1
    then show ?thesis using h p ok by (simp add: IOEX_invite_friend_def is_valid_key_iff)
  next
    case (2 n key fi)
    obtain t where t: "generate_tid env (w_trace w) 0 = Some t" using generate_tid_ok [OF env] by blast
    obtain cp enc where e: "invite_packet ext t data = Some cp" "IOEXcp_encode (ce_fb_write env) cp = Some enc"
      using h(3) by (simp add: invite_packet_def cp_put IOEXcp_encode_def encode_body_def)
    let ?cb = "\<lparr>tcb_tid = t, tcb_callback_func = callback, tcb_callback_context = ctxt\<rparr>"
    from put_callback_ok [OF carrier_ok_parts(5) [OF ok] room, of ?cb] h(4) obtain a tc1 tc2 tc3 where
      c: "rc_alloc ?cb (w_tcallbacks w) = (a, tc1)" "transacted_callbacks_put a tc1 = Some tc2" "rc_deref a tc2 = Some tc3" "tcallbacks_ok tc3"
      by (metis TransactedCallback.select_convs(2))
    note k = message_keeps [OF law carrier_ok_tables(1) [OF ok c(4)]]
    have "keeps beyond D (do { (rc1, w1) \<leftarrow> send_packet env n d (w\<lparr>w_tcallbacks := tc3\<rparr>); if rc1 < 0 then fail rc1 w1 else Some (0, w1) })"
      if "enc = Some d" for d
      by (rule send_packet_keeps [OF law env carrier_ok_tables(1) [OF ok c(4)] 2(6)]) (use e that k in simp_all)
    with 2 show ?thesis using h p ok t e c friends_exist_eq [OF ok 2(6)]
      by (cases enc) (auto simp: IOEX_invite_friend_def is_valid_key_iff)
  qed
qed (use ok in \<open>auto simp: IOEX_invite_friend_def split: option.splits\<close>)

text \<open>The history of invitations: looking up, and removing what was answered.\<close>

definition ir_key :: "cstring \<Rightarrow> cstring" where "ir_key userid = [0x69, 0x72, 0x5f] @ userid"

lemma invite_key_ok: "length userid + 3 < HISTORY_KEY_SIZE \<Longrightarrow> invite_key userid = Some (ir_key userid)"
  "is_cstring userid \<Longrightarrow> is_history_key (ir_key userid)"
  by (simp_all add: invite_key_def strcpy_into_Some ir_key_def is_history_key_def is_cstring_def)

lemma get_invite_ok:
  assumes ok: "thistory_ok th" and u: "is_cstring userid" "length userid + 3 < HISTORY_KEY_SIZE"
  shows "transaction_history_get_invite userid th = Some (case ot_map th (ir_key userid) of None \<Rightarrow> 0 | Some x \<Rightarrow> hi_tid x, th)"
proof -
  have o: "th.ot_ok th" using ok by (simp add: thistory_ok_def)
  note k = invite_key_ok(1) [OF u(2)] invite_key_ok(2) [OF u(1)]
  show ?thesis
  proof (cases "ot_map th (ir_key userid)")
    case None
    then show ?thesis using th.ot_get_None [OF o k(2) None] k(1) by (simp add: transaction_history_get_invite_def)
  next
    case (Some x)
    from th.ot_get_Some [OF o k(2) Some] obtain a where
      "ot_get (ir_key userid) th = Some (Some a, ot_hold a th)" "ot_read a (ot_hold a th) = Some x" "rc_deref a (ot_hold a th) = Some th" by blast
    then show ?thesis using k(1) Some by (simp add: transaction_history_get_invite_def)
  qed
qed

lemma remove_invite_ok:
  assumes ok: "thistory_ok th" and u: "is_cstring userid" "length userid + 3 < HISTORY_KEY_SIZE"
  obtains th' where "transaction_history_remove_invite userid th = Some th'" "thistory_ok th'" "ot_map th' = (ot_map th)(ir_key userid := None)"
proof -
  have o: "th.ot_ok th" using ok by (simp add: thistory_ok_def)
  note k = invite_key_ok(1) [OF u(2)] invite_key_ok(2) [OF u(1)]
  show thesis
  proof (cases rule: th.ot_remove_spec [OF o k(2)])
    case 1
    then have "ot_map th = (ot_map th)(ir_key userid := None)" by auto
    with 1 show thesis using that [of th] ok k(1) by (simp add: transaction_history_remove_invite_def)
  next
    case (2 a x t' t'')
    then have "thistory_ok t''" using ok by (auto simp: thistory_ok_def split: if_splits)
    with 2 show thesis using that [of t''] k(1) by (simp add: transaction_history_remove_invite_def)
  qed
qed

lemma reply_friend_invite_ok:
  assumes law: "dht_law env D" and env: "env_ok env" and ok: "carrier_ok beyond D w"
    and t: "\<And>to. arg = Some to \<Longrightarrow> is_cstring to \<and> length to + 3 < HISTORY_KEY_SIZE"
  shows "keeps beyond D (IOEX_reply_friend_invite env arg status reason data w)"
proof (cases "\<exists>to. arg = Some to \<and> \<not> (to = [] \<or> status \<noteq> 0 \<and> reason = None \<or> status = 0 \<and> (data = None \<or> data = Some []))")
  case True
  then obtain to where h: "arg = Some to" "\<not> (to = [] \<or> status \<noteq> 0 \<and> reason = None \<or> status = 0 \<and> (data = None \<or> data = Some []))" by blast
  note u = t [OF h(1), THEN conjunct1] t [OF h(1), THEN conjunct2]
  obtain userid ext where p: "parse_address to = (userid, ext)" by fastforce
  show ?thesis
  proof (cases rule: get_friend_number_cases [OF law ok, of userid])
    case 1
    then show ?thesis using h p ok by (simp add: IOEX_reply_friend_invite_def is_valid_key_iff)
  next
    case (2 n key fi)
    note gi = get_invite_ok [OF carrier_ok_parts(6) [OF ok] u]
    define i where "i = (case ot_map (w_thistory w) (ir_key to) of None \<Rightarrow> 0 | Some x \<Rightarrow> hi_tid x)"
    obtain cp enc where e: "reply_packet ext i status reason data = Some cp" "IOEXcp_encode (ce_fb_write env) cp = Some enc"
      using reply_complete [of status reason data ext i] encode_complete [of _ "ce_fb_write env"] h(2) by metis
    from remove_invite_ok [OF carrier_ok_parts(6) [OF ok] u] obtain th' where
      th: "transaction_history_remove_invite to (w_thistory w) = Some th'" "thistory_ok th'" by blast
    note k = message_keeps [OF law ok] message_keeps [OF law carrier_ok_tables(2) [OF ok th(2)]]
    have "keeps beyond D (do { (rc1, w2) \<leftarrow> send_packet env n d w; if rc1 < 0 then fail rc1 w2
        else do { th2 \<leftarrow> transaction_history_remove_invite to (w_thistory w2); Some (0, w2\<lparr>w_thistory := th2\<rparr>) } })" if "enc = Some d" for d
      by (rule send_packet_keeps [OF law env ok 2(6)]) (use e that k th(1) in simp_all)
    with 2 show ?thesis using h p ok gi [folded i_def] e friends_exist_eq [OF ok 2(6)]
      by (cases enc) (auto simp: IOEX_reply_friend_invite_def is_valid_key_iff)
  qed
qed (use ok in \<open>auto simp: IOEX_reply_friend_invite_def split: option.splits\<close>)

end
