(* ===== verification/FileTransfer.thy ===== *)
theory FileTransfer
  imports CarrierSafe
begin

text \<open>
  File transfers of the carrier, from \<^verbatim>\<open>src/carrier/IOEX_carrier.c\<close>: the trackers of files that are sent and received,
  the notifications of the DHT and the functions of the application. Names of files are compared as they are written,
  and \<^verbatim>\<open>unlink\<close> and writing to an open file succeed. A name or path that would fill its array without a terminating
  zero is \<open>None\<close>, and so is a chunk that exceeds the array on the stack. The trackers' references are not counted.
\<close>

subsection \<open>Files and numbers in C\<close>

definition fopen_rb :: "persist_env \<Rightarrow> cstring \<Rightarrow> fs \<Rightarrow> u8 list option" where
  "fopen_rb pe path s = (if pe_open pe path then fs_files s path else None)"

definition fopen_ab :: "persist_env \<Rightarrow> cstring \<Rightarrow> fs \<Rightarrow> fs option" where
  "fopen_ab pe path s =
     (if pe_open pe path then Some (if fs_files s path = None then apply_op (Create path) s else s) else None)"

text \<open>\<^verbatim>\<open>strtoul\<close> and \<^verbatim>\<open>strtoull\<close> with base 10, for 64 bits.\<close>

definition is_space :: "u8 \<Rightarrow> bool" where "is_space c \<longleftrightarrow> c = 0x20 \<or> 9 \<le> c \<and> c \<le> 13"

definition is_digit :: "u8 \<Rightarrow> bool" where "is_digit c \<longleftrightarrow> 0x30 \<le> c \<and> c \<le> 0x39"

definition digits_value :: "cstring \<Rightarrow> nat" where
  "digits_value ds = foldl (\<lambda>v c. 10 * v + (unat c - 0x30)) 0 ds"

definition strtoul :: "cstring \<Rightarrow> nat" where
  "strtoul s =
     (let s1 = dropWhile is_space s;
          neg = (case s1 of c # _ \<Rightarrow> c = 0x2d | [] \<Rightarrow> False);
          s2 = (case s1 of c # r \<Rightarrow> if c = 0x2d \<or> c = 0x2b then r else s1 | [] \<Rightarrow> []);
          v = digits_value (takeWhile is_digit s2)
      in if v \<ge> 2 ^ 64 then 2 ^ 64 - 1 else if neg then (2 ^ 64 - v) mod 2 ^ 64 else v)"

subsection \<open>Trackers\<close>

definition IOEX_MAX_FILE_PATH_LEN :: nat where "IOEX_MAX_FILE_PATH_LEN = 511"
definition IOEX_MAX_FULL_PATH_LEN :: nat where "IOEX_MAX_FULL_PATH_LEN = IOEX_MAX_FILE_NAME_LEN + IOEX_MAX_FILE_PATH_LEN + 1"

definition get_fullpath :: "IOEXFileInfo \<Rightarrow> cstring" where
  "get_fullpath info =
     take (IOEX_MAX_FULL_PATH_LEN - 1)
       (if file_path info = [] then file_name info
        else if last (file_path info) = 0x2f then file_path info @ file_name info
        else file_path info @ [0x2f] @ file_name info)"

definition is_sender :: "u32 \<Rightarrow> bool" where "is_sender file_number \<longleftrightarrow> file_number < 65536"

definition tracks :: "u32 \<Rightarrow> u32 \<Rightarrow> IOEXFileInfo \<Rightarrow> bool" where
  "tracks n f info \<longleftrightarrow> file_friend info = n \<and> file_index info = f"

definition find_file_tracker :: "IOEXFileInfo list \<Rightarrow> u32 \<Rightarrow> u32 \<Rightarrow> IOEXFileInfo option" where
  "find_file_tracker fts n f = find (tracks n f) fts"

definition find_file_sender :: "IOEXCarrier \<Rightarrow> u32 \<Rightarrow> u32 \<Rightarrow> IOEXFileInfo option" where
  "find_file_sender w n f = find_file_tracker (w_file_senders w) n f"

definition find_file_receiver :: "IOEXCarrier \<Rightarrow> u32 \<Rightarrow> u32 \<Rightarrow> IOEXFileInfo option" where
  "find_file_receiver w n f = find_file_tracker (w_file_receivers w) n f"

text \<open>The tracker is taken from the list \<^verbatim>\<open>is_sender\<close> says; that is how most functions find it.\<close>

definition find_tracker :: "IOEXCarrier \<Rightarrow> u32 \<Rightarrow> u32 \<Rightarrow> IOEXFileInfo option" where
  "find_tracker w n f = (if is_sender f then find_file_sender w n f else find_file_receiver w n f)"

definition add_new_file_sender :: "u32 \<Rightarrow> u32 \<Rightarrow> cstring \<Rightarrow> IOEXCarrier \<Rightarrow> IOEXCarrier option" where
  "add_new_file_sender n f fullpath w =
     do {
       name \<leftarrow> strcpy_into (IOEX_MAX_FILE_NAME_LEN + 1) (base_name fullpath);
       path \<leftarrow> strcpy_into (IOEX_MAX_FILE_PATH_LEN + 1) (take (length fullpath - length (base_name fullpath) - 1) fullpath);
       Some (w\<lparr>w_file_senders := w_file_senders w @ [\<lparr>file_name = name, file_path = path, file_friend = n, file_index = f\<rparr>]\<rparr>)
     }"

definition add_new_file_receiver :: "u32 \<Rightarrow> u32 \<Rightarrow> cstring \<Rightarrow> IOEXCarrier \<Rightarrow> IOEXCarrier option" where
  "add_new_file_receiver n f filename w =
     do {
       name \<leftarrow> strcpy_into (IOEX_MAX_FILE_NAME_LEN + 1) filename;
       Some (w\<lparr>w_file_receivers := w_file_receivers w @ [\<lparr>file_name = name, file_path = c_str ''/tmp/'', file_friend = n, file_index = f\<rparr>]\<rparr>)
     }"

text \<open>
  The tracker that was found is the first one with its numbers; the functions that remove it trip an assertion if there
  is none. The second function changes the tracker in its place.
\<close>

fun drop_tracker :: "u32 \<Rightarrow> u32 \<Rightarrow> IOEXFileInfo list \<Rightarrow> IOEXFileInfo list option" where
  "drop_tracker n f [] = None"
| "drop_tracker n f (x # xs) = (if tracks n f x then Some xs else do { ys \<leftarrow> drop_tracker n f xs; Some (x # ys) })"

definition remove_file_sender :: "u32 \<Rightarrow> u32 \<Rightarrow> IOEXCarrier \<Rightarrow> IOEXCarrier option" where
  "remove_file_sender n f w = do { fts \<leftarrow> drop_tracker n f (w_file_senders w); Some (w\<lparr>w_file_senders := fts\<rparr>) }"

definition remove_file_receiver :: "u32 \<Rightarrow> u32 \<Rightarrow> IOEXCarrier \<Rightarrow> IOEXCarrier option" where
  "remove_file_receiver n f w = do { fts \<leftarrow> drop_tracker n f (w_file_receivers w); Some (w\<lparr>w_file_receivers := fts\<rparr>) }"

fun map_tracker :: "u32 \<Rightarrow> u32 \<Rightarrow> (IOEXFileInfo \<Rightarrow> IOEXFileInfo) \<Rightarrow> IOEXFileInfo list \<Rightarrow> IOEXFileInfo list" where
  "map_tracker n f g [] = []"
| "map_tracker n f g (x # xs) = (if tracks n f x then g x # xs else x # map_tracker n f g xs)"

definition update_file_receiver_path :: "cstring \<Rightarrow> cstring \<Rightarrow> IOEXFileInfo \<Rightarrow> IOEXFileInfo" where
  "update_file_receiver_path filename filepath info =
     info\<lparr>file_name := take IOEX_MAX_FILE_NAME_LEN filename, file_path := take IOEX_MAX_FILE_PATH_LEN filepath\<rparr>"

subsection \<open>Notifications\<close>

text \<open>
  The common beginning: the friend is looked up and its reference kept. The continuation gets the friend's identifier.
\<close>

definition with_friend :: "u32 \<Rightarrow> IOEXCarrier \<Rightarrow> (IOEXCarrier \<Rightarrow> IOEXCarrier) \<Rightarrow> (cstring \<Rightarrow> IOEXCarrier \<Rightarrow> IOEXCarrier option) \<Rightarrow> IOEXCarrier option" where
  "with_friend n w unknown k =
     do {
       c_assert (n \<noteq> UINT32_MAX);
       (r, fr1) \<leftarrow> friends_get n (w_friends w);
       case r of
         None \<Rightarrow> Some (unknown (w\<lparr>w_friends := fr1\<rparr>))
       | Some a \<Rightarrow> do { fi \<leftarrow> ot_read a fr1; k (ui_userid (fi_user_info (fi_info fi))) (w\<lparr>w_friends := fr1\<rparr>) }
     }"

definition set_not_exist :: "IOEXCarrier \<Rightarrow> IOEXCarrier" where
  "set_not_exist w = IOEX_set_error (IOEX_GENERAL_ERROR IOEXERR_NOT_EXIST) w"

definition set_no_tracker :: "IOEXCarrier \<Rightarrow> IOEXCarrier" where
  "set_no_tracker w = IOEX_set_error (IOEX_GENERAL_ERROR IOEXERR_FILE_TRACKER_INVALID) w"

text \<open>Tox ends the name with a zero byte.\<close>

definition notify_file_request_cb :: "u32 \<Rightarrow> u32 \<Rightarrow> u8 list \<Rightarrow> nat \<Rightarrow> IOEXCarrier \<Rightarrow> IOEXCarrier option" where
  "notify_file_request_cb n f name filesize w =
     with_friend n w set_not_exist (\<lambda>userid w1. do {
       let filename = takeWhile (\<lambda>c. c \<noteq> 0) name;
       w2 \<leftarrow> add_new_file_receiver n f filename w1;
       Some (call_back CB_file_request (File_request userid f filename filesize) w2)
     })"

definition notify_file_accepted_cb :: "u32 \<Rightarrow> u32 \<Rightarrow> IOEXCarrier \<Rightarrow> IOEXCarrier option" where
  "notify_file_accepted_cb n f w =
     with_friend n w set_not_exist (\<lambda>userid w1.
       if find_file_sender w1 n f = None then Some (set_no_tracker w1)
       else Some (call_back CB_file_accepted (File_accepted userid f) w1))"

definition notify_file_rejected_cb :: "u32 \<Rightarrow> u32 \<Rightarrow> IOEXCarrier \<Rightarrow> IOEXCarrier option" where
  "notify_file_rejected_cb n f w =
     with_friend n w set_not_exist (\<lambda>userid w1.
       if find_file_sender w1 n f = None then Some (set_no_tracker w1)
       else do {
         w2 \<leftarrow> remove_file_sender n f w1;
         Some (call_back CB_file_rejected (File_rejected userid f) w2)
       })"

definition notify_file_paused_cb :: "u32 \<Rightarrow> u32 \<Rightarrow> IOEXCarrier \<Rightarrow> IOEXCarrier option" where
  "notify_file_paused_cb n f w =
     with_friend n w set_not_exist (\<lambda>userid w1.
       if find_tracker w1 n f = None then Some (set_no_tracker w1)
       else Some (call_back CB_file_paused (File_paused userid f) w1))"

definition notify_file_resumed_cb :: "u32 \<Rightarrow> u32 \<Rightarrow> IOEXCarrier \<Rightarrow> IOEXCarrier option" where
  "notify_file_resumed_cb n f w =
     with_friend n w set_not_exist (\<lambda>userid w1.
       if find_tracker w1 n f = None then Some (set_no_tracker w1)
       else Some (call_back CB_file_resumed (File_resumed userid f) w1))"

text \<open>A receiver removes the file and the tracker, a sender the tracker.\<close>

definition drop_transfer :: "u32 \<Rightarrow> u32 \<Rightarrow> IOEXCarrier \<Rightarrow> IOEXCarrier option" where
  "drop_transfer n f w =
     (if is_sender f then remove_file_sender n f w
      else let w1 = (case find_file_receiver w n f of
                       None \<Rightarrow> w
                     | Some info \<Rightarrow> w\<lparr>w_fs := apply_op (Remove (get_fullpath info)) (w_fs w)\<rparr>)
           in remove_file_receiver n f w1)"

definition notify_file_canceled_cb :: "u32 \<Rightarrow> u32 \<Rightarrow> IOEXCarrier \<Rightarrow> IOEXCarrier option" where
  "notify_file_canceled_cb n f w =
     with_friend n w set_not_exist (\<lambda>userid w1. do {
       w2 \<leftarrow> drop_transfer n f w1;
       Some (call_back CB_file_canceled (File_canceled userid f) w2)
     })"

definition CHUNK_SIZE :: nat where "CHUNK_SIZE = 4096"

definition notify_file_chunk_request_cb :: "carrier_env \<Rightarrow> u32 \<Rightarrow> u32 \<Rightarrow> nat \<Rightarrow> nat \<Rightarrow> IOEXCarrier \<Rightarrow> IOEXCarrier option" where
  "notify_file_chunk_request_cb env n f position len w =
     with_friend n w id (\<lambda>userid w1. do {
       tmpid \<leftarrow> strcpy_into (IOEX_MAX_ID_LEN + 1) userid;
       let sender = find_file_sender w1 n f;
       w2 \<leftarrow> (if sender \<noteq> None \<and> len = 0 then remove_file_sender n f w1 else Some w1);
       let fullpath = (if sender \<noteq> None \<and> len > 0 then get_fullpath (the sender) else ce_stack env (w_trace w1));
       let fp = (if sender \<noteq> None \<and> len > 0 then fopen_rb (ce_persist env) fullpath (w_fs w2) else None);
       if len > 0 then
         (case fp of
            Some content \<Rightarrow> do {
              let data = take len (drop position content);
              c_assert (length data \<le> CHUNK_SIZE);
              let rc = dht_file_send_chunk (ce_tox env) (w_trace w2) n f position data;
              let w3 = emit (Dht_file_chunk n f position data) w2;
              Some (if rc < 0 \<and> w_callbacks w3 CB_file_chunk_send_error
                    then emit (File_chunk_send_error rc tmpid f fullpath position len) w3
                    else call_back CB_file_chunk_send (File_chunk_send tmpid f fullpath position len) w3)
            }
          | None \<Rightarrow>
              Some (call_back CB_file_chunk_send_error
                     (File_chunk_send_error (IOEX_GENERAL_ERROR IOEXERR_FILE_INVALID) tmpid f fullpath position len) w2))
       else Some w2
     })"

text \<open>A file that is open for appending is written at its end, wherever \<^verbatim>\<open>fseek\<close> has gone.\<close>

definition notify_file_chunk_receive_cb :: "carrier_env \<Rightarrow> u32 \<Rightarrow> u32 \<Rightarrow> nat \<Rightarrow> u8 list \<Rightarrow> IOEXCarrier \<Rightarrow> IOEXCarrier option" where
  "notify_file_chunk_receive_cb env n f position data w =
     with_friend n w id (\<lambda>userid w1. do {
       tmpid \<leftarrow> strcpy_into (IOEX_MAX_ID_LEN + 1) userid;
       let receiver = find_file_receiver w1 n f;
       w2 \<leftarrow> (if receiver \<noteq> None \<and> data = [] then remove_file_receiver n f w1 else Some w1);
       let fullpath = (if receiver \<noteq> None \<and> data \<noteq> [] then get_fullpath (the receiver) else ce_stack env (w_trace w1));
       let fp = (if receiver \<noteq> None \<and> data \<noteq> [] then fopen_ab (ce_persist env) fullpath (w_fs w2) else None);
       let w3 = (case fp of None \<Rightarrow> w2 | Some s \<Rightarrow> w2\<lparr>w_fs := apply_op (Write fullpath data) s\<rparr>);
       Some (call_back CB_file_chunk_receive (File_chunk_receive tmpid f fullpath position (length data)) w3)
     })"

subsection \<open>Functions of the application\<close>

definition is_file_exist :: "carrier_env \<Rightarrow> cstring \<Rightarrow> IOEXCarrier \<Rightarrow> bool" where
  "is_file_exist env fullpath w \<longleftrightarrow> fopen_rb (ce_persist env) fullpath (w_fs w) \<noteq> None"

text \<open>The test creates the file if it is not there.\<close>

definition is_file_writable :: "carrier_env \<Rightarrow> cstring \<Rightarrow> IOEXCarrier \<Rightarrow> bool \<times> IOEXCarrier" where
  "is_file_writable env fullpath w =
     (case fopen_ab (ce_persist env) fullpath (w_fs w) of None \<Rightarrow> (False, w) | Some s \<Rightarrow> (True, w\<lparr>w_fs := s\<rparr>))"

text \<open>The two loops: the callback gets 0 for a file that is sent and 1 for one that is received.\<close>

fun get_files_loop :: "(int \<Rightarrow> IOEXFileInfo option \<Rightarrow> 's \<Rightarrow> bool \<times> 's) \<Rightarrow> int \<Rightarrow> IOEXFileInfo list \<Rightarrow> 's \<Rightarrow> bool \<times> 's" where
  "get_files_loop cb direction [] s = (True, s)"
| "get_files_loop cb direction (ft # fts) s =
     (let (go, s1) = cb direction (Some ft) s in if \<not> go then (False, s1) else get_files_loop cb direction fts s1)"

definition IOEX_get_files ::
  "(int \<Rightarrow> IOEXFileInfo option \<Rightarrow> 's \<Rightarrow> bool \<times> 's) option \<Rightarrow> 's \<Rightarrow> IOEXCarrier \<Rightarrow> int \<times> 's \<times> IOEXCarrier" where
  "IOEX_get_files callback s w =
     (case callback of
        None \<Rightarrow> (-1, s, IOEX_set_error (IOEX_GENERAL_ERROR IOEXERR_INVALID_ARGS) w)
      | Some cb \<Rightarrow>
          let (go, s1) = get_files_loop cb 0 (w_file_senders w) s in
          if \<not> go then (0, s1, w)
          else let (go2, s2) = get_files_loop cb 1 (w_file_receivers w) s1 in
          if \<not> go2 then (0, s2, w)
          else (0, snd (cb 0 None s2), w))"

text \<open>The tests that all functions begin with: an error, or the number of the friend.\<close>

definition checked_friend :: "carrier_env \<Rightarrow> cstring \<Rightarrow> IOEXCarrier \<Rightarrow> (int + u32) option" where
  "checked_friend env friendid w =
     do {
       valid \<leftarrow> is_valid_key friendid;
       if \<not> valid then Some (Inl (IOEX_GENERAL_ERROR IOEXERR_INVALID_ARGS))
       else if \<not> w_is_ready w then Some (Inl (IOEX_GENERAL_ERROR IOEXERR_NOT_READY))
       else do {
         (rc, n) \<leftarrow> get_friend_number env w friendid;
         Some (if rc < 0 then Inl rc else Inr n)
       }
     }"

definition finish :: "int \<Rightarrow> IOEXCarrier \<Rightarrow> (int \<times> IOEXCarrier) option" where
  "finish rc w = (if rc < 0 then fail rc w else Some (0, w))"

definition IOEX_send_file_request :: "carrier_env \<Rightarrow> cstring option \<Rightarrow> cstring option \<Rightarrow> IOEXCarrier \<Rightarrow> (int \<times> IOEXCarrier) option" where
  "IOEX_send_file_request env arg1 arg2 w =
     (case (arg1, arg2) of
        (Some friendid, Some fullpath) \<Rightarrow> do {
          r \<leftarrow> checked_friend env friendid w;
          case r of
            Inl err \<Rightarrow> fail err w
          | Inr n \<Rightarrow> do {
              (rc, f) \<leftarrow> dht_file_send_request (ce_tox env) (w_trace w)
                (\<lambda>p. map_option length (fopen_rb (ce_persist env) p (w_fs w))) n fullpath UINT32_MAX;
              let w1 = emit (Dht_file_send n fullpath) w;
              if rc < 0 \<or> f = UINT32_MAX then fail rc w1
              else do { w2 \<leftarrow> add_new_file_sender n f fullpath w1; Some (0, w2) }
            }
        }
      | _ \<Rightarrow> fail_with IOEXERR_INVALID_ARGS w)"

definition IOEX_send_file_seek ::
  "carrier_env \<Rightarrow> cstring option \<Rightarrow> cstring option \<Rightarrow> cstring option \<Rightarrow> IOEXCarrier \<Rightarrow> (int \<times> IOEXCarrier) option" where
  "IOEX_send_file_seek env arg1 arg2 arg3 w =
     (case (arg1, arg2, arg3) of
        (Some friendid, Some fileindex, Some position) \<Rightarrow> do {
          r \<leftarrow> checked_friend env friendid w;
          case r of
            Inl err \<Rightarrow> fail err w
          | Inr n \<Rightarrow>
              let f = of_nat (strtoul fileindex) in
              if find_file_receiver w n f = None then fail_with IOEXERR_FILE_INVALID w
              else let pos = strtoul position
                   in finish (dht_file_send_seek (ce_tox env) (w_trace w) n f pos) (emit (Dht_file_seek n f pos) w)
        }
      | _ \<Rightarrow> fail_with IOEXERR_INVALID_ARGS w)"

text \<open>The path must not be empty: its last character is looked at.\<close>

definition IOEX_send_file_accept ::
  "carrier_env \<Rightarrow> cstring option \<Rightarrow> cstring option \<Rightarrow> cstring option \<Rightarrow> cstring option \<Rightarrow> IOEXCarrier \<Rightarrow> (int \<times> IOEXCarrier) option" where
  "IOEX_send_file_accept env arg1 arg2 arg3 arg4 w =
     (case (arg1, arg2, arg3, arg4) of
        (Some friendid, Some fileindex, Some filename, Some filepath) \<Rightarrow> do {
          r \<leftarrow> checked_friend env friendid w;
          case r of
            Inl err \<Rightarrow> fail err w
          | Inr n \<Rightarrow> do {
              c_assert (filepath \<noteq> []);
              let fullpath = take IOEX_MAX_FULL_PATH_LEN
                (if last filepath = 0x2f then filepath @ filename else filepath @ [0x2f] @ filename);
              let (writable, w1) = is_file_writable env fullpath w;
              if \<not> writable then fail_with IOEXERR_FILE_DENY w1
              else
                let f = of_nat (strtoul fileindex) in
                if find_file_receiver w1 n f = None then fail_with IOEXERR_FILE_TRACKER_INVALID w1
                else
                  let w2 = w1\<lparr>w_file_receivers := map_tracker n f (update_file_receiver_path filename filepath) (w_file_receivers w1)\<rparr>
                  in finish (dht_file_send_accept (ce_tox env) (w_trace w2) n f) (emit (Dht_file_control n f TOX_FILE_CONTROL_RESUME) w2)
            }
        }
      | _ \<Rightarrow> fail_with IOEXERR_INVALID_ARGS w)"

definition IOEX_send_file_reject :: "carrier_env \<Rightarrow> cstring option \<Rightarrow> cstring option \<Rightarrow> IOEXCarrier \<Rightarrow> (int \<times> IOEXCarrier) option" where
  "IOEX_send_file_reject env arg1 arg2 w =
     (case (arg1, arg2) of
        (Some friendid, Some fileindex) \<Rightarrow> do {
          r \<leftarrow> checked_friend env friendid w;
          case r of
            Inl err \<Rightarrow> fail err w
          | Inr n \<Rightarrow>
              let f = of_nat (strtoul fileindex) in
              if find_file_receiver w n f = None then fail_with IOEXERR_FILE_TRACKER_INVALID w
              else do {
                w1 \<leftarrow> remove_file_receiver n f w;
                finish (dht_file_send_reject (ce_tox env) (w_trace w1) n f) (emit (Dht_file_control n f TOX_FILE_CONTROL_CANCEL) w1)
              }
        }
      | _ \<Rightarrow> fail_with IOEXERR_INVALID_ARGS w)"

definition IOEX_send_file_pause :: "carrier_env \<Rightarrow> cstring option \<Rightarrow> cstring option \<Rightarrow> IOEXCarrier \<Rightarrow> (int \<times> IOEXCarrier) option" where
  "IOEX_send_file_pause env arg1 arg2 w =
     (case (arg1, arg2) of
        (Some friendid, Some fileindex) \<Rightarrow> do {
          r \<leftarrow> checked_friend env friendid w;
          case r of
            Inl err \<Rightarrow> fail err w
          | Inr n \<Rightarrow>
              let f = of_nat (strtoul fileindex) in
              if find_tracker w n f = None then fail_with IOEXERR_FILE_TRACKER_INVALID w
              else finish (dht_file_send_pause (ce_tox env) (w_trace w) n f) (emit (Dht_file_control n f TOX_FILE_CONTROL_PAUSE) w)
        }
      | _ \<Rightarrow> fail_with IOEXERR_INVALID_ARGS w)"

definition IOEX_send_file_resume :: "carrier_env \<Rightarrow> cstring option \<Rightarrow> cstring option \<Rightarrow> IOEXCarrier \<Rightarrow> (int \<times> IOEXCarrier) option" where
  "IOEX_send_file_resume env arg1 arg2 w =
     (case (arg1, arg2) of
        (Some friendid, Some fileindex) \<Rightarrow> do {
          r \<leftarrow> checked_friend env friendid w;
          case r of
            Inl err \<Rightarrow> fail err w
          | Inr n \<Rightarrow>
              let f = of_nat (strtoul fileindex) in
              if find_tracker w n f = None then fail_with IOEXERR_FILE_TRACKER_INVALID w
              else finish (dht_file_send_resume (ce_tox env) (w_trace w) n f) (emit (Dht_file_control n f TOX_FILE_CONTROL_RESUME) w)
        }
      | _ \<Rightarrow> fail_with IOEXERR_INVALID_ARGS w)"

definition IOEX_send_file_cancel :: "carrier_env \<Rightarrow> cstring option \<Rightarrow> cstring option \<Rightarrow> IOEXCarrier \<Rightarrow> (int \<times> IOEXCarrier) option" where
  "IOEX_send_file_cancel env arg1 arg2 w =
     (case (arg1, arg2) of
        (Some friendid, Some fileindex) \<Rightarrow> do {
          r \<leftarrow> checked_friend env friendid w;
          case r of
            Inl err \<Rightarrow> fail err w
          | Inr n \<Rightarrow> do {
              let f = of_nat (strtoul fileindex);
              w1 \<leftarrow> drop_transfer n f w;
              finish (dht_file_send_cancel (ce_tox env) (w_trace w1) n f) (emit (Dht_file_control n f TOX_FILE_CONTROL_CANCEL) w1)
            }
        }
      | _ \<Rightarrow> fail_with IOEXERR_INVALID_ARGS w)"

end
