(* ===== verification/CarrierLife.thy ===== *)
theory CarrierLife
  imports FileTransfer
begin

text \<open>
  The life of a carrier, from \<^verbatim>\<open>src/carrier/IOEX_carrier.c\<close>: creation from the stored data and the DHT, the main
  loop that hands the calls of Tox to the notifications, the end, and the query for a TURN server. The time that the
  loop sleeps is not modelled. The carrier is counted by references; \<open>None\<close> in place of a carrier is one that has
  been destroyed.
\<close>

subsection \<open>Creation\<close>

record BootstrapNode =
  opt_ipv4 :: "cstring option"
  opt_ipv6 :: "cstring option"
  opt_port :: cstring
  opt_public_key :: cstring

record IOEXOptions =
  opt_persistent_location :: "cstring option"
  opt_udp_enabled :: bool
  opt_bootstraps :: "BootstrapNode list"

text \<open>\<^verbatim>\<open>strtol\<close> with base 10 for 64 bits: the value, and the text that is left. Without digits all of it is left.\<close>

definition strtol :: "cstring \<Rightarrow> int \<times> cstring" where
  "strtol s =
     (let s1 = dropWhile is_space s;
          neg = (case s1 of c # _ \<Rightarrow> c = 0x2d | [] \<Rightarrow> False);
          s2 = (case s1 of c # r \<Rightarrow> if c = 0x2d \<or> c = 0x2b then r else s1 | [] \<Rightarrow> []);
          ds = takeWhile is_digit s2;
          v = (if neg then - int (digits_value ds) else int (digits_value ds))
      in if ds = [] then (0, s) else (max (- (2 ^ 63)) (min (2 ^ 63 - 1) v), dropWhile is_digit s2))"

text \<open>One turn of the loop over the bootstrap nodes: \<open>None\<close> inside for arguments that are refused.\<close>

definition bootstrap_node :: "BootstrapNode \<Rightarrow> BootstrapNodeBuf option option" where
  "bootstrap_node b =
     (if length (or_empty (opt_ipv4 b)) > MAX_IPV4_ADDRESS_LEN then Some None
      else if length (or_empty (opt_ipv6 b)) > MAX_IPV6_ADDRESS_LEN then Some None
      else if opt_ipv4 b = None \<and> opt_ipv6 b = None then Some None
      else do {
        ipv4 \<leftarrow> strcpy_into (MAX_IPV4_ADDRESS_LEN + 1) (or_empty (opt_ipv4 b));
        ipv6 \<leftarrow> strcpy_into (MAX_IPV6_ADDRESS_LEN + 1) (or_empty (opt_ipv6 b));
        let (port, endptr) = strtol (opt_port b);
        if endptr \<noteq> [] then Some None
        else do {
          (len, public_key) \<leftarrow> decode_cstring (opt_public_key b) DHT_PUBLIC_KEY_SIZE;
          if len \<noteq> int DHT_PUBLIC_KEY_SIZE then Some None
          else Some (Some \<lparr>bn_ipv4 = ipv4, bn_ipv6 = ipv6, bn_port = of_int port, bn_public_key = public_key\<rparr>)
        }
      })"

fun bootstrap_nodes :: "BootstrapNode list \<Rightarrow> BootstrapNodeBuf list option option" where
  "bootstrap_nodes [] = Some (Some [])"
| "bootstrap_nodes (b # bs) =
     do {
       r \<leftarrow> bootstrap_node b;
       case r of
         None \<Rightarrow> Some None
       | Some bi \<Rightarrow> do { rs \<leftarrow> bootstrap_nodes bs; Some (map_option ((#) bi) rs) }
     }"

text \<open>The carrier as it is allocated, with its preferences and its empty tables and lists.\<close>

definition zero_carrier :: "(u8 list \<Rightarrow> u8 list \<Rightarrow> int) \<Rightarrow> cstring \<Rightarrow> bool \<Rightarrow> BootstrapNodeBuf list \<Rightarrow> fs \<Rightarrow> IOEXCarrier" where
  "zero_carrier beyond loc udp nodes s =
     \<lparr>w_data_location = loc, w_udp_enabled = udp, w_bootstraps = nodes, w_public_key = replicate DHT_PUBLIC_KEY_SIZE 0,
      w_address = replicate DHT_ADDRESS_SIZE 0, w_base58_addr = [], w_me = empty_user_info,
      w_presence_status = IOEXPresenceStatus_None, w_connection_status = IOEXConnectionStatus_Connected, w_is_ready = False,
      w_callbacks = (\<lambda>_. False), w_session = False, w_friend_events = [], w_friends = friends_create beyond,
      w_tcallbacks = transacted_callbacks_create 32, w_thistory = transaction_history_create 32, w_file_senders = [],
      w_file_receivers = [], w_fs = s, w_running = False, w_quit = False, w_refs = 1, w_error = 0, w_trace = []\<rparr>"

text \<open>The result \<open>Inl\<close> is NULL with the error that is set. Without stored data, \<^verbatim>\<open>data\<close> is cleared.\<close>

definition no_data :: persistence_data where
  "no_data = \<lparr>dht_savedata_len = 0, dht_savedata = [], extra_savedata_len = 0, extra_savedata = []\<rparr>"

definition IOEX_new ::
  "carrier_env \<Rightarrow> (u8 list \<Rightarrow> u8 list \<Rightarrow> int) \<Rightarrow> IOEXOptions option \<Rightarrow> (callback \<Rightarrow> bool) option \<Rightarrow> fs \<Rightarrow> ((int + IOEXCarrier) \<times> fs) option" where
  "IOEX_new env beyond opts callbacks s =
     (case opts of
        None \<Rightarrow> Some (Inl (IOEX_GENERAL_ERROR IOEXERR_INVALID_ARGS), s)
      | Some opt \<Rightarrow>
          if or_empty (opt_persistent_location opt) = [] then Some (Inl (IOEX_GENERAL_ERROR IOEXERR_INVALID_ARGS), s)
          else do {
            let loc = or_empty (opt_persistent_location opt);
            nodes \<leftarrow> bootstrap_nodes (opt_bootstraps opt);
            case nodes of
              None \<Rightarrow> Some (Inl (IOEX_GENERAL_ERROR IOEXERR_INVALID_ARGS), s)
            | Some bis \<Rightarrow> do {
                (loaded, s1) \<leftarrow> load_persistence_data (ce_persist env) loc s;
                let data = (case loaded of None \<Rightarrow> no_data | Some d \<Rightarrow> d);
                let rc = dht_new (ce_tox env) (Some (take (dht_savedata_len data) (dht_savedata data))) (opt_udp_enabled opt);
                if rc < 0 then Some (Inl rc, s1)
                else do {
                  let w = zero_carrier beyond loc (opt_udp_enabled opt) bis s1;
                  let (rc1, info) = dht_get_self_info (ce_tox env) (w_trace w);
                  w1 \<leftarrow> get_self_info_cb env info w;
                  if rc1 < 0 then Some (Inl rc1, w_fs w1)
                  else do {
                    (rc2, w2) \<leftarrow> dht_get_friends (ce_tox env) (w_trace w1) (friends_iterate_cb env) w1;
                    if rc2 < 0 then Some (Inl rc2, w_fs w2)
                    else do {
                      fr \<leftarrow> apply_extra_data (extra_savedata data) (extra_savedata_len data) (w_friends w2);
                      w3 \<leftarrow> save_data env (w2\<lparr>w_friends := fr\<rparr>);
                      let w4 = (case callbacks of None \<Rightarrow> w3 | Some cbs \<Rightarrow> w3\<lparr>w_callbacks := cbs\<rparr>);
                      Some (Inr w4, w_fs w4)
                    }
                  }
                }
              }
          })"

subsection \<open>The end\<close>

definition carrier_ref :: "IOEXCarrier \<Rightarrow> IOEXCarrier" where "carrier_ref w = w\<lparr>w_refs := w_refs w + 1\<rparr>"

definition carrier_deref :: "IOEXCarrier \<Rightarrow> IOEXCarrier option" where
  "carrier_deref w = (if w_refs w > 1 then Some (w\<lparr>w_refs := w_refs w - 1\<rparr>) else None)"

text \<open>The loop that waits for the main loop does not run, since its condition was just made false.\<close>

definition IOEX_kill :: "IOEXCarrier \<Rightarrow> IOEXCarrier option" where
  "IOEX_kill w = carrier_deref (if w_running w then w\<lparr>w_quit := True\<rparr> else w)"

subsection \<open>The main loop\<close>

fun bootstraps_loop :: "carrier_env \<Rightarrow> BootstrapNodeBuf list \<Rightarrow> IOEXCarrier \<Rightarrow> IOEXCarrier option" where
  "bootstraps_loop env [] w = Some w"
| "bootstraps_loop env (bi # bis) w =
     do {
       _ \<leftarrow> encode_into (bn_public_key bi) (IOEX_MAX_ID_LEN + 1) [];
       _ \<leftarrow> dht_bootstrap (ce_tox env) (w_trace w) (bn_ipv4 bi) (bn_ipv6 bi) (uint (bn_port bi)) (bn_public_key bi);
       bootstraps_loop env bis (emit (Dht_bootstrap (bn_ipv4 bi) (bn_ipv6 bi) (bn_port bi) (bn_public_key bi)) w)
     }"

definition connect_to_bootstraps :: "carrier_env \<Rightarrow> IOEXCarrier \<Rightarrow> IOEXCarrier option" where
  "connect_to_bootstraps env w = bootstraps_loop env (w_bootstraps w) w"

text \<open>The functions that are registered with the DHT.\<close>

definition dht_notify :: "carrier_env \<Rightarrow> dht_notification \<Rightarrow> IOEXCarrier \<Rightarrow> IOEXCarrier option" where
  "dht_notify env note w =
     (case note of
        Notify_connection connected \<Rightarrow> Some (notify_connection_cb connected w)
      | Notify_friend_desc n desc \<Rightarrow> notify_friend_description_cb env n desc w
      | Notify_friend_connection n connected \<Rightarrow> notify_friend_connection_cb n connected w
      | Notify_friend_status n status \<Rightarrow> notify_friend_status_cb n status w
      | Notify_friend_request public_key hello \<Rightarrow> notify_friend_request_cb env public_key hello w
      | Notify_friend_message n message \<Rightarrow> notify_friend_message_cb env n message w
      | Notify_file_request n f name filesize \<Rightarrow> notify_file_request_cb n f name filesize w
      | Notify_file_accepted n f \<Rightarrow> notify_file_accepted_cb n f w
      | Notify_file_rejected n f \<Rightarrow> notify_file_rejected_cb n f w
      | Notify_file_paused n f \<Rightarrow> notify_file_paused_cb n f w
      | Notify_file_resumed n f \<Rightarrow> notify_file_resumed_cb n f w
      | Notify_file_canceled n f \<Rightarrow> notify_file_canceled_cb n f w
      | Notify_file_chunk_request n f position len \<Rightarrow> notify_file_chunk_request_cb env n f position len w
      | Notify_file_chunk_receive n f position data \<Rightarrow> notify_file_chunk_receive_cb env n f position data w)"

fun dht_notify_all :: "carrier_env \<Rightarrow> dht_notification list \<Rightarrow> IOEXCarrier \<Rightarrow> IOEXCarrier option" where
  "dht_notify_all env [] w = Some w"
| "dht_notify_all env (note # notes) w = do { w1 \<leftarrow> dht_notify env note w; dht_notify_all env notes w1 }"

definition turn_start :: "carrier_env \<Rightarrow> int \<Rightarrow> IOEXCarrier \<Rightarrow> IOEXCarrier" where
  "turn_start env interval w =
     (let idle_interval = min (dht_iteration_idle (ce_tox env) (w_trace w)) interval;
          w1 = do_friend_events w
      in if idle_interval > 0 then notify_idle w1 else w1)"

definition run_turn :: "carrier_env \<Rightarrow> int \<Rightarrow> IOEXCarrier \<Rightarrow> IOEXCarrier option" where
  "run_turn env interval w =
     (let w1 = turn_start env interval w
      in dht_notify_all env (dht_iterate (ce_tox env) (w_trace w1)) (emit Dht_iterate w1))"

text \<open>Between two turns the application may have called \<^verbatim>\<open>IOEX_kill\<close>.\<close>

partial_function (option) run_loop :: "carrier_env \<Rightarrow> int \<Rightarrow> IOEXCarrier \<Rightarrow> IOEXCarrier option" where
  "run_loop env interval w =
     do {
       w0 \<leftarrow> (if ce_kill env (w_trace w) then IOEX_kill w else Some w);
       if w_quit w0 then Some w0
       else do { w1 \<leftarrow> run_turn env interval w0; run_loop env interval w1 }
     }"

definition run_start :: "carrier_env \<Rightarrow> IOEXCarrier \<Rightarrow> IOEXCarrier option" where
  "run_start env w = do { w1 \<leftarrow> notify_friends (carrier_ref w); connect_to_bootstraps env (w1\<lparr>w_running := True\<rparr>) }"

definition IOEX_run :: "carrier_env \<Rightarrow> int \<Rightarrow> IOEXCarrier \<Rightarrow> (int \<times> IOEXCarrier option) option" where
  "IOEX_run env interval w =
     (if interval < 0 then Some (-1, Some (IOEX_set_error (IOEX_GENERAL_ERROR IOEXERR_INVALID_ARGS) w))
      else do {
        w2 \<leftarrow> run_start env w;
        w3 \<leftarrow> run_loop env (if interval = 0 then 1000 else interval) w2;
        w4 \<leftarrow> save_data env (w3\<lparr>w_running := False\<rparr>);
        Some (0, carrier_deref w4)
      })"

subsection \<open>A TURN server\<close>

definition IOEX_MAX_TURN_SERVER_LEN :: nat where "IOEX_MAX_TURN_SERVER_LEN = 63"
definition IOEX_MAX_TURN_USERNAME_LEN :: nat where "IOEX_MAX_TURN_USERNAME_LEN = 127"
definition IOEX_MAX_TURN_PASSWORD_LEN :: nat where "IOEX_MAX_TURN_PASSWORD_LEN = 63"
definition IOEX_MAX_TURN_REALM_LEN :: nat where "IOEX_MAX_TURN_REALM_LEN = 127"
definition TURN_SERVER_PORT :: u16 where "TURN_SERVER_PORT = 3478"
definition TURN_SERVER_USER_SUFFIX :: cstring where "TURN_SERVER_USER_SUFFIX = c_str ''auth.tox''"
definition TURN_REALM :: cstring where "TURN_REALM = c_str ''IOEX.org''"

record IOEXTurnServer =
  ts_server :: cstring
  ts_port :: u16
  ts_username :: cstring
  ts_password :: cstring
  ts_realm :: cstring

text \<open>The functions of the cryptographic library: the shared key, a random nonce, and a keyed hash that may fail.\<close>

record turn_crypto =
  tc_shared_key :: "u8 list \<Rightarrow> u8 list \<Rightarrow> u8 list"
  tc_nonce :: "u8 list"
  tc_hmac_sha256 :: "u8 list \<Rightarrow> u8 list \<Rightarrow> u8 list option"

fun relay_loop :: "carrier_env \<Rightarrow> nat \<Rightarrow> IOEXCarrier \<Rightarrow> nat \<Rightarrow> (cstring \<times> u8 list) option" where
  "relay_loop env 0 w attempt = None"
| "relay_loop env (Suc left) w attempt =
     (let (rc, server, public_key) = dht_get_random_tcp_relay (ce_tox env) (w_trace w) attempt (IOEX_MAX_TURN_SERVER_LEN + 1)
      in if rc < 0 then relay_loop env left w (attempt + 1) else Some (server, public_key))"

definition IOEX_get_turn_server :: "carrier_env \<Rightarrow> turn_crypto \<Rightarrow> IOEXCarrier \<Rightarrow> (int \<times> IOEXTurnServer option \<times> IOEXCarrier) option" where
  "IOEX_get_turn_server env tc w =
     (case relay_loop env 5 w 0 of
        None \<Rightarrow> Some (-1, None, IOEX_set_error (IOEX_GENERAL_ERROR IOEXERR_NOT_EXIST) w)
      | Some (server, public_key) \<Rightarrow> do {
          let shared_key = tc_shared_key tc public_key (dht_self_get_secret_key (ce_tox env) (w_trace w));
          case tc_hmac_sha256 tc shared_key (tc_nonce tc) of
            None \<Rightarrow> Some (-1, None, w)
          | Some digest \<Rightarrow> do {
              password \<leftarrow> encode_into digest (IOEX_MAX_TURN_PASSWORD_LEN + 1) [];
              nonce_str \<leftarrow> encode_into (tc_nonce tc) 64 [];
              username \<leftarrow> strcpy_into (IOEX_MAX_TURN_USERNAME_LEN + 1)
                (ui_userid (w_me w) @ [0x40] @ nonce_str @ [0x2e] @ TURN_SERVER_USER_SUFFIX);
              realm \<leftarrow> strcpy_into (IOEX_MAX_TURN_REALM_LEN + 1) TURN_REALM;
              Some (0, Some \<lparr>ts_server = server, ts_port = TURN_SERVER_PORT, ts_username = username, ts_password = password, ts_realm = realm\<rparr>, w)
            }
        })"

end
