(* ===== verification/CarrierRun.thy ===== *)
theory CarrierRun
  imports CarrierLife
begin

text \<open>
  Runs of a carrier: sequences of calls of Tox and of the application. Under the law of the DHT and for calls whose
  arguments respect the interface, every run comes to its end without a failing assertion, and the table of friends
  stays in agreement with the friend list of Tox.
\<close>

subsection \<open>File transfers keep the invariant\<close>

lemma with_friend_ok:
  assumes ok: "carrier_ok beyond D w" and n: "unat n < 2 ^ 16"
    and u: "carrier_ok beyond D w \<Longrightarrow> carrier_ok beyond D (unknown w)"
    and k: "\<And>fi a. friend_at (w_friends w) n = Some fi \<Longrightarrow> carrier_ok beyond D (w\<lparr>w_friends := ot_hold a (w_friends w)\<rparr>)
      \<Longrightarrow> wp (k (friend_id fi) (w\<lparr>w_friends := ot_hold a (w_friends w)\<rparr>)) (carrier_ok beyond D)"
  shows "wp (with_friend n w unknown k) (carrier_ok beyond D)"
proof (cases "friend_at (w_friends w) n")
  case None
  then show ?thesis using friends_get_absent [OF ok n None] small_not_max [OF n] u [OF ok] by (simp add: with_friend_def wp_def)
next
  case (Some fi)
  from friends_get_present [OF ok Some] obtain a where
    "friends_get n (w_friends w) = Some (Some a, ot_hold a (w_friends w))" "ot_read a (ot_hold a (w_friends w)) = Some fi" by blast
  then show ?thesis using k [OF Some carrier_ok_hold [OF ok, of a]] small_not_max [OF n] by (simp add: with_friend_def)
qed

lemma drop_tracker_found:
  "find_file_tracker fts n f \<noteq> None \<Longrightarrow> \<exists>ys. drop_tracker n f fts = Some ys"
  by (induction fts) (auto simp: find_file_tracker_def)

lemma remove_tracker_ok:
  "find_file_sender w n f \<noteq> None \<Longrightarrow> \<exists>fts. remove_file_sender n f w = Some (w\<lparr>w_file_senders := fts\<rparr>)"
  "find_file_receiver w n f \<noteq> None \<Longrightarrow> \<exists>fts. remove_file_receiver n f w = Some (w\<lparr>w_file_receivers := fts\<rparr>)"
  using drop_tracker_found [of "w_file_senders w" n f] drop_tracker_found [of "w_file_receivers w" n f]
  by (auto simp: find_file_sender_def find_file_receiver_def remove_file_sender_def remove_file_receiver_def)

lemma find_unchanged [simp]:
  "find_file_sender (w\<lparr>w_friends := fr\<rparr>) n f = find_file_sender w n f" "find_file_receiver (w\<lparr>w_friends := fr\<rparr>) n f = find_file_receiver w n f"
  "find_file_sender (w\<lparr>w_fs := s\<rparr>) n f = find_file_sender w n f" "find_file_receiver (w\<lparr>w_fs := s\<rparr>) n f = find_file_receiver w n f"
  "find_tracker (w\<lparr>w_friends := fr\<rparr>) n f = find_tracker w n f" "find_tracker (w\<lparr>w_fs := s\<rparr>) n f = find_tracker w n f"
  by (simp_all add: find_file_sender_def find_file_receiver_def find_tracker_def)

lemma drop_transfer_ok:
  assumes "carrier_ok beyond D w" and "find_tracker w n f \<noteq> None"
  shows "\<exists>w'. drop_transfer n f w = Some w' \<and> carrier_ok beyond D w' \<and> w_trace w' = w_trace w"
proof (cases "is_sender f")
  case True
  with assms(2) have "find_file_sender w n f \<noteq> None" by (simp add: find_tracker_def)
  with True assms(1) remove_tracker_ok(1) [OF this] show ?thesis by (auto simp: drop_transfer_def)
next
  case False
  with assms(2) obtain info where i: "find_file_receiver w n f = Some info" by (auto simp: find_tracker_def)
  let ?w = "w\<lparr>w_fs := apply_op (Remove (get_fullpath info)) (w_fs w)\<rparr>"
  have "find_file_receiver ?w n f \<noteq> None" using i by simp
  from remove_tracker_ok(2) [OF this] obtain fts where "remove_file_receiver n f ?w = Some (?w\<lparr>w_file_receivers := fts\<rparr>)" by blast
  moreover have "carrier_ok beyond D (?w\<lparr>w_file_receivers := fts\<rparr>)" using assms(1) by (simp only: carrier_ok_other)
  ultimately show ?thesis using False i by (simp add: drop_transfer_def Let_def)
qed

lemma set_error_ok [simp]:
  "carrier_ok beyond D (set_not_exist w) = carrier_ok beyond D w" "carrier_ok beyond D (set_no_tracker w) = carrier_ok beyond D w"
  by (simp_all add: set_not_exist_def set_no_tracker_def)

lemma notify_file_signals_ok:
  assumes law: "dht_law env D" and ok: "carrier_ok beyond D w" and n: "unat n < 2 ^ 16"
  shows "wp (notify_file_accepted_cb n f w) (carrier_ok beyond D)" "wp (notify_file_paused_cb n f w) (carrier_ok beyond D)"
    "wp (notify_file_resumed_cb n f w) (carrier_ok beyond D)"
  unfolding notify_file_accepted_cb_def notify_file_paused_cb_def notify_file_resumed_cb_def
  by (rule with_friend_ok [OF ok n]; simp add: wp_def carrier_ok_event [OF law])+

lemma notify_file_rejected_ok:
  assumes law: "dht_law env D" and ok: "carrier_ok beyond D w" and n: "unat n < 2 ^ 16"
  shows "wp (notify_file_rejected_cb n f w) (carrier_ok beyond D)"
  unfolding notify_file_rejected_cb_def
proof (rule with_friend_ok [OF ok n], goal_cases)
  case (2 fi a)
  then show ?case using remove_tracker_ok(1) [of "w\<lparr>w_friends := ot_hold a (w_friends w)\<rparr>" n f]
    by (auto simp: wp_def carrier_ok_event [OF law])
qed simp

lemma notify_file_request_ok:
  assumes law: "dht_law env D" and ok: "carrier_ok beyond D w" and n: "unat n < 2 ^ 16"
    and l: "length (takeWhile (\<lambda>c. c \<noteq> 0) name) \<le> IOEX_MAX_FILE_NAME_LEN"
  shows "wp (notify_file_request_cb n f name filesize w) (carrier_ok beyond D)"
  unfolding notify_file_request_cb_def
  by (rule with_friend_ok [OF ok n])
    (use l in \<open>simp_all add: wp_def Let_def carrier_ok_event [OF law] add_new_file_receiver_def strcpy_into_Some\<close>)

lemma notify_file_canceled_ok:
  assumes law: "dht_law env D" and ok: "carrier_ok beyond D w" and n: "unat n < 2 ^ 16"
    and t: "friend_at (w_friends w) n \<noteq> None \<Longrightarrow> find_tracker w n f \<noteq> None"
  shows "wp (notify_file_canceled_cb n f w) (carrier_ok beyond D)"
  unfolding notify_file_canceled_cb_def
proof (rule with_friend_ok [OF ok n], goal_cases)
  case (2 fi a)
  from drop_transfer_ok [OF 2(2), of n f] t 2(1) show ?case by (auto simp: wp_def carrier_ok_event [OF law])
qed simp

lemma notify_file_chunk_request_ok:
  assumes law: "dht_law env D" and ok: "carrier_ok beyond D w" and n: "unat n < 2 ^ 16" and len: "len \<le> CHUNK_SIZE"
  shows "wp (notify_file_chunk_request_cb env n f position len w) (carrier_ok beyond D)"
  unfolding notify_file_chunk_request_cb_def
proof (rule with_friend_ok [OF ok n], goal_cases)
  case (2 fi a)
  note r = remove_tracker_ok(1) [of "w\<lparr>w_friends := ot_hold a (w_friends w)\<rparr>" n f]
  have i: "length (friend_id fi) < Suc IOEX_MAX_ID_LEN" using friend_id_short [OF law ok 2(1)] by (simp add: IOEX_MAX_ID_LEN_def)
  show ?case
  proof (cases "len = 0")
    case True
    then show ?thesis using i 2(2) r by (auto simp: wp_def strcpy_into_Some)
  next
    case False
    have "length (take len (drop position content)) \<le> CHUNK_SIZE" for content :: "u8 list" using len by simp
    then show ?thesis using False i 2(2) by (auto simp: wp_def strcpy_into_Some Let_def carrier_ok_event [OF law] split: option.split)
  qed
qed simp

lemma notify_file_chunk_receive_ok:
  assumes law: "dht_law env D" and ok: "carrier_ok beyond D w" and n: "unat n < 2 ^ 16"
  shows "wp (notify_file_chunk_receive_cb env n f position data w) (carrier_ok beyond D)"
  unfolding notify_file_chunk_receive_cb_def
proof (rule with_friend_ok [OF ok n], goal_cases)
  case (2 fi a)
  note r = remove_tracker_ok(2) [of "w\<lparr>w_friends := ot_hold a (w_friends w)\<rparr>" n f]
  have i: "length (friend_id fi) < Suc IOEX_MAX_ID_LEN" using friend_id_short [OF law ok 2(1)] by (simp add: IOEX_MAX_ID_LEN_def)
  show ?case
    using i 2(2) r by (cases "data = []") (auto simp: wp_def strcpy_into_Some Let_def carrier_ok_event [OF law] split: option.split)
qed simp

text \<open>The functions of the application for files.\<close>

lemma finish_keeps [simp]: "keeps beyond D (finish rc w) = carrier_ok beyond D w"
  by (simp add: finish_def)

lemma checked_friend_cases:
  assumes law: "dht_law env D" and ok: "carrier_ok beyond D w"
  obtains (refused) err where "checked_friend env friendid w = Some (Inl err)"
  | (known) n where "checked_friend env friendid w = Some (Inr n)" "unat n < 2 ^ 16"
proof (cases rule: get_friend_number_cases [OF law ok, of friendid])
  case (1 rc n)
  then have "\<exists>err. checked_friend env friendid w = Some (Inl err)" by (simp add: checked_friend_def is_valid_key_iff)
  with refused show thesis by blast
next
  case (2 n key fi)
  then have "(\<exists>err. checked_friend env friendid w = Some (Inl err)) \<or> checked_friend env friendid w = Some (Inr n)"
    by (simp add: checked_friend_def is_valid_key_iff)
  with refused known 2(6) show thesis by blast
qed

lemma base_name_short: "length (base_name path) \<le> length path"
  by (simp add: base_name_def) (metis length_rev length_takeWhile_le)

lemma send_file_request_ok:
  assumes law: "dht_law env D" and ok: "carrier_ok beyond D w"
    and l: "\<And>path. arg2 = Some path \<Longrightarrow> length path \<le> IOEX_MAX_FILE_NAME_LEN"
  shows "keeps beyond D (IOEX_send_file_request env arg1 arg2 w)"
proof (cases "\<exists>friendid path. arg1 = Some friendid \<and> arg2 = Some path")
  case True
  then obtain friendid path where a: "arg1 = Some friendid" "arg2 = Some path" by blast
  have b: "length (base_name path) < IOEX_MAX_FILE_NAME_LEN + 1" "length path - length (base_name path) - 1 < IOEX_MAX_FILE_PATH_LEN + 1"
    using l [OF a(2)] base_name_short [of path] by (simp_all add: IOEX_MAX_FILE_NAME_LEN_def IOEX_MAX_FILE_PATH_LEN_def)
  show ?thesis
  proof (cases rule: checked_friend_cases [OF law ok, of friendid])
    case (2 n)
    have k: "carrier_ok beyond D (emit (Dht_file_send n path) w)" using ok by (simp add: carrier_ok_event [OF law])
    have "\<exists>r. dht_file_send_request (ce_tox env) (w_trace w) (\<lambda>p. map_option length (fopen_rb (ce_persist env) p (w_fs w))) n path UINT32_MAX
        = Some r"
      using b(1) by (cases "fopen_rb (ce_persist env) path (w_fs w)") (simp_all add: dht_file_send_request_def strcpy_into_Some split: prod.split)
    then obtain rc f where "dht_file_send_request (ce_tox env) (w_trace w) (\<lambda>p. map_option length (fopen_rb (ce_persist env) p (w_fs w))) n path UINT32_MAX
        = Some (rc, f)" by auto
    then show ?thesis using a 2 b k
      by (simp add: IOEX_send_file_request_def add_new_file_sender_def strcpy_into_Some Let_def)
  qed (use a ok in \<open>simp add: IOEX_send_file_request_def\<close>)
qed (use ok in \<open>auto simp: IOEX_send_file_request_def split: option.splits\<close>)

lemma send_file_seek_ok:
  assumes law: "dht_law env D" and ok: "carrier_ok beyond D w"
  shows "keeps beyond D (IOEX_send_file_seek env arg1 arg2 arg3 w)"
proof (cases "\<exists>friendid i p. arg1 = Some friendid \<and> arg2 = Some i \<and> arg3 = Some p")
  case True
  then obtain friendid i p where a: "arg1 = Some friendid" "arg2 = Some i" "arg3 = Some p" by blast
  show ?thesis
    by (cases rule: checked_friend_cases [OF law ok, of friendid])
      (use a ok in \<open>simp_all add: IOEX_send_file_seek_def Let_def carrier_ok_event [OF law]\<close>)
qed (use ok in \<open>auto simp: IOEX_send_file_seek_def split: option.splits\<close>)

lemma is_file_writable_ok: "carrier_ok beyond D w \<Longrightarrow> carrier_ok beyond D (snd (is_file_writable env path w))"
  by (simp add: is_file_writable_def split: option.split)

lemma send_file_accept_ok:
  assumes law: "dht_law env D" and ok: "carrier_ok beyond D w" and p: "arg4 \<noteq> Some []"
  shows "keeps beyond D (IOEX_send_file_accept env arg1 arg2 arg3 arg4 w)"
proof (cases "\<exists>friendid i name path. arg1 = Some friendid \<and> arg2 = Some i \<and> arg3 = Some name \<and> arg4 = Some path")
  case True
  then obtain friendid i name path where a: "arg1 = Some friendid" "arg2 = Some i" "arg3 = Some name" "arg4 = Some path" by blast
  define full where "full = take IOEX_MAX_FULL_PATH_LEN (if last path = 0x2f then path @ name else path @ [0x2f] @ name)"
  obtain b w1 where w: "is_file_writable env full w = (b, w1)" by fastforce
  have ok1: "carrier_ok beyond D w1" using is_file_writable_ok [OF ok, of env full] w by simp
  show ?thesis
    by (cases rule: checked_friend_cases [OF law ok, of friendid])
      (use a p ok ok1 w in \<open>simp_all add: IOEX_send_file_accept_def Let_def full_def [symmetric] carrier_ok_event [OF law]\<close>)
qed (use ok in \<open>auto simp: IOEX_send_file_accept_def split: option.splits\<close>)

lemma send_file_reject_ok:
  assumes law: "dht_law env D" and ok: "carrier_ok beyond D w"
  shows "keeps beyond D (IOEX_send_file_reject env arg1 arg2 w)"
proof (cases "\<exists>friendid i. arg1 = Some friendid \<and> arg2 = Some i")
  case True
  then obtain friendid i where a: "arg1 = Some friendid" "arg2 = Some i" by blast
  show ?thesis
  proof (cases rule: checked_friend_cases [OF law ok, of friendid])
    case (2 n)
    then show ?thesis using a ok remove_tracker_ok(2) [of w n "of_nat (strtoul i)"]
      by (cases "find_file_receiver w n (of_nat (strtoul i))") (auto simp: IOEX_send_file_reject_def Let_def carrier_ok_event [OF law])
  qed (use a ok in \<open>simp add: IOEX_send_file_reject_def\<close>)
qed (use ok in \<open>auto simp: IOEX_send_file_reject_def split: option.splits\<close>)

lemma send_file_signals_ok:
  assumes law: "dht_law env D" and ok: "carrier_ok beyond D w"
  shows "keeps beyond D (IOEX_send_file_pause env arg1 arg2 w)" "keeps beyond D (IOEX_send_file_resume env arg1 arg2 w)"
proof -
  have "keeps beyond D (IOEX_send_file_pause env (Some friendid) (Some i) w) \<and> keeps beyond D (IOEX_send_file_resume env (Some friendid) (Some i) w)"
    for friendid i
    by (cases rule: checked_friend_cases [OF law ok, of friendid])
      (use ok in \<open>simp_all add: IOEX_send_file_pause_def IOEX_send_file_resume_def Let_def carrier_ok_event [OF law]\<close>)
  then show "keeps beyond D (IOEX_send_file_pause env arg1 arg2 w)" "keeps beyond D (IOEX_send_file_resume env arg1 arg2 w)"
    using ok by (cases arg1; cases arg2; simp add: IOEX_send_file_pause_def IOEX_send_file_resume_def)+
qed

text \<open>A transfer that the application cancels must be one that the carrier tracks.\<close>

definition cancelable :: "carrier_env \<Rightarrow> cstring option \<Rightarrow> cstring option \<Rightarrow> IOEXCarrier \<Rightarrow> bool" where
  "cancelable env arg1 arg2 w \<longleftrightarrow>
     (case (arg1, arg2) of
        (Some friendid, Some i) \<Rightarrow>
          (case checked_friend env friendid w of Some (Inr n) \<Rightarrow> find_tracker w n (of_nat (strtoul i)) \<noteq> None | _ \<Rightarrow> True)
      | _ \<Rightarrow> True)"

lemma send_file_cancel_ok:
  assumes law: "dht_law env D" and ok: "carrier_ok beyond D w" and c: "cancelable env arg1 arg2 w"
  shows "keeps beyond D (IOEX_send_file_cancel env arg1 arg2 w)"
proof (cases "\<exists>friendid i. arg1 = Some friendid \<and> arg2 = Some i")
  case True
  then obtain friendid i where a: "arg1 = Some friendid" "arg2 = Some i" by blast
  show ?thesis
  proof (cases rule: checked_friend_cases [OF law ok, of friendid])
    case (2 n)
    then have "find_tracker w n (of_nat (strtoul i)) \<noteq> None" using a c by (simp add: cancelable_def)
    from drop_transfer_ok [OF ok this] a 2 show ?thesis by (auto simp: IOEX_send_file_cancel_def Let_def carrier_ok_event [OF law])
  qed (use a ok in \<open>simp add: IOEX_send_file_cancel_def\<close>)
qed (use ok in \<open>auto simp: IOEX_send_file_cancel_def split: option.splits\<close>)

subsection \<open>Calls\<close>

text \<open>What can happen to a carrier: a call of Tox, a turn of the main loop without it, or a call of the application.\<close>

datatype carrier_call =
    Tox_calls tox_callback
  | Do_events
  | List_friends
  | Set_nospam u32
  | Set_info "IOEXUserInfo option"
  | Set_presence int
  | Get_info "cstring option"
  | Set_label "cstring option" "cstring option"
  | Is_friend "cstring option"
  | Add_friend "cstring option" "cstring option"
  | Accept_friend "cstring option"
  | Remove_friend "cstring option"
  | Send_message "cstring option" "u8 list option"
  | Invite "cstring option" "u8 list option" nat nat
  | Reply "cstring option" int "cstring option" "u8 list option"
  | Send_file "cstring option" "cstring option"
  | Seek_file "cstring option" "cstring option" "cstring option"
  | Accept_file "cstring option" "cstring option" "cstring option" "cstring option"
  | Reject_file "cstring option" "cstring option"
  | Pause_file "cstring option" "cstring option"
  | Resume_file "cstring option" "cstring option"
  | Cancel_file "cstring option" "cstring option"

definition run_call :: "carrier_env \<Rightarrow> carrier_call \<Rightarrow> IOEXCarrier \<Rightarrow> IOEXCarrier option" where
  "run_call env c w =
     (case c of
        Tox_calls cb \<Rightarrow> dht_notify_all env (dht_callback cb) w
      | Do_events \<Rightarrow> Some (do_friend_events w)
      | List_friends \<Rightarrow> notify_friends w
      | Set_nospam nospam \<Rightarrow> map_option snd (IOEX_set_self_nospam env nospam w)
      | Set_info info \<Rightarrow> map_option snd (IOEX_set_self_info env info w)
      | Set_presence status \<Rightarrow> map_option snd (IOEX_set_self_presence status w)
      | Get_info userid \<Rightarrow> map_option (snd \<circ> snd) (IOEX_get_friend_info env userid w)
      | Set_label userid label \<Rightarrow> map_option snd (IOEX_set_friend_label env userid label w)
      | Is_friend userid \<Rightarrow> map_option snd (IOEX_is_friend env userid w)
      | Add_friend address hello \<Rightarrow> map_option snd (IOEX_add_friend env address hello w)
      | Accept_friend userid \<Rightarrow> map_option snd (IOEX_accept_friend env userid w)
      | Remove_friend userid \<Rightarrow> map_option snd (IOEX_remove_friend env userid w)
      | Send_message to msg \<Rightarrow> map_option snd (IOEX_send_friend_message env to msg w)
      | Invite to data callback ctxt \<Rightarrow> map_option snd (IOEX_invite_friend env to data callback ctxt w)
      | Reply to status reason data \<Rightarrow> map_option snd (IOEX_reply_friend_invite env to status reason data w)
      | Send_file userid path \<Rightarrow> map_option snd (IOEX_send_file_request env userid path w)
      | Seek_file userid i position \<Rightarrow> map_option snd (IOEX_send_file_seek env userid i position w)
      | Accept_file userid i name path \<Rightarrow> map_option snd (IOEX_send_file_accept env userid i name path w)
      | Reject_file userid i \<Rightarrow> map_option snd (IOEX_send_file_reject env userid i w)
      | Pause_file userid i \<Rightarrow> map_option snd (IOEX_send_file_pause env userid i w)
      | Resume_file userid i \<Rightarrow> map_option snd (IOEX_send_file_resume env userid i w)
      | Cancel_file userid i \<Rightarrow> map_option snd (IOEX_send_file_cancel env userid i w))"

text \<open>
  What the carrier relies on. Tox uses small friend numbers, delivers only packets that a carrier has sent, names and
  chunks within its own limits, and cancels transfers that exist. The application passes C strings that fit.
\<close>

definition callback_ok :: "carrier_env \<Rightarrow> IOEXCarrier \<Rightarrow> tox_callback \<Rightarrow> bool" where
  "callback_ok env w cb \<longleftrightarrow>
     (case cb of
        Self_connection_status c \<Rightarrow> True
      | Friend_status_message n m \<Rightarrow> unat n < 2 ^ 16 \<and> (m \<noteq> [] \<longrightarrow> desc_ok env m)
      | Friend_connection_status n c \<Rightarrow> unat n < 2 ^ 16
      | Friend_status n st \<Rightarrow> unat n < 2 ^ 16
      | Friend_request_received key hello \<Rightarrow> hello \<noteq> [] \<and> wire_ok env hello \<and> length key = 32
      | Friend_message_received n type m \<Rightarrow> unat n < 2 ^ 16 \<and> wire_ok env m \<and> has_room (w_thistory w)
      | File_recv n f filesize name \<Rightarrow> unat n < 2 ^ 16 \<and> length (takeWhile (\<lambda>c. c \<noteq> 0) name) \<le> IOEX_MAX_FILE_NAME_LEN
      | File_recv_control n f control \<Rightarrow> unat n < 2 ^ 16
          \<and> (control = TOX_FILE_CONTROL_CANCEL \<and> friend_at (w_friends w) n \<noteq> None \<longrightarrow> find_tracker w n f \<noteq> None)
      | File_chunk_request n f position len \<Rightarrow> unat n < 2 ^ 16 \<and> len \<le> CHUNK_SIZE
      | File_recv_chunk n f position data \<Rightarrow> unat n < 2 ^ 16)"

definition call_ok :: "carrier_env \<Rightarrow> IOEXCarrier \<Rightarrow> carrier_call \<Rightarrow> bool" where
  "call_ok env w c \<longleftrightarrow>
     (case c of
        Tox_calls cb \<Rightarrow> callback_ok env w cb
      | Set_info info \<Rightarrow> (case info of None \<Rightarrow> True | Some ui \<Rightarrow> user_info_ok ui)
      | Set_label userid label \<Rightarrow> is_cstring (or_empty label)
      | Invite to data callback ctxt \<Rightarrow> has_room (w_tcallbacks w)
      | Reply to status reason data \<Rightarrow> is_cstring (or_empty to) \<and> length (or_empty to) + 3 < HISTORY_KEY_SIZE
      | Send_file userid path \<Rightarrow> length (or_empty path) \<le> IOEX_MAX_FILE_NAME_LEN
      | Accept_file userid i name path \<Rightarrow> path \<noteq> Some []
      | Cancel_file userid i \<Rightarrow> cancelable env userid i w
      | _ \<Rightarrow> True)"

fun run_calls :: "carrier_env \<Rightarrow> carrier_call list \<Rightarrow> IOEXCarrier \<Rightarrow> IOEXCarrier option" where
  "run_calls env [] w = Some w"
| "run_calls env (c # cs) w = do { w1 \<leftarrow> run_call env c w; run_calls env cs w1 }"

fun calls_ok :: "carrier_env \<Rightarrow> carrier_call list \<Rightarrow> IOEXCarrier \<Rightarrow> bool" where
  "calls_ok env [] w \<longleftrightarrow> True"
| "calls_ok env (c # cs) w \<longleftrightarrow> call_ok env w c \<and> (case run_call env c w of None \<Rightarrow> True | Some w1 \<Rightarrow> calls_ok env cs w1)"

lemma keeps_snd: "keeps beyond D m \<Longrightarrow> wp (map_option snd m) (carrier_ok beyond D)"
  by (auto simp: keeps_def wp_def)

lemma notify_one [simp]: "dht_notify_all env [note] = dht_notify env note"
proof
  show "dht_notify_all env [note] w = dht_notify env note w" for w by (cases "dht_notify env note w") simp_all
qed

lemma notify_all_append: "dht_notify_all env (xs @ ys) w = Option.bind (dht_notify_all env xs w) (dht_notify_all env ys)"
  by (induction xs arbitrary: w) (simp_all, metis bind_assoc)

lemma wp_bind: "wp m P \<Longrightarrow> (\<And>x. P x \<Longrightarrow> wp (g x) Q) \<Longrightarrow> wp (Option.bind m g) Q"
  by (auto simp: wp_def)

lemma tox_callback_ok:
  assumes law: "dht_law env D" and ok: "carrier_ok beyond D w" and c: "callback_ok env w cb"
  shows "wp (dht_notify_all env (dht_callback cb) w) (carrier_ok beyond D)"
proof (cases cb)
  case (File_recv_control n f control)
  then have n: "unat n < 2 ^ 16" and t: "control = TOX_FILE_CONTROL_CANCEL \<Longrightarrow> friend_at (w_friends w) n \<noteq> None \<Longrightarrow> find_tracker w n f \<noteq> None"
    using c by (auto simp: callback_ok_def)
  note s = notify_file_signals_ok [OF law _ n]
  show ?thesis
  proof (cases control)
    case TOX_FILE_CONTROL_RESUME
    then show ?thesis using wp_bind [where g = "dht_notify env (Notify_file_accepted n f)", OF s(3) [OF ok]] s(1) File_recv_control
      by (simp add: dht_callback_def notify_file_control_cb_def dht_notify_def)
  next
    case TOX_FILE_CONTROL_CANCEL
    then show ?thesis
      using wp_bind [where g = "dht_notify env (Notify_file_rejected n f)", OF notify_file_canceled_ok [OF law ok n t [OF TOX_FILE_CONTROL_CANCEL]]]
        notify_file_rejected_ok [OF law _ n] File_recv_control
      by (simp add: dht_callback_def notify_file_control_cb_def dht_notify_def)
  qed (use s ok File_recv_control in \<open>simp_all add: dht_callback_def notify_file_control_cb_def dht_notify_def wp_def\<close>)
next
  case (Friend_message_received n type m)
  then show ?thesis using c notify_friend_message_ok [OF law ok, of n m] ok
    by (cases type) (simp_all add: dht_callback_def dht_notify_def callback_ok_def wp_def)
next
  case (Self_connection_status st)
  then show ?thesis using notify_connection_ok [OF law ok] by (simp add: dht_callback_def dht_notify_def wp_def)
qed (use c notify_friend_description_ok [OF law ok] notify_friend_connection_ok [OF law ok] notify_friend_status_ok [OF law ok]
    notify_friend_request_ok [OF law ok] notify_file_request_ok [OF law ok] notify_file_chunk_request_ok [OF law ok]
    notify_file_chunk_receive_ok [OF law ok] in \<open>simp_all add: dht_callback_def dht_notify_def callback_ok_def\<close>)

lemma call_keeps:
  assumes law: "dht_law env D" and env: "env_ok env" and ok: "carrier_ok beyond D w" and c: "call_ok env w c"
  shows "wp (run_call env c w) (carrier_ok beyond D)"
proof (cases c)
  case (Tox_calls cb)
  then show ?thesis using tox_callback_ok [OF law ok] c by (simp add: run_call_def call_ok_def)
next
  case (Get_info userid)
  then show ?thesis using get_friend_info_ok [OF law ok, of userid] by (auto simp: run_call_def wp_def)
next
  case (Is_friend userid)
  then show ?thesis using is_friend_ok [OF law ok, of userid] by (auto simp: run_call_def wp_def)
next
  case (Set_info info)
  then show ?thesis using keeps_snd [OF set_self_info_ok [OF law env ok, of info]] c by (cases info) (simp_all add: run_call_def call_ok_def)
next
  case (Reply to status reason data)
  then show ?thesis using keeps_snd [OF reply_friend_invite_ok [OF law env ok, of to]] c by (cases to) (simp_all add: run_call_def call_ok_def or_empty_def)
next
  case (Send_file userid path)
  then show ?thesis using keeps_snd [OF send_file_request_ok [OF law ok, of path]] c by (cases path) (simp_all add: run_call_def call_ok_def or_empty_def)
qed (use c do_events_ok [OF law ok] notify_friends_ok [OF law ok] in \<open>simp_all add: run_call_def call_ok_def wp_def [of "Some _"] keeps_snd
    set_self_nospam_ok [OF law env ok] set_self_presence_ok [OF law ok] set_friend_label_ok [OF law env ok] add_friend_ok [OF law env ok]
    accept_friend_ok [OF law env ok] remove_friend_ok [OF law env ok] send_friend_message_ok [OF law env ok] invite_friend_ok [OF law env ok]
    send_file_seek_ok [OF law ok] send_file_accept_ok [OF law ok] send_file_reject_ok [OF law ok] send_file_signals_ok [OF law ok]
    send_file_cancel_ok [OF law ok]\<close>)

lemma run_calls_keep:
  assumes law: "dht_law env D" and env: "env_ok env" and ok: "carrier_ok beyond D w" and c: "calls_ok env cs w"
  shows "wp (run_calls env cs w) (carrier_ok beyond D)"
  using ok c
proof (induction cs arbitrary: w)
  case (Cons c cs)
  from call_keeps [OF law env Cons.prems(1), of c] Cons.prems(2) obtain w1 where
    w1: "run_call env c w = Some w1" "carrier_ok beyond D w1" by (auto simp: wp_def)
  then show ?case using Cons.IH [OF w1(2)] Cons.prems(2) by simp
qed (simp add: wp_def)

end
