(* ===== verification/CarrierStart.thy ===== *)
theory CarrierStart
  imports CarrierRun
begin

text \<open>
  The start of a carrier: \<^verbatim>\<open>IOEX_new\<close> builds the table of friends from the friend list of Tox, and restores the labels
  from the data file. From there on the runs of theory \<open>CarrierRun\<close> apply.
\<close>

subsection \<open>The friends of Tox\<close>

text \<open>What Tox tells about the friends in its list; a description is empty or one that a carrier has set.\<close>

definition friends_law :: "carrier_env \<Rightarrow> dht_view \<Rightarrow> bool" where
  "friends_law env D \<longleftrightarrow> (\<forall>tr. set (tox_self_get_friend_list (ce_tox env) tr) = ran (D tr))
     \<and> (\<forall>tr key n. D tr key = Some n \<longrightarrow>
          tox_friend_get_status_message_size (ce_tox env) tr n = TOX_ERR_FRIEND_QUERY_OK
          \<and> (\<exists>desc err. tox_friend_get_status_message (ce_tox env) tr n = (desc, True, err) \<and> (desc = [] \<or> desc_ok env desc))
          \<and> snd (tox_friend_get_status (ce_tox env) tr n) = TOX_ERR_FRIEND_QUERY_OK
          \<and> (\<exists>err. tox_friend_get_public_key (ce_tox env) tr n = (key, True, err)))"

definition fresh_friend :: "dht_view \<Rightarrow> carrier_event list \<Rightarrow> u32 \<Rightarrow> FriendInfo \<Rightarrow> bool" where
  "fresh_friend D tr n fi \<longleftrightarrow> (\<exists>key. D tr key = Some n \<and> friend_id fi = b58 key) \<and> friend_number fi = n \<and> friend_info_ok (fi_info fi)
     \<and> fi_label (fi_info fi) = []"

lemma presence_range: "IOEXPresenceStatus_None \<le> get_presence_status st" "get_presence_status st \<le> IOEXPresenceStatus_Busy"
  by (simp_all add: get_presence_status_def IOEXPresenceStatus_None_def IOEXPresenceStatus_Busy_def)

lemma friends_iterate_ok:
  assumes law: "dht_law env D" and fo: "friends_ok beyond (w_friends w)" and key: "D (w_trace w) key = Some n"
    and desc: "desc = [] \<or> desc_ok env desc"
  obtains fr fi where "friends_iterate_cb env n key st desc w = Some (True, w\<lparr>w_friends := fr\<rparr>)" "friends_ok beyond fr"
    "ot_map fr = (ot_map (w_friends w))(friend_key n \<mapsto> fi)" "fresh_friend D (w_trace w) n fi"
proof -
  have k: "length key = 32" "unat n < 2 ^ 16" using dht_lawD(4,5) [OF law key] by simp_all
  let ?ui = "empty_user_info\<lparr>ui_userid := b58 key\<rparr>"
  have u0: "user_info_ok ?ui" using key_text_length [OF k(1)] by (simp add: user_info_ok_def empty_user_info_def IOEX_MAX_ID_LEN_def)
  have "\<exists>ui c. (if desc \<noteq> [] then unpack_user_desc env desc ?ui else Some (Some (?ui, False))) = Some (Some (ui, c))
      \<and> user_info_ok ui \<and> ui_userid ui = b58 key"
    using unpack_desc [of desc env, OF _ _ u0] desc u0 by (cases "desc = []") auto
  then obtain ui c where u: "(if desc \<noteq> [] then unpack_user_desc env desc ?ui else Some (Some (?ui, False))) = Some (Some (ui, c))"
    "user_info_ok ui" "ui_userid ui = b58 key" by blast
  let ?fi = "\<lparr>friend_number = n, fi_info = \<lparr>fi_user_info = ui, fi_label = [], fi_status = IOEXConnectionStatus_Disconnected,
    fi_presence = get_presence_status st\<rparr>\<rparr>"
  have o: "fr.ot_ok beyond (w_friends w)" using fo by (simp add: friends_ok_def)
  have room: "length (ht_lst (ot_table (w_friends w))) + 1 < 2 ^ 63" using friends_few [OF fo] by (simp add: ot_list_def)
  from fr.ot_put_new [OF o small_key [OF k(2)] room, of ?fi] obtain a t1 t2 t3 where
    p: "rc_alloc ?fi (w_friends w) = (a, t1)" "ot_put (friend_key n) a t1 = Some t2" "rc_deref a t2 = Some t3"
      "fr.ot_ok beyond t3" "ot_map t3 = (ot_map (w_friends w))(friend_key n \<mapsto> ?fi)" by metis
  have "friends_put a t1 = Some t2" using rc_alloc_read [OF p(1)] p(2) by (simp add: friends_put_def)
  then have 1: "friends_iterate_cb env n key st desc w = Some (True, w\<lparr>w_friends := t3\<rparr>)"
    unfolding friends_iterate_cb_def encode_key [OF k(1)] Let_def bind.bind_lunit u(1) using small_not_max [OF k(2)] p(1,3) by simp
  have "friends_ok beyond t3" using fo p(4,5) by (auto simp: friends_ok_def is_cstring_def)
  moreover have "fresh_friend D (w_trace w) n ?fi" using key u(2,3) presence_range by (auto simp: fresh_friend_def friend_info_ok_def)
  ultimately show thesis using that [OF 1 _ p(5)] by blast
qed

lemma dht_friends_loaded:
  assumes law: "dht_law env D" and fl: "friends_law env D" and fo: "friends_ok beyond (w_friends w)"
    and ns: "\<forall>n \<in> set ns. n \<in> ran (D (w_trace w))"
  shows "\<exists>fr. get_friends_loop (ce_tox env) (w_trace w) (friends_iterate_cb env) ns w = Some (0, w\<lparr>w_friends := fr\<rparr>) \<and> friends_ok beyond fr
    \<and> (\<forall>m. m \<notin> set ns \<longrightarrow> friend_at fr m = friend_at (w_friends w) m)
    \<and> (\<forall>m \<in> set ns. \<exists>fi. friend_at fr m = Some fi \<and> fresh_friend D (w_trace w) m fi)"
  using fo ns
proof (induction ns arbitrary: w)
  case (Cons n ns)
  then obtain key where key: "D (w_trace w) key = Some n" by (auto simp: ran_def)
  with fl obtain desc err st err2 where
    t: "tox_friend_get_status_message_size (ce_tox env) (w_trace w) n = TOX_ERR_FRIEND_QUERY_OK"
      "tox_friend_get_status_message (ce_tox env) (w_trace w) n = (desc, True, err)" "desc = [] \<or> desc_ok env desc"
      "tox_friend_get_status (ce_tox env) (w_trace w) n = (st, TOX_ERR_FRIEND_QUERY_OK)"
      "tox_friend_get_public_key (ce_tox env) (w_trace w) n = (key, True, err2)"
    unfolding friends_law_def by (metis prod.collapse)
  from friends_iterate_ok [OF law Cons.prems(1) key t(3), of st] obtain fr fi where
    1: "friends_iterate_cb env n key st desc w = Some (True, w\<lparr>w_friends := fr\<rparr>)" "friends_ok beyond fr"
      "ot_map fr = (ot_map (w_friends w))(friend_key n \<mapsto> fi)" "fresh_friend D (w_trace w) n fi" by blast
  have at: "friend_at fr m = (if m = n then Some fi else friend_at (w_friends w) m)" for m using 1(3) by (simp add: friend_at_def)
  from Cons.IH [of "w\<lparr>w_friends := fr\<rparr>"] 1(2) Cons.prems(2) obtain fr2 where
    2: "get_friends_loop (ce_tox env) (w_trace w) (friends_iterate_cb env) ns (w\<lparr>w_friends := fr\<rparr>) = Some (0, w\<lparr>w_friends := fr2\<rparr>)"
      "friends_ok beyond fr2" "\<forall>m. m \<notin> set ns \<longrightarrow> friend_at fr2 m = friend_at fr m"
      "\<forall>m \<in> set ns. \<exists>fi. friend_at fr2 m = Some fi \<and> fresh_friend D (w_trace w) m fi" by auto
  have 3: "get_friends_loop (ce_tox env) (w_trace w) (friends_iterate_cb env) (n # ns) w = Some (0, w\<lparr>w_friends := fr2\<rparr>)"
    using t 1(1) 2(1) by simp
  have "\<exists>fi. friend_at fr2 m = Some fi \<and> fresh_friend D (w_trace w) m fi" if "m \<in> set (n # ns)" for m
    using that 2(3,4) 1(4) by (cases "m \<in> set ns") (auto simp: at)
  moreover have "friend_at fr2 m = friend_at (w_friends w) m" if "m \<notin> set (n # ns)" for m using that 2(3) by (simp add: at)
  ultimately show ?case using 3 2(2) by blast
next
  case Nil
  then show ?case by (intro exI [of _ "w_friends w"]) simp
qed

text \<open>A table of fresh friends for exactly the numbers of Tox, with labels put on, agrees with the list of Tox.\<close>

lemma labelled_in_sync:
  assumes law: "dht_law env D" and fr: "friends_ok beyond fr" and fresh: "\<And>m fi. friend_at fr m = Some fi \<Longrightarrow> fresh_friend D tr m fi"
    and all: "\<And>key m. D tr key = Some m \<Longrightarrow> friend_at fr m \<noteq> None"
    and fr': "fr.ot_ok beyond fr'" "ot_map fr' = fold relabel fis (ot_map fr)" and fis: "\<forall>fi \<in> set fis. good_label fi"
    and w: "w_friends w = fr'" "w_trace w = tr" "tcallbacks_ok (w_tcallbacks w)" "thistory_ok (w_thistory w)" "user_info_ok (w_me w)"
  shows "carrier_ok beyond D w"
proof -
  have lab: "\<exists>g. ot_map fr k = Some g \<and> friend_number x = friend_number g \<and> friend_id x = friend_id g \<and> friend_info_ok (fi_info x) = friend_info_ok (fi_info g)
      \<and> (is_cstring (fi_label (fi_info g)) \<and> length (fi_label (fi_info g)) < 64 \<longrightarrow> is_cstring (fi_label (fi_info x)) \<and> length (fi_label (fi_info x)) < 64)"
    if "ot_map fr' k = Some x" for k x
    using fold_relabel_range [OF that [unfolded fr'(2)]] fis by (auto simp: set_label_def friend_info_ok_def good_label_def)
  have "friends_ok beyond fr'"
    unfolding friends_ok_def
  proof (intro conjI fr'(1) allI impI)
    fix k x assume x: "ot_map fr' k = Some x"
    then obtain g where g: "ot_map fr k = Some g" "friend_number x = friend_number g"
      "is_cstring (fi_label (fi_info g)) \<and> length (fi_label (fi_info g)) < 64 \<longrightarrow> is_cstring (fi_label (fi_info x)) \<and> length (fi_label (fi_info x)) < 64"
      using lab by blast
    with fr show "k = friend_key (friend_number x)" "is_cstring (fi_label (fi_info x))" "length (fi_label (fi_info x)) < 64"
      by (simp_all add: friends_ok_def)
  qed
  moreover have at: "\<exists>g. friend_at fr m = Some g \<and> friend_id x = friend_id g \<and> friend_info_ok (fi_info x)" if "friend_at fr' m = Some x" for m x
    using lab [OF that [unfolded friend_at_def]] fresh by (auto simp: friend_at_def fresh_friend_def)
  moreover have "in_sync D w"
    unfolding in_sync_def w
  proof (intro conjI allI impI)
    fix m x assume "friend_at fr' m = Some x"
    from at [OF this] obtain g where g: "friend_at fr m = Some g" "friend_id x = friend_id g" by blast
    show "\<exists>key. D tr key = Some m \<and> friend_id x = b58 key" using fresh [OF g(1)] g(2) by (simp add: fresh_friend_def)
  next
    fix key m assume "D tr key = Some m"
    then show "friend_at fr' m \<noteq> None" using all fr'(2) by (auto simp: friend_at_def fold_relabel_dom)
  qed
  ultimately show ?thesis using w by (auto simp: carrier_ok_def)
qed

lemma tables_create_ok:
  "tcallbacks_ok (transacted_callbacks_create cap)" "thistory_ok (transaction_history_create cap)"
proof -
  show "tcallbacks_ok (transacted_callbacks_create cap)"
    using tc.ot_create_spec [where hc = "Some cid_hash_code" and kc = "Some cid_compare" and cap = cap and ?'a = TransactedCallback]
    by (simp add: tcallbacks_ok_def transacted_callbacks_create_def)
  show "thistory_ok (transaction_history_create cap)"
    using th.ot_create_spec [where hc = None and kc = "Some hid_compare" and cap = cap and ?'a = HistoryItem]
    by (simp add: thistory_ok_def transaction_history_create_def)
qed

text \<open>The stored labels, as entries that are put on any table of friends.\<close>

definition labels_of :: "(u8 list \<Rightarrow> u8 list \<Rightarrow> int) \<Rightarrow> persistence_data \<Rightarrow> FriendInfo list \<Rightarrow> bool" where
  "labels_of beyond d fis \<longleftrightarrow> (\<forall>fi \<in> set fis. good_label fi) \<and> (\<forall>fr. friends_ok beyond fr \<longrightarrow>
     (\<exists>fr'. apply_extra_data (extra_savedata d) (extra_savedata_len d) fr = Some fr' \<and> fr.ot_ok beyond fr'
        \<and> ot_map fr' = fold relabel fis (ot_map fr)))"

lemma no_labels: "labels_of beyond no_data []"
  by (simp add: labels_of_def no_data_def apply_extra_data.simps friends_ok_def)

lemma new_ok:
  assumes law: "dht_law env D" and env: "env_ok env" and fl: "friends_law env D"
    and loc: "opt_persistent_location opt = Some loc" "loc \<noteq> []" and nodes: "bootstrap_nodes (opt_bootstraps opt) = Some (Some bis)"
    and load: "load_persistence_data (ce_persist env) loc s = Some (loaded, s1)" "data = (case loaded of None \<Rightarrow> no_data | Some d \<Rightarrow> d)"
    and new: "dht_new (ce_tox env) (Some (take (dht_savedata_len data) (dht_savedata data))) (opt_udp_enabled opt) = 0"
    and lab: "labels_of beyond data fis"
  obtains w s2 fr where "IOEX_new env beyond (Some opt) callbacks s = Some (Inr w, s2)" "carrier_ok beyond D w"
    "ot_map (w_friends w) = fold relabel fis (ot_map fr)" "\<forall>key m. D [] key = Some m \<longrightarrow> (\<exists>fi. friend_at fr m = Some fi \<and> fresh_friend D [] m fi)"
proof -
  let ?w0 = "zero_carrier beyond loc (opt_udp_enabled opt) bis s1"
  obtain rc ad pk st desc where i: "dht_get_self_info (ce_tox env) (w_trace ?w0) = (rc, ad, pk, st, desc)" by (metis prod_cases5)
  then have a: "length ad = 38" "length pk = 32" "wire_ok env desc" "rc = 0"
    using env by (auto simp: dht_get_self_info_def env_ok_def address_sizes)
  have "user_info_ok (w_me ?w0)" by (simp add: zero_carrier_def user_info_ok_def empty_user_info_def)
  from get_self_info_eq [OF a(1-3) this, of st] obtain ui es where e: "get_self_info_cb env (ad, pk, st, desc) ?w0
      = Some (?w0\<lparr>w_address := ad, w_public_key := pk, w_base58_addr := b58 ad, w_me := ui,
          w_presence_status := get_presence_status st, w_trace := w_trace ?w0 @ es\<rparr>)" "user_info_ok ui" "\<forall>e \<in> set es. quiet e" by metis
  define w1 where "w1 = ?w0\<lparr>w_address := ad, w_public_key := pk, w_base58_addr := b58 ad, w_me := ui,
          w_presence_status := get_presence_status st, w_trace := w_trace ?w0 @ es\<rparr>"
  have w1: "get_self_info_cb env (ad, pk, st, desc) ?w0 = Some w1" "user_info_ok (w_me w1)" "w_friends w1 = friends_create beyond"
    "w_tcallbacks w1 = transacted_callbacks_create 32" "w_thistory w1 = transaction_history_create 32" "w_trace w1 = es"
    using e by (simp_all add: w1_def zero_carrier_def)
  have D1: "D (w_trace w1) = D []" using w1(6) quiet_events [OF law e(3), of "[]"] by simp
  let ?ns = "tox_self_get_friend_list (ce_tox env) (w_trace w1)"
  have ns: "set ?ns = ran (D (w_trace w1))" using fl by (simp add: friends_law_def)
  have "\<forall>n \<in> set ?ns. n \<in> ran (D (w_trace w1))" using ns by simp
  from dht_friends_loaded [OF law fl _ this, of beyond] friends_create_ok(1) w1(3) obtain fr where
    fr: "dht_get_friends (ce_tox env) (w_trace w1) (friends_iterate_cb env) w1 = Some (0, w1\<lparr>w_friends := fr\<rparr>)" "friends_ok beyond fr"
      "\<forall>m. m \<notin> set ?ns \<longrightarrow> friend_at fr m = None" "\<forall>m \<in> set ?ns. \<exists>fi. friend_at fr m = Some fi \<and> fresh_friend D (w_trace w1) m fi"
    using friends_create_ok(2) [of beyond] by (auto simp: dht_get_friends_def friend_at_def)
  from lab fr(2) obtain fr' where fr': "apply_extra_data (extra_savedata data) (extra_savedata_len data) fr = Some fr'" "fr.ot_ok beyond fr'"
      "ot_map fr' = fold relabel fis (ot_map fr)" "\<forall>fi \<in> set fis. good_label fi" unfolding labels_of_def by blast
  from save_data_eq [OF env, of beyond "w1\<lparr>w_friends := fr'\<rparr>"] fr'(2) obtain s2 where
    s2: "save_data env (w1\<lparr>w_friends := fr'\<rparr>) = Some (w1\<lparr>w_friends := fr', w_fs := s2\<rparr>)" by auto
  define w where "w = (case callbacks of None \<Rightarrow> w1\<lparr>w_friends := fr', w_fs := s2\<rparr> | Some cbs \<Rightarrow> w1\<lparr>w_friends := fr', w_fs := s2, w_callbacks := cbs\<rparr>)"
  have wf: "w_friends w = fr'" "w_trace w = w_trace w1" "w_me w = w_me w1" "w_tcallbacks w = w_tcallbacks w1" "w_thistory w = w_thistory w1"
    by (simp_all add: w_def split: option.split)
  have run: "IOEX_new env beyond (Some opt) callbacks s = Some (Inr w, w_fs w)"
    using loc nodes load(1) new i a(4) w1(1) fr(1) fr'(1) s2
    by (simp add: IOEX_new_def or_empty_def Let_def load(2) [symmetric] w_def split: option.split)
  have fresh: "fresh_friend D (w_trace w1) m fi" if "friend_at fr m = Some fi" for m fi
    using that fr(3,4) by (metis option.distinct(1) option.inject)
  have all: "friend_at fr m \<noteq> None" if "D (w_trace w1) key = Some m" for key m
    using fr(4) ns ranI [of "D (w_trace w1)" key m] that by (metis option.distinct(1))
  have "carrier_ok beyond D w"
    by (rule labelled_in_sync [OF law fr(2) fresh all fr'(2-4)]) (use wf w1 tables_create_ok in simp_all)
  moreover have "\<exists>fi. friend_at fr m = Some fi \<and> fresh_friend D [] m fi" if "D [] key = Some m" for key m
    using fr(4) ns ranI [of "D []" key m] that D1 by (auto simp: fresh_friend_def)
  ultimately show thesis using that [OF run _ fr'(3) [folded wf(1)]] by blast
qed

subsection \<open>Restarting\<close>

lemma stored_labels:
  assumes fr: "friends_ok beyond fr"
    and env: "pe_open env = (\<lambda>_. True)" "pe_write env = (\<lambda>n. n)" "pe_fsync env" "fst (mkdirs env loc s) = 0" "\<forall>bs. length (pe_sha256 env bs) = SHA256_BYTES"
    and sizes: "length dht \<le> MAX_PERSISTENCE_SECTION_SIZE" "length (label_bytes (ot_list fr)) \<le> MAX_PERSISTENCE_SECTION_SIZE"
  obtains s' d where "store_persistence_data env loc dht fr s = Some (0, fr, s')" "load_persistence_data env loc s' = Some (Some d, s')"
    "take (dht_savedata_len d) (dht_savedata d) = dht" "labels_of beyond d (ot_list fr)"
proof -
  from store_then_load [OF fr friends_create_ok(1) env sizes] obtain s' d where
    1: "store_persistence_data env loc dht fr s = Some (0, fr, s')" "load_persistence_data env loc s' = Some (Some d, s')"
      "take (dht_savedata_len d) (dht_savedata d) = dht" by metis
  have "\<exists>fr'. apply_extra_data (extra_savedata d) (extra_savedata_len d) fr0 = Some fr' \<and> fr.ot_ok beyond fr'
      \<and> ot_map fr' = fold relabel (ot_list fr) (ot_map fr0)" if "friends_ok beyond fr0" for fr0
    using store_then_load [OF fr that env sizes] 1 by (metis Pair_inject option.inject)
  then show thesis using that [OF 1] friends_ok_labels [OF fr] by (auto simp: labels_of_def)
qed



subsection \<open>A Tox with at most one friend\<close>

fun demo_step :: "carrier_event \<Rightarrow> u8 list option \<Rightarrow> u8 list option" where
  "demo_step (Dht_friend_add addr d) st = (if st = None \<and> 32 \<le> length addr then Some (take 32 addr) else st)"
| "demo_step (Dht_friend_add_norequest key) st = (if st = None \<and> length key = 32 then Some key else st)"
| "demo_step (Dht_friend_delete n) st = (if n = 0 then None else st)"
| "demo_step _ st = st"

definition demo_list :: "u8 list option \<Rightarrow> carrier_event list \<Rightarrow> u8 list option" where
  "demo_list init tr = fold demo_step tr init"

definition demo_D :: "u8 list option \<Rightarrow> dht_view" where
  "demo_D init tr = (case demo_list init tr of None \<Rightarrow> Map.empty | Some key \<Rightarrow> [key \<mapsto> 0])"

definition demo_tox :: "u8 list option \<Rightarrow> carrier_event list tox" where
  "demo_tox init =
     \<lparr>tox_new = (\<lambda>_ _. (True, TOX_ERR_NEW_OK)),
      tox_bootstrap = (\<lambda>_ _ _ _. (True, TOX_ERR_BOOTSTRAP_OK)),
      tox_add_tcp_relay = (\<lambda>_ _ _ _. (True, TOX_ERR_BOOTSTRAP_OK)),
      tox_self_get_nospam = (\<lambda>_. 0),
      tox_self_get_status = (\<lambda>_. 0),
      tox_self_get_address = (\<lambda>_. replicate 38 7),
      tox_self_get_public_key = (\<lambda>_. replicate 32 7),
      tox_self_get_status_message = (\<lambda>_. []),
      tox_self_get_friend_list = (\<lambda>tr. case demo_list init tr of None \<Rightarrow> [] | Some _ \<Rightarrow> [0]),
      tox_friend_get_status_message_size = (\<lambda>_ _. TOX_ERR_FRIEND_QUERY_OK),
      tox_friend_get_status_message = (\<lambda>_ _. ([], True, TOX_ERR_FRIEND_QUERY_OK)),
      tox_friend_get_status = (\<lambda>_ _. (0, TOX_ERR_FRIEND_QUERY_OK)),
      tox_friend_get_public_key = (\<lambda>tr _. (case demo_list init tr of None \<Rightarrow> [] | Some key \<Rightarrow> key, demo_list init tr \<noteq> None, TOX_ERR_FRIEND_GET_PUBLIC_KEY_OK)),
      tox_get_savedata = (\<lambda>_. [1, 2]),
      tox_self_get_secret_key = (\<lambda>_. replicate 32 9),
      tox_self_get_random_tcp_relay = (\<lambda>_ _. (-1, [], [])),
      tox_iteration_interval = (\<lambda>_. 50),
      tox_iterate = (\<lambda>_. []),
      tox_self_set_name = (\<lambda>_ _. (True, TOX_ERR_SET_INFO_OK)),
      tox_self_set_status_message = (\<lambda>_ _. (True, TOX_ERR_SET_INFO_OK)),
      tox_friend_by_public_key = (\<lambda>tr key. if demo_list init tr = Some key then (0, TOX_ERR_FRIEND_BY_PUBLIC_KEY_OK)
        else (UINT32_MAX, TOX_ERR_FRIEND_BY_PUBLIC_KEY_NOT_FOUND)),
      tox_friend_add = (\<lambda>tr addr _. if demo_list init tr = None \<and> 32 \<le> length addr then (0, TOX_ERR_FRIEND_ADD_OK)
        else (UINT32_MAX, TOX_ERR_FRIEND_ADD_ALREADY_SENT)),
      tox_friend_add_norequest = (\<lambda>tr key. if demo_list init tr = None \<and> length key = 32 then (0, TOX_ERR_FRIEND_ADD_OK)
        else (UINT32_MAX, TOX_ERR_FRIEND_ADD_ALREADY_SENT)),
      tox_friend_send_message = (\<lambda>_ _ _. TOX_ERR_FRIEND_SEND_MESSAGE_OK),
      tox_friend_delete = (\<lambda>_ _. TOX_ERR_FRIEND_DELETE_OK),
      tox_file_send = (\<lambda>_ _ _ _. (0, TOX_ERR_FILE_SEND_OK)),
      tox_file_control = (\<lambda>_ _ _ _. TOX_ERR_FILE_CONTROL_OK),
      tox_file_seek = (\<lambda>_ _ _ _. TOX_ERR_FILE_SEEK_OK),
      tox_file_send_chunk = (\<lambda>_ _ _ _ _. TOX_ERR_FILE_SEND_CHUNK_OK)\<rparr>"

definition demo_env :: "u8 list option \<Rightarrow> carrier_env" where
  "demo_env init = \<lparr>ce_persist = demo_persist, ce_fb_write = (\<lambda>_. None), ce_fb_read = (\<lambda>_. None), ce_tox = demo_tox init,
     ce_time_rand = (\<lambda>_ _. 1), ce_stack = (\<lambda>_. []), ce_kill = (\<lambda>_. True)\<rparr>"

abbreviation demo_opts :: IOEXOptions where
  "demo_opts \<equiv> \<lparr>opt_persistent_location = Some [65], opt_udp_enabled = True, opt_bootstraps = []\<rparr>"

lemma demo_list_snoc [simp]: "demo_list init (tr @ [e]) = demo_step e (demo_list init tr)"
  by (simp add: demo_list_def)

lemma demo_key_length: "(\<And>key. init = Some key \<Longrightarrow> length key = 32) \<Longrightarrow> demo_list init tr = Some key \<Longrightarrow> length key = 32"
proof (induction tr arbitrary: key rule: rev_induct)
  case (snoc e tr)
  then show ?case by (cases e) (auto split: if_splits)
qed (simp add: demo_list_def)

lemma demo_quiet: "quiet e \<Longrightarrow> demo_step e st = st"
  by (cases e) simp_all

lemma demo_law:
  assumes "\<And>key. init = Some key \<Longrightarrow> length key = 32"
  shows "dht_law (demo_env init) (demo_D init)"
proof -
  have "friend_list (demo_D init tr)" for tr
    using demo_key_length [OF assms] by (auto simp: friend_list_def demo_D_def DHT_PUBLIC_KEY_SIZE_def split: option.splits if_splits)
  then show ?thesis
    unfolding dht_law_def
    by (auto simp: demo_D_def demo_env_def demo_tox_def demo_quiet tox_added_def DHT_PUBLIC_KEY_SIZE_def UINT32_MAX_def fun_eq_iff split: option.splits if_splits)
qed

lemma demo_env_ok: "env_ok (demo_env init)"
  by (simp add: env_ok_def demo_env_def demo_tox_def demo_persist_def SHA256_BYTES_def address_sizes wire_ok_def)

lemma demo_friends_law: "friends_law (demo_env init) (demo_D init)"
  by (auto simp: friends_law_def demo_D_def demo_env_def demo_tox_def ran_def split: option.splits if_splits)



end
