(* ===== verification/CarrierLoop.thy ===== *)
theory CarrierLoop
  imports CarrierStart
begin

text \<open>
  The main loop of a carrier: it ends when the application has called \<^verbatim>\<open>IOEX_kill\<close>, and the carrier is destroyed
  then and not before.
\<close>

subsection \<open>What the notifications leave alone\<close>

definition life :: "IOEXCarrier \<Rightarrow> bool \<times> bool \<times> nat" where
  "life w = (w_running w, w_quit w, w_refs w)"

lemma life_simps [simp]:
  "life (emit e w) = life w" "life (call_back c e w) = life w" "life (w\<lparr>w_friends := fr\<rparr>) = life w" "life (w\<lparr>w_tcallbacks := tc\<rparr>) = life w"
  "life (w\<lparr>w_thistory := th\<rparr>) = life w" "life (w\<lparr>w_fs := s\<rparr>) = life w" "life (w\<lparr>w_file_senders := fts\<rparr>) = life w"
  "life (w\<lparr>w_file_receivers := fts\<rparr>) = life w" "life (w\<lparr>w_is_ready := b\<rparr>) = life w" "life (w\<lparr>w_connection_status := st\<rparr>) = life w"
  "life (w\<lparr>w_friend_events := es\<rparr>) = life w" "life (IOEX_set_error err w) = life w" "life (set_not_exist w) = life w" "life (set_no_tracker w) = life w"
  by (simp_all add: life_def emit_def call_back_def IOEX_set_error_def set_not_exist_def set_no_tracker_def)

text \<open>A computation that can only end in a carrier with the given fields, and how such computations are composed.\<close>

definition stays :: "bool \<times> bool \<times> nat \<Rightarrow> IOEXCarrier option \<Rightarrow> bool" where
  "stays l m \<longleftrightarrow> (\<forall>w. m = Some w \<longrightarrow> life w = l)"

lemma stays_simps [simp]: "stays l (Some w) \<longleftrightarrow> life w = l" "stays l None"
  by (simp_all add: stays_def)

lemma stays_bind: "(\<And>x. stays l (g x)) \<Longrightarrow> stays l (Option.bind m g)"
  by (cases m) simp_all

lemmas stays_bind_value = stays_bind [where ?'a = unit] stays_bind [where ?'a = friends] stays_bind [where ?'a = FriendInfo] stays_bind [where ?'a = "u8 list"]
  stays_bind [where ?'a = bool] stays_bind [where ?'a = "(IOEXUserInfo \<times> bool) option"] stays_bind [where ?'a = "IOEXUserInfo \<times> bool"]

lemma stays_then: "stays l m \<Longrightarrow> (\<And>w. life w = l \<Longrightarrow> stays l (g w)) \<Longrightarrow> stays l (Option.bind m g)"
  by (cases m) simp_all

lemma stays_userid:
  assumes "\<And>r w'. life w' = life w \<Longrightarrow> stays l (g (r, w'))"
  shows "stays l (Option.bind (friend_userid n w) g)"
proof -
  have "life w' = life w" if "friend_userid n w = Some (r, w')" for r w'
    using that by (auto simp: friend_userid_def bind_Some split: option.splits)
  with assms show ?thesis by (cases "friend_userid n w") auto
qed

lemma stays_with_friend:
  assumes "\<And>w. life (unknown w) = life w" and "\<And>userid w'. life w' = life w \<Longrightarrow> stays (life w) (k userid w')"
  shows "stays (life w) (with_friend n w unknown k)"
  unfolding with_friend_def
  by (intro stays_bind) (auto simp: assms split: option.split intro!: stays_bind)

lemma stays_connection: "stays (life w) (notify_friend_connection_cb n connected w)"
  unfolding notify_friend_connection_cb_def
  by (intro stays_bind) (auto simp: notify_friend_connection_def split: option.split intro!: stays_bind_value stays_then)

lemma stays_status: "stays (life w) (notify_friend_status_cb n status w)"
  unfolding notify_friend_status_cb_def
  by (intro stays_bind) (auto simp: notify_friend_presence_def split: option.split intro!: stays_bind_value stays_then)

lemma stays_description: "stays (life w) (notify_friend_description_cb env n desc w)"
  unfolding notify_friend_description_cb_def
  by (intro stays_bind) (auto simp: notify_friend_info_def Let_def split: option.split intro!: stays_bind_value stays_then)

lemma stays_request: "stays (life w) (notify_friend_request_cb env public_key hello w)"
  unfolding notify_friend_request_cb_def
  by (intro stays_bind) (auto simp: Let_def split: option.split prod.split intro!: stays_bind)

lemma stays_handlers:
  "stays (life w) (handle_friend_message n cp w)" "stays (life w) (handle_invite_request n cp w)" "stays (life w) (handle_invite_response n cp w)"
  unfolding handle_friend_message_def handle_invite_request_def handle_invite_response_def
  by (intro stays_bind stays_userid; auto simp: Let_def split: option.split intro!: stays_bind)+

lemma stays_message: "stays (life w) (notify_friend_message_cb env n message w)"
  unfolding notify_friend_message_cb_def by (intro stays_bind) (auto simp: Let_def stays_handlers split: option.split)

lemma stays_trackers:
  "stays (life w) (remove_file_sender n f w)" "stays (life w) (remove_file_receiver n f w)" "stays (life w) (drop_transfer n f w)"
  "stays (life w) (add_new_file_receiver n f name w)"
  unfolding remove_file_sender_def remove_file_receiver_def drop_transfer_def add_new_file_receiver_def
  by (auto simp: Let_def split: option.split intro!: stays_bind)

lemma stays_trackers_at: "life w = l \<Longrightarrow> stays l (remove_file_sender n f w)" "life w = l \<Longrightarrow> stays l (remove_file_receiver n f w)"
  "life w = l \<Longrightarrow> stays l (drop_transfer n f w)" "life w = l \<Longrightarrow> stays l (add_new_file_receiver n f name w)"
  using stays_trackers by auto

lemma stays_files:
  "stays (life w) (notify_file_request_cb n f name filesize w)" "stays (life w) (notify_file_accepted_cb n f w)" "stays (life w) (notify_file_rejected_cb n f w)"
  "stays (life w) (notify_file_paused_cb n f w)" "stays (life w) (notify_file_resumed_cb n f w)" "stays (life w) (notify_file_canceled_cb n f w)"
  unfolding notify_file_request_cb_def notify_file_accepted_cb_def notify_file_rejected_cb_def notify_file_paused_cb_def
    notify_file_resumed_cb_def notify_file_canceled_cb_def
  by (rule stays_with_friend; auto simp: Let_def intro!: stays_then stays_trackers_at)+

lemma stays_chunks:
  "stays (life w) (notify_file_chunk_request_cb env n f position len w)" "stays (life w) (notify_file_chunk_receive_cb env n f position data w)"
  unfolding notify_file_chunk_request_cb_def notify_file_chunk_receive_cb_def Let_def
  by (rule stays_with_friend; (simp; fail | rule stays_bind, rule stays_then, simp add: stays_trackers_at,
      auto split: option.split intro!: stays_bind))+

lemma notify_life: "stays (life w) (dht_notify env nt w)"
  by (cases nt) (simp_all add: dht_notify_def stays_connection stays_status stays_description stays_request stays_message stays_files stays_chunks
    notify_connection_cb_def Let_def)

lemma notify_all_life: "life w = l \<Longrightarrow> stays l (dht_notify_all env nts w)"
  by (induction nts arbitrary: w) (auto intro!: stays_then notify_life)

lemma do_events_life: "life (do_friend_events w) = life w"
proof -
  have e: "life (do_friend_event ev v) = life v" for ev v by (simp add: do_friend_event_def Let_def split: FriendEventType.split)
  have "life (do_events_loop evs v) = life v" for evs v by (induction evs arbitrary: v) (simp_all add: e)
  then show ?thesis by (simp add: do_friend_events_def)
qed

lemma turn_start_life: "life (turn_start env interval w) = life w"
  by (simp add: turn_start_def Let_def notify_idle_def do_events_life)

lemma run_turn_life: "run_turn env interval w = Some w' \<Longrightarrow> life w' = life w"
  using notify_all_life [of "emit Dht_iterate (turn_start env interval w)" "life w"] turn_start_life [of env interval w]
  by (simp add: run_turn_def Let_def stays_def)

subsection \<open>The states of the loop\<close>

text \<open>The carrier at the beginning of the turn with the given number.\<close>

inductive loop_state :: "carrier_env \<Rightarrow> int \<Rightarrow> IOEXCarrier \<Rightarrow> nat \<Rightarrow> IOEXCarrier \<Rightarrow> bool" for env interval w0 where
  first: "loop_state env interval w0 0 w0"
| turn: "loop_state env interval w0 k w \<Longrightarrow> \<not> ce_kill env (w_trace w) \<Longrightarrow> run_turn env interval w = Some w' \<Longrightarrow> loop_state env interval w0 (Suc k) w'"

inductive_simps loop_state_0 [simp]: "loop_state env interval w0 0 w"
inductive_cases loop_state_Suc: "loop_state env interval w0 (Suc k) w"

text \<open>Tox keeps its contract in the turn that begins with this carrier.\<close>

definition turn_ok :: "carrier_env \<Rightarrow> int \<Rightarrow> IOEXCarrier \<Rightarrow> bool" where
  "turn_ok env interval w \<longleftrightarrow>
     (let w1 = turn_start env interval w in calls_ok env (map Tox_calls (tox_iterate (ce_tox env) (w_trace w1))) (emit Dht_iterate w1))"

lemma notifications_are_calls: "dht_notify_all env (concat (map dht_callback cbs)) w = run_calls env (map Tox_calls cbs) w"
proof (induction cbs arbitrary: w)
  case (Cons cb cbs)
  have "dht_notify_all env (concat (map dht_callback cbs)) = run_calls env (map Tox_calls cbs)" using Cons by blast
  then show ?case by (simp add: notify_all_append run_call_def)
qed simp

lemma turn_start_ok:
  assumes law: "dht_law env D" and ok: "carrier_ok beyond D w"
  shows "carrier_ok beyond D (turn_start env interval w)"
  using do_events_ok [OF law ok] by (simp add: turn_start_def Let_def notify_idle_def carrier_ok_event [OF law])

lemma run_turn_ok:
  assumes law: "dht_law env D" and env: "env_ok env" and ok: "carrier_ok beyond D w" and t: "turn_ok env interval w"
  shows "\<exists>w'. run_turn env interval w = Some w' \<and> carrier_ok beyond D w' \<and> life w' = life w"
proof -
  let ?w = "emit Dht_iterate (turn_start env interval w)"
  have "carrier_ok beyond D ?w" using turn_start_ok [OF law ok] by (simp add: carrier_ok_event [OF law])
  from run_calls_keep [OF law env this] t obtain w' where
    "run_calls env (map Tox_calls (tox_iterate (ce_tox env) (w_trace (turn_start env interval w)))) ?w = Some w'" "carrier_ok beyond D w'"
    by (auto simp: turn_ok_def Let_def wp_def)
  then have "run_turn env interval w = Some w'" by (simp add: run_turn_def Let_def dht_iterate_def notifications_are_calls)
  with \<open>carrier_ok beyond D w'\<close> run_turn_life show ?thesis by blast
qed

lemma run_loop_returns:
  assumes law: "dht_law env D" and env: "env_ok env" and ok: "carrier_ok beyond D w" and l: "life w = (True, False, refs)" "refs > 1"
    and turns: "\<And>k w'. loop_state env interval w k w' \<Longrightarrow> turn_ok env interval w'"
    and kill: "\<And>w'. loop_state env interval w k w' \<Longrightarrow> ce_kill env (w_trace w')"
  shows "\<exists>w'. run_loop env interval w = Some w' \<and> carrier_ok beyond D w' \<and> life w' = (True, True, refs - 1)"
proof -
  have "\<exists>w'. run_loop env interval v = Some w' \<and> carrier_ok beyond D w' \<and> life w' = (True, True, refs - 1)"
    if "loop_state env interval w j v" "j \<le> k" "carrier_ok beyond D v" "life v = (True, False, refs)" for j v
    using that
  proof (induction "k - j" arbitrary: j v)
    case (0 j v)
    then have "ce_kill env (w_trace v)" using kill by simp
    with 0 l(2) show ?case by (subst run_loop.simps) (simp add: IOEX_kill_def carrier_deref_def life_def)
  next
    case (Suc d j v)
    show ?case
    proof (cases "ce_kill env (w_trace v)")
      case True
      with Suc.prems l(2) show ?thesis by (subst run_loop.simps) (simp add: IOEX_kill_def carrier_deref_def life_def)
    next
      case False
      from run_turn_ok [OF law env Suc.prems(3) turns [OF Suc.prems(1)]] obtain v' where
        v': "run_turn env interval v = Some v'" "carrier_ok beyond D v'" "life v' = life v" by blast
      have "d = k - Suc j" "Suc j \<le> k" using Suc.hyps(2) by simp_all
      from Suc.hyps(1) [OF this(1) loop_state.turn [OF Suc.prems(1) False v'(1)] this(2) v'(2)] v' Suc.prems(4) False show ?thesis
        by (subst run_loop.simps) (simp add: life_def)
    qed
  qed
  from this [OF loop_state.first _ ok l(1)] show ?thesis by simp
qed

subsection \<open>A run from beginning to end\<close>

text \<open>At the beginning every friend is reported once, in the order of the table, and then the end of the list.\<close>

lemma notify_friends_eq:
  assumes "fr.ot_ok beyond (w_friends w)"
  shows "notify_friends w = Some (w\<lparr>w_trace := w_trace w
    @ (if w_callbacks w CB_friend_list then map (\<lambda>fi. Friend_list (Some (fi_info fi))) (ot_list (w_friends w)) @ [Friend_list None] else [])\<rparr>)"
proof -
  let ?body = "\<lambda>fi w'. Some (Next, call_back CB_friend_list (Friend_list (Some (fi_info fi))) w')"
  have walk: "walk ?body fis v = Some (Next, v\<lparr>w_trace := w_trace v
      @ (if w_callbacks v CB_friend_list then map (\<lambda>fi. Friend_list (Some (fi_info fi))) fis else [])\<rparr>)" for fis v
    by (induction fis arbitrary: v) (simp_all add: call_back_def emit_def)
  from fr.ot_iterate_spec [OF assms walk loop_next.distinct(3)] show ?thesis
    by (simp add: notify_friends_def call_back_def emit_def)
qed

definition nodes_ok :: "BootstrapNodeBuf list \<Rightarrow> bool" where
  "nodes_ok bis \<longleftrightarrow> (\<forall>bi \<in> set bis. bn_port bi \<noteq> 0 \<and> (bn_ipv4 bi \<noteq> [] \<or> bn_ipv6 bi \<noteq> []) \<and> length (bn_public_key bi) = DHT_PUBLIC_KEY_SIZE)"

lemma bootstraps_loop_ok:
  assumes law: "dht_law env D" and "carrier_ok beyond D w" and "nodes_ok bis"
  shows "\<exists>w'. bootstraps_loop env bis w = Some w' \<and> carrier_ok beyond D w' \<and> life w' = life w"
  using assms(2,3)
proof (induction bis arbitrary: w)
  case (Cons bi bis)
  then have b: "length (bn_public_key bi) = 32" "bn_port bi \<noteq> 0" "bn_ipv4 bi \<noteq> [] \<or> bn_ipv6 bi \<noteq> []" "nodes_ok bis"
    by (simp_all add: nodes_ok_def DHT_PUBLIC_KEY_SIZE_def)
  have "uint (bn_port bi) > 0" using b(2) by (metis order_le_less uint_0_iff uint_ge_0)
  then have "\<exists>rc. dht_bootstrap (ce_tox env) (w_trace w) (bn_ipv4 bi) (bn_ipv6 bi) (uint (bn_port bi)) (bn_public_key bi) = Some rc"
    using b(3) by (simp add: dht_bootstrap_def split: option.split)
  then show ?case using Cons.IH [of "emit (Dht_bootstrap (bn_ipv4 bi) (bn_ipv6 bi) (bn_port bi) (bn_public_key bi)) w"] Cons.prems(1) b(4)
    by (auto simp: encode_key [OF b(1), simplified] carrier_ok_event [OF law])
qed simp

lemma run_start_ok:
  assumes law: "dht_law env D" and ok: "carrier_ok beyond D w" and nodes: "nodes_ok (w_bootstraps w)"
  shows "\<exists>w'. run_start env w = Some w' \<and> carrier_ok beyond D w' \<and> life w' = (True, w_quit w, w_refs w + 1)"
proof -
  have ok1: "carrier_ok beyond D (carrier_ref w)" using ok by (simp add: carrier_ref_def)
  from notify_friends_ok [OF law ok1] notify_friends_eq [OF carrier_ok_parts(2) [OF ok1]] obtain w1 where
    w1: "notify_friends (carrier_ref w) = Some w1" "carrier_ok beyond D w1" "w_bootstraps w1 = w_bootstraps w" "w_quit w1 = w_quit w" "w_refs w1 = w_refs w + 1"
    by (auto simp: wp_def carrier_ref_def)
  from bootstraps_loop_ok [OF law, of beyond "w1\<lparr>w_running := True\<rparr>" "w_bootstraps w"] w1 nodes show ?thesis
    by (auto simp: run_start_def connect_to_bootstraps_def life_def)
qed



end
