(* ===== verification/CarrierPeers.thy ===== *)
theory CarrierPeers
  imports CarrierStart
begin

text \<open>
  Two carriers that are friends of each other: what the application of one sends, the application of the other
  receives. Tox carries the bytes, so the receiver is called back with those that the sender handed over. The
  generated serialization is relied upon to read back what it wrote, possibly on another machine.
\<close>

subsection \<open>A carrier and one of its friends\<close>

text \<open>The friend with a key has a number in the DHT, and messages to it are accepted.\<close>

definition peer_ok :: "carrier_env \<Rightarrow> (u8 list \<Rightarrow> u8 list \<Rightarrow> int) \<Rightarrow> dht_view \<Rightarrow> IOEXCarrier \<Rightarrow> u8 list \<Rightarrow> u32 \<Rightarrow> bool" where
  "peer_ok env beyond D w key n \<longleftrightarrow> dht_law env D \<and> env_ok env \<and> carrier_ok beyond D w \<and> D (w_trace w) key = Some n \<and> w_is_ready w
     \<and> (\<forall>tr data. tox_friend_send_message (ce_tox env) tr n data = TOX_ERR_FRIEND_SEND_MESSAGE_OK)"

lemma b58_no_colon: "0x3a \<notin> set (b58 data)"
proof -
  have "0x3a \<notin> set b58digits_ordered" "length b58digits_ordered = 58" by (simp_all add: b58digits_ordered_bytes)
  then have "b58digits_ordered ! unat d \<noteq> 0x3a" if "unat d < 58" for d :: u8 using that nth_mem by metis
  then show ?thesis using digits58_props(1) [of "val256 data"] by (auto simp: b58_def b58_text_def ASCII_1_def)
qed

lemma parse_id [simp]: "parse_address (b58 key) = (b58 key, None)"
proof -
  have "takeWhile (\<lambda>c. c \<noteq> 0x3a) (b58 key) = b58 key" using b58_no_colon [of key] by (auto simp: takeWhile_eq_all_conv)
  then show ?thesis unfolding parse_address_def Let_def by (simp only:) simp
qed

lemma parse_extended [simp]: "parse_address (b58 key @ [0x3a] @ ext) = (b58 key, Some ext)"
proof -
  have "takeWhile (\<lambda>c. c \<noteq> 0x3a) (b58 key @ [0x3a] @ ext) = b58 key"
    using b58_no_colon [of key] by (subst takeWhile_append2) (auto intro: ccontr)
  then show ?thesis unfolding parse_address_def Let_def by (simp only:) simp
qed

lemma peer_friend:
  assumes "peer_ok env beyond D w key n"
  shows "unat n < 2 ^ 16" "length key = 32" "get_friend_number env w (b58 key) = Some (0, n)" "friends_exist n (w_friends w) = Some True"
    "friend_userid n w = Some (Some (b58 key), w)" "is_valid_key (b58 key) = Some True"
proof -
  have law: "dht_law env D" and ok: "carrier_ok beyond D w" and d: "D (w_trace w) key = Some n" using assms by (simp_all add: peer_ok_def)
  show n: "unat n < 2 ^ 16" using dht_lawD(5) [OF law d] .
  show k: "length key = 32" using dht_lawD(4) [OF law d] .
  then show "is_valid_key (b58 key) = Some True" by (rule is_valid_key_b58)
  show "get_friend_number env w (b58 key) = Some (0, n)"
    using decode_b58 [of key DHT_PUBLIC_KEY_SIZE] k dht_lawD(1) [OF law d] by (cases key) (simp_all add: get_friend_number_def address_sizes)
  obtain fi where fi: "friend_at (w_friends w) n = Some fi" using carrier_ok_parts(8) [OF ok] d unfolding in_sync_def by blast
  then show "friends_exist n (w_friends w) = Some True" using friends_exist_eq [OF ok n] by simp
  from friend_known(5) [OF ok fi] obtain key' where "D (w_trace w) key' = Some n" "friend_id fi = b58 key'" by blast
  with dht_lawD(6) [OF law _ d] fi friend_userid_eq [OF law ok n] show "friend_userid n w = Some (Some (b58 key), w)" by simp
qed

lemma peer_send:
  assumes "peer_ok env beyond D w key n" and "IOEXcp_encode (ce_fb_write env) cp = Some (Some bytes)" and "w_trace w' = w_trace w"
  shows "send_packet env n bytes w' = Some (0, emit (Dht_message n bytes) w')"
  using assms encoded_nonempty [of env cp bytes] small_not_max [OF peer_friend(1) [OF assms(1)]]
  by (simp add: peer_ok_def send_packet_def dht_friend_message_def)

text \<open>Events that do not change the list of friends, and changes of the other tables.\<close>

lemma peer_quiet:
  "peer_ok env beyond D w key n \<Longrightarrow> quiet e \<Longrightarrow> peer_ok env beyond D (emit e w) key n"
  by (simp add: peer_ok_def carrier_ok_emit [of env D] dht_lawD(3) [of env D], simp add: emit_def)

lemma peer_call_back:
  "peer_ok env beyond D w key n \<Longrightarrow> quiet e \<Longrightarrow> peer_ok env beyond D (call_back c e w) key n"
  by (simp add: call_back_def peer_quiet)

lemma peer_tables:
  "peer_ok env beyond D w key n \<Longrightarrow> tcallbacks_ok tc \<Longrightarrow> peer_ok env beyond D (w\<lparr>w_tcallbacks := tc\<rparr>) key n"
  "peer_ok env beyond D w key n \<Longrightarrow> thistory_ok th \<Longrightarrow> peer_ok env beyond D (w\<lparr>w_thistory := th\<rparr>) key n"
  by (simp_all add: peer_ok_def carrier_ok_tables)

subsection \<open>A message\<close>

text \<open>What comes out of the notification that Tox makes of a packet.\<close>

abbreviation tox_message :: "carrier_env \<Rightarrow> u32 \<Rightarrow> u8 list \<Rightarrow> IOEXCarrier \<Rightarrow> IOEXCarrier option" where
  "tox_message env n bytes \<equiv> dht_notify_all env (dht_callback (Friend_message_received n TOX_MESSAGE_TYPE_NORMAL bytes))"

lemma tox_message_eq: "tox_message env n bytes w = notify_friend_message_cb env n bytes w"
  by (simp add: dht_callback_def dht_notify_def)

lemma receive_message:
  assumes "peer_ok env beyond D w key n" and "IOEXcp_decode (ce_fb_read env) bytes = Some (Some \<lparr>cp_ext = ext, cp_pkt = pkt_fmsg \<lparr>fmsg_msg = msg\<rparr>\<rparr>)"
  shows "tox_message env n bytes w
    = Some (if ext = None then call_back CB_friend_message (Friend_message (b58 key) msg) w else w)"
  using assms(2) peer_friend(5) [OF assms(1)] small_not_max [OF peer_friend(1) [OF assms(1)]]
  by (simp add: tox_message_eq notify_friend_message_cb_def handle_friend_message_def cp_get cp_types)

lemma send_message:
  assumes p: "peer_ok env beyond D w key n" and h: "(to = b58 key \<and> ext = None) \<or> (\<exists>e. ext = Some e \<and> to = b58 key @ [0x3a] @ e \<and> length e \<le> IOEX_MAX_USER_NAME_LEN)"
    and "b58 key \<noteq> ui_userid (w_me w)" and "msg \<noteq> []" and "length msg \<le> IOEX_MAX_APP_MESSAGE_LEN"
    and "IOEXcp_encode (ce_fb_write env) \<lparr>cp_ext = ext, cp_pkt = pkt_fmsg \<lparr>fmsg_msg = Some msg\<rparr>\<rparr> = Some (Some bytes)"
  shows "IOEX_send_friend_message env (Some to) (Some msg) w = Some (0, emit (Dht_message n bytes) w)"
proof -
  have t: "parse_address to = (b58 key, ext)" "\<not> ext_too_long ext" using h by (auto simp: ext_too_long_def simp del: append_Cons append.simps)
  have "w_is_ready w" using p by (simp add: peer_ok_def)
  with t assms(3-6) peer_friend [OF p] peer_send [OF p assms(6), of w] show ?thesis
    by (simp add: IOEX_send_friend_message_def message_packet_eq)
qed

text \<open>C7. Messages arrive: what the application of one carrier sends to the identifier of a friend goes to Tox as one
  packet under the number of that friend, and when Tox hands these bytes to the other carrier under the number of the sender,
  its application is called back with the identifier of the sender and the same message, and nothing else changes.\<close>

theorem message_arrives:
  assumes A: "peer_ok envA bA DA wa kb nb" and B: "peer_ok envB bB DB wb ka na"
    and wire: "flatcc_law (ce_fb_write envA) (ce_fb_read envB)"
    and "b58 kb \<noteq> ui_userid (w_me wa)" and "msg \<noteq> []" and "length msg \<le> IOEX_MAX_APP_MESSAGE_LEN"
    and enc: "IOEXcp_encode (ce_fb_write envA) \<lparr>cp_ext = None, cp_pkt = pkt_fmsg \<lparr>fmsg_msg = Some msg\<rparr>\<rparr> = Some (Some bytes)"
  shows "IOEX_send_friend_message envA (Some (b58 kb)) (Some msg) wa = Some (0, emit (Dht_message nb bytes) wa)
    \<and> dht_notify_all envB (dht_callback (Friend_message_received na TOX_MESSAGE_TYPE_NORMAL bytes)) wb
      = Some (call_back CB_friend_message (Friend_message (b58 ka) (Some msg)) wb)"
proof -
  have "IOEXcp_decode (ce_fb_read envB) bytes = Some (Some \<lparr>cp_ext = None, cp_pkt = pkt_fmsg \<lparr>fmsg_msg = Some msg\<rparr>\<rparr>)"
    by (rule packet_decodes [OF wire _ enc]) (simp add: cp_complete_def)
  from receive_message [OF B this] send_message [OF A _ assms(4-6) enc] show ?thesis by simp
qed

subsection \<open>An invitation\<close>

text \<open>The packets of an invitation, and of an answer: with a status of 0 the answer carries data, otherwise a reason.\<close>

definition invite_cp :: "tid \<Rightarrow> u8 list \<Rightarrow> IOEXCP" where
  "invite_cp t data = \<lparr>cp_ext = None, cp_pkt = pkt_ireq \<lparr>ireq_tid = t, ireq_data = Some data\<rparr>\<rparr>"

definition reply_cp :: "tid \<Rightarrow> int \<Rightarrow> cstring \<Rightarrow> u8 list \<Rightarrow> IOEXCP" where
  "reply_cp t status reason data = \<lparr>cp_ext = None, cp_pkt = pkt_irsp
     (if status \<noteq> 0 then \<lparr>irsp_tid = t, irsp_status = status, irsp_reason = Some reason, irsp_data = None\<rparr>
      else \<lparr>irsp_tid = t, irsp_status = 0, irsp_reason = None, irsp_data = Some data\<rparr>)\<rparr>"

lemma invite_cps_complete: "cp_complete (invite_cp t data)" "cp_complete (reply_cp t status reason data)"
  by (simp_all add: cp_complete_def invite_cp_def reply_cp_def)

lemma send_invite:
  assumes p: "peer_ok env beyond D w key n" and room: "has_room (w_tcallbacks w)" and "data \<noteq> []" and "callback \<noteq> 0"
    and enc: "\<forall>t. \<exists>bytes. IOEXcp_encode (ce_fb_write env) (invite_cp t data) = Some (Some bytes)"
  obtains t bytes tc where "t \<noteq> 0" "IOEXcp_encode (ce_fb_write env) (invite_cp t data) = Some (Some bytes)" "tcallbacks_ok tc"
    "ot_map tc = (ot_map (w_tcallbacks w))(tid_key t \<mapsto> \<lparr>tcb_tid = t, tcb_callback_func = callback, tcb_callback_context = ctxt\<rparr>)"
    "IOEX_invite_friend env (Some (b58 key)) (Some data) callback ctxt w = Some (0, emit (Dht_message n bytes) (w\<lparr>w_tcallbacks := tc\<rparr>))"
proof -
  have h: "env_ok env" "carrier_ok beyond D w" "w_is_ready w" using p by (simp_all add: peer_ok_def)
  obtain t where t: "generate_tid env (w_trace w) 0 = Some t" "t \<noteq> 0" using generate_tid_ok [OF h(1)] by blast
  obtain bytes where b: "IOEXcp_encode (ce_fb_write env) (invite_cp t data) = Some (Some bytes)" using enc by blast
  let ?cb = "\<lparr>tcb_tid = t, tcb_callback_func = callback, tcb_callback_context = ctxt\<rparr>"
  from put_callback_ok [OF carrier_ok_parts(5) [OF h(2)] room, of ?cb] assms(4) obtain a tc1 tc2 tc3 where
    c: "rc_alloc ?cb (w_tcallbacks w) = (a, tc1)" "transacted_callbacks_put a tc1 = Some tc2" "rc_deref a tc2 = Some tc3" "tcallbacks_ok tc3"
      "ot_map tc3 = (ot_map (w_tcallbacks w))(tid_key t \<mapsto> ?cb)"
    by (metis TransactedCallback.select_convs(1,2))
  have "invite_packet None t data = Some (invite_cp t data)" using assms(3) by (simp add: invite_packet_eq invite_cp_def)
  with c h(3) t b assms(3,4) peer_friend [OF p] peer_send [OF p b, of "w\<lparr>w_tcallbacks := tc3\<rparr>"] show thesis
    by (intro that [OF t(2) b c(4,5)]) (simp add: IOEX_invite_friend_def ext_too_long_def)
qed

lemma id_short: "length key = 32 \<Longrightarrow> length (b58 key) + 3 < HISTORY_KEY_SIZE"
  using key_text_length [of key] by (simp add: HISTORY_KEY_SIZE_def IOEX_MAX_ID_LEN_def IOEX_MAX_EXTENSION_NAME_LEN_def)

lemma receive_invite:
  assumes p: "peer_ok env beyond D w key n" and room: "has_room (w_thistory w)" and t: "t \<noteq> 0"
    and dec: "IOEXcp_decode (ce_fb_read env) bytes = Some (Some (invite_cp t data))"
  obtains th where "thistory_ok th" "ot_map th = (ot_map (w_thistory w))(ir_key (b58 key) \<mapsto> \<lparr>hi_key = ir_key (b58 key), hi_tid = t\<rparr>)"
    "tox_message env n bytes w = Some (call_back CB_friend_invite (Friend_invite (b58 key) (Some data)) (w\<lparr>w_thistory := th\<rparr>))"
proof -
  have ok: "carrier_ok beyond D w" using p by (simp add: peer_ok_def)
  note f = peer_friend [OF p]
  have s: "invite_from (b58 key) None = Some (b58 key)" using id_short [OF f(2)] by (simp add: invite_from_def strcpy_into_Some)
  from put_invite_ok [OF carrier_ok_parts(6) [OF ok] room b58_cstring id_short [OF f(2)] t] obtain th where
    th: "tansaction_history_put_invite (b58 key) t (w_thistory w) = Some th" "thistory_ok th"
      "ot_map th = (ot_map (w_thistory w))(ir_key (b58 key) \<mapsto> \<lparr>hi_key = ir_key (b58 key), hi_tid = t\<rparr>)"
    unfolding ir_key_def by blast
  show thesis using that [OF th(2,3)] th(1) s dec f(5) small_not_max [OF f(1)]
    by (simp add: tox_message_eq notify_friend_message_cb_def handle_invite_request_def invite_cp_def cp_get cp_types)
qed

lemma send_reply:
  assumes p: "peer_ok env beyond D w key n" and hist: "ot_map (w_thistory w) (ir_key (b58 key)) = Some x" and "data \<noteq> []"
    and enc: "IOEXcp_encode (ce_fb_write env) (reply_cp (hi_tid x) status reason data) = Some (Some bytes)"
  obtains th where "thistory_ok th" "ot_map th = (ot_map (w_thistory w))(ir_key (b58 key) := None)"
    "IOEX_reply_friend_invite env (Some (b58 key)) status (Some reason) (Some data) w = Some (0, emit (Dht_message n bytes) (w\<lparr>w_thistory := th\<rparr>))"
proof -
  have ok: "carrier_ok beyond D w" and ready: "w_is_ready w" using p by (simp_all add: peer_ok_def)
  note f = peer_friend [OF p]
  note u = carrier_ok_parts(6) [OF ok] b58_cstring id_short [OF f(2)]
  have x: "hi_tid x \<noteq> 0" using u(1) hist by (auto simp: thistory_ok_def)
  have g: "transaction_history_get_invite (b58 key) (w_thistory w) = Some (hi_tid x, w_thistory w)" using get_invite_ok [OF u] hist by simp
  have r: "reply_packet None (hi_tid x) status (Some reason) (Some data) = Some (reply_cp (hi_tid x) status reason data)"
    using assms(3) by (cases "status = 0") (simp_all add: reply_packet_eq reply_cp_def)
  have ne: "b58 key \<noteq> []" using b58_nonempty [of key] f(2) by fastforce
  from remove_invite_ok [OF u] obtain th where th: "transaction_history_remove_invite (b58 key) (w_thistory w) = Some th" "thistory_ok th"
    "ot_map th = (ot_map (w_thistory w))(ir_key (b58 key) := None)" by blast
  from f ready x g r th(1) ne assms(3) enc peer_send [OF p enc, of w] show thesis
    by (intro that [OF th(2,3)]) (simp add: IOEX_reply_friend_invite_def ext_too_long_def)
qed

lemma receive_reply:
  assumes p: "peer_ok env beyond D w key n" and dec: "IOEXcp_decode (ce_fb_read env) bytes = Some (Some (reply_cp t status reason data))"
    and cb: "ot_map (w_tcallbacks w) (tid_key t) = Some cb"
  obtains tc where "tcallbacks_ok tc" "ot_map tc = (ot_map (w_tcallbacks w))(tid_key t := None)"
    "tox_message env n bytes w = Some (emit (Invite_response (tcb_callback_func cb) (tcb_callback_context cb) (b58 key) status
       (if status \<noteq> 0 then Some reason else None) (if status \<noteq> 0 then None else Some data)) (w\<lparr>w_tcallbacks := tc\<rparr>))"
proof -
  have ok: "carrier_ok beyond D w" using p by (simp add: peer_ok_def)
  note f = peer_friend [OF p]
  show thesis
  proof (cases rule: take_callback_ok [OF carrier_ok_parts(5) [OF ok], of t])
    case 1
    with cb show thesis by simp
  next
    case (2 a cb' tc1 tc3)
    with cb show thesis using that [OF 2(7,8)] dec f(5) small_not_max [OF f(1)]
      by (simp add: tox_message_eq notify_friend_message_cb_def handle_invite_response_def reply_cp_def cp_get cp_types)
  qed
qed

text \<open>An answer to a transaction that is not open has no effect.\<close>

lemma reply_ignored:
  assumes p: "peer_ok env beyond D w key n" and dec: "IOEXcp_decode (ce_fb_read env) bytes = Some (Some (reply_cp t status reason data))"
    and cb: "ot_map (w_tcallbacks w) (tid_key t) = None"
  shows "tox_message env n bytes w = Some w"
proof -
  have ok: "carrier_ok beyond D w" using p by (simp add: peer_ok_def)
  note f = peer_friend [OF p]
  show ?thesis
  proof (cases rule: take_callback_ok [OF carrier_ok_parts(5) [OF ok], of t])
    case 1
    then show ?thesis using dec f(5) small_not_max [OF f(1)]
      by (simp add: tox_message_eq notify_friend_message_cb_def handle_invite_response_def reply_cp_def cp_get cp_types)
  qed (use cb in simp)
qed

text \<open>C14. An invitation is answered exactly once: the invitation of one carrier reaches the application of the friend; the
  answer of that application reaches the callback which the inviting application had given, with its context, the identifier of the friend, the
  status and the data or the reason; and a second copy of the answer has no effect.\<close>

theorem invite_answered:
  assumes A: "peer_ok envA bA DA wa kb nb" and B: "peer_ok envB bB DB wb ka na"
    and wire: "flatcc_law (ce_fb_write envA) (ce_fb_read envB)" "flatcc_law (ce_fb_write envB) (ce_fb_read envA)"
    and room: "has_room (w_tcallbacks wa)" "has_room (w_thistory wb)"
    and args: "data \<noteq> []" "callback \<noteq> 0" "answer \<noteq> []"
    and enc: "\<forall>t. \<exists>bytes. IOEXcp_encode (ce_fb_write envA) (invite_cp t data) = Some (Some bytes)"
      "\<forall>t. \<exists>bytes. IOEXcp_encode (ce_fb_write envB) (reply_cp t status reason answer) = Some (Some bytes)"
  shows "\<exists>bytes1 bytes2 wa1 wb1 wb2 wa2.
      IOEX_invite_friend envA (Some (b58 kb)) (Some data) callback ctxt wa = Some (0, emit (Dht_message nb bytes1) wa1)
    \<and> dht_notify_all envB (dht_callback (Friend_message_received na TOX_MESSAGE_TYPE_NORMAL bytes1)) wb
        = Some (call_back CB_friend_invite (Friend_invite (b58 ka) (Some data)) wb1)
    \<and> IOEX_reply_friend_invite envB (Some (b58 ka)) status (Some reason) (Some answer) (call_back CB_friend_invite (Friend_invite (b58 ka) (Some data)) wb1)
        = Some (0, emit (Dht_message na bytes2) wb2)
    \<and> dht_notify_all envA (dht_callback (Friend_message_received nb TOX_MESSAGE_TYPE_NORMAL bytes2)) (emit (Dht_message nb bytes1) wa1)
        = Some (emit (Invite_response callback ctxt (b58 kb) status (if status \<noteq> 0 then Some reason else None) (if status \<noteq> 0 then None else Some answer)) wa2)
    \<and> dht_notify_all envA (dht_callback (Friend_message_received nb TOX_MESSAGE_TYPE_NORMAL bytes2))
        (emit (Invite_response callback ctxt (b58 kb) status (if status \<noteq> 0 then Some reason else None) (if status \<noteq> 0 then None else Some answer)) wa2)
        = Some (emit (Invite_response callback ctxt (b58 kb) status (if status \<noteq> 0 then Some reason else None) (if status \<noteq> 0 then None else Some answer)) wa2)"
proof -
  obtain t bytes1 tc where i: "t \<noteq> 0" "IOEXcp_encode (ce_fb_write envA) (invite_cp t data) = Some (Some bytes1)" "tcallbacks_ok tc"
    "ot_map tc = (ot_map (w_tcallbacks wa))(tid_key t \<mapsto> \<lparr>tcb_tid = t, tcb_callback_func = callback, tcb_callback_context = ctxt\<rparr>)"
    "IOEX_invite_friend envA (Some (b58 kb)) (Some data) callback ctxt wa = Some (0, emit (Dht_message nb bytes1) (wa\<lparr>w_tcallbacks := tc\<rparr>))"
    by (rule send_invite [OF A room(1) args(1,2) enc(1)])
  obtain th where r: "thistory_ok th" "ot_map th = (ot_map (w_thistory wb))(ir_key (b58 ka) \<mapsto> \<lparr>hi_key = ir_key (b58 ka), hi_tid = t\<rparr>)"
    "tox_message envB na bytes1 wb = Some (call_back CB_friend_invite (Friend_invite (b58 ka) (Some data)) (wb\<lparr>w_thistory := th\<rparr>))"
    by (rule receive_invite [OF B room(2) i(1) packet_decodes [OF wire(1) invite_cps_complete(1) i(2)]])
  define wb1 where "wb1 = call_back CB_friend_invite (Friend_invite (b58 ka) (Some data)) (wb\<lparr>w_thistory := th\<rparr>)"
  have B1: "peer_ok envB bB DB wb1 ka na" unfolding wb1_def by (rule peer_call_back [OF peer_tables(2) [OF B r(1)]]) simp
  have h1: "ot_map (w_thistory wb1) (ir_key (b58 ka)) = Some \<lparr>hi_key = ir_key (b58 ka), hi_tid = t\<rparr>" using r(2) by (simp add: wb1_def)
  obtain bytes2 where b2: "IOEXcp_encode (ce_fb_write envB) (reply_cp t status reason answer) = Some (Some bytes2)" using enc(2) by blast
  obtain th2 where s: "IOEX_reply_friend_invite envB (Some (b58 ka)) status (Some reason) (Some answer) wb1
      = Some (0, emit (Dht_message na bytes2) (wb1\<lparr>w_thistory := th2\<rparr>))"
    by (rule send_reply [OF B1 h1 args(3)]) (use b2 in simp_all)
  let ?wa1 = "emit (Dht_message nb bytes1) (wa\<lparr>w_tcallbacks := tc\<rparr>)"
  have A1: "peer_ok envA bA DA ?wa1 kb nb" by (rule peer_quiet [OF peer_tables(1) [OF A i(3)]]) simp
  note d2 = packet_decodes [OF wire(2) invite_cps_complete(2) b2]
  define e where "e = Invite_response callback ctxt (b58 kb) status (if status \<noteq> 0 then Some reason else None) (if status \<noteq> 0 then None else Some answer)"
  obtain tc2 where v: "tcallbacks_ok tc2" "ot_map tc2 (tid_key t) = None" "tox_message envA nb bytes2 ?wa1 = Some (emit e (?wa1\<lparr>w_tcallbacks := tc2\<rparr>))"
    by (rule receive_reply [OF A1 d2, of "\<lparr>tcb_tid = t, tcb_callback_func = callback, tcb_callback_context = ctxt\<rparr>"]) (use i(4) in \<open>simp_all add: e_def\<close>)
  have "peer_ok envA bA DA (emit e (?wa1\<lparr>w_tcallbacks := tc2\<rparr>)) kb nb" by (rule peer_quiet [OF peer_tables(1) [OF A1 v(1)]]) (simp add: e_def)
  from reply_ignored [OF this d2] v(2) have "tox_message envA nb bytes2 (emit e (?wa1\<lparr>w_tcallbacks := tc2\<rparr>)) = Some (emit e (?wa1\<lparr>w_tcallbacks := tc2\<rparr>))" by simp
  with i(5) r(3) s [unfolded wb1_def] v(3) show ?thesis unfolding e_def [symmetric] by blast
qed

subsection \<open>Two carriers with a simple wire format\<close>

fun wire_write :: fb_write where
  "wire_write (t, Friendmsg None (Some m)) = (if t = 33 then Some (1 # m) else None)"
| "wire_write (t, Invitereq None i (Some d)) = (if t = 34 then Some (2 # tid_key i @ d) else None)"
| "wire_write (t, Invitersp None i status reason d) =
     (if t = 35 \<and> status = 0 \<and> reason = None \<and> d \<noteq> None then Some (3 # tid_key i @ the d) else None)"
| "wire_write _ = None"

fun wire_read :: fb_read where
  "wire_read (b # bs) =
     (if b = 1 then Some (33, Some (Friendmsg None (Some bs)))
      else if b = 2 then Some (34, Some (Invitereq None (key_tid (take 8 bs)) (Some (drop 8 bs))))
      else if b = 3 then Some (35, Some (Invitersp None (key_tid (take 8 bs)) 0 None (Some (drop 8 bs))))
      else None)"
| "wire_read [] = None"

lemma wire_law: "flatcc_law wire_write wire_read"
proof -
  have "length (tid_key i) = 8" for i by (simp add: tid_key_def be_bytes_val(1))
  then have "wire_read bytes = Some (t, Some body)" if "wire_write (t, body) = Some bytes" for t body bytes
    using that by (cases "(t, body)" rule: wire_write.cases) (auto split: if_splits)
  then show ?thesis by (simp add: flatcc_law_def)
qed

definition peer_env :: "u8 list \<Rightarrow> carrier_env" where
  "peer_env key = (demo_env (Some key))\<lparr>ce_fb_write := wire_write, ce_fb_read := wire_read\<rparr>"

lemma wire_nonempty: "wire_write body \<noteq> Some []"
  by (cases body rule: wire_write.cases) auto

lemma demo_peer:
  assumes "length key = 32" and "length me = 32" and "me \<noteq> key"
  obtains w where "peer_ok (peer_env key) (\<lambda>_ _. 1) (demo_D (Some key)) w key 0" "has_room (w_tcallbacks w)" "has_room (w_thistory w)"
    "b58 key \<noteq> ui_userid (w_me w)" "w_callbacks w = (\<lambda>_. True)" "w_trace w = []"
    "w_file_senders w = []" "w_file_receivers w = []"
proof -
  let ?b = "\<lambda>_ _. 1 :: int"
  let ?fi = "\<lparr>friend_number = 0, fi_info = \<lparr>fi_user_info = empty_user_info\<lparr>ui_userid := b58 key\<rparr>, fi_label = [],
    fi_status = IOEXConnectionStatus_Disconnected, fi_presence = 0\<rparr>\<rparr>"
  obtain fr where fr: "friends_ok ?b fr" "friend_at fr = [0 \<mapsto> ?fi]"
    using single_friend [of ?fi ?b] by (auto simp: good_label_def is_cstring_def)
  let ?w = "(zero_carrier ?b [65] True [] demo_fs)\<lparr>w_friends := fr, w_is_ready := True, w_callbacks := (\<lambda>_. True)\<rparr>"
  have "friend_info_ok (fi_info ?fi)"
    using key_text_length [OF assms(1)] by (simp add: friend_info_ok_def user_info_ok_def empty_user_info_def IOEX_MAX_ID_LEN_def
      IOEXPresenceStatus_None_def IOEXPresenceStatus_Busy_def)
  then have ok: "carrier_ok ?b (demo_D (Some key)) ?w"
    using fr tables_create_ok by (auto simp: carrier_ok_def in_sync_def zero_carrier_def demo_D_def demo_list_def user_info_ok_def empty_user_info_def
      split: if_splits)
  have tox: "ce_tox (peer_env key) = ce_tox (demo_env (Some key))" by (simp add: peer_env_def)
  have law: "dht_law (peer_env key) (demo_D (Some key))" using demo_law [of "Some key"] assms(1) unfolding dht_law_def tox by blast
  have env: "env_ok (peer_env key)" using demo_env_ok [of "Some key"] wire_nonempty by (simp add: env_ok_def peer_env_def wire_ok_def demo_env_def demo_tox_def)
  have "b58 key \<noteq> []" using b58_nonempty [of key] assms(1) by fastforce
  with ok law env show thesis
    by (intro that [of ?w]) (simp_all add: peer_ok_def demo_D_def demo_list_def zero_carrier_def empty_user_info_def has_room_def
      transacted_callbacks_create_def transaction_history_create_def ot_create_def hashtable_create_def peer_env_def demo_env_def demo_tox_def)
qed

lemma message_arrives_witness:
  "\<exists>wa wb. IOEX_send_friend_message (peer_env (replicate 32 2)) (Some (b58 (replicate 32 2))) (Some [104, 105]) wa = Some (0, emit (Dht_message 0 [1, 104, 105]) wa)
    \<and> dht_notify_all (peer_env (replicate 32 1)) (dht_callback (Friend_message_received 0 TOX_MESSAGE_TYPE_NORMAL [1, 104, 105])) wb
      = Some (emit (Friend_message (b58 (replicate 32 1)) (Some [104, 105])) wb)"
proof -
  obtain wa where a: "peer_ok (peer_env (replicate 32 2)) (\<lambda>_ _. 1) (demo_D (Some (replicate 32 2))) wa (replicate 32 2) 0" "b58 (replicate 32 2) \<noteq> ui_userid (w_me wa)"
    by (rule demo_peer [of "replicate 32 2" "replicate 32 1"]) (simp_all add: numeral_eq_Suc)
  obtain wb where b: "peer_ok (peer_env (replicate 32 1)) (\<lambda>_ _. 1) (demo_D (Some (replicate 32 1))) wb (replicate 32 1) 0" "w_callbacks wb = (\<lambda>_. True)"
    by (rule demo_peer [of "replicate 32 1" "replicate 32 2"]) (simp_all add: numeral_eq_Suc)
  have e: "IOEXcp_encode (ce_fb_write (peer_env (replicate 32 2))) \<lparr>cp_ext = None, cp_pkt = pkt_fmsg \<lparr>fmsg_msg = Some [104, 105]\<rparr>\<rparr> = Some (Some [1, 104, 105])"
    by (simp add: IOEXcp_encode_def encode_body_def cp_get cp_types vec_create_def peer_env_def)
  show ?thesis using message_arrives [OF a(1) b(1) _ a(2) _ _ e] wire_law b(2)
    by (auto simp: peer_env_def IOEX_MAX_APP_MESSAGE_LEN_def call_back_def)
qed

lemma invite_answered_witness:
  "\<exists>wa bytes1 bytes2 wa1 wa2. IOEX_invite_friend (peer_env (replicate 32 2)) (Some (b58 (replicate 32 2))) (Some [5]) 11 12 wa = Some (0, emit (Dht_message 0 bytes1) wa1)
    \<and> dht_notify_all (peer_env (replicate 32 2)) (dht_callback (Friend_message_received 0 TOX_MESSAGE_TYPE_NORMAL bytes2)) (emit (Dht_message 0 bytes1) wa1)
        = Some (emit (Invite_response 11 12 (b58 (replicate 32 2)) 0 None (Some [6])) wa2)"
proof -
  obtain wa where a: "peer_ok (peer_env (replicate 32 2)) (\<lambda>_ _. 1) (demo_D (Some (replicate 32 2))) wa (replicate 32 2) 0" "has_room (w_tcallbacks wa)"
    by (rule demo_peer [of "replicate 32 2" "replicate 32 1"]) (simp_all add: numeral_eq_Suc)
  obtain wb where b: "peer_ok (peer_env (replicate 32 1)) (\<lambda>_ _. 1) (demo_D (Some (replicate 32 1))) wb (replicate 32 1) 0" "has_room (w_thistory wb)"
    by (rule demo_peer [of "replicate 32 1" "replicate 32 2"]) (simp_all add: numeral_eq_Suc)
  have e: "\<exists>bytes. IOEXcp_encode (ce_fb_write (peer_env key)) (invite_cp t [5]) = Some (Some bytes)"
    "\<exists>bytes. IOEXcp_encode (ce_fb_write (peer_env key)) (reply_cp t 0 [] [6]) = Some (Some bytes)" for t key
    by (simp_all add: IOEXcp_encode_def encode_body_def cp_get cp_types vec_create_def peer_env_def invite_cp_def reply_cp_def)
  have l: "flatcc_law (ce_fb_write (peer_env k)) (ce_fb_read (peer_env k'))" for k k' using wire_law by (simp add: peer_env_def)
  show ?thesis using invite_answered [OF a(1) b(1) l l a(2) b(2), of "[5]" 11 "[6]" 0 "[]" 12] e
    by (simp add: ex_simps [symmetric] del: ex_simps) blast
qed

end
