(* ===== verification/FilePeers.thy ===== *)
theory FilePeers
  imports CarrierPeers
begin

text \<open>
  Files between two carriers: the offer of a file and its acceptance, and the chunks that Tox asks of the sender and
  hands to the receiver. Tox asks for the chunks of a file in order, none longer than the array that the sender
  reads into, and ends with an empty chunk on both sides.
\<close>

subsection \<open>Trackers\<close>

lemma with_peer:
  assumes p: "peer_ok env beyond D w key n"
  obtains a where "\<forall>u k. with_friend n w u k = k (b58 key) (w\<lparr>w_friends := ot_hold a (w_friends w)\<rparr>)"
    "peer_ok env beyond D (w\<lparr>w_friends := ot_hold a (w_friends w)\<rparr>) key n"
proof -
  have law: "dht_law env D" and ok: "carrier_ok beyond D w" and d: "D (w_trace w) key = Some n" using p by (simp_all add: peer_ok_def)
  obtain fi where fi: "friend_at (w_friends w) n = Some fi" using carrier_ok_parts(8) [OF ok] d unfolding in_sync_def by blast
  have id: "friend_id fi = b58 key" using peer_friend(5) [OF p] friend_userid_eq [OF law ok peer_friend(1) [OF p]] fi by simp
  from friends_get_present [OF ok fi] obtain a where
    "friends_get n (w_friends w) = Some (Some a, ot_hold a (w_friends w))" "ot_read a (ot_hold a (w_friends w)) = Some fi" by blast
  then have "\<forall>u k. with_friend n w u k = k (b58 key) (w\<lparr>w_friends := ot_hold a (w_friends w)\<rparr>)"
    using small_not_max [OF peer_friend(1) [OF p]] id by (simp add: with_friend_def)
  moreover have "peer_ok env beyond D (w\<lparr>w_friends := ot_hold a (w_friends w)\<rparr>) key n" using p carrier_ok_hold [OF ok, of a] by (simp add: peer_ok_def)
  ultimately show thesis by (rule that)
qed

lemma peer_files [simp]:
  "peer_ok env beyond D (w\<lparr>w_file_senders := fts\<rparr>) key n = peer_ok env beyond D w key n"
  "peer_ok env beyond D (w\<lparr>w_file_receivers := fts\<rparr>) key n = peer_ok env beyond D w key n"
  "peer_ok env beyond D (w\<lparr>w_fs := s\<rparr>) key n = peer_ok env beyond D w key n"
  by (simp_all add: peer_ok_def)

lemma find_after_event [simp]:
  "find_file_sender (emit e w) = find_file_sender w" "find_file_receiver (emit e w) = find_file_receiver w" "w_fs (emit e w) = w_fs w"
  "find_file_sender (call_back c e w) = find_file_sender w" "find_file_receiver (call_back c e w) = find_file_receiver w" "w_fs (call_back c e w) = w_fs w"
  by (auto simp: fun_eq_iff find_file_sender_def find_file_receiver_def emit_def call_back_def)

lemma peer_id_fits: "peer_ok env beyond D w key n \<Longrightarrow> length (b58 key) < Suc IOEX_MAX_ID_LEN"
  using key_text_length [OF peer_friend(2)] by (fastforce simp: IOEX_MAX_ID_LEN_def)

subsection \<open>The chunks of a file\<close>

text \<open>What was handed to Tox of a file, and the requests of Tox for consecutive chunks.\<close>

fun sent_chunks :: "u32 \<Rightarrow> u32 \<Rightarrow> carrier_event list \<Rightarrow> (nat \<times> u8 list) list" where
  "sent_chunks n f [] = []"
| "sent_chunks n f (e # es) = (case e of Dht_file_chunk m g p d \<Rightarrow> if m = n \<and> g = f then [(p, d)] else [] | _ \<Rightarrow> []) @ sent_chunks n f es"

lemma sent_append [simp]: "sent_chunks n f (xs @ ys) = sent_chunks n f xs @ sent_chunks n f ys"
  by (induction xs) simp_all

fun requests :: "nat \<Rightarrow> nat list \<Rightarrow> (nat \<times> nat) list" where
  "requests p [] = []"
| "requests p (l # ls) = (p, l) # requests (p + l) ls"

lemma slices: "concat (map (\<lambda>(p, l). take l (drop p content)) (requests p lens)) = take (sum_list lens) (drop p content)"
  by (induction lens arbitrary: p) (simp_all add: take_add add.commute)

definition file_calls :: "carrier_env \<Rightarrow> tox_callback list \<Rightarrow> IOEXCarrier \<Rightarrow> IOEXCarrier option" where
  "file_calls env cbs = dht_notify_all env (concat (map dht_callback cbs))"

lemma file_calls_simps [simp]:
  "file_calls env [] w = Some w"
  "file_calls env (cb # cbs) w = do { w1 \<leftarrow> dht_notify_all env (dht_callback cb) w; file_calls env cbs w1 }"
  by (simp_all add: file_calls_def notify_all_append)

lemma file_calls_append: "file_calls env (xs @ ys) w = do { w1 \<leftarrow> file_calls env xs w; file_calls env ys w1 }"
  by (simp add: file_calls_def notify_all_append)

lemma send_chunk:
  assumes p: "peer_ok env beyond D w key n" and s: "find_file_sender w n f = Some info" "fopen_rb (ce_persist env) (get_fullpath info) (w_fs w) = Some content"
    and len: "0 < len" "len \<le> CHUNK_SIZE"
    and tox: "\<forall>tr p d. tox_file_send_chunk (ce_tox env) tr n f p d = TOX_ERR_FILE_SEND_CHUNK_OK"
  obtains w' where "dht_notify_all env (dht_callback (File_chunk_request n f position len)) w = Some w'" "peer_ok env beyond D w' key n"
    "w_file_senders w' = w_file_senders w" "w_fs w' = w_fs w" "sent_chunks n f (w_trace w') = sent_chunks n f (w_trace w) @ [(position, take len (drop position content))]"
proof -
  obtain a where a: "\<forall>u k. with_friend n w u k = k (b58 key) (w\<lparr>w_friends := ot_hold a (w_friends w)\<rparr>)"
    "peer_ok env beyond D (w\<lparr>w_friends := ot_hold a (w_friends w)\<rparr>) key n" by (rule with_peer [OF p])
  let ?d = "take len (drop position content)"
  let ?w = "call_back CB_file_chunk_send (File_chunk_send (b58 key) f (get_fullpath info) position len)
    (emit (Dht_file_chunk n f position ?d) (w\<lparr>w_friends := ot_hold a (w_friends w)\<rparr>))"
  have d: "length ?d \<le> CHUNK_SIZE" using len(2) by simp
  have "dht_notify_all env (dht_callback (File_chunk_request n f position len)) w = Some ?w"
    using a(1) s len(1) d tox peer_id_fits [OF p]
    by (simp add: dht_callback_def dht_notify_def notify_file_chunk_request_cb_def dht_file_send_chunk_def dht_file_send_chunk_error_def Let_def strcpy_into_Some)
  moreover have "peer_ok env beyond D ?w key n" by (intro peer_call_back peer_quiet a(2)) simp_all
  ultimately show thesis by (rule that) (simp_all add: call_back_def emit_def)
qed

lemma send_chunks:
  assumes p: "peer_ok env beyond D w key n" and s: "find_file_sender w n f = Some info" "fopen_rb (ce_persist env) (get_fullpath info) (w_fs w) = Some content"
    and lens: "\<forall>l \<in> set lens. 0 < l \<and> l \<le> CHUNK_SIZE"
    and tox: "\<forall>tr p d. tox_file_send_chunk (ce_tox env) tr n f p d = TOX_ERR_FILE_SEND_CHUNK_OK"
  shows "\<exists>w'. file_calls env (map (\<lambda>(p, l). File_chunk_request n f p l) (requests position lens)) w = Some w' \<and> peer_ok env beyond D w' key n
    \<and> w_file_senders w' = w_file_senders w
    \<and> sent_chunks n f (w_trace w') = sent_chunks n f (w_trace w) @ map (\<lambda>(p, l). (p, take l (drop p content))) (requests position lens)"
  using p s lens
proof (induction lens arbitrary: position w)
  case (Cons l lens)
  obtain w1 where w1: "dht_notify_all env (dht_callback (File_chunk_request n f position l)) w = Some w1" "peer_ok env beyond D w1 key n"
    "w_file_senders w1 = w_file_senders w" "w_fs w1 = w_fs w" "sent_chunks n f (w_trace w1) = sent_chunks n f (w_trace w) @ [(position, take l (drop position content))]"
    by (rule send_chunk [OF Cons.prems(1-3) _ _ tox]) (use Cons.prems(4) in auto)
  have "find_file_sender w1 n f = Some info" using Cons.prems(2) w1(3) by (simp add: find_file_sender_def)
  with Cons.IH [OF w1(2) this, of "position + l"] w1 Cons.prems show ?case by auto
qed simp

lemma receive_chunk:
  assumes p: "peer_ok env beyond D w key n" and r: "find_file_receiver w n f = Some info" "pe_open (ce_persist env) (get_fullpath info)"
    "fs_files (w_fs w) (get_fullpath info) = Some old" and d: "data \<noteq> []"
  obtains w' where "dht_notify_all env (dht_callback (File_recv_chunk n f position data)) w = Some w'" "peer_ok env beyond D w' key n"
    "w_file_receivers w' = w_file_receivers w" "fs_files (w_fs w') = (fs_files (w_fs w))(get_fullpath info \<mapsto> old @ data)"
proof -
  obtain a where a: "\<forall>u k. with_friend n w u k = k (b58 key) (w\<lparr>w_friends := ot_hold a (w_friends w)\<rparr>)"
    "peer_ok env beyond D (w\<lparr>w_friends := ot_hold a (w_friends w)\<rparr>) key n" by (rule with_peer [OF p])
  let ?p = "get_fullpath info"
  let ?w = "call_back CB_file_chunk_receive (File_chunk_receive (b58 key) f ?p position (length data))
    (w\<lparr>w_friends := ot_hold a (w_friends w), w_fs := apply_op (Write ?p data) (w_fs w)\<rparr>)"
  have "dht_notify_all env (dht_callback (File_recv_chunk n f position data)) w = Some ?w"
    using a(1) r d peer_id_fits [OF p] by (simp add: dht_callback_def dht_notify_def notify_file_chunk_receive_cb_def fopen_ab_def Let_def strcpy_into_Some)
  moreover have "peer_ok env beyond D ?w key n" by (rule peer_call_back) (use a(2) in simp_all)
  ultimately show thesis using r(3) by (intro that [of ?w]) (simp_all add: call_back_def emit_def)
qed

lemma receive_chunks:
  assumes p: "peer_ok env beyond D w key n" and r: "find_file_receiver w n f = Some info" "pe_open (ce_persist env) (get_fullpath info)"
    "fs_files (w_fs w) (get_fullpath info) = Some old" and d: "\<forall>(p, d) \<in> set chunks. d \<noteq> []"
  shows "\<exists>w'. file_calls env (map (\<lambda>(p, d). File_recv_chunk n f p d) chunks) w = Some w' \<and> peer_ok env beyond D w' key n \<and> w_file_receivers w' = w_file_receivers w
    \<and> fs_files (w_fs w') = (fs_files (w_fs w))(get_fullpath info \<mapsto> old @ concat (map snd chunks))"
  using p r d
proof (induction chunks arbitrary: w old)
  case (Cons c chunks)
  obtain pos data where c: "c = (pos, data)" "data \<noteq> []" using Cons.prems(5) by (cases c) auto
  obtain w1 where w1: "dht_notify_all env (dht_callback (File_recv_chunk n f pos data)) w = Some w1" "peer_ok env beyond D w1 key n"
    "w_file_receivers w1 = w_file_receivers w" "fs_files (w_fs w1) = (fs_files (w_fs w))(get_fullpath info \<mapsto> old @ data)"
    by (rule receive_chunk [OF Cons.prems(1-4) c(2)])
  have "fs_files (w_fs w1) (get_fullpath info) = Some (old @ data)" using w1(4) by simp
  moreover have "find_file_receiver w1 n f = Some info" using Cons.prems(2) w1(3) by (simp add: find_file_receiver_def)
  ultimately show ?case using Cons.IH [OF w1(2) _ Cons.prems(3)] Cons.prems(5) w1(1,3,4) c(1) by (auto simp: fun_eq_iff)
qed (auto simp: fun_upd_idem)

text \<open>A tracker at the end of the list, the only one with its numbers.\<close>

lemma tracker_last:
  assumes "find_file_tracker old n f = None" and "tracks n f info"
  shows "find_file_tracker (old @ [info]) n f = Some info" "drop_tracker n f (old @ [info]) = Some old"
    "map_tracker n f g (old @ [info]) = old @ [g info]"
  using assms by (induction old) (auto simp: find_file_tracker_def split: if_splits)

lemma send_end:
  assumes p: "peer_ok env beyond D w key n" and s: "w_file_senders w = old @ [info]" "find_file_tracker old n f = None" "tracks n f info"
  obtains w' where "dht_notify_all env (dht_callback (File_chunk_request n f position 0)) w = Some w'" "w_file_senders w' = old" "w_trace w' = w_trace w"
proof -
  obtain a where a: "\<forall>u k. with_friend n w u k = k (b58 key) (w\<lparr>w_friends := ot_hold a (w_friends w)\<rparr>)" by (rule with_peer [OF p])
  show thesis using a tracker_last [OF s(2,3)] s(1) peer_id_fits [OF p]
    by (intro that [of "w\<lparr>w_friends := ot_hold a (w_friends w), w_file_senders := old\<rparr>"])
      (simp_all add: dht_callback_def dht_notify_def notify_file_chunk_request_cb_def find_file_sender_def remove_file_sender_def Let_def strcpy_into_Some)
qed

lemma receive_end:
  assumes p: "peer_ok env beyond D w key n" and s: "w_file_receivers w = old @ [info]" "find_file_tracker old n f = None" "tracks n f info"
  obtains w' where "dht_notify_all env (dht_callback (File_recv_chunk n f position [])) w = Some w'" "w_file_receivers w' = old" "w_fs w' = w_fs w"
proof -
  obtain a where a: "\<forall>u k. with_friend n w u k = k (b58 key) (w\<lparr>w_friends := ot_hold a (w_friends w)\<rparr>)" by (rule with_peer [OF p])
  let ?w = "w\<lparr>w_friends := ot_hold a (w_friends w), w_file_receivers := old\<rparr>"
  let ?w' = "call_back CB_file_chunk_receive (File_chunk_receive (b58 key) f (ce_stack env (w_trace w)) position 0) ?w"
  have "dht_notify_all env (dht_callback (File_recv_chunk n f position [])) w = Some ?w'"
    using a tracker_last [OF s(2,3)] s(1) peer_id_fits [OF p]
    by (simp add: dht_callback_def dht_notify_def notify_file_chunk_receive_cb_def find_file_receiver_def remove_file_receiver_def Let_def strcpy_into_Some)
  then show thesis by (rule that) (simp_all add: call_back_def emit_def)
qed

subsection \<open>The offer of a file\<close>

lemma checked_peer: "peer_ok env beyond D w key n \<Longrightarrow> checked_friend env (b58 key) w = Some (Inr n)"
  using peer_friend(3,6) [of env beyond D w key n] by (simp add: checked_friend_def, simp add: peer_ok_def)

text \<open>A path is a directory and a name; the file is found under the same path again.\<close>

definition split_path :: "cstring \<Rightarrow> cstring \<Rightarrow> bool" where
  "split_path dir name \<longleftrightarrow> dir \<noteq> [] \<and> last dir \<noteq> 0x2f \<and> 0x2f \<notin> set name \<and> length name \<le> IOEX_MAX_FILE_NAME_LEN
     \<and> length dir \<le> IOEX_MAX_FILE_PATH_LEN \<and> length dir + length name + 1 < IOEX_MAX_FULL_PATH_LEN"

lemma base_name_split: "split_path dir name \<Longrightarrow> base_name (dir @ [0x2f] @ name) = name"
proof -
  assume "split_path dir name"
  then have "takeWhile (\<lambda>c. c \<noteq> 0x2f) (rev name @ 0x2f # rev dir) = rev name" by (subst takeWhile_append2) (auto simp: split_path_def)
  then show ?thesis by (simp add: base_name_def)
qed

lemma take_path:
  assumes "split_path dir name" and "IOEX_MAX_FULL_PATH_LEN - 1 \<le> m"
  shows "take m (dir @ [0x2f] @ name) = dir @ [0x2f] @ name"
proof -
  have "length dir + length name + 1 < IOEX_MAX_FULL_PATH_LEN" using assms(1) by (simp add: split_path_def)
  with assms(2) have "length (dir @ [0x2f] @ name) \<le> m" by simp
  then show ?thesis by (rule take_all)
qed

lemma fullpath_split:
  "split_path dir name \<Longrightarrow> get_fullpath \<lparr>file_name = name, file_path = dir, file_friend = n, file_index = f\<rparr> = dir @ [0x2f] @ name"
proof -
  assume p: "split_path dir name"
  have "dir \<noteq> []" "last dir \<noteq> 0x2f" using p by (simp_all add: split_path_def)
  then show ?thesis using take_path [OF p order_refl] by (simp only: get_fullpath_def IOEXFileInfo.select_convs if_False)
qed

lemma offer_file:
  assumes p: "peer_ok env beyond D w key n" and path: "split_path dir name"
    and content: "fopen_rb (ce_persist env) (dir @ [0x2f] @ name) (w_fs w) = Some content"
    and tox: "tox_file_send (ce_tox env) (w_trace w) n (length content) name = (f, TOX_ERR_FILE_SEND_OK)" "f \<noteq> UINT32_MAX"
  shows "IOEX_send_file_request env (Some (b58 key)) (Some (dir @ [0x2f] @ name)) w
    = Some (0, (emit (Dht_file_send n (dir @ [0x2f] @ name)) w)\<lparr>w_file_senders := w_file_senders w @ [\<lparr>file_name = name, file_path = dir, file_friend = n, file_index = f\<rparr>]\<rparr>)"
proof -
  have l: "length name < Suc IOEX_MAX_FILE_NAME_LEN" "length dir < Suc IOEX_MAX_FILE_PATH_LEN" using path by (simp_all add: split_path_def)
  have "dht_file_send_request (ce_tox env) (w_trace w) (\<lambda>p. map_option length (fopen_rb (ce_persist env) p (w_fs w))) n (dir @ [0x2f] @ name) UINT32_MAX = Some (0, f)"
    using content tox base_name_split [OF path] l by (simp add: dht_file_send_request_def dht_file_send_error_def strcpy_into_Some)
  moreover have "add_new_file_sender n f (dir @ [0x2f] @ name) w1
      = Some (w1\<lparr>w_file_senders := w_file_senders w1 @ [\<lparr>file_name = name, file_path = dir, file_friend = n, file_index = f\<rparr>]\<rparr>)" for w1
    using base_name_split [OF path] l by (simp add: add_new_file_sender_def strcpy_into_Some)
  ultimately show ?thesis using checked_peer [OF p] tox(2) by (simp add: IOEX_send_file_request_def emit_def)
qed

lemma receive_offer:
  assumes p: "peer_ok env beyond D w key n" and name: "is_cstring name" "length name \<le> IOEX_MAX_FILE_NAME_LEN"
  obtains a where "dht_notify_all env (dht_callback (File_recv n f filesize (name @ [0]))) w
      = Some (call_back CB_file_request (File_request (b58 key) f name filesize) (w\<lparr>w_friends := ot_hold a (w_friends w),
          w_file_receivers := w_file_receivers w @ [\<lparr>file_name = name, file_path = c_str ''/tmp/'', file_friend = n, file_index = f\<rparr>]\<rparr>))"
    "peer_ok env beyond D (w\<lparr>w_friends := ot_hold a (w_friends w)\<rparr>) key n"
proof -
  obtain a where a: "\<forall>u k. with_friend n w u k = k (b58 key) (w\<lparr>w_friends := ot_hold a (w_friends w)\<rparr>)"
    "peer_ok env beyond D (w\<lparr>w_friends := ot_hold a (w_friends w)\<rparr>) key n" by (rule with_peer [OF p])
  have "takeWhile (\<lambda>c. c \<noteq> 0) (name @ [0]) = name" using name(1) by (subst takeWhile_append2) (auto simp: is_cstring_def)
  with a(1) name(2) show thesis
    by (intro that [OF _ a(2)]) (simp add: dht_callback_def dht_notify_def notify_file_request_cb_def add_new_file_receiver_def strcpy_into_Some Let_def)
qed

lemma accept_offer:
  assumes p: "peer_ok env beyond D w key n" and path: "split_path dir name" and idx: "of_nat (strtoul idx) = f"
    and r: "w_file_receivers w = old @ [info]" "find_file_tracker old n f = None" "tracks n f info"
    and tox: "\<forall>tr. tox_file_control (ce_tox env) tr n f TOX_FILE_CONTROL_RESUME = TOX_ERR_FILE_CONTROL_OK"
    and open_ok: "pe_open (ce_persist env) (dir @ [0x2f] @ name)"
  obtains s where "IOEX_send_file_accept env (Some (b58 key)) (Some idx) (Some name) (Some dir) w
      = Some (0, emit (Dht_file_control n f TOX_FILE_CONTROL_RESUME) (w\<lparr>w_fs := s,
          w_file_receivers := old @ [\<lparr>file_name = name, file_path = dir, file_friend = n, file_index = f\<rparr>]\<rparr>))"
    "fs_files s = (fs_files (w_fs w))(dir @ [0x2f] @ name \<mapsto> (case fs_files (w_fs w) (dir @ [0x2f] @ name) of None \<Rightarrow> [] | Some bs \<Rightarrow> bs))"
proof -
  let ?path = "dir @ [0x2f] @ name"
  define s where "s = (if fs_files (w_fs w) ?path = None then apply_op (Create ?path) (w_fs w) else w_fs w)"
  have w: "is_file_writable env ?path w = (True, w\<lparr>w_fs := s\<rparr>)" using open_ok by (simp add: is_file_writable_def fopen_ab_def s_def)
  have full: "take IOEX_MAX_FULL_PATH_LEN (if last dir = 0x2f then dir @ name else ?path) = ?path" "dir \<noteq> []"
    using path take_path [OF path, of IOEX_MAX_FULL_PATH_LEN] by (simp_all add: split_path_def del: take_append)
  have i: "update_file_receiver_path name dir info = \<lparr>file_name = name, file_path = dir, file_friend = n, file_index = f\<rparr>"
    using path r(3) by (cases info) (simp add: update_file_receiver_path_def split_path_def tracks_def)
  have "find_file_receiver w n f = Some info" using tracker_last(1) [OF r(2,3)] r(1) by (simp add: find_file_receiver_def)
  with w full idx checked_peer [OF p] tracker_last(3) [OF r(2,3)] r(1) i tox have
    "IOEX_send_file_accept env (Some (b58 key)) (Some idx) (Some name) (Some dir) w
      = Some (0, emit (Dht_file_control n f TOX_FILE_CONTROL_RESUME) (w\<lparr>w_fs := s,
          w_file_receivers := old @ [\<lparr>file_name = name, file_path = dir, file_friend = n, file_index = f\<rparr>]\<rparr>))"
    by (simp add: IOEX_send_file_accept_def finish_def dht_file_send_accept_def dht_file_control_error_def Let_def)
  moreover have "fs_files s = (fs_files (w_fs w))(?path \<mapsto> (case fs_files (w_fs w) ?path of None \<Rightarrow> [] | Some bs \<Rightarrow> bs))"
    by (auto simp: s_def split: option.split)
  ultimately show thesis by (rule that)
qed

text \<open>The acceptance reaches the sender as a resumption and an acceptance.\<close>

lemma receive_accept:
  assumes p: "peer_ok env beyond D w key n" and f: "find_file_sender w n f = Some info" "is_sender f"
  obtains w' where "dht_notify_all env (dht_callback (File_recv_control n f TOX_FILE_CONTROL_RESUME)) w = Some w'" "peer_ok env beyond D w' key n"
    "w_file_senders w' = w_file_senders w" "w_fs w' = w_fs w" "sent_chunks n f (w_trace w') = sent_chunks n f (w_trace w)"
proof -
  obtain a where a: "\<forall>u k. with_friend n w u k = k (b58 key) (w\<lparr>w_friends := ot_hold a (w_friends w)\<rparr>)"
    "peer_ok env beyond D (w\<lparr>w_friends := ot_hold a (w_friends w)\<rparr>) key n" by (rule with_peer [OF p])
  define w1 where "w1 = call_back CB_file_resumed (File_resumed (b58 key) f) (w\<lparr>w_friends := ot_hold a (w_friends w)\<rparr>)"
  have p1: "peer_ok env beyond D w1 key n" unfolding w1_def by (rule peer_call_back [OF a(2)]) simp
  obtain b where b: "\<forall>u k. with_friend n w1 u k = k (b58 key) (w1\<lparr>w_friends := ot_hold b (w_friends w1)\<rparr>)"
    "peer_ok env beyond D (w1\<lparr>w_friends := ot_hold b (w_friends w1)\<rparr>) key n" by (rule with_peer [OF p1])
  let ?w = "call_back CB_file_accepted (File_accepted (b58 key) f) (w1\<lparr>w_friends := ot_hold b (w_friends w1)\<rparr>)"
  have "notify_file_resumed_cb n f w = Some w1" using a(1) f by (simp add: notify_file_resumed_cb_def find_tracker_def w1_def)
  moreover have "notify_file_accepted_cb n f w1 = Some ?w" using b(1) f by (simp add: notify_file_accepted_cb_def w1_def del: event_upd)
  ultimately have "dht_notify_all env (dht_callback (File_recv_control n f TOX_FILE_CONTROL_RESUME)) w = Some ?w"
    by (simp add: dht_callback_def notify_file_control_cb_def dht_notify_def)
  moreover have "peer_ok env beyond D ?w key n" by (rule peer_call_back [OF b(2)]) simp
  ultimately show thesis by (rule that) (simp_all add: w1_def call_back_def emit_def)
qed

lemma send_file:
  assumes A: "peer_ok env beyond D w key n"
    and source: "split_path dir name" "fopen_rb (ce_persist env) (dir @ [0x2f] @ name) (w_fs w) = Some content"
    and numbers: "is_sender f" "find_file_sender w n f = None"
    and tox: "\<forall>tr. tox_file_send (ce_tox env) tr n (length content) name = (f, TOX_ERR_FILE_SEND_OK)"
      "\<forall>tr p d. tox_file_send_chunk (ce_tox env) tr n f p d = TOX_ERR_FILE_SEND_CHUNK_OK"
    and lens: "\<forall>l \<in> set lens. 0 < l \<and> l \<le> CHUNK_SIZE"
  obtains w1 w2 where "IOEX_send_file_request env (Some (b58 key)) (Some (dir @ [0x2f] @ name)) w = Some (0, w1)"
    "file_calls env (File_recv_control n f TOX_FILE_CONTROL_RESUME # map (\<lambda>(p, l). File_chunk_request n f p l) (requests 0 lens)
        @ [File_chunk_request n f (length content) 0]) w1 = Some w2" "w_file_senders w2 = w_file_senders w"
    "sent_chunks n f (w_trace w2) = sent_chunks n f (w_trace w) @ map (\<lambda>(p, l). (p, take l (drop p content))) (requests 0 lens)"
proof -
  let ?src = "dir @ [0x2f] @ name"
  let ?i = "\<lparr>file_name = name, file_path = dir, file_friend = n, file_index = f\<rparr>"
  define w1 where "w1 = (emit (Dht_file_send n ?src) w)\<lparr>w_file_senders := w_file_senders w @ [?i]\<rparr>"
  have "f \<noteq> UINT32_MAX" using numbers(1) by (auto simp: is_sender_def UINT32_MAX_def)
  from offer_file [OF A source _ this] tox(1) have 1: "IOEX_send_file_request env (Some (b58 key)) (Some ?src) w = Some (0, w1)" by (simp add: w1_def)
  have A1: "peer_ok env beyond D w1 key n" unfolding w1_def using peer_quiet [OF A, of "Dht_file_send n ?src"] by simp
  have i: "find_file_tracker (w_file_senders w) n f = None" "tracks n f ?i" using numbers(2) by (simp_all add: find_file_sender_def tracks_def)
  have i1: "find_file_sender w1 n f = Some ?i" using tracker_last(1) [OF i] by (simp add: find_file_sender_def w1_def)
  obtain w2 where a2: "dht_notify_all env (dht_callback (File_recv_control n f TOX_FILE_CONTROL_RESUME)) w1 = Some w2" "peer_ok env beyond D w2 key n"
    "w_file_senders w2 = w_file_senders w1" "w_fs w2 = w_fs w1" "sent_chunks n f (w_trace w2) = sent_chunks n f (w_trace w1)"
    by (rule receive_accept [OF A1 i1 numbers(1)])
  have "find_file_sender w2 n f = Some ?i" using i1 a2(3) by (simp add: find_file_sender_def)
  moreover have "fopen_rb (ce_persist env) (get_fullpath ?i) (w_fs w2) = Some content"
    using source(2) a2(4) by (simp only: fullpath_split [OF source(1)]) (simp add: w1_def)
  ultimately obtain w3 where a3: "file_calls env (map (\<lambda>(p, l). File_chunk_request n f p l) (requests 0 lens)) w2 = Some w3" "peer_ok env beyond D w3 key n"
    "w_file_senders w3 = w_file_senders w2"
    "sent_chunks n f (w_trace w3) = sent_chunks n f (w_trace w2) @ map (\<lambda>(p, l). (p, take l (drop p content))) (requests 0 lens)"
    using send_chunks [OF a2(2) _ _ lens tox(2), of ?i content 0] by blast
  obtain w4 where a4: "dht_notify_all env (dht_callback (File_chunk_request n f (length content) 0)) w3 = Some w4" "w_file_senders w4 = w_file_senders w"
    "w_trace w4 = w_trace w3"
    by (rule send_end [OF a3(2) _ i]) (simp add: a3(3) a2(3) w1_def)
  show thesis using a2(1) a3(1) a4(1) a3(4) a2(5)
    by (intro that [OF 1, of w4]) (simp_all add: file_calls_append a4(2,3), simp add: w1_def)
qed

lemma receive_file:
  assumes B: "peer_ok env beyond D w key n" and name: "is_cstring name" "length name \<le> IOEX_MAX_FILE_NAME_LEN"
    and target: "split_path dir' name'" "pe_open (ce_persist env) (dir' @ [0x2f] @ name')"
    and numbers: "of_nat (strtoul idx) = f" "find_file_receiver w n f = None"
    and tox: "\<forall>tr. tox_file_control (ce_tox env) tr n f TOX_FILE_CONTROL_RESUME = TOX_ERR_FILE_CONTROL_OK"
    and chunks: "\<forall>(p, d) \<in> set chunks. d \<noteq> []"
  obtains w1 w2 w3 where
    "file_calls env [File_recv n f filesize (name @ [0])] w = Some (call_back CB_file_request (File_request (b58 key) f name filesize) w1)"
    "IOEX_send_file_accept env (Some (b58 key)) (Some idx) (Some name') (Some dir') (call_back CB_file_request (File_request (b58 key) f name filesize) w1) = Some (0, w2)"
    "file_calls env (map (\<lambda>(p, d). File_recv_chunk n f p d) chunks @ [File_recv_chunk n f filesize []]) w2 = Some w3"
    "w_file_receivers w3 = w_file_receivers w"
    "fs_files (w_fs w3) = (fs_files (w_fs w))(dir' @ [0x2f] @ name' \<mapsto>
       (case fs_files (w_fs w) (dir' @ [0x2f] @ name') of None \<Rightarrow> [] | Some bs \<Rightarrow> bs) @ concat (map snd chunks))"
proof -
  let ?dst = "dir' @ [0x2f] @ name'"
  let ?i = "\<lparr>file_name = name, file_path = c_str ''/tmp/'', file_friend = n, file_index = f\<rparr>"
  let ?i' = "\<lparr>file_name = name', file_path = dir', file_friend = n, file_index = f\<rparr>"
  let ?old = "case fs_files (w_fs w) ?dst of None \<Rightarrow> [] | Some bs \<Rightarrow> bs"
  obtain a where a: "dht_notify_all env (dht_callback (File_recv n f filesize (name @ [0]))) w
      = Some (call_back CB_file_request (File_request (b58 key) f name filesize) (w\<lparr>w_friends := ot_hold a (w_friends w), w_file_receivers := w_file_receivers w @ [?i]\<rparr>))"
    "peer_ok env beyond D (w\<lparr>w_friends := ot_hold a (w_friends w)\<rparr>) key n"
    by (rule receive_offer [OF B name])
  define w1 where "w1 = w\<lparr>w_friends := ot_hold a (w_friends w), w_file_receivers := w_file_receivers w @ [?i]\<rparr>"
  define w1' where "w1' = call_back CB_file_request (File_request (b58 key) f name filesize) w1"
  have B1: "peer_ok env beyond D w1' key n" unfolding w1'_def by (rule peer_call_back) (use a(2) in \<open>simp_all add: w1_def\<close>)
  have i: "find_file_tracker (w_file_receivers w) n f = None" "tracks n f ?i" "tracks n f ?i'" using numbers(2) by (simp_all add: find_file_receiver_def tracks_def)
  have r1: "w_file_receivers w1' = w_file_receivers w @ [?i]" "w_fs w1' = w_fs w" by (simp_all add: w1'_def w1_def call_back_def emit_def)
  obtain s where s: "IOEX_send_file_accept env (Some (b58 key)) (Some idx) (Some name') (Some dir') w1'
      = Some (0, emit (Dht_file_control n f TOX_FILE_CONTROL_RESUME) (w1'\<lparr>w_fs := s, w_file_receivers := w_file_receivers w @ [?i']\<rparr>))"
    "fs_files s = (fs_files (w_fs w))(?dst \<mapsto> ?old)"
    using accept_offer [OF B1 target(1) numbers(1) r1(1) i(1,2) tox target(2)] unfolding r1(2) by metis
  define w2 where "w2 = emit (Dht_file_control n f TOX_FILE_CONTROL_RESUME) (w1'\<lparr>w_fs := s, w_file_receivers := w_file_receivers w @ [?i']\<rparr>)"
  have B2: "peer_ok env beyond D w2 key n" unfolding w2_def by (rule peer_quiet) (use B1 in simp_all)
  have r2: "w_file_receivers w2 = w_file_receivers w @ [?i']" "w_fs w2 = s" by (simp_all add: w2_def emit_def)
  have f2: "find_file_receiver w2 n f = Some ?i'" using tracker_last(1) [OF i(1,3)] r2(1) by (simp add: find_file_receiver_def)
  note fp = fullpath_split [OF target(1), of n f]
  have "fs_files (w_fs w2) (get_fullpath ?i') = Some ?old" unfolding fp r2(2) s(2) by simp
  with receive_chunks [OF B2 f2 _ _ chunks] target(2) obtain w3 where
    c: "file_calls env (map (\<lambda>(p, d). File_recv_chunk n f p d) chunks) w2 = Some w3" "peer_ok env beyond D w3 key n" "w_file_receivers w3 = w_file_receivers w2"
      "fs_files (w_fs w3) = (fs_files (w_fs w2))(?dst \<mapsto> ?old @ concat (map snd chunks))" unfolding fp by blast
  obtain w4 where e: "dht_notify_all env (dht_callback (File_recv_chunk n f filesize [])) w3 = Some w4" "w_file_receivers w4 = w_file_receivers w" "w_fs w4 = w_fs w3"
    by (rule receive_end [OF c(2) _ i(1,3)]) (simp add: c(3) r2(1))
  show thesis
    by (rule that [of w1 w2 w4]) (use a(1) s(1) c(1,4) e r2(2) s(2) in \<open>simp_all add: file_calls_append w1_def [symmetric] w1'_def [symmetric] w2_def [symmetric]\<close>)
qed

lemma requests_bounds: "(p, l) \<in> set (requests q lens) \<Longrightarrow> l \<in> set lens \<and> p + l \<le> q + sum_list lens"
  by (induction lens arbitrary: q) fastforce+

lemma slices_nonempty:
  assumes "\<forall>l \<in> set lens. 0 < l" and "sum_list lens = length content"
  shows "\<forall>(p, d) \<in> set (map (\<lambda>(p, l). (p, take l (drop p content))) (requests 0 lens)). d \<noteq> []"
  using requests_bounds [of _ _ 0 lens] assms by (fastforce dest: bspec)


subsection \<open>Cancelled offers\<close>

text \<open>C39. A friend can remove files: an offer of a file that the friend withdraws makes the carrier unlink the file of
  that name below \<^verbatim>\<open>/tmp/\<close>, though the application has accepted nothing and no byte of it was received; the name comes from
  the friend and may contain slashes and dots.\<close>

theorem offer_and_cancel_unlinks:
  assumes B: "peer_ok env beyond D w key n" and name: "is_cstring name" "length name \<le> IOEX_MAX_FILE_NAME_LEN"
    and numbers: "\<not> is_sender f" "find_file_receiver w n f = None" "find_file_sender w n f = None"
  shows "\<exists>w'. file_calls env [File_recv n f filesize (name @ [0]), File_recv_control n f TOX_FILE_CONTROL_CANCEL] w = Some w'
    \<and> fs_files (w_fs w') = (fs_files (w_fs w))(c_str ''/tmp/'' @ name := None) \<and> w_file_receivers w' = w_file_receivers w"
proof -
  let ?i = "\<lparr>file_name = name, file_path = c_str ''/tmp/'', file_friend = n, file_index = f\<rparr>"
  obtain a where a: "dht_notify_all env (dht_callback (File_recv n f filesize (name @ [0]))) w
      = Some (call_back CB_file_request (File_request (b58 key) f name filesize) (w\<lparr>w_friends := ot_hold a (w_friends w), w_file_receivers := w_file_receivers w @ [?i]\<rparr>))"
    "peer_ok env beyond D (w\<lparr>w_friends := ot_hold a (w_friends w)\<rparr>) key n"
    by (rule receive_offer [OF B name])
  define w1 where "w1 = call_back CB_file_request (File_request (b58 key) f name filesize) (w\<lparr>w_friends := ot_hold a (w_friends w), w_file_receivers := w_file_receivers w @ [?i]\<rparr>)"
  have B1: "peer_ok env beyond D w1 key n" unfolding w1_def by (rule peer_call_back) (use a(2) in simp_all)
  have i: "find_file_tracker (w_file_receivers w) n f = None" "tracks n f ?i" using numbers(2) by (simp_all add: find_file_receiver_def tracks_def)
  have full: "get_fullpath ?i = c_str ''/tmp/'' @ name"
    using name(2) by (simp add: get_fullpath_def c_str_def IOEX_MAX_FULL_PATH_LEN_def IOEX_MAX_FILE_PATH_LEN_def IOEX_MAX_FILE_NAME_LEN_def)
  obtain b where b: "\<forall>u k. with_friend n w1 u k = k (b58 key) (w1\<lparr>w_friends := ot_hold b (w_friends w1)\<rparr>)"
    "peer_ok env beyond D (w1\<lparr>w_friends := ot_hold b (w_friends w1)\<rparr>) key n" by (rule with_peer [OF B1])
  define w2 where "w2 = w1\<lparr>w_friends := ot_hold b (w_friends w1), w_fs := apply_op (Remove (c_str ''/tmp/'' @ name)) (w_fs w1), w_file_receivers := w_file_receivers w\<rparr>"
  have r1: "w_file_receivers w1 = w_file_receivers w @ [?i]" "w_fs w1 = w_fs w" "w_file_senders w1 = w_file_senders w" by (simp_all add: w1_def call_back_def emit_def)
  have c: "notify_file_canceled_cb n f w1 = Some (call_back CB_file_canceled (File_canceled (b58 key) f) w2)"
    using b(1) tracker_last [OF i] numbers(1) full r1(1)
    by (simp add: notify_file_canceled_cb_def drop_transfer_def remove_file_receiver_def find_file_receiver_def w2_def Let_def)
  define w3 where "w3 = call_back CB_file_canceled (File_canceled (b58 key) f) w2"
  have B3: "peer_ok env beyond D w3 key n" unfolding w3_def by (rule peer_call_back) (use b(2) in \<open>simp_all add: w2_def\<close>)
  obtain d where d: "\<forall>u k. with_friend n w3 u k = k (b58 key) (w3\<lparr>w_friends := ot_hold d (w_friends w3)\<rparr>)" by (rule with_peer [OF B3])
  have s3: "w_file_senders w3 = w_file_senders w" "w_fs w3 = apply_op (Remove (c_str ''/tmp/'' @ name)) (w_fs w)" "w_file_receivers w3 = w_file_receivers w"
    by (simp_all add: w3_def w2_def r1 call_back_def emit_def)
  have "notify_file_rejected_cb n f w3 = Some (set_no_tracker (w3\<lparr>w_friends := ot_hold d (w_friends w3)\<rparr>))"
    using d numbers(3) s3(1) by (simp add: notify_file_rejected_cb_def find_file_sender_def)
  then have "file_calls env [File_recv n f filesize (name @ [0]), File_recv_control n f TOX_FILE_CONTROL_CANCEL] w
      = Some (set_no_tracker (w3\<lparr>w_friends := ot_hold d (w_friends w3)\<rparr>))"
    using a(1) [folded w1_def] c [folded w3_def] by (simp add: dht_callback_def notify_file_control_cb_def dht_notify_def)
  then show ?thesis using s3 by (simp add: set_no_tracker_def IOEX_set_error_def)
qed

lemma offer_and_cancel_unlinks_witness:
  "\<exists>w w'. fs_files (w_fs w) (c_str ''/tmp/../a'') = Some [1]
    \<and> file_calls (peer_env (replicate 32 1)) [File_recv 0 65536 7 (c_str ''../a'' @ [0]), File_recv_control 0 65536 TOX_FILE_CONTROL_CANCEL] w = Some w'
    \<and> fs_files (w_fs w') (c_str ''/tmp/../a'') = None"
proof -
  obtain w where w: "peer_ok (peer_env (replicate 32 1)) (\<lambda>_ _. 1) (demo_D (Some (replicate 32 1))) w (replicate 32 1) 0" "w_file_senders w = []" "w_file_receivers w = []"
    by (rule demo_peer [of "replicate 32 1" "replicate 32 2"]) (simp_all add: numeral_eq_Suc)
  let ?w = "w\<lparr>w_fs := \<lparr>fs_files = [c_str ''/tmp/../a'' \<mapsto> [1]], fs_dirs = []\<rparr>\<rparr>"
  have "\<exists>w'. file_calls (peer_env (replicate 32 1)) [File_recv 0 65536 7 (c_str ''../a'' @ [0]), File_recv_control 0 65536 TOX_FILE_CONTROL_CANCEL] ?w = Some w'
    \<and> fs_files (w_fs w') = (fs_files (w_fs ?w))(c_str ''/tmp/'' @ c_str ''../a'' := None) \<and> w_file_receivers w' = w_file_receivers ?w"
    by (rule offer_and_cancel_unlinks [where key = "replicate 32 1"])
      (use w in \<open>simp_all add: is_sender_def find_file_sender_def find_file_receiver_def find_file_tracker_def is_cstring_def c_str_def IOEX_MAX_FILE_NAME_LEN_def\<close>)
  moreover have "c_str ''/tmp/'' @ c_str ''../a'' = c_str ''/tmp/../a''" by (simp add: c_str_def)
  ultimately obtain w' where
    "file_calls (peer_env (replicate 32 1)) [File_recv 0 65536 7 (c_str ''../a'' @ [0]), File_recv_control 0 65536 TOX_FILE_CONTROL_CANCEL] ?w = Some w'"
    "fs_files (w_fs w') (c_str ''/tmp/../a'') = None" by auto
  then show ?thesis by (intro exI [of _ ?w] exI [of _ w'] conjI) simp_all
qed


end
