(* ===== verification/ApiResults.thy ===== *)
theory ApiResults
  imports CarrierLife
begin

text \<open>
  The results of the functions of the application: 0, or -1 with an error code set that is negative as an \<^verbatim>\<open>int\<close>, so
  that a caller can tell success from failure and finds a reason.
\<close>

definition reports :: "(int \<times> IOEXCarrier) option \<Rightarrow> bool" where
  "reports m \<longleftrightarrow> (\<forall>rc w. m = Some (rc, w) \<longrightarrow> rc = 0 \<or> rc = -1 \<and> w_error w < 0)"

named_theorems result_rules

lemma reports_None [result_rules]: "reports None" by (simp add: reports_def)

lemma reports_success [result_rules]: "reports (Some (0, w))" by (simp add: reports_def)

lemma reports_fail: "e < 0 \<Longrightarrow> reports (fail e w)" by (simp add: reports_def fail_def IOEX_set_error_def)

lemma reports_fail_with [result_rules]: "code < 2 ^ 24 \<Longrightarrow> reports (fail_with code w)"
  by (rule reports_fail) (simp add: IOEX_GENERAL_ERROR_def)

lemma reports_bind [result_rules]: "(\<And>x. m = Some x \<Longrightarrow> reports (k x)) \<Longrightarrow> reports (Option.bind m k)"
  by (cases m) (simp_all add: reports_def)

lemma reports_finish [result_rules]: "reports (finish e w)"
  by (simp add: finish_def reports_success reports_fail)

lemma error_values:
  "IOEXERR_INVALID_ARGS < 2 ^ 24" "IOEXERR_OUT_OF_MEMORY < 2 ^ 24" "IOEXERR_NOT_EXIST < 2 ^ 24" "IOEXERR_NOT_READY < 2 ^ 24"
  "IOEXERR_ALREADY_EXIST < 2 ^ 24" "IOEXERR_NO_MATCHED_REQUEST < 2 ^ 24" "IOEXERR_FILE_DENY < 2 ^ 24" "IOEXERR_FILE_INVALID < 2 ^ 24"
  "IOEXERR_FILE_TRACKER_INVALID < 2 ^ 24"
  by (simp_all add: error_codes)

lemma reports_split [result_rules]:
  "(P \<Longrightarrow> reports m) \<Longrightarrow> (\<not> P \<Longrightarrow> reports m') \<Longrightarrow> reports (if P then m else m')"
  "(x = None \<Longrightarrow> reports m) \<Longrightarrow> (\<And>y. x = Some y \<Longrightarrow> reports (k y)) \<Longrightarrow> reports (case x of None \<Rightarrow> m | Some y \<Rightarrow> k y)"
  "(\<And>a b. p = (a, b) \<Longrightarrow> reports (f a b)) \<Longrightarrow> reports (case p of (a, b) \<Rightarrow> f a b)"
  "(\<And>a. r = Inl a \<Longrightarrow> reports (g a)) \<Longrightarrow> (\<And>b. r = Inr b \<Longrightarrow> reports (h b)) \<Longrightarrow> reports (case r of Inl a \<Rightarrow> g a | Inr b \<Rightarrow> h b)"
  by (simp_all split: option.split prod.split sum.split)

lemma checked_error: "checked_friend env friendid w = Some (Inl e) \<Longrightarrow> e < 0"
  by (auto simp: checked_friend_def bind_Some error_codes split: if_splits)

lemma message_reports: "reports (IOEX_send_friend_message env arg1 arg2 w)" "reports (IOEX_invite_friend env arg1 arg2 callback ctxt w)"
    "reports (IOEX_reply_friend_invite env arg status reason data w)"
  unfolding IOEX_send_friend_message_def IOEX_invite_friend_def IOEX_reply_friend_invite_def Let_def
  by (intro result_rules error_values reports_fail; assumption?)+

lemma self_reports: "reports (IOEX_set_self_nospam env nospam w)" "reports (IOEX_set_self_info env arg w)" "reports (IOEX_set_self_presence status w)"
  unfolding IOEX_set_self_nospam_def IOEX_set_self_info_def IOEX_set_self_presence_def Let_def
  by (intro result_rules error_values reports_fail; assumption?)+

lemma friend_reports: "reports (IOEX_set_friend_label env arg label w)" "reports (IOEX_remove_friend env arg w)"
    "reports (register_friend env a n userid fr w)"
  unfolding IOEX_set_friend_label_def IOEX_remove_friend_def register_friend_def Let_def
  by (intro result_rules error_values reports_fail; assumption?)+

lemma add_reports: "reports (IOEX_add_friend env arg1 arg2 w)" "reports (IOEX_accept_friend env arg w)"
  unfolding IOEX_add_friend_def IOEX_accept_friend_def Let_def
  by (intro result_rules error_values reports_fail friend_reports; assumption?)+

lemma file_reports: "reports (IOEX_send_file_seek env arg1 arg2 arg3 w)" "reports (IOEX_send_file_accept env arg1 arg2 arg3 arg4 w)"
    "reports (IOEX_send_file_reject env arg1 arg2 w)" "reports (IOEX_send_file_pause env arg1 arg2 w)"
    "reports (IOEX_send_file_resume env arg1 arg2 w)" "reports (IOEX_send_file_cancel env arg1 arg2 w)"
  unfolding IOEX_send_file_seek_def IOEX_send_file_accept_def IOEX_send_file_reject_def IOEX_send_file_pause_def IOEX_send_file_resume_def
    IOEX_send_file_cancel_def Let_def
  by (intro result_rules error_values reports_fail checked_error; (assumption | simp)?)+

text \<open>A file is offered under a number other than the largest one, unless Tox reports an error.\<close>

lemma file_request_reports:
  assumes "\<forall>tr n size name. fst (tox_file_send (ce_tox env) tr n size name) = UINT32_MAX \<longrightarrow> snd (tox_file_send (ce_tox env) tr n size name) \<noteq> TOX_ERR_FILE_SEND_OK"
  shows "reports (IOEX_send_file_request env arg1 arg2 w)"
proof -
  have neg: "rc < 0" if r: "dht_file_send_request (ce_tox env) tr size n path UINT32_MAX = Some (rc, f)" and "rc < 0 \<or> f = UINT32_MAX" for tr size n path rc f
  proof (cases "size path")
    case None
    with r show ?thesis by (auto simp: dht_file_send_request_def error_codes)
  next
    case (Some len)
    with r assms that(2) show ?thesis
      by (auto simp: dht_file_send_request_def bind_Some split: prod.splits) (metis fst_conv snd_conv)
  qed
  show ?thesis unfolding IOEX_send_file_request_def Let_def
    by (intro result_rules error_values reports_fail; hypsubst?; (erule checked_error | erule neg, assumption))
qed


end
