(* ===== verification/Spec2Isabelle.thy ===== *)
theory Spec2Isabelle
  imports Fifo SeqTime GQueue Bytes PseudoTcpDelivery PseudoTcpWire PseudoTcpState Bitset IdsHeap LinkedList HashTable
    TimerHeapSpec FlexBuffer MultiplexSpec MultiplexPeers MultiplexLoops Base58 Errors Address ObjTable Packets Friends Persistence Dht Carrier CarrierApi FileTransfer CarrierLife CarrierSafe
    CarrierRun CarrierStart CarrierLoop CarrierPeers FilePeers ApiResults
begin

text \<open>
  A verification development for the carrier SDK: the carrier node with its friends, messages, invitations, files
  and stored data; the pseudo-TCP transport of its sessions and the multiplexer of channels above it; and the
  common data structures on which these layers rest.

  \<^bold>\<open>The program.\<close> \<^verbatim>\<open>src/src/common\<close> holds containers (linked list, linked hash table, bit set,
  identifier allocator, timer heap), base58 and counted memory. \<^verbatim>\<open>src/src/carrier\<close> is the node: a layer over Tox
  (\<^verbatim>\<open>dht/dht.c\<close>), packets (\<^verbatim>\<open>IOEXcp.c\<close>), tables of friends, open transactions and invitations, and
  \<^verbatim>\<open>IOEX_carrier.c\<close>, which handles what Tox notifies, offers the interface of the application, and stores its data.
  \<^verbatim>\<open>src/src/session\<close> are the sessions between two peers: a chain of
  handlers (multiplexer, encryption, reliable transport) over an ICE transport, where the reliable transport
  is the pseudo-TCP implementation of \<^verbatim>\<open>src/src/session/pseudotcp\<close>.

  \<^bold>\<open>The carrier.\<close> Operations are named as in C. The carrier is the record \<open>IOEXCarrier\<close> (all fields of the struct,
  its files and the trace of what it did to the outside); functions that may fail an assertion or write out of
  bounds return \<open>None\<close> then. Tox, the generated serialization (flatcc), time and random numbers are the environment
  \<open>carrier_env\<close>; the answers of Tox may depend on the whole trace.
  \<^item> \<open>Base58\<close>, \<open>Errors\<close>, \<open>Address\<close>: the encoding of keys with its digit loops, error codes, addresses and their
    checksum. Encoding and decoding are inverse, decoding computes the value of the digits, single wrong bytes of
    an address are detected.
  \<^item> \<open>ObjTable\<close>: tables of counted objects as the carrier uses the hash table, from the contract of the latter.
    \<open>Friends\<close> (\<^verbatim>\<open>friends.h\<close>, \<^verbatim>\<open>tcallbacks.h\<close>, \<^verbatim>\<open>thistory.h\<close>): the three tables built on it.
  \<^item> \<open>Packets\<close> (\<^verbatim>\<open>IOEXcp.c\<close>): packets survive encoding and decoding, given that the serialization does.
  \<^item> \<open>Persistence\<close>: a file system, and the functions that store and load. A crash at any point of storing leaves
    data that load as the old or the new ones; what is stored loads back.
  \<^item> \<open>Dht\<close> (\<^verbatim>\<open>dht.c\<close>): the calls of Tox with their error codes, and its calls back.
  \<^item> \<open>Carrier\<close>, \<open>CarrierApi\<close>, \<open>FileTransfer\<close>, \<open>CarrierLife\<close> (\<^verbatim>\<open>IOEX_carrier.c\<close>): the notifications, the functions of
    the application, the transfer of files, creation, main loop, end and the query for a TURN server.
  \<^item> \<open>CarrierInv\<close>, \<open>CarrierSafe\<close>, \<open>CarrierRun\<close>: the invariant of the carrier (its tables are well formed and hold
    exactly the friends of the DHT), what is relied upon of Tox (\<open>dht_law\<close>: it keeps a list of friends that changes
    only by adding and deleting), and that each notification and each call of the application keeps the invariant.
  \<^item> \<open>CarrierStart\<close>: from stored data to any sequence of calls nothing fails; a restart restores the labels of
    friends. \<open>CarrierLoop\<close>: the main loop ends once the application kills the carrier.
  \<^item> \<open>CarrierPeers\<close>, \<open>FilePeers\<close>: two carriers that are friends: messages arrive, an invitation is answered once, files
    arrive whole. \<open>ApiResults\<close>: the functions of the application return 0, or -1 with an error code.

  \<^bold>\<open>Pseudo-TCP\<close> (\<^verbatim>\<open>pseudotcp.c\<close>). Every function of the file that changes state is a definition of the
  same name; long functions are split along their comments, and the parts are named in the theories.
  \<^item> \<open>SeqTime\<close>: clock and sequence arithmetic on 32-bit words (\<^verbatim>\<open>time_diff\<close>, \<^verbatim>\<open>LARGER\<close> and its kin). The
    lemmas give the exact windows in which the modular comparisons are right.
  \<^item> \<open>Fifo\<close>: the ring buffer \<^verbatim>\<open>PseudoTcpFifo\<close>; a locale \<open>byte_fifo\<close> states the contract of a bounded byte
    queue and is interpreted on the ring.
  \<^item> \<open>GQueue\<close>, \<open>Bytes\<close>: the queue operations the socket uses, and network byte order.
  \<^item> \<open>PseudoTcp\<close>, \<open>PseudoTcpSend\<close>, \<open>PseudoTcpRecv\<close>: the socket record (all fields of
    \<^verbatim>\<open>_PseudoTcpSocketPrivate\<close>, its segments in a store from addresses to segments, the packets and
    notifications it hands to its callbacks as a list of events), opening, queueing, packets,
    transmission, closing down; reception, options, acknowledgements, the FIN procedure, the clock, reading,
    properties. The callbacks and the clock of the system are fields and arguments of the model. An assertion
    that fails and an access out of bounds are the value \<open>None\<close>.
  \<^item> \<open>PseudoTcpState\<close>: the state machine. Every operation moves the state along forward transitions only,
    so runs of arbitrary calls do; closing down ends in \<^verbatim>\<open>CLOSED\<close>.
  \<^item> \<open>PseudoTcpWire\<close>: packets parse back to what was meant, options reach the peer, windows fit the header.
  \<^item> \<open>PseudoTcpStream\<close>, \<open>PseudoTcpDelivery\<close>: the receive buffer with its list of segments held out of order
    represents a prefix of the peer's stream plus islands ahead of it; from that, in-order delivery under
    reordering, duplication and overlap.

  \<^bold>\<open>Containers.\<close>
  \<^item> \<open>Bitset\<close>, \<open>IdsHeap\<close>: bit sets on 64-bit words and the allocator of identifiers on top, with the contract
    \<open>id_allocator\<close>. What the C compiler makes of the too wide shift in \<^verbatim>\<open>bitset_isset\<close> is a parameter.
  \<^item> \<open>LinkedList\<close>: the doubly linked circle over a store of entries, with iterators and reference counts; the
    contract \<open>entry_queue\<close>.
  \<^item> \<open>HashTable\<close>: buckets and insertion order; refinement to an association list, contract \<open>keyed_table\<close>.
  \<^item> \<open>TimerHeap\<close>, \<open>TimerHeapInv\<close>, \<open>TimerHeapSpec\<close>: the binary heap of timers with its table of identifiers;
    the invariant, and the contract \<open>earliest_first\<close> from which the polling loop is shown to take out what is
    due, earliest first.

  \<^bold>\<open>Handler chain.\<close>
  \<^item> \<open>FlexBuffer\<close> (\<^verbatim>\<open>flex_buffer.h\<close>): the buffers with headroom that handlers pass to each other.
  \<^item> \<open>Multiplex\<close> (\<^verbatim>\<open>multiplex_handler.c\<close>, \<^verbatim>\<open>channels.h\<close>): the multiplexer, composed from the models of the hash
    table (its channels), the identifier allocator and the buffers. Channels are objects in a store with
    reference counts. The next handler, the callbacks of the user and the clock are an environment that may
    answer depending on everything that happened before; what the handler does to the outside is a list of
    events.
  \<^item> \<open>MultiplexInv\<close>: table, store, counts and identifiers agree at rest; what removing, adding and changing a
    channel does to them.
  \<^item> \<open>MultiplexSpec\<close>: an abstract multiplexer (a map of channels and the events), and that packets and the
    functions of the interface refine it; hence sequences of valid calls never fail.
  \<^item> \<open>MultiplexStream\<close>: packets are reassembled from a stream, however it is cut. \<open>MultiplexPeers\<close>: two
    multiplexers that open a channel and send data; where the protocol breaks. \<open>MultiplexLoops\<close>: closing all
    channels and the periodic checkpoint, which remove channels while they iterate over them.

  \<^bold>\<open>Bounds and fuel.\<close> The loop of \<^verbatim>\<open>attempt_send\<close> runs on fuel, one unit per iteration; the amount is
  computed from the unsent segments and bytes (\<open>attempt_send_fuel\<close>). The loop of \<^verbatim>\<open>timer_heap_poll\<close>, the main loop and the
  loops over linked structures that a broken structure could keep from ending are partial functions whose
  result \<open>None\<close> is divergence; that they return is proved on well-formed states. Sizes are natural numbers
  with the wrap-around of \<^verbatim>\<open>size_t\<close> written out where a subtraction can underflow; sequence numbers, windows
  and time stamps are 32-bit words. Seconds and milliseconds of the timer heap are unbounded integers.

  \<^bold>\<open>Not modelled.\<close> Locks (taking one is assumed to succeed), memory exhaustion, logging and dumping,
  destruction of containers; the reliable handler, which calls the pseudo-TCP socket again from inside its callbacks,
  while the model of the socket records its callbacks as events; the session management over the ICE library,
  encryption, port forwarding and the applications, which mostly call libraries outside this repository or do input
  and output on sockets.
\<close>

end
